(* ===== verification/Prelude.thy ===== *)
theory Prelude
  imports Complex_Main
begin

text \<open>
  Shared vocabulary of the development.

  \<^item> A state-and-error computation \<open>('s, 'e, 'a) M\<close>: a coroutine or method of the program that may
    read and change a state \<open>'s\<close> and either returns (\<open>Inr\<close>) or raises (\<open>Inl\<close>).  The state survives
    an exception, as it does in Python.
  \<^item> Three reasoning tools over such computations, each with a collection of structural rules:
    Hoare triples \<open>triple\<close>, invariants \<open>keeps\<close> and framing \<open>frames\<close> (a component of the state is
    left as it was).
  \<^item> Python dictionaries as insertion-ordered association lists (\<open>dget\<close>, \<open>dput\<close>, \<open>dpop\<close>).
  \<^item> Python strings as char lists with the few library functions the code calls.
\<close>

section \<open>State-and-error computations\<close>

type_synonym ('s, 'e, 'a) M = "'s \<Rightarrow> ('e + 'a) \<times> 's"

named_theorems monad_simps "evaluation of computations on a state"
named_theorems keeps_intros "structural rules for invariants of computations"
named_theorems frames_intros "structural rules for framed state components"

definition returnM :: "'a \<Rightarrow> ('s, 'e, 'a) M" where
  "returnM a s = (Inr a, s)"

definition raiseM :: "'e \<Rightarrow> ('s, 'e, 'a) M" where
  "raiseM e s = (Inl e, s)"

definition bindM :: "('s, 'e, 'a) M \<Rightarrow> ('a \<Rightarrow> ('s, 'e, 'b) M) \<Rightarrow> ('s, 'e, 'b) M" where
  "bindM m f s = (case m s of (Inl e, s') \<Rightarrow> (Inl e, s') | (Inr a, s') \<Rightarrow> f a s')"

definition thenM :: "('s, 'e, 'a) M \<Rightarrow> ('s, 'e, 'b) M \<Rightarrow> ('s, 'e, 'b) M" where
  "thenM m n = bindM m (\<lambda>_. n)"

text \<open>\<open>catchM m h\<close> is \<open>try: m except ... as e: h e\<close>; a handler that does not match re-raises.\<close>

definition catchM :: "('s, 'e, 'a) M \<Rightarrow> ('e \<Rightarrow> ('s, 'e, 'a) M) \<Rightarrow> ('s, 'e, 'a) M" where
  "catchM m h s = (case m s of (Inl e, s') \<Rightarrow> h e s' | (Inr a, s') \<Rightarrow> (Inr a, s'))"

text \<open>\<open>finallyM m f\<close> is \<open>try: m finally: f\<close>: an exception of the cleanup replaces the outcome.\<close>

definition finallyM :: "('s, 'e, 'a) M \<Rightarrow> ('s, 'e, unit) M \<Rightarrow> ('s, 'e, 'a) M" where
  "finallyM m f s = (case m s of (r, s') \<Rightarrow>
     (case f s' of (Inl e, s'') \<Rightarrow> (Inl e, s'') | (Inr _, s'') \<Rightarrow> (r, s'')))"

definition getsM :: "('s \<Rightarrow> 'a) \<Rightarrow> ('s, 'e, 'a) M" where
  "getsM f s = (Inr (f s), s)"

definition modifyM :: "('s \<Rightarrow> 's) \<Rightarrow> ('s, 'e, unit) M" where
  "modifyM f s = (Inr (), f s)"

definition skipM :: "('s, 'e, unit) M" where
  "skipM = returnM ()"

definition whenM :: "bool \<Rightarrow> ('s, 'e, unit) M \<Rightarrow> ('s, 'e, unit) M" where
  "whenM b m = (if b then m else skipM)"

definition fromSum :: "'e + 'a \<Rightarrow> ('s, 'e, 'a) M" where
  "fromSum r s = (r, s)"

text \<open>The outcome of a computation as a value, the way \<open>asyncio.gather(return_exceptions=True)\<close> hands it back.\<close>

definition attemptM :: "('s, 'e, 'a) M \<Rightarrow> ('s, 'e, 'e + 'a) M" where
  "attemptM m s = (case m s of (r, s') \<Rightarrow> (Inr r, s'))"

fun forM :: "'a list \<Rightarrow> ('a \<Rightarrow> ('s, 'e, unit) M) \<Rightarrow> ('s, 'e, unit) M" where
  "forM [] f = skipM"
| "forM (x # xs) f = thenM (f x) (forM xs f)"

fun mapM :: "('a \<Rightarrow> ('s, 'e, 'b) M) \<Rightarrow> 'a list \<Rightarrow> ('s, 'e, 'b list) M" where
  "mapM f [] = returnM []"
| "mapM f (x # xs) = bindM (f x) (\<lambda>y. bindM (mapM f xs) (\<lambda>ys. returnM (y # ys)))"

declare returnM_def [monad_simps] raiseM_def [monad_simps] bindM_def [monad_simps]
  thenM_def [monad_simps] catchM_def [monad_simps] finallyM_def [monad_simps]
  getsM_def [monad_simps] modifyM_def [monad_simps] skipM_def [monad_simps]
  whenM_def [monad_simps] fromSum_def [monad_simps] attemptM_def [monad_simps]

lemma bindM_return [simp]: "bindM (returnM a) f = f a"
  by (simp add: monad_simps fun_eq_iff)

lemma bindM_raise [simp]: "bindM (raiseM e) f = raiseM e"
  by (simp add: monad_simps fun_eq_iff)

lemma bindM_fromSum: "bindM (fromSum (Inr a)) f = f a" "bindM (fromSum (Inl e)) f = raiseM e"
  by (simp_all add: monad_simps fun_eq_iff)

lemma bindM_assoc: "bindM (bindM m f) g = bindM m (\<lambda>a. bindM (f a) g)"
  by (auto simp: monad_simps fun_eq_iff split: prod.splits sum.splits)

lemma thenM_skip [simp]: "thenM skipM m = m"
  by (simp add: thenM_def skipM_def)

lemma bindM_Inr: "m s = (Inr a, s') \<Longrightarrow> bindM m f s = f a s'"
  by (simp add: bindM_def)

lemma bindM_Inl: "m s = (Inl e, s') \<Longrightarrow> bindM m f s = (Inl e, s')"
  by (simp add: bindM_def)

subsection \<open>Hoare triples\<close>

text \<open>From a state satisfying \<open>P\<close>, a normal return satisfies \<open>Q\<close> and an exception satisfies \<open>E\<close>;
  computations are total, so this is total correctness.\<close>

definition triple :: "('s \<Rightarrow> bool) \<Rightarrow> ('s, 'e, 'a) M \<Rightarrow> ('a \<Rightarrow> 's \<Rightarrow> bool) \<Rightarrow> ('e \<Rightarrow> 's \<Rightarrow> bool) \<Rightarrow> bool" where
  "triple P m Q E \<longleftrightarrow>
     (\<forall>s. P s \<longrightarrow> (case m s of (Inl e, s') \<Rightarrow> E e s' | (Inr a, s') \<Rightarrow> Q a s'))"

lemma tripleI:
  "(\<And>s e s'. P s \<Longrightarrow> m s = (Inl e, s') \<Longrightarrow> E e s') \<Longrightarrow>
   (\<And>s a s'. P s \<Longrightarrow> m s = (Inr a, s') \<Longrightarrow> Q a s') \<Longrightarrow> triple P m Q E"
  by (auto simp: triple_def split: prod.splits sum.splits)

lemma tripleD_Inr: "triple P m Q E \<Longrightarrow> P s \<Longrightarrow> m s = (Inr a, s') \<Longrightarrow> Q a s'"
  unfolding triple_def by (drule spec [of _ s]) simp

lemma tripleD_Inl: "triple P m Q E \<Longrightarrow> P s \<Longrightarrow> m s = (Inl e, s') \<Longrightarrow> E e s'"
  unfolding triple_def by (drule spec [of _ s]) simp

lemma triple_conseq:
  "triple P m Q E \<Longrightarrow> (\<And>s. P' s \<Longrightarrow> P s) \<Longrightarrow> (\<And>a s. Q a s \<Longrightarrow> Q' a s) \<Longrightarrow>
   (\<And>e s. E e s \<Longrightarrow> E' e s) \<Longrightarrow> triple P' m Q' E'"
  by (fastforce simp: triple_def split: prod.splits sum.splits)

lemma triple_return: "triple (Q a) (returnM a) Q E"
  by (simp add: triple_def returnM_def)

lemma triple_raise: "triple (E e) (raiseM e) Q E"
  by (simp add: triple_def raiseM_def)

lemma triple_bind:
  "triple P m R E \<Longrightarrow> (\<And>a. triple (R a) (f a) Q E) \<Longrightarrow> triple P (bindM m f) Q E"
  by (fastforce simp: triple_def bindM_def split: prod.splits sum.splits)

lemma triple_catch:
  "triple P m Q R \<Longrightarrow> (\<And>e. triple (R e) (h e) Q E) \<Longrightarrow> triple P (catchM m h) Q E"
  by (fastforce simp: triple_def catchM_def split: prod.splits sum.splits)

lemma triple_gets: "triple (\<lambda>s. Q (f s) s) (getsM f) Q E"
  by (simp add: triple_def getsM_def)

lemma triple_modify: "triple (\<lambda>s. Q () (f s)) (modifyM f) Q E"
  by (simp add: triple_def modifyM_def)

subsection \<open>Invariants\<close>

definition keeps :: "('s \<Rightarrow> bool) \<Rightarrow> ('s, 'e, 'a) M \<Rightarrow> bool" where
  "keeps P m \<longleftrightarrow> (\<forall>s. P s \<longrightarrow> P (snd (m s)))"

lemma keepsI: "(\<And>s. P s \<Longrightarrow> P (snd (m s))) \<Longrightarrow> keeps P m"
  by (simp add: keeps_def)

lemma keepsD: "keeps P m \<Longrightarrow> P s \<Longrightarrow> P (snd (m s))"
  by (simp add: keeps_def)

lemma keepsD': "keeps P m \<Longrightarrow> P s \<Longrightarrow> m s = (r, s') \<Longrightarrow> P s'"
  by (drule keepsD [of P m s]) auto

lemma keeps_return [keeps_intros]: "keeps P (returnM a)"
  by (simp add: keeps_def returnM_def)

lemma keeps_raise [keeps_intros]: "keeps P (raiseM e)"
  by (simp add: keeps_def raiseM_def)

lemma keeps_skip [keeps_intros]: "keeps P skipM"
  by (simp add: keeps_def skipM_def returnM_def)

lemma keeps_gets [keeps_intros]: "keeps P (getsM f)"
  by (simp add: keeps_def getsM_def)

lemma keeps_fromSum [keeps_intros]: "keeps P (fromSum r)"
  by (simp add: keeps_def fromSum_def)

lemma keeps_bind [keeps_intros]:
  "keeps P m \<Longrightarrow> (\<And>a. keeps P (f a)) \<Longrightarrow> keeps P (bindM m f)"
  by (fastforce simp: keeps_def bindM_def split: prod.splits sum.splits)

lemma keeps_then [keeps_intros]: "keeps P m \<Longrightarrow> keeps P n \<Longrightarrow> keeps P (thenM m n)"
  by (simp add: thenM_def keeps_bind)

lemma keeps_catch [keeps_intros]:
  "keeps P m \<Longrightarrow> (\<And>e. keeps P (h e)) \<Longrightarrow> keeps P (catchM m h)"
  by (fastforce simp: keeps_def catchM_def split: prod.splits sum.splits)

lemma keeps_finally [keeps_intros]: "keeps P m \<Longrightarrow> keeps P f \<Longrightarrow> keeps P (finallyM m f)"
  by (fastforce simp: keeps_def finallyM_def split: prod.splits sum.splits)

lemma keeps_attempt [keeps_intros]: "keeps P m \<Longrightarrow> keeps P (attemptM m)"
  by (fastforce simp: keeps_def attemptM_def split: prod.splits)

lemma keeps_when [keeps_intros]: "(b \<Longrightarrow> keeps P m) \<Longrightarrow> keeps P (whenM b m)"
  by (simp add: whenM_def keeps_skip)

lemma keeps_if [keeps_intros]:
  "(b \<Longrightarrow> keeps P m) \<Longrightarrow> (\<not> b \<Longrightarrow> keeps P n) \<Longrightarrow> keeps P (if b then m else n)"
  by simp

lemma keeps_option [keeps_intros]:
  "(x = None \<Longrightarrow> keeps P m) \<Longrightarrow> (\<And>a. x = Some a \<Longrightarrow> keeps P (f a)) \<Longrightarrow>
   keeps P (case x of None \<Rightarrow> m | Some a \<Rightarrow> f a)"
  by (cases x) simp_all

lemma keeps_sum [keeps_intros]:
  "(\<And>e. x = Inl e \<Longrightarrow> keeps P (h e)) \<Longrightarrow> (\<And>a. x = Inr a \<Longrightarrow> keeps P (f a)) \<Longrightarrow>
   keeps P (case x of Inl e \<Rightarrow> h e | Inr a \<Rightarrow> f a)"
  by (cases x) simp_all

lemma keeps_prod [keeps_intros]:
  "(\<And>a b. x = (a, b) \<Longrightarrow> keeps P (f a b)) \<Longrightarrow> keeps P (case x of (a, b) \<Rightarrow> f a b)"
  by (cases x) simp

lemma keeps_modify: "(\<And>s. P s \<Longrightarrow> P (f s)) \<Longrightarrow> keeps P (modifyM f)"
  by (simp add: keeps_def modifyM_def)

lemma keeps_forM [keeps_intros]: "(\<And>x. x \<in> set xs \<Longrightarrow> keeps P (f x)) \<Longrightarrow> keeps P (forM xs f)"
  by (induction xs) (auto intro: keeps_skip keeps_then)

lemma keeps_mapM [keeps_intros]: "(\<And>x. x \<in> set xs \<Longrightarrow> keeps P (f x)) \<Longrightarrow> keeps P (mapM f xs)"
  by (induction xs) (auto intro!: keeps_return keeps_bind)

lemma keeps_conj: "keeps P m \<Longrightarrow> keeps Q m \<Longrightarrow> keeps (\<lambda>s. P s \<and> Q s) m"
  by (auto simp: keeps_def)

subsection \<open>Framing\<close>

text \<open>\<open>frames f m\<close>: whatever the outcome, \<open>m\<close> leaves the component \<open>f\<close> of the state unchanged.\<close>

definition frames :: "('s \<Rightarrow> 'c) \<Rightarrow> ('s, 'e, 'a) M \<Rightarrow> bool" where
  "frames f m \<longleftrightarrow> (\<forall>s. f (snd (m s)) = f s)"

lemma framesI: "(\<And>s. f (snd (m s)) = f s) \<Longrightarrow> frames f m"
  by (simp add: frames_def)

lemma framesD: "frames f m \<Longrightarrow> f (snd (m s)) = f s"
  by (simp add: frames_def)

lemma framesD': "frames f m \<Longrightarrow> m s = (r, s') \<Longrightarrow> f s' = f s"
  by (drule framesD [of f m s]) simp

lemma frames_iff_keeps: "frames f m \<longleftrightarrow> (\<forall>v. keeps (\<lambda>s. f s = v) m)"
  by (auto simp: frames_def keeps_def)

lemma frames_keeps: "frames f m \<Longrightarrow> keeps (\<lambda>s. P (f s)) m"
  by (simp add: frames_def keeps_def)

lemma frames_return [frames_intros]: "frames f (returnM a)"
  by (simp add: frames_def returnM_def)

lemma frames_raise [frames_intros]: "frames f (raiseM e)"
  by (simp add: frames_def raiseM_def)

lemma frames_skip [frames_intros]: "frames f skipM"
  by (simp add: frames_def skipM_def returnM_def)

lemma frames_gets [frames_intros]: "frames f (getsM g)"
  by (simp add: frames_def getsM_def)

lemma frames_fromSum [frames_intros]: "frames f (fromSum r)"
  by (simp add: frames_def fromSum_def)

lemma frames_bind [frames_intros]:
  "frames c m \<Longrightarrow> (\<And>a. frames c (f a)) \<Longrightarrow> frames c (bindM m f)"
  unfolding frames_iff_keeps by (blast intro: keeps_bind)

lemma frames_then [frames_intros]: "frames c m \<Longrightarrow> frames c n \<Longrightarrow> frames c (thenM m n)"
  unfolding frames_iff_keeps by (blast intro: keeps_then)

lemma frames_catch [frames_intros]:
  "frames c m \<Longrightarrow> (\<And>e. frames c (h e)) \<Longrightarrow> frames c (catchM m h)"
  unfolding frames_iff_keeps by (blast intro: keeps_catch)

lemma frames_finally [frames_intros]: "frames c m \<Longrightarrow> frames c f \<Longrightarrow> frames c (finallyM m f)"
  unfolding frames_iff_keeps by (blast intro: keeps_finally)

lemma frames_attempt [frames_intros]: "frames c m \<Longrightarrow> frames c (attemptM m)"
  unfolding frames_iff_keeps by (blast intro: keeps_attempt)

lemma frames_when [frames_intros]: "(b \<Longrightarrow> frames c m) \<Longrightarrow> frames c (whenM b m)"
  by (simp add: whenM_def frames_skip)

lemma frames_if [frames_intros]:
  "(b \<Longrightarrow> frames c m) \<Longrightarrow> (\<not> b \<Longrightarrow> frames c n) \<Longrightarrow> frames c (if b then m else n)"
  by simp

lemma frames_option [frames_intros]:
  "(x = None \<Longrightarrow> frames c m) \<Longrightarrow> (\<And>a. x = Some a \<Longrightarrow> frames c (f a)) \<Longrightarrow>
   frames c (case x of None \<Rightarrow> m | Some a \<Rightarrow> f a)"
  by (cases x) simp_all

lemma frames_sum [frames_intros]:
  "(\<And>e. x = Inl e \<Longrightarrow> frames c (h e)) \<Longrightarrow> (\<And>a. x = Inr a \<Longrightarrow> frames c (f a)) \<Longrightarrow>
   frames c (case x of Inl e \<Rightarrow> h e | Inr a \<Rightarrow> f a)"
  by (cases x) simp_all

lemma frames_prod [frames_intros]:
  "(\<And>a b. x = (a, b) \<Longrightarrow> frames c (f a b)) \<Longrightarrow> frames c (case x of (a, b) \<Rightarrow> f a b)"
  by (cases x) simp

lemma frames_modify: "(\<And>s. f (g s) = f s) \<Longrightarrow> frames f (modifyM g)"
  by (simp add: frames_def modifyM_def)

lemma frames_forM [frames_intros]: "(\<And>x. x \<in> set xs \<Longrightarrow> frames c (f x)) \<Longrightarrow> frames c (forM xs f)"
  by (induction xs) (auto intro: frames_skip frames_then)

lemma frames_mapM [frames_intros]: "(\<And>x. x \<in> set xs \<Longrightarrow> frames c (f x)) \<Longrightarrow> frames c (mapM f xs)"
  by (induction xs) (auto intro!: frames_return frames_bind)

lemma frames_comp: "frames f m \<Longrightarrow> frames (\<lambda>s. g (f s)) m"
  by (simp add: frames_def)

section \<open>Dictionaries\<close>

text \<open>A Python dict keeps its keys in order of first insertion; assigning to an existing key keeps its
  place, and deleting then re-inserting moves it to the end.\<close>

fun dget :: "('k \<times> 'v) list \<Rightarrow> 'k \<Rightarrow> 'v option" where
  "dget [] k = None"
| "dget ((k', v) # d) k = (if k = k' then Some v else dget d k)"

fun dput :: "'k \<Rightarrow> 'v \<Rightarrow> ('k \<times> 'v) list \<Rightarrow> ('k \<times> 'v) list" where
  "dput k v [] = [(k, v)]"
| "dput k v ((k', v') # d) = (if k = k' then (k, v) # d else (k', v') # dput k v d)"

fun dpop :: "'k \<Rightarrow> ('k \<times> 'v) list \<Rightarrow> ('k \<times> 'v) list" where
  "dpop k [] = []"
| "dpop k ((k', v) # d) = (if k = k' then d else (k', v) # dpop k d)"

definition dhas :: "('k \<times> 'v) list \<Rightarrow> 'k \<Rightarrow> bool" where
  "dhas d k \<longleftrightarrow> dget d k \<noteq> None"

definition dkeys :: "('k \<times> 'v) list \<Rightarrow> 'k list" where
  "dkeys d = map fst d"

definition dvalues :: "('k \<times> 'v) list \<Rightarrow> 'v list" where
  "dvalues d = map snd d"

definition dict_ok :: "('k \<times> 'v) list \<Rightarrow> bool" where
  "dict_ok d \<longleftrightarrow> distinct (map fst d)"

lemma dget_None_iff: "dget d k = None \<longleftrightarrow> k \<notin> fst ` set d"
  by (induction d) (auto split: if_splits)

lemma dget_Some_mem: "dget d k = Some v \<Longrightarrow> (k, v) \<in> set d"
  by (induction d) (auto split: if_splits)

lemma dget_mem: "dict_ok d \<Longrightarrow> (k, v) \<in> set d \<Longrightarrow> dget d k = Some v"
  by (induction d) (auto simp: dict_ok_def image_iff)

lemma dhas_iff: "dhas d k \<longleftrightarrow> k \<in> set (dkeys d)"
  by (simp add: dhas_def dkeys_def dget_None_iff)

lemma dget_dput [simp]: "dget (dput k v d) k' = (if k' = k then Some v else dget d k')"
  by (induction d) auto

lemma dget_dpop [simp]: "dict_ok d \<Longrightarrow> dget (dpop k d) k' = (if k' = k then None else dget d k')"
proof (induction k d rule: dpop.induct)
  case (2 k j v d)
  then show ?case using dget_None_iff [of d j] by (cases "k = j") (auto simp: dict_ok_def)
qed simp

lemma fst_dput: "fst ` set (dput k v d) = insert k (fst ` set d)"
  by (induction k v d rule: dput.induct) (simp_all add: insert_commute split: if_split)

lemma fst_dpop_subset: "fst ` set (dpop k d) \<subseteq> fst ` set d"
  by (induction k d rule: dpop.induct) (simp_all add: subset_insertI2 subset_insertI split: if_split)

lemma set_dpop_subset: "set (dpop k d) \<subseteq> set d"
  by (induction d) (auto split: if_splits)

lemma dict_ok_Nil [simp]: "dict_ok []"
  by (simp add: dict_ok_def)

lemma dict_ok_dput [simp]: "dict_ok d \<Longrightarrow> dict_ok (dput k v d)"
proof (induction d)
  case (Cons p d)
  then show ?case by (cases p) (auto simp: dict_ok_def fst_dput)
qed (simp add: dict_ok_def)

lemma dict_ok_dpop [simp]: "dict_ok d \<Longrightarrow> dict_ok (dpop k d)"
proof (induction d)
  case (Cons p d)
  then show ?case using fst_dpop_subset [of k d] by (cases p) (auto simp: dict_ok_def)
qed (simp add: dict_ok_def)

lemma dict_ok_filter [simp]: "dict_ok d \<Longrightarrow> dict_ok (filter P d)"
  by (induction d) (auto simp: dict_ok_def)

lemma dpop_absent: "dget d k = None \<Longrightarrow> dpop k d = d"
  by (induction d) (auto split: if_splits)

lemma length_dpop: "length (dpop k d) = length d - (if dget d k = None then 0 else 1)"
proof (induction d)
  case (Cons p d)
  then show ?case by (cases p; cases d) (auto simp: dget_None_iff)
qed simp

lemma length_dput: "length (dput k v d) = length d + (if dget d k = None then 1 else 0)"
  by (induction d) (auto split: if_splits)

lemma snd_dput_subset: "snd ` set (dput k v d) \<subseteq> insert v (snd ` set d)"
  by (induction k v d rule: dput.induct) (simp_all split: if_split, blast+)

lemma snd_dpop_subset: "snd ` set (dpop k d) \<subseteq> snd ` set d"
  using set_dpop_subset by (rule image_mono)

lemma distinct_snd_dput: "distinct (map snd d) \<Longrightarrow> v \<notin> snd ` set d \<Longrightarrow> distinct (map snd (dput k v d))"
proof (induction d)
  case (Cons p d)
  then show ?case using snd_dput_subset [of k v d] by (cases p) (simp, blast)
qed simp

lemma distinct_snd_dpop: "distinct (map snd d) \<Longrightarrow> distinct (map snd (dpop k d))"
proof (induction d)
  case (Cons p d)
  then show ?case using snd_dpop_subset [of k d] by (cases p) (simp, blast)
qed simp

text \<open>The keyed-table interface the trackers and the session store rely on.\<close>

locale keyed_table =
  fixes lookup :: "'t \<Rightarrow> 'k \<Rightarrow> 'v option"
    and put :: "'k \<Rightarrow> 'v \<Rightarrow> 't \<Rightarrow> 't"
    and drop :: "'k \<Rightarrow> 't \<Rightarrow> 't"
    and wf :: "'t \<Rightarrow> bool"
  assumes lookup_put: "wf t \<Longrightarrow> lookup (put k v t) k' = (if k' = k then Some v else lookup t k')"
    and lookup_drop: "wf t \<Longrightarrow> lookup (drop k t) k' = (if k' = k then None else lookup t k')"
    and wf_put: "wf t \<Longrightarrow> wf (put k v t)"
    and wf_drop: "wf t \<Longrightarrow> wf (drop k t)"
begin

lemma drop_put_same: "wf t \<Longrightarrow> lookup (drop k (put k v t)) k' = (if k' = k then None else lookup t k')"
  by (simp add: lookup_drop lookup_put wf_put)

lemma put_put_same: "wf t \<Longrightarrow> lookup (put k v (put k u t)) = lookup (put k v t)"
  by (simp add: fun_eq_iff lookup_put wf_put)

lemma put_commute:
  "wf t \<Longrightarrow> k \<noteq> j \<Longrightarrow> lookup (put k v (put j u t)) = lookup (put j u (put k v t))"
  by (simp add: fun_eq_iff lookup_put wf_put)

lemma drop_commute: "wf t \<Longrightarrow> lookup (drop k (drop j t)) = lookup (drop j (drop k t))"
  by (simp add: fun_eq_iff lookup_drop wf_drop)

lemma drop_twice: "wf t \<Longrightarrow> lookup (drop k (drop k t)) = lookup (drop k t)"
  by (simp add: fun_eq_iff lookup_drop wf_drop)

end

interpretation dict: keyed_table dget dput dpop dict_ok
  by unfold_locales simp_all

section \<open>Strings\<close>

definition starts_with :: "string \<Rightarrow> string \<Rightarrow> bool" where
  "starts_with p s \<longleftrightarrow> take (length p) s = p"

definition ends_with :: "string \<Rightarrow> string \<Rightarrow> bool" where
  "ends_with p s \<longleftrightarrow> starts_with (rev p) (rev s)"

text \<open>\<open>sep.join(parts)\<close> and \<open>s.split(c)\<close> for a one-character separator.\<close>

fun join :: "string \<Rightarrow> string list \<Rightarrow> string" where
  "join sep [] = []"
| "join sep [x] = x"
| "join sep (x # y # xs) = x @ sep @ join sep (y # xs)"

fun split_on :: "char \<Rightarrow> string \<Rightarrow> string list" where
  "split_on c [] = [[]]"
| "split_on c (x # xs) =
     (if x = c then [] # split_on c xs
      else (case split_on c xs of [] \<Rightarrow> [[x]] | (p # ps) \<Rightarrow> (x # p) # ps))"

text \<open>\<open>s.partition(c)\<close> for a one-character separator: head, whether it was found, tail.\<close>

fun partition_on :: "char \<Rightarrow> string \<Rightarrow> string \<times> bool \<times> string" where
  "partition_on c [] = ([], False, [])"
| "partition_on c (x # xs) =
     (if x = c then ([], True, xs)
      else (case partition_on c xs of (h, f, t) \<Rightarrow> (x # h, f, t)))"

definition digit_char :: "nat \<Rightarrow> char" where
  "digit_char d = char_of (48 + d)"

fun show_nat :: "nat \<Rightarrow> string" where
  "show_nat n = (if n < 10 then [digit_char n] else show_nat (n div 10) @ [digit_char (n mod 10)])"

declare show_nat.simps [simp del]

definition show_int :: "int \<Rightarrow> string" where
  "show_int i = (if i < 0 then CHR ''-'' # show_nat (nat (- i)) else show_nat (nat i))"

definition is_digit :: "char \<Rightarrow> bool" where
  "is_digit c \<longleftrightarrow> 48 \<le> (of_char c :: nat) \<and> (of_char c :: nat) \<le> 57"

text \<open>\<open>int(s)\<close> on a string of ASCII digits with an optional sign.\<close>

definition digit_val :: "char \<Rightarrow> nat" where
  "digit_val c = of_char c - 48"

definition read_nat :: "string \<Rightarrow> nat option" where
  "read_nat s = (if s \<noteq> [] \<and> list_all is_digit s
                 then Some (foldl (\<lambda>n c. 10 * n + digit_val c) 0 s) else None)"

definition read_int :: "string \<Rightarrow> int option" where
  "read_int s = (case s of
       [] \<Rightarrow> None
     | c # r \<Rightarrow> if c = CHR ''-'' then map_option (\<lambda>n. - int n) (read_nat r)
                else if c = CHR ''+'' then map_option int (read_nat r)
                else map_option int (read_nat s))"

lemma split_on_ne [simp]: "split_on c s \<noteq> []"
  by (induction s) (auto split: list.splits)

lemma join_split_on [simp]: "join [c] (split_on c s) = s"
proof (induction s)
  case (Cons x xs)
  obtain p ps where ps: "split_on c xs = p # ps"
    by (cases "split_on c xs") auto
  show ?case using Cons ps by (cases ps) auto
qed simp

lemma split_on_no_sep: "c \<notin> set s \<Longrightarrow> split_on c s = [s]"
  by (induction s) auto

lemma split_on_append_sep: "c \<notin> set s \<Longrightarrow> split_on c (s @ c # t) = s # split_on c t"
  by (induction s) auto

lemma split_on_join:
  "ps \<noteq> [] \<Longrightarrow> (\<forall>p \<in> set ps. c \<notin> set p) \<Longrightarrow> split_on c (join [c] ps) = ps"
proof (induction ps rule: induct_list012)
  case (3 x y zs)
  then show ?case by (simp add: split_on_append_sep)
qed (auto simp: split_on_no_sep)

lemma partition_on_spec:
  "partition_on c s = (h, f, t) \<Longrightarrow>
   c \<notin> set h \<and> (f \<longrightarrow> s = h @ c # t) \<and> (\<not> f \<longrightarrow> s = h \<and> t = [] \<and> c \<notin> set s)"
  by (induction s arbitrary: h f t) (auto split: if_splits prod.splits)

lemma partition_on_join: "c \<notin> set h \<Longrightarrow> partition_on c (h @ c # t) = (h, True, t)"
  by (induction h) auto

lemma of_char_digit: "d < 10 \<Longrightarrow> (of_char (digit_char d) :: nat) = 48 + d"
  by (simp add: digit_char_def)

lemma is_digit_digit_char [simp]: "d < 10 \<Longrightarrow> is_digit (digit_char d)"
  by (simp add: is_digit_def of_char_digit)

lemma digit_val_digit_char [simp]: "d < 10 \<Longrightarrow> digit_val (digit_char d) = d"
  by (simp add: digit_val_def of_char_digit)

lemma show_nat_digits: "list_all is_digit (show_nat n)"
  by (induction n rule: show_nat.induct) (subst show_nat.simps, auto)

lemma show_nat_ne [simp]: "show_nat n \<noteq> []"
  by (subst show_nat.simps) simp

lemma foldl_show_nat: "foldl (\<lambda>n c. 10 * n + digit_val c) 0 (show_nat n) = n"
proof (induction n rule: show_nat.induct)
  case (1 n)
  then show ?case by (subst show_nat.simps) auto
qed

lemma read_show_nat [simp]: "read_nat (show_nat n) = Some n"
  by (simp add: read_nat_def show_nat_digits foldl_show_nat)

lemma is_digit_sign: "\<not> is_digit CHR ''-''" "\<not> is_digit CHR ''+''"
  by (simp_all add: is_digit_def)

lemma show_nat_head: "show_nat n = c # r \<Longrightarrow> is_digit c"
  using show_nat_digits [of n] by simp

lemma read_show_int [simp]: "read_int (show_int i) = Some i"
proof (cases "i < 0")
  case True
  then show ?thesis by (simp add: read_int_def show_int_def)
next
  case False
  obtain c r where cr: "show_nat (nat i) = c # r"
    by (cases "show_nat (nat i)") auto
  moreover have "is_digit c"
    using cr by (rule show_nat_head)
  moreover have "read_nat (c # r) = Some (nat i)"
    using read_show_nat [of "nat i"] cr by simp
  ultimately show ?thesis
    using False is_digit_sign by (auto simp: read_int_def show_int_def)
qed

lemma show_int_inject [simp]: "show_int i = show_int j \<longleftrightarrow> i = j"
  by (metis read_show_int option.inject)

lemma starts_with_append [simp]: "starts_with p (p @ s)"
  by (simp add: starts_with_def)

section \<open>JSON-like values\<close>

text \<open>The values of the \<open>dict[str, object]\<close> payloads (\<open>extra\<close>, \<open>webhook_custom_params\<close>, metadata).\<close>

datatype pyval =
    PNone
  | PBool bool
  | PInt int
  | PFloat rat
  | PStr string
  | PBytes string
  | PList "pyval list"
  | PDict "(string \<times> pyval) list"

type_synonym pydict = "(string \<times> pyval) list"

end
