(* ===== verification/Domain_Model.thy ===== *)
theory Domain_Model
  imports Prelude
begin

text \<open>
  The domain layer: \<open>yascheduler/domain/model.py\<close>, \<open>events.py\<close> and \<open>exceptions.py\<close>.

  Tasks carry their status as a state object (\<open>Todo\<close>, \<open>Running\<close>, \<open>Done\<close>); every transition checks the
  source state, retags the task and appends one event.  Nodes are plain records; a connected machine
  is FREE or BUSY.  \<open>exn\<close> lists the exceptions the modelled code raises or catches, with the class
  hierarchy as predicates.
\<close>

section \<open>Identifiers and time\<close>

datatype task_id = TaskId (tid_value: int)

datatype node_id = NodeId (nid_value: int)

record datetime =
  dt_year :: int
  dt_month :: int
  dt_day :: int
  dt_hour :: int
  dt_minute :: int
  dt_second :: int
  dt_micro :: int

section \<open>Exceptions\<close>

datatype exn =
    UnsupportedEngineError string
  | MissingInputFileError string string
  | TaskNotTodoError task_id
  | TaskNotRunningError task_id
  | MachineBusyError node_id
  | NodeRowNotFoundError node_id
  | MachineConnectionError node_id string string
  | NoCompatibleNodeError task_id "string list"
  | CloudCapacityExhaustedError task_id
  | CloudAllocateError string
  | CloudSetupError string
  | UnitOfWorkNotInitializedError string
  | TaskRowNotFoundError task_id
  | MigrationError string
  | DatabaseError string
  | ValueError string
  | TypeError string
  | KeyErr string
  | RuntimeErr string
  | OSErr string
  | TimeoutErr string
  | SSHRetryErr string
  | SFTPErr string
  | SFTPRetryErr string
  | OtherError string
  | CancelledError

definition is_ValidationError :: "exn \<Rightarrow> bool" where
  "is_ValidationError e = (case e of
     UnsupportedEngineError _ \<Rightarrow> True | MissingInputFileError _ _ \<Rightarrow> True | _ \<Rightarrow> False)"

definition is_TaskError :: "exn \<Rightarrow> bool" where
  "is_TaskError e = (case e of TaskNotTodoError _ \<Rightarrow> True | TaskNotRunningError _ \<Rightarrow> True | _ \<Rightarrow> False)"

definition is_SchedulingError :: "exn \<Rightarrow> bool" where
  "is_SchedulingError e = (case e of
     NoCompatibleNodeError _ _ \<Rightarrow> True | CloudCapacityExhaustedError _ \<Rightarrow> True | _ \<Rightarrow> False)"

definition is_CloudError :: "exn \<Rightarrow> bool" where
  "is_CloudError e = (case e of CloudAllocateError _ \<Rightarrow> True | CloudSetupError _ \<Rightarrow> True | _ \<Rightarrow> False)"

definition is_DomainError :: "exn \<Rightarrow> bool" where
  "is_DomainError e \<longleftrightarrow> is_ValidationError e \<or> is_TaskError e \<or> is_SchedulingError e \<or> is_CloudError e
     \<or> (case e of MachineBusyError _ \<Rightarrow> True | NodeRowNotFoundError _ \<Rightarrow> True
               | MachineConnectionError _ _ _ \<Rightarrow> True | _ \<Rightarrow> False)"

text \<open>\<open>str(exc)\<close>, for the messages the code builds from exceptions.\<close>

definition exn_str :: "exn \<Rightarrow> string" where
  "exn_str e = (case e of
     UnsupportedEngineError n \<Rightarrow> ''unsupported engine: '' @ n
   | MissingInputFileError n f \<Rightarrow> ''missing input file '' @ [char_of (39::nat)] @ f @ [char_of (39::nat)] @ '' for engine: '' @ n
   | MachineConnectionError i h r \<Rightarrow> ''cannot connect to machine ('' @ show_int (nid_value i) @ '') at '' @ h @ '': '' @ r
   | TaskNotTodoError i \<Rightarrow> ''task '' @ show_int (tid_value i) @ '' is not in TODO status''
   | TaskNotRunningError i \<Rightarrow> ''task '' @ show_int (tid_value i) @ '' is not in running status''
   | MachineBusyError i \<Rightarrow> ''machine ('' @ show_int (nid_value i) @ '') is busy''
   | NodeRowNotFoundError i \<Rightarrow> ''node row not found for node_id='' @ show_int (nid_value i)
   | TaskRowNotFoundError i \<Rightarrow> ''task row not found for task_id='' @ show_int (tid_value i)
   | NoCompatibleNodeError i _ \<Rightarrow> ''no compatible node found for task '' @ show_int (tid_value i)
   | CloudCapacityExhaustedError i \<Rightarrow> ''cloud capacity exhausted for task '' @ show_int (tid_value i)
   | CloudAllocateError m \<Rightarrow> m | CloudSetupError m \<Rightarrow> m
   | UnitOfWorkNotInitializedError m \<Rightarrow> m | MigrationError m \<Rightarrow> m | DatabaseError m \<Rightarrow> m
   | ValueError m \<Rightarrow> m | TypeError m \<Rightarrow> m | KeyErr m \<Rightarrow> m | RuntimeErr m \<Rightarrow> m | OSErr m \<Rightarrow> m
   | TimeoutErr m \<Rightarrow> m | SSHRetryErr m \<Rightarrow> m | SFTPErr m \<Rightarrow> m | SFTPRetryErr m \<Rightarrow> m
   | OtherError m \<Rightarrow> m | CancelledError \<Rightarrow> [])"

text \<open>The exception tuples of \<open>infra/ssh/platform/types.py\<close> and the class test \<open>OSError\<close>; a time-out is
  an \<open>OSError\<close> (as it is from Python 3.11 on).  \<open>SSHRetryErr\<close>, \<open>SFTPErr\<close> and \<open>SFTPRetryErr\<close> stand for
  the transport's retryable connection errors, its permanent SFTP errors and its transient ones.\<close>

definition is_OSError :: "exn \<Rightarrow> bool" where
  "is_OSError e = (case e of OSErr _ \<Rightarrow> True | TimeoutErr _ \<Rightarrow> True | _ \<Rightarrow> False)"

definition is_SFTPError :: "exn \<Rightarrow> bool" where
  "is_SFTPError e = (case e of SFTPErr _ \<Rightarrow> True | SFTPRetryErr _ \<Rightarrow> True | _ \<Rightarrow> False)"

definition is_SFTPRetry :: "exn \<Rightarrow> bool" where
  "is_SFTPRetry e = (case e of TimeoutErr _ \<Rightarrow> True | SFTPRetryErr _ \<Rightarrow> True | _ \<Rightarrow> False)"

definition is_SSHRetry :: "exn \<Rightarrow> bool" where
  "is_SSHRetry e = (case e of OSErr _ \<Rightarrow> True | TimeoutErr _ \<Rightarrow> True | SSHRetryErr _ \<Rightarrow> True | _ \<Rightarrow> False)"

text \<open>\<open>except Exception\<close> catches everything but the cancellation of the coroutine.\<close>

definition is_Exception :: "exn \<Rightarrow> bool" where
  "is_Exception e \<longleftrightarrow> e \<noteq> CancelledError"

text \<open>\<open>TaskId.__post_init__\<close> and \<open>NodeId.__post_init__\<close>.\<close>

definition mk_task_id :: "int \<Rightarrow> exn + task_id" where
  "mk_task_id v = (if v \<le> 0 then Inl (ValueError (''TaskId must be > 0, got '' @ show_int v))
                   else Inr (TaskId v))"

definition mk_node_id :: "int \<Rightarrow> exn + node_id" where
  "mk_node_id v = (if v \<le> 0 then Inl (ValueError (''NodeId must be > 0, got '' @ show_int v))
                   else Inr (NodeId v))"

definition task_id_str :: "task_id \<Rightarrow> string" where
  "task_id_str t = show_int (tid_value t)"

definition node_id_str :: "node_id \<Rightarrow> string" where
  "node_id_str n = show_int (nid_value n)"

section \<open>Events\<close>

record domain_event =
  ev_task_id :: task_id
  ev_webhook_url :: "string option"
  ev_webhook_custom_params :: pydict

datatype event =
    TaskCreated domain_event (ev_engine_name: string)
  | TaskAllocated domain_event (ev_node_id: node_id) (ev_engine: string)
  | TaskCompleted domain_event (ev_local_folder: string)
  | TaskFailed domain_event (ev_reason: string)
  | TaskAbandoned domain_event (ev_lost_node: node_id)

fun event_base :: "event \<Rightarrow> domain_event" where
  "event_base (TaskCreated b _) = b"
| "event_base (TaskAllocated b _ _) = b"
| "event_base (TaskCompleted b _) = b"
| "event_base (TaskFailed b _) = b"
| "event_base (TaskAbandoned b _) = b"

section \<open>Tasks\<close>

datatype task_status = TO_DO | RUNNING | DONE

fun status_code :: "task_status \<Rightarrow> int" where
  "status_code TO_DO = 0"
| "status_code RUNNING = 1"
| "status_code DONE = 2"

text \<open>\<open>TaskStatus(value)\<close>.\<close>

definition status_of_code :: "int \<Rightarrow> exn + task_status" where
  "status_of_code c = (if c = 0 then Inr TO_DO else if c = 1 then Inr RUNNING else if c = 2 then Inr DONE
     else Inl (ValueError (show_int c @ '' is not a valid TaskStatus'')))"

record new_task =
  nt_engine :: string
  nt_label :: string
  nt_local_folder :: "string option"
  nt_webhook_url :: "string option"
  nt_webhook_custom_params :: pydict
  nt_extra :: pydict

datatype task_state =
    Todo (todo_remote_folder: "string option")
  | Running (running_node: node_id) (running_remote_folder: string)
  | Done (done_error: "string option") (done_node: "node_id option") (done_remote_folder: "string option")

fun state_status :: "task_state \<Rightarrow> task_status" where
  "state_status (Todo _) = TO_DO"
| "state_status (Running _ _) = RUNNING"
| "state_status (Done _ _ _) = DONE"

record task =
  t_task_id :: task_id
  t_engine :: string
  t_state :: task_state
  t_created_at :: datetime
  t_updated_at :: datetime
  t_label :: string
  t_local_folder :: "string option"
  t_webhook_url :: "string option"
  t_webhook_custom_params :: pydict
  t_extra :: pydict
  t_events :: "event list"

definition t_status :: "task \<Rightarrow> task_status" where
  "t_status t = state_status (t_state t)"

text \<open>\<open>Task._advance\<close>.\<close>

definition advance :: "task \<Rightarrow> task_state \<Rightarrow> event \<Rightarrow> string option \<Rightarrow> task" where
  "advance t st ev local_folder =
     (case local_folder of
        None \<Rightarrow> t\<lparr>t_state := st, t_events := t_events t @ [ev]\<rparr>
      | Some lf \<Rightarrow> t\<lparr>t_state := st, t_events := t_events t @ [ev], t_local_folder := Some lf\<rparr>)"

definition base_of :: "task \<Rightarrow> domain_event" where
  "base_of t = \<lparr>ev_task_id = t_task_id t, ev_webhook_url = t_webhook_url t,
                ev_webhook_custom_params = t_webhook_custom_params t\<rparr>"

definition run_task :: "task \<Rightarrow> node_id \<Rightarrow> string \<Rightarrow> exn + task" where
  "run_task t nid remote_folder =
     (case t_state t of
        Todo _ \<Rightarrow> Inr (advance t (Running nid remote_folder) (TaskAllocated (base_of t) nid (t_engine t)) None)
      | _ \<Rightarrow> Inl (TaskNotTodoError (t_task_id t)))"

definition reject_task :: "task \<Rightarrow> string \<Rightarrow> exn + task" where
  "reject_task t reason =
     (case t_state t of
        Todo rf \<Rightarrow> Inr (advance t (Done (Some reason) None rf) (TaskFailed (base_of t) reason) None)
      | _ \<Rightarrow> Inl (TaskNotTodoError (t_task_id t)))"

definition complete_task :: "task \<Rightarrow> string \<Rightarrow> string \<Rightarrow> exn + task" where
  "complete_task t local_folder remote_folder =
     (case t_state t of
        Running nid _ \<Rightarrow> Inr (advance t (Done None (Some nid) (Some remote_folder))
                              (TaskCompleted (base_of t) local_folder) (Some local_folder))
      | _ \<Rightarrow> Inl (TaskNotRunningError (t_task_id t)))"

definition fail_task :: "task \<Rightarrow> string \<Rightarrow> string \<Rightarrow> string \<Rightarrow> exn + task" where
  "fail_task t reason local_folder remote_folder =
     (case t_state t of
        Running nid _ \<Rightarrow> Inr (advance t (Done (Some reason) (Some nid) (Some remote_folder))
                              (TaskFailed (base_of t) reason) (Some local_folder))
      | _ \<Rightarrow> Inl (TaskNotRunningError (t_task_id t)))"

definition default_abandon_error :: string where
  "default_abandon_error = ''node is gone''"

definition abandon_task :: "task \<Rightarrow> string \<Rightarrow> exn + task" where
  "abandon_task t error =
     (case t_state t of
        Running nid rf \<Rightarrow> Inr (advance t (Done (Some error) (Some nid) (Some rf))
                               (TaskAbandoned (base_of t) nid) None)
      | _ \<Rightarrow> Inl (TaskNotRunningError (t_task_id t)))"

fun allocated_node_id_of_state :: "task_state \<Rightarrow> node_id option" where
  "allocated_node_id_of_state (Running n _) = Some n"
| "allocated_node_id_of_state (Done _ n _) = n"
| "allocated_node_id_of_state (Todo _) = None"

definition allocated_node_id_of :: "task \<Rightarrow> node_id option" where
  "allocated_node_id_of t = allocated_node_id_of_state (t_state t)"

fun remote_folder_of_state :: "task_state \<Rightarrow> string option" where
  "remote_folder_of_state (Todo rf) = rf"
| "remote_folder_of_state (Running _ rf) = Some rf"
| "remote_folder_of_state (Done _ _ rf) = rf"

definition remote_folder_of :: "task \<Rightarrow> string option" where
  "remote_folder_of t = remote_folder_of_state (t_state t)"

fun error_of_state :: "task_state \<Rightarrow> string option" where
  "error_of_state (Done e _ _) = e"
| "error_of_state _ = None"

definition error_of :: "task \<Rightarrow> string option" where
  "error_of t = error_of_state (t_state t)"

definition is_todo :: "task \<Rightarrow> bool" where
  "is_todo t = (case t_state t of Todo _ \<Rightarrow> True | _ \<Rightarrow> False)"

definition is_running :: "task \<Rightarrow> bool" where
  "is_running t = (case t_state t of Running _ _ \<Rightarrow> True | _ \<Rightarrow> False)"

definition is_done :: "task \<Rightarrow> bool" where
  "is_done t = (case t_state t of Done _ _ _ \<Rightarrow> True | _ \<Rightarrow> False)"

definition materialize_task :: "task \<Rightarrow> task" where
  "materialize_task t = t\<lparr>t_events := [TaskCreated (base_of t) (t_engine t)]\<rparr>"

section \<open>Nodes and machines\<close>

datatype node_status = OTHER

record new_node =
  nn_enabled :: bool
  nn_status :: node_status
  nn_hostname :: string
  nn_username :: string
  nn_port :: int
  nn_jump_host :: "string option"
  nn_jump_port :: int
  nn_jump_username :: string
  nn_ncpus :: "int option"
  nn_cloud :: "string option"
  nn_external_id :: "string option"

text \<open>The field defaults of \<open>NewNode\<close>.\<close>

definition new_node_default :: new_node where
  "new_node_default = \<lparr>nn_enabled = True, nn_status = OTHER, nn_hostname = '''', nn_username = ''root'',
     nn_port = 22, nn_jump_host = None, nn_jump_port = 22, nn_jump_username = ''root'',
     nn_ncpus = None, nn_cloud = None, nn_external_id = None\<rparr>"

record node =
  n_node_id :: node_id
  n_hostname :: string
  n_ncpus :: "int option"
  n_created_at :: datetime
  n_updated_at :: datetime
  n_username :: string
  n_port :: int
  n_jump_host :: "string option"
  n_jump_port :: int
  n_jump_username :: string
  n_enabled :: bool
  n_status :: node_status
  n_cloud :: "string option"
  n_external_id :: "string option"

datatype machine_state = FREE | BUSY

record machine =
  m_node_id :: node_id
  m_platforms :: "string list"
  m_state :: machine_state
  m_free_since :: "real option"

definition is_compatible :: "machine \<Rightarrow> string list \<Rightarrow> bool" where
  "is_compatible m platforms \<longleftrightarrow>
     m_state m = FREE \<and> filter (\<lambda>p. List.member platforms p) (m_platforms m) \<noteq> []"

definition occupy_machine :: "machine \<Rightarrow> exn + machine" where
  "occupy_machine m = (if m_state m = BUSY then Inl (MachineBusyError (m_node_id m))
                       else Inr (m\<lparr>m_state := BUSY\<rparr>))"

text \<open>\<open>release\<close> stamps the monotonic clock \<open>now\<close>.\<close>

definition release_machine :: "real \<Rightarrow> machine \<Rightarrow> machine" where
  "release_machine now m = m\<lparr>m_state := FREE, m_free_since := Some now\<rparr>"

section \<open>Facts about the transitions\<close>

lemmas transition_defs =
  run_task_def reject_task_def complete_task_def fail_task_def abandon_task_def

lemmas status_helper_defs =
  t_status_def is_todo_def is_running_def is_done_def

lemma is_todo_status: "is_todo t \<longleftrightarrow> t_status t = TO_DO"
  by (cases "t_state t") (simp_all add: status_helper_defs)

lemma is_running_status: "is_running t \<longleftrightarrow> t_status t = RUNNING"
  by (cases "t_state t") (simp_all add: status_helper_defs)

lemma is_done_status: "is_done t \<longleftrightarrow> t_status t = DONE"
  by (cases "t_state t") (simp_all add: status_helper_defs)

lemma state_status_TO_DO: "state_status st = TO_DO \<longleftrightarrow> (\<exists>rf. st = Todo rf)"
  by (cases st) simp_all

lemma state_status_RUNNING: "state_status st = RUNNING \<longleftrightarrow> (\<exists>n rf. st = Running n rf)"
  by (cases st) simp_all

lemma state_status_DONE: "state_status st = DONE \<longleftrightarrow> (\<exists>e n rf. st = Done e n rf)"
  by (cases st) simp_all

lemma status_code_inject [simp]: "status_code a = status_code b \<longleftrightarrow> a = b"
  by (cases a; cases b) simp_all

lemma status_of_status_code [simp]: "status_of_code (status_code s) = Inr s"
  by (cases s) (simp_all add: status_of_code_def)

lemma advance_simps [simp]:
  "t_task_id (advance t st ev lf) = t_task_id t"
  "t_engine (advance t st ev lf) = t_engine t"
  "t_state (advance t st ev lf) = st"
  "t_created_at (advance t st ev lf) = t_created_at t"
  "t_updated_at (advance t st ev lf) = t_updated_at t"
  "t_label (advance t st ev lf) = t_label t"
  "t_webhook_url (advance t st ev lf) = t_webhook_url t"
  "t_webhook_custom_params (advance t st ev lf) = t_webhook_custom_params t"
  "t_extra (advance t st ev lf) = t_extra t"
  "t_events (advance t st ev lf) = t_events t @ [ev]"
  "t_local_folder (advance t st ev lf) = (case lf of None \<Rightarrow> t_local_folder t | Some x \<Rightarrow> Some x)"
  by (simp_all add: advance_def split: option.split)

text \<open>Every transition of the aggregate, as one value, for the claims that range over all of them.\<close>

datatype transition =
    TrRun node_id string
  | TrReject string
  | TrComplete string string
  | TrFail string string string
  | TrAbandon string

fun apply_transition :: "transition \<Rightarrow> task \<Rightarrow> exn + task" where
  "apply_transition (TrRun nid rf) t = run_task t nid rf"
| "apply_transition (TrReject r) t = reject_task t r"
| "apply_transition (TrComplete lf rf) t = complete_task t lf rf"
| "apply_transition (TrFail r lf rf) t = fail_task t r lf rf"
| "apply_transition (TrAbandon e) t = abandon_task t e"

fun source_status :: "transition \<Rightarrow> task_status" where
  "source_status (TrRun _ _) = TO_DO"
| "source_status (TrReject _) = TO_DO"
| "source_status (TrComplete _ _) = RUNNING"
| "source_status (TrFail _ _ _) = RUNNING"
| "source_status (TrAbandon _) = RUNNING"

fun target_status :: "transition \<Rightarrow> task_status" where
  "target_status (TrRun _ _) = RUNNING"
| "target_status _ = DONE"

fun status_error :: "transition \<Rightarrow> task_id \<Rightarrow> exn" where
  "status_error (TrRun _ _) i = TaskNotTodoError i"
| "status_error (TrReject _) i = TaskNotTodoError i"
| "status_error _ i = TaskNotRunningError i"

lemma transition_total:
  "(case apply_transition tr t of
      Inl e \<Rightarrow> t_status t \<noteq> source_status tr \<and> e = status_error tr (t_task_id t)
    | Inr t' \<Rightarrow> t_status t = source_status tr \<and> t_status t' = target_status tr)"
  by (cases tr; cases "t_state t") (simp_all add: transition_defs t_status_def)

lemma transition_Inr:
  "apply_transition tr t = Inr t' \<Longrightarrow>
     t_status t = source_status tr \<and> t_status t' = target_status tr"
  using transition_total [where tr = tr and t = t] by simp

lemma transition_event:
  "apply_transition tr t = Inr t' \<Longrightarrow>
     \<exists>ev. t_events t' = t_events t @ [ev] \<and> event_base ev = base_of t"
  by (cases tr; cases "t_state t") (auto simp: transition_defs)

lemma transition_identity:
  "apply_transition tr t = Inr t' \<Longrightarrow>
     t_task_id t' = t_task_id t \<and> t_engine t' = t_engine t \<and> t_label t' = t_label t
     \<and> t_created_at t' = t_created_at t \<and> t_extra t' = t_extra t \<and> t_webhook_url t' = t_webhook_url t
     \<and> t_webhook_custom_params t' = t_webhook_custom_params t"
  by (cases tr; cases "t_state t") (auto simp: transition_defs)

lemma transition_keeps_node:
  "apply_transition tr t = Inr t' \<Longrightarrow> t_status t = RUNNING \<Longrightarrow>
     allocated_node_id_of t' = allocated_node_id_of t"
  by (cases tr; cases "t_state t") (auto simp: transition_defs t_status_def allocated_node_id_of_def)

lemma occupy_machine_Inr:
  "occupy_machine m = Inr m' \<longleftrightarrow> m_state m = FREE \<and> m' = m\<lparr>m_state := BUSY\<rparr>"
  by (cases "m_state m") (auto simp: occupy_machine_def)

lemma is_compatible_iff:
  "is_compatible m ps \<longleftrightarrow> m_state m = FREE \<and> set (m_platforms m) \<inter> set ps \<noteq> {}"
  by (auto simp: is_compatible_def filter_empty_conv)

lemma release_occupy: "occupy_machine m = Inr m' \<Longrightarrow>
    release_machine now m' = m\<lparr>m_free_since := Some now\<rparr>"
  by (auto simp: occupy_machine_Inr release_machine_def)

end
