(* ===== verification/Persistence.thy ===== *)
theory Persistence
  imports Domain_Model
begin

text \<open>
  The PostgreSQL tables of \<open>infra/persistence/sql/schema.sql\<close> and the SQL statements the repositories
  of \<open>infra/persistence/postgres.py\<close> run on them, as computations on a database value, with the row
  codecs \<open>_row_to_task\<close> and \<open>_row_to_node\<close>.

  A statement that violates a constraint raises \<open>DatabaseError\<close> and changes no row; identity
  sequences advance even then, as they do in the server.  Rows come back in table order where the
  statement has no \<open>ORDER BY\<close>; no lemma depends on that order.
\<close>

named_theorems sql_defs "definitions of the SQL statements"

section \<open>Tables\<close>

record task_row =
  r_task_id :: int
  r_created_at :: datetime
  r_updated_at :: datetime
  r_title :: string
  r_engine :: string
  r_status :: task_status
  r_node :: "int option"
  r_local_folder :: "string option"
  r_remote_folder :: "string option"
  r_webhook_url :: "string option"
  r_params :: pydict
  r_error :: "string option"
  r_extra :: pydict

record node_row =
  q_node_id :: int
  q_created_at :: datetime
  q_updated_at :: datetime
  q_enabled :: bool
  q_status :: node_status
  q_hostname :: string
  q_port :: int
  q_username :: string
  q_jump_host :: "string option"
  q_jump_port :: int
  q_jump_username :: string
  q_ncpus :: "int option"
  q_cloud :: "string option"
  q_external_id :: "string option"

record db =
  d_tasks :: "task_row list"
  d_nodes :: "node_row list"
  d_next_task :: int
  d_next_node :: int
  d_now :: datetime

text \<open>The constraint \<open>task_status_field_invariants\<close>.\<close>

definition task_check :: "task_row \<Rightarrow> bool" where
  "task_check r \<longleftrightarrow>
     (r_status r = TO_DO \<and> r_node r = None \<and> r_error r = None)
   \<or> (r_status r = RUNNING \<and> r_node r \<noteq> None \<and> r_error r = None \<and> r_remote_folder r \<noteq> None)
   \<or> r_status r = DONE"

definition opt_len :: "nat \<Rightarrow> string option \<Rightarrow> bool" where
  "opt_len n x = (case x of None \<Rightarrow> True | Some s \<Rightarrow> length s \<le> n)"

text \<open>The declared column widths.\<close>

definition task_widths :: "task_row \<Rightarrow> bool" where
  "task_widths r \<longleftrightarrow> length (r_title r) \<le> 256 \<and> length (r_engine r) \<le> 64
     \<and> opt_len 1024 (r_local_folder r) \<and> opt_len 1024 (r_remote_folder r)
     \<and> opt_len 2048 (r_webhook_url r)"

definition node_exists :: "db \<Rightarrow> int \<Rightarrow> bool" where
  "node_exists d n \<longleftrightarrow> filter (\<lambda>q. q_node_id q = n) (d_nodes d) \<noteq> []"

text \<open>The foreign key of \<open>allocated_node_id\<close>.\<close>

definition task_fk :: "db \<Rightarrow> task_row \<Rightarrow> bool" where
  "task_fk d r = (case r_node r of None \<Rightarrow> True | Some n \<Rightarrow> node_exists d n)"

definition task_row_ok :: "db \<Rightarrow> task_row \<Rightarrow> bool" where
  "task_row_ok d r \<longleftrightarrow> task_check r \<and> task_widths r \<and> task_fk d r"

text \<open>The constraints \<open>node_port_range\<close>, \<open>node_jump_port_range\<close>, \<open>node_ncpus_positive\<close> and the widths
  (\<open>ncpus\<close> is a SMALLINT).\<close>

definition node_row_ok :: "node_row \<Rightarrow> bool" where
  "node_row_ok q \<longleftrightarrow> 0 < q_port q \<and> q_port q < 65536 \<and> 0 < q_jump_port q \<and> q_jump_port q < 65536
     \<and> (case q_ncpus q of None \<Rightarrow> True | Some n \<Rightarrow> 0 < n \<and> n \<le> 32767)
     \<and> length (q_hostname q) \<le> 255 \<and> length (q_username q) \<le> 255
     \<and> opt_len 255 (q_jump_host q) \<and> length (q_jump_username q) \<le> 255
     \<and> opt_len 32 (q_cloud q) \<and> opt_len 255 (q_external_id q)"

section \<open>Statements on tasks\<close>

definition sql_select_tasks :: "(task_row \<Rightarrow> bool) \<Rightarrow> (db, exn, task_row list) M" where
  "sql_select_tasks p = getsM (\<lambda>d. filter p (d_tasks d))"

definition sql_task_get_by_id :: "int \<Rightarrow> (db, exn, task_row list) M" where
  "sql_task_get_by_id i = sql_select_tasks (\<lambda>r. r_task_id r = i)"

definition sql_task_get_by_id_and_status :: "int \<Rightarrow> task_status \<Rightarrow> (db, exn, task_row list) M" where
  "sql_task_get_by_id_and_status i st = sql_select_tasks (\<lambda>r. r_task_id r = i \<and> r_status r = st)"

text \<open>\<open>ORDER BY task_id LIMIT :lim\<close>: a NULL limit is no limit, a negative one is an error.\<close>

definition sql_task_list_by_status :: "task_status list \<Rightarrow> int option \<Rightarrow> (db, exn, task_row list) M" where
  "sql_task_list_by_status sts lmt d =
     (let rows = sort_key r_task_id (filter (\<lambda>r. List.member sts (r_status r)) (d_tasks d)) in
      case lmt of
        None \<Rightarrow> (Inr rows, d)
      | Some n \<Rightarrow> if n < 0 then (Inl (DatabaseError ''LIMIT must not be negative''), d)
                  else (Inr (take (nat n) rows), d))"

definition sql_task_list_by_jobs :: "int list \<Rightarrow> (db, exn, task_row list) M" where
  "sql_task_list_by_jobs ids =
     getsM (\<lambda>d. sort_key r_task_id (filter (\<lambda>r. List.member ids (r_task_id r)) (d_tasks d)))"

definition sql_task_ids_by_node_and_status :: "int \<Rightarrow> task_status \<Rightarrow> (db, exn, int list) M" where
  "sql_task_ids_by_node_and_status n st =
     getsM (\<lambda>d. sort (map r_task_id (filter (\<lambda>r. r_node r = Some n \<and> r_status r = st) (d_tasks d))))"

text \<open>\<open>GROUP BY status ORDER BY status\<close>: one row per status that occurs.\<close>

definition sql_task_count_by_status :: "(db, exn, (task_status \<times> int) list) M" where
  "sql_task_count_by_status = getsM (\<lambda>d.
     filter (\<lambda>(st, n). n \<noteq> 0)
       (map (\<lambda>st. (st, int (length (filter (\<lambda>r. r_status r = st) (d_tasks d))))) [TO_DO, RUNNING, DONE]))"

definition sql_task_insert ::
  "string \<Rightarrow> string \<Rightarrow> string option \<Rightarrow> string option \<Rightarrow> pydict \<Rightarrow> pydict \<Rightarrow> (db, exn, task_row) M" where
  "sql_task_insert title engine local_folder webhook_url params extra d =
     (let row = \<lparr>r_task_id = d_next_task d, r_created_at = d_now d, r_updated_at = d_now d,
                 r_title = title, r_engine = engine, r_status = TO_DO, r_node = None,
                 r_local_folder = local_folder, r_remote_folder = None, r_webhook_url = webhook_url,
                 r_params = params, r_error = None, r_extra = extra\<rparr>;
          d' = d\<lparr>d_next_task := d_next_task d + 1\<rparr>
      in if task_row_ok d row then (Inr row, d'\<lparr>d_tasks := d_tasks d @ [row]\<rparr>)
         else (Inl (DatabaseError ''task row rejected''), d'))"

text \<open>\<open>task/update_by_id\<close>: \<open>new\<close> carries the values of the \<open>SET\<close> clause; the trigger stamps
  \<open>updated_at\<close>; the guard \<open>status = COALESCE(:expected_status, status)\<close> is part of the \<open>WHERE\<close>.\<close>

definition update_matches :: "int \<Rightarrow> task_status option \<Rightarrow> task_row \<Rightarrow> bool" where
  "update_matches i expected r \<longleftrightarrow>
     r_task_id r = i \<and> (case expected of None \<Rightarrow> True | Some st \<Rightarrow> r_status r = st)"

definition updated_row :: "db \<Rightarrow> task_row \<Rightarrow> task_row \<Rightarrow> task_row" where
  "updated_row d new old =
     new\<lparr>r_task_id := r_task_id old, r_created_at := r_created_at old, r_updated_at := d_now d\<rparr>"

definition sql_task_update :: "task_row \<Rightarrow> task_status option \<Rightarrow> (db, exn, int list) M" where
  "sql_task_update new expected d =
     (let hit = update_matches (r_task_id new) expected;
          hits = filter hit (d_tasks d)
      in if list_all (\<lambda>old. task_row_ok d (updated_row d new old)) hits
         then (Inr (map r_task_id hits),
               d\<lparr>d_tasks := map (\<lambda>r. if hit r then updated_row d new r else r) (d_tasks d)\<rparr>)
         else (Inl (DatabaseError ''task row rejected''), d))"

section \<open>Statements on nodes\<close>

definition sql_select_nodes :: "(node_row \<Rightarrow> bool) \<Rightarrow> (db, exn, node_row list) M" where
  "sql_select_nodes p = getsM (\<lambda>d. filter p (d_nodes d))"

definition sql_node_list_all :: "(db, exn, node_row list) M" where
  "sql_node_list_all = getsM (\<lambda>d. sort_key q_node_id (d_nodes d))"

definition sql_node_list_enabled :: "(db, exn, node_row list) M" where
  "sql_node_list_enabled = sql_select_nodes q_enabled"

definition sql_node_list_disabled :: "(db, exn, node_row list) M" where
  "sql_node_list_disabled = sql_select_nodes (\<lambda>q. \<not> q_enabled q \<and> q_hostname q \<noteq> '''')"

definition sql_node_get_by_id :: "int \<Rightarrow> (db, exn, node_row list) M" where
  "sql_node_get_by_id i = sql_select_nodes (\<lambda>q. q_node_id q = i)"

definition sql_node_get_by_ids :: "int list \<Rightarrow> (db, exn, node_row list) M" where
  "sql_node_get_by_ids is = sql_select_nodes (\<lambda>q. List.member is (q_node_id q))"

definition sql_node_count_by_status :: "(db, exn, (bool \<times> int) list) M" where
  "sql_node_count_by_status = getsM (\<lambda>d.
     filter (\<lambda>(b, n). n \<noteq> 0)
       (map (\<lambda>b. (b, int (length (filter (\<lambda>q. q_enabled q = b) (d_nodes d))))) [False, True]))"

definition sql_node_insert :: "node_row \<Rightarrow> (db, exn, node_row) M" where
  "sql_node_insert vals d =
     (let row = vals\<lparr>q_node_id := d_next_node d, q_created_at := d_now d, q_updated_at := d_now d\<rparr>;
          d' = d\<lparr>d_next_node := d_next_node d + 1\<rparr>
      in if node_row_ok row then (Inr row, d'\<lparr>d_nodes := d_nodes d @ [row]\<rparr>)
         else (Inl (DatabaseError ''node row rejected''), d'))"

text \<open>An UPDATE of the rows with this node id by \<open>f\<close>; the trigger stamps \<open>updated_at\<close>.\<close>

definition sql_node_update_by :: "int \<Rightarrow> (node_row \<Rightarrow> node_row) \<Rightarrow> (db, exn, int list) M" where
  "sql_node_update_by i f d =
     (let hit = (\<lambda>q. q_node_id q = i);
          upd = (\<lambda>q. (f q)\<lparr>q_node_id := q_node_id q, q_created_at := q_created_at q, q_updated_at := d_now d\<rparr>);
          hits = filter hit (d_nodes d)
      in if list_all (\<lambda>q. node_row_ok (upd q)) hits
         then (Inr (map q_node_id hits),
               d\<lparr>d_nodes := map (\<lambda>q. if hit q then upd q else q) (d_nodes d)\<rparr>)
         else (Inl (DatabaseError ''node row rejected''), d))"

definition sql_node_update :: "node_row \<Rightarrow> (db, exn, int list) M" where
  "sql_node_update vals = sql_node_update_by (q_node_id vals) (\<lambda>_. vals)"

definition sql_node_enable :: "int \<Rightarrow> (db, exn, int list) M" where
  "sql_node_enable i = sql_node_update_by i (\<lambda>q. q\<lparr>q_enabled := True\<rparr>)"

definition sql_node_disable :: "int \<Rightarrow> (db, exn, int list) M" where
  "sql_node_disable i = sql_node_update_by i (\<lambda>q. q\<lparr>q_enabled := False\<rparr>)"

text \<open>\<open>node/remove\<close>: the foreign key's \<open>ON DELETE SET NULL\<close> rewrites the referencing tasks, which
  must still satisfy their CHECK.\<close>

definition unlink_row :: "db \<Rightarrow> int \<Rightarrow> task_row \<Rightarrow> task_row" where
  "unlink_row d i r = (if r_node r = Some i then r\<lparr>r_node := None, r_updated_at := d_now d\<rparr> else r)"

definition sql_node_remove :: "int \<Rightarrow> (db, exn, int list) M" where
  "sql_node_remove i d =
     (let hits = filter (\<lambda>q. q_node_id q = i) (d_nodes d)
      in if hits = [] then (Inr [], d)
         else if list_all task_check (map (unlink_row d i) (d_tasks d))
         then (Inr (map q_node_id hits),
               d\<lparr>d_nodes := filter (\<lambda>q. q_node_id q \<noteq> i) (d_nodes d),
                 d_tasks := map (unlink_row d i) (d_tasks d)\<rparr>)
         else (Inl (DatabaseError ''task_status_field_invariants''), d))"

declare sql_select_tasks_def [sql_defs] sql_task_get_by_id_def [sql_defs]
  sql_task_get_by_id_and_status_def [sql_defs] sql_task_list_by_status_def [sql_defs]
  sql_task_list_by_jobs_def [sql_defs] sql_task_ids_by_node_and_status_def [sql_defs]
  sql_task_count_by_status_def [sql_defs] sql_select_nodes_def [sql_defs]
  sql_node_list_all_def [sql_defs] sql_node_list_enabled_def [sql_defs]
  sql_node_list_disabled_def [sql_defs] sql_node_get_by_id_def [sql_defs]
  sql_node_get_by_ids_def [sql_defs] sql_node_count_by_status_def [sql_defs]

section \<open>Row codecs\<close>

definition map_sum_list :: "('a \<Rightarrow> 'e + 'b) \<Rightarrow> 'a list \<Rightarrow> 'e + 'b list" where
  "map_sum_list f xs = foldr (\<lambda>x acc. case f x of Inl e \<Rightarrow> Inl e
     | Inr y \<Rightarrow> (case acc of Inl e \<Rightarrow> Inl e | Inr ys \<Rightarrow> Inr (y # ys))) xs (Inr [])"

text \<open>\<open>_row_to_task\<close>; \<open>int(None)\<close> of a RUNNING row without node is a \<open>TypeError\<close>, and a RUNNING row
  without folder would carry \<open>None\<close> (the CHECK excludes both).\<close>

definition row_to_task :: "task_row \<Rightarrow> exn + task" where
  "row_to_task r = (case mk_task_id (r_task_id r) of Inl e \<Rightarrow> Inl e | Inr tid \<Rightarrow>
     (let zygote = (\<lambda>st. \<lparr>t_task_id = tid, t_engine = r_engine r, t_state = st,
                t_created_at = r_created_at r, t_updated_at = r_updated_at r, t_label = r_title r,
                t_local_folder = r_local_folder r, t_webhook_url = r_webhook_url r,
                t_webhook_custom_params = r_params r, t_extra = r_extra r, t_events = []\<rparr>)
      in case r_status r of
        TO_DO \<Rightarrow> Inr (zygote (Todo (r_remote_folder r)))
      | RUNNING \<Rightarrow>
          (case r_node r of
             None \<Rightarrow> Inl (TypeError ''int() argument must not be NoneType'')
           | Some n \<Rightarrow> (case mk_node_id n of Inl e \<Rightarrow> Inl e | Inr nid \<Rightarrow>
               (case r_remote_folder r of
                  None \<Rightarrow> Inl (TypeError ''remote_folder'')
                | Some rf \<Rightarrow> Inr (zygote (Running nid rf)))))
      | DONE \<Rightarrow>
          (case r_node r of
             None \<Rightarrow> Inr (zygote (Done (r_error r) None (r_remote_folder r)))
           | Some n \<Rightarrow> (case mk_node_id n of Inl e \<Rightarrow> Inl e | Inr nid \<Rightarrow>
               Inr (zygote (Done (r_error r) (Some nid) (r_remote_folder r)))))))"

text \<open>The parameters of \<open>PostgresTaskRepository.save\<close>.\<close>

definition task_to_row :: "task \<Rightarrow> task_row" where
  "task_to_row t = \<lparr>r_task_id = tid_value (t_task_id t), r_created_at = t_created_at t,
     r_updated_at = t_updated_at t, r_title = t_label t, r_engine = t_engine t,
     r_status = t_status t, r_node = map_option nid_value (allocated_node_id_of t),
     r_local_folder = t_local_folder t, r_remote_folder = remote_folder_of t,
     r_webhook_url = t_webhook_url t, r_params = t_webhook_custom_params t,
     r_error = error_of t, r_extra = t_extra t\<rparr>"

definition row_to_node :: "node_row \<Rightarrow> exn + node" where
  "row_to_node q = (case mk_node_id (q_node_id q) of Inl e \<Rightarrow> Inl e | Inr nid \<Rightarrow>
     Inr \<lparr>n_node_id = nid, n_hostname = q_hostname q, n_ncpus = q_ncpus q,
          n_created_at = q_created_at q, n_updated_at = q_updated_at q, n_username = q_username q,
          n_port = q_port q, n_jump_host = q_jump_host q, n_jump_port = q_jump_port q,
          n_jump_username = q_jump_username q, n_enabled = q_enabled q, n_status = q_status q,
          n_cloud = q_cloud q, n_external_id = q_external_id q\<rparr>)"

definition node_to_row :: "node \<Rightarrow> node_row" where
  "node_to_row n = \<lparr>q_node_id = nid_value (n_node_id n), q_created_at = n_created_at n,
     q_updated_at = n_updated_at n, q_enabled = n_enabled n, q_status = n_status n,
     q_hostname = n_hostname n, q_port = n_port n, q_username = n_username n,
     q_jump_host = n_jump_host n, q_jump_port = n_jump_port n, q_jump_username = n_jump_username n,
     q_ncpus = n_ncpus n, q_cloud = n_cloud n, q_external_id = n_external_id n\<rparr>"

section \<open>The invariant of the database\<close>

definition db_wf :: "db \<Rightarrow> bool" where
  "db_wf d \<longleftrightarrow>
     distinct (map r_task_id (d_tasks d)) \<and> distinct (map q_node_id (d_nodes d))
   \<and> (\<forall>r \<in> set (d_tasks d). 0 < r_task_id r \<and> r_task_id r < d_next_task d \<and> task_row_ok d r)
   \<and> (\<forall>q \<in> set (d_nodes d). 0 < q_node_id q \<and> q_node_id q < d_next_node d \<and> node_row_ok q)
   \<and> 0 < d_next_task d \<and> 0 < d_next_node d"

lemma db_wfI:
  "distinct (map r_task_id (d_tasks d)) \<Longrightarrow> distinct (map q_node_id (d_nodes d)) \<Longrightarrow>
   (\<And>r. r \<in> set (d_tasks d) \<Longrightarrow> 0 < r_task_id r \<and> r_task_id r < d_next_task d \<and> task_row_ok d r) \<Longrightarrow>
   (\<And>q. q \<in> set (d_nodes d) \<Longrightarrow> 0 < q_node_id q \<and> q_node_id q < d_next_node d \<and> node_row_ok q) \<Longrightarrow>
   0 < d_next_task d \<Longrightarrow> 0 < d_next_node d \<Longrightarrow> db_wf d"
  by (simp add: db_wf_def)

lemma db_wfD:
  assumes "db_wf d"
  shows "distinct (map r_task_id (d_tasks d))" "distinct (map q_node_id (d_nodes d))"
    "r \<in> set (d_tasks d) \<Longrightarrow> 0 < r_task_id r" "r \<in> set (d_tasks d) \<Longrightarrow> r_task_id r < d_next_task d"
    "r \<in> set (d_tasks d) \<Longrightarrow> task_row_ok d r"
    "q \<in> set (d_nodes d) \<Longrightarrow> 0 < q_node_id q" "q \<in> set (d_nodes d) \<Longrightarrow> q_node_id q < d_next_node d"
    "q \<in> set (d_nodes d) \<Longrightarrow> node_row_ok q" "0 < d_next_task d" "0 < d_next_node d"
  using assms by (simp_all add: db_wf_def)

lemma node_exists_iff: "node_exists d n \<longleftrightarrow> n \<in> q_node_id ` set (d_nodes d)"
  by (auto simp: node_exists_def filter_empty_conv)

lemma task_fk_iff: "task_fk d r \<longleftrightarrow> (\<forall>n. r_node r = Some n \<longrightarrow> n \<in> q_node_id ` set (d_nodes d))"
  by (auto simp: task_fk_def node_exists_iff split: option.split)

lemma task_row_ok_mono:
  "task_row_ok d r \<Longrightarrow> q_node_id ` set (d_nodes d) \<subseteq> q_node_id ` set (d_nodes d') \<Longrightarrow> task_row_ok d' r"
  by (auto simp: task_row_ok_def task_fk_iff)

lemma sql_task_insert_wf: "db_wf d \<Longrightarrow> db_wf (snd (sql_task_insert ti en lf wu pa ex d))"
  by (force simp: sql_task_insert_def Let_def db_wf_def task_row_ok_def task_fk_def node_exists_def
      split: option.splits)

lemma task_row_ok_tasks [simp]: "task_row_ok (d\<lparr>d_tasks := ts\<rparr>) r = task_row_ok d r"
  by (simp add: task_row_ok_def task_fk_iff)

lemma db_wf_map_tasks:
  assumes wf: "db_wf d"
    and ids: "\<And>r. r_task_id (f r) = r_task_id r"
    and ok: "\<And>r. r \<in> set (d_tasks d) \<Longrightarrow> task_row_ok d (f r)"
  shows "db_wf (d\<lparr>d_tasks := map f (d_tasks d)\<rparr>)"
proof (rule db_wfI, goal_cases)
  case 1
  show ?case using db_wfD(1) [OF wf] ids by (simp add: comp_def)
next
  case (3 r)
  then show ?case using db_wfD(3,4) [OF wf] ids ok by auto
qed (use db_wfD [OF wf] in simp_all)

lemma db_wf_map_nodes:
  assumes wf: "db_wf d"
    and ids: "\<And>q. q_node_id (f q) = q_node_id q"
    and ok: "\<And>q. q \<in> set (d_nodes d) \<Longrightarrow> node_row_ok (f q)"
  shows "db_wf (d\<lparr>d_nodes := map f (d_nodes d)\<rparr>)"
proof (rule db_wfI, goal_cases)
  case 2
  show ?case using db_wfD(2) [OF wf] ids by (simp add: comp_def)
next
  case (3 r)
  have "q_node_id ` set (d_nodes d) = q_node_id ` f ` set (d_nodes d)"
    by (simp add: image_image ids)
  then show ?case
    using 3 db_wfD(3,4,5) [OF wf] task_row_ok_mono [of d r] by simp
next
  case (4 q)
  then show ?case using db_wfD(6,7) [OF wf] ids ok by auto
qed (use db_wfD [OF wf] in simp_all)

lemma sql_task_update_wf: "db_wf d \<Longrightarrow> db_wf (snd (sql_task_update new ex d))"
  unfolding sql_task_update_def Let_def
  by (auto intro!: db_wf_map_tasks simp: list_all_iff updated_row_def dest: db_wfD(5))

lemma sql_node_insert_wf: "db_wf d \<Longrightarrow> db_wf (snd (sql_node_insert vals d))"
  by (force simp: sql_node_insert_def Let_def db_wf_def task_row_ok_def task_fk_iff)

lemma sql_node_update_by_wf: "db_wf d \<Longrightarrow> db_wf (snd (sql_node_update_by i f d))"
  unfolding sql_node_update_by_def Let_def
  by (auto intro!: db_wf_map_nodes simp: list_all_iff dest: db_wfD(8))

lemma unlink_row_ok:
  "task_row_ok d r \<Longrightarrow> task_check (unlink_row d i r) \<Longrightarrow>
   task_row_ok (d\<lparr>d_nodes := filter (\<lambda>q. q_node_id q \<noteq> i) (d_nodes d)\<rparr>) (unlink_row d i r)"
  by (auto simp: task_row_ok_def unlink_row_def task_widths_def task_fk_iff)

lemma sql_node_remove_wf:
  assumes wf: "db_wf d"
  shows "db_wf (snd (sql_node_remove i d))"
proof (cases "filter (\<lambda>q. q_node_id q = i) (d_nodes d) = [] \<or>
              \<not> list_all task_check (map (unlink_row d i) (d_tasks d))")
  case True
  then show ?thesis using wf by (auto simp: sql_node_remove_def Let_def)
next
  case False
  let ?ns = "filter (\<lambda>q. q_node_id q \<noteq> i) (d_nodes d)"
  have ck: "task_check (unlink_row d i r)" if "r \<in> set (d_tasks d)" for r
    using False that by (simp add: list_all_iff)
  have "db_wf (d\<lparr>d_nodes := ?ns, d_tasks := map (unlink_row d i) (d_tasks d)\<rparr>)"
  proof (rule db_wfI, goal_cases)
    case 1
    show ?case using db_wfD(1) [OF wf] by (simp add: comp_def unlink_row_def if_distrib cong: if_cong)
  next
    case 2
    show ?case using db_wfD(2) [OF wf] by (simp add: distinct_map_filter)
  next
    case (3 r)
    then obtain r0 where r0: "r0 \<in> set (d_tasks d)" "r = unlink_row d i r0" by auto
    have "r_task_id r = r_task_id r0" using r0(2) by (simp add: unlink_row_def)
    moreover have "task_row_ok (d\<lparr>d_nodes := ?ns\<rparr>) r"
      using r0 unlink_row_ok db_wfD(5) [OF wf] ck by simp
    ultimately show ?case
      using r0(1) db_wfD(3,4) [OF wf] by simp
  qed (use db_wfD [OF wf] in simp_all)
  then show ?thesis using False by (simp add: sql_node_remove_def Let_def)
qed

lemma sql_selects_db:
  "snd (sql_select_tasks p d) = d" "snd (sql_select_nodes q d) = d"
  "snd (sql_task_get_by_id i d) = d" "snd (sql_task_get_by_id_and_status i st d) = d"
  "snd (sql_task_list_by_status sts lmt d) = d" "snd (sql_task_list_by_jobs ids d) = d"
  "snd (sql_task_ids_by_node_and_status n st d) = d" "snd (sql_task_count_by_status d) = d"
  "snd (sql_node_list_all d) = d" "snd (sql_node_list_enabled d) = d"
  "snd (sql_node_list_disabled d) = d" "snd (sql_node_get_by_id i d) = d"
  "snd (sql_node_get_by_ids ids d) = d" "snd (sql_node_count_by_status d) = d"
  by (simp_all add: sql_defs getsM_def Let_def split: option.split)

text \<open>Every statement of the repositories keeps the invariant.\<close>

lemma keeps_sql_select: "(\<And>d. snd (q d) = d) \<Longrightarrow> keeps db_wf q"
  by (simp add: keeps_def)

lemmas sql_keeps_wf =
  sql_selects_db [THEN keeps_sql_select]
  keepsI [of db_wf, OF sql_task_insert_wf] keepsI [of db_wf, OF sql_task_update_wf]
  keepsI [of db_wf, OF sql_node_insert_wf] keepsI [of db_wf, OF sql_node_update_by_wf]
  keepsI [of db_wf, OF sql_node_remove_wf]

lemma keeps_sql_node_simple:
  "keeps db_wf (sql_node_update v)" "keeps db_wf (sql_node_enable i)" "keeps db_wf (sql_node_disable i)"
  by (simp_all add: sql_node_update_def sql_node_enable_def sql_node_disable_def sql_keeps_wf)

section \<open>Functional facts\<close>

lemma task_row_unique:
  "db_wf d \<Longrightarrow> r \<in> set (d_tasks d) \<Longrightarrow> r' \<in> set (d_tasks d) \<Longrightarrow> r_task_id r = r_task_id r' \<Longrightarrow> r = r'"
  using db_wfD(1) by (fastforce simp: distinct_map inj_on_def)

lemma filter_unique:
  "distinct (map f xs) \<Longrightarrow> x \<in> set xs \<Longrightarrow> filter (\<lambda>y. f y = f x) xs = [x]"
proof (induction xs)
  case (Cons y ys)
  then show ?case
    by (cases "y = x") (auto simp: filter_empty_conv image_iff)
qed simp

lemma mk_task_id_ok [simp]: "0 < v \<Longrightarrow> mk_task_id v = Inr (TaskId v)"
  by (simp add: mk_task_id_def)

lemma mk_node_id_ok [simp]: "0 < v \<Longrightarrow> mk_node_id v = Inr (NodeId v)"
  by (simp add: mk_node_id_def)

definition task_valid :: "task \<Rightarrow> bool" where
  "task_valid t \<longleftrightarrow> 0 < tid_value (t_task_id t)
     \<and> (\<forall>n. allocated_node_id_of t = Some n \<longrightarrow> 0 < nid_value n)"

text \<open>Save then load gives the task back, with its events dropped.\<close>

lemma row_of_task: "task_valid t \<Longrightarrow> row_to_task (task_to_row t) = Inr (t\<lparr>t_events := []\<rparr>)"
  by (cases "t_state t"; cases "t_task_id t")
     (auto simp: task_valid_def row_to_task_def task_to_row_def t_status_def allocated_node_id_of_def
        remote_folder_of_def error_of_def Let_def split: option.splits)

lemma task_of_row:
  "row_to_task r = Inr t \<Longrightarrow> task_check r \<Longrightarrow>
     task_to_row t = r \<and> t_events t = [] \<and> t_status t = r_status r"
  by (cases "r_status r")
     (auto simp: row_to_task_def task_to_row_def t_status_def allocated_node_id_of_def task_check_def
        remote_folder_of_def error_of_def mk_task_id_def mk_node_id_def Let_def
        split: option.splits if_splits)

lemma row_to_task_total:
  "task_check r \<Longrightarrow> 0 < r_task_id r \<Longrightarrow> (\<forall>n. r_node r = Some n \<longrightarrow> 0 < n) \<Longrightarrow> \<exists>t. row_to_task r = Inr t"
  by (auto simp: row_to_task_def task_check_def Let_def split: option.splits task_status.splits)

lemma row_to_task_wf:
  assumes "db_wf d" "r \<in> set (d_tasks d)"
  shows "\<exists>t. row_to_task r = Inr t \<and> task_to_row t = r \<and> t_status t = r_status r \<and> t_events t = []"
proof -
  have ok: "task_row_ok d r" "0 < r_task_id r"
    using assms by (simp_all add: db_wfD)
  have "\<forall>n. r_node r = Some n \<longrightarrow> 0 < n"
    using ok(1) assms(1) by (auto simp: task_row_ok_def task_fk_iff db_wfD(6))
  then show ?thesis
    using ok row_to_task_total task_of_row by (meson task_row_ok_def)
qed

lemma row_of_node: "0 < nid_value (n_node_id n) \<Longrightarrow> row_to_node (node_to_row n) = Inr n"
  by (cases "n_node_id n") (simp add: row_to_node_def node_to_row_def)

lemma node_of_row: "row_to_node q = Inr n \<Longrightarrow> node_to_row n = q"
  by (auto simp: row_to_node_def node_to_row_def mk_node_id_def split: if_splits)

lemma row_to_node_wf: "db_wf d \<Longrightarrow> q \<in> set (d_nodes d) \<Longrightarrow> \<exists>n. row_to_node q = Inr n \<and> node_to_row n = q"
  by (simp add: row_to_node_def node_to_row_def db_wfD(6))

end
