(* ===== verification/Message_Bus.thy ===== *)
theory Message_Bus
  imports Domain_Model
begin

text \<open>
  \<open>application/message_bus.py\<close>: a registry from event types to handlers, and \<open>dispatch\<close>, which calls
  every handler of every event in order and isolates handler failures.

  A handler is a name (what the logs and the claims call it by) and the behaviour of its call: \<open>None\<close>
  when it returns, \<open>Some e\<close> when it raises \<open>e\<close>.  The trace records each call in order.
\<close>

datatype event_kind = KCreated | KAllocated | KCompleted | KFailed | KAbandoned

fun kind_of :: "event \<Rightarrow> event_kind" where
  "kind_of (TaskCreated _ _) = KCreated"
| "kind_of (TaskAllocated _ _ _) = KAllocated"
| "kind_of (TaskCompleted _ _) = KCompleted"
| "kind_of (TaskFailed _ _) = KFailed"
| "kind_of (TaskAbandoned _ _) = KAbandoned"

datatype handler = Handler (h_name: string) (h_call: "event \<Rightarrow> exn option")

type_synonym bus = "(event_kind \<times> handler list) list"

type_synonym trace = "(string \<times> event) list"

definition bus_register :: "event_kind \<Rightarrow> handler \<Rightarrow> bus \<Rightarrow> bus" where
  "bus_register k h b = dput k ((case dget b k of None \<Rightarrow> [] | Some hs \<Rightarrow> hs) @ [h]) b"

definition handlers_of :: "bus \<Rightarrow> event \<Rightarrow> handler list" where
  "handlers_of b ev = (case dget b (kind_of ev) of None \<Rightarrow> [] | Some hs \<Rightarrow> hs)"

text \<open>\<open>except Exception\<close> around one handler call: only a cancellation escapes.\<close>

fun dispatch_handlers :: "event \<Rightarrow> handler list \<Rightarrow> (trace, exn, unit) M" where
  "dispatch_handlers ev [] tr = (Inr (), tr)"
| "dispatch_handlers ev (h # hs) tr =
     (case h_call h ev of
        None \<Rightarrow> dispatch_handlers ev hs (tr @ [(h_name h, ev)])
      | Some e \<Rightarrow> if is_Exception e then dispatch_handlers ev hs (tr @ [(h_name h, ev)])
                  else (Inl e, tr @ [(h_name h, ev)]))"

fun dispatch :: "bus \<Rightarrow> event list \<Rightarrow> (trace, exn, unit) M" where
  "dispatch b [] tr = (Inr (), tr)"
| "dispatch b (ev # evs) tr =
     (case dispatch_handlers ev (handlers_of b ev) tr of
        (Inl e, tr') \<Rightarrow> (Inl e, tr')
      | (Inr _, tr') \<Rightarrow> dispatch b evs tr')"

definition calls_for :: "bus \<Rightarrow> event \<Rightarrow> trace" where
  "calls_for b ev = map (\<lambda>h. (h_name h, ev)) (handlers_of b ev)"

text \<open>No registered handler is cancelled: it returns or raises an ordinary exception.\<close>

definition uncancelled :: "bus \<Rightarrow> bool" where
  "uncancelled b \<longleftrightarrow> (\<forall>(k, hs) \<in> set b. \<forall>h \<in> set hs. \<forall>ev. h_call h ev \<noteq> Some CancelledError)"

lemma handlers_of_register:
  "handlers_of (bus_register k h b) ev =
     (if kind_of ev = k then handlers_of b ev @ [h] else handlers_of b ev)"
  by (auto simp: handlers_of_def bus_register_def)

lemma uncancelled_handlers:
  "uncancelled b \<Longrightarrow> h \<in> set (handlers_of b ev) \<Longrightarrow> h_call h ev' \<noteq> Some CancelledError"
proof -
  assume u: "uncancelled b" and h: "h \<in> set (handlers_of b ev)"
  obtain hs where hs: "dget b (kind_of ev) = Some hs" "h \<in> set hs"
    using h by (cases "dget b (kind_of ev)") (simp_all add: handlers_of_def)
  then have "(kind_of ev, hs) \<in> set b" by (simp add: dget_Some_mem)
  then show "h_call h ev' \<noteq> Some CancelledError"
    using u hs(2) by (auto simp: uncancelled_def)
qed

lemma uncancelled_register:
  "uncancelled b \<Longrightarrow> (\<And>ev. h_call h ev \<noteq> Some CancelledError) \<Longrightarrow> dict_ok b \<Longrightarrow>
   uncancelled (bus_register k h b)"
proof -
  assume u: "uncancelled b" and h: "\<And>ev. h_call h ev \<noteq> Some CancelledError" and ok: "dict_ok b"
  have ok': "dict_ok (bus_register k h b)"
    using ok by (simp add: bus_register_def)
  have "\<forall>h' \<in> set hs. \<forall>ev. h_call h' ev \<noteq> Some CancelledError"
    if "(k', hs) \<in> set (bus_register k h b)" for k' hs
  proof -
    have "dget (bus_register k h b) k' = Some hs"
      using dget_mem [OF ok' that] .
    then show ?thesis
      using u h by (fastforce simp: bus_register_def uncancelled_def dest: dget_Some_mem
          split: if_splits option.splits)
  qed
  then show ?thesis by (auto simp: uncancelled_def)
qed

lemma dispatch_handlers_uncancelled:
  "(\<forall>h \<in> set hs. h_call h ev \<noteq> Some CancelledError) \<Longrightarrow>
   dispatch_handlers ev hs tr = (Inr (), tr @ map (\<lambda>h. (h_name h, ev)) hs)"
  by (induction hs arbitrary: tr) (auto simp: is_Exception_def split: option.splits)

text \<open>One failing handler blocks neither the other handlers nor the later events.\<close>

lemma dispatch_isolated:
  "uncancelled b \<Longrightarrow> dispatch b evs tr = (Inr (), tr @ concat (map (calls_for b) evs))"
proof (induction evs arbitrary: tr)
  case (Cons ev evs)
  have "\<forall>h \<in> set (handlers_of b ev). h_call h ev \<noteq> Some CancelledError"
    using Cons.prems uncancelled_handlers by blast
  then show ?case
    using Cons by (simp add: dispatch_handlers_uncancelled calls_for_def)
qed simp

lemma dispatch_handlers_error:
  "dispatch_handlers ev hs tr = (Inl e, tr') \<Longrightarrow> e = CancelledError"
  by (induction hs arbitrary: tr) (auto simp: is_Exception_def split: option.splits if_splits)

lemma dispatch_error: "dispatch b evs tr = (Inl e, tr') \<Longrightarrow> e = CancelledError"
  by (induction evs arbitrary: tr)
     (auto dest: dispatch_handlers_error split: prod.splits sum.splits)

lemma dispatch_handlers_prefix:
  "\<exists>cs. snd (dispatch_handlers ev hs tr) = tr @ cs \<and> (\<forall>c \<in> set cs. snd c = ev)"
proof (induction hs arbitrary: tr)
  case (Cons h hs)
  obtain cs where cs: "snd (dispatch_handlers ev hs (tr @ [(h_name h, ev)])) = (tr @ [(h_name h, ev)]) @ cs"
      "\<forall>c \<in> set cs. snd c = ev"
    using Cons.IH by blast
  then show ?case by (auto split: option.splits)
qed simp

lemma dispatch_prefix:
  "\<exists>cs. snd (dispatch b evs tr) = tr @ cs \<and> (\<forall>c \<in> set cs. snd c \<in> set evs)"
proof (induction evs arbitrary: tr)
  case (Cons ev evs)
  obtain cs where cs: "snd (dispatch_handlers ev (handlers_of b ev) tr) = tr @ cs" "\<forall>c \<in> set cs. snd c = ev"
    using dispatch_handlers_prefix by blast
  obtain cs' where cs': "snd (dispatch b evs (tr @ cs)) = (tr @ cs) @ cs'" "\<forall>c \<in> set cs'. snd c \<in> set evs"
    using Cons.IH by blast
  show ?case
    using cs cs' by (auto split: prod.splits sum.splits intro: exI [of _ "cs @ cs'"])
qed simp

lemma dispatch_handlers_Inr:
  "dispatch_handlers ev hs tr = (Inr u, tr') \<Longrightarrow> tr' = tr @ map (\<lambda>h. (h_name h, ev)) hs"
proof (induction hs arbitrary: tr)
  case (Cons h hs)
  then have "dispatch_handlers ev hs (tr @ [(h_name h, ev)]) = (Inr u, tr')"
    by (auto split: option.splits if_splits)
  from Cons.IH [OF this] show ?case by simp
qed simp

text \<open>When dispatch returns, every handler of every event has been called once, in order.\<close>

lemma dispatch_Inr:
  "dispatch b evs tr = (Inr u, tr') \<Longrightarrow> tr' = tr @ concat (map (calls_for b) evs)"
proof (induction evs arbitrary: tr)
  case (Cons ev evs)
  then obtain v tr1 where "dispatch_handlers ev (handlers_of b ev) tr = (Inr v, tr1)"
      and rest: "dispatch b evs tr1 = (Inr u, tr')"
    by (auto split: prod.splits sum.splits)
  then have "tr1 = tr @ calls_for b ev"
    by (simp add: dispatch_handlers_Inr calls_for_def)
  with Cons.IH [OF rest] show ?case by simp
qed simp

end
