(* ===== verification/Unit_Of_Work.thy ===== *)
theory Unit_Of_Work
  imports Persistence Message_Bus
begin

text \<open>
  \<open>infra/persistence/postgres_uow.py\<close> and the two repositories of \<open>infra/persistence/postgres.py\<close>.

  The store holds the committed database, the connection of the unit of work in use, the message bus
  and the trace of handler calls.  Every round trip to the server (connect, BEGIN, a statement, COMMIT,
  ROLLBACK, close) consumes one entry of \<open>st_faults\<close>: \<open>None\<close> lets it succeed, \<open>Some e\<close> makes it raise
  \<open>e\<close>; an exhausted list means no further faults.  Claims quantify over all fault lists, so they hold
  whatever the environment does.  A failed COMMIT is taken to have been refused by the server.  A
  statement error aborts the open transaction: later statements fail and COMMIT then discards it.
\<close>

section \<open>The store\<close>

datatype conn = Closed | Idle | InTx db bool

record uow =
  u_conn :: conn
  u_entered :: bool
  u_saved :: "task list"

record store =
  st_db :: db
  st_uow :: uow
  st_faults :: "exn option list"
  st_bus :: bus
  st_trace :: trace

type_synonym ('x, 'a) prog = "('x store_scheme, exn, 'a) M"

definition set_conn :: "conn \<Rightarrow> 'x store_scheme \<Rightarrow> 'x store_scheme" where
  "set_conn c s = s\<lparr>st_uow := (st_uow s)\<lparr>u_conn := c\<rparr>\<rparr>"

definition set_saved :: "task list \<Rightarrow> 'x store_scheme \<Rightarrow> 'x store_scheme" where
  "set_saved ts s = s\<lparr>st_uow := (st_uow s)\<lparr>u_saved := ts\<rparr>\<rparr>"

definition conn_of :: "'x store_scheme \<Rightarrow> conn" where
  "conn_of s = u_conn (st_uow s)"

definition saved_of :: "'x store_scheme \<Rightarrow> task list" where
  "saved_of s = u_saved (st_uow s)"

text \<open>One round trip: the next fault, if any, is raised.\<close>

definition round_trip :: "('x, unit) prog" where
  "round_trip s = (case st_faults s of
       [] \<Rightarrow> (Inr (), s)
     | None # fs \<Rightarrow> (Inr (), s\<lparr>st_faults := fs\<rparr>)
     | Some e # fs \<Rightarrow> (Inl e, s\<lparr>st_faults := fs\<rparr>))"

text \<open>\<open>contextlib.suppress(Exception)\<close>.\<close>

definition suppress :: "('x, unit) prog \<Rightarrow> ('x, unit) prog" where
  "suppress m = catchM m (\<lambda>e. if is_Exception e then skipM else raiseM e)"

text \<open>Identity sequences are advanced at once, whatever becomes of the transaction.\<close>

definition bump :: "db \<Rightarrow> db \<Rightarrow> db" where
  "bump d' d = d\<lparr>d_next_task := d_next_task d', d_next_node := d_next_node d'\<rparr>"

text \<open>\<open>_PgRepository._run\<close> on the connection of the unit of work.\<close>

definition run_sql :: "(db, exn, 'a) M \<Rightarrow> ('x, 'a) prog" where
  "run_sql q s = (case conn_of s of
       Closed \<Rightarrow> (Inl (DatabaseError ''connection is closed''), s)
     | Idle \<Rightarrow> (case round_trip s of
           (Inl e, s') \<Rightarrow> (Inl e, s')
         | (Inr _, s') \<Rightarrow> (case q (st_db s') of (r, d) \<Rightarrow> (r, s'\<lparr>st_db := d\<rparr>)))
     | InTx d failed \<Rightarrow> (case round_trip s of
           (Inl e, s') \<Rightarrow> (Inl e, set_conn (InTx d True) s')
         | (Inr _, s') \<Rightarrow>
             if failed then (Inl (DatabaseError ''current transaction is aborted''), s')
             else (case q d of
                 (Inl e, d') \<Rightarrow> (Inl e, set_conn (InTx (bump d' d) True) (s'\<lparr>st_db := bump d' (st_db s')\<rparr>))
               | (Inr a, d') \<Rightarrow> (Inr a, set_conn (InTx d' False) (s'\<lparr>st_db := bump d' (st_db s')\<rparr>)))))"

section \<open>The unit of work\<close>

definition uow_init :: uow where
  "uow_init = \<lparr>u_conn = Closed, u_entered = False, u_saved = []\<rparr>"

text \<open>The guard of the properties \<open>tasks\<close> and \<open>nodes\<close>.\<close>

definition require_entered :: "('x, unit) prog" where
  "require_entered s = (if u_entered (st_uow s) then (Inr (), s)
     else (Inl (UnitOfWorkNotInitializedError ''UoW not entered; use 'async with' to access repositories''), s))"

definition require_conn :: "('x, unit) prog" where
  "require_conn s = (if conn_of s \<noteq> Closed then (Inr (), s)
     else (Inl (UnitOfWorkNotInitializedError ''Connection not initialized; use 'async with' to enter the UoW''), s))"

definition close_conn :: "('x, unit) prog" where
  "close_conn = thenM (suppress round_trip) (modifyM (set_conn Closed))"

text \<open>\<open>__aenter__\<close>: connect and BEGIN; a failure of BEGIN closes the connection.\<close>

definition uow_enter :: "('x, unit) prog" where
  "uow_enter =
     thenM (modifyM (set_saved []))
    (thenM round_trip
    (thenM (modifyM (set_conn Idle))
    (thenM (catchM round_trip (\<lambda>e. thenM close_conn (raiseM e)))
           (modifyM (\<lambda>s. s\<lparr>st_uow := (st_uow s)\<lparr>u_conn := InTx (st_db s) False, u_entered := True\<rparr>\<rparr>)))))"

definition uow_rollback :: "('x, unit) prog" where
  "uow_rollback =
     thenM require_conn (thenM round_trip (modifyM (\<lambda>s. set_saved [] (set_conn Idle s))))"

definition collect_events :: "('x, event list) prog" where
  "collect_events s = (Inr (concat (map t_events (saved_of s))), set_saved [] s)"

definition publish_events :: "('x, unit) prog" where
  "publish_events =
     bindM collect_events (\<lambda>evs.
       thenM (\<lambda>s. case dispatch (st_bus s) evs (st_trace s) of (r, tr) \<Rightarrow> (r, s\<lparr>st_trace := tr\<rparr>))
             (modifyM (set_saved [])))"

text \<open>COMMIT of an aborted transaction discards it without an error, as the server does.\<close>

definition sql_commit :: "('x, unit) prog" where
  "sql_commit = thenM round_trip (modifyM (\<lambda>s. case conn_of s of
       InTx d False \<Rightarrow> set_conn Idle (s\<lparr>st_db := d\<rparr>)
     | InTx d True \<Rightarrow> set_conn Idle s
     | _ \<Rightarrow> s))"

definition uow_commit :: "('x, unit) prog" where
  "uow_commit = thenM require_conn (thenM sql_commit (suppress publish_events))"

definition uow_exit :: "exn option \<Rightarrow> ('x, unit) prog" where
  "uow_exit exc s =
     (let connected = (conn_of s \<noteq> Closed) in
      thenM (whenM (exc \<noteq> None \<and> connected) (suppress uow_rollback))
        (whenM connected close_conn) s)"

text \<open>\<open>async with uow_factory() as uow: body\<close>.\<close>

definition with_uow :: "('x, 'a) prog \<Rightarrow> ('x, 'a) prog" where
  "with_uow body =
     thenM (modifyM (\<lambda>s. s\<lparr>st_uow := uow_init\<rparr>))
    (thenM uow_enter
    (\<lambda>s. case body s of
        (Inr a, s') \<Rightarrow> bindM (uow_exit None) (\<lambda>_. returnM a) s'
      | (Inl e, s') \<Rightarrow> bindM (uow_exit (Some e)) (\<lambda>_. raiseM e) s'))"

section \<open>The task repository\<close>

definition run_tasks :: "(db, exn, 'a) M \<Rightarrow> ('x, 'a) prog" where
  "run_tasks q = thenM require_entered (run_sql q)"

definition first_row :: "('r \<Rightarrow> exn + 'a) \<Rightarrow> 'r list \<Rightarrow> ('x, 'a option) prog" where
  "first_row f rows = (case rows of [] \<Rightarrow> returnM None | r # _ \<Rightarrow> bindM (fromSum (f r)) (\<lambda>t. returnM (Some t)))"

definition tasks_get :: "task_id \<Rightarrow> ('x, task option) prog" where
  "tasks_get tid = bindM (run_tasks (sql_task_get_by_id (tid_value tid))) (first_row row_to_task)"

definition tasks_get_running :: "task_id \<Rightarrow> ('x, task option) prog" where
  "tasks_get_running tid =
     bindM (run_tasks (sql_task_get_by_id_and_status (tid_value tid) RUNNING)) (first_row row_to_task)"

definition tasks_get_todo :: "task_id \<Rightarrow> ('x, task option) prog" where
  "tasks_get_todo tid =
     bindM (run_tasks (sql_task_get_by_id_and_status (tid_value tid) TO_DO)) (first_row row_to_task)"

definition tasks_save :: "task \<Rightarrow> task_status option \<Rightarrow> ('x, unit) prog" where
  "tasks_save t expected =
     bindM (run_tasks (sql_task_update (task_to_row t) expected)) (\<lambda>rows.
       if rows = [] then raiseM (TaskRowNotFoundError (t_task_id t))
       else modifyM (\<lambda>s. set_saved (saved_of s @ [t]) s))"

definition tasks_list_by_status :: "task_status list \<Rightarrow> int option \<Rightarrow> ('x, task list) prog" where
  "tasks_list_by_status sts lmt =
     bindM (run_tasks (sql_task_list_by_status sts lmt)) (\<lambda>rows. fromSum (map_sum_list row_to_task rows))"

definition tasks_list_todo :: "int option \<Rightarrow> ('x, task list) prog" where
  "tasks_list_todo lmt = tasks_list_by_status [TO_DO] lmt"

definition tasks_list_running :: "int option \<Rightarrow> ('x, task list) prog" where
  "tasks_list_running lmt = tasks_list_by_status [RUNNING] lmt"

definition tasks_list_ids_by_node_id_and_status :: "node_id \<Rightarrow> task_status \<Rightarrow> ('x, task_id list) prog" where
  "tasks_list_ids_by_node_id_and_status nid st =
     bindM (run_tasks (sql_task_ids_by_node_and_status (nid_value nid) st))
       (\<lambda>ids. fromSum (map_sum_list mk_task_id ids))"

definition tasks_insert :: "new_task \<Rightarrow> ('x, task) prog" where
  "tasks_insert nt =
     bindM (run_tasks (sql_task_insert (nt_label nt) (nt_engine nt) (nt_local_folder nt)
                         (nt_webhook_url nt) (nt_webhook_custom_params nt) (nt_extra nt)))
       (\<lambda>row. bindM (fromSum (row_to_task row)) (\<lambda>t. returnM (materialize_task t)))"

definition tasks_list_by_jobs :: "task_id list \<Rightarrow> ('x, task list) prog" where
  "tasks_list_by_jobs ids =
     bindM (run_tasks (sql_task_list_by_jobs (map tid_value ids)))
       (\<lambda>rows. fromSum (map_sum_list row_to_task rows))"

definition tasks_count_by_status :: "('x, (task_status \<times> int) list) prog" where
  "tasks_count_by_status = run_tasks sql_task_count_by_status"

section \<open>The node repository\<close>

definition decode_nodes :: "node_row list \<Rightarrow> ('x, node list) prog" where
  "decode_nodes rows = fromSum (map_sum_list row_to_node rows)"

definition nodes_list_all :: "('x, node list) prog" where
  "nodes_list_all = bindM (run_tasks sql_node_list_all) decode_nodes"

definition nodes_list_enabled :: "('x, node list) prog" where
  "nodes_list_enabled = bindM (run_tasks sql_node_list_enabled) decode_nodes"

definition nodes_list_disabled :: "('x, node list) prog" where
  "nodes_list_disabled = bindM (run_tasks sql_node_list_disabled) decode_nodes"

definition new_node_row :: "new_node \<Rightarrow> datetime \<Rightarrow> node_row" where
  "new_node_row nn now = \<lparr>q_node_id = 0, q_created_at = now, q_updated_at = now,
     q_enabled = nn_enabled nn, q_status = nn_status nn, q_hostname = nn_hostname nn,
     q_port = nn_port nn, q_username = nn_username nn, q_jump_host = nn_jump_host nn,
     q_jump_port = nn_jump_port nn, q_jump_username = nn_jump_username nn, q_ncpus = nn_ncpus nn,
     q_cloud = nn_cloud nn, q_external_id = nn_external_id nn\<rparr>"

definition nodes_insert :: "new_node \<Rightarrow> ('x, node) prog" where
  "nodes_insert nn =
     bindM (run_tasks (\<lambda>d. sql_node_insert (new_node_row nn (d_now d)) d))
       (\<lambda>row. fromSum (row_to_node row))"

definition nodes_get_by_id :: "node_id \<Rightarrow> ('x, node option) prog" where
  "nodes_get_by_id nid = bindM (run_tasks (sql_node_get_by_id (nid_value nid))) (first_row row_to_node)"

definition nodes_get_by_ids :: "node_id list \<Rightarrow> ('x, (node_id \<times> node) list) prog" where
  "nodes_get_by_ids ids =
     bindM (run_tasks (sql_node_get_by_ids (map nid_value ids))) (\<lambda>rows.
       bindM (decode_nodes rows) (\<lambda>ns.
         returnM (foldl (\<lambda>d n. dput (n_node_id n) n d) [] ns)))"

definition node_statement :: "node_id \<Rightarrow> (db, exn, int list) M \<Rightarrow> ('x, unit) prog" where
  "node_statement nid q =
     bindM (run_tasks q) (\<lambda>rows. if rows = [] then raiseM (NodeRowNotFoundError nid) else skipM)"

definition nodes_update :: "node \<Rightarrow> ('x, unit) prog" where
  "nodes_update n = node_statement (n_node_id n) (sql_node_update (node_to_row n))"

definition nodes_enable :: "node_id \<Rightarrow> ('x, unit) prog" where
  "nodes_enable nid = node_statement nid (sql_node_enable (nid_value nid))"

definition nodes_disable :: "node_id \<Rightarrow> ('x, unit) prog" where
  "nodes_disable nid = node_statement nid (sql_node_disable (nid_value nid))"

definition nodes_remove :: "node_id \<Rightarrow> ('x, unit) prog" where
  "nodes_remove nid = node_statement nid (sql_node_remove (nid_value nid))"

definition nodes_count_by_status :: "('x, (bool \<times> int) list) prog" where
  "nodes_count_by_status = run_tasks sql_node_count_by_status"

end
