(* ===== verification/Uow_Rules.thy ===== *)
theory Uow_Rules
  imports Unit_Of_Work
begin

text \<open>
  What the unit of work promises.  The abstract side is a pure transaction on a database value and the
  list of saved tasks (\<open>txn\<close>); \<open>tx_den m F\<close> says that inside an open transaction the repository program
  \<open>m\<close> either behaves as \<open>F\<close> or raises, and never touches the committed database, the bus or the trace.
  The rules \<open>tx_intros\<close> compose it, and the two theorems on \<open>with_uow\<close> turn it into atomicity: an
  exception leaves the committed rows and the trace alone, a return publishes the transaction's rows
  and exactly the events of the tasks it saved.
\<close>

named_theorems tx_intros "denotations of repository programs"

section \<open>Basic facts\<close>

lemma set_conn_simps [simp]:
  "conn_of (set_conn c s) = c" "saved_of (set_conn c s) = saved_of s"
  "st_db (set_conn c s) = st_db s" "st_trace (set_conn c s) = st_trace s"
  "st_bus (set_conn c s) = st_bus s" "st_faults (set_conn c s) = st_faults s"
  "u_entered (st_uow (set_conn c s)) = u_entered (st_uow s)"
  "store.more (set_conn c s) = store.more s"
  by (simp_all add: set_conn_def conn_of_def saved_of_def)

lemma set_saved_simps [simp]:
  "conn_of (set_saved ts s) = conn_of s" "saved_of (set_saved ts s) = ts"
  "st_db (set_saved ts s) = st_db s" "st_trace (set_saved ts s) = st_trace s"
  "st_bus (set_saved ts s) = st_bus s" "st_faults (set_saved ts s) = st_faults s"
  "u_entered (st_uow (set_saved ts s)) = u_entered (st_uow s)"
  "store.more (set_saved ts s) = store.more s"
  by (simp_all add: set_saved_def conn_of_def saved_of_def)

lemma store_update_simps [simp]:
  "conn_of (s\<lparr>st_db := d\<rparr>) = conn_of s" "saved_of (s\<lparr>st_db := d\<rparr>) = saved_of s"
  "conn_of (s\<lparr>st_faults := fs\<rparr>) = conn_of s" "saved_of (s\<lparr>st_faults := fs\<rparr>) = saved_of s"
  "conn_of (s\<lparr>st_trace := tr\<rparr>) = conn_of s" "saved_of (s\<lparr>st_trace := tr\<rparr>) = saved_of s"
  "conn_of (s\<lparr>st_uow := u\<rparr>) = u_conn u" "saved_of (s\<lparr>st_uow := u\<rparr>) = u_saved u"
  by (simp_all add: conn_of_def saved_of_def)

lemma bump_simps [simp]:
  "d_tasks (bump d' d) = d_tasks d" "d_nodes (bump d' d) = d_nodes d" "d_now (bump d' d) = d_now d"
  "d_next_task (bump d' d) = d_next_task d'" "d_next_node (bump d' d) = d_next_node d'"
  by (simp_all add: bump_def)

text \<open>What other coroutines and later transactions can see of the store.\<close>

definition rows_of :: "db \<Rightarrow> task_row list \<times> node_row list \<times> datetime" where
  "rows_of d = (d_tasks d, d_nodes d, d_now d)"

definition committed :: "'x store_scheme \<Rightarrow> task_row list \<times> node_row list \<times> datetime" where
  "committed s = rows_of (st_db s)"

definition visible :: "'x store_scheme \<Rightarrow> (task_row list \<times> node_row list \<times> datetime) \<times> trace \<times> bus" where
  "visible s = (committed s, st_trace s, st_bus s)"

lemma rows_of_bump [simp]: "rows_of (bump d' d) = rows_of d"
  by (simp add: rows_of_def)

lemma visible_simps [simp]:
  "visible (set_conn c s) = visible s" "visible (set_saved ts s) = visible s"
  "visible (s\<lparr>st_faults := fs\<rparr>) = visible s" "visible (s\<lparr>st_db := bump d' (st_db s)\<rparr>) = visible s"
  "visible (s\<lparr>st_uow := u\<rparr>) = visible s"
  by (simp_all add: visible_def committed_def)

lemma visible_bump:
  "st_db s = st_db t \<Longrightarrow> visible (s\<lparr>st_db := bump d' (st_db t)\<rparr>) = visible s"
  by (simp add: visible_def committed_def)

lemma round_trip_cases:
  obtains s' where "round_trip s = (Inr (), s')" "visible s' = visible s" "conn_of s' = conn_of s"
      "saved_of s' = saved_of s" "st_db s' = st_db s" "store.more s' = store.more s"
      "u_entered (st_uow s') = u_entered (st_uow s)" "st_faults s = [] \<longrightarrow> s' = s"
  | e s' where "round_trip s = (Inl e, s')" "visible s' = visible s" "conn_of s' = conn_of s"
      "saved_of s' = saved_of s" "st_db s' = st_db s" "store.more s' = store.more s"
      "u_entered (st_uow s') = u_entered (st_uow s)" "st_faults s \<noteq> []"
proof (cases "st_faults s")
  case Nil
  then show ?thesis using that(1) [of s] by (simp add: round_trip_def)
next
  case (Cons f fs)
  show ?thesis
  proof (cases f)
    case None
    then show ?thesis using Cons that(1) [of "s\<lparr>st_faults := fs\<rparr>"] by (simp add: round_trip_def)
  next
    case (Some e)
    then show ?thesis using Cons that(2) [of e "s\<lparr>st_faults := fs\<rparr>"] by (simp add: round_trip_def)
  qed
qed

section \<open>Abstract transactions\<close>

type_synonym 'a txn = "(db \<times> task list, exn, 'a) M"

definition a_sql :: "(db, exn, 'a) M \<Rightarrow> 'a txn" where
  "a_sql q x = (case x of (d, ts) \<Rightarrow> (case q d of (r, d') \<Rightarrow> (r, (d', ts))))"

definition a_save :: "task \<Rightarrow> task_status option \<Rightarrow> unit txn" where
  "a_save t expected = bindM (a_sql (sql_task_update (task_to_row t) expected)) (\<lambda>rows.
     if rows = [] then raiseM (TaskRowNotFoundError (t_task_id t))
     else modifyM (\<lambda>(d, ts). (d, ts @ [t])))"

definition tx_den :: "('x, 'a) prog \<Rightarrow> 'a txn \<Rightarrow> bool" where
  "tx_den m F \<longleftrightarrow> (\<forall>s d. conn_of s = InTx d False \<longrightarrow> u_entered (st_uow s) \<longrightarrow>
     (case m s of
        (Inr a, s') \<Rightarrow> visible s' = visible s \<and> u_entered (st_uow s') \<and> (st_faults s = [] \<longrightarrow> st_faults s' = [])
           \<and> (\<exists>d'. F (d, saved_of s) = (Inr a, (d', saved_of s')) \<and> conn_of s' = InTx d' False)
      | (Inl e, s') \<Rightarrow> visible s' = visible s \<and> (\<exists>d' f. conn_of s' = InTx d' f)
           \<and> (st_faults s = [] \<longrightarrow> st_faults s' = [] \<and> (\<exists>x. F (d, saved_of s) = (Inl e, x)))))"

lemma tx_denI:
  assumes "\<And>s d a s'. conn_of s = InTx d False \<Longrightarrow> u_entered (st_uow s) \<Longrightarrow> m s = (Inr a, s') \<Longrightarrow>
      visible s' = visible s \<and> u_entered (st_uow s') \<and> (st_faults s = [] \<longrightarrow> st_faults s' = [])
      \<and> (\<exists>d'. F (d, saved_of s) = (Inr a, (d', saved_of s')) \<and> conn_of s' = InTx d' False)"
    and "\<And>s d e s'. conn_of s = InTx d False \<Longrightarrow> u_entered (st_uow s) \<Longrightarrow> m s = (Inl e, s') \<Longrightarrow>
      visible s' = visible s \<and> (\<exists>d' f. conn_of s' = InTx d' f)
      \<and> (st_faults s = [] \<longrightarrow> st_faults s' = [] \<and> (\<exists>x. F (d, saved_of s) = (Inl e, x)))"
  shows "tx_den m F"
  unfolding tx_den_def using assms by (auto split: prod.splits sum.splits)

lemma tx_denD_Inr:
  assumes "tx_den m F" "conn_of s = InTx d False" "u_entered (st_uow s)" "m s = (Inr a, s')"
  shows "visible s' = visible s" "u_entered (st_uow s')" "st_faults s = [] \<longrightarrow> st_faults s' = []"
    "\<exists>d'. F (d, saved_of s) = (Inr a, (d', saved_of s')) \<and> conn_of s' = InTx d' False"
  using assms(2-4) assms(1) [unfolded tx_den_def, THEN spec, THEN spec, of s d] by simp_all

lemma tx_denD_Inl:
  assumes "tx_den m F" "conn_of s = InTx d False" "u_entered (st_uow s)" "m s = (Inl e, s')"
  shows "visible s' = visible s" "\<exists>d' f. conn_of s' = InTx d' f"
    "st_faults s = [] \<longrightarrow> st_faults s' = [] \<and> (\<exists>x. F (d, saved_of s) = (Inl e, x))"
  using assms(2-4) assms(1) [unfolded tx_den_def, THEN spec, THEN spec, of s d] by simp_all

lemma tx_return [tx_intros]: "tx_den (returnM a) (returnM a)"
  by (rule tx_denI) (auto simp: returnM_def)

lemma tx_raise [tx_intros]: "tx_den (raiseM e) (raiseM e)"
  by (rule tx_denI) (auto simp: raiseM_def)

lemma tx_fromSum [tx_intros]: "tx_den (fromSum r) (fromSum r)"
  by (rule tx_denI) (auto simp: fromSum_def)

lemma tx_skip [tx_intros]: "tx_den skipM skipM"
  by (simp add: skipM_def tx_return)

lemma tx_bind [tx_intros]:
  assumes m: "tx_den m F" and f: "\<And>a. tx_den (f a) (G a)"
  shows "tx_den (bindM m f) (bindM F G)"
proof (rule tx_denI, goal_cases)
  case (1 s d b s')
  obtain a s1 where s1: "m s = (Inr a, s1)" "f a s1 = (Inr b, s')"
    using 1(3) by (auto simp: bindM_def split: prod.splits sum.splits)
  note A = tx_denD_Inr [OF m 1(1,2) s1(1)]
  obtain d1 where d1: "F (d, saved_of s) = (Inr a, (d1, saved_of s1))" "conn_of s1 = InTx d1 False"
    using A(4) by blast
  note B = tx_denD_Inr [OF f d1(2) A(2) s1(2)]
  show ?case using A B d1 by (auto simp: bindM_def)
next
  case (2 s d e s')
  show ?case
  proof (cases "m s")
    case (Pair r s1)
    show ?thesis
    proof (cases r)
      case (Inl e')
      then have "m s = (Inl e, s')" using 2(3) Pair by (simp add: bindM_def)
      then show ?thesis using tx_denD_Inl [OF m 2(1,2)] by (auto simp: bindM_def)
    next
      case (Inr a)
      have s1: "m s = (Inr a, s1)" "f a s1 = (Inl e, s')"
        using 2(3) Pair Inr by (auto simp: bindM_def)
      note A = tx_denD_Inr [OF m 2(1,2) s1(1)]
      obtain d1 where d1: "F (d, saved_of s) = (Inr a, (d1, saved_of s1))" "conn_of s1 = InTx d1 False"
        using A(4) by blast
      note B = tx_denD_Inl [OF f d1(2) A(2) s1(2)]
      show ?thesis using A B d1 by (auto simp: bindM_def)
    qed
  qed
qed

lemma tx_then [tx_intros]: "tx_den m F \<Longrightarrow> tx_den n G \<Longrightarrow> tx_den (thenM m n) (thenM F G)"
  by (simp add: thenM_def tx_bind)

lemma tx_if [tx_intros]:
  "(b \<Longrightarrow> tx_den m F) \<Longrightarrow> (\<not> b \<Longrightarrow> tx_den n G) \<Longrightarrow> tx_den (if b then m else n) (if b then F else G)"
  by simp

lemma tx_option [tx_intros]:
  "tx_den m F \<Longrightarrow> (\<And>a. tx_den (f a) (G a)) \<Longrightarrow>
   tx_den (case x of None \<Rightarrow> m | Some a \<Rightarrow> f a) (case x of None \<Rightarrow> F | Some a \<Rightarrow> G a)"
  by (cases x) simp_all

lemma tx_list [tx_intros]:
  "tx_den m F \<Longrightarrow> (\<And>a as. tx_den (f a as) (G a as)) \<Longrightarrow>
   tx_den (case xs of [] \<Rightarrow> m | a # as \<Rightarrow> f a as) (case xs of [] \<Rightarrow> F | a # as \<Rightarrow> G a as)"
  by (cases xs) simp_all

lemma tx_run_tasks [tx_intros]: "tx_den (run_tasks q) (a_sql q)"
proof (rule tx_denI, goal_cases)
  case (1 s d a s')
  then have run: "run_sql q s = (Inr a, s')"
    by (simp add: run_tasks_def require_entered_def thenM_def bindM_def)
  show ?case
    using run 1(1,2)
    by (cases rule: round_trip_cases [of s])
       (auto simp: run_sql_def a_sql_def visible_bump split: prod.splits sum.splits)
next
  case (2 s d e s')
  then have run: "run_sql q s = (Inl e, s')"
    by (simp add: run_tasks_def require_entered_def thenM_def bindM_def)
  show ?case
    using run 2(1,2)
    by (cases rule: round_trip_cases [of s])
       (auto simp: run_sql_def a_sql_def visible_bump split: prod.splits sum.splits)
qed

lemma tx_add_saved [tx_intros]:
  "tx_den (modifyM (\<lambda>s. set_saved (saved_of s @ [t]) s)) (modifyM (\<lambda>(d, ts). (d, ts @ [t])))"
  by (rule tx_denI) (auto simp: modifyM_def)

lemma tx_save [tx_intros]: "tx_den (tasks_save t ex) (a_save t ex)"
  unfolding tasks_save_def a_save_def by (intro tx_intros)

section \<open>Entering, committing and leaving\<close>

text \<open>A silent program leaves the rows, the trace, the bus and the rest of the world alone; a quiet one
  moreover fails only by cancellation.\<close>

definition silent :: "('x, unit) prog \<Rightarrow> bool" where
  "silent m \<longleftrightarrow> (\<forall>s. case m s of (r, s') \<Rightarrow>
     visible s' = visible s \<and> st_db s' = st_db s \<and> store.more s' = store.more s
     \<and> (st_faults s = [] \<longrightarrow> st_faults s' = [] \<and> r \<noteq> Inl CancelledError))"

definition quiet :: "('x, unit) prog \<Rightarrow> bool" where
  "quiet m \<longleftrightarrow> silent m \<and> (\<forall>s. fst (m s) = Inr () \<or> fst (m s) = Inl CancelledError)"

lemma silentI:
  "(\<And>s r s'. m s = (r, s') \<Longrightarrow> visible s' = visible s \<and> st_db s' = st_db s \<and> store.more s' = store.more s
     \<and> (st_faults s = [] \<longrightarrow> st_faults s' = [] \<and> r \<noteq> Inl CancelledError)) \<Longrightarrow> silent m"
  by (simp add: silent_def split: prod.split)

lemma silentD:
  assumes "silent m" "m s = (r, s')"
  shows "visible s' = visible s" "st_db s' = st_db s" "store.more s' = store.more s"
    "st_faults s = [] \<Longrightarrow> st_faults s' = []" "st_faults s = [] \<Longrightarrow> r \<noteq> Inl CancelledError"
  using assms spec [OF assms(1) [unfolded silent_def], of s] by simp_all

lemma quiet_silent: "quiet m \<Longrightarrow> silent m"
  by (simp add: quiet_def)

lemma quietI:
  "silent m \<Longrightarrow> (\<And>s r s'. m s = (r, s') \<Longrightarrow> r = Inr () \<or> r = Inl CancelledError) \<Longrightarrow> quiet m"
  unfolding quiet_def by (metis prod.collapse)

lemma quietD:
  assumes "quiet m" "m s = (r, s')"
  shows "r = Inr () \<or> r = Inl CancelledError" "st_faults s = [] \<Longrightarrow> r = Inr ()"
  using assms(2) silentD(5) [of m s r s'] assms(1) [unfolded quiet_def, THEN conjunct2, THEN spec, of s]
    quiet_silent [OF assms(1)] by auto

lemma silent_round_trip: "silent round_trip"
proof (rule silentI)
  fix s s' :: "'a store_scheme" and r
  assume "round_trip s = (r, s')"
  then show "visible s' = visible s \<and> st_db s' = st_db s \<and> store.more s' = store.more s
     \<and> (st_faults s = [] \<longrightarrow> st_faults s' = [] \<and> r \<noteq> Inl CancelledError)"
    by (cases rule: round_trip_cases [of s]) auto
qed

lemma silent_skip: "silent skipM"
  by (simp add: silent_def skipM_def returnM_def)

lemma silent_require_conn: "silent require_conn"
  by (simp add: silent_def require_conn_def)

lemma silent_set: "silent (modifyM (set_conn c))" "silent (modifyM (set_saved ts))"
  "silent (modifyM (\<lambda>s. set_saved ts (set_conn c s)))"
  by (simp_all add: silent_def modifyM_def)

lemma thenM_cases:
  assumes "thenM m n s = (r, s')"
  obtains e where "m s = (Inl e, s')" "r = Inl e" | a s1 where "m s = (Inr a, s1)" "n s1 = (r, s')"
  using assms by (auto simp: thenM_def bindM_def split: prod.splits sum.splits)

lemma bindM_cases:
  assumes "bindM m f s = (r, s')"
  obtains e where "m s = (Inl e, s')" "r = Inl e" | a s1 where "m s = (Inr a, s1)" "f a s1 = (r, s')"
  using assms by (auto simp: bindM_def split: prod.splits sum.splits)

lemma silent_then:
  assumes "silent m" "silent n"
  shows "silent (thenM m n)"
proof (rule silentI)
  fix s s' r
  assume "thenM m n s = (r, s')"
  then show "visible s' = visible s \<and> st_db s' = st_db s \<and> store.more s' = store.more s
     \<and> (st_faults s = [] \<longrightarrow> st_faults s' = [] \<and> r \<noteq> Inl CancelledError)"
    by (cases rule: thenM_cases) (use silentD [OF assms(1)] silentD [OF assms(2)] in metis)+
qed

lemma quiet_suppress:
  assumes "silent m"
  shows "quiet (suppress m)"
proof -
  have *: "(r = Inr () \<or> r = Inl CancelledError) \<and> visible s' = visible s \<and> st_db s' = st_db s
      \<and> store.more s' = store.more s \<and> (st_faults s = [] \<longrightarrow> st_faults s' = [] \<and> r \<noteq> Inl CancelledError)"
    if "suppress m s = (r, s')" for s r s'
  proof (cases "m s")
    case (Pair q t)
    show ?thesis
      using that Pair silentD [OF assms Pair]
      by (cases q) (auto simp: suppress_def catchM_def is_Exception_def monad_simps split: if_splits)
  qed
  show ?thesis by (rule quietI [OF silentI]) (use * in blast)+
qed

lemma quiet_then:
  assumes "quiet m" "quiet n"
  shows "quiet (thenM m n)"
proof (rule quietI)
  show "silent (thenM m n)" using assms by (simp add: silent_then quiet_silent)
  show "r = Inr () \<or> r = Inl CancelledError" if "thenM m n s = (r, s')" for s r s'
    using that by (cases rule: thenM_cases) (use quietD(1) [OF assms(1)] quietD(1) [OF assms(2)] in blast)+
qed

lemma quiet_modify: "silent (modifyM f) \<Longrightarrow> quiet (modifyM f)"
  by (simp add: quiet_def modifyM_def)

lemma quiet_when: "quiet m \<Longrightarrow> quiet (whenM b m)"
  by (simp add: whenM_def quiet_def silent_skip) (simp add: skipM_def returnM_def)

lemma quiet_close: "quiet close_conn"
  unfolding close_conn_def by (intro quiet_then quiet_suppress quiet_modify silent_round_trip silent_set)

lemma silent_rollback: "silent uow_rollback"
  unfolding uow_rollback_def by (intro silent_then silent_require_conn silent_round_trip silent_set)

lemma quiet_exit: "quiet (uow_exit exc)"
proof -
  have "quiet (\<lambda>s. thenM (whenM a (suppress uow_rollback)) (whenM b close_conn) s)" for a b
    by (intro quiet_then quiet_when quiet_suppress silent_rollback quiet_close)
  then show ?thesis
    unfolding quiet_def silent_def uow_exit_def Let_def by metis
qed

lemma uow_enter_outcome:
  assumes "uow_enter (s\<lparr>st_uow := uow_init\<rparr>) = (r, s')"
  shows "visible s' = visible s" "store.more s' = store.more s" "st_db s' = st_db s"
    "r = Inr () \<Longrightarrow> conn_of s' = InTx (st_db s) False \<and> saved_of s' = [] \<and> u_entered (st_uow s')"
    "st_faults s = [] \<Longrightarrow> r = Inr () \<and> st_faults s' = []"
proof -
  let ?s0 = "set_saved [] (s\<lparr>st_uow := uow_init\<rparr>)"
  let ?P = "visible s' = visible s \<and> store.more s' = store.more s \<and> st_db s' = st_db s
    \<and> (r = Inr () \<longrightarrow> conn_of s' = InTx (st_db s) False \<and> saved_of s' = [] \<and> u_entered (st_uow s'))
    \<and> (st_faults s = [] \<longrightarrow> r = Inr () \<and> st_faults s' = [])"
  have "?P"
  proof (cases rule: round_trip_cases [of ?s0])
    case (1 s1)
    show ?thesis
    proof (cases rule: round_trip_cases [of "set_conn Idle s1"])
      case (1 s2)
      then have "s' = s2\<lparr>st_uow := (st_uow s2)\<lparr>u_conn := InTx (st_db s2) False, u_entered := True\<rparr>\<rparr>" "r = Inr ()"
        using assms \<open>round_trip ?s0 = (Inr (), s1)\<close>
        by (auto simp: uow_enter_def monad_simps)
      then show ?thesis
        using 1 \<open>visible s1 = visible ?s0\<close> \<open>st_db s1 = st_db ?s0\<close> \<open>store.more s1 = store.more ?s0\<close>
          \<open>saved_of s1 = saved_of ?s0\<close> \<open>st_faults ?s0 = [] \<longrightarrow> s1 = ?s0\<close>
        by (auto simp: saved_of_def [symmetric])
    next
      case (2 e s2)
      obtain q s3 where q: "close_conn s2 = (q, s3)" by (cases "close_conn s2")
      note C = silentD [OF quiet_silent [OF quiet_close] q]
      have "r \<noteq> Inr () \<and> s' = s3"
        using assms \<open>round_trip ?s0 = (Inr (), s1)\<close> 2(1) q
        by (cases q) (auto simp: uow_enter_def monad_simps)
      then show ?thesis
        using 2 C \<open>visible s1 = visible ?s0\<close> \<open>st_db s1 = st_db ?s0\<close> \<open>store.more s1 = store.more ?s0\<close>
          \<open>st_faults ?s0 = [] \<longrightarrow> s1 = ?s0\<close> by auto
    qed
  next
    case (2 e s1)
    then show ?thesis using assms by (auto simp: uow_enter_def monad_simps)
  qed
  then show "visible s' = visible s" "store.more s' = store.more s" "st_db s' = st_db s"
    "r = Inr () \<Longrightarrow> conn_of s' = InTx (st_db s) False \<and> saved_of s' = [] \<and> u_entered (st_uow s')"
    "st_faults s = [] \<Longrightarrow> r = Inr () \<and> st_faults s' = []"
    by simp_all
qed

text \<open>The events a transaction publishes.\<close>

definition events_of :: "task list \<Rightarrow> event list" where
  "events_of ts = concat (map t_events ts)"

definition calls :: "bus \<Rightarrow> event list \<Rightarrow> trace" where
  "calls b evs = concat (map (calls_for b) evs)"

lemma calls_events: "c \<in> set (calls b evs) \<Longrightarrow> snd c \<in> set evs"
  by (auto simp: calls_def calls_for_def)

lemma publish_outcome:
  assumes "suppress publish_events s = (r, s')"
  shows "st_db s' = st_db s" "st_bus s' = st_bus s" "store.more s' = store.more s" "st_faults s' = st_faults s"
    "r = Inr () \<or> r = Inl CancelledError"
    "\<exists>cs. st_trace s' = st_trace s @ cs \<and> (\<forall>c \<in> set cs. snd c \<in> set (events_of (saved_of s)))"
    "r = Inr () \<Longrightarrow> st_trace s' = st_trace s @ calls (st_bus s) (events_of (saved_of s))"
    "uncancelled (st_bus s) \<Longrightarrow> r = Inr ()"
proof -
  let ?evs = "concat (map t_events (saved_of s))"
  obtain q tr where q: "dispatch (st_bus s) ?evs (st_trace s) = (q, tr)"
    by (cases "dispatch (st_bus s) ?evs (st_trace s)")
  have bus: "st_bus (set_saved [] s) = st_bus s" "st_trace (set_saved [] s) = st_trace s" by simp_all
  have pre: "\<exists>cs. tr = st_trace s @ cs \<and> (\<forall>c \<in> set cs. snd c \<in> set ?evs)"
    using dispatch_prefix [of "st_bus s" ?evs "st_trace s"] q by simp
  have res: "(q = Inr () \<and> r = Inr () \<and> s' = set_saved [] ((set_saved [] s)\<lparr>st_trace := tr\<rparr>)
              \<and> tr = st_trace s @ calls (st_bus s) ?evs)
      \<or> (q = Inl CancelledError \<and> r = Inl CancelledError \<and> s' = (set_saved [] s)\<lparr>st_trace := tr\<rparr>)"
  proof (cases q)
    case (Inl e)
    then have "e = CancelledError" using dispatch_error q by blast
    then show ?thesis
      using assms q Inl
      by (simp add: suppress_def publish_events_def collect_events_def is_Exception_def monad_simps)
  next
    case (Inr u)
    then have "tr = st_trace s @ calls (st_bus s) ?evs" using dispatch_Inr q by (simp add: calls_def)
    then show ?thesis
      using assms q Inr
      by (simp add: suppress_def publish_events_def collect_events_def monad_simps)
  qed
  show "st_db s' = st_db s" "st_bus s' = st_bus s" "store.more s' = store.more s" "st_faults s' = st_faults s"
    "r = Inr () \<or> r = Inl CancelledError"
    "r = Inr () \<Longrightarrow> st_trace s' = st_trace s @ calls (st_bus s) (events_of (saved_of s))"
    using res by (auto simp: set_saved_def events_of_def)
  show "\<exists>cs. st_trace s' = st_trace s @ cs \<and> (\<forall>c \<in> set cs. snd c \<in> set (events_of (saved_of s)))"
    using res pre by (auto simp: set_saved_def events_of_def)
  show "r = Inr ()" if "uncancelled (st_bus s)"
    using that res q dispatch_isolated [OF that, of ?evs "st_trace s"] by auto
qed

lemma uow_commit_outcome:
  assumes conn: "conn_of s = InTx d False" and run: "uow_commit s = (r, s')"
  shows "store.more s' = store.more s" "st_bus s' = st_bus s"
    "(\<exists>e. r = Inl e \<and> visible s' = visible s)
     \<or> (st_db s' = d \<and> r = Inr () \<and> st_trace s' = st_trace s @ calls (st_bus s) (events_of (saved_of s)))
     \<or> (st_db s' = d \<and> r = Inl CancelledError
        \<and> (\<exists>cs. st_trace s' = st_trace s @ cs \<and> (\<forall>c \<in> set cs. snd c \<in> set (events_of (saved_of s)))))"
    "st_faults s = [] \<Longrightarrow> uncancelled (st_bus s) \<Longrightarrow> r = Inr () \<and> st_faults s' = []"
proof -
  have run': "thenM sql_commit (suppress publish_events) s = (r, s')"
    using run conn by (simp add: uow_commit_def require_conn_def thenM_def bindM_def)
  let ?P = "store.more s' = store.more s \<and> st_bus s' = st_bus s
    \<and> ((\<exists>e. r = Inl e \<and> visible s' = visible s)
     \<or> (st_db s' = d \<and> r = Inr () \<and> st_trace s' = st_trace s @ calls (st_bus s) (events_of (saved_of s)))
     \<or> (st_db s' = d \<and> r = Inl CancelledError
        \<and> (\<exists>cs. st_trace s' = st_trace s @ cs \<and> (\<forall>c \<in> set cs. snd c \<in> set (events_of (saved_of s))))))
    \<and> (st_faults s = [] \<longrightarrow> uncancelled (st_bus s) \<longrightarrow> r = Inr () \<and> st_faults s' = [])"
  have ?P
  proof (cases rule: round_trip_cases [of s])
    case (1 s1)
    let ?s2 = "set_conn Idle (s1\<lparr>st_db := d\<rparr>)"
    have "sql_commit s = (Inr (), ?s2)"
      using 1 conn by (simp add: sql_commit_def thenM_def bindM_def modifyM_def)
    then have pub: "suppress publish_events ?s2 = (r, s')"
      using run' by (simp add: thenM_def bindM_def)
    note p = publish_outcome [OF pub]
    have eqs: "st_db ?s2 = d" "st_bus ?s2 = st_bus s" "st_trace ?s2 = st_trace s" "saved_of ?s2 = saved_of s"
      "store.more ?s2 = store.more s" "st_faults s = [] \<Longrightarrow> st_faults ?s2 = []"
      using 1 by (auto simp: visible_def)
    have nf: "st_faults s' = []" if "st_faults s = []"
      using p(4) eqs(6) that by simp
    show ?thesis
    proof (cases "r = Inr ()")
      case True
      then show ?thesis using p(1,2,3) p(7) [OF True] eqs nf by simp
    next
      case False
      then have c: "r = Inl CancelledError" using p(5) by simp
      have "\<not> uncancelled (st_bus s)" using p(8) False eqs(2) by auto
      then show ?thesis using p(1,2,3,6) c eqs by simp
    qed
  next
    case (2 e s1)
    then have "sql_commit s = (Inl e, s1)"
      by (simp add: sql_commit_def thenM_def bindM_def)
    then have "r = Inl e" "s' = s1"
      using run' by (simp_all add: thenM_def bindM_def)
    then show ?thesis using 2 by (auto simp: visible_def)
  qed
  then show "store.more s' = store.more s" "st_bus s' = st_bus s"
    "(\<exists>e. r = Inl e \<and> visible s' = visible s)
     \<or> (st_db s' = d \<and> r = Inr () \<and> st_trace s' = st_trace s @ calls (st_bus s) (events_of (saved_of s)))
     \<or> (st_db s' = d \<and> r = Inl CancelledError
        \<and> (\<exists>cs. st_trace s' = st_trace s @ cs \<and> (\<forall>c \<in> set cs. snd c \<in> set (events_of (saved_of s)))))"
    "st_faults s = [] \<Longrightarrow> uncancelled (st_bus s) \<Longrightarrow> r = Inr () \<and> st_faults s' = []"
    by simp_all
qed

section \<open>Atomicity\<close>

text \<open>What can have become of a transaction \<open>F\<close> committed at the end of its block: it left nothing behind
  and raised, or its rows are the committed ones and its events have been handed to the handlers; a
  cancellation after COMMIT leaves the rows and hands over a part of the events.\<close>

definition tx_result :: "'a txn \<Rightarrow> 'x store_scheme \<Rightarrow> exn + 'a \<Rightarrow> 'x store_scheme \<Rightarrow> bool" where
  "tx_result F s r s' \<longleftrightarrow> st_bus s' = st_bus s \<and>
     ((\<exists>e. r = Inl e \<and> visible s' = visible s)
      \<or> (\<exists>a d ts. F (st_db s, []) = (Inr a, (d, ts)) \<and> st_db s' = d \<and>
           ((r = Inr a \<and> st_trace s' = st_trace s @ calls (st_bus s) (events_of ts))
            \<or> (r = Inl CancelledError
               \<and> (\<exists>cs. st_trace s' = st_trace s @ cs \<and> (\<forall>c \<in> set cs. snd c \<in> set (events_of ts)))))))"

lemma with_uow_body:
  assumes "with_uow body s = (r, s')"
  obtains e s1 where "uow_enter (s\<lparr>st_uow := uow_init\<rparr>) = (Inl e, s1)" "r = Inl e" "s' = s1"
  | s1 q s2 x where "uow_enter (s\<lparr>st_uow := uow_init\<rparr>) = (Inr (), s1)" "body s1 = (q, s2)"
      "uow_exit (case q of Inl e \<Rightarrow> Some e | Inr _ \<Rightarrow> None) s2 = (x, s')"
      "r = (case x of Inl e \<Rightarrow> Inl e | Inr _ \<Rightarrow> q)"
proof (cases "uow_enter (s\<lparr>st_uow := uow_init\<rparr>)")
  case (Pair y s1)
  show thesis
  proof (cases y)
    case (Inl e)
    then have "r = Inl e" "s' = s1"
      using assms Pair by (simp_all add: with_uow_def thenM_def bindM_def modifyM_def)
    then show thesis using that(1) [OF Pair [unfolded Inl]] by blast
  next
    case (Inr u)
    obtain q s2 where q: "body s1 = (q, s2)" by (cases "body s1")
    obtain x s3 where x: "uow_exit (case q of Inl e \<Rightarrow> Some e | Inr _ \<Rightarrow> None) s2 = (x, s3)"
      by (cases "uow_exit (case q of Inl e \<Rightarrow> Some e | Inr _ \<Rightarrow> None) s2")
    have "(r, s') = (case x of Inl e \<Rightarrow> Inl e | Inr _ \<Rightarrow> q, s3)"
      using assms Pair Inr q x
      by (cases q; cases x) (simp_all add: with_uow_def thenM_def bindM_def modifyM_def returnM_def raiseM_def)
    then have "r = (case x of Inl e \<Rightarrow> Inl e | Inr _ \<Rightarrow> q)" "s' = s3" by simp_all
    moreover have "uow_enter (s\<lparr>st_uow := uow_init\<rparr>) = (Inr (), s1)" using Pair Inr by simp
    ultimately show thesis using that(2) q x by blast
  qed
qed

lemma exit_outcome:
  assumes "uow_exit exc s = (x, s')"
  shows "visible s' = visible s" "st_db s' = st_db s" "store.more s' = store.more s"
    "x = Inr () \<or> x = Inl CancelledError" "st_faults s = [] \<Longrightarrow> x = Inr () \<and> st_faults s' = []"
  using silentD [OF quiet_silent [OF quiet_exit] assms] quietD [OF quiet_exit assms] by auto

theorem with_uow_commit:
  assumes den: "tx_den ops F"
    and run: "with_uow (bindM ops (\<lambda>a. thenM uow_commit (returnM a))) s = (r, s')"
  shows "tx_result F s r s'"
  using run
proof (cases rule: with_uow_body)
  case (1 e s1)
  then show ?thesis
    using uow_enter_outcome(1) [OF 1(1)] by (auto simp: tx_result_def visible_def)
next
  case (2 s1 q s2 x)
  note E = uow_enter_outcome [OF 2(1)]
  note X = exit_outcome [OF 2(3)]
  have E1: "conn_of s1 = InTx (st_db s) False" "saved_of s1 = []" "u_entered (st_uow s1)"
    using E(4) by simp_all
  have V1: "st_trace s1 = st_trace s" "st_bus s1 = st_bus s" using E(1) by (simp_all add: visible_def)
  have VX: "st_trace s' = st_trace s2" "st_bus s' = st_bus s2" using X(1) by (simp_all add: visible_def)
  show ?thesis
    using 2(2)
  proof (cases rule: bindM_cases)
    case (1 e)
    then show ?thesis
      using tx_denD_Inl(1) [OF den E1(1,3) 1(1)] E(1) X(1,4) 2(4)
      by (auto simp: tx_result_def visible_def)
  next
    case B: (2 a sa)
    note A = tx_denD_Inr [OF den E1(1,3) B(1)]
    obtain d where d: "F (st_db s, []) = (Inr a, (d, saved_of sa))" "conn_of sa = InTx d False"
      using A(4) E1(2) by auto
    have VA: "st_trace sa = st_trace s" "st_bus sa = st_bus s" "visible sa = visible s"
      using A(1) E(1) by (simp_all add: visible_def)
    obtain y where y: "uow_commit sa = (y, s2)" "q = (case y of Inl e \<Rightarrow> Inl e | Inr _ \<Rightarrow> Inr a)"
      using B(2) by (cases rule: thenM_cases) (auto simp: returnM_def)
    note C = uow_commit_outcome [OF d(2) y(1)]
    show ?thesis
      using C(2,3) d VA X(1,2,4) VX y(2) 2(4) calls_events unfolding tx_result_def
      by (auto simp: visible_def split: sum.splits)
  qed
qed

theorem with_uow_commit_more:
  assumes den: "tx_den ops F" and ops: "\<And>t. store.more (snd (ops t)) = store.more t"
    and run: "with_uow (bindM ops (\<lambda>a. thenM uow_commit (returnM a))) s = (r, s')"
  shows "store.more s' = store.more s"
  using run
proof (cases rule: with_uow_body)
  case (1 e s1)
  then show ?thesis using uow_enter_outcome(2) [OF 1(1)] by simp
next
  case (2 s1 q s2 x)
  note E = uow_enter_outcome [OF 2(1)]
  note X = exit_outcome [OF 2(3)]
  have E1: "conn_of s1 = InTx (st_db s) False" "saved_of s1 = []" "u_entered (st_uow s1)"
    using E(4) by simp_all
  show ?thesis
    using 2(2)
  proof (cases rule: bindM_cases)
    case (1 e)
    then show ?thesis using ops [of s1] E(2) X(3) by simp
  next
    case B: (2 a sa)
    then obtain y where y: "uow_commit sa = (y, s2)"
      by (cases rule: thenM_cases [OF B(2)]) (auto simp: returnM_def)
    obtain d where d: "conn_of sa = InTx d False"
      using tx_denD_Inr(4) [OF den E1(1,3) B(1)] by auto
    show ?thesis using uow_commit_outcome(1) [OF d y] ops [of s1] B(1) E(2) X(3) by simp
  qed
qed

text \<open>A block that never commits changes nothing visible.\<close>

lemma with_uow_read:
  assumes den: "tx_den ops F" and run: "with_uow ops s = (r, s')"
  shows "visible s' = visible s \<and> (\<forall>a. r = Inr a \<longrightarrow> (\<exists>x. F (st_db s, []) = (Inr a, x)))"
  using run
proof (cases rule: with_uow_body)
  case (1 e s1)
  then show ?thesis using uow_enter_outcome(1) [OF 1(1)] by simp
next
  case (2 s1 q s2 x)
  note E = uow_enter_outcome [OF 2(1)]
  note X = exit_outcome [OF 2(3)]
  have E1: "conn_of s1 = InTx (st_db s) False" "saved_of s1 = []" "u_entered (st_uow s1)"
    using E(4) by simp_all
  show ?thesis
  proof (cases q)
    case (Inl e)
    then show ?thesis using tx_denD_Inl(1) [OF den E1(1,3)] 2(2,4) E(1) X(1) by (auto split: sum.splits)
  next
    case (Inr b)
    have m: "ops s1 = (Inr b, s2)" using 2(2) Inr by simp
    obtain d where "F (st_db s, []) = (Inr b, (d, saved_of s2))"
      using tx_denD_Inr(4) [OF den E1(1,3) m] E1(2) by auto
    then show ?thesis
      using tx_denD_Inr(1) [OF den E1(1,3) m] 2(4) Inr E(1) X(1) by (auto split: sum.splits)
  qed
qed

text \<open>Without faults and cancelled handlers the block has the outcome of its transaction.\<close>

theorem with_uow_commit_no_fault:
  assumes den: "tx_den ops F" and nf: "st_faults s = []" and un: "uncancelled (st_bus s)"
    and run: "with_uow (bindM ops (\<lambda>a. thenM uow_commit (returnM a))) s = (r, s')"
  shows "r = fst (F (st_db s, [])) \<and> st_faults s' = []"
  using run
proof (cases rule: with_uow_body)
  case (1 e s1)
  then show ?thesis using uow_enter_outcome(5) [OF 1(1) nf] by simp
next
  case (2 s1 q s2 x)
  note E = uow_enter_outcome [OF 2(1)]
  note X = exit_outcome [OF 2(3)]
  have E1: "conn_of s1 = InTx (st_db s) False" "saved_of s1 = []" "u_entered (st_uow s1)"
    using E(4) by simp_all
  have nf1: "st_faults s1 = []" using E(5) nf by simp
  show ?thesis
    using 2(2)
  proof (cases rule: bindM_cases)
    case (1 e)
    then show ?thesis
      using tx_denD_Inl(3) [OF den E1(1,3) 1(1)] nf1 E1(2) X(5) 2(4) by auto
  next
    case B: (2 a sa)
    note A = tx_denD_Inr [OF den E1(1,3) B(1)]
    obtain d where d: "F (st_db s, []) = (Inr a, (d, saved_of sa))" "conn_of sa = InTx d False"
      using A(4) E1(2) by auto
    obtain y where y: "uow_commit sa = (y, s2)" "q = (case y of Inl e \<Rightarrow> Inl e | Inr _ \<Rightarrow> Inr a)"
      using B(2) by (cases rule: thenM_cases) (auto simp: returnM_def)
    have "uncancelled (st_bus sa)"
      using A(1) E(1) un by (simp add: visible_def)
    then show ?thesis
      using uow_commit_outcome(4) [OF d(2) y(1)] A(3) nf1 d(1) y(2) X(5) 2(4) by auto
  qed
qed

theorem with_uow_read_no_fault:
  assumes den: "tx_den ops F" and nf: "st_faults s = []" and run: "with_uow ops s = (r, s')"
  shows "r = fst (F (st_db s, [])) \<and> st_faults s' = []"
  using run
proof (cases rule: with_uow_body)
  case (1 e s1)
  then show ?thesis using uow_enter_outcome(5) [OF 1(1) nf] by simp
next
  case (2 s1 q s2 x)
  note E = uow_enter_outcome [OF 2(1)]
  note X = exit_outcome [OF 2(3)]
  have E1: "conn_of s1 = InTx (st_db s) False" "saved_of s1 = []" "u_entered (st_uow s1)"
    using E(4) by simp_all
  have nf1: "st_faults s1 = []" using E(5) nf by simp
  show ?thesis
  proof (cases q)
    case (Inl e)
    then show ?thesis using tx_denD_Inl(3) [OF den E1(1,3)] 2(2,4) nf1 E1(2) X(5) by auto
  next
    case (Inr b)
    then show ?thesis using tx_denD_Inr(3,4) [OF den E1(1,3)] 2(2,4) nf1 E1(2) X(5) by fastforce
  qed
qed

end
