(* ===== verification/Store_Invariant.thy ===== *)
theory Store_Invariant
  imports Uow_Rules
begin

text \<open>
  The database invariant \<open>db_wf\<close> along every operation of the repositories and the unit of work:
  \<open>store_wf\<close> extends it to an open transaction, whose identity sequences agree with the server's.
\<close>

definition store_wf :: "'x store_scheme \<Rightarrow> bool" where
  "store_wf s \<longleftrightarrow> db_wf (st_db s) \<and>
     (\<forall>d f. conn_of s = InTx d f \<longrightarrow>
        db_wf d \<and> d_next_task d = d_next_task (st_db s) \<and> d_next_node d = d_next_node (st_db s))"

definition sql_ok :: "(db, exn, 'a) M \<Rightarrow> bool" where
  "sql_ok q \<longleftrightarrow> (\<forall>d. db_wf d \<longrightarrow> db_wf (snd (q d)) \<and> d_next_task d \<le> d_next_task (snd (q d))
     \<and> d_next_node d \<le> d_next_node (snd (q d)))"

lemma sql_okI_select: "(\<And>d. snd (q d) = d) \<Longrightarrow> sql_ok q"
  by (simp add: sql_ok_def)

lemma sql_ok_update_by: "sql_ok (sql_node_update_by i f)"
  using sql_node_update_by_wf by (auto simp: sql_ok_def sql_node_update_by_def Let_def)

lemma sql_ok_statements:
  "sql_ok (sql_task_insert ti en lf wu pa xt)" "sql_ok (sql_task_update new ex)"
  "sql_ok (sql_node_insert vals)" "sql_ok (sql_node_remove i)"
  "sql_ok (\<lambda>d. sql_node_insert (valsf d) d)"
  "sql_ok (sql_node_update v)" "sql_ok (sql_node_enable i)" "sql_ok (sql_node_disable i)"
  using sql_task_insert_wf sql_task_update_wf sql_node_insert_wf sql_node_remove_wf sql_ok_update_by
  by (auto simp: sql_ok_def sql_task_insert_def sql_task_update_def sql_node_insert_def
      sql_node_remove_def sql_node_update_def sql_node_enable_def sql_node_disable_def Let_def)

lemmas sql_ok_rules = sql_selects_db [THEN sql_okI_select] sql_ok_update_by sql_ok_statements

lemma db_wf_bump:
  "db_wf d \<Longrightarrow> d_next_task d \<le> d_next_task d' \<Longrightarrow> d_next_node d \<le> d_next_node d' \<Longrightarrow> db_wf (bump d' d)"
  by (fastforce simp: db_wf_def task_row_ok_def task_fk_iff)

lemma store_wf_simps [simp]:
  "store_wf (set_saved ts s) = store_wf s" "store_wf (s\<lparr>st_faults := fs\<rparr>) = store_wf s"
  "store_wf (s\<lparr>st_trace := tr\<rparr>) = store_wf s"
  by (simp_all add: store_wf_def)

lemma store_wf_conn:
  "store_wf s \<Longrightarrow> store_wf (set_conn Closed s)" "store_wf s \<Longrightarrow> store_wf (set_conn Idle s)"
  "store_wf s \<Longrightarrow> conn_of s = InTx d f \<Longrightarrow> store_wf (set_conn (InTx d f') s)"
  by (auto simp: store_wf_def)

lemma store_wf_commit:
  "store_wf s \<Longrightarrow> conn_of s = InTx d f \<Longrightarrow> store_wf (set_conn Idle (s\<lparr>st_db := d\<rparr>))"
  by (simp add: store_wf_def)

lemma keeps_round_trip [keeps_intros]: "keeps store_wf round_trip"
  by (auto simp: keeps_def round_trip_def split: list.split option.split)

lemma keeps_suppress [keeps_intros]: "keeps P m \<Longrightarrow> keeps P (suppress m)"
  unfolding suppress_def by (intro keeps_intros)

lemma round_trip_wf:
  "store_wf s \<Longrightarrow> round_trip s = (r, s') \<Longrightarrow> store_wf s' \<and> conn_of s' = conn_of s \<and> st_db s' = st_db s"
  by (auto simp: round_trip_def split: list.splits option.splits)

lemma keeps_run_sql: "sql_ok q \<Longrightarrow> keeps store_wf (run_sql q)"
proof (rule keepsI)
  fix s :: "'x store_scheme"
  assume q: "sql_ok q" and wf: "store_wf s"
  obtain r s1 where s1: "round_trip s = (r, s1)" by (cases "round_trip s")
  note W = round_trip_wf [OF wf s1]
  show "store_wf (snd (run_sql q s))"
  proof (cases "conn_of s")
    case Closed
    then show ?thesis using wf by (simp add: run_sql_def)
  next
    case Idle
    obtain x d where d: "q (st_db s1) = (x, d)" by (cases "q (st_db s1)")
    have "db_wf (st_db s1)" using W unfolding store_wf_def by blast
    then have "db_wf d"
      using q d unfolding sql_ok_def by (metis snd_conv)
    moreover have "conn_of s1 = Idle" using W Idle by simp
    ultimately have "store_wf (s1\<lparr>st_db := d\<rparr>)" by (simp add: store_wf_def)
    moreover have "store_wf s1" using W by blast
    ultimately show ?thesis
      by (cases r) (simp_all add: run_sql_def Idle s1 d)
  next
    case (InTx d f)
    obtain x d' where d': "q d = (x, d')" by (cases "q d")
    have D: "db_wf d" "db_wf (st_db s)" "d_next_task d = d_next_task (st_db s)"
      "d_next_node d = d_next_node (st_db s)"
      using wf InTx by (simp_all add: store_wf_def)
    have ok: "db_wf d' \<and> d_next_task d \<le> d_next_task d' \<and> d_next_node d \<le> d_next_node d'"
      using q D(1) d' unfolding sql_ok_def by (metis snd_conv)
    have B: "db_wf (bump d' (st_db s1))" "db_wf (bump d' d)"
      using ok D W by (auto intro: db_wf_bump)
    have fin: "store_wf (set_conn (InTx e g) (s1\<lparr>st_db := bump d' (st_db s1)\<rparr>))"
      if "db_wf e" "d_next_task e = d_next_task d'" "d_next_node e = d_next_node d'" for e g
      using that B(1) by (simp add: store_wf_def)
    have fin': "store_wf (set_conn (InTx d True) s1)" "store_wf s1"
      using W InTx store_wf_conn(3) by fastforce+
    have "snd (run_sql q s) \<in> {set_conn (InTx d True) s1, s1,
        set_conn (InTx (bump d' d) True) (s1\<lparr>st_db := bump d' (st_db s1)\<rparr>),
        set_conn (InTx d' False) (s1\<lparr>st_db := bump d' (st_db s1)\<rparr>)}"
      by (cases r; cases x; cases f) (simp_all add: run_sql_def InTx s1 d')
    then show ?thesis
      using fin [of "bump d' d"] fin [of d'] fin' ok B(2) by auto
  qed
qed

lemma keeps_require_entered [keeps_intros]: "keeps P require_entered"
  by (simp add: keeps_def require_entered_def)

lemma keeps_require_conn [keeps_intros]: "keeps P require_conn"
  by (simp add: keeps_def require_conn_def)

lemma keeps_run_tasks [keeps_intros]: "sql_ok q \<Longrightarrow> keeps store_wf (run_tasks q)"
  unfolding run_tasks_def by (intro keeps_intros keeps_run_sql)

lemma keeps_close [keeps_intros]: "keeps store_wf close_conn"
  unfolding close_conn_def by (intro keeps_intros keeps_modify store_wf_conn)

lemma keeps_enter [keeps_intros]: "keeps store_wf uow_enter"
  unfolding uow_enter_def
  by (intro keeps_intros keeps_modify) (auto simp: store_wf_def)

lemma keeps_rollback [keeps_intros]: "keeps store_wf uow_rollback"
  unfolding uow_rollback_def by (intro keeps_intros keeps_modify) (simp add: store_wf_conn)

lemma keeps_publish [keeps_intros]: "keeps store_wf publish_events"
proof -
  have "keeps store_wf (\<lambda>s :: 'x store_scheme. case dispatch (st_bus s) evs (st_trace s) of
      (r, tr) \<Rightarrow> (r, s\<lparr>st_trace := tr\<rparr>))" for evs
    by (auto simp: keeps_def split: prod.split)
  moreover have "keeps store_wf (collect_events :: ('x, event list) prog)"
    by (simp add: keeps_def collect_events_def)
  ultimately show ?thesis
    unfolding publish_events_def by (intro keeps_intros keeps_modify) simp_all
qed

lemma keeps_commit [keeps_intros]: "keeps store_wf uow_commit"
proof -
  have "keeps store_wf (sql_commit :: ('x, unit) prog)"
    unfolding sql_commit_def
    by (intro keeps_intros keeps_modify) (simp split: conn.split bool.split add: store_wf_conn(2) store_wf_commit)
  then show ?thesis unfolding uow_commit_def by (intro keeps_intros)
qed

lemma keeps_exit [keeps_intros]: "keeps store_wf (uow_exit exc)"
proof (rule keepsI)
  fix s :: "'x store_scheme" assume wf: "store_wf s"
  have "keeps store_wf (thenM (whenM a (suppress uow_rollback)) (whenM b close_conn) :: ('x, unit) prog)" for a b
    by (intro keeps_intros)
  from keepsD [OF this wf] show "store_wf (snd (uow_exit exc s))"
    unfolding uow_exit_def Let_def .
qed

lemma keeps_with_uow [keeps_intros]:
  fixes body :: "('x, 'a) prog"
  assumes "keeps store_wf body"
  shows "keeps store_wf (with_uow body)"
proof -
  have "keeps store_wf (\<lambda>s. case body s of
        (Inr a, s') \<Rightarrow> bindM (uow_exit None) (\<lambda>_. returnM a) s'
      | (Inl e, s') \<Rightarrow> bindM (uow_exit (Some e)) (\<lambda>_. raiseM e) s')"
  proof (rule keepsI)
    fix s :: "'x store_scheme" assume wf: "store_wf s"
    obtain r s1 where s1: "body s = (r, s1)" by (cases "body s")
    have "store_wf s1" using keepsD' [OF assms wf s1] .
    moreover have "keeps store_wf (bindM (uow_exit exc) (\<lambda>_. m))" if "keeps store_wf m" for exc and m :: "('x, 'a) prog"
      using that by (intro keeps_intros)
    ultimately show "store_wf (snd (case body s of
        (Inr a, s') \<Rightarrow> bindM (uow_exit None) (\<lambda>_. returnM a) s'
      | (Inl e, s') \<Rightarrow> bindM (uow_exit (Some e)) (\<lambda>_. raiseM e) s'))"
      using s1 by (cases r) (auto intro: keepsD keeps_return keeps_raise)
  qed
  then show ?thesis
    unfolding with_uow_def
    by (intro keeps_intros keeps_modify) (auto simp: store_wf_def uow_init_def)
qed

lemma keeps_first_row [keeps_intros]: "keeps P (first_row f rows)"
  unfolding first_row_def by (cases rows) (auto intro!: keeps_intros)

lemma keeps_node_statement [keeps_intros]: "sql_ok q \<Longrightarrow> keeps store_wf (node_statement nid q)"
  unfolding node_statement_def by (intro keeps_intros)

lemma keeps_decode [keeps_intros]: "keeps P (decode_nodes rows)"
  unfolding decode_nodes_def by (intro keeps_intros)

lemma keeps_tasks_repo [keeps_intros]:
  "keeps store_wf (tasks_get tid)" "keeps store_wf (tasks_get_running tid)"
  "keeps store_wf (tasks_get_todo tid)" "keeps store_wf (tasks_save t ex)"
  "keeps store_wf (tasks_list_by_status sts lmt)" "keeps store_wf (tasks_list_todo lmt)"
  "keeps store_wf (tasks_list_running lmt)"
  "keeps store_wf (tasks_list_ids_by_node_id_and_status nid st)"
  "keeps store_wf (tasks_insert nt)" "keeps store_wf (tasks_list_by_jobs ids)"
  "keeps store_wf tasks_count_by_status"
  unfolding tasks_get_def tasks_get_running_def tasks_get_todo_def tasks_save_def
    tasks_list_todo_def tasks_list_running_def tasks_list_by_status_def
    tasks_list_ids_by_node_id_and_status_def tasks_insert_def tasks_list_by_jobs_def tasks_count_by_status_def
  by (intro keeps_intros sql_ok_rules keeps_modify; simp)+

lemma keeps_nodes_repo [keeps_intros]:
  "keeps store_wf nodes_list_all" "keeps store_wf nodes_list_enabled" "keeps store_wf nodes_list_disabled"
  "keeps store_wf (nodes_insert nn)" "keeps store_wf (nodes_get_by_id nid)"
  "keeps store_wf (nodes_get_by_ids ids)" "keeps store_wf (nodes_update n)"
  "keeps store_wf (nodes_enable nid)" "keeps store_wf (nodes_disable nid)"
  "keeps store_wf (nodes_remove nid)" "keeps store_wf nodes_count_by_status"
  unfolding nodes_list_all_def nodes_list_enabled_def nodes_list_disabled_def nodes_insert_def
    nodes_get_by_id_def nodes_get_by_ids_def nodes_update_def nodes_enable_def nodes_disable_def
    nodes_remove_def nodes_count_by_status_def
  by (intro keeps_intros sql_ok_rules)+

end
