(* ===== verification/Uow_Blocks.thy ===== *)
theory Uow_Blocks
  imports Uow_Rules Store_Invariant
begin

text \<open>
  Blocks of a unit of work that decide, while their transaction is open, whether to commit: the
  outcome of \<open>async with uow: x = ...; if c(x): commit\<close>, also where the body calls out to code that is
  not a repository (it must leave the store alone, \<open>tx_run_frame\<close>); and the abstract transactions of
  the remaining repository operations.
\<close>

section \<open>Transactions as relations\<close>

type_synonym 'a txrel = "db \<times> task list \<Rightarrow> 'a \<Rightarrow> db \<times> task list \<Rightarrow> bool"

named_theorems run_intros "structural rules for relational transactions"

definition tx_run :: "('x, 'a) prog \<Rightarrow> 'a txrel \<Rightarrow> bool" where
  "tx_run m R \<longleftrightarrow> (\<forall>s d. conn_of s = InTx d False \<longrightarrow> u_entered (st_uow s) \<longrightarrow>
     (case m s of
        (Inr a, s') \<Rightarrow> visible s' = visible s \<and> u_entered (st_uow s')
           \<and> (\<exists>d'. R (d, saved_of s) a (d', saved_of s') \<and> conn_of s' = InTx d' False)
      | (Inl e, s') \<Rightarrow> visible s' = visible s))"

lemma tx_runI:
  assumes "\<And>s d a s'. conn_of s = InTx d False \<Longrightarrow> u_entered (st_uow s) \<Longrightarrow> m s = (Inr a, s') \<Longrightarrow>
      visible s' = visible s \<and> u_entered (st_uow s')
      \<and> (\<exists>d'. R (d, saved_of s) a (d', saved_of s') \<and> conn_of s' = InTx d' False)"
    and "\<And>s d e s'. conn_of s = InTx d False \<Longrightarrow> u_entered (st_uow s) \<Longrightarrow> m s = (Inl e, s') \<Longrightarrow>
      visible s' = visible s"
  shows "tx_run m R"
  unfolding tx_run_def using assms by (auto split: prod.splits sum.splits)

lemma tx_runD_Inr:
  assumes "tx_run m R" "conn_of s = InTx d False" "u_entered (st_uow s)" "m s = (Inr a, s')"
  shows "visible s' = visible s" "u_entered (st_uow s')"
    "\<exists>d'. R (d, saved_of s) a (d', saved_of s') \<and> conn_of s' = InTx d' False"
  using assms(2-4) assms(1) [unfolded tx_run_def, THEN spec, THEN spec, of s d] by simp_all

lemma tx_runD_Inl:
  assumes "tx_run m R" "conn_of s = InTx d False" "u_entered (st_uow s)" "m s = (Inl e, s')"
  shows "visible s' = visible s"
  using assms(2-4) assms(1) [unfolded tx_run_def, THEN spec, THEN spec, of s d] by simp

definition of_txn :: "'a txn \<Rightarrow> 'a txrel" where
  "of_txn F x a y \<longleftrightarrow> F x = (Inr a, y)"

definition rel_bind :: "'a txrel \<Rightarrow> ('a \<Rightarrow> 'b txrel) \<Rightarrow> 'b txrel" where
  "rel_bind R S x b z \<longleftrightarrow> (\<exists>a y. R x a y \<and> S a y b z)"

definition rel_keep :: "'a txrel" where
  "rel_keep x a y \<longleftrightarrow> y = x"

lemma tx_run_den: "tx_den m F \<Longrightarrow> tx_run m (of_txn F)"
  by (rule tx_runI) (auto simp: of_txn_def dest: tx_denD_Inr tx_denD_Inl)

lemma tx_run_bind [run_intros]:
  assumes m: "tx_run m R" and f: "\<And>a. tx_run (f a) (S a)"
  shows "tx_run (bindM m f) (rel_bind R S)"
proof (rule tx_runI, goal_cases)
  case (1 s d b s')
  from 1(3) show ?case
  proof (cases rule: bindM_cases)
    case (2 a s1)
    note A = tx_runD_Inr [OF m 1(1,2) 2(1)]
    obtain d1 where d1: "R (d, saved_of s) a (d1, saved_of s1)" "conn_of s1 = InTx d1 False" using A(3) by blast
    note B = tx_runD_Inr [OF f d1(2) A(2) 2(2)]
    show ?thesis using A(1) B d1(1) unfolding rel_bind_def by auto
  qed simp
next
  case (2 s d e s')
  from 2(3) show ?case
  proof (cases rule: bindM_cases)
    case 1
    then show ?thesis using tx_runD_Inl [OF m 2(1,2)] by simp
  next
    case B: (2 a s1)
    note A = tx_runD_Inr [OF m 2(1,2) B(1)]
    then obtain d1 where "conn_of s1 = InTx d1 False" by blast
    then show ?thesis using tx_runD_Inl [OF f _ A(2) B(2)] A(1) by simp
  qed
qed

lemma tx_run_then [run_intros]: "tx_run m R \<Longrightarrow> tx_run n S \<Longrightarrow> tx_run (thenM m n) (rel_bind R (\<lambda>_. S))"
  by (simp add: thenM_def tx_run_bind)

text \<open>Code that leaves the store and its unit of work alone may run inside the block.\<close>

definition store_view :: "'x store_scheme \<Rightarrow> db \<times> uow \<times> bus \<times> trace" where
  "store_view s = (st_db s, st_uow s, st_bus s, st_trace s)"

lemma tx_run_frame [run_intros]:
  assumes "frames store_view m"
  shows "tx_run m rel_keep"
proof -
  have "visible s' = visible s \<and> st_uow s' = st_uow s" if "m s = (r, s')" for s s' r
    using framesD' [OF assms that] by (simp add: store_view_def visible_def committed_def)
  then show ?thesis
    by (intro tx_runI) (auto simp: rel_keep_def conn_of_def saved_of_def)
qed

section \<open>The outcome of a deciding block\<close>

definition block_result ::
  "'a txrel \<Rightarrow> ('a \<Rightarrow> bool) \<Rightarrow> ('a \<Rightarrow> ('x, 'b) prog) \<Rightarrow> ('a \<Rightarrow> 'b) \<Rightarrow> 'x store_scheme \<Rightarrow> exn + 'b \<Rightarrow> 'x store_scheme \<Rightarrow> bool" where
  "block_result R c k f s r s' \<longleftrightarrow> st_bus s' = st_bus s \<and>
     ((visible s' = visible s \<and> (\<forall>b. r = Inr b \<longrightarrow> (\<exists>a x t. R (st_db s, []) a x \<and> \<not> c a \<and> fst (k a t) = Inr b)))
      \<or> (\<exists>a d ts. R (st_db s, []) a (d, ts) \<and> c a \<and> st_db s' = d \<and>
           ((r = Inr (f a) \<and> st_trace s' = st_trace s @ calls (st_bus s) (events_of ts))
            \<or> (r = Inl CancelledError
               \<and> (\<exists>cs. st_trace s' = st_trace s @ cs \<and> (\<forall>c \<in> set cs. snd c \<in> set (events_of ts)))))))"

theorem with_uow_block:
  assumes ops: "tx_run ops R"
    and yes: "\<And>a. c a \<Longrightarrow> k a = thenM uow_commit (returnM (f a))"
    and no: "\<And>a t. \<not> c a \<Longrightarrow> visible (snd (k a t)) = visible t"
    and run: "with_uow (bindM ops k) s = (r, s')"
  shows "block_result R c k f s r s'"
  using run
proof (cases rule: with_uow_body)
  case (1 e s1)
  then show ?thesis
    using uow_enter_outcome(1) [OF 1(1)] by (auto simp: block_result_def visible_def)
next
  case (2 s1 q s2 x)
  note E = uow_enter_outcome [OF 2(1)]
  note X = exit_outcome [OF 2(3)]
  have E1: "conn_of s1 = InTx (st_db s) False" "saved_of s1 = []" "u_entered (st_uow s1)"
    using E(4) by simp_all
  have V1: "st_trace s1 = st_trace s" "st_bus s1 = st_bus s" using E(1) by (simp_all add: visible_def)
  have VX: "st_trace s' = st_trace s2" "st_bus s' = st_bus s2" using X(1) by (simp_all add: visible_def)
  show ?thesis
    using 2(2)
  proof (cases rule: bindM_cases)
    case (1 e)
    then show ?thesis
      using tx_runD_Inl [OF ops E1(1,3) 1(1)] E(1) X(1,4) 2(4)
      by (auto simp: block_result_def visible_def)
  next
    case B: (2 a sa)
    note A = tx_runD_Inr [OF ops E1(1,3) B(1)]
    obtain d where d: "R (st_db s, []) a (d, saved_of sa)" "conn_of sa = InTx d False"
      using A(3) E1(2) by auto
    have VA: "st_trace sa = st_trace s" "st_bus sa = st_bus s" "visible sa = visible s"
      using A(1) E(1) by (simp_all add: visible_def)
    show ?thesis
    proof (cases "c a")
      case True
      then have "thenM uow_commit (returnM (f a)) sa = (q, s2)" using B(2) yes by simp
      then obtain y where y: "uow_commit sa = (y, s2)" "q = (case y of Inl e \<Rightarrow> Inl e | Inr _ \<Rightarrow> Inr (f a))"
        by (cases rule: thenM_cases) (auto simp: returnM_def)
      note C = uow_commit_outcome [OF d(2) y(1)]
      have bus: "st_bus s' = st_bus s" using C(2) VX VA by simp
      have rx: "r = Inl CancelledError \<or> r = q" using X(4) 2(4) by (auto split: sum.splits)
      consider e where "y = Inl e" "visible s2 = visible sa"
        | "st_db s2 = d" "y = Inr ()" "st_trace s2 = st_trace s @ calls (st_bus s) (events_of (saved_of sa))"
        | cs where "st_db s2 = d" "y = Inl CancelledError" "st_trace s2 = st_trace s @ cs"
            "\<forall>c \<in> set cs. snd c \<in> set (events_of (saved_of sa))"
        using C(3) VA by auto
      then show ?thesis
      proof cases
        case 1
        then have "visible s' = visible s" "\<nexists>b. r = Inr b" using X(1) VA(3) rx y(2) by auto
        then show ?thesis using bus unfolding block_result_def by blast
      next
        case 2
        then have "r = Inl CancelledError \<or> r = Inr (f a)" using rx y(2) by auto
        moreover have "\<forall>c \<in> set (calls (st_bus s) (events_of (saved_of sa))). snd c \<in> set (events_of (saved_of sa))"
          using calls_events by blast
        ultimately show ?thesis
          using 2 d(1) True bus VX X(2) unfolding block_result_def by auto
      next
        case 3
        then have "r = Inl CancelledError" using rx y(2) by auto
        then show ?thesis
          using 3 d(1) True bus VX X(2) unfolding block_result_def by auto
      qed
    next
      case False
      have "visible s2 = visible sa" using no [OF False, of sa] B(2) by simp
      then have v: "visible s' = visible s" using VA(3) X(1) by simp
      have "fst (k a sa) = Inr b" if "r = Inr b" for b
        using that 2(4) B(2) by (auto split: sum.splits)
      then show ?thesis using v d(1) False unfolding block_result_def by (auto simp: visible_def)
    qed
  qed
qed

text \<open>A block whose last step is the commit.\<close>

lemma then_commit: "thenM ops uow_commit = bindM ops (\<lambda>u. thenM uow_commit (returnM u))"
  by (auto simp: monad_simps fun_eq_iff split: prod.splits sum.splits)

lemma block_result_commit:
  "tx_result F s r s' \<Longrightarrow> block_result (of_txn F) (\<lambda>_. True) k (\<lambda>a. a) s r s'"
  by (auto simp: tx_result_def block_result_def of_txn_def)

text \<open>What a block makes of the rest of the world is what its body makes of it.\<close>

lemma with_uow_more:
  assumes "with_uow body s = (r, s')"
  obtains e where "r = Inl e" "store.more s' = store.more s" "visible s' = visible s"
  | s1 q s2 where "body s1 = (q, s2)" "store.more s1 = store.more s" "store.more s' = store.more s2"
      "r = q \<or> r = Inl CancelledError" "conn_of s1 = InTx (st_db s) False" "u_entered (st_uow s1)"
      "visible s1 = visible s" "visible s' = visible s2" "saved_of s1 = []" "st_db s1 = st_db s" "st_db s' = st_db s2"
  using assms
proof (cases rule: with_uow_body)
  case (1 e s1)
  then show thesis using that(1) uow_enter_outcome(1,2) [OF 1(1)] by simp
next
  case (2 s1 q s2 x)
  then show thesis
    using that(2) [OF 2(2)] uow_enter_outcome(1,2,3,4) [OF 2(1)] exit_outcome(1,2,3,4) [OF 2(3)]
    by (auto split: sum.splits)
qed

section \<open>The abstract transactions of the repositories\<close>

definition a_first :: "(db, exn, 'r list) M \<Rightarrow> ('r \<Rightarrow> exn + 'a) \<Rightarrow> 'a option txn" where
  "a_first q f = bindM (a_sql q) (\<lambda>rows. case rows of [] \<Rightarrow> returnM None
     | r # _ \<Rightarrow> bindM (fromSum (f r)) (\<lambda>t. returnM (Some t)))"

definition a_rows :: "(db, exn, 'r list) M \<Rightarrow> ('r \<Rightarrow> exn + 'a) \<Rightarrow> 'a list txn" where
  "a_rows q f = bindM (a_sql q) (\<lambda>rows. fromSum (map_sum_list f rows))"

definition a_touch :: "node_id \<Rightarrow> (db, exn, int list) M \<Rightarrow> unit txn" where
  "a_touch nid q = bindM (a_sql q) (\<lambda>rows. if rows = [] then raiseM (NodeRowNotFoundError nid) else skipM)"

lemma tx_first_row [tx_intros]:
  "tx_den (first_row f rows) (case rows of [] \<Rightarrow> returnM None | r # _ \<Rightarrow> bindM (fromSum (f r)) (\<lambda>t. returnM (Some t)))"
  unfolding first_row_def by (intro tx_intros)

lemma tx_firsts [tx_intros]:
  "tx_den (tasks_get tid) (a_first (sql_task_get_by_id (tid_value tid)) row_to_task)"
  "tx_den (tasks_get_running tid) (a_first (sql_task_get_by_id_and_status (tid_value tid) RUNNING) row_to_task)"
  "tx_den (tasks_get_todo tid) (a_first (sql_task_get_by_id_and_status (tid_value tid) TO_DO) row_to_task)"
  "tx_den (nodes_get_by_id nid) (a_first (sql_node_get_by_id (nid_value nid)) row_to_node)"
  unfolding tasks_get_def tasks_get_running_def tasks_get_todo_def nodes_get_by_id_def a_first_def
  by (intro tx_intros)+

lemma tx_lists [tx_intros]:
  "tx_den (tasks_list_by_status sts lmt) (a_rows (sql_task_list_by_status sts lmt) row_to_task)"
  "tx_den (tasks_list_todo lmt) (a_rows (sql_task_list_by_status [TO_DO] lmt) row_to_task)"
  "tx_den (tasks_list_running lmt) (a_rows (sql_task_list_by_status [RUNNING] lmt) row_to_task)"
  "tx_den (tasks_list_ids_by_node_id_and_status nid st)
     (a_rows (sql_task_ids_by_node_and_status (nid_value nid) st) mk_task_id)"
  "tx_den (tasks_list_by_jobs ids) (a_rows (sql_task_list_by_jobs (map tid_value ids)) row_to_task)"
  "tx_den nodes_list_all (a_rows sql_node_list_all row_to_node)"
  "tx_den nodes_list_enabled (a_rows sql_node_list_enabled row_to_node)"
  "tx_den nodes_list_disabled (a_rows sql_node_list_disabled row_to_node)"
  unfolding tasks_list_by_status_def tasks_list_todo_def tasks_list_running_def
    tasks_list_ids_by_node_id_and_status_def tasks_list_by_jobs_def nodes_list_all_def
    nodes_list_enabled_def nodes_list_disabled_def decode_nodes_def a_rows_def
  by (intro tx_intros)+

lemma tx_node_statement [tx_intros]: "tx_den (node_statement nid q) (a_touch nid q)"
  unfolding node_statement_def a_touch_def by (intro tx_intros)

lemma tx_touches [tx_intros]:
  "tx_den (nodes_remove nid) (a_touch nid (sql_node_remove (nid_value nid)))"
  "tx_den (nodes_disable nid) (a_touch nid (sql_node_disable (nid_value nid)))"
  "tx_den (nodes_enable nid) (a_touch nid (sql_node_enable (nid_value nid)))"
  "tx_den (nodes_update n) (a_touch (n_node_id n) (sql_node_update (node_to_row n)))"
  unfolding nodes_remove_def nodes_disable_def nodes_enable_def nodes_update_def by (intro tx_intros)+

definition a_node_insert :: "new_node \<Rightarrow> node txn" where
  "a_node_insert nn = bindM (a_sql (\<lambda>d. sql_node_insert (new_node_row nn (d_now d)) d)) (\<lambda>row. fromSum (row_to_node row))"

definition a_task_insert :: "new_task \<Rightarrow> task txn" where
  "a_task_insert nt = bindM (a_sql (sql_task_insert (nt_label nt) (nt_engine nt) (nt_local_folder nt)
       (nt_webhook_url nt) (nt_webhook_custom_params nt) (nt_extra nt)))
     (\<lambda>row. bindM (fromSum (row_to_task row)) (\<lambda>t. returnM (materialize_task t)))"

lemma tx_inserts [tx_intros]:
  "tx_den (nodes_insert nn) (a_node_insert nn)" "tx_den (tasks_insert nt) (a_task_insert nt)"
  unfolding nodes_insert_def tasks_insert_def a_node_insert_def a_task_insert_def by (intro tx_intros)+

subsection \<open>What they answer\<close>

lemma map_sum_list_Inr:
  "map_sum_list f xs = Inr ys \<longleftrightarrow> list_all2 (\<lambda>x y. f x = Inr y) xs ys"
proof (induction xs arbitrary: ys)
  case Nil
  show ?case by (auto simp: map_sum_list_def)
next
  case (Cons x xs)
  have step: "map_sum_list f (x # xs) = (case f x of Inl e \<Rightarrow> Inl e
      | Inr y \<Rightarrow> (case map_sum_list f xs of Inl e \<Rightarrow> Inl e | Inr ys \<Rightarrow> Inr (y # ys)))"
    by (cases "f x") (simp_all add: map_sum_list_def)
  show ?case
  proof (cases "f x")
    case (Inl e)
    then show ?thesis unfolding step by (cases ys) simp_all
  next
    case (Inr y)
    show ?thesis
    proof (cases "map_sum_list f xs")
      case (Inl e)
      then have "\<not> list_all2 (\<lambda>x y. f x = Inr y) xs zs" for zs using Cons.IH [of zs] by simp
      then show ?thesis unfolding step using Inr Inl by (cases ys) simp_all
    next
      case R: (Inr zs)
      have "list_all2 (\<lambda>x y. f x = Inr y) xs us \<longleftrightarrow> zs = us" for us using Cons.IH [of us] R by simp
      then show ?thesis unfolding step using Inr R by (cases ys) auto
    qed
  qed
qed

lemma a_first_Inr:
  assumes "a_first q f (d, ts) = (Inr o', y)" "\<And>d. snd (q d) = d"
  shows "y = (d, ts)" "\<exists>rows. fst (q d) = Inr rows \<and>
     (case o' of None \<Rightarrow> rows = [] | Some a \<Rightarrow> \<exists>r rs. rows = r # rs \<and> f r = Inr a)"
proof -
  obtain r where "q d = (r, d)" using assms(2) by (metis prod.collapse)
  then show "y = (d, ts)" "\<exists>rows. fst (q d) = Inr rows \<and>
     (case o' of None \<Rightarrow> rows = [] | Some a \<Rightarrow> \<exists>r rs. rows = r # rs \<and> f r = Inr a)"
    using assms(1)
    by (auto simp: a_first_def a_sql_def bindM_def fromSum_def returnM_def split: sum.splits list.splits prod.splits)
qed

lemma a_rows_Inr:
  assumes "a_rows q f (d, ts) = (Inr xs, y)" "\<And>d. snd (q d) = d"
  shows "y = (d, ts)" "\<exists>rows. fst (q d) = Inr rows \<and> list_all2 (\<lambda>r a. f r = Inr a) rows xs"
proof -
  obtain r where "q d = (r, d)" using assms(2) by (metis prod.collapse)
  then show "y = (d, ts)" "\<exists>rows. fst (q d) = Inr rows \<and> list_all2 (\<lambda>r a. f r = Inr a) rows xs"
    using assms(1)
    by (auto simp: a_rows_def a_sql_def bindM_def fromSum_def map_sum_list_Inr [symmetric] split: sum.splits prod.splits)
qed

lemma a_touch_Inr:
  "a_touch nid q (d, ts) = (Inr u, y) \<longleftrightarrow> (\<exists>rows d'. q d = (Inr rows, d') \<and> rows \<noteq> [] \<and> y = (d', ts))"
  by (auto simp: a_touch_def a_sql_def bindM_def raiseM_def skipM_def returnM_def split: sum.splits prod.splits if_splits)

lemma a_save_Inr:
  "a_save t ex (d, ts) = (Inr u, y) \<longleftrightarrow>
     (\<exists>rows d'. sql_task_update (task_to_row t) ex d = (Inr rows, d') \<and> rows \<noteq> [] \<and> y = (d', ts @ [t]))"
  by (auto simp: a_save_def a_sql_def bindM_def raiseM_def modifyM_def split: sum.splits prod.splits if_splits)

text \<open>The guarded save: the row of the task exists with the expected status, and only it changes.\<close>

lemma sql_task_update_Inr:
  assumes "sql_task_update new ex d = (Inr rows, d')" "rows \<noteq> []"
  shows "(\<exists>r \<in> set (d_tasks d). update_matches (r_task_id new) ex r)
    \<and> d' = d\<lparr>d_tasks := map (\<lambda>r. if update_matches (r_task_id new) ex r then updated_row d new r else r) (d_tasks d)\<rparr>"
  using assms by (auto simp: sql_task_update_def Let_def filter_empty_conv split: if_splits)

section \<open>Nested units of work\<close>

text \<open>A use case may open a second unit of work while its own is open: another connection, on which the
  committed database is seen.\<close>

definition nested :: "('x, 'a) prog \<Rightarrow> ('x, 'a) prog" where
  "nested m s = (case m s of (r, s') \<Rightarrow> (r, s'\<lparr>st_uow := st_uow s\<rparr>))"

text \<open>A read-only block leaves the whole database, sequences included, as it was.\<close>

definition reads :: "('x, 'a) prog \<Rightarrow> bool" where
  "reads m \<longleftrightarrow> (\<forall>s f. conn_of s = InTx (st_db s) f \<longrightarrow>
     visible (snd (m s)) = visible s \<and> st_db (snd (m s)) = st_db s \<and> store.more (snd (m s)) = store.more s
     \<and> (\<exists>f'. conn_of (snd (m s)) = InTx (st_db s) f'))"

named_theorems reads_intros "structural rules for read-only computations"

lemma readsD:
  assumes "reads m" "conn_of s = InTx (st_db s) f" "m s = (r, s')"
  shows "visible s' = visible s" "st_db s' = st_db s" "store.more s' = store.more s"
    "\<exists>f'. conn_of s' = InTx (st_db s') f'"
  using assms(2,3) assms(1) [unfolded reads_def, THEN spec, THEN spec, of s f] by auto

lemma reads_bind [reads_intros]:
  fixes m :: "('x, 'a) prog"
  assumes m: "reads m" and f: "\<And>a. reads (f a)"
  shows "reads (bindM m f)"
  unfolding reads_def
proof (intro allI impI)
  fix s :: "'x store_scheme" and g assume c: "conn_of s = InTx (st_db s) g"
  obtain q s1 where q: "m s = (q, s1)" by (cases "m s")
  note A = readsD [OF m c q]
  show "visible (snd (bindM m f s)) = visible s \<and> st_db (snd (bindM m f s)) = st_db s
      \<and> store.more (snd (bindM m f s)) = store.more s \<and> (\<exists>f'. conn_of (snd (bindM m f s)) = InTx (st_db s) f')"
  proof (cases q)
    case (Inl e)
    then show ?thesis using A q by (simp add: bindM_def)
  next
    case (Inr a)
    obtain r s2 where r: "f a s1 = (r, s2)" by (cases "f a s1")
    obtain g1 where "conn_of s1 = InTx (st_db s1) g1" using A(4) by blast
    from readsD [OF f this r] show ?thesis using A q Inr r by (simp add: bindM_def)
  qed
qed

lemma reads_pure [reads_intros]:
  "reads (returnM a)" "reads (raiseM e)" "reads (fromSum r)" "reads skipM" "reads (getsM g)"
  by (auto simp: reads_def monad_simps)

lemma reads_run_tasks [reads_intros]:
  assumes q: "\<And>d. snd (q d) = d"
  shows "reads (run_tasks q)"
  unfolding reads_def
proof (intro allI impI)
  fix s :: "'x store_scheme" and g assume c: "conn_of s = InTx (st_db s) g"
  have b: "bump (st_db s) (st_db s) = st_db s" by (simp add: bump_def)
  show "visible (snd (run_tasks q s)) = visible s \<and> st_db (snd (run_tasks q s)) = st_db s
      \<and> store.more (snd (run_tasks q s)) = store.more s \<and> (\<exists>f'. conn_of (snd (run_tasks q s)) = InTx (st_db s) f')"
  proof (cases rule: round_trip_cases [of s])
    case (1 s1)
    obtain r where "q (st_db s) = (r, st_db s)" using q [of "st_db s"] by (cases "q (st_db s)") auto
    then show ?thesis
      using 1 c b by (cases r) (auto simp: run_tasks_def require_entered_def run_sql_def thenM_def bindM_def
          visible_def committed_def set_conn_def conn_of_def)
  next
    case (2 e s1)
    then show ?thesis
      using c by (auto simp: run_tasks_def require_entered_def run_sql_def thenM_def bindM_def
          visible_def committed_def set_conn_def conn_of_def)
  qed
qed

lemma reads_node_get [reads_intros]: "reads (nodes_get_by_id nid)"
  unfolding nodes_get_by_id_def first_row_def
  by (rule reads_bind) (auto intro!: reads_intros split: list.split simp: sql_selects_db)

lemma nested_read_frame:
  assumes "reads m" and run: "nested (with_uow m) s = (r, s')"
  shows "store_view s' = store_view s" "store.more s' = store.more s"
proof -
  obtain s1 where w: "with_uow m s = (r, s1)" and s': "s' = s1\<lparr>st_uow := st_uow s\<rparr>"
    using run by (auto simp: nested_def split: prod.splits)
  have "visible s1 = visible s \<and> st_db s1 = st_db s \<and> store.more s1 = store.more s"
    using w
  proof (cases rule: with_uow_body)
    case (1 e s2)
    then show ?thesis using uow_enter_outcome(1,2,3) [OF 1(1)] by simp
  next
    case (2 s2 q s3 x)
    note E = uow_enter_outcome [OF 2(1)]
    have c: "conn_of s2 = InTx (st_db s2) False" using E(3,4) by simp
    show ?thesis
      using readsD [OF assms(1) c 2(2)] E(1,2,3) exit_outcome(1,2,3) [OF 2(3)] by simp
  qed
  then show "store_view s' = store_view s" "store.more s' = store.more s"
    using s' by (simp_all add: store_view_def visible_def)
qed

section \<open>The rest of the world\<close>

text \<open>The repositories touch nothing beyond the store.\<close>

lemma frames_more_prims [frames_intros]:
  "frames store.more (round_trip :: ('x, unit) prog)" "frames store.more require_entered"
  "frames store.more require_conn" "frames store.more collect_events"
  by (auto simp: frames_def round_trip_def require_entered_def require_conn_def collect_events_def set_saved_def
      split: list.split option.split)

lemma frames_more_run_tasks [frames_intros]:
  fixes q :: "(db, exn, 'a) M"
  shows "frames store.more (run_tasks q :: ('x, 'a) prog)"
proof -
  have "frames store.more (run_sql q :: ('x, 'a) prog)"
  proof (rule framesI)
    fix s :: "'x store_scheme"
    have rt: "store.more s' = store.more s" if "round_trip s = (r, s')" for r s'
      using framesD' [OF frames_more_prims(1) that] .
    show "store.more (snd (run_sql q s)) = store.more s"
      using rt by (auto simp: run_sql_def set_conn_def split: conn.split prod.split sum.split)
  qed
  then show ?thesis unfolding run_tasks_def by (intro frames_intros)
qed

lemma frames_more_saved [frames_intros]:
  "frames store.more (modifyM (\<lambda>s. set_saved (f s) s))" "frames store.more (modifyM (set_conn c))"
  "frames store.more (modifyM (\<lambda>s. set_saved (f s) (set_conn c s)))"
  by (simp_all add: frames_def modifyM_def set_saved_def set_conn_def)

lemma frames_suppress [frames_intros]: "frames c m \<Longrightarrow> frames c (suppress m)"
  unfolding suppress_def by (intro frames_intros)

lemma frames_first_row [frames_intros]: "frames c (first_row f rows)"
  unfolding first_row_def by (cases rows) (auto intro!: frames_intros)

lemma frames_more_tasks [frames_intros]:
  "frames store.more (tasks_get tid)" "frames store.more (tasks_get_running tid)"
  "frames store.more (tasks_get_todo tid)" "frames store.more (tasks_save t ex)"
  "frames store.more (tasks_list_by_status sts lmt)" "frames store.more (tasks_list_todo lmt)"
  "frames store.more (tasks_list_running lmt)" "frames store.more (tasks_list_ids_by_node_id_and_status nid st)"
  "frames store.more (tasks_insert nt)" "frames store.more (tasks_list_by_jobs ids)"
  "frames store.more tasks_count_by_status"
  unfolding tasks_get_def tasks_get_running_def tasks_get_todo_def tasks_save_def tasks_list_by_status_def
    tasks_list_todo_def tasks_list_running_def tasks_list_ids_by_node_id_and_status_def tasks_insert_def
    tasks_list_by_jobs_def tasks_count_by_status_def
  by (intro frames_intros)+

lemma frames_more_nodes [frames_intros]:
  "frames store.more nodes_list_all" "frames store.more nodes_list_enabled" "frames store.more nodes_list_disabled"
  "frames store.more (nodes_insert nn)" "frames store.more (nodes_get_by_id nid)"
  "frames store.more (nodes_get_by_ids ids)" "frames store.more (nodes_update n)"
  "frames store.more (nodes_enable nid)" "frames store.more (nodes_disable nid)"
  "frames store.more (nodes_remove nid)" "frames store.more nodes_count_by_status"
  unfolding nodes_list_all_def nodes_list_enabled_def nodes_list_disabled_def nodes_insert_def nodes_get_by_id_def
    nodes_get_by_ids_def nodes_update_def nodes_enable_def nodes_disable_def nodes_remove_def
    nodes_count_by_status_def node_statement_def decode_nodes_def
  by (intro frames_intros)+

lemma frames_more_commit [frames_intros]:
  "frames store.more (uow_commit :: ('x, unit) prog)" "frames store.more (uow_rollback :: ('x, unit) prog)"
proof -
  have d: "frames store.more (\<lambda>s :: 'x store_scheme. case dispatch (st_bus s) evs (st_trace s) of (r, tr) \<Rightarrow> (r, s\<lparr>st_trace := tr\<rparr>))" for evs
    by (auto simp: frames_def split: prod.split)
  have c: "frames store.more (sql_commit :: ('x, unit) prog)"
    unfolding sql_commit_def
    by (intro frames_intros frames_modify) (auto simp: set_conn_def split: conn.split bool.split)
  show "frames store.more (uow_commit :: ('x, unit) prog)"
    unfolding uow_commit_def publish_events_def by (intro frames_intros d c)
  show "frames store.more (uow_rollback :: ('x, unit) prog)"
    unfolding uow_rollback_def by (intro frames_intros)
qed

lemma frames_more_with_uow [frames_intros]:
  fixes body :: "('x, 'a) prog"
  assumes b: "frames store.more body"
  shows "frames store.more (with_uow body)"
proof (rule framesI)
  fix s :: "'x store_scheme"
  obtain r s' where r: "with_uow body s = (r, s')" by (cases "with_uow body s")
  from r have "store.more s' = store.more s"
    by (cases rule: with_uow_more) (use framesD' [OF b] in auto)
  then show "store.more (snd (with_uow body s)) = store.more s" using r by simp
qed

end
