(* ===== verification/Paths.thy ===== *)
theory Paths
  imports Prelude Domain_Model
begin

text \<open>
  The parts of \<open>pathlib.PurePosixPath\<close> the code uses: construction from a string, joining with \<open>/\<close>,
  \<open>str\<close> and \<open>name\<close>; and the time stamp format of task folders.
\<close>

datatype ppath = PPath (pp_root: string) (pp_parts: "string list")

definition slash :: char where
  "slash = CHR ''/''"

text \<open>Empty and \<open>.\<close> components are dropped; a leading slash is the root (exactly two slashes are kept,
  as POSIX allows).\<close>

definition real_part :: "string \<Rightarrow> bool" where
  "real_part p \<longleftrightarrow> p \<noteq> '''' \<and> p \<noteq> ''.''"

definition path_root :: "string \<Rightarrow> string" where
  "path_root s = (if starts_with ''//'' s \<and> \<not> starts_with ''///'' s then ''//''
                  else if starts_with ''/'' s then ''/'' else '''')"

definition mk_path :: "string \<Rightarrow> ppath" where
  "mk_path s = PPath (path_root s) (filter real_part (split_on slash s))"

definition path_str :: "ppath \<Rightarrow> string" where
  "path_str p = (if pp_root p = '''' \<and> pp_parts p = [] then ''.''
                 else pp_root p @ join [slash] (pp_parts p))"

definition path_join :: "ppath \<Rightarrow> ppath \<Rightarrow> ppath" where
  "path_join a b = (if pp_root b \<noteq> '''' then b else PPath (pp_root a) (pp_parts a @ pp_parts b))"

definition path_div :: "ppath \<Rightarrow> string \<Rightarrow> ppath" where
  "path_div a s = path_join a (mk_path s)"

definition path_name :: "ppath \<Rightarrow> string" where
  "path_name p = (if pp_parts p = [] then '''' else last (pp_parts p))"

definition pad2 :: "int \<Rightarrow> string" where
  "pad2 i = (if 0 \<le> i \<and> i < 10 then CHR ''0'' # show_int i else show_int i)"

text \<open>\<open>created_at.strftime("%Y%m%d_%H%M%S")\<close>.\<close>

definition stamp :: "datetime \<Rightarrow> string" where
  "stamp t = show_int (dt_year t) @ pad2 (dt_month t) @ pad2 (dt_day t) @ ''_''
     @ pad2 (dt_hour t) @ pad2 (dt_minute t) @ pad2 (dt_second t)"

definition plain_name :: "string \<Rightarrow> bool" where
  "plain_name s \<longleftrightarrow> real_part s \<and> slash \<notin> set s"

lemma mk_path_plain: "plain_name s \<Longrightarrow> mk_path s = PPath '''' [s]"
proof -
  assume p: "plain_name s"
  then have "s \<noteq> ''''" "slash \<notin> set s" "real_part s"
    by (auto simp: plain_name_def real_part_def)
  then show ?thesis
    by (cases s) (auto simp: mk_path_def path_root_def starts_with_def split_on_no_sep slash_def)
qed

lemma path_div_plain: "plain_name s \<Longrightarrow> path_div a s = PPath (pp_root a) (pp_parts a @ [s])"
  by (simp add: path_div_def mk_path_plain path_join_def)

lemma path_name_div: "plain_name s \<Longrightarrow> path_name (path_div a s) = s"
  by (simp add: path_div_plain path_name_def)

lemma join_snoc: "join sep (xs @ [x]) = (if xs = [] then x else join sep xs @ sep @ x)"
proof (induction xs rule: induct_list012)
  case (3 y z zs)
  then show ?case by simp
qed simp_all

lemma path_str_div:
  "plain_name s \<Longrightarrow> path_str (path_div a s) =
     pp_root a @ (if pp_parts a = [] then s else join [slash] (pp_parts a) @ [slash] @ s)"
  by (simp add: path_div_plain path_str_def join_snoc)

lemma path_str_div_inject:
  "plain_name s \<Longrightarrow> plain_name t \<Longrightarrow> path_str (path_div a s) = path_str (path_div a t) \<longleftrightarrow> s = t"
  by (auto simp: path_str_div)

lemma is_digit_not_slash: "is_digit c \<Longrightarrow> c \<noteq> slash"
  by (auto simp: is_digit_def slash_def)

lemma show_int_no_slash: "slash \<notin> set (show_int i)"
proof -
  have "slash \<notin> set (show_nat n)" for n
    using show_nat_digits [of n] is_digit_not_slash by (auto simp: list_all_iff)
  then show ?thesis by (auto simp: show_int_def slash_def)
qed

lemma stamp_no_slash: "slash \<notin> set (stamp t)"
  using show_int_no_slash by (auto simp: stamp_def pad2_def slash_def)

end
