(* ===== verification/Settings.thy ===== *)
theory Settings
  imports Domain_Model Paths
begin

text \<open>
  \<open>shared/validators.py\<close> and \<open>domain/settings.py\<close>: interval validation and the daemon's settings,
  built through their validating constructors.
\<close>

definition MAX_PORT :: int where
  "MAX_PORT = 65535"

text \<open>\<open>shown\<close> is the rendering of the value in the message.\<close>

definition validate_interval :: "string \<Rightarrow> real \<Rightarrow> string \<Rightarrow> int option \<Rightarrow> int option \<Rightarrow> exn + unit" where
  "validate_interval name v shown lower upper =
     (case lower of
        Some b \<Rightarrow>
          if v < real_of_int b
          then Inl (ValueError (name @ '' must be >= '' @ show_int b @ '', got '' @ shown))
          else (case upper of
              Some t \<Rightarrow> if v > real_of_int t
                 then Inl (ValueError (name @ '' must be <= '' @ show_int t @ '', got '' @ shown)) else Inr ()
            | None \<Rightarrow> Inr ())
      | None \<Rightarrow> (case upper of
              Some t \<Rightarrow> if v > real_of_int t
                 then Inl (ValueError (name @ '' must be <= '' @ show_int t @ '', got '' @ shown)) else Inr ()
            | None \<Rightarrow> Inr ()))"

definition validate_int :: "string \<Rightarrow> int \<Rightarrow> int option \<Rightarrow> int option \<Rightarrow> exn + unit" where
  "validate_int name v lower upper = validate_interval name (real_of_int v) (show_int v) lower upper"

text \<open>A sequence of checks: the first failure is raised.\<close>

fun first_failure :: "(exn + unit) list \<Rightarrow> exn + unit" where
  "first_failure [] = Inr ()"
| "first_failure (Inl e # cs) = Inl e"
| "first_failure (Inr _ # cs) = first_failure cs"

record local_settings =
  ls_data_dir :: ppath
  ls_tasks_dir :: ppath
  ls_engines_dir :: ppath
  ls_keys_dir :: ppath
  ls_webhook_url :: "string option"
  ls_webhook_reqs_limit :: int
  ls_conn_machine_limit :: int
  ls_conn_machine_pending :: int
  ls_allocate_limit :: int
  ls_allocate_pending :: int
  ls_consume_limit :: int
  ls_consume_pending :: int
  ls_deallocate_limit :: int
  ls_deallocate_pending :: int

definition local_defaults :: local_settings where
  "local_defaults = \<lparr>ls_data_dir = mk_path ''./data'', ls_tasks_dir = mk_path ''./data/tasks'',
     ls_engines_dir = mk_path ''./data/engines'', ls_keys_dir = mk_path ''./data/keys'',
     ls_webhook_url = None, ls_webhook_reqs_limit = 5, ls_conn_machine_limit = 10,
     ls_conn_machine_pending = 10, ls_allocate_limit = 20, ls_allocate_pending = 1,
     ls_consume_limit = 20, ls_consume_pending = 1, ls_deallocate_limit = 5, ls_deallocate_pending = 1\<rparr>"

definition mk_local_settings :: "local_settings \<Rightarrow> exn + local_settings" where
  "mk_local_settings s = (case first_failure
       [validate_int ''conn_machine_limit'' (ls_conn_machine_limit s) (Some 1) None,
        validate_int ''conn_machine_pending'' (ls_conn_machine_pending s) (Some 1) None,
        validate_int ''allocate_limit'' (ls_allocate_limit s) (Some 1) None,
        validate_int ''allocate_pending'' (ls_allocate_pending s) (Some 1) None,
        validate_int ''consume_limit'' (ls_consume_limit s) (Some 1) None,
        validate_int ''consume_pending'' (ls_consume_pending s) (Some 1) None,
        validate_int ''deallocate_limit'' (ls_deallocate_limit s) (Some 1) None,
        validate_int ''deallocate_pending'' (ls_deallocate_pending s) (Some 1) None,
        validate_int ''webhook_reqs_limit'' (ls_webhook_reqs_limit s) (Some 0) None]
     of Inl e \<Rightarrow> Inl e | Inr _ \<Rightarrow> Inr s)"

record remote_defaults =
  rd_data_dir :: ppath
  rd_tasks_dir :: ppath
  rd_engines_dir :: ppath
  rd_username :: string
  rd_jump_username :: "string option"
  rd_jump_host :: "string option"
  rd_jump_port :: int

definition remote_defaults0 :: remote_defaults where
  "remote_defaults0 = \<lparr>rd_data_dir = mk_path ''./data'', rd_tasks_dir = mk_path ''./data/tasks'',
     rd_engines_dir = mk_path ''./data/engines'', rd_username = ''root'', rd_jump_username = None,
     rd_jump_host = None, rd_jump_port = 22\<rparr>"

definition mk_remote_defaults :: "remote_defaults \<Rightarrow> exn + remote_defaults" where
  "mk_remote_defaults s =
     (case validate_int ''jump_port'' (rd_jump_port s) (Some 1) (Some MAX_PORT) of
        Inl e \<Rightarrow> Inl e | Inr _ \<Rightarrow> Inr s)"

lemma validate_interval_ok:
  "validate_interval name v shown lower upper = Inr () \<longleftrightarrow>
     (\<forall>b. lower = Some b \<longrightarrow> real_of_int b \<le> v) \<and> (\<forall>t. upper = Some t \<longrightarrow> v \<le> real_of_int t)"
  by (auto simp: validate_interval_def split: option.splits)

lemma validate_interval_error: "validate_interval name v shown lower upper = Inl e \<Longrightarrow> \<exists>m. e = ValueError m"
  by (auto simp: validate_interval_def split: option.splits if_splits)

lemma validate_int_ok:
  "validate_int name v lower upper = Inr () \<longleftrightarrow>
     (\<forall>b. lower = Some b \<longrightarrow> b \<le> v) \<and> (\<forall>t. upper = Some t \<longrightarrow> v \<le> t)"
  by (simp add: validate_int_def validate_interval_ok)

lemma first_failure_ok: "first_failure cs = Inr () \<longleftrightarrow> (\<forall>c \<in> set cs. c = Inr ())"
  by (induction cs rule: first_failure.induct) auto

definition settings_ok :: "local_settings \<Rightarrow> bool" where
  "settings_ok s \<longleftrightarrow> 1 \<le> ls_conn_machine_limit s \<and> 1 \<le> ls_conn_machine_pending s
     \<and> 1 \<le> ls_allocate_limit s \<and> 1 \<le> ls_allocate_pending s \<and> 1 \<le> ls_consume_limit s
     \<and> 1 \<le> ls_consume_pending s \<and> 1 \<le> ls_deallocate_limit s \<and> 1 \<le> ls_deallocate_pending s
     \<and> 0 \<le> ls_webhook_reqs_limit s"

lemma mk_local_settings_iff: "mk_local_settings s = Inr s' \<longleftrightarrow> s' = s \<and> settings_ok s"
proof -
  have "(case r of Inl e \<Rightarrow> Inl e | Inr _ \<Rightarrow> Inr s) = (Inr s' :: exn + local_settings) \<longleftrightarrow> s' = s \<and> r = Inr ()"
    for r :: "exn + unit" by (cases r) auto
  then show ?thesis
    unfolding mk_local_settings_def by (simp add: first_failure_ok validate_int_ok settings_ok_def)
qed

lemma mk_remote_defaults_iff:
  "mk_remote_defaults s = Inr s' \<longleftrightarrow> s' = s \<and> 1 \<le> rd_jump_port s \<and> rd_jump_port s \<le> MAX_PORT"
proof -
  have "(case r of Inl e \<Rightarrow> Inl e | Inr _ \<Rightarrow> Inr s) = (Inr s' :: exn + remote_defaults) \<longleftrightarrow> s' = s \<and> r = Inr ()"
    for r :: "exn + unit" by (cases r) auto
  then show ?thesis unfolding mk_remote_defaults_def by (simp add: validate_int_ok)
qed

end
