(* ===== verification/Engines.thy ===== *)
theory Engines
  imports Domain_Model
begin

text \<open>
  \<open>domain/engine.py\<close>: the engine record, its deploy variants, input validation, and the repository of
  engines, an insertion-ordered mapping from names to engines.
\<close>

datatype deploy =
    LocalFilesDeploy "string list"
  | LocalArchiveDeploy string
  | RemoteArchiveDeploy string

record engine =
  e_name :: string
  e_spawn :: string
  e_input_files :: "string list"
  e_output_files :: "string list"
  e_platforms :: "string list"
  e_check_cmd :: "string option"
  e_check_pname :: "string option"
  e_deployable :: "deploy list"
  e_platform_packages :: "string list"
  e_check_cmd_code :: int
  e_sleep_interval :: int

type_synonym engine_repository = "(string \<times> engine) list"

text \<open>\<open>Engine.validate_inputs\<close>: the first missing file is reported.\<close>

fun first_missing :: "string list \<Rightarrow> pydict \<Rightarrow> string option" where
  "first_missing [] extra = None"
| "first_missing (f # fs) extra = (if dhas extra f then first_missing fs extra else Some f)"

definition validate_inputs :: "engine \<Rightarrow> pydict \<Rightarrow> exn + unit" where
  "validate_inputs e extra = (case first_missing (e_input_files e) extra of
      None \<Rightarrow> Inr () | Some f \<Rightarrow> Inl (MissingInputFileError (e_name e) f))"

definition engines_get :: "engine_repository \<Rightarrow> string \<Rightarrow> engine option" where
  "engines_get = dget"

definition engines_getitem :: "engine_repository \<Rightarrow> string \<Rightarrow> exn + engine" where
  "engines_getitem r n = (case dget r n of None \<Rightarrow> Inl (KeyErr n) | Some e \<Rightarrow> Inr e)"

definition engines_contains :: "engine_repository \<Rightarrow> string \<Rightarrow> bool" where
  "engines_contains = dhas"

definition engines_values :: "engine_repository \<Rightarrow> engine list" where
  "engines_values = dvalues"

definition engines_keys :: "engine_repository \<Rightarrow> string list" where
  "engines_keys = dkeys"

definition engines_filter :: "(engine \<Rightarrow> bool) \<Rightarrow> engine_repository \<Rightarrow> engine_repository" where
  "engines_filter fn r = filter (\<lambda>(k, v). fn v) r"

definition intersects :: "string list \<Rightarrow> string list \<Rightarrow> bool" where
  "intersects xs ys \<longleftrightarrow> filter (\<lambda>x. List.member ys x) xs \<noteq> []"

definition engines_filter_platforms :: "string list \<Rightarrow> engine_repository \<Rightarrow> engine_repository" where
  "engines_filter_platforms ps = engines_filter (\<lambda>e. intersects (e_platforms e) ps)"

text \<open>\<open>list(set(chain(...)))\<close>: each package once; the order of a Python set is arbitrary, here the last
  occurrences in order.\<close>

definition get_platform_packages :: "engine_repository \<Rightarrow> string list" where
  "get_platform_packages r = remdups (concat (map e_platform_packages (engines_values r)))"

lemma intersects_iff: "intersects xs ys \<longleftrightarrow> set xs \<inter> set ys \<noteq> {}"
  by (auto simp: intersects_def filter_empty_conv)

lemma first_missing_None: "first_missing fs extra = None \<longleftrightarrow> (\<forall>f \<in> set fs. dhas extra f)"
  by (induction fs) auto

lemma first_missing_Some:
  "first_missing fs extra = Some f \<Longrightarrow>
     \<exists>pre post. fs = pre @ f # post \<and> (\<forall>g \<in> set pre. dhas extra g) \<and> \<not> dhas extra f"
proof (induction fs)
  case (Cons g gs)
  show ?case
  proof (cases "dhas extra g")
    case True
    then obtain pre post where "gs = pre @ f # post" "\<forall>h \<in> set pre. dhas extra h" "\<not> dhas extra f"
      using Cons by auto
    then show ?thesis using True by (intro exI [of _ "g # pre"] exI [of _ post]) auto
  next
    case False
    then show ?thesis using Cons.prems by (intro exI [of _ "[]"] exI [of _ gs]) auto
  qed
qed simp

lemma validate_inputs_ok: "validate_inputs e extra = Inr () \<longleftrightarrow> (\<forall>f \<in> set (e_input_files e). dhas extra f)"
  by (auto simp: validate_inputs_def first_missing_None [symmetric] split: option.splits)

lemma engines_filter_get:
  "dict_ok r \<Longrightarrow> engines_get (engines_filter fn r) n =
     (case engines_get r n of None \<Rightarrow> None | Some e \<Rightarrow> if fn e then Some e else None)"
proof (induction r)
  case (Cons p r)
  obtain k v where p: "p = (k, v)" by (cases p)
  have "k \<notin> fst ` set r" using Cons.prems p by (simp add: dict_ok_def)
  then have "dget r k = None" "dget (engines_filter fn r) k = None"
    by (auto simp: dget_None_iff engines_filter_def)
  then show ?case
    using Cons p by (cases "n = k") (auto simp: engines_get_def engines_filter_def dict_ok_def)
qed (simp add: engines_get_def engines_filter_def)

lemma engines_filter_ok [simp]: "dict_ok r \<Longrightarrow> dict_ok (engines_filter fn r)"
  by (simp add: engines_filter_def)

lemma get_platform_packages_set:
  "set (get_platform_packages r) = (\<Union>e \<in> set (engines_values r). set (e_platform_packages e))"
  by (simp add: get_platform_packages_def)

end
