(* ===== verification/Cloud_Config.thy ===== *)
theory Cloud_Config
  imports Settings Engines
begin

text \<open>
  Provider configuration and selection: \<open>infra/cloud/cloud_configs.py\<close>, \<open>dto.py\<close>, \<open>adapters.py\<close> and
  \<open>provider_selection.py\<close>.  The create and delete callables of an adapter are the cloud API; the
  provisioner reaches them through the world of \<open>Machines\<close>.
\<close>

section \<open>Configurations\<close>

record azure_image =
  ai_publisher :: string
  ai_offer :: string
  ai_sku :: string
  ai_version :: string

text \<open>\<open>s.split(c, maxsplit=n)\<close>.\<close>

fun split_max :: "nat \<Rightarrow> char \<Rightarrow> string \<Rightarrow> string list" where
  "split_max 0 c s = [s]"
| "split_max (Suc n) c s =
     (case partition_on c s of (h, found, t) \<Rightarrow> if found then h # split_max n c t else [h])"

text \<open>\<open>AzureImageReference.from_urn\<close>: \<open>cls(*parts)\<close> takes at most the four fields.\<close>

definition from_urn :: "string \<Rightarrow> exn + azure_image" where
  "from_urn urn = (case split_max 4 CHR '':'' urn of
      [p, off, sku, v] \<Rightarrow> Inr \<lparr>ai_publisher = p, ai_offer = off, ai_sku = sku, ai_version = v\<rparr>
    | parts \<Rightarrow> if length parts < 4
        then Inl (ValueError ''`Image reference URN should be in format publisher:offer:sku:version'')
        else Inl (TypeError ''__init__() takes from 1 to 5 positional arguments but 6 were given''))"

record cloud_base =
  cb_max_nodes :: int
  cb_priority :: int
  cb_idle_tolerance :: int
  cb_connect_grace :: int
  cb_package_upgrade :: bool
  cb_jump_username :: "string option"
  cb_jump_host :: "string option"
  cb_jump_port :: int
  cb_label :: string

record azure_config = cloud_base +
  az_tenant_id :: string
  az_client_id :: string
  az_client_secret :: string
  az_subscription_id :: string
  az_resource_group :: string
  az_location :: string
  az_vnet :: string
  az_subnet :: string
  az_nsg :: string
  az_vm_image :: azure_image
  az_vm_size :: string
  az_username :: string

record hetzner_config = cloud_base +
  hz_token :: string
  hz_username :: string
  hz_server_type :: string
  hz_location :: string
  hz_image_name :: string

record upcloud_config = cloud_base +
  up_login :: string
  up_password :: string
  up_username :: string

record vastai_config = cloud_base +
  va_api_key :: string
  va_image :: string
  va_disk_gb :: int
  va_min_vram_mb :: int
  va_num_gpus :: int
  va_max_price_per_hr :: rat
  va_onstart_script :: "string option"
  va_docker_options :: "string option"

record vultr_config = cloud_base +
  vu_api_key :: string
  vu_location :: string
  vu_server_type :: string
  vu_image_name :: int
  vu_need_raid :: bool
  vu_username :: string

datatype config_cloud =
    CfgAzure azure_config
  | CfgHetzner hetzner_config
  | CfgUpcloud upcloud_config
  | CfgVastAI vastai_config
  | CfgVultr vultr_config

fun cfg_prefix :: "config_cloud \<Rightarrow> string" where
  "cfg_prefix (CfgAzure _) = ''az''"
| "cfg_prefix (CfgHetzner _) = ''hetzner''"
| "cfg_prefix (CfgUpcloud _) = ''upcloud''"
| "cfg_prefix (CfgVastAI _) = ''vastai''"
| "cfg_prefix (CfgVultr _) = ''vultr''"

fun cfg_base :: "config_cloud \<Rightarrow> cloud_base" where
  "cfg_base (CfgAzure c) = cloud_base.truncate c"
| "cfg_base (CfgHetzner c) = cloud_base.truncate c"
| "cfg_base (CfgUpcloud c) = cloud_base.truncate c"
| "cfg_base (CfgVastAI c) = cloud_base.truncate c"
| "cfg_base (CfgVultr c) = cloud_base.truncate c"

definition cfg_max_nodes :: "config_cloud \<Rightarrow> int" where
  "cfg_max_nodes c = cb_max_nodes (cfg_base c)"

definition cfg_priority :: "config_cloud \<Rightarrow> int" where
  "cfg_priority c = cb_priority (cfg_base c)"

definition cfg_idle_tolerance :: "config_cloud \<Rightarrow> int" where
  "cfg_idle_tolerance c = cb_idle_tolerance (cfg_base c)"

definition cfg_connect_grace :: "config_cloud \<Rightarrow> int" where
  "cfg_connect_grace c = cb_connect_grace (cfg_base c)"

definition base_checks :: "string \<Rightarrow> cloud_base \<Rightarrow> (exn + unit) list" where
  "base_checks p b =
     [validate_int (p @ ''_max_nodes'') (cb_max_nodes b) (Some 0) None,
      validate_int (p @ ''_idle_tolerance'') (cb_idle_tolerance b) (Some 1) None,
      validate_int (p @ ''_connect_grace'') (cb_connect_grace b) (Some 1) None,
      validate_int (p @ ''_jump_port'') (cb_jump_port b) (Some 1) (Some MAX_PORT)]"

text \<open>The \<open>__post_init__\<close> of the five classes; \<open>shown_price\<close> renders the price bound.\<close>

fun config_checks :: "(rat \<Rightarrow> string) \<Rightarrow> config_cloud \<Rightarrow> (exn + unit) list" where
  "config_checks shown (CfgVastAI c) =
     [validate_int ''vastai_disk_gb'' (va_disk_gb c) (Some 1) None,
      validate_int ''vastai_min_vram_mb'' (va_min_vram_mb c) (Some 1024) None,
      validate_int ''vastai_num_gpus'' (va_num_gpus c) (Some 1) None,
      validate_interval ''vastai_max_price_per_hr'' (real_of_rat (va_max_price_per_hr c)) (shown (va_max_price_per_hr c)) (Some 0) None]
     @ base_checks ''vastai'' (cfg_base (CfgVastAI c))"
| "config_checks shown (CfgVultr c) =
     validate_int ''vultr_image_name'' (vu_image_name c) (Some 1) None
     # base_checks ''vultr'' (cfg_base (CfgVultr c))"
| "config_checks shown c = base_checks (cfg_prefix c) (cfg_base c)"

definition mk_config :: "(rat \<Rightarrow> string) \<Rightarrow> config_cloud \<Rightarrow> exn + config_cloud" where
  "mk_config shown c = (case first_failure (config_checks shown c) of Inl e \<Rightarrow> Inl e | Inr _ \<Rightarrow> Inr c)"

section \<open>Adapters\<close>

record create_dto =
  dto_external_id :: string
  dto_hostname :: string
  dto_username :: string
  dto_port :: int
  dto_jump_host :: "string option"
  dto_jump_port :: int
  dto_jump_username :: string

definition can_debian :: "string \<Rightarrow> bool" where
  "can_debian p \<longleftrightarrow> List.member [''linux'', ''debian-like'', ''debian''] p"

definition can_windows :: "string \<Rightarrow> bool" where
  "can_windows p \<longleftrightarrow> p = ''windows''"

record adapter =
  ad_name :: string
  ad_checks :: "(string \<Rightarrow> bool) list"
  ad_op_limit :: int
  ad_conn_timeout :: int
  ad_create_timeout :: int
  ad_needs_cloud_init :: bool

definition adapter_default :: "string \<Rightarrow> (string \<Rightarrow> bool) list \<Rightarrow> adapter" where
  "adapter_default name checks = \<lparr>ad_name = name, ad_checks = checks, ad_op_limit = 1,
     ad_conn_timeout = 10, ad_create_timeout = 300, ad_needs_cloud_init = False\<rparr>"

definition get_azure_adapter :: "string \<Rightarrow> adapter" where
  "get_azure_adapter n = (adapter_default n [can_debian, can_windows])\<lparr>ad_op_limit := 5, ad_needs_cloud_init := True\<rparr>"

definition get_hetzner_adapter :: "string \<Rightarrow> adapter" where
  "get_hetzner_adapter n = (adapter_default n [can_debian])\<lparr>ad_op_limit := 5, ad_needs_cloud_init := True\<rparr>"

definition get_upcloud_adapter :: "string \<Rightarrow> adapter" where
  "get_upcloud_adapter n = (adapter_default n [can_debian])\<lparr>ad_op_limit := 1, ad_needs_cloud_init := True\<rparr>"

definition get_vastai_adapter :: "string \<Rightarrow> adapter" where
  "get_vastai_adapter n = (adapter_default n [can_debian])\<lparr>ad_op_limit := 1\<rparr>"

definition get_vultr_adapter :: "string \<Rightarrow> adapter" where
  "get_vultr_adapter n = (adapter_default n [can_debian])
     \<lparr>ad_op_limit := 2, ad_create_timeout := 1200, ad_needs_cloud_init := True\<rparr>"

definition adapter_getters :: "(string \<times> (string \<Rightarrow> adapter)) list" where
  "adapter_getters = [(''az'', get_azure_adapter), (''hetzner'', get_hetzner_adapter),
     (''upcloud'', get_upcloud_adapter), (''vastai'', get_vastai_adapter), (''vultr'', get_vultr_adapter)]"

text \<open>\<open>resolve_adapter\<close>; \<open>installed\<close> tells whether the provider's SDK can be imported.\<close>

definition resolve_adapter :: "(string \<Rightarrow> bool) \<Rightarrow> config_cloud \<Rightarrow> adapter option" where
  "resolve_adapter installed cfg = (case dget adapter_getters (cfg_prefix cfg) of
      None \<Rightarrow> None
    | Some getter \<Rightarrow> if installed (cfg_prefix cfg) then Some (getter (cfg_prefix cfg)) else None)"

section \<open>Selection\<close>

definition adapter_supports_any_platform :: "adapter \<Rightarrow> string list \<Rightarrow> bool" where
  "adapter_supports_any_platform a platforms \<longleftrightarrow>
     list_ex (\<lambda>p. list_ex (\<lambda>check. check p) (ad_checks a)) platforms"

text \<open>The sort with \<open>reverse=True\<close> keeps the order of equal priorities, as Python's does.\<close>

definition suitable_adapters ::
  "(string \<times> adapter) list \<Rightarrow> (string \<times> config_cloud) list \<Rightarrow> string list \<Rightarrow> (string \<times> int) list \<Rightarrow> adapter list" where
  "suitable_adapters adapters configs platforms counts =
     map snd (filter (\<lambda>(name, a). case dget configs name of
         None \<Rightarrow> False
       | Some cfg \<Rightarrow> (case dget counts name of None \<Rightarrow> 0 | Some n \<Rightarrow> n) < cfg_max_nodes cfg
                     \<and> adapter_supports_any_platform a platforms) adapters)"

definition adapter_priority :: "(string \<times> config_cloud) list \<Rightarrow> adapter \<Rightarrow> int" where
  "adapter_priority configs a = (case dget configs (ad_name a) of None \<Rightarrow> 0 | Some c \<Rightarrow> cfg_priority c)"

definition select_provider_pure ::
  "(string \<times> adapter) list \<Rightarrow> (string \<times> config_cloud) list \<Rightarrow> string list \<Rightarrow> (string \<times> int) list \<Rightarrow> adapter option" where
  "select_provider_pure adapters configs platforms counts =
     (case sort_key (\<lambda>a. - adapter_priority configs a) (suitable_adapters adapters configs platforms counts) of
        [] \<Rightarrow> None
      | a # _ \<Rightarrow> Some a)"

section \<open>Facts\<close>

lemma cfg_accessors:
  "cb_max_nodes (cfg_base (CfgVultr v)) = cb_max_nodes v"
  "cb_max_nodes (cfg_base (CfgVastAI w)) = cb_max_nodes w"
  by (simp_all add: cloud_base.defs)

lemma mk_config_ok: "mk_config shown c = Inr c' \<Longrightarrow> c' = c \<and> 0 \<le> cfg_max_nodes c \<and> 1 \<le> cfg_idle_tolerance c
    \<and> 1 \<le> cfg_connect_grace c \<and> 1 \<le> cb_jump_port (cfg_base c) \<and> cb_jump_port (cfg_base c) \<le> MAX_PORT"
proof -
  assume a: "mk_config shown c = Inr c'"
  then have f: "c' = c" "first_failure (config_checks shown c) = Inr ()"
    by (auto simp: mk_config_def split: sum.splits)
  have "set (base_checks (cfg_prefix c) (cfg_base c)) \<subseteq> set (config_checks shown c)"
    by (cases c) auto
  then have "\<forall>x \<in> set (base_checks (cfg_prefix c) (cfg_base c)). x = Inr ()"
    using f(2) first_failure_ok by blast
  then show ?thesis
    using f(1) by (simp add: base_checks_def validate_int_ok cfg_max_nodes_def cfg_idle_tolerance_def cfg_connect_grace_def)
qed

lemma supports_iff:
  "adapter_supports_any_platform a ps \<longleftrightarrow> (\<exists>p \<in> set ps. \<exists>c \<in> set (ad_checks a). c p)"
  by (simp add: adapter_supports_any_platform_def list_ex_iff)

definition has_capacity :: "(string \<times> config_cloud) list \<Rightarrow> (string \<times> int) list \<Rightarrow> string \<Rightarrow> bool" where
  "has_capacity configs counts name \<longleftrightarrow>
     (\<exists>cfg. dget configs name = Some cfg \<and> (case dget counts name of None \<Rightarrow> 0 | Some n \<Rightarrow> n) < cfg_max_nodes cfg)"

lemma suitable_iff:
  "a \<in> set (suitable_adapters adapters configs ps counts) \<longleftrightarrow>
     (\<exists>name. (name, a) \<in> set adapters \<and> has_capacity configs counts name \<and> adapter_supports_any_platform a ps)"
  by (force simp: suitable_adapters_def has_capacity_def image_iff split: option.splits)

lemma select_provider_pure_None:
  "select_provider_pure adapters configs ps counts = None \<longleftrightarrow> suitable_adapters adapters configs ps counts = []"
proof -
  have "sort_key f xs = [] \<longleftrightarrow> xs = []" for f :: "adapter \<Rightarrow> int" and xs
    by (metis set_empty set_sort)
  then show ?thesis by (auto simp: select_provider_pure_def split: list.splits)
qed

lemma select_provider_pure_Some:
  assumes "select_provider_pure adapters configs ps counts = Some a"
  shows "a \<in> set (suitable_adapters adapters configs ps counts)"
    "b \<in> set (suitable_adapters adapters configs ps counts) \<Longrightarrow>
       adapter_priority configs b \<le> adapter_priority configs a"
proof -
  let ?f = "\<lambda>a. - adapter_priority configs a"
  let ?xs = "suitable_adapters adapters configs ps counts"
  obtain rest where s: "sort_key ?f ?xs = a # rest"
    using assms by (auto simp: select_provider_pure_def split: list.splits)
  then have set: "set ?xs = insert a (set rest)"
    by (metis list.simps(15) set_sort)
  then show "a \<in> set ?xs" by simp
  have "sorted (map ?f (a # rest))" using s by (metis sorted_sort_key)
  then show "adapter_priority configs b \<le> adapter_priority configs a" if "b \<in> set ?xs"
    using that set by auto
qed

end
