(* ===== verification/Tracker.thy ===== *)
theory Tracker
  imports Domain_Model
begin

text \<open>
  \<open>application/allocation_tracker.py\<close>: the in-memory table of in-flight cloud allocations, from task
  ids to the node the allocation is linked to, if any.
\<close>

type_synonym tracker = "(task_id \<times> node_id option) list"

definition tracker_empty :: tracker where
  "tracker_empty = []"

definition tracker_add :: "task_id \<Rightarrow> node_id option \<Rightarrow> tracker \<Rightarrow> bool \<times> tracker" where
  "tracker_add tid nid t = (if dhas t tid then (False, t) else (True, dput tid nid t))"

definition tracker_set_node :: "task_id \<Rightarrow> node_id \<Rightarrow> tracker \<Rightarrow> tracker" where
  "tracker_set_node tid nid t = (if dhas t tid then dput tid (Some nid) t else t)"

definition tracker_discard :: "task_id \<Rightarrow> tracker \<Rightarrow> tracker" where
  "tracker_discard tid t = dpop tid t"

text \<open>The keys are collected first, then popped one by one.\<close>

definition tracker_discard_by_node :: "node_id \<Rightarrow> tracker \<Rightarrow> int \<times> tracker" where
  "tracker_discard_by_node nid t =
     (let matching = map fst (filter (\<lambda>(tid, n). n = Some nid) t)
      in (int (length matching), foldl (\<lambda>d tid. dpop tid d) t matching))"

definition tracker_contains :: "task_id \<Rightarrow> tracker \<Rightarrow> bool" where
  "tracker_contains tid t = dhas t tid"

lemma foldl_dpop:
  "dict_ok t \<Longrightarrow> dict_ok (foldl (\<lambda>d k. dpop k d) t ks) \<and>
     dget (foldl (\<lambda>d k. dpop k d) t ks) k' = (if k' \<in> set ks then None else dget t k')"
  by (induction ks arbitrary: t) auto

lemma tracker_ok:
  "dict_ok t \<Longrightarrow> dict_ok (snd (tracker_add tid nid t))"
  "dict_ok t \<Longrightarrow> dict_ok (tracker_set_node tid nid' t)"
  "dict_ok t \<Longrightarrow> dict_ok (tracker_discard tid t)"
  "dict_ok t \<Longrightarrow> dict_ok (snd (tracker_discard_by_node nid' t))"
  by (auto simp: tracker_add_def tracker_set_node_def tracker_discard_def
      tracker_discard_by_node_def Let_def foldl_dpop)

lemma linked_keys:
  assumes ok: "dict_ok t"
  shows "tid \<in> set (map fst (filter (\<lambda>(k, n). n = Some nid) t)) \<longleftrightarrow> dget t tid = Some (Some nid)"
proof
  assume "tid \<in> set (map fst (filter (\<lambda>(k, n). n = Some nid) t))"
  then have "(tid, Some nid) \<in> set t" by auto
  then show "dget t tid = Some (Some nid)" by (rule dget_mem [OF ok])
next
  assume "dget t tid = Some (Some nid)"
  then have "(tid, Some nid) \<in> set (filter (\<lambda>(k, n). n = Some nid) t)"
    by (auto dest: dget_Some_mem)
  then show "tid \<in> set (map fst (filter (\<lambda>(k, n). n = Some nid) t))"
    by (metis fst_conv image_eqI list.set_map)
qed

lemma tracker_discard_by_node_get:
  assumes ok: "dict_ok t"
  shows "dget (snd (tracker_discard_by_node nid t)) tid =
     (if dget t tid = Some (Some nid) then None else dget t tid)"
  unfolding tracker_discard_by_node_def Let_def snd_conv
  using foldl_dpop [OF ok, of "map fst (filter (\<lambda>(k, n). n = Some nid) t)" tid]
    linked_keys [OF ok, of tid nid] by auto

lemma tracker_discard_by_node_count:
  "dict_ok t \<Longrightarrow> fst (tracker_discard_by_node nid t) = int (card {tid. dget t tid = Some (Some nid)})"
proof -
  assume ok: "dict_ok t"
  let ?m = "map fst (filter (\<lambda>(k, n). n = Some nid) t)"
  have "distinct ?m"
    using ok by (auto simp: dict_ok_def intro: distinct_map_filter)
  moreover have "set ?m = {tid. dget t tid = Some (Some nid)}"
    using linked_keys [OF ok] by blast
  ultimately have "length ?m = card {tid. dget t tid = Some (Some nid)}"
    by (metis distinct_card)
  then show ?thesis by (simp add: tracker_discard_by_node_def Let_def)
qed

lemma tracker_add_True_iff: "fst (tracker_add tid nid t) \<longleftrightarrow> \<not> tracker_contains tid t"
  by (simp add: tracker_add_def tracker_contains_def)

end
