(* ===== verification/Machines.thy ===== *)
theory Machines
  imports Store_Invariant Cloud_Config Tracker
begin

text \<open>
  Connected machines: \<open>infra/ssh/session.py\<close>, \<open>infra/ssh/repository.py\<close> and
  \<open>infra/ssh/operations/occupancy.py\<close>.

  The world extends the store with the allocation tracker, the session objects and the repository's
  registry from node ids to sessions.  Sessions are Python objects that callers hold on to, so they
  live in a heap (\<open>w_heap\<close>) and are named by their address (\<open>sid\<close>): a holder still sees a session
  that was disconnected.  A monitor is the pair of an identity and the engine it watches.  What the
  network answers to remote calls is the list \<open>w_net\<close>, over which claims quantify; the calls made are
  logged in \<open>w_remote\<close>.  Likewise \<open>w_conn\<close> holds the outcomes of connection attempts (the detected
  platforms and CPU count on success), \<open>w_creates\<close> and \<open>w_deletes\<close> those of the cloud API, \<open>w_vms\<close> the
  machines that exist (and bill) at the providers and \<open>w_ops\<close> the slots taken of each provider's
  \<open>op_limit\<close> semaphore.
\<close>

type_synonym sid = nat

record session =
  ss_hostname :: string
  ss_machine :: machine
  ss_platforms :: "string list"
  ss_data_dir :: string
  ss_engines_dir :: string
  ss_tasks_dir :: string
  ss_closed :: bool
  ss_conn_open :: bool
  ss_monitor :: "(nat \<times> engine) option"
  ss_ncpus :: "int option"

text \<open>One answer of the network to a remote call: whether the session was closed by another coroutine
  while the call was awaited, and the outcome.\<close>

datatype net_event = NetEvent (ne_close: bool) (ne_result: "exn + string")

datatype remote_op =
    OpOpenSftp
  | OpCloseSftp
  | OpRealpath string
  | OpMakedirs string
  | OpWrite string string
  | OpSpawn string string
  | OpGet string string
  | OpRmtree string
  | OpRun string
  | OpSetup "string list"

record world = store +
  w_tracker :: tracker
  w_registry :: "(node_id \<times> sid) list"
  w_heap :: "session list"
  w_clock :: real
  w_next_monitor :: nat
  w_net :: "net_event list"
  w_remote :: "(sid \<times> remote_op) list"
  w_conn :: "(exn + string list \<times> int) list"
  w_vms :: "(string \<times> string) list"
  w_creates :: "(exn + create_dto) list"
  w_deletes :: "exn option list"
  w_ops :: "(string \<times> int) list"

type_synonym ('y, 'a) wprog = "('y world_scheme, exn, 'a) M"

section \<open>Sessions\<close>

definition sess :: "'y world_scheme \<Rightarrow> sid \<Rightarrow> session" where
  "sess w sid = w_heap w ! sid"

definition upd_sess :: "sid \<Rightarrow> (session \<Rightarrow> session) \<Rightarrow> 'y world_scheme \<Rightarrow> 'y world_scheme" where
  "upd_sess sid f w = w\<lparr>w_heap := (w_heap w)[sid := f (w_heap w ! sid)]\<rparr>"

definition session_occupy :: "sid \<Rightarrow> ('y, unit) wprog" where
  "session_occupy sid w = (case occupy_machine (ss_machine (sess w sid)) of
      Inl e \<Rightarrow> (Inl e, w)
    | Inr m \<Rightarrow> (Inr (), upd_sess sid (\<lambda>x. x\<lparr>ss_machine := m\<rparr>) w))"

definition session_update :: "sid \<Rightarrow> machine \<Rightarrow> ('y, unit) wprog" where
  "session_update sid m = modifyM (upd_sess sid (\<lambda>x. x\<lparr>ss_machine := m\<rparr>))"

definition session_release :: "sid \<Rightarrow> ('y, unit) wprog" where
  "session_release sid w =
     (Inr (), upd_sess sid (\<lambda>x. x\<lparr>ss_machine := release_machine (w_clock w) (ss_machine x)\<rparr>) w)"

definition session_prime_ncpus :: "sid \<Rightarrow> int \<Rightarrow> ('y, unit) wprog" where
  "session_prime_ncpus sid n = modifyM (upd_sess sid (\<lambda>x. x\<lparr>ss_ncpus := Some n\<rparr>))"

text \<open>\<open>get_cpu_cores\<close>: memoised; \<open>discover\<close> is the adapter's remote query.\<close>

definition session_get_cpu_cores :: "(session \<Rightarrow> exn + int) \<Rightarrow> sid \<Rightarrow> ('y, int) wprog" where
  "session_get_cpu_cores discover sid w = (case ss_ncpus (sess w sid) of
      Some n \<Rightarrow> (Inr n, w)
    | None \<Rightarrow> (case discover (sess w sid) of
          Inl e \<Rightarrow> (Inl e, w)
        | Inr n \<Rightarrow> (Inr n, upd_sess sid (\<lambda>x. x\<lparr>ss_ncpus := Some n\<rparr>) w)))"

text \<open>\<open>run\<close>: the exit code of a process without one is \<open>-1\<close>.\<close>

record process_result =
  pr_exit_code :: int
  pr_stdout :: string
  pr_stderr :: string

definition session_run :: "(string \<Rightarrow> exn + (int option \<times> string \<times> string)) \<Rightarrow> string \<Rightarrow> exn + process_result" where
  "session_run run_full cmd = (case run_full cmd of
      Inl e \<Rightarrow> Inl e
    | Inr (rc, out, err) \<Rightarrow> Inr \<lparr>pr_exit_code = (case rc of None \<Rightarrow> -1 | Some c \<Rightarrow> c),
                                pr_stdout = out, pr_stderr = err\<rparr>)"

text \<open>\<open>install_monitor\<close>: nothing on a closed session; a new monitor replaces (and cancels) the prior one.\<close>

definition session_install_monitor :: "sid \<Rightarrow> engine \<Rightarrow> ('y, unit) wprog" where
  "session_install_monitor sid e w =
     (if ss_closed (sess w sid) then (Inr (), w)
      else (Inr (), (upd_sess sid (\<lambda>x. x\<lparr>ss_monitor := Some (w_next_monitor w, e)\<rparr>) w)
                      \<lparr>w_next_monitor := w_next_monitor w + 1\<rparr>))"

definition session_cancel_monitor :: "sid \<Rightarrow> ('y, unit) wprog" where
  "session_cancel_monitor sid = modifyM (upd_sess sid (\<lambda>x. x\<lparr>ss_monitor := None\<rparr>))"

text \<open>\<open>_close\<close>: idempotent; the session is marked closed and its monitor cancelled before the wait for
  the connection, which may be interrupted.\<close>

definition session_close :: "sid \<Rightarrow> ('y, unit) wprog" where
  "session_close sid w =
     (if ss_closed (sess w sid) then (Inr (), w)
      else (let w1 = upd_sess sid (\<lambda>x. x\<lparr>ss_closed := True, ss_monitor := None\<rparr>) w in
            if ss_conn_open (sess w1 sid)
            then round_trip (upd_sess sid (\<lambda>x. x\<lparr>ss_conn_open := False\<rparr>) w1)
            else (Inr (), w1)))"

text \<open>One remote call on a session: the call is logged, the next network answer consumed (an exhausted
  list answers \<open>OK\<close> with the empty string).  When another coroutine disconnected the node meanwhile,
  the session is closed and no longer registered.\<close>

definition env_close :: "sid \<Rightarrow> 'y world_scheme \<Rightarrow> 'y world_scheme" where
  "env_close sid w =
     (upd_sess sid (\<lambda>x. x\<lparr>ss_closed := True, ss_monitor := None, ss_conn_open := False\<rparr>) w)
       \<lparr>w_registry := filter (\<lambda>(n, x). x \<noteq> sid) (w_registry w)\<rparr>"

definition remote_call :: "sid \<Rightarrow> remote_op \<Rightarrow> ('y, string) wprog" where
  "remote_call sid op w =
     (let w1 = w\<lparr>w_remote := w_remote w @ [(sid, op)]\<rparr> in
      case w_net w of
        [] \<Rightarrow> (Inr [], w1)
      | ev # evs \<Rightarrow>
          (let w2 = w1\<lparr>w_net := evs\<rparr> in
           (ne_result ev, if ne_close ev then env_close sid w2 else w2)))"

section \<open>The repository\<close>

text \<open>The last step of \<open>_connect_impl\<close>: a FREE machine, stamped now, in a new session that is
  registered under the node's id.\<close>

definition register_session ::
  "node \<Rightarrow> string list \<Rightarrow> int \<Rightarrow> string \<Rightarrow> string \<Rightarrow> string \<Rightarrow> ('y, sid) wprog" where
  "register_session n platforms ncpus rd re rt w =
     (let m = \<lparr>m_node_id = n_node_id n, m_platforms = platforms, m_state = FREE,
               m_free_since = Some (w_clock w)\<rparr>;
          x = \<lparr>ss_hostname = n_hostname n, ss_machine = m, ss_platforms = platforms,
               ss_data_dir = rd, ss_engines_dir = re, ss_tasks_dir = rt, ss_closed = False,
               ss_conn_open = True, ss_monitor = None, ss_ncpus = Some ncpus\<rparr>;
          sid = length (w_heap w)
      in (Inr sid, w\<lparr>w_heap := w_heap w @ [x], w_registry := dput (n_node_id n) sid (w_registry w)\<rparr>))"

text \<open>Popped before the first await of the teardown.\<close>

definition repo_disconnect :: "node_id \<Rightarrow> ('y, unit) wprog" where
  "repo_disconnect nid w = (case dget (w_registry w) nid of
      None \<Rightarrow> (Inr (), w)
    | Some sid \<Rightarrow> session_close sid (w\<lparr>w_registry := dpop nid (w_registry w)\<rparr>))"

definition repo_disconnect_all :: "('y, unit) wprog" where
  "repo_disconnect_all = bindM (getsM (\<lambda>w. dkeys (w_registry w))) (\<lambda>ks. forM ks repo_disconnect)"

definition repo_list_free :: "string list option \<Rightarrow> 'y world_scheme \<Rightarrow> sid list" where
  "repo_list_free platforms w =
     sort_key (\<lambda>sid. case m_free_since (ss_machine (sess w sid)) of None \<Rightarrow> 0 | Some t \<Rightarrow> t)
       (filter (\<lambda>sid. m_state (ss_machine (sess w sid)) = FREE
                  \<and> (case platforms of None \<Rightarrow> True
                     | Some ps \<Rightarrow> intersects (m_platforms (ss_machine (sess w sid))) ps))
          (dvalues (w_registry w)))"

definition repo_list_connected :: "'y world_scheme \<Rightarrow> sid list" where
  "repo_list_connected w = dvalues (w_registry w)"

definition repo_get_session :: "node_id \<Rightarrow> 'y world_scheme \<Rightarrow> sid option" where
  "repo_get_session nid w = dget (w_registry w) nid"

definition repo_contains :: "node_id \<Rightarrow> 'y world_scheme \<Rightarrow> bool" where
  "repo_contains nid w = dhas (w_registry w) nid"

definition repo_len :: "'y world_scheme \<Rightarrow> int" where
  "repo_len w = int (length (w_registry w))"

section \<open>Occupancy\<close>

text \<open>What the transport answers: the process list of \<open>pgrep\<close>, the exit code of a command.\<close>

record ssh_probe =
  pb_pgrep :: "session \<Rightarrow> string \<Rightarrow> exn + string list"
  pb_run :: "session \<Rightarrow> string \<Rightarrow> exn + int option"

definition occupancy_by_pgrep :: "ssh_probe \<Rightarrow> session \<Rightarrow> string \<Rightarrow> exn + bool" where
  "occupancy_by_pgrep pb x pat = (case pb_pgrep pb x pat of
      Inr procs \<Rightarrow> Inr (procs \<noteq> [])
    | Inl e \<Rightarrow> if is_SSHRetry e then Inr True else Inl e)"

definition occupancy_by_cmd :: "ssh_probe \<Rightarrow> session \<Rightarrow> string \<Rightarrow> int \<Rightarrow> exn + bool" where
  "occupancy_by_cmd pb x cmd expected = (case pb_run pb x cmd of
      Inr rc \<Rightarrow> Inr (rc = Some expected)
    | Inl e \<Rightarrow> if is_SSHRetry e then Inr True else Inl e)"

definition truthy :: "string option \<Rightarrow> bool" where
  "truthy x \<longleftrightarrow> x \<noteq> None \<and> x \<noteq> Some ''''"

definition occupancy_check :: "ssh_probe \<Rightarrow> session \<Rightarrow> engine \<Rightarrow> exn + bool" where
  "occupancy_check pb x e =
     (if truthy (e_check_pname e) then occupancy_by_pgrep pb x (the (e_check_pname e))
      else if truthy (e_check_cmd e) then occupancy_by_cmd pb x (the (e_check_cmd e)) (e_check_cmd_code e)
      else Inr False)"

text \<open>The check of the monitor: any exception but a cancellation counts as busy.\<close>

definition check_factory :: "ssh_probe \<Rightarrow> session \<Rightarrow> engine \<Rightarrow> exn + bool" where
  "check_factory pb x e = (case occupancy_check pb x e of
      Inr b \<Rightarrow> Inr b
    | Inl err \<Rightarrow> if is_Exception err then Inr True else Inl err)"

definition start_occupancy_check :: "sid \<Rightarrow> engine \<Rightarrow> ('y, unit) wprog" where
  "start_occupancy_check sid e w =
     thenM (whenM (m_state (ss_machine (sess w sid)) = FREE) (session_occupy sid))
           (session_install_monitor sid e) w"

text \<open>One wake-up of the monitor of \<open>sid\<close>: a check that answers \<open>False\<close> releases the machine and ends
  the monitor, a cancellation ends it silently.\<close>

definition monitor_tick :: "ssh_probe \<Rightarrow> sid \<Rightarrow> 'y world_scheme \<Rightarrow> 'y world_scheme" where
  "monitor_tick pb sid w = (case ss_monitor (sess w sid) of
      None \<Rightarrow> w
    | Some (_, e) \<Rightarrow> (case check_factory pb (sess w sid) e of
          Inr True \<Rightarrow> w
        | Inr False \<Rightarrow> upd_sess sid (\<lambda>x. x\<lparr>ss_monitor := None\<rparr>) (snd (session_release sid w))
        | Inl _ \<Rightarrow> upd_sess sid (\<lambda>x. x\<lparr>ss_monitor := None\<rparr>) w))"

end
