(* ===== verification/Machine_Facts.thy ===== *)
theory Machine_Facts
  imports Machines
begin

text \<open>
  The invariant of the session collection and the contracts of its queries: the registry is a
  dictionary onto distinct live sessions, each holding the machine of its key; \<open>list_free\<close> answers
  exactly the registered free compatible sessions, oldest first.
\<close>

lemma upd_sess_simps [simp]:
  "w_registry (upd_sess sid f w) = w_registry w" "w_tracker (upd_sess sid f w) = w_tracker w"
  "w_clock (upd_sess sid f w) = w_clock w" "length (w_heap (upd_sess sid f w)) = length (w_heap w)"
  "st_db (upd_sess sid f w) = st_db w" "st_uow (upd_sess sid f w) = st_uow w"
  "st_trace (upd_sess sid f w) = st_trace w" "st_bus (upd_sess sid f w) = st_bus w"
  "st_faults (upd_sess sid f w) = st_faults w" "w_next_monitor (upd_sess sid f w) = w_next_monitor w"
  by (simp_all add: upd_sess_def)

lemma sess_upd_same [simp]: "sid < length (w_heap w) \<Longrightarrow> sess (upd_sess sid f w) sid = f (sess w sid)"
  by (simp add: sess_def upd_sess_def)

lemma sess_upd_other [simp]: "sid \<noteq> sid' \<Longrightarrow> sess (upd_sess sid f w) sid' = sess w sid'"
  by (simp add: sess_def upd_sess_def)

lemma sess_upd: "sess (upd_sess sid f w) sid' =
    (if sid' = sid \<and> sid < length (w_heap w) then f (sess w sid) else sess w sid')"
  by (cases "sid < length (w_heap w)") (auto simp: sess_def upd_sess_def list_update_beyond)

lemma sess_store_simps [simp]:
  "sess (w\<lparr>w_registry := r\<rparr>) sid = sess w sid" "sess (w\<lparr>w_tracker := t\<rparr>) sid = sess w sid"
  "sess (w\<lparr>w_next_monitor := k\<rparr>) sid = sess w sid" "sess (w\<lparr>st_faults := fs\<rparr>) sid = sess w sid"
  by (simp_all add: sess_def)

definition sessions_ok :: "'y world_scheme \<Rightarrow> bool" where
  "sessions_ok w \<longleftrightarrow> dict_ok (w_registry w) \<and> distinct (map snd (w_registry w)) \<and>
     (\<forall>(nid, sid) \<in> set (w_registry w). sid < length (w_heap w)
        \<and> m_node_id (ss_machine (sess w sid)) = nid \<and> \<not> ss_closed (sess w sid))"

lemma sessions_okD:
  assumes "sessions_ok w" "dget (w_registry w) nid = Some sid"
  shows "sid < length (w_heap w)" "m_node_id (ss_machine (sess w sid)) = nid" "\<not> ss_closed (sess w sid)"
  using assms by (auto simp: sessions_ok_def dest!: dget_Some_mem)

lemma sessions_ok_dict: "sessions_ok w \<Longrightarrow> dict_ok (w_registry w)"
  by (simp add: sessions_ok_def)

text \<open>An update of a session that keeps its machine's node and its open state keeps the invariant.\<close>

lemma sessions_ok_upd:
  "sessions_ok w \<Longrightarrow> m_node_id (ss_machine (f (sess w sid))) = m_node_id (ss_machine (sess w sid)) \<Longrightarrow>
   (ss_closed (f (sess w sid)) \<Longrightarrow> ss_closed (sess w sid)) \<Longrightarrow> sessions_ok (upd_sess sid f w)"
  by (auto simp: sessions_ok_def sess_upd)

lemma sessions_ok_faults [simp]: "sessions_ok (w\<lparr>st_faults := fs\<rparr>) = sessions_ok w"
  by (simp add: sessions_ok_def)

lemma keeps_session_occupy: "keeps sessions_ok (session_occupy sid)"
  by (rule keepsI) (auto simp: session_occupy_def occupy_machine_def intro!: sessions_ok_upd split: sum.split)

lemma keeps_session_release: "keeps sessions_ok (session_release sid)"
  by (rule keepsI) (auto simp: session_release_def release_machine_def intro!: sessions_ok_upd)

lemma keeps_install_monitor: "keeps sessions_ok (session_install_monitor sid e)"
proof (rule keepsI)
  fix w :: "'a world_scheme" assume ok: "sessions_ok w"
  have "sessions_ok (w'\<lparr>w_next_monitor := k\<rparr>) = sessions_ok w'" for w' :: "'a world_scheme" and k
    by (simp add: sessions_ok_def)
  then show "sessions_ok (snd (session_install_monitor sid e w))"
    using ok by (auto simp: session_install_monitor_def intro!: sessions_ok_upd)
qed

lemma sessions_ok_register:
  assumes ok: "sessions_ok w"
  shows "sessions_ok (snd (register_session n ps nc rd re rt w))"
proof -
  let ?w = "snd (register_session n ps nc rd re rt w)"
  let ?sid = "length (w_heap w)"
  have reg: "w_registry ?w = dput (n_node_id n) ?sid (w_registry w)"
    by (simp add: register_session_def Let_def)
  have len: "length (w_heap ?w) = Suc ?sid" by (simp add: register_session_def Let_def)
  have old: "sess ?w sid = sess w sid" if "sid < ?sid" for sid
    using that by (simp add: register_session_def Let_def sess_def nth_append)
  have new: "m_node_id (ss_machine (sess ?w ?sid)) = n_node_id n \<and> \<not> ss_closed (sess ?w ?sid)"
    by (simp add: register_session_def Let_def sess_def nth_append)
  have lt: "\<forall>(nid, sid) \<in> set (w_registry w). sid < ?sid"
    using ok by (auto simp: sessions_ok_def)
  have "?sid \<notin> snd ` set (w_registry w)" using lt by auto
  then have d: "distinct (map snd (w_registry ?w))" using ok reg by (simp add: sessions_ok_def distinct_snd_dput)
  have okr: "dict_ok (w_registry ?w)" using ok reg by (simp add: sessions_ok_def)
  have "sid < Suc ?sid \<and> m_node_id (ss_machine (sess ?w sid)) = nid \<and> \<not> ss_closed (sess ?w sid)"
    if "(nid, sid) \<in> set (w_registry ?w)" for nid sid
  proof -
    have "dget (w_registry ?w) nid = Some sid" using dget_mem [OF okr that] .
    then show ?thesis
      using reg new old sessions_okD [OF ok, of nid sid] by (auto split: if_splits)
  qed
  then show ?thesis using okr d len by (auto simp: sessions_ok_def)
qed

lemma w_simps_round_trip:
  "round_trip w = (r, w') \<Longrightarrow> w_registry w' = w_registry w \<and> w_heap w' = w_heap w \<and> w_tracker w' = w_tracker w
     \<and> w_clock w' = w_clock w \<and> w_next_monitor w' = w_next_monitor w"
  by (auto simp: round_trip_def split: list.splits option.splits)

text \<open>After a disconnect, whatever its outcome, the node is not registered and its session is closed
  with no monitor.\<close>

lemma session_close_sess:
  assumes "sid < length (w_heap w)" and run: "session_close sid w = (r, w')" and mon: "\<not> ss_closed (sess w sid)"
  shows "w_registry w' = w_registry w" "w_tracker w' = w_tracker w" "length (w_heap w') = length (w_heap w)"
    "ss_closed (sess w' sid) \<and> ss_monitor (sess w' sid) = None \<and> \<not> ss_conn_open (sess w' sid)"
    "sid' \<noteq> sid \<Longrightarrow> sess w' sid' = sess w sid'"
proof -
  let ?w1 = "upd_sess sid (\<lambda>x. x\<lparr>ss_closed := True, ss_monitor := None\<rparr>) w"
  let ?w2 = "upd_sess sid (\<lambda>x. x\<lparr>ss_conn_open := False\<rparr>) ?w1"
  have "(\<exists>r2. round_trip ?w2 = (r2, w') \<and> ss_conn_open (sess ?w1 sid)) \<or> w' = ?w1 \<and> \<not> ss_conn_open (sess ?w1 sid)"
    using run mon by (auto simp: session_close_def Let_def split: if_splits)
  then have "w_registry w' = w_registry w \<and> w_tracker w' = w_tracker w \<and> length (w_heap w') = length (w_heap w)
      \<and> (ss_closed (sess w' sid) \<and> ss_monitor (sess w' sid) = None \<and> \<not> ss_conn_open (sess w' sid))
      \<and> (sid' \<noteq> sid \<longrightarrow> sess w' sid' = sess w sid')"
  proof
    assume "\<exists>r2. round_trip ?w2 = (r2, w') \<and> ss_conn_open (sess ?w1 sid)"
    then obtain r2 where "round_trip ?w2 = (r2, w')" by blast
    from w_simps_round_trip [OF this] have "w_heap w' = w_heap ?w2" "w_registry w' = w_registry w"
        "w_tracker w' = w_tracker w" by simp_all
    moreover have "sess w' s = sess ?w2 s" for s using calculation(1) by (simp add: sess_def)
    ultimately show ?thesis using assms(1) by simp
  qed (use assms(1) in simp)
  then show "w_registry w' = w_registry w" "w_tracker w' = w_tracker w" "length (w_heap w') = length (w_heap w)"
    "ss_closed (sess w' sid) \<and> ss_monitor (sess w' sid) = None \<and> \<not> ss_conn_open (sess w' sid)"
    "sid' \<noteq> sid \<Longrightarrow> sess w' sid' = sess w sid'"
    by simp_all
qed

lemma repo_disconnect_spec:
  assumes ok: "sessions_ok w" and run: "repo_disconnect nid w = (r, w')"
  shows "w_registry w' = dpop nid (w_registry w) \<and> w_tracker w' = w_tracker w \<and>
    (\<forall>sid. repo_get_session nid w = Some sid \<longrightarrow>
       ss_closed (sess w' sid) \<and> ss_monitor (sess w' sid) = None \<and> \<not> ss_conn_open (sess w' sid)) \<and>
    (\<forall>sid. repo_get_session nid w \<noteq> Some sid \<longrightarrow> sess w' sid = sess w sid) \<and>
    length (w_heap w') = length (w_heap w)"
proof (cases "dget (w_registry w) nid")
  case None
  then show ?thesis using run by (simp add: repo_disconnect_def repo_get_session_def dpop_absent)
next
  case (Some sid)
  let ?w = "w\<lparr>w_registry := dpop nid (w_registry w)\<rparr>"
  have c: "session_close sid ?w = (r, w')" using run Some by (simp add: repo_disconnect_def)
  have lt: "sid < length (w_heap ?w)" and op: "\<not> ss_closed (sess ?w sid)"
    using sessions_okD [OF ok Some] by simp_all
  show ?thesis
    using session_close_sess [OF lt c op] Some by (auto simp: repo_get_session_def)
qed

lemma sessions_ok_disconnect:
  assumes ok: "sessions_ok w" and run: "repo_disconnect nid w = (r, w')"
  shows "sessions_ok w'"
proof -
  note S = repo_disconnect_spec [OF ok run]
  have sub: "set (w_registry w') \<subseteq> set (w_registry w)" using S set_dpop_subset by metis
  have okr: "dict_ok (w_registry w')" using S ok by (simp add: sessions_ok_def)
  have "sid < length (w_heap w') \<and> m_node_id (ss_machine (sess w' sid)) = n \<and> \<not> ss_closed (sess w' sid)"
    if m: "(n, sid) \<in> set (w_registry w')" for n sid
  proof -
    have "dget (w_registry w') n = Some sid" using dget_mem [OF okr m] .
    then have g: "dget (w_registry w) n = Some sid" and ne: "n \<noteq> nid"
      using S ok by (auto simp: sessions_ok_def split: if_splits)
    have "repo_get_session nid w \<noteq> Some sid"
    proof
      assume "repo_get_session nid w = Some sid"
      then show False using sessions_okD(2) [OF ok] g ne by (auto simp: repo_get_session_def)
    qed
    then show ?thesis using S sessions_okD [OF ok g] by auto
  qed
  then show ?thesis using okr S ok distinct_snd_dpop by (auto simp: sessions_ok_def)
qed

section \<open>Queries\<close>

lemma repo_list_free_iff:
  assumes ok: "sessions_ok w"
  shows "sid \<in> set (repo_list_free ps w) \<longleftrightarrow>
     (\<exists>nid. repo_get_session nid w = Some sid) \<and> m_state (ss_machine (sess w sid)) = FREE
     \<and> (case ps of None \<Rightarrow> True | Some p \<Rightarrow> set (m_platforms (ss_machine (sess w sid))) \<inter> set p \<noteq> {})"
proof -
  have "sid \<in> snd ` set (w_registry w) \<longleftrightarrow> (\<exists>nid. dget (w_registry w) nid = Some sid)"
    using dget_mem [OF sessions_ok_dict [OF ok]] dget_Some_mem by force
  then show ?thesis
    by (auto simp: repo_list_free_def repo_get_session_def dvalues_def intersects_iff split: option.splits)
qed

lemma repo_list_free_sorted:
  "sorted (map (\<lambda>sid. case m_free_since (ss_machine (sess w sid)) of None \<Rightarrow> 0 | Some t \<Rightarrow> t) (repo_list_free ps w))"
  by (simp add: repo_list_free_def)

lemma repo_list_free_distinct: "sessions_ok w \<Longrightarrow> distinct (repo_list_free ps w)"
  by (simp add: repo_list_free_def sessions_ok_def dvalues_def)

lemma repo_list_free_node:
  assumes ok: "sessions_ok w" and m: "sid \<in> set (repo_list_free ps w)"
  shows "repo_get_session (m_node_id (ss_machine (sess w sid))) w = Some sid"
proof -
  obtain nid where "dget (w_registry w) nid = Some sid"
    using m repo_list_free_iff [OF ok] by (auto simp: repo_get_session_def)
  then show ?thesis using sessions_okD [OF ok] by (auto simp: repo_get_session_def)
qed

section \<open>Occupancy\<close>

text \<open>A machine is only declared free when a configured probe answered, or when none is configured.\<close>

lemma occupancy_free_iff:
  "occupancy_check pb x e = Inr False \<longleftrightarrow>
     (if truthy (e_check_pname e) then pb_pgrep pb x (the (e_check_pname e)) = Inr []
      else truthy (e_check_cmd e) \<longrightarrow>
           (\<exists>rc. pb_run pb x (the (e_check_cmd e)) = Inr rc \<and> rc \<noteq> Some (e_check_cmd_code e)))"
  by (auto simp: occupancy_check_def occupancy_by_pgrep_def occupancy_by_cmd_def split: sum.splits if_splits)

lemma check_factory_free: "check_factory pb x e = Inr False \<longleftrightarrow> occupancy_check pb x e = Inr False"
  by (auto simp: check_factory_def split: sum.splits if_splits)

end
