(* ===== verification/Deployment.thy ===== *)
theory Deployment
  imports Machine_Facts Paths
begin

text \<open>
  \<open>infra/ssh/operations/deployment.py\<close> and \<open>infra/ssh/operations/download.py\<close> on a POSIX machine:
  uploading the inputs of a task and spawning it, with the rollback of the BUSY mark, and fetching its
  outputs file by file with the removal of the remote folder on full success.

  \<open>str()\<close> of values other than strings, numbers, booleans and \<open>None\<close> is the parameter \<open>repr\<close>; the shell
  quoting of the adapter is the parameter \<open>quote\<close>.
\<close>

section \<open>String helpers\<close>

lemma partition_on_length: "partition_on c s = (h, f, t) \<Longrightarrow> length t \<le> length s"
proof (induction s arbitrary: h f t)
  case (Cons x xs)
  obtain h' f' t' where p: "partition_on c xs = (h', f', t')" by (cases "partition_on c xs")
  show ?case using Cons.prems Cons.IH [OF p] p by (auto split: if_splits)
qed simp

text \<open>\<open>str.format\<close> on templates with plain named fields, \<open>{{\<close> and \<open>}}\<close>.\<close>

function py_format :: "(string \<Rightarrow> string option) \<Rightarrow> string \<Rightarrow> exn + string" where
  "py_format env s = (case s of
      [] \<Rightarrow> Inr []
    | c # r \<Rightarrow>
        if c = CHR ''{'' then
          (if r \<noteq> [] \<and> hd r = CHR ''{'' then map_sum id ((#) CHR ''{'') (py_format env (tl r))
           else (case partition_on CHR ''}'' r of (name, found, t) \<Rightarrow>
             if \<not> found then Inl (ValueError ''expected closing brace before end of string'')
             else (case env name of
                 None \<Rightarrow> Inl (KeyErr name)
               | Some v \<Rightarrow> map_sum id ((@) v) (py_format env t))))
        else if c = CHR ''}'' then
          (if r \<noteq> [] \<and> hd r = CHR ''}'' then map_sum id ((#) CHR ''}'') (py_format env (tl r))
           else Inl (ValueError ''Single } encountered in format string''))
        else map_sum id ((#) c) (py_format env r))"
  by pat_completeness auto
termination
  by (relation "measure (\<lambda>(env, s). length s)")
     (auto dest: partition_on_length [OF sym] simp: le_imp_less_Suc)

fun py_str :: "(pyval \<Rightarrow> string) \<Rightarrow> pyval \<Rightarrow> string" where
  "py_str repr (PStr s) = s"
| "py_str repr (PInt i) = show_int i"
| "py_str repr PNone = ''None''"
| "py_str repr (PBool b) = (if b then ''True'' else ''False'')"
| "py_str repr v = repr v"

section \<open>Base64\<close>

definition b64_value :: "char \<Rightarrow> nat option" where
  "b64_value c = (let n = of_char c in
     if 65 \<le> n \<and> n \<le> 90 then Some (n - 65)
     else if 97 \<le> n \<and> n \<le> 122 then Some (n - 71)
     else if 48 \<le> n \<and> n \<le> 57 then Some (n + 4)
     else if n = 43 then Some 62 else if n = 47 then Some 63 else None)"

text \<open>\<open>binascii.a2b_base64\<close>, not strict: characters outside the alphabet are skipped, a complete padding
  ends the input.  The arguments are the number of characters of the open quad, its left-over bits and
  the number of pad characters just seen.\<close>

fun b64_loop :: "nat \<Rightarrow> nat \<Rightarrow> nat \<Rightarrow> string \<Rightarrow> exn + string" where
  "b64_loop q left pads [] =
     (if q = 0 then Inr []
      else if q = 1 then Inl (ValueError ''Invalid base64-encoded string'')
      else Inl (ValueError ''Incorrect padding''))"
| "b64_loop q left pads (c # cs) =
     (if c = CHR ''='' then
        (if 2 \<le> q \<and> 4 \<le> q + pads + 1 then Inr []
         else b64_loop q left (if 2 \<le> q then pads + 1 else pads) cs)
      else (case b64_value c of
          None \<Rightarrow> b64_loop q left pads cs
        | Some v \<Rightarrow>
            if q = 0 then b64_loop 1 v 0 cs
            else if q = 1 then map_sum id ((#) (char_of (4 * left + v div 16))) (b64_loop 2 (v mod 16) 0 cs)
            else if q = 2 then map_sum id ((#) (char_of (16 * left + v div 4))) (b64_loop 3 (v mod 4) 0 cs)
            else map_sum id ((#) (char_of (64 * left + v))) (b64_loop 0 0 0 cs)))"

definition b64decode :: "string \<Rightarrow> exn + string" where
  "b64decode s = b64_loop 0 0 0 s"

definition is_space :: "char \<Rightarrow> bool" where
  "is_space c \<longleftrightarrow> (let n = of_char c :: nat in n = 32 \<or> (9 \<le> n \<and> n \<le> 13) \<or> (28 \<le> n \<and> n \<le> 31))"

definition strip :: "string \<Rightarrow> string" where
  "strip s = rev (dropWhile is_space (rev (dropWhile is_space s)))"

text \<open>\<open>_safe_b64decode\<close> of a string.\<close>

definition safe_b64decode :: "string \<Rightarrow> exn + string" where
  "safe_b64decode s =
     (let t = filter (\<lambda>c. c \<noteq> CHR '' '') (filter (\<lambda>c. c \<noteq> char_of (10::nat)) (strip s));
          missing = length t mod 4;
          u = (if missing \<noteq> 0 then t @ replicate (4 - missing) CHR ''='' else t)
      in b64decode u)"

section \<open>Upload and spawn\<close>

definition with_sftp :: "sid \<Rightarrow> ('y, 'a) wprog \<Rightarrow> ('y, 'a) wprog" where
  "with_sftp sid body =
     thenM (remote_call sid OpOpenSftp) (finallyM body (thenM (remote_call sid OpCloseSftp) skipM))"

definition write_remote_file :: "sid \<Rightarrow> string \<Rightarrow> string \<Rightarrow> ('y, unit) wprog" where
  "write_remote_file sid path data = thenM (remote_call sid (OpWrite path data)) skipM"

definition upload_one :: "(pyval \<Rightarrow> string) \<Rightarrow> sid \<Rightarrow> task \<Rightarrow> ppath \<Rightarrow> string \<Rightarrow> ('y, unit) wprog" where
  "upload_one repr sid t remote_dir f =
     (case dget (t_extra t) f of
        None \<Rightarrow> raiseM (KeyErr f)
      | Some v \<Rightarrow>
          if f = ''fort.9'' then
            bindM (fromSum (safe_b64decode (py_str repr v)))
              (\<lambda>data. write_remote_file sid (path_str (path_div remote_dir f)) data)
          else write_remote_file sid (path_str (path_div remote_dir f)) (py_str repr v))"

definition upload_task_data ::
  "(pyval \<Rightarrow> string) \<Rightarrow> sid \<Rightarrow> task \<Rightarrow> ppath \<Rightarrow> string list \<Rightarrow> ('y, bool) wprog" where
  "upload_task_data repr sid t remote_dir input_files =
     thenM (with_sftp sid
             (thenM (remote_call sid (OpMakedirs (path_str remote_dir)))
                    (forM input_files (upload_one repr sid t remote_dir))))
           (returnM True)"

definition spawn_env :: "(string \<Rightarrow> string) \<Rightarrow> ppath \<Rightarrow> ppath \<Rightarrow> int \<Rightarrow> string \<Rightarrow> string option" where
  "spawn_env quote eng_path task_dir ncpus name =
     (if name = ''engine_path'' then Some (quote (path_str eng_path))
      else if name = ''task_path'' then Some (quote (path_str task_dir))
      else if name = ''ncpus'' then Some (show_int ncpus) else None)"

text \<open>\<open>_exec_spawn_command\<close> over \<open>MachineSession.run_bg\<close>: the spawn is a single remote call.\<close>

definition exec_spawn_command ::
  "(string \<Rightarrow> string) \<Rightarrow> sid \<Rightarrow> engine \<Rightarrow> ppath \<Rightarrow> ppath \<Rightarrow> int \<Rightarrow> ('y, unit) wprog" where
  "exec_spawn_command quote sid e task_dir eng_path ncpus =
     bindM (fromSum (py_format (spawn_env quote eng_path task_dir ncpus) (e_spawn e)))
       (\<lambda>cmd. thenM (remote_call sid (OpSpawn cmd (path_str task_dir))) skipM)"

definition is_absolute :: "ppath \<Rightarrow> bool" where
  "is_absolute p \<longleftrightarrow> pp_root p \<noteq> ''''"

text \<open>The rollback of the BUSY mark under \<open>except BaseException\<close>: skipped on a closed session.\<close>

definition rollback_busy :: "sid \<Rightarrow> exn \<Rightarrow> ('y, 'a) wprog" where
  "rollback_busy sid err w =
     (if ss_closed (sess w sid) then (Inl err, w)
      else bindM (session_release sid) (\<lambda>_. raiseM err) w)"

definition deploy_and_spawn ::
  "(pyval \<Rightarrow> string) \<Rightarrow> (string \<Rightarrow> string) \<Rightarrow> sid \<Rightarrow> engine \<Rightarrow> task \<Rightarrow> int \<Rightarrow> ppath \<Rightarrow> ('y, unit) wprog" where
  "deploy_and_spawn repr quote sid e t ncpus engines_dir =
     (let remote_folder = mk_path (case remote_folder_of t of None \<Rightarrow> '''' | Some rf \<Rightarrow> rf) in
      bindM (with_sftp sid
              (bindM (remote_call sid (OpRealpath ''.'')) (\<lambda>root.
                 (let root_dir = mk_path root;
                      task_dir = (if is_absolute remote_folder then remote_folder
                                  else path_join root_dir remote_folder);
                      engine_path = (if is_absolute engines_dir then path_div engines_dir (e_name e)
                                     else path_div (path_join root_dir engines_dir) (e_name e))
                  in thenM (upload_task_data repr sid t task_dir (e_input_files e))
                           (returnM (task_dir, engine_path))))))
            (\<lambda>(task_dir, engine_path). exec_spawn_command quote sid e task_dir engine_path ncpus))"

definition deployer_start ::
  "(pyval \<Rightarrow> string) \<Rightarrow> (string \<Rightarrow> string) \<Rightarrow> sid \<Rightarrow> engine \<Rightarrow> task \<Rightarrow> int \<Rightarrow> ppath \<Rightarrow> ('y, bool) wprog" where
  "deployer_start repr quote sid e t ncpus engines_dir =
     thenM (session_occupy sid)
    (thenM (catchM (deploy_and_spawn repr quote sid e t ncpus engines_dir) (rollback_busy sid))
           (returnM True))"

section \<open>Download\<close>

type_synonym dl_errors = "(string option \<times> exn) list"

text \<open>The per-file loop.  The result carries the exception that escaped to the outer handler, if any,
  and the errors classified so far; a cancellation is raised.\<close>

definition dl_escape :: "exn \<Rightarrow> dl_errors \<Rightarrow> dl_errors \<Rightarrow> ('y, exn option \<times> dl_errors \<times> dl_errors) wprog" where
  "dl_escape e tr pe = (if is_Exception e then returnM (Some e, tr, pe) else raiseM e)"

fun dl_loop :: "sid \<Rightarrow> string \<Rightarrow> string list \<Rightarrow> dl_errors \<Rightarrow> dl_errors
    \<Rightarrow> ('y, exn option \<times> dl_errors \<times> dl_errors) wprog" where
  "dl_loop sid local_dir [] tr pe = returnM (None, tr, pe)"
| "dl_loop sid local_dir (f # fs) tr pe =
     bindM (attemptM (remote_call sid OpOpenSftp)) (\<lambda>o1. case o1 of
         Inl e \<Rightarrow> dl_escape e tr pe
       | Inr _ \<Rightarrow> bindM (attemptM (remote_call sid (OpGet f local_dir))) (\<lambda>o2.
           bindM (attemptM (remote_call sid OpCloseSftp)) (\<lambda>o3.
             let (esc, tr', pe') = (case o2 of
                   Inr _ \<Rightarrow> (None, tr, pe)
                 | Inl e \<Rightarrow>
                     if is_OSError e \<or> is_SFTPError e then
                       (if is_SFTPRetry e then (None, tr @ [(Some f, e)], pe)
                        else (None, tr, pe @ [(Some f, e)]))
                     else (Some e, tr, pe))
             in case o3 of
                  Inl e3 \<Rightarrow> dl_escape e3 tr' pe'
                | Inr _ \<Rightarrow> (case esc of Some e \<Rightarrow> dl_escape e tr' pe'
                                      | None \<Rightarrow> dl_loop sid local_dir fs tr' pe'))))"

definition dl_rmtree :: "sid \<Rightarrow> string \<Rightarrow> ('y, unit) wprog" where
  "dl_rmtree sid remote_dir =
     with_sftp sid (thenM (remote_call sid (OpRmtree (path_str (mk_path remote_dir)))) skipM)"

definition download_outputs ::
  "sid \<Rightarrow> string \<Rightarrow> string \<Rightarrow> string list \<Rightarrow> ('y, string \<times> string \<times> dl_errors \<times> dl_errors) wprog" where
  "download_outputs sid remote_dir local_dir files =
     bindM (dl_loop sid local_dir files [] []) (\<lambda>(esc, tr, pe).
       case esc of
         Some e \<Rightarrow> returnM (local_dir, remote_dir, tr @ [(Some remote_dir, e)], pe)
       | None \<Rightarrow>
           if tr = [] \<and> pe = [] then
             bindM (attemptM (dl_rmtree sid remote_dir)) (\<lambda>o1. case o1 of
                 Inr _ \<Rightarrow> returnM (local_dir, remote_dir, tr, pe)
               | Inl e \<Rightarrow> if is_Exception e
                          then returnM (local_dir, remote_dir, tr @ [(Some remote_dir, e)], pe)
                          else raiseM e)
           else returnM (local_dir, remote_dir, tr, pe))"

end
