(* ===== verification/Deployment_Facts.thy ===== *)
theory Deployment_Facts
  imports Deployment
begin

text \<open>
  What deployment and download promise: they leave the store and the tracker alone, a failed start
  leaves the machine free unless its session was closed, a successful one leaves it BUSY; the remote
  folder is removed only after every file was fetched.
\<close>

definition wcore :: "'y world_scheme \<Rightarrow> db \<times> uow \<times> exn option list \<times> bus \<times> trace \<times> tracker" where
  "wcore w = (st_db w, st_uow w, st_faults w, st_bus w, st_trace w, w_tracker w)"

lemma wcore_simps [simp]:
  "wcore (upd_sess sid f w) = wcore w" "wcore (w\<lparr>w_remote := x\<rparr>) = wcore w"
  "wcore (w\<lparr>w_net := n\<rparr>) = wcore w" "wcore (env_close sid w) = wcore w"
  "wcore (w\<lparr>w_next_monitor := k\<rparr>) = wcore w"
  by (simp_all add: wcore_def env_close_def upd_sess_def)

lemma frames_remote_call [frames_intros]: "frames wcore (remote_call sid op)"
  by (rule framesI) (auto simp: remote_call_def Let_def split: list.split)

lemma frames_with_sftp [frames_intros]: "frames wcore body \<Longrightarrow> frames wcore (with_sftp sid body)"
  unfolding with_sftp_def by (intro frames_intros)

lemma frames_session [frames_intros]:
  "frames wcore (session_occupy sid)" "frames wcore (session_release sid)"
  "frames wcore (rollback_busy sid e)"
  by (auto simp: frames_def session_occupy_def session_release_def rollback_busy_def bindM_def raiseM_def
      split: sum.split)

lemma frames_deploy [frames_intros]: "frames wcore (deploy_and_spawn repr quote sid e t ncpus engines_dir)"
proof -
  have u: "frames wcore (upload_one repr sid t p f)" for p f
    unfolding upload_one_def write_remote_file_def by (intro frames_intros)
  show ?thesis
    unfolding deploy_and_spawn_def upload_task_data_def exec_spawn_command_def Let_def
    by (intro frames_intros u)
qed

lemma frames_deployer_start [frames_intros]:
  "frames wcore (deployer_start repr quote sid e t ncpus engines_dir)"
  unfolding deployer_start_def by (intro frames_intros)

lemma frames_dl_escape [frames_intros]: "frames f (dl_escape e tr pe)"
  unfolding dl_escape_def by (intro frames_intros)

lemma frames_dl_loop [frames_intros]: "frames wcore (dl_loop sid d fs tr pe)"
  by (induction fs arbitrary: tr pe)
     (auto intro!: frames_intros simp: Let_def split: sum.split option.split prod.split)

lemma frames_download [frames_intros]: "frames wcore (download_outputs sid rd ld files)"
  unfolding download_outputs_def dl_rmtree_def by (intro frames_intros)

section \<open>The machine during a deployment\<close>

text \<open>The remote calls change a session at most by closing it.\<close>

definition sess_kept :: "sid \<Rightarrow> ('y, 'a) wprog \<Rightarrow> bool" where
  "sess_kept sid m \<longleftrightarrow> (\<forall>w. length (w_heap (snd (m w))) = length (w_heap w)
     \<and> ss_machine (sess (snd (m w)) sid) = ss_machine (sess w sid)
     \<and> (\<forall>x. x \<noteq> sid \<longrightarrow> sess (snd (m w)) x = sess w x)
     \<and> w_clock (snd (m w)) = w_clock w)"

lemma sess_kept_iff: "sess_kept sid m \<longleftrightarrow>
    frames (\<lambda>w. (length (w_heap w), ss_machine (sess w sid), \<lambda>x. if x = sid then None else Some (sess w x), w_clock w)) m"
  by (auto simp: sess_kept_def frames_def fun_eq_iff)

lemma sess_kept_remote: "sess_kept sid (remote_call sid op)"
proof -
  have "length (w_heap (env_close sid w)) = length (w_heap w)
     \<and> ss_machine (sess (env_close sid w) sid) = ss_machine (sess w sid)
     \<and> (\<forall>x. x \<noteq> sid \<longrightarrow> sess (env_close sid w) x = sess w x) \<and> w_clock (env_close sid w) = w_clock w"
    for w :: "'a world_scheme"
    by (simp add: env_close_def sess_upd)
  moreover have "sess (w\<lparr>w_remote := r\<rparr>) x = sess w x" "sess (w\<lparr>w_net := n\<rparr>) x = sess w x"
    for w :: "'a world_scheme" and r n x by (simp_all add: sess_def)
  ultimately show ?thesis
    by (auto simp: sess_kept_def remote_call_def Let_def split: list.split)
qed

lemma sess_kept_deploy: "sess_kept sid (deploy_and_spawn repr quote sid e t ncpus engines_dir)"
proof -
  have r: "frames (\<lambda>w. (length (w_heap w), ss_machine (sess w sid), \<lambda>x. if x = sid then None else Some (sess w x), w_clock w))
      (remote_call sid op)" for op
    using sess_kept_remote [of sid op] by (simp only: sess_kept_iff)
  show ?thesis
    unfolding sess_kept_iff deploy_and_spawn_def upload_task_data_def exec_spawn_command_def Let_def
      with_sftp_def upload_one_def write_remote_file_def
    by (intro frames_intros r)
qed

text \<open>The outcome of a start: BUSY on success; after a failure the machine is as it was (it could not
  be occupied), free again, or its session is closed.\<close>

theorem deployer_start_machine:
  assumes lt: "sid < length (w_heap w)"
    and run: "deployer_start repr quote sid e t ncpus engines_dir w = (r, w')"
  shows "(\<forall>b. r = Inr b \<longrightarrow> b \<and> m_state (ss_machine (sess w sid)) = FREE
            \<and> m_state (ss_machine (sess w' sid)) = BUSY)
    \<and> (\<forall>err. r = Inl err \<longrightarrow>
         (m_state (ss_machine (sess w sid)) = BUSY \<and> w' = w
            \<and> err = MachineBusyError (m_node_id (ss_machine (sess w sid))))
         \<or> ss_closed (sess w' sid) \<or> m_state (ss_machine (sess w' sid)) = FREE)
    \<and> (\<forall>x. x \<noteq> sid \<longrightarrow> sess w' x = sess w x)
    \<and> m_node_id (ss_machine (sess w' sid)) = m_node_id (ss_machine (sess w sid))
    \<and> length (w_heap w') = length (w_heap w)"
proof (cases "m_state (ss_machine (sess w sid))")
  case BUSY
  then have "r = Inl (MachineBusyError (m_node_id (ss_machine (sess w sid))))" "w' = w"
    using run by (auto simp: deployer_start_def thenM_def bindM_def session_occupy_def occupy_machine_def)
  then show ?thesis using BUSY by simp
next
  case FREE
  let ?w1 = "upd_sess sid (\<lambda>x. x\<lparr>ss_machine := (ss_machine (sess w sid))\<lparr>m_state := BUSY\<rparr>\<rparr>) w"
  obtain q w2 where q: "deploy_and_spawn repr quote sid e t ncpus engines_dir ?w1 = (q, w2)"
    by (cases "deploy_and_spawn repr quote sid e t ncpus engines_dir ?w1")
  have K: "length (w_heap w2) = length (w_heap w)"
      "ss_machine (sess w2 sid) = (ss_machine (sess w sid))\<lparr>m_state := BUSY\<rparr>"
      "\<forall>x. x \<noteq> sid \<longrightarrow> sess w2 x = sess w x"
    using sess_kept_deploy [of sid repr quote e t ncpus engines_dir, unfolded sess_kept_def, THEN spec, of ?w1] q lt
    by simp_all
  have run': "thenM (catchM (deploy_and_spawn repr quote sid e t ncpus engines_dir) (rollback_busy sid)) (returnM True) ?w1 = (r, w')"
    using run FREE
    by (simp add: deployer_start_def thenM_def bindM_def session_occupy_def occupy_machine_def)
  show ?thesis
  proof (cases q)
    case (Inr u)
    then have "r = Inr True" "w' = w2"
      using run' q by (simp_all add: thenM_def bindM_def catchM_def returnM_def)
    then show ?thesis using K FREE by simp
  next
    case (Inl err)
    then have res: "(r, w') = (if ss_closed (sess w2 sid) then (Inl err, w2)
        else (Inl err, snd (session_release sid w2)))"
      using run' q
      by (auto simp: thenM_def bindM_def catchM_def rollback_busy_def session_release_def raiseM_def)
    then show ?thesis
      using K lt FREE by (auto simp: session_release_def release_machine_def split: if_splits)
  qed
qed

section \<open>Downloads\<close>

definition fetch_ops :: "sid \<Rightarrow> string \<Rightarrow> string list \<Rightarrow> (sid \<times> remote_op) list" where
  "fetch_ops sid d fs = concat (map (\<lambda>f. [(sid, OpOpenSftp), (sid, OpGet f d), (sid, OpCloseSftp)]) fs)"

lemma w_remote_call: "remote_call sid op w = (r, w') \<Longrightarrow> w_remote w' = w_remote w @ [(sid, op)]"
  by (auto simp: remote_call_def Let_def env_close_def upd_sess_def split: list.splits)

lemma attempt_call:
  "attemptM m w = (r, w') \<Longrightarrow> \<exists>q. m w = (q, w') \<and> r = Inr q"
  by (auto simp: attemptM_def split: prod.splits)

lemma dl_escape_Inr: "dl_escape e tr pe w = (Inr (x, tr', pe'), w') \<Longrightarrow> x = Some e \<and> tr' = tr \<and> pe' = pe \<and> w' = w"
  by (auto simp: dl_escape_def returnM_def raiseM_def split: if_splits)

text \<open>The loop ends without an escaped exception only when each file was tried, in order; the errors it
  reports are of the files, the transient ones retryable and the permanent ones not.\<close>

lemma dl_loop_None:
  "dl_loop sid d fs tr pe w = (Inr (None, tr', pe'), w') \<Longrightarrow>
     w_remote w' = w_remote w @ fetch_ops sid d fs
   \<and> (\<exists>t p. tr' = tr @ t \<and> pe' = pe @ p
        \<and> (\<forall>(f, e) \<in> set t. f \<in> Some ` set fs \<and> is_SFTPRetry e)
        \<and> (\<forall>(f, e) \<in> set p. f \<in> Some ` set fs \<and> \<not> is_SFTPRetry e))"
proof (induction fs arbitrary: tr pe w)
  case Nil
  then show ?case by (simp add: fetch_ops_def returnM_def)
next
  case (Cons f fs)
  obtain q1 w1 where c1: "remote_call sid OpOpenSftp w = (q1, w1)" by (cases "remote_call sid OpOpenSftp w")
  obtain q2 w2 where c2: "remote_call sid (OpGet f d) w1 = (q2, w2)" by (cases "remote_call sid (OpGet f d) w1")
  obtain q3 w3 where c3: "remote_call sid OpCloseSftp w2 = (q3, w3)" by (cases "remote_call sid OpCloseSftp w2")
  have log: "w_remote w3 = w_remote w @ [(sid, OpOpenSftp), (sid, OpGet f d), (sid, OpCloseSftp)]"
    using w_remote_call [OF c1] w_remote_call [OF c2] w_remote_call [OF c3] by simp
  obtain tr1 pe1 where rest: "dl_loop sid d fs tr1 pe1 w3 = (Inr (None, tr', pe'), w')"
    and acc: "(tr1 = tr \<and> pe1 = pe) \<or> (\<exists>e. is_SFTPRetry e \<and> tr1 = tr @ [(Some f, e)] \<and> pe1 = pe)
        \<or> (\<exists>e. \<not> is_SFTPRetry e \<and> tr1 = tr \<and> pe1 = pe @ [(Some f, e)])"
    using Cons.prems c1 c2 c3
    by (auto simp: bindM_def attemptM_def dl_escape_def returnM_def raiseM_def Let_def
        split: sum.splits if_splits option.splits)
  from Cons.IH [OF rest] obtain t p where
    ih: "w_remote w' = w_remote w3 @ fetch_ops sid d fs" "tr' = tr1 @ t" "pe' = pe1 @ p"
      "\<forall>(g, e) \<in> set t. g \<in> Some ` set fs \<and> is_SFTPRetry e"
      "\<forall>(g, e) \<in> set p. g \<in> Some ` set fs \<and> \<not> is_SFTPRetry e"
    by blast
  have "\<exists>t' p'. tr' = tr @ t' \<and> pe' = pe @ p'
        \<and> (\<forall>(g, e) \<in> set t'. g \<in> Some ` set (f # fs) \<and> is_SFTPRetry e)
        \<and> (\<forall>(g, e) \<in> set p'. g \<in> Some ` set (f # fs) \<and> \<not> is_SFTPRetry e)"
    using acc
  proof (elim disjE exE conjE)
    fix e assume "is_SFTPRetry e" "tr1 = tr @ [(Some f, e)]" "pe1 = pe"
    then show ?thesis using ih by (intro exI [of _ "(Some f, e) # t"] exI [of _ p]) auto
  next
    fix e assume "\<not> is_SFTPRetry e" "tr1 = tr" "pe1 = pe @ [(Some f, e)]"
    then show ?thesis using ih by (intro exI [of _ t] exI [of _ "(Some f, e) # p"]) auto
  qed (use ih in \<open>intro exI [of _ t] exI [of _ p], auto\<close>)
  then show ?case using ih(1) log by (simp add: fetch_ops_def)
qed

text \<open>Whatever happens, the loop itself never removes anything.\<close>

lemma dl_loop_log:
  "\<exists>ops. w_remote (snd (dl_loop sid d fs tr pe w)) = w_remote w @ ops \<and> (\<forall>p. (sid, OpRmtree p) \<notin> set ops)"
proof (induction fs arbitrary: tr pe w)
  case (Cons f fs)
  obtain q1 w1 where c1: "remote_call sid OpOpenSftp w = (q1, w1)" by (cases "remote_call sid OpOpenSftp w")
  obtain q2 w2 where c2: "remote_call sid (OpGet f d) w1 = (q2, w2)" by (cases "remote_call sid (OpGet f d) w1")
  obtain q3 w3 where c3: "remote_call sid OpCloseSftp w2 = (q3, w3)" by (cases "remote_call sid OpCloseSftp w2")
  note logs = w_remote_call [OF c1] w_remote_call [OF c2] w_remote_call [OF c3]
  have esc: "w_remote (snd (dl_escape e t p v)) = w_remote v" for e t p and v :: "'a world_scheme"
    by (simp add: dl_escape_def returnM_def raiseM_def)
  let ?w = "snd (dl_loop sid d (f # fs) tr pe w)"
  have "w_remote ?w = w_remote w1 \<or> w_remote ?w = w_remote w3
      \<or> (\<exists>tr1 pe1. w_remote ?w = w_remote (snd (dl_loop sid d fs tr1 pe1 w3)))"
    using c1 c2 c3
    by (auto simp: bindM_def attemptM_def esc Let_def split: sum.splits option.splits)
  then show ?case
  proof (elim disjE exE)
    fix tr1 pe1 assume eq: "w_remote ?w = w_remote (snd (dl_loop sid d fs tr1 pe1 w3))"
    obtain ops where "w_remote (snd (dl_loop sid d fs tr1 pe1 w3)) = w_remote w3 @ ops"
        "\<forall>p. (sid, OpRmtree p) \<notin> set ops" using Cons.IH by blast
    then show ?thesis using eq logs by auto
  qed (use logs in auto)
qed (simp add: returnM_def)

text \<open>The remote folder is only removed once the loop fetched every file without an error.\<close>

theorem download_rmtree:
  assumes run: "download_outputs sid rd ld files w = (r, w')"
    and rm: "(sid, OpRmtree p) \<in> set (drop (length (w_remote w)) (w_remote w'))"
  shows "p = path_str (mk_path rd) \<and>
    (\<exists>w1. dl_loop sid ld files [] [] w = (Inr (None, [], []), w1)
       \<and> w_remote w1 = w_remote w @ fetch_ops sid ld files)"
proof -
  obtain q w1 where q: "dl_loop sid ld files [] [] w = (q, w1)" by (cases "dl_loop sid ld files [] [] w")
  obtain ops where ops: "w_remote w1 = w_remote w @ ops" "\<forall>p. (sid, OpRmtree p) \<notin> set ops"
    using dl_loop_log [of sid ld files "[]" "[]" w] q by auto
  have main: "q = Inr (None, [], [])"
  proof (rule ccontr)
    assume "q \<noteq> Inr (None, [], [])"
    then have "w' = w1"
      using run q by (auto simp: download_outputs_def bindM_def returnM_def split: sum.splits option.splits if_splits)
    then show False using rm ops by auto
  qed
  obtain q1 w2 where c1: "remote_call sid OpOpenSftp w1 = (q1, w2)" by (cases "remote_call sid OpOpenSftp w1")
  let ?rm = "OpRmtree (path_str (mk_path rd))"
  obtain q2 w3 where c2: "remote_call sid ?rm w2 = (q2, w3)" by (cases "remote_call sid ?rm w2")
  obtain q3 w4 where c3: "remote_call sid OpCloseSftp w3 = (q3, w4)" by (cases "remote_call sid OpCloseSftp w3")
  have "w_remote w' = w_remote w2 \<or> w_remote w' = w_remote w4"
    using run q main c1 c2 c3
    by (auto simp: download_outputs_def dl_rmtree_def with_sftp_def monad_simps split: sum.splits if_splits)
  then have "w_remote w' = w_remote w1 @ [(sid, OpOpenSftp)]
      \<or> w_remote w' = w_remote w1 @ [(sid, OpOpenSftp), (sid, ?rm), (sid, OpCloseSftp)]"
    using w_remote_call [OF c1] w_remote_call [OF c2] w_remote_call [OF c3] by auto
  then have "p = path_str (mk_path rd)"
    using rm ops by auto
  then show ?thesis
    using q main dl_loop_None [of sid ld files "[]" "[]" w] by auto
qed

end
