(* ===== verification/Retry.thy ===== *)
theory Retry
  imports Machine_Facts
begin

text \<open>
  \<open>shared/retry.py\<close>: retry with exponential backoff.  The loop has fuel; \<open>retry\<close> gives it as many
  rounds as the deadline admits, and \<open>retry_fuel_enough\<close> shows that more fuel changes nothing, provided
  the wrapped call does not turn the monotonic clock back.
\<close>

record retry_params =
  rp_on :: "exn \<Rightarrow> bool"
  rp_max_time :: real
  rp_giveup :: "exn \<Rightarrow> bool"
  rp_initial_delay :: real
  rp_max_delay :: real
  rp_factor :: real

text \<open>The defaults of the decorator.\<close>

definition retry_defaults :: "(exn \<Rightarrow> bool) \<Rightarrow> retry_params" where
  "retry_defaults on = \<lparr>rp_on = on, rp_max_time = 60, rp_giveup = (\<lambda>_. False), rp_initial_delay = 1,
     rp_max_delay = 30, rp_factor = 3 / 2\<rparr>"

definition retryable :: "retry_params \<Rightarrow> exn \<Rightarrow> bool" where
  "retryable p e \<longleftrightarrow> is_Exception e \<and> rp_on p e \<and> \<not> rp_giveup p e"

definition sleep :: "real \<Rightarrow> ('y, unit) wprog" where
  "sleep d = modifyM (\<lambda>w. w\<lparr>w_clock := w_clock w + d\<rparr>)"

fun retry_loop :: "nat \<Rightarrow> retry_params \<Rightarrow> real \<Rightarrow> real \<Rightarrow> ('y, 'a) wprog \<Rightarrow> ('y, 'a) wprog" where
  "retry_loop fuel p deadline delay m w =
     (case m w of
        (Inr a, w') \<Rightarrow> (Inr a, w')
      | (Inl e, w') \<Rightarrow>
          if \<not> retryable p e \<or> deadline \<le> w_clock w' then (Inl e, w')
          else (case fuel of
              0 \<Rightarrow> (Inl e, w')
            | Suc n \<Rightarrow> retry_loop n p deadline (min (delay * rp_factor p) (rp_max_delay p)) m
                         (snd (sleep delay w'))))"

declare retry_loop.simps [simp del]

definition retry_rounds :: "retry_params \<Rightarrow> nat" where
  "retry_rounds p = nat \<lceil>rp_max_time p / min (rp_initial_delay p) (rp_max_delay p)\<rceil>"

definition retry :: "retry_params \<Rightarrow> ('y, 'a) wprog \<Rightarrow> ('y, 'a) wprog" where
  "retry p m w = retry_loop (retry_rounds p) p (w_clock w + rp_max_time p) (rp_initial_delay p) m w"

definition retry_params_ok :: "retry_params \<Rightarrow> bool" where
  "retry_params_ok p \<longleftrightarrow> 0 < rp_initial_delay p \<and> 0 < rp_max_delay p \<and> 1 \<le> rp_factor p"

definition clock_monotone :: "('y, 'a) wprog \<Rightarrow> bool" where
  "clock_monotone m \<longleftrightarrow> (\<forall>w. w_clock w \<le> w_clock (snd (m w)))"

lemma sleep_clock: "w_clock (snd (sleep d w)) = w_clock w + d"
  by (simp add: sleep_def modifyM_def)

text \<open>Once the fuel covers the time left, its amount is irrelevant.\<close>

lemma retry_loop_fuel:
  assumes mono: "clock_monotone m" and f: "1 \<le> rp_factor p" and d0: "0 < d" and md: "d \<le> rp_max_delay p"
  shows "d \<le> delay \<Longrightarrow> deadline \<le> w_clock w + real n * d \<Longrightarrow>
     retry_loop (n + k) p deadline delay m w = retry_loop n p deadline delay m w"
proof (induction n arbitrary: delay w)
  case 0
  have c: "deadline \<le> w_clock (snd (m w))"
    using 0 mono by (auto simp: clock_monotone_def intro: order_trans)
  show ?case
    by (subst (1 2) retry_loop.simps) (use c in \<open>auto split: prod.splits sum.splits\<close>)
next
  case (Suc n)
  obtain r w' where r: "m w = (r, w')" by (cases "m w")
  have cw: "w_clock w \<le> w_clock w'" using mono r by (metis clock_monotone_def snd_conv)
  have "d * 1 \<le> delay * rp_factor p" using Suc.prems(1) f d0 by (intro mult_mono) auto
  then have d1: "d \<le> min (delay * rp_factor p) (rp_max_delay p)" using md by simp
  have "deadline \<le> w_clock (snd (sleep delay w')) + real n * d"
    using Suc.prems cw by (simp add: sleep_clock algebra_simps)
  from Suc.IH [OF d1 this] show ?case
    by (subst (1 2) retry_loop.simps) (simp add: r split: sum.split)
qed

theorem retry_fuel_enough:
  assumes ok: "retry_params_ok p" and mono: "clock_monotone m"
  shows "retry_loop (retry_rounds p + k) p (w_clock w + rp_max_time p) (rp_initial_delay p) m w = retry p m w"
proof -
  let ?d = "min (rp_initial_delay p) (rp_max_delay p)"
  have d: "0 < ?d" using ok by (simp add: retry_params_ok_def)
  have "rp_max_time p / ?d \<le> real (retry_rounds p)"
    unfolding retry_rounds_def by linarith
  then have "rp_max_time p \<le> real (retry_rounds p) * ?d"
    using d by (simp add: pos_divide_le_eq)
  then show ?thesis
    unfolding retry_def using ok d mono
    by (intro retry_loop_fuel [where d = ?d]) (auto simp: retry_params_ok_def)
qed

text \<open>What comes out: a result of some attempt, or an error that may not or need not be retried.\<close>

lemma retry_loop_error:
  assumes mono: "clock_monotone m" and f: "1 \<le> rp_factor p" and d0: "0 < d" and md: "d \<le> rp_max_delay p"
  shows "d \<le> delay \<Longrightarrow> deadline \<le> w_clock w + real n * d \<Longrightarrow>
     retry_loop n p deadline delay m w = (Inl e, w') \<Longrightarrow> \<not> retryable p e \<or> deadline \<le> w_clock w'"
proof (induction n arbitrary: delay w)
  case 0
  have c: "deadline \<le> w_clock (snd (m w))"
    using 0 mono by (auto simp: clock_monotone_def intro: order_trans)
  then show ?case
    using 0(3) by (subst (asm) retry_loop.simps) (auto split: prod.splits sum.splits)
next
  case (Suc n)
  obtain r w1 where r: "m w = (r, w1)" by (cases "m w")
  have cw: "w_clock w \<le> w_clock w1" using mono r by (metis clock_monotone_def snd_conv)
  have "d * 1 \<le> delay * rp_factor p" using Suc.prems(1) f d0 by (intro mult_mono) auto
  then have d1: "d \<le> min (delay * rp_factor p) (rp_max_delay p)" using md by simp
  have dl: "deadline \<le> w_clock (snd (sleep delay w1)) + real n * d"
    using Suc.prems cw by (simp add: sleep_clock algebra_simps)
  show ?case
    using Suc.prems(3) Suc.IH [OF d1 dl]
    by (subst (asm) retry_loop.simps) (auto simp: r split: sum.splits if_splits)
qed

lemma keeps_retry_loop:
  assumes m: "keeps P m" and s: "\<And>w c. P w \<Longrightarrow> P (w\<lparr>w_clock := c\<rparr>)"
  shows "keeps P (retry_loop n p deadline delay m)"
proof (induction n arbitrary: delay)
  case 0
  show ?case
    by (rule keepsI, subst retry_loop.simps) (use keepsD' [OF m] in \<open>auto split: prod.splits sum.splits\<close>)
next
  case (Suc n)
  have sl: "P (snd (sleep d w))" if "P w" for d w using s that by (simp add: sleep_def modifyM_def)
  show ?case
    by (rule keepsI, subst retry_loop.simps)
       (use keepsD' [OF m] keepsD [OF Suc.IH] sl in \<open>auto split: prod.splits sum.splits\<close>)
qed

lemma keeps_retry: "keeps P m \<Longrightarrow> (\<And>w c. P w \<Longrightarrow> P (w\<lparr>w_clock := c\<rparr>)) \<Longrightarrow> keeps P (retry p m)"
  using keeps_retry_loop [of P m] by (auto simp: keeps_def retry_def)

end
