(* ===== verification/Cloud_Manager.thy ===== *)
theory Cloud_Manager
  imports Deployment_Facts Retry
begin

text \<open>
  \<open>infra/cloud/manager.py\<close>: the provisioner that creates a VM, waits for it, sets it up and tears it
  down again on any failure; with \<open>SSHMachineRepository.connect\<close>, which it drives.
\<close>

section \<open>Connecting\<close>

text \<open>\<open>_init_paths\<close> on a POSIX adapter: given paths are kept.\<close>

definition init_paths :: "ppath option \<Rightarrow> ppath option \<Rightarrow> ppath option \<Rightarrow> ppath \<times> ppath \<times> ppath" where
  "init_paths data_dir engines_dir tasks_dir =
     (let d = (case data_dir of None \<Rightarrow> mk_path ''./data'' | Some p \<Rightarrow> p);
          e = (case engines_dir of None \<Rightarrow> path_div d ''engines'' | Some p \<Rightarrow> p);
          t = (case tasks_dir of None \<Rightarrow> path_div d ''tasks'' | Some p \<Rightarrow> p)
      in (d, e, t))"

text \<open>The bastion leg, when the node has a jump host.\<close>

definition tunnel_options :: "node \<Rightarrow> (string \<times> int \<times> string) option" where
  "tunnel_options n = (case n_jump_host n of
      None \<Rightarrow> None
    | Some h \<Rightarrow> if h = '''' then None else Some (h, n_jump_port n, n_jump_username n))"

definition connect_translated :: "exn \<Rightarrow> bool" where
  "connect_translated e = (case e of
      SSHRetryErr _ \<Rightarrow> True | SFTPErr _ \<Rightarrow> True | SFTPRetryErr _ \<Rightarrow> True
    | OSErr _ \<Rightarrow> True | TimeoutErr _ \<Rightarrow> True | ValueError _ \<Rightarrow> True | _ \<Rightarrow> False)"

definition repo_connect_at :: "ppath option \<Rightarrow> ppath option \<Rightarrow> ppath option \<Rightarrow> node \<Rightarrow> ('y, sid) wprog" where
  "repo_connect_at data_dir engines_dir tasks_dir n w =
     (let (outcome, w1) = (case w_conn w of
              [] \<Rightarrow> (Inl (OSErr ''unreachable''), w)
            | c # cs \<Rightarrow> (c, w\<lparr>w_conn := cs\<rparr>))
      in case outcome of
          Inr (platforms, ncpus) \<Rightarrow>
            (case init_paths data_dir engines_dir tasks_dir of
               (d, e, t) \<Rightarrow> register_session n platforms ncpus (path_str d) (path_str e) (path_str t) w1)
        | Inl err \<Rightarrow>
            (Inl (if connect_translated err
                  then MachineConnectionError (n_node_id n) (n_hostname n) (exn_str err) else err), w1))"

text \<open>The call of the daemon, which passes its three remote folders.\<close>

definition repo_connect :: "remote_defaults \<Rightarrow> node \<Rightarrow> ('y, sid) wprog" where
  "repo_connect rd = repo_connect_at (Some (rd_data_dir rd)) (Some (rd_engines_dir rd)) (Some (rd_tasks_dir rd))"

section \<open>The provisioner\<close>

record provisioner =
  pv_adapters :: "(string \<times> adapter) list"
  pv_configs :: "(string \<times> config_cloud) list"
  pv_remote :: remote_defaults
  pv_engines :: engine_repository

definition ops_in_use :: "string \<Rightarrow> 'y world_scheme \<Rightarrow> int" where
  "ops_in_use name w = (case dget (w_ops w) name of None \<Rightarrow> 0 | Some n \<Rightarrow> n)"

definition sem_locked :: "adapter \<Rightarrow> 'y world_scheme \<Rightarrow> bool" where
  "sem_locked a w \<longleftrightarrow> ad_op_limit a \<le> ops_in_use (ad_name a) w"

text \<open>Acquiring waits until another holder has released its slot, so at most \<open>op_limit - 1\<close> are taken
  when it succeeds.\<close>

definition sem_acquire :: "adapter \<Rightarrow> ('y, unit) wprog" where
  "sem_acquire a = modifyM (\<lambda>w. w\<lparr>w_ops :=
     dput (ad_name a) (min (ops_in_use (ad_name a) w) (ad_op_limit a - 1) + 1) (w_ops w)\<rparr>)"

definition sem_release :: "adapter \<Rightarrow> ('y, unit) wprog" where
  "sem_release a = modifyM (\<lambda>w. w\<lparr>w_ops := dput (ad_name a) (ops_in_use (ad_name a) w - 1) (w_ops w)\<rparr>)"

definition select_provider ::
  "provisioner \<Rightarrow> string list \<Rightarrow> (string \<times> int) list \<Rightarrow> 'y world_scheme \<Rightarrow> string option" where
  "select_provider pv platforms counts w =
     (case select_provider_pure (pv_adapters pv) (pv_configs pv) platforms counts of
        None \<Rightarrow> None
      | Some a \<Rightarrow> if sem_locked a w then None else Some (ad_name a))"

text \<open>The cloud API: a created machine exists until it is deleted; a refused call changes nothing.\<close>

definition api_create :: "string \<Rightarrow> ('y, create_dto) wprog" where
  "api_create provider w = (case w_creates w of
      [] \<Rightarrow> (Inl (OtherError ''cloud API unreachable''), w)
    | Inl e # rest \<Rightarrow> (Inl e, w\<lparr>w_creates := rest\<rparr>)
    | Inr dto # rest \<Rightarrow>
        (Inr dto, w\<lparr>w_creates := rest, w_vms := w_vms w @ [(provider, dto_external_id dto)]\<rparr>))"

definition api_delete :: "string \<Rightarrow> string \<Rightarrow> ('y, unit) wprog" where
  "api_delete provider ext w = (case w_deletes w of
      Some e # rest \<Rightarrow> (Inl e, w\<lparr>w_deletes := rest\<rparr>)
    | ds \<Rightarrow> (Inr (), w\<lparr>w_deletes := tl ds, w_vms := filter (\<lambda>v. v \<noteq> (provider, ext)) (w_vms w)\<rparr>))"

definition is_MachineConnectionError :: "exn \<Rightarrow> bool" where
  "is_MachineConnectionError e = (case e of MachineConnectionError _ _ _ \<Rightarrow> True | _ \<Rightarrow> False)"

text \<open>A local or remote wait whose outcome is the next network answer.\<close>

definition env_call :: "('y, string) wprog" where
  "env_call w = (case w_net w of
      [] \<Rightarrow> (Inr [], w)
    | ev # evs \<Rightarrow> (ne_result ev, w\<lparr>w_net := evs\<rparr>))"

definition connect_to_vm :: "provisioner \<Rightarrow> node \<Rightarrow> config_cloud \<Rightarrow> ('y, sid) wprog" where
  "connect_to_vm pv n cfg =
     bindM env_call (\<lambda>keys.
       catchM (retry ((retry_defaults is_MachineConnectionError)\<lparr>rp_max_time := real_of_int (cfg_connect_grace cfg)\<rparr>)
                 (repo_connect (pv_remote pv) n))
         (\<lambda>e. if is_Exception e
              then raiseM (CloudSetupError (''SSH connect to '' @ n_hostname n @ '' failed: '' @ exn_str e))
              else raiseM e))"

definition cloud_init_cmd :: string where
  "cloud_init_cmd = ''cloud-init status --long --wait''"

text \<open>What \<open>session.run\<close> returns: the network answers an \<open>OpRun\<close> with exit code, stdout and stderr,
  separated by NUL; a process without an exit code counts as \<open>-1\<close>.\<close>

definition run_answer :: "string \<Rightarrow> process_result" where
  "run_answer s = (case split_on (char_of (0::nat)) s of
      c # out # err # _ \<Rightarrow> \<lparr>pr_exit_code = (case read_int c of None \<Rightarrow> -1 | Some k \<Rightarrow> k), pr_stdout = out, pr_stderr = err\<rparr>
    | cs \<Rightarrow> \<lparr>pr_exit_code = (case read_int (concat cs) of None \<Rightarrow> -1 | Some k \<Rightarrow> k), pr_stdout = [], pr_stderr = []\<rparr>)"

definition wait_cloud_init :: "sid \<Rightarrow> node \<Rightarrow> adapter \<Rightarrow> ('y, unit) wprog" where
  "wait_cloud_init sid n a =
     bindM (catchM (remote_call sid (OpRun cloud_init_cmd))
             (\<lambda>e. if (case e of TimeoutErr _ \<Rightarrow> True | _ \<Rightarrow> False)
                  then raiseM (CloudSetupError (cloud_init_cmd @ '' timed out on '' @ n_hostname n @ '' after ''
                         @ show_int (ad_create_timeout a) @ ''s''))
                  else if is_Exception e
                  then raiseM (CloudSetupError (cloud_init_cmd @ '' failed on '' @ n_hostname n @ '': '' @ exn_str e))
                  else raiseM e))
       (\<lambda>out. let res = run_answer out in
          if pr_exit_code res = 2 then skipM
          else if pr_exit_code res \<noteq> 0
          then raiseM (CloudSetupError (''cloud-init failed on '' @ n_hostname n @ '': exit='' @ show_int (pr_exit_code res)
                 @ '' stdout='' @ pr_stdout res @ '' stderr='' @ pr_stderr res))
          else skipM)"

text \<open>\<open>SSHMachineSession.setup_node\<close> installs the engines of the session's platforms in one remote call.\<close>

definition session_setup_node :: "sid \<Rightarrow> engine_repository \<Rightarrow> ('y, unit) wprog" where
  "session_setup_node sid engines w =
     thenM (remote_call sid (OpSetup (engines_keys (engines_filter_platforms (ss_platforms (sess w sid)) engines))))
           skipM w"

definition setup_vm :: "provisioner \<Rightarrow> node \<Rightarrow> adapter \<Rightarrow> config_cloud \<Rightarrow> ('y, node) wprog" where
  "setup_vm pv n a cfg =
     bindM (connect_to_vm pv n cfg) (\<lambda>sid.
       thenM (whenM (ad_needs_cloud_init a) (wait_cloud_init sid n a))
      (thenM (catchM (session_setup_node sid (pv_engines pv))
               (\<lambda>e. if is_Exception e
                    then raiseM (CloudSetupError (''Setup node '' @ n_hostname n @ '' failed: '' @ exn_str e))
                    else raiseM e))
             (returnM (n\<lparr>n_enabled := True\<rparr>))))"

definition swallow_all :: "('y, unit) wprog \<Rightarrow> ('y, unit) wprog" where
  "swallow_all m = catchM m (\<lambda>_. skipM)"

definition is_CloudSetupError :: "exn \<Rightarrow> bool" where
  "is_CloudSetupError e = (case e of CloudSetupError _ \<Rightarrow> True | _ \<Rightarrow> False)"

text \<open>The teardown under \<open>except BaseException\<close>: disconnect and delete are both attempted, whatever the
  first one raises.\<close>

definition teardown_vm :: "adapter \<Rightarrow> node \<Rightarrow> create_dto \<Rightarrow> exn \<Rightarrow> ('y, 'a) wprog" where
  "teardown_vm a n dto err =
     thenM (swallow_all (repo_disconnect (n_node_id n)))
    (thenM (swallow_all (api_delete (ad_name a) (dto_external_id dto)))
           (if is_CloudSetupError err \<or> \<not> is_Exception err then raiseM err
            else raiseM (CloudSetupError (''Setup node error: '' @ exn_str err))))"

definition stamp_node :: "node \<Rightarrow> create_dto \<Rightarrow> adapter \<Rightarrow> node" where
  "stamp_node n dto a = n\<lparr>n_hostname := dto_hostname dto, n_external_id := Some (dto_external_id dto),
     n_cloud := Some (ad_name a), n_username := dto_username dto, n_port := dto_port dto,
     n_jump_host := dto_jump_host dto, n_jump_port := dto_jump_port dto, n_jump_username := dto_jump_username dto\<rparr>"

definition allocate_with :: "provisioner \<Rightarrow> adapter \<Rightarrow> config_cloud \<Rightarrow> node \<Rightarrow> ('y, node) wprog" where
  "allocate_with pv a cfg n =
     bindM (catchM (bindM env_call (\<lambda>key. api_create (ad_name a)))
             (\<lambda>e. if is_Exception e then raiseM (CloudAllocateError (''Create node error: '' @ exn_str e))
                  else raiseM e))
       (\<lambda>dto. catchM (setup_vm pv (stamp_node n dto a) a cfg) (teardown_vm a (stamp_node n dto a) dto))"

definition cloud_allocate :: "provisioner \<Rightarrow> string \<Rightarrow> node \<Rightarrow> ('y, node) wprog" where
  "cloud_allocate pv provider n =
     (case dget (pv_adapters pv) provider of
        None \<Rightarrow> raiseM (CloudAllocateError (''Unknown provider: '' @ provider))
      | Some a \<Rightarrow> (case dget (pv_configs pv) provider of
          None \<Rightarrow> raiseM (CloudAllocateError (''Config not found for provider '' @ provider))
        | Some cfg \<Rightarrow> thenM (sem_acquire a) (finallyM (allocate_with pv a cfg n) (sem_release a))))"

definition cloud_deallocate :: "provisioner \<Rightarrow> node \<Rightarrow> ('y, unit) wprog" where
  "cloud_deallocate pv n =
     (case n_cloud n of
        None \<Rightarrow> skipM
      | Some c \<Rightarrow> (case dget (pv_adapters pv) c of
          None \<Rightarrow> skipM
        | Some a \<Rightarrow> (case dget (pv_configs pv) c of
            None \<Rightarrow> skipM
          | Some cfg \<Rightarrow> (case n_external_id n of
              None \<Rightarrow> skipM
            | Some ext \<Rightarrow> api_delete (ad_name a) ext))))"

definition is_platform_supported :: "adapter \<Rightarrow> string \<Rightarrow> bool" where
  "is_platform_supported a p \<longleftrightarrow> list_ex (\<lambda>c. c p) (ad_checks a)"

text \<open>\<open>_get_cloud_config_data\<close>: the packages of the engines that can run on the adapter's platforms.\<close>

definition cloud_config_packages :: "provisioner \<Rightarrow> adapter \<Rightarrow> string list" where
  "cloud_config_packages pv a = get_platform_packages
     (engines_filter (\<lambda>e. (e_platforms e \<noteq> [] \<and> list_ex (is_platform_supported a) (e_platforms e))
                        \<or> e_platforms e = []) (pv_engines pv))"

definition cloud_stop :: "('y, unit) wprog" where
  "cloud_stop = repo_disconnect_all"

end
