(* ===== verification/Cloud_Facts.thy ===== *)
theory Cloud_Facts
  imports Cloud_Manager
begin

text \<open>
  What the provisioner promises: it never touches the database, the bus or the tracker; a successful
  allocation returns the given node, enabled, with the identity of the created VM and a live session;
  a failed one leaves no VM of its own behind unless the provider refuses the deletion, and no session.
\<close>

definition wdata :: "'y world_scheme \<Rightarrow> db \<times> uow \<times> bus \<times> trace \<times> tracker" where
  "wdata w = (st_db w, st_uow w, st_bus w, st_trace w, w_tracker w)"

lemma wdata_wcore: "frames wcore m \<Longrightarrow> frames wdata m"
  by (simp add: frames_def wcore_def wdata_def)

lemma wdata_simps [simp]:
  "wdata (upd_sess sid f w) = wdata w" "wdata (w\<lparr>w_remote := x\<rparr>) = wdata w"
  "wdata (w\<lparr>w_net := n\<rparr>) = wdata w" "wdata (env_close sid w) = wdata w"
  "wdata (w\<lparr>w_next_monitor := k\<rparr>) = wdata w" "wdata (w\<lparr>w_clock := c\<rparr>) = wdata w"
  "wdata (w\<lparr>w_registry := r\<rparr>) = wdata w" "wdata (w\<lparr>w_ops := ps\<rparr>) = wdata w"
  "wdata (w\<lparr>w_conn := cs\<rparr>) = wdata w" "wdata (w\<lparr>st_faults := fs\<rparr>) = wdata w"
  "wdata (w\<lparr>w_heap := h\<rparr>) = wdata w" "wdata (w\<lparr>w_vms := vs\<rparr>) = wdata w"
  "wdata (w\<lparr>w_deletes := ds\<rparr>) = wdata w" "wdata (w\<lparr>w_creates := es\<rparr>) = wdata w"
  by (simp_all add: wdata_def env_close_def upd_sess_def)

lemma frames_retry:
  assumes "frames f m" "\<And>w c. f (w\<lparr>w_clock := c\<rparr>) = f w"
  shows "frames f (retry p m)"
  unfolding frames_iff_keeps
proof
  fix v show "keeps (\<lambda>s. f s = v) (retry p m)"
    by (rule keeps_retry) (use assms in \<open>auto simp: frames_iff_keeps\<close>)
qed

lemma frames_round_trip [frames_intros]: "frames wdata (round_trip :: ('y, unit) wprog)"
  by (auto simp: frames_def round_trip_def split: list.split option.split)

lemma frames_wdata_prims [frames_intros]:
  "frames wdata (remote_call sid op)" "frames wdata env_call" "frames wdata (repo_connect rd n)"
  "frames wdata (sem_acquire a)" "frames wdata (sem_release a)"
  "frames wdata (api_delete pr ext)" "frames wdata (api_create pr)"
  by (auto simp: wdata_wcore frames_remote_call)
     (auto simp: frames_def env_call_def repo_connect_def repo_connect_at_def register_session_def Let_def sem_acquire_def
        sem_release_def modifyM_def api_delete_def api_create_def
        split: list.split sum.split option.split prod.split)

text \<open>A component of the world that neither a session nor the registry is part of survives a close.\<close>

lemma frames_close:
  fixes f :: "'y world_scheme \<Rightarrow> 'c"
  assumes rt: "frames f (round_trip :: ('y, unit) wprog)" and u: "\<And>w g. f (upd_sess sid g w) = f w"
  shows "frames f (session_close sid)"
proof (rule framesI)
  fix w :: "'y world_scheme"
  have "f (snd (round_trip (upd_sess sid g v) :: (exn + unit) \<times> 'y world_scheme)) = f v" for g v
    using framesD [OF rt, of "upd_sess sid g v"] u by simp
  then show "f (snd (session_close sid w)) = f w"
    by (simp add: session_close_def Let_def u)
qed

lemma frames_disconnect:
  fixes f :: "'y world_scheme \<Rightarrow> 'c"
  assumes rt: "frames f (round_trip :: ('y, unit) wprog)" and u: "\<And>sid w g. f (upd_sess sid g w) = f w"
    and r: "\<And>w rs. f (w\<lparr>w_registry := rs\<rparr>) = f w"
  shows "frames f (repo_disconnect nid)"
proof (rule framesI)
  fix w :: "'y world_scheme"
  have "f (snd (session_close sid (w\<lparr>w_registry := rs\<rparr>))) = f w" for sid rs
    using framesD [OF frames_close [OF rt u], of sid "w\<lparr>w_registry := rs\<rparr>"] r by simp
  then show "f (snd (repo_disconnect nid w)) = f w"
    by (simp add: repo_disconnect_def split: option.split)
qed

lemma frames_setup_node:
  fixes f :: "'y world_scheme \<Rightarrow> 'c"
  assumes "\<And>sid op. frames f (remote_call sid op :: ('y, string) wprog)"
  shows "frames f (session_setup_node sid es)"
proof (rule framesI)
  fix w :: "'y world_scheme"
  show "f (snd (session_setup_node sid es w)) = f w"
    unfolding session_setup_node_def by (rule framesD [OF frames_then [OF assms frames_skip]])
qed

lemma frames_wdata_disconnect [frames_intros]: "frames wdata (repo_disconnect nid :: ('y, unit) wprog)"
  by (rule frames_disconnect) (simp_all add: frames_round_trip)

lemma frames_wdata_setup [frames_intros]: "frames wdata (setup_vm pv n a cfg)"
proof -
  have r: "frames wdata (retry p (repo_connect rd n) :: ('y, sid) wprog)" for p rd n
    by (rule frames_retry) (auto intro: frames_intros)
  have s: "frames wdata (session_setup_node sid es :: ('y, unit) wprog)" for sid es
    by (rule frames_setup_node) (rule frames_wdata_prims)
  show ?thesis
    unfolding setup_vm_def connect_to_vm_def wait_cloud_init_def Let_def
    by (intro frames_intros r s)
qed

lemma frames_wdata_allocate [frames_intros]: "frames wdata (cloud_allocate pv provider n)"
  unfolding cloud_allocate_def allocate_with_def teardown_vm_def swallow_all_def
  by (intro frames_intros)

lemma frames_wdata_deallocate [frames_intros]: "frames wdata (cloud_deallocate pv n)"
  unfolding cloud_deallocate_def by (intro frames_intros)

section \<open>The VMs\<close>

lemma vms_simps [simp]:
  "w_vms (upd_sess sid f w) = w_vms w" "w_vms (env_close sid w) = w_vms w"
  "w_deletes (upd_sess sid f w) = w_deletes w" "w_deletes (env_close sid w) = w_deletes w"
  by (simp_all add: env_close_def upd_sess_def)

definition cloud_state :: "'y world_scheme \<Rightarrow> (string \<times> string) list \<times> exn option list" where
  "cloud_state w = (w_vms w, w_deletes w)"

lemma cloud_state_clock [simp]: "cloud_state (w\<lparr>w_clock := c\<rparr>) = cloud_state w"
  by (simp add: cloud_state_def)

lemma frames_cloud_prims [frames_intros]:
  "frames cloud_state (remote_call sid op)" "frames cloud_state env_call"
  "frames cloud_state (repo_connect rd n)" "frames cloud_state (sem_acquire a)"
  "frames cloud_state (sem_release a)" "frames cloud_state (round_trip :: ('y, unit) wprog)"
  by (auto simp: frames_def cloud_state_def remote_call_def env_call_def repo_connect_def repo_connect_at_def
        register_session_def Let_def sem_acquire_def sem_release_def modifyM_def round_trip_def
        split: list.split sum.split option.split prod.split)

lemma frames_cloud_disconnect [frames_intros]: "frames cloud_state (repo_disconnect nid :: ('y, unit) wprog)"
  by (rule frames_disconnect) (simp_all add: frames_cloud_prims cloud_state_def)

lemma frames_cloud_setup [frames_intros]: "frames cloud_state (setup_vm pv n a cfg)"
proof -
  have r: "frames cloud_state (retry p (repo_connect rd n) :: ('y, sid) wprog)" for p rd n
    by (rule frames_retry) (auto intro: frames_intros)
  have s: "frames cloud_state (session_setup_node sid es :: ('y, unit) wprog)" for sid es
    by (rule frames_setup_node) (rule frames_cloud_prims)
  show ?thesis
    unfolding setup_vm_def connect_to_vm_def wait_cloud_init_def Let_def
    by (intro frames_intros r s)
qed

text \<open>The create call, with its translation of errors.\<close>

definition create_step :: "adapter \<Rightarrow> ('y, create_dto) wprog" where
  "create_step a = catchM (bindM env_call (\<lambda>key. api_create (ad_name a)))
     (\<lambda>e. if is_Exception e then raiseM (CloudAllocateError (''Create node error: '' @ exn_str e)) else raiseM e)"

lemma create_step_cases:
  assumes "create_step a w = (r, w')"
  shows "(\<exists>dto. r = Inr dto \<and> w_vms w' = w_vms w @ [(ad_name a, dto_external_id dto)] \<and> w_deletes w' = w_deletes w)
    \<or> (\<exists>e. r = Inl e \<and> cloud_state w' = cloud_state w \<and> (e = CancelledError \<or> (\<exists>m. e = CloudAllocateError m)))"
proof (cases "env_call w")
  case (Pair k w1)
  have c: "cloud_state w1 = cloud_state w" using framesD' [OF frames_cloud_prims(2) Pair] .
  show ?thesis
  proof (cases k)
    case (Inl e)
    then show ?thesis using assms Pair c
      by (auto simp: create_step_def catchM_def bindM_def raiseM_def is_Exception_def split: if_splits)
  next
    case (Inr key)
    then have "catchM (api_create (ad_name a))
       (\<lambda>e. if is_Exception e then raiseM (CloudAllocateError (''Create node error: '' @ exn_str e)) else raiseM e) w1 = (r, w')"
      using assms Pair by (simp add: create_step_def catchM_def bindM_def)
    then show ?thesis using c
      by (auto simp: catchM_def api_create_def raiseM_def is_Exception_def cloud_state_def
          split: list.splits sum.splits if_splits)
  qed
qed

lemma teardown_vms:
  assumes ok: "\<forall>d \<in> set (w_deletes w). d = None"
    and run: "teardown_vm a n dto err w = (r, w')"
  shows "w_vms w' = filter (\<lambda>v. v \<noteq> (ad_name a, dto_external_id dto)) (w_vms w) \<and>
     r = Inl (if is_CloudSetupError err \<or> \<not> is_Exception err then err
              else CloudSetupError (''Setup node error: '' @ exn_str err))"
proof -
  obtain q w1 where q: "repo_disconnect (n_node_id n) w = (q, w1)" by (cases "repo_disconnect (n_node_id n) w")
  have c1: "w_vms w1 = w_vms w" "w_deletes w1 = w_deletes w"
    using framesD' [OF frames_cloud_disconnect q] by (simp_all add: cloud_state_def)
  obtain q2 w2 where q2: "api_delete (ad_name a) (dto_external_id dto) w1 = (q2, w2)"
    by (cases "api_delete (ad_name a) (dto_external_id dto) w1")
  have d: "w_vms w2 = filter (\<lambda>v. v \<noteq> (ad_name a, dto_external_id dto)) (w_vms w)"
    using q2 c1 ok by (auto simp: api_delete_def split: list.splits option.splits)
  show ?thesis
    using run q q2 d
    by (auto simp: teardown_vm_def swallow_all_def monad_simps split: sum.splits if_splits)
qed

lemma setup_vm_Inr: "setup_vm pv n a cfg w = (Inr n', w') \<Longrightarrow> n' = n\<lparr>n_enabled := True\<rparr>"
  by (auto simp: setup_vm_def monad_simps split: prod.splits sum.splits if_splits)

lemma allocate_with_alt:
  "allocate_with pv a cfg n =
     bindM (create_step a) (\<lambda>dto. catchM (setup_vm pv (stamp_node n dto a) a cfg) (teardown_vm a (stamp_node n dto a) dto))"
  by (simp add: allocate_with_def create_step_def)

lemma allocate_with_outcome:
  assumes ok: "\<forall>d \<in> set (w_deletes w). d = None"
    and run: "allocate_with pv a cfg n w = (r, w')"
  shows "case r of
      Inr n' \<Rightarrow> \<exists>dto. n' = (stamp_node n dto a)\<lparr>n_enabled := True\<rparr>
                  \<and> w_vms w' = w_vms w @ [(ad_name a, dto_external_id dto)]
    | Inl e \<Rightarrow> set (w_vms w') \<subseteq> set (w_vms w)
        \<and> (e = CancelledError \<or> (\<exists>m. e = CloudAllocateError m \<or> e = CloudSetupError m))"
proof (cases "create_step a w")
  case (Pair q w1)
  note C = create_step_cases [OF Pair]
  show ?thesis
  proof (cases q)
    case (Inl e)
    then have "r = Inl e" "w' = w1" using run Pair by (simp_all add: allocate_with_alt bindM_def)
    then show ?thesis using C Inl by (auto simp: cloud_state_def)
  next
    case (Inr dto)
    then have vm: "w_vms w1 = w_vms w @ [(ad_name a, dto_external_id dto)]" "w_deletes w1 = w_deletes w"
      using C by auto
    let ?n = "stamp_node n dto a"
    obtain q2 w2 where q2: "setup_vm pv ?n a cfg w1 = (q2, w2)" by (cases "setup_vm pv ?n a cfg w1")
    have vm2: "w_vms w2 = w_vms w1" "w_deletes w2 = w_deletes w1"
      using framesD' [OF frames_cloud_setup q2] by (simp_all add: cloud_state_def)
    have rest: "(case q2 of Inl e \<Rightarrow> teardown_vm a ?n dto e w2 | Inr x \<Rightarrow> (Inr x, w2)) = (r, w')"
      using run Pair Inr q2 by (simp add: allocate_with_alt bindM_def catchM_def split: sum.splits)
    show ?thesis
    proof (cases q2)
      case (Inl e)
      then have t: "teardown_vm a ?n dto e w2 = (r, w')" using rest by simp
      note T = teardown_vms [OF _ t]
      have "\<forall>d \<in> set (w_deletes w2). d = None" using ok vm vm2 by simp
      from T [OF this] show ?thesis
        using vm vm2 by (cases e) (auto simp: is_CloudSetupError_def is_Exception_def)
    next
      case (Inr n')
      then show ?thesis
        using rest setup_vm_Inr [of pv ?n a cfg w1 n' w2] q2 vm vm2 by auto
    qed
  qed
qed

text \<open>The semaphore slot is returned on every exit, and never are more than \<open>op_limit\<close> taken.\<close>

lemma sem_frame:
  "w_ops (snd (sem_acquire a w)) = dput (ad_name a) (min (ops_in_use (ad_name a) w) (ad_op_limit a - 1) + 1) (w_ops w)"
  by (simp add: sem_acquire_def modifyM_def)

theorem cloud_allocate_outcome:
  assumes ok: "\<forall>d \<in> set (w_deletes w). d = None"
    and run: "cloud_allocate pv provider n w = (r, w')"
  shows "case r of
      Inr n' \<Rightarrow> \<exists>a cfg dto. dget (pv_adapters pv) provider = Some a \<and> dget (pv_configs pv) provider = Some cfg
          \<and> n' = (stamp_node n dto a)\<lparr>n_enabled := True\<rparr>
          \<and> w_vms w' = w_vms w @ [(ad_name a, dto_external_id dto)]
    | Inl e \<Rightarrow> set (w_vms w') \<subseteq> set (w_vms w)
        \<and> (e = CancelledError \<or> (\<exists>m. e = CloudAllocateError m \<or> e = CloudSetupError m))"
proof (cases "dget (pv_adapters pv) provider")
  case None
  then show ?thesis using run by (auto simp: cloud_allocate_def raiseM_def)
next
  case a: (Some a)
  show ?thesis
  proof (cases "dget (pv_configs pv) provider")
    case None
    then show ?thesis using run a by (auto simp: cloud_allocate_def raiseM_def)
  next
    case (Some cfg)
    let ?w0 = "snd (sem_acquire a w)"
    have w0: "w_vms ?w0 = w_vms w" "w_deletes ?w0 = w_deletes w"
      by (simp_all add: sem_acquire_def modifyM_def)
    obtain q w1 where q: "allocate_with pv a cfg n ?w0 = (q, w1)" by (cases "allocate_with pv a cfg n ?w0")
    have "r = q" "w_vms w' = w_vms w1"
      using run a Some q
      by (auto simp: cloud_allocate_def thenM_def bindM_def finallyM_def sem_acquire_def sem_release_def modifyM_def)
    moreover have "\<forall>d \<in> set (w_deletes ?w0). d = None" using ok w0 by simp
    ultimately show ?thesis
      using allocate_with_outcome [OF _ q] w0 a Some by (cases q) auto
  qed
qed

lemma select_provider_Some:
  "select_provider pv ps counts w = Some name \<Longrightarrow>
     \<exists>a. a \<in> set (suitable_adapters (pv_adapters pv) (pv_configs pv) ps counts) \<and> ad_name a = name
        \<and> ops_in_use name w < ad_op_limit a"
  by (auto simp: select_provider_def sem_locked_def dest: select_provider_pure_Some(1)
      split: option.splits if_splits)

end
