(* ===== verification/Start_Task.thy ===== *)
theory Start_Task
  imports Uow_Blocks Cloud_Facts
begin

text \<open>
  \<open>Orchestrator._start_task_on_machine\<close> (\<open>application/orchestrator.py\<close>): the bridge between the
  allocator and the deployer, and the interface \<open>task_starter\<close> through which the allocator sees it.
\<close>

text \<open>The node's CPU count comes from a unit of work of its own (the allocator's is still open), else
  from the machine.  A started task is RUNNING, so it has a node.\<close>

definition orch_start_task ::
  "(session \<Rightarrow> exn + int) \<Rightarrow> (pyval \<Rightarrow> string) \<Rightarrow> (string \<Rightarrow> string) \<Rightarrow> ppath
    \<Rightarrow> sid \<Rightarrow> engine \<Rightarrow> task \<Rightarrow> ('y, bool) wprog" where
  "orch_start_task discover repr quote engines_dir sid e t =
     bindM (nested (with_uow (case allocated_node_id_of t of
              None \<Rightarrow> raiseM (OtherError ''allocated_node_id'')
            | Some nid \<Rightarrow> nodes_get_by_id nid)))
       (\<lambda>node. bindM (case node of
              Some n \<Rightarrow> (case n_ncpus n of Some c \<Rightarrow> returnM c | None \<Rightarrow> session_get_cpu_cores discover sid)
            | None \<Rightarrow> session_get_cpu_cores discover sid)
         (\<lambda>ncpus. deployer_start repr quote sid e t ncpus engines_dir))"

text \<open>What the allocator relies on: a start leaves the store, the unit of work and the tracker alone,
  answers \<open>True\<close> if it answers, and then leaves the machine BUSY; a failed one leaves it FREE, closed
  or untouched.  Only the machine of the session it is given is concerned.\<close>

locale task_starter =
  fixes start :: "sid \<Rightarrow> engine \<Rightarrow> task \<Rightarrow> ('y, bool) wprog"
  assumes start_frame: "frames wdata (start sid e t)"
    and start_machine: "sid < length (w_heap w) \<Longrightarrow> start sid e t w = (r, w') \<Longrightarrow>
      length (w_heap w') = length (w_heap w) \<and> (\<forall>x. x \<noteq> sid \<longrightarrow> sess w' x = sess w x)
      \<and> (case r of
           Inr b \<Rightarrow> b \<and> m_state (ss_machine (sess w sid)) = FREE \<and> m_state (ss_machine (sess w' sid)) = BUSY
         | Inl _ \<Rightarrow> ss_machine (sess w' sid) = ss_machine (sess w sid) \<or> ss_closed (sess w' sid)
                   \<or> m_state (ss_machine (sess w' sid)) = FREE)"
begin

lemma start_store: "frames store_view (start sid e t)"
proof (rule framesI)
  fix w
  show "store_view (snd (start sid e t w)) = store_view w"
    using framesD [OF start_frame, of sid e t w] by (simp add: wdata_def store_view_def)
qed

lemma start_run: "tx_run (start sid e t) rel_keep"
  by (rule tx_run_frame) (rule start_store)

end

lemma frames_get_cpu_cores:
  "frames wdata (session_get_cpu_cores discover sid)"
  by (auto simp: frames_def session_get_cpu_cores_def split: option.split sum.split)

lemma reads_allocated_node:
  "reads (case x of None \<Rightarrow> raiseM e | Some nid \<Rightarrow> nodes_get_by_id nid)"
  by (cases x) (simp_all add: reads_intros)

lemma world_more_sess:
  "store.more w = store.more (w' :: 'y world_scheme) \<Longrightarrow> w_heap w = w_heap w' \<and> w_tracker w = w_tracker w'
     \<and> w_registry w = w_registry w' \<and> w_clock w = w_clock w' \<and> w_remote w = w_remote w' \<and> w_vms w = w_vms w'"
  by (cases w; cases w') simp

lemma nested_node_frame:
  fixes w :: "'y world_scheme"
  assumes "nested (with_uow (case x of None \<Rightarrow> raiseM e | Some nid \<Rightarrow> nodes_get_by_id nid)) w = (r, w')"
  shows "wdata w' = wdata w" "w_heap w' = w_heap w"
  using nested_read_frame [OF reads_allocated_node assms] world_more_sess [of w' w]
  by (simp_all add: wdata_def store_view_def)

text \<open>Reading the CPU count memoises it at most.\<close>

lemma get_cpu_cores_sess:
  assumes "session_get_cpu_cores discover sid w = (r, w')" "sid < length (w_heap w)"
  shows "length (w_heap w') = length (w_heap w)" "ss_machine (sess w' sid) = ss_machine (sess w sid)"
    "ss_closed (sess w' sid) = ss_closed (sess w sid)" "x \<noteq> sid \<Longrightarrow> sess w' x = sess w x"
  using assms by (auto simp: session_get_cpu_cores_def split: option.splits sum.splits)

interpretation orch_starter: task_starter "orch_start_task discover repr quote engines_dir"
  for discover repr quote engines_dir
proof
  fix sid e t
  show "frames wdata (orch_start_task discover repr quote engines_dir sid e t :: ('y, bool) wprog)"
  proof -
    have n: "frames wdata (nested (with_uow (case x of None \<Rightarrow> raiseM er | Some nid \<Rightarrow> nodes_get_by_id nid)) :: ('y, node option) wprog)"
      for x er by (rule framesI) (metis nested_node_frame(1) prod.collapse)
    have d: "frames wdata (deployer_start repr quote sid e t c engines_dir :: ('y, bool) wprog)" for c
      by (intro wdata_wcore frames_deployer_start)
    show ?thesis
      unfolding orch_start_task_def
      by (intro frames_bind n d frames_option frames_return frames_get_cpu_cores)
  qed
next
  fix sid e t r and w w' :: "'y world_scheme"
  assume lt: "sid < length (w_heap w)" and run: "orch_start_task discover repr quote engines_dir sid e t w = (r, w')"
  let ?goal = "length (w_heap w') = length (w_heap w) \<and> (\<forall>x. x \<noteq> sid \<longrightarrow> sess w' x = sess w x)
      \<and> (case r of
           Inr b \<Rightarrow> b \<and> m_state (ss_machine (sess w sid)) = FREE \<and> m_state (ss_machine (sess w' sid)) = BUSY
         | Inl _ \<Rightarrow> ss_machine (sess w' sid) = ss_machine (sess w sid) \<or> ss_closed (sess w' sid)
                   \<or> m_state (ss_machine (sess w' sid)) = FREE)"
  show ?goal
    using run unfolding orch_start_task_def
  proof (cases rule: bindM_cases)
    case (1 err)
    then show ?thesis using nested_node_frame(2) [OF 1(1)] by (simp add: sess_def)
  next
    case N: (2 node w1)
    have h1: "w_heap w1 = w_heap w" using nested_node_frame(2) [OF N(1)] .
    let ?cpu = "case node of Some n \<Rightarrow> (case n_ncpus n of Some c \<Rightarrow> returnM c | None \<Rightarrow> session_get_cpu_cores discover sid)
            | None \<Rightarrow> session_get_cpu_cores discover sid"
    have cpu: "length (w_heap w2) = length (w_heap w) \<and> ss_machine (sess w2 sid) = ss_machine (sess w sid)
        \<and> (\<forall>x. x \<noteq> sid \<longrightarrow> sess w2 x = sess w x)"
      if "?cpu w1 = (c, w2)" for c w2
      using that get_cpu_cores_sess [of discover sid w1 c w2] lt h1
      by (auto simp: sess_def returnM_def split: option.splits)
    show ?thesis
      using N(2)
    proof (cases rule: bindM_cases)
      case (1 err)
      then show ?thesis using cpu [OF 1(1)] by simp
    next
      case C: (2 c w2)
      note K = cpu [OF C(1)]
      have lt2: "sid < length (w_heap w2)" using K lt by simp
      note D = deployer_start_machine [OF lt2 C(2)]
      show ?thesis
      proof (cases r)
        case (Inl err)
        have "w' = w2 \<or> ss_closed (sess w' sid) \<or> m_state (ss_machine (sess w' sid)) = FREE"
          using D Inl by blast
        then show ?thesis using Inl D K by auto
      next
        case (Inr b)
        then show ?thesis using D K by auto
      qed
    qed
  qed
qed

end
