(* ===== verification/Allocate.thy ===== *)
theory Allocate
  imports Start_Task Paths
begin

text \<open>
  \<open>application/allocate_task.py\<close>: a TO_DO task is given to a free compatible machine, or a cloud node
  is provisioned for it.

  The port \<open>CloudProvisioner\<close> is a record of its three operations; \<open>cloud_port_of\<close> fills it with the
  provisioner of \<open>Cloud_Manager\<close>.  The allocation lock makes \<open>select_and_insert_tmp\<close> atomic between
  tasks: here it is one computation.
\<close>

record 'y cloud_port =
  cp_select :: "string list \<Rightarrow> (string \<times> int) list \<Rightarrow> 'y world_scheme \<Rightarrow> string option"
  cp_allocate :: "string \<Rightarrow> node \<Rightarrow> ('y, node) wprog"
  cp_deallocate :: "node \<Rightarrow> ('y, unit) wprog"

definition cloud_port_of :: "provisioner \<Rightarrow> 'y cloud_port" where
  "cloud_port_of pv = \<lparr>cp_select = select_provider pv, cp_allocate = cloud_allocate pv,
                       cp_deallocate = cloud_deallocate pv\<rparr>"

section \<open>The operations\<close>

definition validate_engine :: "engine_repository \<Rightarrow> task \<Rightarrow> ('y, engine option) wprog" where
  "validate_engine engines t =
     (case (if t_engine t \<noteq> '''' then engines_get engines (t_engine t) else None) of
        Some e \<Rightarrow> returnM (Some e)
      | None \<Rightarrow>
          bindM (fromSum (reject_task t ''unsupported engine'')) (\<lambda>rejected.
            thenM (with_uow (thenM (tasks_save rejected None) uow_commit)) (returnM None)))"

definition remote_folder_for :: "ppath \<Rightarrow> task \<Rightarrow> string" where
  "remote_folder_for tasks_dir t =
     path_str (path_div tasks_dir (stamp (t_created_at t) @ ''_'' @ show_int (tid_value (t_task_id t))))"

definition discard_slot :: "task_id \<Rightarrow> ('y, unit) wprog" where
  "discard_slot tid = modifyM (\<lambda>w. w\<lparr>w_tracker := tracker_discard tid (w_tracker w)\<rparr>)"

text \<open>The claim is saved under its guard before the spawn, and committed after it.\<close>

definition claim_and_start ::
  "(sid \<Rightarrow> engine \<Rightarrow> task \<Rightarrow> ('y, bool) wprog) \<Rightarrow> sid \<Rightarrow> engine \<Rightarrow> task \<Rightarrow> ('y, bool) wprog" where
  "claim_and_start start sid e running =
     with_uow (bindM (thenM (tasks_save running (Some TO_DO)) (start sid e running))
       (\<lambda>ok. if ok then thenM uow_commit (returnM True) else thenM uow_rollback (returnM False)))"

definition try_start_on_machine ::
  "(sid \<Rightarrow> engine \<Rightarrow> task \<Rightarrow> ('y, bool) wprog) \<Rightarrow> ppath \<Rightarrow> sid \<Rightarrow> node \<Rightarrow> engine \<Rightarrow> task \<Rightarrow> ('y, bool) wprog" where
  "try_start_on_machine start tasks_dir sid n e t =
     bindM (fromSum (run_task t (n_node_id n) (remote_folder_for tasks_dir t))) (\<lambda>running.
       bindM (claim_and_start start sid e running) (\<lambda>ok.
         if ok then thenM (start_occupancy_check sid e)
                   (thenM (discard_slot (t_task_id running)) (returnM True))
         else returnM False))"

definition free_pairs :: "task list \<Rightarrow> node list \<Rightarrow> engine \<Rightarrow> 'y world_scheme \<Rightarrow> (sid \<times> node) list" where
  "free_pairs running enabled e w =
     (let busy = map allocated_node_id_of running;
          by_id = foldl (\<lambda>d n. dput (n_node_id n) n d) [] enabled
      in concat (map (\<lambda>sid. (let nid = m_node_id (ss_machine (sess w sid)) in
            case dget by_id nid of
              None \<Rightarrow> []
            | Some n \<Rightarrow> if List.member busy (Some nid) then [] else [(sid, n)]))
          (repo_list_free (Some (e_platforms e)) w)))"

definition find_free_machines :: "engine \<Rightarrow> ('y, (sid \<times> node) list) wprog" where
  "find_free_machines e =
     bindM (with_uow (bindM (tasks_list_running None) (\<lambda>running.
              bindM nodes_list_enabled (\<lambda>enabled. returnM (running, enabled)))))
       (\<lambda>(running, enabled). getsM (free_pairs running enabled e))"

fun try_machines ::
  "(sid \<Rightarrow> engine \<Rightarrow> task \<Rightarrow> ('y, bool) wprog) \<Rightarrow> ppath \<Rightarrow> task \<Rightarrow> engine \<Rightarrow> (sid \<times> node) list \<Rightarrow> ('y, bool) wprog" where
  "try_machines start tasks_dir t e [] = returnM False"
| "try_machines start tasks_dir t e ((sid, n) # rest) =
     bindM (attemptM (try_start_on_machine start tasks_dir sid n e t)) (\<lambda>out. case out of
         Inr True \<Rightarrow> returnM True
       | Inr False \<Rightarrow> try_machines start tasks_dir t e rest
       | Inl err \<Rightarrow> if is_Exception err then try_machines start tasks_dir t e rest else raiseM err)"

definition allocate_free_machine ::
  "(sid \<Rightarrow> engine \<Rightarrow> task \<Rightarrow> ('y, bool) wprog) \<Rightarrow> ppath \<Rightarrow> task \<Rightarrow> engine \<Rightarrow> ('y, bool) wprog" where
  "allocate_free_machine start tasks_dir t e =
     bindM (find_free_machines e) (try_machines start tasks_dir t e)"

definition count_nodes_by_cloud :: "node list \<Rightarrow> (string \<times> int) list" where
  "count_nodes_by_cloud ns = foldl (\<lambda>counts n. case n_cloud n of
       None \<Rightarrow> counts
     | Some c \<Rightarrow> if c = '''' then counts
                 else dput c ((case dget counts c of None \<Rightarrow> 0 | Some k \<Rightarrow> k) + 1) counts) [] ns"

definition tmp_node_for :: "string \<Rightarrow> new_node" where
  "tmp_node_for name = new_node_default\<lparr>nn_cloud := Some name, nn_enabled := False\<rparr>"

definition select_and_insert_tmp :: "'y cloud_port \<Rightarrow> engine \<Rightarrow> ('y, (string \<times> node) option) wprog" where
  "select_and_insert_tmp cp e =
     with_uow (bindM nodes_list_all (\<lambda>ns.
       bindM (getsM (cp_select cp (e_platforms e) (count_nodes_by_cloud ns))) (\<lambda>sel. case sel of
           None \<Rightarrow> returnM None
         | Some name \<Rightarrow> bindM (nodes_insert (tmp_node_for name)) (\<lambda>n.
             thenM uow_commit (returnM (Some (name, n)))))))"

text \<open>Both handlers of \<open>_cleanup_tmp_node_best_effort\<close> only log.\<close>

definition cleanup_tmp_node :: "node_id \<Rightarrow> ('y, unit) wprog" where
  "cleanup_tmp_node nid = suppress (with_uow (thenM (nodes_remove nid) uow_commit))"

definition allocate_cloud_node :: "'y cloud_port \<Rightarrow> string \<Rightarrow> node \<Rightarrow> ('y, node) wprog" where
  "allocate_cloud_node cp name tmp =
     catchM (cp_allocate cp name tmp)
       (\<lambda>err. if is_Exception err then thenM (cleanup_tmp_node (n_node_id tmp)) (raiseM err) else raiseM err)"

definition persist_node_with_cleanup :: "'y cloud_port \<Rightarrow> node \<Rightarrow> node_id \<Rightarrow> ('y, unit) wprog" where
  "persist_node_with_cleanup cp n tmp_id =
     catchM (with_uow (thenM (nodes_update n) uow_commit))
       (\<lambda>err. thenM (suppress (cp_deallocate cp n)) (thenM (cleanup_tmp_node tmp_id) (raiseM err)))"

definition add_slot :: "task_id \<Rightarrow> ('y, bool) wprog" where
  "add_slot tid w = (case tracker_add tid None (w_tracker w) of (b, tr) \<Rightarrow> (Inr b, w\<lparr>w_tracker := tr\<rparr>))"

definition link_slot :: "task_id \<Rightarrow> node_id \<Rightarrow> ('y, unit) wprog" where
  "link_slot tid nid = modifyM (\<lambda>w. w\<lparr>w_tracker := tracker_set_node tid nid (w_tracker w)\<rparr>)"

text \<open>The \<open>finally\<close> block when the node was not allocated.\<close>

definition release_slot :: "task_id \<Rightarrow> node_id option \<Rightarrow> ('y, unit) wprog" where
  "release_slot tid tmp = thenM (discard_slot tid) (case tmp of None \<Rightarrow> skipM | Some nid \<Rightarrow> cleanup_tmp_node nid)"

definition provision_node :: "'y cloud_port \<Rightarrow> engine \<Rightarrow> task_id \<Rightarrow> ('y, bool) wprog" where
  "provision_node cp e tid =
     bindM (attemptM (select_and_insert_tmp cp e)) (\<lambda>sel. case sel of
         Inl err \<Rightarrow> thenM (release_slot tid None) (raiseM err)
       | Inr None \<Rightarrow> thenM (release_slot tid None) (returnM False)
       | Inr (Some (name, tmp)) \<Rightarrow>
           thenM (link_slot tid (n_node_id tmp))
             (bindM (attemptM (bindM (allocate_cloud_node cp name tmp)
                                (\<lambda>n. persist_node_with_cleanup cp n (n_node_id tmp)))) (\<lambda>out. case out of
                 Inl err \<Rightarrow> thenM (release_slot tid (Some (n_node_id tmp))) (raiseM err)
               | Inr _ \<Rightarrow> returnM False)))"

definition allocate_task ::
  "'y cloud_port \<Rightarrow> (sid \<Rightarrow> engine \<Rightarrow> task \<Rightarrow> ('y, bool) wprog) \<Rightarrow> engine_repository \<Rightarrow> ppath
     \<Rightarrow> task_id \<Rightarrow> ('y, bool) wprog" where
  "allocate_task cp start engines tasks_dir tid =
     bindM (with_uow (tasks_get_todo tid)) (\<lambda>found. case found of
         None \<Rightarrow> returnM False
       | Some t \<Rightarrow> bindM (validate_engine engines t) (\<lambda>eng. case eng of
           None \<Rightarrow> returnM False
         | Some e \<Rightarrow> bindM (allocate_free_machine start tasks_dir t e) (\<lambda>ok.
             if ok then returnM True
             else if e_platforms e = [] then returnM False
             else bindM (add_slot (t_task_id t)) (\<lambda>fresh.
               if fresh then provision_node cp e (t_task_id t) else returnM False))))"

end
