(* ===== verification/Allocate_Facts.thy ===== *)
theory Allocate_Facts
  imports Allocate
begin

text \<open>
  What the allocator promises.  A machine that is tried was free, compatible, enabled in the database
  and not held by a RUNNING task; a successful try has moved the task's row from TO_DO to RUNNING on that
  node, in one commit, and left the machine BUSY; every other outcome leaves the database as it was; and
  a claim that is lost never reaches the spawn.
\<close>

section \<open>The claim\<close>

text \<open>The effect of saving \<open>t\<close> under the guard TO_DO: one row was TO_DO and now holds \<open>t\<close>.\<close>

definition claimed :: "task \<Rightarrow> db \<Rightarrow> db \<Rightarrow> bool" where
  "claimed t d d' \<longleftrightarrow>
     (\<exists>r \<in> set (d_tasks d). r_task_id r = tid_value (t_task_id t) \<and> r_status r = TO_DO)
   \<and> d_tasks d' = map (\<lambda>r. if r_task_id r = tid_value (t_task_id t) \<and> r_status r = TO_DO
                          then updated_row d (task_to_row t) r else r) (d_tasks d)
   \<and> d_nodes d' = d_nodes d"

lemma claimed_rows: "rows_of d0 = rows_of d \<Longrightarrow> claimed t d d' \<Longrightarrow> claimed t d0 d'"
  by (simp add: claimed_def rows_of_def updated_row_def)

lemma a_save_claimed:
  assumes "a_save t (Some TO_DO) (d, ts) = (Inr u, (d', ts'))"
  shows "claimed t d d'" "ts' = ts @ [t]"
proof -
  obtain rows where q: "sql_task_update (task_to_row t) (Some TO_DO) d = (Inr rows, d')" "rows \<noteq> []" "ts' = ts @ [t]"
    using assms unfolding a_save_Inr by auto
  note S = sql_task_update_Inr [OF q(1,2)]
  have "r_task_id (task_to_row t) = tid_value (t_task_id t)" by (simp add: task_to_row_def)
  then show "claimed t d d'" using S by (auto simp: claimed_def update_matches_def)
  show "ts' = ts @ [t]" using q by simp
qed

text \<open>Events handed over after a commit: all of them, or a part when the coroutine is cancelled.\<close>

definition published :: "task list \<Rightarrow> 'x store_scheme \<Rightarrow> 'x store_scheme \<Rightarrow> bool" where
  "published ts s s' \<longleftrightarrow> st_trace s' = st_trace s @ calls (st_bus s) (events_of ts)"

definition partly_published :: "task list \<Rightarrow> 'x store_scheme \<Rightarrow> 'x store_scheme \<Rightarrow> bool" where
  "partly_published ts s s' \<longleftrightarrow>
     (\<exists>cs. st_trace s' = st_trace s @ cs \<and> (\<forall>c \<in> set cs. snd c \<in> set (events_of ts)))"

lemma published_visible:
  "visible s1 = visible s \<Longrightarrow> published ts s1 s' = published ts s s'"
  "visible s1 = visible s \<Longrightarrow> partly_published ts s1 s' = partly_published ts s s'"
  by (simp_all add: published_def partly_published_def visible_def)

lemma claim_and_start_outcome:
  fixes w w' :: "'y world_scheme"
  assumes st: "tx_run (start sid e t) rel_keep" and run: "claim_and_start start sid e t w = (r, w')"
  shows "(visible w' = visible w \<and> r \<noteq> Inr True) \<or>
     (claimed t (st_db w) (st_db w') \<and> st_bus w' = st_bus w \<and>
        ((r = Inr True \<and> published [t] w w') \<or> (r = Inl CancelledError \<and> partly_published [t] w w')))"
proof -
  let ?R = "rel_bind (of_txn (a_save t (Some TO_DO))) (\<lambda>_. rel_keep :: bool txrel)"
  let ?k = "\<lambda>ok. if ok then thenM uow_commit (returnM True) else thenM uow_rollback (returnM False) :: ('y, bool) wprog"
  have ops: "tx_run (thenM (tasks_save t (Some TO_DO)) (start sid e t)) ?R"
    by (intro run_intros tx_run_den tx_intros st)
  have rb: "visible (snd (thenM uow_rollback (returnM False) v)) = visible v" for v :: "'y world_scheme"
    using silentD(1) [OF silent_rollback, of v] by (cases "uow_rollback v") (auto simp: thenM_def bindM_def returnM_def split: sum.split)
  have "block_result ?R (\<lambda>ok. ok) ?k (\<lambda>_. True) w r w'"
    by (rule with_uow_block [OF ops _ _ run [unfolded claim_and_start_def]]) (simp_all add: rb)
  then show ?thesis
  proof (unfold block_result_def, elim conjE disjE exE)
    assume "visible w' = visible w" and r: "\<forall>b. r = Inr b \<longrightarrow> (\<exists>a x t. ?R (st_db w, []) a x \<and> \<not> a \<and> fst (?k a t) = Inr b)"
    moreover have "r \<noteq> Inr True"
    proof
      assume "r = Inr True"
      then obtain v :: "'y world_scheme" where "fst (thenM uow_rollback (returnM False) v) = Inr True" using r by auto
      then show False by (cases "uow_rollback v") (auto simp: thenM_def bindM_def returnM_def split: sum.splits)
    qed
    ultimately show ?thesis by blast
  next
    fix a d ts
    assume b: "st_bus w' = st_bus w" and R: "?R (st_db w, []) a (d, ts)" "st_db w' = d"
      and o: "r = Inr True" "st_trace w' = st_trace w @ calls (st_bus w) (events_of ts)"
    have "a_save t (Some TO_DO) (st_db w, []) = (Inr (), (d, ts))"
      using R(1) by (auto simp: rel_bind_def of_txn_def rel_keep_def)
    from a_save_claimed [OF this] show ?thesis using b R(2) o by (auto simp: published_def)
  next
    fix a d ts cs
    assume b: "st_bus w' = st_bus w" and R: "?R (st_db w, []) a (d, ts)" "st_db w' = d"
      and o: "r = Inl CancelledError" "st_trace w' = st_trace w @ cs" "\<forall>c\<in>set cs. snd c \<in> set (events_of ts)"
    have "a_save t (Some TO_DO) (st_db w, []) = (Inr (), (d, ts))"
      using R(1) by (auto simp: rel_bind_def of_txn_def rel_keep_def)
    from a_save_claimed [OF this] show ?thesis using b R(2) o by (auto simp: partly_published_def)
  qed
qed

text \<open>A lost claim never reaches the start: nothing beyond the store's connection changes.\<close>

lemma save_needs_row:
  assumes "tasks_save t (Some TO_DO) s = (Inr u, s')" "conn_of s = InTx (st_db s) False" "u_entered (st_uow s)"
  shows "\<exists>r \<in> set (d_tasks (st_db s)). r_task_id r = tid_value (t_task_id t) \<and> r_status r = TO_DO"
proof -
  obtain d' where "a_save t (Some TO_DO) (st_db s, saved_of s) = (Inr u, (d', saved_of s'))"
    using tx_denD_Inr(4) [OF tx_save assms(2,3,1)] by blast
  from a_save_claimed(1) [OF this] show ?thesis by (auto simp: claimed_def)
qed

lemma claim_lost_no_start:
  fixes w w' :: "'y world_scheme"
  assumes lost: "\<not> (\<exists>r \<in> set (d_tasks (st_db w)). r_task_id r = tid_value (t_task_id t) \<and> r_status r = TO_DO)"
    and run: "claim_and_start start sid e t w = (r, w')"
  shows "store.more w' = store.more w \<and> visible w' = visible w \<and> (\<exists>err. r = Inl err)"
  using run unfolding claim_and_start_def
proof (cases rule: with_uow_more)
  case (2 s1 q s2)
  have fails: "\<exists>err. q = Inl err \<and> tasks_save t (Some TO_DO) s1 = (Inl err, s2)"
    using 2(1)
  proof (cases rule: bindM_cases)
    case (1 err)
    from 1(1) show ?thesis
    proof (cases rule: thenM_cases)
      case (2 u s3)
      then show ?thesis using save_needs_row [of t s1 u s3] 2 lost \<open>conn_of s1 = _\<close> \<open>u_entered _\<close> \<open>st_db s1 = _\<close>
        by auto
    qed (use 1 in auto)
  next
    case (2 b s3)
    from 2(1) show ?thesis
    proof (cases rule: thenM_cases)
      case (2 u s4)
      then show ?thesis using save_needs_row [of t s1 u s4] lost \<open>conn_of s1 = _\<close> \<open>u_entered _\<close> \<open>st_db s1 = _\<close>
        by auto
    qed auto
  qed
  then obtain err where err: "q = Inl err" "tasks_save t (Some TO_DO) s1 = (Inl err, s2)" by blast
  have "store.more s2 = store.more s1" using framesD' [OF frames_more_tasks(4) err(2)] .
  moreover have "visible s2 = visible s1"
    using tx_denD_Inl(1) [OF tx_save 2(5,6) err(2)] .
  ultimately show ?thesis using 2 err by auto
qed auto

section \<open>Trying a machine\<close>

definition started_with :: "ppath \<Rightarrow> task \<Rightarrow> node_id \<Rightarrow> task \<Rightarrow> bool" where
  "started_with tasks_dir t nid running \<longleftrightarrow> run_task t nid (remote_folder_for tasks_dir t) = Inr running"

text \<open>The bookkeeping after the commit cannot fail and touches no row.\<close>

lemma start_occupancy_check_outcome:
  assumes "start_occupancy_check sid e w = (r, w')"
  shows "r = Inr ()" "store_view w' = store_view w" "w_tracker w' = w_tracker w" "w_registry w' = w_registry w"
    "length (w_heap w') = length (w_heap w)" "x \<noteq> sid \<Longrightarrow> sess w' x = sess w x"
    "sid < length (w_heap w) \<Longrightarrow> m_state (ss_machine (sess w' sid)) = BUSY
       \<and> (ss_closed (sess w' sid) \<or> (\<exists>k. ss_monitor (sess w' sid) = Some (k, e)))"
proof -
  have k: "sess (v\<lparr>w_next_monitor := k\<rparr>) y = sess v y" for v :: "'a world_scheme" and k y by (simp add: sess_def)
  have st: "m = FREE \<or> m = BUSY" for m by (cases m) simp_all
  note defs = start_occupancy_check_def session_occupy_def occupy_machine_def
    session_install_monitor_def thenM_def bindM_def whenM_def skipM_def returnM_def store_view_def upd_sess_simps
  show "r = Inr ()" "store_view w' = store_view w" "w_tracker w' = w_tracker w" "w_registry w' = w_registry w"
    "length (w_heap w') = length (w_heap w)"
    using assms by (auto simp: defs split: if_splits)
  show "sess w' x = sess w x" if "x \<noteq> sid"
    using assms that by (auto simp: defs k split: if_splits)
  show "m_state (ss_machine (sess w' sid)) = BUSY
       \<and> (ss_closed (sess w' sid) \<or> (\<exists>k. ss_monitor (sess w' sid) = Some (k, e)))" if "sid < length (w_heap w)"
    using assms that st [of "m_state (ss_machine (sess w sid))"] by (auto simp: defs k split: if_splits)
qed

lemma visible_tracker [simp]: "visible (w\<lparr>w_tracker := tr\<rparr>) = visible w"
  by (simp add: visible_def committed_def)

lemma store_view_visible: "store_view w' = store_view w \<Longrightarrow> visible w' = visible w \<and> st_db w' = st_db w"
  by (simp add: store_view_def visible_def committed_def)

lemma claimed_db: "st_db w1 = st_db w2 \<Longrightarrow> claimed t d (st_db w1) = claimed t d (st_db w2)"
  by simp

context task_starter begin

text \<open>Every outcome of a try, for the store.\<close>

lemma try_start_store:
  fixes w w' :: "'y world_scheme"
  assumes run: "try_start_on_machine start tasks_dir sid n e t w = (r, w')"
  shows "(visible w' = visible w \<and> r \<noteq> Inr True) \<or>
     (\<exists>running. started_with tasks_dir t (n_node_id n) running \<and> claimed running (st_db w) (st_db w')
        \<and> st_bus w' = st_bus w
        \<and> ((r = Inr True \<and> published [running] w w') \<or> (r = Inl CancelledError \<and> partly_published [running] w w')))"
proof (cases "run_task t (n_node_id n) (remote_folder_for tasks_dir t)")
  case (Inl err)
  then show ?thesis using run by (auto simp: try_start_on_machine_def fromSum_def bindM_def)
next
  case (Inr running)
  then have sw: "started_with tasks_dir t (n_node_id n) running" by (simp add: started_with_def)
  have run': "bindM (claim_and_start start sid e running) (\<lambda>ok.
         if ok then thenM (start_occupancy_check sid e)
                   (thenM (discard_slot (t_task_id running)) (returnM True))
         else returnM False) w = (r, w')"
    using run Inr by (simp add: try_start_on_machine_def fromSum_def bindM_def)
  then show ?thesis
  proof (cases rule: bindM_cases)
    case (1 err)
    then show ?thesis using claim_and_start_outcome [OF start_run 1(1)] sw by auto
  next
    case (2 ok w1)
    note C = claim_and_start_outcome [OF start_run 2(1)]
    show ?thesis
    proof (cases ok)
      case False
      then show ?thesis using C 2(2) by (auto simp: returnM_def)
    next
      case True
      obtain q w2 where q: "start_occupancy_check sid e w1 = (q, w2)" by (cases "start_occupancy_check sid e w1")
      note S = start_occupancy_check_outcome [OF q]
      have "r = Inr True" "w' = w2\<lparr>w_tracker := tracker_discard (t_task_id running) (w_tracker w2)\<rparr>"
        using 2(2) True q S(1) by (simp_all add: thenM_def bindM_def discard_slot_def modifyM_def returnM_def)
      then show ?thesis using C True S(2) sw by (auto simp: store_view_def published_def)
    qed
  qed
qed

text \<open>A successful try found the machine FREE and leaves it BUSY under a monitor, with the slot given up.\<close>

lemma claim_more:
  fixes w w' :: "'y world_scheme"
  assumes lt: "sid < length (w_heap w)" and run: "claim_and_start start sid e t w = (r, w')"
  shows "length (w_heap w') = length (w_heap w)" "w_tracker w' = w_tracker w"
    "x \<noteq> sid \<Longrightarrow> sess w' x = sess w x"
    "r = Inr True \<Longrightarrow> m_state (ss_machine (sess w sid)) = FREE \<and> m_state (ss_machine (sess w' sid)) = BUSY"
proof -
  let ?P = "length (w_heap w') = length (w_heap w) \<and> w_tracker w' = w_tracker w
    \<and> (\<forall>x. x \<noteq> sid \<longrightarrow> sess w' x = sess w x)
    \<and> (r = Inr True \<longrightarrow> m_state (ss_machine (sess w sid)) = FREE \<and> m_state (ss_machine (sess w' sid)) = BUSY)"
  have ?P
    using run unfolding claim_and_start_def
  proof (cases rule: with_uow_more)
    case (1 err)
    then show ?thesis using world_more_sess [of w' w] by (simp add: sess_def)
  next
    case (2 s1 q s2)
    have W1: "w_heap s1 = w_heap w" "w_tracker s1 = w_tracker w" using world_more_sess [OF 2(2)] by simp_all
    have W2: "w_heap w' = w_heap s2" "w_tracker w' = w_tracker s2" using world_more_sess [OF 2(3)] by simp_all
    have S: "length (w_heap s3) = length (w_heap w) \<and> w_tracker s3 = w_tracker w
        \<and> (\<forall>x. x \<noteq> sid \<longrightarrow> sess s3 x = sess w x)
        \<and> (y = Inr True \<longrightarrow> m_state (ss_machine (sess w sid)) = FREE \<and> m_state (ss_machine (sess s3 sid)) = BUSY)"
      if "thenM (tasks_save t (Some TO_DO)) (start sid e t) s1 = (y, s3)" for y s3
      using that
    proof (cases rule: thenM_cases)
      case (1 err)
      then show ?thesis
        using world_more_sess [OF framesD' [OF frames_more_tasks(4) 1(1)]] W1 by (simp add: sess_def)
    next
      case (2 u s4)
      have H: "w_heap s4 = w_heap w" "w_tracker s4 = w_tracker w"
        using world_more_sess [OF framesD' [OF frames_more_tasks(4) 2(1)]] W1 by simp_all
      have "sid < length (w_heap s4)" using lt H by simp
      from start_machine [OF this 2(2)] framesD' [OF start_frame 2(2)] show ?thesis
        using H by (auto simp: sess_def wdata_def split: sum.splits)
    qed
    show ?thesis
      using 2(1)
    proof (cases rule: bindM_cases)
      case (1 err)
      then show ?thesis using S [OF 1(1)] W2 2(4) by (auto simp: sess_def)
    next
      case B: (2 ok s3)
      have "frames store.more (if ok then thenM uow_commit (returnM True) else thenM uow_rollback (returnM False) :: ('y, bool) wprog)"
        by (intro frames_intros)
      from world_more_sess [OF framesD' [OF this B(2)]] have H: "w_heap s2 = w_heap s3" "w_tracker s2 = w_tracker s3"
        by simp_all
      have "ok" if "q = Inr True"
        using B(2) that by (cases ok) (auto simp: thenM_def bindM_def returnM_def split: sum.splits prod.splits)
      then show ?thesis using S [OF B(1)] W2 H 2(4) by (auto simp: sess_def)
    qed
  qed
  then show "length (w_heap w') = length (w_heap w)" "w_tracker w' = w_tracker w"
    "x \<noteq> sid \<Longrightarrow> sess w' x = sess w x"
    "r = Inr True \<Longrightarrow> m_state (ss_machine (sess w sid)) = FREE \<and> m_state (ss_machine (sess w' sid)) = BUSY"
    by blast+
qed

lemma try_start_machine:
  fixes w w' :: "'y world_scheme"
  assumes lt: "sid < length (w_heap w)"
    and run: "try_start_on_machine start tasks_dir sid n e t w = (r, w')"
  shows "length (w_heap w') = length (w_heap w) \<and> (\<forall>x. x \<noteq> sid \<longrightarrow> sess w' x = sess w x)
    \<and> (w_tracker w' = (if r = Inr True then tracker_discard (t_task_id t) (w_tracker w) else w_tracker w))
    \<and> (r = Inr True \<longrightarrow> m_state (ss_machine (sess w sid)) = FREE \<and> m_state (ss_machine (sess w' sid)) = BUSY
          \<and> (ss_closed (sess w' sid) \<or> (\<exists>k. ss_monitor (sess w' sid) = Some (k, e))))"
proof (cases "run_task t (n_node_id n) (remote_folder_for tasks_dir t)")
  case (Inl err)
  then show ?thesis using run by (auto simp: try_start_on_machine_def fromSum_def bindM_def)
next
  case (Inr running)
  have tid: "t_task_id running = t_task_id t"
    using transition_identity [of "TrRun (n_node_id n) (remote_folder_for tasks_dir t)" t running] Inr by simp
  have run': "bindM (claim_and_start start sid e running) (\<lambda>ok.
         if ok then thenM (start_occupancy_check sid e)
                   (thenM (discard_slot (t_task_id running)) (returnM True))
         else returnM False) w = (r, w')"
    using run Inr by (simp add: try_start_on_machine_def fromSum_def bindM_def)
  then show ?thesis
  proof (cases rule: bindM_cases)
    case (1 err)
    then show ?thesis using claim_more [OF lt 1(1)] by auto
  next
    case (2 ok w1)
    note C = claim_more [OF lt 2(1)]
    show ?thesis
    proof (cases ok)
      case False
      then show ?thesis using C 2(2) by (auto simp: returnM_def)
    next
      case True
      obtain q w2 where q: "start_occupancy_check sid e w1 = (q, w2)" by (cases "start_occupancy_check sid e w1")
      note S = start_occupancy_check_outcome [OF q]
      have w': "r = Inr True" "w' = w2\<lparr>w_tracker := tracker_discard (t_task_id running) (w_tracker w2)\<rparr>"
        using 2(2) True q S(1) by (simp_all add: thenM_def bindM_def discard_slot_def modifyM_def returnM_def)
      have "sid < length (w_heap w1)" using C(1) lt by simp
      then show ?thesis using w' C(1,2,3) C(4) S(3,5,6,7) True tid by simp
    qed
  qed
qed

end

section \<open>Finding machines\<close>

lemma dget_foldl_dput:
  "dget (foldl (\<lambda>d n. dput (f n) n d) d ns) k =
     (case filter (\<lambda>n. f n = k) (rev ns) of [] \<Rightarrow> dget d k | n # _ \<Rightarrow> Some n)"
  by (induction ns arbitrary: d) (auto split: list.split)

lemma dget_index_Some:
  "dget (foldl (\<lambda>d n. dput (f n) n d) [] ns) k = Some n \<Longrightarrow> n \<in> set ns \<and> f n = k"
  by (auto simp: dget_foldl_dput split: list.splits dest!: arg_cong [where f = set])

text \<open>Eligible in the state \<open>w\<close>: a free, compatible session whose node is enabled and carries no RUNNING task.\<close>

definition eligible :: "engine \<Rightarrow> 'y world_scheme \<Rightarrow> sid \<Rightarrow> node \<Rightarrow> bool" where
  "eligible e w sid n \<longleftrightarrow>
     sid \<in> set (repo_list_free (Some (e_platforms e)) w)
   \<and> n_node_id n = m_node_id (ss_machine (sess w sid))
   \<and> (\<exists>q \<in> set (d_nodes (st_db w)). q_enabled q \<and> row_to_node q = Inr n)
   \<and> (\<forall>r \<in> set (d_tasks (st_db w)). r_status r = RUNNING \<longrightarrow> r_node r \<noteq> Some (nid_value (n_node_id n)))"

lemma row_to_task_allocated:
  "row_to_task r = Inr t \<Longrightarrow> r_status r = RUNNING \<Longrightarrow> r_node r = Some i \<Longrightarrow> allocated_node_id_of t = Some (NodeId i)"
  by (auto simp: row_to_task_def Let_def allocated_node_id_of_def mk_node_id_def split: sum.splits option.splits if_splits)

lemma list_all2_mem1: "list_all2 P xs ys \<Longrightarrow> x \<in> set xs \<Longrightarrow> \<exists>y \<in> set ys. P x y"
  by (induction rule: list_all2_induct) auto

lemma list_all2_mem2: "list_all2 P xs ys \<Longrightarrow> y \<in> set ys \<Longrightarrow> \<exists>x \<in> set xs. P x y"
  by (induction rule: list_all2_induct) auto

lemma find_free_outcome:
  fixes w w' :: "'y world_scheme"
  assumes run: "find_free_machines e w = (r, w')"
  shows "visible w' = visible w" "store.more w' = store.more w"
    "r = Inr ps \<Longrightarrow> (sid, n) \<in> set ps \<Longrightarrow> eligible e w sid n"
proof -
  let ?body = "bindM (tasks_list_running None) (\<lambda>running. bindM nodes_list_enabled (\<lambda>enabled. returnM (running, enabled)))
      :: ('y, task list \<times> node list) wprog"
  let ?F = "bindM (a_rows (sql_task_list_by_status [RUNNING] None) row_to_task)
      (\<lambda>running. bindM (a_rows sql_node_list_enabled row_to_node) (\<lambda>enabled. returnM (running, enabled))) :: (task list \<times> node list) txn"
  have den: "tx_den ?body ?F" by (intro tx_intros)
  have fr: "frames store.more (with_uow ?body)" by (intro frames_intros)
  obtain q w1 where q: "with_uow ?body w = (q, w1)" by (cases "with_uow ?body w")
  note R = with_uow_read [OF den q]
  have M: "store.more w1 = store.more w" using framesD' [OF fr q] .
  have w': "w' = w1" "r = (case q of Inl er \<Rightarrow> Inl er | Inr (run, en) \<Rightarrow> Inr (free_pairs run en e w1))"
    using run q by (auto simp: find_free_machines_def bindM_def getsM_def split: sum.splits prod.splits)
  show "visible w' = visible w" "store.more w' = store.more w" using R M w' by simp_all
  assume rp: "r = Inr ps" and m: "(sid, n) \<in> set ps"
  then obtain run en where qr: "q = Inr (run, en)" and ps: "ps = free_pairs run en e w1"
    using w'(2) by (auto split: sum.splits)
  obtain x where x: "?F (st_db w, []) = (Inr (run, en), x)" using R qr by blast
  obtain x1 where t1: "a_rows (sql_task_list_by_status [RUNNING] None) row_to_task (st_db w, []) = (Inr run, x1)"
      "a_rows sql_node_list_enabled row_to_node x1 = (Inr en, x)"
    using x by (auto simp: bindM_def returnM_def split: prod.splits sum.splits)
  have x1: "x1 = (st_db w, [])" using a_rows_Inr(1) [OF t1(1)] by (simp add: sql_selects_db)
  have en: "list_all2 (\<lambda>q a. row_to_node q = Inr a) (filter q_enabled (d_nodes (st_db w))) en"
    using a_rows_Inr(2) [OF t1(2) [unfolded x1]] by (auto simp: sql_selects_db sql_defs getsM_def)
  have rn: "list_all2 (\<lambda>q a. row_to_task q = Inr a)
      (sort_key r_task_id (filter (\<lambda>r. List.member [RUNNING] (r_status r)) (d_tasks (st_db w)))) run"
    using a_rows_Inr(2) [OF t1(1)] by (auto simp: sql_selects_db sql_defs Let_def)
  have h1: "sess w1 = sess w" using world_more_sess [OF M] by (simp add: sess_def fun_eq_iff)
  have h: "sess w1 = sess w" "repo_list_free pl w1 = repo_list_free pl w" for pl
    using world_more_sess [OF M] unfolding repo_list_free_def h1 by simp_all
  let ?by = "foldl (\<lambda>d n. dput (n_node_id n) n d) [] en"
  from m ps have a: "sid \<in> set (repo_list_free (Some (e_platforms e)) w)"
      "dget ?by (m_node_id (ss_machine (sess w sid))) = Some n"
      "Some (m_node_id (ss_machine (sess w sid))) \<notin> set (map allocated_node_id_of run)"
    by (auto simp: free_pairs_def Let_def h split: option.splits if_splits)
  have n: "n \<in> set en" "n_node_id n = m_node_id (ss_machine (sess w sid))"
    using dget_index_Some [OF a(2)] by simp_all
  have "r_node r \<noteq> Some (nid_value (n_node_id n))" if r: "r \<in> set (d_tasks (st_db w))" "r_status r = RUNNING" for r
  proof
    assume c: "r_node r = Some (nid_value (n_node_id n))"
    have "r \<in> set (sort_key r_task_id (filter (\<lambda>r. List.member [RUNNING] (r_status r)) (d_tasks (st_db w))))"
      using r by simp
    then obtain t where t: "t \<in> set run" "row_to_task r = Inr t" using list_all2_mem1 [OF rn] by blast
    have "allocated_node_id_of t = Some (n_node_id n)" using row_to_task_allocated [OF t(2) r(2) c] by simp
    then show False using a(3) t(1) n(2) by (auto simp: image_iff)
  qed
  then show "eligible e w sid n"
    using a(1) n list_all2_mem2 [OF en n(1)] by (auto simp: eligible_def)
qed

text \<open>An engine without platforms matches no machine: the intersection with the empty set is empty.\<close>

lemma no_platforms_no_machine: "repo_list_free (Some []) w = []"
  by (simp add: repo_list_free_def intersects_iff)

section \<open>Allocating a free machine\<close>

text \<open>What became of a list of candidates: one of them got the task, or the store is as it was.\<close>

definition machine_result :: "ppath \<Rightarrow> task \<Rightarrow> engine \<Rightarrow> (sid \<times> node) set \<Rightarrow> 'y world_scheme \<Rightarrow> exn + bool \<Rightarrow> 'y world_scheme \<Rightarrow> bool" where
  "machine_result tasks_dir t e P w r w' \<longleftrightarrow>
     (visible w' = visible w \<and> r \<noteq> Inr True)
   \<or> (\<exists>sid n running. (sid, n) \<in> P \<and> started_with tasks_dir t (n_node_id n) running
        \<and> claimed running (st_db w) (st_db w') \<and> st_bus w' = st_bus w
        \<and> ((r = Inr True \<and> published [running] w w' \<and> m_state (ss_machine (sess w' sid)) = BUSY
             \<and> (ss_closed (sess w' sid) \<or> (\<exists>k. ss_monitor (sess w' sid) = Some (k, e))))
           \<or> (r = Inl CancelledError \<and> partly_published [running] w w')))"

lemma machine_result_mono:
  assumes v: "visible w1 = visible w" and sub: "P \<subseteq> P'" and res: "machine_result tasks_dir t e P w1 r w'"
  shows "machine_result tasks_dir t e P' w r w'"
proof -
  have eq: "rows_of (st_db w) = rows_of (st_db w1)" "st_bus w1 = st_bus w"
    using v by (simp_all add: visible_def committed_def)
  show ?thesis
    using res unfolding machine_result_def published_visible [OF v] v eq(2)
    using claimed_rows [OF eq(1)] sub by blast
qed

context task_starter begin

lemma try_machines_outcome:
  assumes "\<forall>(sid, n) \<in> set ps. sid < length (w_heap w)" "try_machines start tasks_dir t e ps w = (r, w')"
  shows "machine_result tasks_dir t e (set ps) w r w'
    \<and> w_tracker w' = (if r = Inr True then tracker_discard (t_task_id t) (w_tracker w) else w_tracker w)"
  using assms
proof (induction ps arbitrary: w)
  case Nil
  then show ?case by (auto simp: machine_result_def returnM_def)
next
  case (Cons p ps)
  obtain sid n where p: "p = (sid, n)" by (cases p)
  have lt: "sid < length (w_heap w)" using Cons.prems(1) p by simp
  obtain q w1 where q: "try_start_on_machine start tasks_dir sid n e t w = (q, w1)"
    by (cases "try_start_on_machine start tasks_dir sid n e t w")
  note S = try_start_store [OF q] and M = try_start_machine [OF lt q]
  have step: "(case q of Inr True \<Rightarrow> returnM True | Inr False \<Rightarrow> try_machines start tasks_dir t e ps
       | Inl err \<Rightarrow> if is_Exception err then try_machines start tasks_dir t e ps else raiseM err) w1 = (r, w')"
    using Cons.prems(2) p q by (simp add: bindM_def attemptM_def)
  have rest: ?case if more: "try_machines start tasks_dir t e ps w1 = (r, w')" and v: "visible w1 = visible w"
      and nt: "q \<noteq> Inr True"
  proof -
    have "\<forall>(sid, n) \<in> set ps. sid < length (w_heap w1)" using Cons.prems(1) M by auto
    note I = Cons.IH [OF this more]
    have "set ps \<subseteq> set (p # ps)" by auto
    then show ?thesis using machine_result_mono [OF v] I M nt by simp
  qed
  show ?case
  proof (cases q)
    case (Inr b)
    show ?thesis
    proof (cases b)
      case True
      then have "r = Inr True" "w' = w1" using step Inr by (simp_all add: returnM_def)
      then show ?thesis using S M Inr True p unfolding machine_result_def by auto
    next
      case False
      then show ?thesis using rest step Inr S by auto
    qed
  next
    case (Inl err)
    show ?thesis
    proof (cases "is_Exception err")
      case True
      then have "visible w1 = visible w" using S Inl by (auto simp: is_Exception_def)
      then show ?thesis using rest step Inl True by simp
    next
      case False
      then have "r = Inl CancelledError" "w' = w1" "err = CancelledError"
        using step Inl by (simp_all add: raiseM_def is_Exception_def)
      then show ?thesis using S M Inl p unfolding machine_result_def by auto
    qed
  qed
qed

theorem allocate_free_outcome:
  assumes ok: "sessions_ok w" and run: "allocate_free_machine start tasks_dir t e w = (r, w')"
  shows "machine_result tasks_dir t e {(sid, n). eligible e w sid n} w r w'
    \<and> w_tracker w' = (if r = Inr True then tracker_discard (t_task_id t) (w_tracker w) else w_tracker w)"
  using run unfolding allocate_free_machine_def
proof (cases rule: bindM_cases)
  case (1 err)
  then show ?thesis
    using find_free_outcome(1,2) [OF 1(1)] world_more_sess [of w' w] by (simp add: machine_result_def)
next
  case (2 ps w1)
  note F = find_free_outcome [OF 2(1)]
  have el: "set ps \<subseteq> {(sid, n). eligible e w sid n}" using F(3) by auto
  have W: "w_heap w1 = w_heap w" "w_tracker w1 = w_tracker w" using world_more_sess [OF F(2)] by simp_all
  have "sid < length (w_heap w)" if "eligible e w sid n" for sid n
    using that repo_list_free_node [OF ok] sessions_okD(1) [OF ok] by (auto simp: eligible_def repo_get_session_def)
  then have "\<forall>(sid, n) \<in> set ps. sid < length (w_heap w1)" using el W by auto
  note T = try_machines_outcome [OF this 2(2)]
  show ?thesis using machine_result_mono [OF F(1) el] T W by simp
qed

end

section \<open>A guarded save, and the folders of tasks\<close>

lemma save_commit_outcome:
  "(let (r, s') = with_uow (thenM (tasks_save t ex) uow_commit) (s :: 'x store_scheme); d = st_db s
    in (\<exists>e. r = Inl e \<and> visible s' = visible s)
     \<or> ((\<exists>q \<in> set (d_tasks d). update_matches (tid_value (t_task_id t)) ex q)
        \<and> d_tasks (st_db s') = map (\<lambda>q. if update_matches (tid_value (t_task_id t)) ex q
                                       then updated_row d (task_to_row t) q else q) (d_tasks d)
        \<and> d_nodes (st_db s') = d_nodes d
        \<and> ((r = Inr () \<and> published [t] s s') \<or> (r = Inl CancelledError \<and> partly_published [t] s s'))))"
proof -
  obtain r s' where run: "with_uow (thenM (tasks_save t ex) uow_commit) s = (r, s')" by fastforce
  have res: "tx_result (a_save t ex) s r s'"
    by (rule with_uow_commit [OF tx_save run [unfolded then_commit]])
  have save: "ts = [t] \<and> (\<exists>q \<in> set (d_tasks (st_db s)). update_matches (tid_value (t_task_id t)) ex q)
      \<and> d = (st_db s)\<lparr>d_tasks := map (\<lambda>q. if update_matches (tid_value (t_task_id t)) ex q
             then updated_row (st_db s) (task_to_row t) q else q) (d_tasks (st_db s))\<rparr>"
    if "a_save t ex (st_db s, []) = (Inr u, (d, ts))" for u d ts
    using that sql_task_update_Inr [of "task_to_row t" ex "st_db s"]
    unfolding a_save_Inr by (auto simp: task_to_row_def)
  from res show ?thesis unfolding run tx_result_def Let_def prod.case
  proof (elim conjE disjE exE)
    fix e assume "r = Inl e" "visible s' = visible s"
    then show "(\<exists>e. r = Inl e \<and> visible s' = visible s) \<or> P" for P by blast
  next
    fix a d ts
    assume "a_save t ex (st_db s, []) = (Inr a, d, ts)" "st_db s' = d" "r = Inr a"
      "st_trace s' = st_trace s @ calls (st_bus s) (events_of ts)"
    with save show "(\<exists>e. r = Inl e \<and> visible s' = visible s) \<or>
       ((\<exists>q \<in> set (d_tasks (st_db s)). update_matches (tid_value (t_task_id t)) ex q)
        \<and> d_tasks (st_db s') = map (\<lambda>q. if update_matches (tid_value (t_task_id t)) ex q
                                       then updated_row (st_db s) (task_to_row t) q else q) (d_tasks (st_db s))
        \<and> d_nodes (st_db s') = d_nodes (st_db s)
        \<and> ((r = Inr () \<and> published [t] s s') \<or> (r = Inl CancelledError \<and> partly_published [t] s s')))"
      by (fastforce simp: published_def)
  next
    fix a d ts cs
    assume "a_save t ex (st_db s, []) = (Inr a, d, ts)" "st_db s' = d" "r = Inl CancelledError"
      "st_trace s' = st_trace s @ cs" "\<forall>c \<in> set cs. snd c \<in> set (events_of ts)"
    with save show "(\<exists>e. r = Inl e \<and> visible s' = visible s) \<or>
       ((\<exists>q \<in> set (d_tasks (st_db s)). update_matches (tid_value (t_task_id t)) ex q)
        \<and> d_tasks (st_db s') = map (\<lambda>q. if update_matches (tid_value (t_task_id t)) ex q
                                       then updated_row (st_db s) (task_to_row t) q else q) (d_tasks (st_db s))
        \<and> d_nodes (st_db s') = d_nodes (st_db s)
        \<and> ((r = Inr () \<and> published [t] s s') \<or> (r = Inl CancelledError \<and> partly_published [t] s s')))"
      by (fastforce simp: partly_published_def)
  qed
qed

lemma remote_folder_inject:
  assumes same: "t_created_at t = t_created_at u"
  shows "remote_folder_for dir t = remote_folder_for dir u \<longleftrightarrow> tid_value (t_task_id t) = tid_value (t_task_id u)"
proof -
  have plain: "plain_name (stamp c @ ''_'' @ show_int i)" for c i
    using stamp_no_slash [of c] show_int_no_slash [of i]
    by (auto simp: plain_name_def real_part_def slash_def append_eq_Cons_conv append_eq_append_conv2)
  show ?thesis
    unfolding remote_folder_for_def path_str_div_inject [OF plain plain] same by simp
qed

end
