(* ===== verification/Calm.thy ===== *)
theory Calm
  imports Uow_Blocks
begin

text \<open>
  Runs in a calm environment: no round trip fails and no handler cancels the coroutine.  Then no
  computation over the store is cancelled, and the environment stays calm.
\<close>

named_theorems calm_intros "structural rules for calm runs"

definition calm_store :: "'x store_scheme \<Rightarrow> bool" where
  "calm_store s \<longleftrightarrow> st_faults s = [] \<and> uncancelled (st_bus s)"

definition calm :: "('x, 'a) prog \<Rightarrow> bool" where
  "calm m \<longleftrightarrow> (\<forall>s. calm_store s \<longrightarrow> calm_store (snd (m s)) \<and> fst (m s) \<noteq> Inl CancelledError)"

lemma calmI:
  "(\<And>s r s'. calm_store s \<Longrightarrow> m s = (r, s') \<Longrightarrow> calm_store s' \<and> r \<noteq> Inl CancelledError) \<Longrightarrow> calm m"
  unfolding calm_def by (metis prod.collapse)

lemma calmD: "calm m \<Longrightarrow> calm_store s \<Longrightarrow> m s = (r, s') \<Longrightarrow> calm_store s' \<and> r \<noteq> Inl CancelledError"
  unfolding calm_def by (metis fst_conv snd_conv)

lemma calm_pure [calm_intros]:
  "calm (returnM a)" "calm skipM" "calm (getsM f)" "e \<noteq> CancelledError \<Longrightarrow> calm (raiseM e)"
  "r \<noteq> Inl CancelledError \<Longrightarrow> calm (fromSum r)"
  by (simp_all add: calm_def monad_simps)

lemma calm_bind [calm_intros]:
  fixes m :: "('x, 'a) prog"
  assumes "calm m" "\<And>a. calm (f a)"
  shows "calm (bindM m f)"
proof (rule calmI)
  fix s s' :: "'x store_scheme" and r
  assume c: "calm_store s" and run: "bindM m f s = (r, s')"
  from run show "calm_store s' \<and> r \<noteq> Inl CancelledError"
  proof (cases rule: bindM_cases)
    case (1 e)
    then show ?thesis using calmD [OF assms(1) c 1(1)] by simp
  next
    case (2 a s1)
    then show ?thesis using calmD [OF assms(1) c 2(1)] calmD [OF assms(2) _ 2(2)] by simp
  qed
qed

lemma calm_then [calm_intros]: "calm m \<Longrightarrow> calm n \<Longrightarrow> calm (thenM m n)"
  by (simp add: thenM_def calm_bind)

lemma calm_if [calm_intros]: "(b \<Longrightarrow> calm m) \<Longrightarrow> (\<not> b \<Longrightarrow> calm n) \<Longrightarrow> calm (if b then m else n)"
  by simp

lemma calm_option [calm_intros]:
  "(x = None \<Longrightarrow> calm m) \<Longrightarrow> (\<And>a. x = Some a \<Longrightarrow> calm (f a)) \<Longrightarrow> calm (case x of None \<Rightarrow> m | Some a \<Rightarrow> f a)"
  by (cases x) simp_all

lemma calm_list [calm_intros]:
  "calm m \<Longrightarrow> (\<And>a as. calm (f a as)) \<Longrightarrow> calm (case xs of [] \<Rightarrow> m | a # as \<Rightarrow> f a as)"
  by (cases xs) simp_all

lemma calm_prod [calm_intros]: "(\<And>a b. calm (f a b)) \<Longrightarrow> calm (case x of (a, b) \<Rightarrow> f a b)"
  by (cases x) simp

lemma calm_modify: "(\<And>s. st_faults (f s) = st_faults s \<and> st_bus (f s) = st_bus s) \<Longrightarrow> calm (modifyM f)"
  by (simp add: calm_def modifyM_def calm_store_def)

lemma calm_catch [calm_intros]:
  fixes m :: "('x, 'a) prog"
  assumes "calm m" "\<And>e. e \<noteq> CancelledError \<Longrightarrow> calm (h e)"
  shows "calm (catchM m h)"
proof (rule calmI)
  fix s s' :: "'x store_scheme" and r
  assume c: "calm_store s" and run: "catchM m h s = (r, s')"
  obtain q s1 where q: "m s = (q, s1)" by (cases "m s")
  note A = calmD [OF assms(1) c q]
  show "calm_store s' \<and> r \<noteq> Inl CancelledError"
  proof (cases q)
    case (Inl e)
    then have "e \<noteq> CancelledError" "h e s1 = (r, s')" using A run q by (auto simp: catchM_def)
    then show ?thesis using calmD [OF assms(2) _ \<open>h e s1 = (r, s')\<close>] A by simp
  next
    case (Inr a)
    then show ?thesis using A run q by (auto simp: catchM_def)
  qed
qed

lemma calm_suppress [calm_intros]: "calm m \<Longrightarrow> calm (suppress m)"
  unfolding suppress_def by (intro calm_intros) (auto simp: is_Exception_def)

section \<open>Statements never cancel\<close>

definition sql_calm :: "(db, exn, 'a) M \<Rightarrow> bool" where
  "sql_calm q \<longleftrightarrow> (\<forall>d. fst (q d) \<noteq> Inl CancelledError)"

lemma sql_calm_statements [calm_intros]:
  "sql_calm (sql_task_get_by_id i)" "sql_calm (sql_task_get_by_id_and_status i st)"
  "sql_calm (sql_task_list_by_status sts lmt)" "sql_calm (sql_task_list_by_jobs ids)"
  "sql_calm (sql_task_ids_by_node_and_status k st)" "sql_calm sql_task_count_by_status"
  "sql_calm (sql_task_insert ti en lf wu pa xt)" "sql_calm (sql_task_update new ex)"
  "sql_calm sql_node_list_all" "sql_calm sql_node_list_enabled" "sql_calm sql_node_list_disabled"
  "sql_calm (sql_node_get_by_id i)" "sql_calm (sql_node_get_by_ids ids)" "sql_calm sql_node_count_by_status"
  "sql_calm (\<lambda>d. sql_node_insert (v d) d)" "sql_calm (sql_node_update row)" "sql_calm (sql_node_enable i)"
  "sql_calm (sql_node_disable i)" "sql_calm (sql_node_remove i)"
  by (simp_all add: sql_calm_def sql_defs getsM_def Let_def sql_task_insert_def sql_task_update_def sql_node_insert_def
      sql_node_update_def sql_node_enable_def sql_node_disable_def sql_node_update_by_def sql_node_remove_def
      split: option.split)

lemma calm_round_trip [calm_intros]: "calm (round_trip :: ('x, unit) prog)"
  by (simp add: calm_def round_trip_def calm_store_def)

lemma calm_store_set [simp]:
  "calm_store (set_conn c s) = calm_store s" "calm_store (set_saved ts s) = calm_store s"
  "calm_store (s\<lparr>st_db := d\<rparr>) = calm_store s" "calm_store (s\<lparr>st_uow := u\<rparr>) = calm_store s"
  "calm_store (s\<lparr>st_trace := tr\<rparr>) = calm_store s"
  by (simp_all add: calm_store_def)

lemma calm_run_tasks [calm_intros]:
  fixes q :: "(db, exn, 'a) M"
  assumes "sql_calm q"
  shows "calm (run_tasks q :: ('x, 'a) prog)"
proof -
  have "calm (run_sql q :: ('x, 'a) prog)"
  proof (rule calmI)
    fix s s' :: "'x store_scheme" and r
    assume c: "calm_store s" and run: "run_sql q s = (r, s')"
    have rt: "round_trip s = (Inr (), s)" using c by (simp add: round_trip_def calm_store_def)
    have q: "fst (q d) \<noteq> Inl CancelledError" for d using assms by (simp add: sql_calm_def)
    show "calm_store s' \<and> r \<noteq> Inl CancelledError"
    proof (cases "conn_of s")
      case Closed
      then show ?thesis using run c by (auto simp: run_sql_def)
    next
      case Idle
      then show ?thesis using run rt c q [of "st_db s"] by (auto simp: run_sql_def split: prod.splits)
    next
      case (InTx d f)
      then show ?thesis using run rt c q [of d]
        by (auto simp: run_sql_def split: prod.splits sum.splits if_splits)
    qed
  qed
  moreover have "calm (require_entered :: ('x, unit) prog)"
    by (simp add: calm_def require_entered_def)
  ultimately show ?thesis unfolding run_tasks_def by (intro calm_intros)
qed

section \<open>Repositories and blocks\<close>

lemma codec_calm:
  "row_to_task r \<noteq> Inl CancelledError" "row_to_node q \<noteq> Inl CancelledError" "mk_task_id i \<noteq> Inl CancelledError"
  by (auto simp: row_to_task_def row_to_node_def mk_task_id_def mk_node_id_def Let_def
      split: task_status.splits option.splits if_splits sum.splits)

lemma map_sum_list_calm: "(\<And>x. f x \<noteq> Inl CancelledError) \<Longrightarrow> map_sum_list f xs \<noteq> Inl CancelledError"
proof (induction xs)
  case (Cons x xs)
  have "map_sum_list f (x # xs) = (case f x of Inl e \<Rightarrow> Inl e
      | Inr y \<Rightarrow> (case map_sum_list f xs of Inl e \<Rightarrow> Inl e | Inr ys \<Rightarrow> Inr (y # ys)))"
    by (cases "f x") (simp_all add: map_sum_list_def)
  then show ?case using Cons.IH [OF Cons.prems] Cons.prems [of x]
    by (cases "f x"; cases "map_sum_list f xs") auto
qed (simp add: map_sum_list_def)

lemma calm_first_row [calm_intros]: "(\<And>r. f r \<noteq> Inl CancelledError) \<Longrightarrow> calm (first_row f rows)"
  unfolding first_row_def by (intro calm_intros) simp

lemma calm_save [calm_intros]: "calm (tasks_save t ex)"
  unfolding tasks_save_def by (intro calm_intros calm_modify) (simp_all add: set_saved_def)

lemma calm_tasks [calm_intros]:
  "calm (tasks_get tid)" "calm (tasks_get_running tid)" "calm (tasks_get_todo tid)"
  "calm (tasks_list_by_status sts lmt)" "calm (tasks_list_todo lmt)" "calm (tasks_list_running lmt)"
  "calm (tasks_list_ids_by_node_id_and_status nid st)" "calm (tasks_insert nt)" "calm (tasks_list_by_jobs ids)"
  unfolding tasks_get_def tasks_get_running_def tasks_get_todo_def tasks_list_by_status_def
    tasks_list_todo_def tasks_list_running_def tasks_list_ids_by_node_id_and_status_def tasks_insert_def
    tasks_list_by_jobs_def
  by (intro calm_intros codec_calm map_sum_list_calm)+

lemma calm_nodes [calm_intros]:
  "calm nodes_list_all" "calm nodes_list_enabled" "calm nodes_list_disabled" "calm (nodes_insert nn)"
  "calm (nodes_get_by_id nid)" "calm (nodes_get_by_ids ids)" "calm (nodes_update n)" "calm (nodes_enable nid)"
  "calm (nodes_disable nid)" "calm (nodes_remove nid)"
  unfolding nodes_list_all_def nodes_list_enabled_def nodes_list_disabled_def nodes_insert_def nodes_get_by_id_def
    nodes_get_by_ids_def nodes_update_def nodes_enable_def nodes_disable_def nodes_remove_def
    node_statement_def decode_nodes_def
  by (intro calm_intros codec_calm map_sum_list_calm exn.simps)+

lemma calm_require_conn [calm_intros]: "calm require_conn"
  by (simp add: calm_def require_conn_def)

lemma calm_set [calm_intros]:
  "calm (modifyM (set_conn c))" "calm (modifyM (set_saved ts))"
  "calm (modifyM (\<lambda>s. set_saved ts (set_conn c s)))"
  by (simp_all add: calm_def modifyM_def)

lemma calm_commit [calm_intros]: "calm (uow_commit :: ('x, unit) prog)"
proof -
  have s: "calm (sql_commit :: ('x, unit) prog)"
    unfolding sql_commit_def by (intro calm_intros calm_modify) (auto simp: set_conn_def split: conn.split bool.split)
  have p: "calm (suppress (publish_events :: ('x, unit) prog))"
  proof (rule calmI)
    fix t t' :: "'x store_scheme" and r
    assume c: "calm_store t" and run: "suppress publish_events t = (r, t')"
    show "calm_store t' \<and> r \<noteq> Inl CancelledError"
      using publish_outcome(2,4,8) [OF run] c by (auto simp: calm_store_def)
  qed
  show ?thesis unfolding uow_commit_def by (intro calm_intros s p)
qed

lemma calm_exit [calm_intros]: "calm (uow_exit exc)"
proof (rule calmI)
  fix s s' :: "'a store_scheme" and r
  assume c: "calm_store s" and run: "uow_exit exc s = (r, s')"
  show "calm_store s' \<and> r \<noteq> Inl CancelledError"
    using exit_outcome(1,5) [OF run] c by (auto simp: calm_store_def visible_def)
qed

lemma calm_with_uow [calm_intros]:
  fixes body :: "('x, 'a) prog"
  assumes "calm body"
  shows "calm (with_uow body)"
proof (rule calmI)
  fix s s' :: "'x store_scheme" and r
  assume c: "calm_store s" and run: "with_uow body s = (r, s')"
  from run show "calm_store s' \<and> r \<noteq> Inl CancelledError"
  proof (cases rule: with_uow_body)
    case (1 e s1)
    then show ?thesis using uow_enter_outcome(5) [OF 1(1)] c by (simp add: calm_store_def)
  next
    case (2 s1 q s2 x)
    have "calm_store s1" using uow_enter_outcome(1,5) [OF 2(1)] c by (simp add: calm_store_def visible_def)
    from calmD [OF assms this 2(2)] calmD [OF calm_exit _ 2(3)] show ?thesis
      using 2(4) by (auto split: sum.splits)
  qed
qed

end
