(* ===== verification/Provision_Facts.thy ===== *)
theory Provision_Facts
  imports Allocate_Facts Calm
begin

text \<open>
  The cloud branch of the allocator, over the interface \<open>cloud_provider\<close> that the provisioner of
  \<open>Cloud_Manager\<close> implements: a task's tracker slot survives only when an enabled node row was
  committed for it, and (unless the store fails) a failed provisioning leaves no temporary node row.
\<close>

definition unfaulty :: "'x store_scheme \<Rightarrow> bool" where
  "unfaulty s \<longleftrightarrow> st_faults s = []"

locale cloud_provider =
  fixes cp :: "'y cloud_port"
  assumes allocate_frame: "frames wdata (cp_allocate cp name n)"
    and deallocate_frame: "frames wdata (cp_deallocate cp n)"
    and allocate_unfaulty: "keeps unfaulty (cp_allocate cp name n)"
    and deallocate_unfaulty: "keeps unfaulty (cp_deallocate cp n)"
    and allocate_node: "cp_allocate cp name n w = (Inr n', w') \<Longrightarrow> n_node_id n' = n_node_id n \<and> n_enabled n'"

section \<open>The provisioner implements the interface\<close>

lemma keeps_unfaulty_retry: "keeps unfaulty m \<Longrightarrow> keeps unfaulty (retry p m)"
  by (rule keeps_retry) (auto simp: unfaulty_def)

lemma keeps_unfaulty_prims [keeps_intros]:
  "keeps unfaulty (round_trip :: ('x, unit) prog)" "keeps unfaulty (remote_call sid op)" "keeps unfaulty env_call"
  "keeps unfaulty (repo_connect rd n)" "keeps unfaulty (sem_acquire a)" "keeps unfaulty (sem_release a)"
  "keeps unfaulty (api_delete pr ext)" "keeps unfaulty (api_create pr)"
  by (auto simp: keeps_def unfaulty_def round_trip_def remote_call_def env_call_def repo_connect_def repo_connect_at_def env_close_def
      register_session_def Let_def sem_acquire_def sem_release_def modifyM_def api_delete_def api_create_def
      split: list.split sum.split option.split prod.split)

lemma keeps_unfaulty_disconnect [keeps_intros]: "keeps unfaulty (repo_disconnect nid :: ('y, unit) wprog)"
proof -
  have rt: "unfaulty (snd (round_trip v))" if "unfaulty v" for v :: "'y world_scheme"
    using keepsD [OF keeps_unfaulty_prims(1) that] .
  have c: "unfaulty (snd (session_close sid v))" if "unfaulty v" for sid and v :: "'y world_scheme"
  proof -
    have "unfaulty (upd_sess sid g u)" if "unfaulty u" for g and u :: "'y world_scheme"
      using that by (simp add: unfaulty_def)
    then show ?thesis using rt that by (simp add: session_close_def Let_def)
  qed
  have r: "unfaulty (v\<lparr>w_registry := rs\<rparr>) = unfaulty v" for v :: "'y world_scheme" and rs
    by (simp add: unfaulty_def)
  show ?thesis
    by (rule keepsI) (simp add: repo_disconnect_def c r split: option.split)
qed

lemma keeps_unfaulty_setup [keeps_intros]: "keeps unfaulty (setup_vm pv n a cfg)"
proof -
  have "keeps unfaulty (session_setup_node sid es :: ('y, unit) wprog)" for sid es
  proof (rule keepsI)
    fix v :: "'y world_scheme" assume "unfaulty v"
    then show "unfaulty (snd (session_setup_node sid es v))"
      unfolding session_setup_node_def by (rule keepsD [OF keeps_then [OF keeps_unfaulty_prims(2) keeps_skip]])
  qed
  then show ?thesis
    unfolding setup_vm_def connect_to_vm_def wait_cloud_init_def Let_def
    by (intro keeps_intros keeps_unfaulty_retry)
qed

lemma keeps_unfaulty_cloud:
  "keeps unfaulty (cloud_allocate pv provider n)" "keeps unfaulty (cloud_deallocate pv n)"
  unfolding cloud_allocate_def allocate_with_def teardown_vm_def swallow_all_def cloud_deallocate_def
  by (intro keeps_intros)+

lemma teardown_raises: "teardown_vm a n dto err w = (Inr x, w') \<Longrightarrow> False"
  by (auto simp: teardown_vm_def swallow_all_def monad_simps split: prod.splits sum.splits if_splits)

lemma cloud_allocate_node:
  assumes "cloud_allocate pv provider n w = (Inr n', w')"
  shows "n_node_id n' = n_node_id n \<and> n_enabled n'"
proof -
  obtain a cfg where ac: "dget (pv_adapters pv) provider = Some a" "dget (pv_configs pv) provider = Some cfg"
    using assms by (auto simp: cloud_allocate_def raiseM_def split: option.splits)
  define v where "v = snd (sem_acquire a w)"
  obtain q w1 where q: "allocate_with pv a cfg n v = (q, w1)" by (cases "allocate_with pv a cfg n v")
  have "allocate_with pv a cfg n v = (Inr n', w1)"
    using assms ac q by (simp add: cloud_allocate_def thenM_def bindM_def finallyM_def sem_acquire_def sem_release_def
        modifyM_def v_def)
  then have "bindM (create_step a) (\<lambda>dto. catchM (setup_vm pv (stamp_node n dto a) a cfg)
      (teardown_vm a (stamp_node n dto a) dto)) v = (Inr n', w1)"
    by (simp add: allocate_with_alt)
  then obtain dto v1 where v1: "catchM (setup_vm pv (stamp_node n dto a) a cfg)
      (teardown_vm a (stamp_node n dto a) dto) v1 = (Inr n', w1)"
    by (cases rule: bindM_cases) auto
  obtain q v2 where q: "setup_vm pv (stamp_node n dto a) a cfg v1 = (q, v2)"
    by (cases "setup_vm pv (stamp_node n dto a) a cfg v1")
  have "q = Inr n'"
    using v1 q teardown_raises by (cases q) (auto simp: catchM_def)
  then show ?thesis using setup_vm_Inr [of pv "stamp_node n dto a" a cfg v1 n' v2] q by (simp add: stamp_node_def)
qed

interpretation manager: cloud_provider "cloud_port_of pv" for pv
  by unfold_locales
    (simp_all add: cloud_port_of_def frames_wdata_allocate frames_wdata_deallocate keeps_unfaulty_cloud,
     blast dest: cloud_allocate_node)

section \<open>The temporary node\<close>

lemma frames_cleanup [frames_intros]: "frames store.more (cleanup_tmp_node nid)"
  unfolding cleanup_tmp_node_def by (intro frames_intros)

lemma more_tracker: "frames store.more m \<Longrightarrow> m w = (r, w') \<Longrightarrow> w_tracker w' = w_tracker (w :: 'y world_scheme)"
  using framesD' [of store.more m w r w'] world_more_sess [of w' w] by simp

lemma wdata_tracker: "frames wdata m \<Longrightarrow> m w = (r, w') \<Longrightarrow> w_tracker w' = w_tracker w"
  using framesD' [of wdata m w r w'] by (simp add: wdata_def)

lemma cleanup_result: "cleanup_tmp_node nid w = (r, w') \<Longrightarrow> r = Inr () \<or> r = Inl CancelledError"
  by (auto simp: cleanup_tmp_node_def suppress_def catchM_def skipM_def returnM_def raiseM_def is_Exception_def
      split: prod.splits sum.splits if_splits)

text \<open>A freshly inserted node row, which nothing refers to, is removed without a trace.\<close>

lemma sql_node_insert_Inr:
  assumes "sql_node_insert vals d = (Inr row, d')"
  shows "d_tasks d' = d_tasks d" "d_nodes d' = d_nodes d @ [row]" "d_now d' = d_now d"
    "q_node_id row = d_next_node d" "node_row_ok row"
    "row = vals\<lparr>q_node_id := d_next_node d, q_created_at := d_now d, q_updated_at := d_now d\<rparr>"
  using assms by (auto simp: sql_node_insert_def Let_def split: if_splits)

lemma remove_fresh:
  assumes wf: "db_wf d" and ins: "sql_node_insert vals d = (Inr row, d1)" and eq: "rows_of d2 = rows_of d1"
  shows "\<exists>d3. sql_node_remove (q_node_id row) d2 = (Inr [q_node_id row], d3) \<and> rows_of d3 = rows_of d"
proof -
  note I = sql_node_insert_Inr [OF ins]
  let ?i = "q_node_id row"
  have eqs: "d_tasks d2 = d_tasks d" "d_nodes d2 = d_nodes d @ [row]" "d_now d2 = d_now d"
    using eq I by (simp_all add: rows_of_def)
  have lt: "q_node_id q < ?i" if "q \<in> set (d_nodes d)" for q using that db_wfD(7) [OF wf] I by simp
  have fk: "r_node r \<noteq> Some ?i" if "r \<in> set (d_tasks d)" for r
    using db_wfD(5) [OF wf that] lt unfolding task_row_ok_def task_fk_iff
    by (metis imageE order_less_irrefl)
  have same: "map (unlink_row d2 ?i) (d_tasks d2) = d_tasks d"
    using fk eqs by (auto intro!: map_idI simp: unlink_row_def)
  have ck: "list_all task_check (d_tasks d)"
    using db_wfD(5) [OF wf] by (auto simp: list_all_iff task_row_ok_def)
  have hits: "filter (\<lambda>q. q_node_id q = ?i) (d_nodes d2) = [row]"
    using lt eqs by (auto simp: filter_empty_conv dest: order_less_imp_not_eq)
  have rest: "filter (\<lambda>q. q_node_id q \<noteq> ?i) (d_nodes d2) = d_nodes d"
    using lt eqs by (auto simp: filter_id_conv dest: order_less_imp_not_eq)
  show ?thesis
    using hits rest same ck eqs by (simp add: sql_node_remove_def Let_def rows_of_def)
qed

lemma remove_absent:
  "i \<notin> q_node_id ` set (d_nodes d) \<Longrightarrow> sql_node_remove i d = (Inr [], d)"
  by (auto simp: sql_node_remove_def Let_def filter_empty_conv)

text \<open>With a store that does not fail the cleanup has exactly the effect of the DELETE.\<close>

lemma cleanup_no_fault:
  assumes nf: "unfaulty w" and un: "uncancelled (st_bus w)"
    and del: "sql_node_remove (nid_value nid) (st_db w) = (Inr rows, d)"
    and run: "cleanup_tmp_node nid w = (r, w')"
  shows "r = Inr () \<and> unfaulty w' \<and> st_bus w' = st_bus w \<and> rows_of (st_db w') = rows_of d"
proof -
  let ?F = "a_touch nid (sql_node_remove (nid_value nid))"
  obtain q w1 where q: "with_uow (thenM (nodes_remove nid) uow_commit) w = (q, w1)"
    by (cases "with_uow (thenM (nodes_remove nid) uow_commit) w")
  have den: "tx_den (nodes_remove nid) ?F" by (rule tx_touches)
  note q' = q [unfolded then_commit]
  have nf': "st_faults w = []" using nf by (simp add: unfaulty_def)
  note N = with_uow_commit_no_fault [OF den nf' un q']
  note T = with_uow_commit [OF den q']
  have r: "r = Inr ()" "w' = w1" if "q = Inr () \<or> (\<exists>e. q = Inl e \<and> is_Exception e)"
    using run q that by (auto simp: cleanup_tmp_node_def suppress_def catchM_def skipM_def returnM_def)
  show ?thesis
  proof (cases "rows = []")
    case True
    then have d: "d = st_db w" using del by (auto simp: sql_node_remove_def Let_def split: if_splits)
    have "?F (st_db w, []) = (Inl (NodeRowNotFoundError nid), (d, []))"
      using del True by (simp add: a_touch_def a_sql_def bindM_def raiseM_def)
    then show ?thesis
      using N T r d by (auto simp: tx_result_def visible_def committed_def is_Exception_def unfaulty_def)
  next
    case False
    have F: "?F (st_db w, []) = (Inr (), (d, []))"
      using del False by (simp add: a_touch_def a_sql_def bindM_def skipM_def returnM_def)
    then have "q = Inr ()" "st_db w1 = d" "st_bus w1 = st_bus w" "st_faults w1 = []"
      using N T by (auto simp: tx_result_def)
    then show ?thesis using r by (simp add: unfaulty_def)
  qed
qed

section \<open>Reserving a slot\<close>

definition tmp_inserted :: "string \<Rightarrow> node \<Rightarrow> db \<Rightarrow> db \<Rightarrow> bool" where
  "tmp_inserted name n d d' \<longleftrightarrow> (\<exists>row. sql_node_insert (new_node_row (tmp_node_for name) (d_now d)) d = (Inr row, d')
     \<and> row_to_node row = Inr n)"

lemma select_and_insert_outcome:
  fixes w w' :: "'y world_scheme"
  assumes run: "select_and_insert_tmp cp e w = (r, w')"
  shows "store.more w' = store.more w"
    "st_bus w' = st_bus w \<and>
     ((visible w' = visible w \<and> (\<forall>x. r = Inr x \<longrightarrow> x = None))
      \<or> (\<exists>name n. tmp_inserted name n (st_db w) (st_db w') \<and> (r = Inr (Some (name, n)) \<or> r = Inl CancelledError)))"
proof -
  let ?sel = "\<lambda>ns. getsM (cp_select cp (e_platforms e) (count_nodes_by_cloud ns)) :: ('y, string option) wprog"
  let ?ops = "bindM nodes_list_all (\<lambda>ns. bindM (?sel ns) (\<lambda>sel. case sel of
           None \<Rightarrow> returnM None
         | Some name \<Rightarrow> bindM (nodes_insert (tmp_node_for name)) (\<lambda>n. returnM (Some (name, n))))) :: ('y, (string \<times> node) option) wprog"
  let ?k = "(\<lambda>x. case x of None \<Rightarrow> returnM None | Some y \<Rightarrow> thenM uow_commit (returnM (Some y)))
      :: (string \<times> node) option \<Rightarrow> ('y, (string \<times> node) option) wprog"
  have kk: "bindM (case sel of None \<Rightarrow> returnM None
         | Some name \<Rightarrow> bindM (nodes_insert (tmp_node_for name)) (\<lambda>n. returnM (Some (name, n)))) ?k =
      (case sel of None \<Rightarrow> returnM None | Some name \<Rightarrow> bindM (nodes_insert (tmp_node_for name)) (\<lambda>n.
             thenM uow_commit (returnM (Some (name, n)))))" for sel
    by (simp add: bindM_assoc split: option.split)
  have eq: "select_and_insert_tmp cp e = with_uow (bindM ?ops ?k)"
    unfolding select_and_insert_tmp_def by (simp only: bindM_assoc kk)
  show "store.more w' = store.more w"
  proof -
    have "frames store.more (select_and_insert_tmp cp e)"
      unfolding select_and_insert_tmp_def by (intro frames_intros)
    from framesD' [OF this run] show ?thesis .
  qed
  let ?ins = "\<lambda>name. bindM (a_node_insert (tmp_node_for name)) (\<lambda>n. returnM (Some (name, n))) :: (string \<times> node) option txn"
  let ?S = "\<lambda>x a y. (a = None \<and> y = x) \<or> (\<exists>name. ?ins name x = (Inr a, y))"
  let ?R = "rel_bind (of_txn (a_rows sql_node_list_all row_to_node)) (\<lambda>_. ?S)"
  have ops: "tx_run ?ops ?R"
  proof (intro tx_run_bind tx_run_den tx_lists)
    fix ns
    have den: "tx_den (bindM (nodes_insert (tmp_node_for name)) (\<lambda>n. returnM (Some (name, n)))
        :: ('y, (string \<times> node) option) wprog) (?ins name)" for name by (intro tx_intros)
    show "tx_run (bindM (?sel ns) (\<lambda>sel. case sel of None \<Rightarrow> returnM None
         | Some name \<Rightarrow> bindM (nodes_insert (tmp_node_for name)) (\<lambda>n. returnM (Some (name, n))))) ?S"
    proof (rule tx_runI, goal_cases)
      case (1 s d a s')
      show ?case
      proof (cases "cp_select cp (e_platforms e) (count_nodes_by_cloud ns) s")
        case None
        then show ?thesis using 1 by (simp add: bindM_def getsM_def returnM_def)
      next
        case (Some name)
        then have "bindM (nodes_insert (tmp_node_for name)) (\<lambda>n. returnM (Some (name, n))) s = (Inr a, s')"
          using 1(3) by (simp add: bindM_def getsM_def)
        from tx_denD_Inr [OF den 1(1,2) this] show ?thesis by blast
      qed
    next
      case (2 s d er s')
      show ?case
      proof (cases "cp_select cp (e_platforms e) (count_nodes_by_cloud ns) s")
        case None
        then show ?thesis using 2 by (simp add: bindM_def getsM_def returnM_def)
      next
        case (Some name)
        then have "bindM (nodes_insert (tmp_node_for name)) (\<lambda>n. returnM (Some (name, n))) s = (Inl er, s')"
          using 2(3) by (simp add: bindM_def getsM_def)
        from tx_denD_Inl(1) [OF den 2(1,2) this] show ?thesis .
      qed
    qed
  qed
  have B: "block_result ?R (\<lambda>x. x \<noteq> None) ?k (\<lambda>x. x) w r w'"
    by (rule with_uow_block [OF ops _ _ run [unfolded eq]]) (auto simp: returnM_def split: option.split)
  have ins: "\<exists>name n. a = Some (name, n) \<and> tmp_inserted name n (st_db w) d" if R: "?R (st_db w, []) a (d, ts)" "a \<noteq> None" for a d ts
  proof -
    obtain name where "?ins name (st_db w, []) = (Inr a, (d, ts))"
      using R a_rows_Inr(1) by (fastforce simp: rel_bind_def of_txn_def sql_selects_db)
    then show ?thesis
      by (auto simp: a_node_insert_def a_sql_def bindM_def fromSum_def returnM_def tmp_inserted_def
          split: prod.splits sum.splits)
  qed
  show "st_bus w' = st_bus w \<and>
     ((visible w' = visible w \<and> (\<forall>x. r = Inr x \<longrightarrow> x = None))
      \<or> (\<exists>name n. tmp_inserted name n (st_db w) (st_db w') \<and> (r = Inr (Some (name, n)) \<or> r = Inl CancelledError)))"
    using B
  proof (unfold block_result_def, elim conjE disjE exE)
    assume "st_bus w' = st_bus w" "visible w' = visible w"
      and r: "\<forall>b. r = Inr b \<longrightarrow> (\<exists>a x t. ?R (st_db w, []) a x \<and> \<not> a \<noteq> None \<and> fst (?k a t) = Inr b)"
    moreover have "x = None" if x: "r = Inr x" for x
    proof -
      obtain a v where "a = None" "fst (?k a v) = Inr x" using r x by blast
      then show ?thesis by (simp add: returnM_def)
    qed
    ultimately show ?thesis by blast
  next
    fix a d ts
    assume b: "st_bus w' = st_bus w" and R: "?R (st_db w, []) a (d, ts)" "a \<noteq> None" and d: "st_db w' = d" and r: "r = Inr a"
    from ins [OF R] show ?thesis using b d r by blast
  next
    fix a d ts cs
    assume b: "st_bus w' = st_bus w" and R: "?R (st_db w, []) a (d, ts)" "a \<noteq> None" and d: "st_db w' = d"
      and r: "r = Inl CancelledError"
    from ins [OF R] show ?thesis using b d r by blast
  qed
qed

section \<open>The outcome of a provisioning\<close>

text \<open>The row of the node, up to the time stamps the database keeps itself.\<close>

definition node_saved :: "node \<Rightarrow> db \<Rightarrow> bool" where
  "node_saved n d \<longleftrightarrow> (\<exists>q \<in> set (d_nodes d).
     q = (node_to_row n)\<lparr>q_created_at := q_created_at q, q_updated_at := q_updated_at q\<rparr>)"

lemma sql_node_update_saved:
  assumes "sql_node_update (node_to_row n) d = (Inr rows, d')" "rows \<noteq> []"
  shows "node_saved n d'"
proof -
  let ?row = "node_to_row n"
  obtain q where q: "q \<in> set (d_nodes d)" "q_node_id q = q_node_id ?row"
    using assms by (auto simp: sql_node_update_def sql_node_update_by_def Let_def filter_empty_conv split: if_splits)
  let ?u = "?row\<lparr>q_node_id := q_node_id q, q_created_at := q_created_at q, q_updated_at := d_now d\<rparr>"
  have "?u \<in> set (d_nodes d')"
    using assms q by (auto simp: sql_node_update_def sql_node_update_by_def Let_def image_iff split: if_splits)
  moreover have "?u = ?row\<lparr>q_created_at := q_created_at ?u, q_updated_at := q_updated_at ?u\<rparr>"
    using q(2) by (simp add: node_to_row_def)
  ultimately show ?thesis unfolding node_saved_def by blast
qed

lemma dpop_dput_same [simp]: "dpop k (dput k v d) = dpop k d"
  by (induction d) (auto split: if_splits)

lemma discard_after_link [simp]: "tracker_discard tid (tracker_set_node tid nid tr) = tracker_discard tid tr"
  by (simp add: tracker_discard_def tracker_set_node_def)

lemma release_slot_tracker:
  assumes "release_slot tid tmp w = (r, w')"
  shows "w_tracker w' = tracker_discard tid (w_tracker w)" "r = Inr () \<or> r = Inl CancelledError"
proof -
  let ?w = "w\<lparr>w_tracker := tracker_discard tid (w_tracker w)\<rparr>"
  have s: "(case tmp of None \<Rightarrow> skipM | Some nid \<Rightarrow> cleanup_tmp_node nid) ?w = (r, w')"
    using assms by (simp add: release_slot_def discard_slot_def thenM_def bindM_def modifyM_def)
  show "w_tracker w' = tracker_discard tid (w_tracker w)"
    using s more_tracker [OF frames_cleanup] by (cases tmp) (fastforce simp: skipM_def returnM_def)+
  show "r = Inr () \<or> r = Inl CancelledError"
    using s cleanup_result by (cases tmp) (auto simp: skipM_def returnM_def)
qed

lemma persist_Inr:
  assumes "persist_node_with_cleanup cp n tmp_id w = (Inr u, w')"
  shows "node_saved n (st_db w')" "w_tracker w' = w_tracker w"
proof -
  have w: "with_uow (thenM (nodes_update n) uow_commit) w = (Inr u, w')"
    using assms unfolding persist_node_with_cleanup_def
    by (auto simp: catchM_def thenM_def bindM_def raiseM_def split: prod.splits sum.splits)
  have den: "tx_den (nodes_update n) (a_touch (n_node_id n) (sql_node_update (node_to_row n)))" by (rule tx_touches)
  from with_uow_commit [OF den w [unfolded then_commit]] obtain d ts where
    "a_touch (n_node_id n) (sql_node_update (node_to_row n)) (st_db w, []) = (Inr u, (d, ts))" "st_db w' = d"
    by (auto simp: tx_result_def)
  then show "node_saved n (st_db w')" using sql_node_update_saved unfolding a_touch_Inr by blast
  have "frames store.more (with_uow (thenM (nodes_update n) uow_commit) :: ('a, unit) wprog)"
    by (intro frames_intros)
  from more_tracker [OF this w] show "w_tracker w' = w_tracker w" .
qed

context cloud_provider begin

lemma frames_tracker_suppressed: "frames w_tracker (suppress (cp_deallocate cp n))"
  by (rule framesI) (use wdata_tracker [OF frames_suppress [OF deallocate_frame]] in \<open>metis prod.collapse\<close>)

lemma tracker_of_more: "frames store.more m \<Longrightarrow> frames w_tracker (m :: ('y, 'a) wprog)"
  by (rule framesI) (metis more_tracker prod.collapse)

lemma tracker_of_wdata: "frames wdata m \<Longrightarrow> frames w_tracker (m :: ('y, 'a) wprog)"
  by (rule framesI) (metis wdata_tracker prod.collapse)

lemma frames_provisioning:
  "frames w_tracker (bindM (allocate_cloud_node cp name tmp) (\<lambda>n. persist_node_with_cleanup cp n i))"
  unfolding allocate_cloud_node_def persist_node_with_cleanup_def
  by (intro frames_intros tracker_of_wdata [OF allocate_frame] tracker_of_more frames_tracker_suppressed)

text \<open>A provisioning that succeeds has committed an enabled node and keeps the slot, linked to it; every
  other outcome gives the slot up.\<close>

theorem provision_slot:
  assumes run: "provision_node cp e tid w = (r, w')"
  shows "(w_tracker w' = tracker_discard tid (w_tracker w) \<and> r \<noteq> Inr True)
    \<or> (r = Inr False \<and> (\<exists>n. w_tracker w' = tracker_set_node tid (n_node_id n) (w_tracker w)
          \<and> n_enabled n \<and> node_saved n (st_db w')))"
proof -
  obtain sel w1 where sel: "select_and_insert_tmp cp e w = (sel, w1)" by (cases "select_and_insert_tmp cp e w")
  have t1: "w_tracker w1 = w_tracker w"
    using select_and_insert_outcome(1) [OF sel] world_more_sess [of w1 w] by simp
  have nt: "r \<noteq> Inr True \<and> w_tracker w' = tracker_discard tid (w_tracker v)"
    if "thenM (release_slot tid tmp) k v = (r, w')" and k: "k = returnM False \<or> (\<exists>er. k = raiseM er)" for tmp k v
    using that(1)
  proof (cases rule: thenM_cases)
    case (1 er)
    then show ?thesis using release_slot_tracker [OF 1(1)] by simp
  next
    case (2 u v1)
    then show ?thesis using release_slot_tracker [OF 2(1)] k by (auto simp: returnM_def raiseM_def)
  qed
  show ?thesis
  proof (cases sel)
    case (Inl er)
    then have "thenM (release_slot tid None) (raiseM er) w1 = (r, w')"
      using run sel by (simp add: provision_node_def bindM_def attemptM_def)
    from nt [OF this] t1 show ?thesis by auto
  next
    case (Inr x)
    show ?thesis
    proof (cases x)
      case None
      then have "thenM (release_slot tid None) (returnM False) w1 = (r, w')"
        using run sel Inr by (simp add: provision_node_def bindM_def attemptM_def)
      from nt [OF this] t1 show ?thesis by auto
    next
      case (Some p)
      obtain name tmp where p: "p = (name, tmp)" by (cases p)
      let ?w = "w1\<lparr>w_tracker := tracker_set_node tid (n_node_id tmp) (w_tracker w1)\<rparr>"
      let ?m = "bindM (allocate_cloud_node cp name tmp) (\<lambda>n. persist_node_with_cleanup cp n (n_node_id tmp))"
      obtain out w2 where out: "?m ?w = (out, w2)" by (cases "?m ?w")
      have t2: "w_tracker w2 = tracker_set_node tid (n_node_id tmp) (w_tracker w)"
        using framesD' [OF frames_provisioning out] t1 by simp
      have rest: "(case out of Inl err \<Rightarrow> thenM (release_slot tid (Some (n_node_id tmp))) (raiseM err)
          | Inr _ \<Rightarrow> returnM False) w2 = (r, w')"
        using run sel Inr Some p out
        by (cases out) (simp_all add: provision_node_def bindM_def attemptM_def thenM_def link_slot_def modifyM_def)
      show ?thesis
      proof (cases out)
        case (Inl er)
        then show ?thesis using nt [of "Some (n_node_id tmp)" "raiseM er" w2] rest t2 by auto
      next
        case u: (Inr u)
        have "bindM (allocate_cloud_node cp name tmp) (\<lambda>n. persist_node_with_cleanup cp n (n_node_id tmp)) ?w = (Inr u, w2)"
          using out u by simp
        then obtain n w3 where n: "allocate_cloud_node cp name tmp ?w = (Inr n, w3)"
            "persist_node_with_cleanup cp n (n_node_id tmp) w3 = (Inr u, w2)"
          by (cases rule: bindM_cases) auto
        have "cp_allocate cp name tmp ?w = (Inr n, w3)"
          using n(1) by (auto simp: allocate_cloud_node_def catchM_def thenM_def bindM_def raiseM_def
              split: prod.splits sum.splits if_splits)
        from allocate_node [OF this] have "n_node_id n = n_node_id tmp" "n_enabled n" by simp_all
        moreover have "r = Inr False" "w' = w2" using rest u by (simp_all add: returnM_def)
        ultimately show ?thesis using persist_Inr(1) [OF n(2)] t2 by auto
      qed
    qed
  qed
qed

text \<open>In a calm environment a provisioning that did not deliver a node leaves the rows as they were: the
  temporary node is gone, whether the cloud, the final save or the coroutine failed.\<close>

lemma cleanup_fresh:
  fixes v v' :: "'y world_scheme"
  assumes wf: "db_wf d" and ins: "sql_node_insert vals d = (Inr row, d1)" and id: "nid_value nid = q_node_id row"
    and calm: "calm_store v" and eq: "rows_of (st_db v) = rows_of d1 \<or> rows_of (st_db v) = rows_of d"
    and run: "cleanup_tmp_node nid v = (r, v')"
  shows "r = Inr () \<and> calm_store v' \<and> rows_of (st_db v') = rows_of d"
proof -
  have c: "unfaulty v" "uncancelled (st_bus v)" using calm by (simp_all add: calm_store_def unfaulty_def)
  have "\<exists>rows d3. sql_node_remove (nid_value nid) (st_db v) = (Inr rows, d3) \<and> rows_of d3 = rows_of d"
  proof (cases "rows_of (st_db v) = rows_of d1")
    case True
    from remove_fresh [OF wf ins True] show ?thesis using id by auto
  next
    case False
    then have same: "rows_of (st_db v) = rows_of d" using eq by simp
    have "q_node_id row \<notin> q_node_id ` set (d_nodes d)"
      using db_wfD(7) [OF wf] sql_node_insert_Inr(4) [OF ins] by (metis imageE order_less_irrefl)
    then have "nid_value nid \<notin> q_node_id ` set (d_nodes (st_db v))"
      using same id by (simp add: rows_of_def)
    from remove_absent [OF this] same show ?thesis by blast
  qed
  then obtain rows d3 where del: "sql_node_remove (nid_value nid) (st_db v) = (Inr rows, d3)" "rows_of d3 = rows_of d"
    by blast
  from cleanup_no_fault [OF c del(1) run] del(2) c show ?thesis
    by (simp add: calm_store_def unfaulty_def)
qed

lemma persist_fresh:
  fixes v v' :: "'y world_scheme"
  assumes wf: "db_wf d" and ins: "sql_node_insert vals d = (Inr row, d1)" and id: "nid_value nid = q_node_id row"
    and calm: "calm_store v" and eq: "rows_of (st_db v) = rows_of d1"
    and run: "persist_node_with_cleanup cp n nid v = (Inl er, v')"
  shows "calm_store v' \<and> (rows_of (st_db v') = rows_of d1 \<or> rows_of (st_db v') = rows_of d)"
proof -
  obtain q v1 where q: "with_uow (thenM (nodes_update n) uow_commit) v = (q, v1)"
    by (cases "with_uow (thenM (nodes_update n) uow_commit) v")
  have den: "tx_den (nodes_update n) (a_touch (n_node_id n) (sql_node_update (node_to_row n)))" by (rule tx_touches)
  have "calm (with_uow (thenM (nodes_update n) uow_commit) :: ('y, unit) wprog)" by (intro calm_intros)
  note C = calmD [OF this calm q]
  obtain er1 where er1: "q = Inl er1"
    using run q by (cases q) (auto simp: persist_node_with_cleanup_def catchM_def)
  then have same: "rows_of (st_db v1) = rows_of d1"
    using with_uow_commit [OF den q [unfolded then_commit]] C eq
    by (auto simp: tx_result_def visible_def committed_def)
  have rest: "thenM (suppress (cp_deallocate cp n)) (thenM (cleanup_tmp_node nid) (raiseM er1)) v1 = (Inl er :: exn + unit, v')"
    using run q er1 by (simp add: persist_node_with_cleanup_def catchM_def)
  have S: "st_db v2 = st_db v1 \<and> calm_store v2" if "suppress (cp_deallocate cp n) v1 = (y, v2)" for y v2
  proof -
    have "wdata v2 = wdata v1" using framesD' [OF frames_suppress [OF deallocate_frame] that] .
    moreover have "unfaulty v2"
      using keepsD' [OF keeps_suppress [OF deallocate_unfaulty] _ that] C by (simp add: unfaulty_def calm_store_def)
    ultimately show ?thesis using C by (simp add: wdata_def calm_store_def unfaulty_def)
  qed
  from rest show ?thesis
  proof (cases rule: thenM_cases)
    case (1 e2)
    then show ?thesis using S same by metis
  next
    case (2 u v2)
    have v2: "calm_store v2" "rows_of (st_db v2) = rows_of d1" using S [OF 2(1)] same by simp_all
    obtain y v3 where y: "cleanup_tmp_node nid v2 = (y, v3)" by (cases "cleanup_tmp_node nid v2")
    note D = cleanup_fresh [OF wf ins id v2(1) _ y]
    show ?thesis using 2(2) y D v2(2) by (auto simp: thenM_def bindM_def raiseM_def)
  qed
qed

theorem provision_no_leak:
  fixes w w' :: "'y world_scheme"
  assumes wf: "db_wf (st_db w)" and calm: "calm_store w" and run: "provision_node cp e tid w = (r, w')"
  shows "rows_of (st_db w') = rows_of (st_db w) \<or> (r = Inr False \<and> (\<exists>n. n_enabled n \<and> node_saved n (st_db w')))"
proof -
  obtain sel w1 where sel: "select_and_insert_tmp cp e w = (sel, w1)" by (cases "select_and_insert_tmp cp e w")
  have cs: "calm (select_and_insert_tmp cp e)" unfolding select_and_insert_tmp_def by (intro calm_intros)
  note C = calmD [OF cs calm sel]
  note O = select_and_insert_outcome(2) [OF sel]
  have none: "rows_of (st_db w') = rows_of (st_db v)" if "thenM (release_slot tid None) k v = (r, w')"
    and "\<And>u. snd (k u) = u" for k v
    using that(1) that(2) [of "v\<lparr>w_tracker := tracker_discard tid (w_tracker v)\<rparr>"]
    by (simp add: release_slot_def discard_slot_def thenM_def bindM_def modifyM_def skipM_def returnM_def)
  show ?thesis
  proof (cases "\<exists>name tmp. sel = Inr (Some (name, tmp))")
    case False
    then have "visible w1 = visible w" using O C by auto
    moreover have "rows_of (st_db w') = rows_of (st_db w1)"
    proof (cases sel)
      case (Inl er)
      then show ?thesis using none [of "raiseM er" w1] run sel by (simp add: provision_node_def bindM_def attemptM_def raiseM_def)
    next
      case (Inr x)
      then have "x = None" using False by (cases x) auto
      then show ?thesis using none [of "returnM False" w1] run sel Inr by (simp add: provision_node_def bindM_def attemptM_def returnM_def)
    qed
    ultimately show ?thesis by (simp add: visible_def committed_def)
  next
    case True
    then obtain name tmp where s: "sel = Inr (Some (name, tmp))" by blast
    have "\<exists>nm n. tmp_inserted nm n (st_db w) (st_db w1) \<and> n = tmp"
      using O s by auto
    then obtain vals row where ins: "sql_node_insert vals (st_db w) = (Inr row, st_db w1)" and rn: "row_to_node row = Inr tmp"
      by (auto simp: tmp_inserted_def)
    have id: "nid_value (n_node_id tmp) = q_node_id row"
      using rn by (auto simp: row_to_node_def mk_node_id_def split: if_splits)
    let ?w = "w1\<lparr>w_tracker := tracker_set_node tid (n_node_id tmp) (w_tracker w1)\<rparr>"
    let ?m = "bindM (allocate_cloud_node cp name tmp) (\<lambda>n. persist_node_with_cleanup cp n (n_node_id tmp))"
    have w: "calm_store ?w" "rows_of (st_db ?w) = rows_of (st_db w1)" using C by (simp_all add: calm_store_def)
    obtain out w2 where out: "?m ?w = (out, w2)" by (cases "?m ?w")
    have rest: "(case out of Inl err \<Rightarrow> thenM (release_slot tid (Some (n_node_id tmp))) (raiseM err)
        | Inr _ \<Rightarrow> returnM False) w2 = (r, w')"
      using run sel s out
      by (cases out) (simp_all add: provision_node_def bindM_def attemptM_def thenM_def link_slot_def modifyM_def)
    have A: "st_db v = st_db ?w \<and> calm_store v" if "cp_allocate cp name tmp ?w = (y, v)" for y v
      using framesD' [OF allocate_frame that] keepsD' [OF allocate_unfaulty _ that] w(1)
      by (simp add: wdata_def calm_store_def unfaulty_def)
    show ?thesis
    proof (cases out)
      case u: (Inr u)
      then have "\<not> rows_of (st_db w') = rows_of (st_db w) \<Longrightarrow> ?thesis"
      proof -
        have "?m ?w = (Inr u, w2)" using out u by simp
        then obtain n w3 where n: "allocate_cloud_node cp name tmp ?w = (Inr n, w3)"
            "persist_node_with_cleanup cp n (n_node_id tmp) w3 = (Inr u, w2)"
          by (cases rule: bindM_cases) auto
        have "cp_allocate cp name tmp ?w = (Inr n, w3)"
          using n(1) by (auto simp: allocate_cloud_node_def catchM_def thenM_def bindM_def raiseM_def
              split: prod.splits sum.splits if_splits)
        from allocate_node [OF this] persist_Inr(1) [OF n(2)] show ?thesis using rest u by (auto simp: returnM_def)
      qed
      then show ?thesis by blast
    next
      case (Inl er)
      have fresh: "calm_store w2 \<and> (rows_of (st_db w2) = rows_of (st_db w1) \<or> rows_of (st_db w2) = rows_of (st_db w))"
        using out unfolding Inl
      proof (cases rule: bindM_cases)
        case (1 e2)
        obtain y v where y: "cp_allocate cp name tmp ?w = (y, v)" by (cases "cp_allocate cp name tmp ?w")
        note Av = A [OF y]
        have "(\<exists>err. cleanup_tmp_node (n_node_id tmp) v = (err, w2)) \<or> w2 = v"
          using 1(1) y by (auto simp: allocate_cloud_node_def catchM_def thenM_def bindM_def raiseM_def
              split: prod.splits sum.splits if_splits)
        then show ?thesis using cleanup_fresh [OF wf ins id, of v] Av w by auto
      next
        case (2 n w3)
        have "cp_allocate cp name tmp ?w = (Inr n, w3)"
          using 2(1) by (auto simp: allocate_cloud_node_def catchM_def thenM_def bindM_def raiseM_def
              split: prod.splits sum.splits if_splits)
        from A [OF this] have "calm_store w3" "rows_of (st_db w3) = rows_of (st_db w1)" using w by simp_all
        from persist_fresh [OF wf ins id this 2(2)] show ?thesis .
      qed
      let ?v = "w2\<lparr>w_tracker := tracker_discard tid (w_tracker w2)\<rparr>"
      have v: "calm_store ?v" "rows_of (st_db ?v) = rows_of (st_db w1) \<or> rows_of (st_db ?v) = rows_of (st_db w)"
        using fresh by (simp_all add: calm_store_def)
      obtain y v' where y: "cleanup_tmp_node (n_node_id tmp) ?v = (y, v')" by (cases "cleanup_tmp_node (n_node_id tmp) ?v")
      note K = cleanup_fresh [OF wf ins id v y]
      have "w' = v'" using rest Inl y K
        by (simp add: release_slot_def discard_slot_def thenM_def bindM_def modifyM_def raiseM_def)
      then show ?thesis using K by simp
    qed
  qed
qed

end

end
