(* ===== verification/Node_Teardown.thy ===== *)
theory Node_Teardown
  imports Provision_Facts Cloud_Config
begin

text \<open>
  \<open>application/abandon_node.py\<close> and \<open>application/deallocate_nodes.py\<close>: giving up a node that never
  connected, and tearing down idle or drained nodes.
\<close>

section \<open>Abandoning\<close>

definition is_NodeRowNotFound :: "exn \<Rightarrow> bool" where
  "is_NodeRowNotFound e = (case e of NodeRowNotFoundError _ \<Rightarrow> True | _ \<Rightarrow> False)"

definition remove_row :: "node_id \<Rightarrow> ('x, unit) prog" where
  "remove_row nid = catchM (with_uow (thenM (nodes_remove nid) uow_commit))
     (\<lambda>e. if is_NodeRowNotFound e then skipM else raiseM e)"

definition disable_row :: "node_id \<Rightarrow> ('x, unit) prog" where
  "disable_row nid = with_uow (thenM (nodes_disable nid) uow_commit)"

definition discard_slots_of :: "node_id \<Rightarrow> ('y, unit) wprog" where
  "discard_slots_of nid = modifyM (\<lambda>w. w\<lparr>w_tracker := snd (tracker_discard_by_node nid (w_tracker w))\<rparr>)"

definition abandon_body :: "'y cloud_port \<Rightarrow> node \<Rightarrow> ('y, unit) wprog" where
  "abandon_body cp n =
     (if n_cloud n \<noteq> None
      then thenM (disable_row (n_node_id n))
          (thenM (cp_deallocate cp n)
                 (remove_row (n_node_id n)))
      else remove_row (n_node_id n))"

definition abandon_node :: "'y cloud_port \<Rightarrow> node \<Rightarrow> ('y, unit) wprog" where
  "abandon_node cp n = finallyM (abandon_body cp n) (discard_slots_of (n_node_id n))"

section \<open>Deallocating\<close>

definition node_busy :: "node_id \<Rightarrow> 'y world_scheme \<Rightarrow> bool" where
  "node_busy nid w = (case repo_get_session nid w of
      None \<Rightarrow> False | Some sid \<Rightarrow> m_state (ss_machine (sess w sid)) = BUSY)"

definition deallocate_node :: "'y cloud_port \<Rightarrow> node \<Rightarrow> ('y, unit) wprog" where
  "deallocate_node cp n =
     bindM (getsM (node_busy (n_node_id n))) (\<lambda>busy.
       if busy then skipM
       else bindM (getsM (repo_contains (n_node_id n))) (\<lambda>connected.
         thenM (whenM connected (repo_disconnect (n_node_id n)))
        (thenM (whenM (n_cloud n \<noteq> None \<and> n_cloud n \<noteq> Some '''')
                  (thenM (disable_row (n_node_id n)) (cp_deallocate cp n)))
               (suppress (with_uow (thenM (nodes_remove (n_node_id n)) uow_commit))))))"

text \<open>\<open>deallocate_nodes\<close>: \<open>now\<close> is read once; \<open>idle\<close> maps the idle machines to the time they became free.\<close>

definition to_disable :: "node list \<Rightarrow> (node_id \<times> real) list \<Rightarrow> real \<Rightarrow> config_cloud \<Rightarrow> node list" where
  "to_disable candidates idle now cfg =
     filter (\<lambda>n. n_cloud n = Some (cfg_prefix cfg)
               \<and> (case dget idle (n_node_id n) of None \<Rightarrow> False
                  | Some t \<Rightarrow> now - t \<ge> real_of_int (cfg_idle_tolerance cfg))) candidates"

definition deallocate_nodes ::
  "config_cloud list \<Rightarrow> (node_id \<times> real) list \<Rightarrow> ('y, node list) wprog" where
  "deallocate_nodes clouds idle =
     bindM (with_uow (bindM (tasks_list_running None) (\<lambda>running.
              bindM nodes_list_enabled (\<lambda>enabled. returnM (running, enabled)))))
       (\<lambda>(running, enabled).
         (let busy = map allocated_node_id_of running;
              candidates = dvalues (foldl (\<lambda>d n. dput (n_node_id n) n d) []
                             (filter (\<lambda>n. \<not> List.member busy (Some (n_node_id n))) enabled))
          in bindM (getsM w_clock) (\<lambda>now.
               thenM (forM clouds (\<lambda>cfg. forM (to_disable candidates idle now cfg) (\<lambda>n. disable_row (n_node_id n))))
                 (with_uow (bindM nodes_list_disabled (\<lambda>disabled.
                    returnM (filter (\<lambda>n. \<not> List.member busy (Some (n_node_id n))) disabled)))))))"

section \<open>The effects on the node table\<close>

definition disable_q :: "datetime \<Rightarrow> node_row \<Rightarrow> node_row" where
  "disable_q now q = q\<lparr>q_enabled := False, q_updated_at := now\<rparr>"

definition disabled_db :: "int \<Rightarrow> db \<Rightarrow> db \<Rightarrow> bool" where
  "disabled_db i d d' \<longleftrightarrow> d_tasks d' = d_tasks d
     \<and> d_nodes d' = map (\<lambda>q. if q_node_id q = i then disable_q (d_now d) q else q) (d_nodes d)"

definition removed_db :: "int \<Rightarrow> db \<Rightarrow> db \<Rightarrow> bool" where
  "removed_db i d d' \<longleftrightarrow> d_nodes d' = filter (\<lambda>q. q_node_id q \<noteq> i) (d_nodes d)
     \<and> d_tasks d' = map (unlink_row d i) (d_tasks d)
     \<and> (\<forall>r \<in> set (d_tasks d). r_status r = RUNNING \<longrightarrow> r_node r \<noteq> Some i)"

lemma sql_disable_Inr:
  "sql_node_disable i d = (Inr rows, d') \<Longrightarrow> disabled_db i d d'"
  by (auto simp: sql_node_disable_def sql_node_update_by_def Let_def disabled_db_def disable_q_def split: if_splits)

lemma sql_remove_Inr:
  assumes "sql_node_remove i d = (Inr rows, d')" "rows \<noteq> []"
  shows "removed_db i d d'"
proof -
  have ck: "list_all task_check (map (unlink_row d i) (d_tasks d))"
    and d': "d' = d\<lparr>d_nodes := filter (\<lambda>q. q_node_id q \<noteq> i) (d_nodes d), d_tasks := map (unlink_row d i) (d_tasks d)\<rparr>"
    using assms by (auto simp: sql_node_remove_def Let_def split: if_splits)
  have "r_node r \<noteq> Some i" if "r \<in> set (d_tasks d)" "r_status r = RUNNING" for r
  proof
    assume "r_node r = Some i"
    moreover have "task_check (unlink_row d i r)" using ck that(1) by (simp add: list_all_iff)
    ultimately show False using that(2) by (simp add: unlink_row_def task_check_def)
  qed
  then show ?thesis by (simp add: removed_db_def d')
qed

lemma touch_outcome:
  assumes den: "tx_den m (a_touch nid q)" and run: "with_uow (thenM m uow_commit) s = (r, s')"
  shows "(\<exists>e. r = Inl e \<and> visible s' = visible s)
    \<or> (\<exists>rows. q (st_db s) = (Inr rows, st_db s') \<and> rows \<noteq> [] \<and> st_trace s' = st_trace s \<and> (r = Inr () \<or> r = Inl CancelledError))"
proof -
  have "tx_result (a_touch nid q) s r s'" by (rule with_uow_commit [OF den run [unfolded then_commit]])
  moreover have "ts = [] \<and> (\<exists>rows. q (st_db s) = (Inr rows, d) \<and> rows \<noteq> [])"
    if "a_touch nid q (st_db s, []) = (Inr u, (d, ts))" for u d ts
    using that unfolding a_touch_Inr by auto
  moreover have none: "calls b (events_of []) = []" "events_of [] = []" for b by (simp_all add: calls_def events_of_def)
  ultimately show ?thesis
  proof (unfold tx_result_def, elim conjE disjE exE)
    fix e assume "r = Inl e" "visible s' = visible s"
    then show ?thesis by blast
  next
    fix u d ts
    assume F: "a_touch nid q (st_db s, []) = (Inr u, (d, ts))" and d: "st_db s' = d"
      and r: "r = Inr u" "st_trace s' = st_trace s @ calls (st_bus s) (events_of ts)"
      and ts: "\<And>u d ts. a_touch nid q (st_db s, []) = (Inr u, (d, ts)) \<Longrightarrow>
        ts = [] \<and> (\<exists>rows. q (st_db s) = (Inr rows, d) \<and> rows \<noteq> [])"
    show ?thesis using ts [OF F] d r none by auto
  next
    fix u d ts cs
    assume F: "a_touch nid q (st_db s, []) = (Inr u, (d, ts))" and d: "st_db s' = d"
      and r: "r = Inl CancelledError" "st_trace s' = st_trace s @ cs" "\<forall>c \<in> set cs. snd c \<in> set (events_of ts)"
      and ts: "\<And>u d ts. a_touch nid q (st_db s, []) = (Inr u, (d, ts)) \<Longrightarrow>
        ts = [] \<and> (\<exists>rows. q (st_db s) = (Inr rows, d) \<and> rows \<noteq> [])"
    have "cs = []" using ts [OF F] r(3) none by (cases cs) auto
    then show ?thesis using ts [OF F] d r by auto
  qed
qed

lemma disable_row_outcome:
  assumes "disable_row nid s = (r, s')"
  shows "(\<exists>e. r = Inl e \<and> visible s' = visible s)
    \<or> (disabled_db (nid_value nid) (st_db s) (st_db s') \<and> st_trace s' = st_trace s \<and> (r = Inr () \<or> r = Inl CancelledError))"
  using touch_outcome [OF tx_touches(2) assms [unfolded disable_row_def]] sql_disable_Inr by blast

lemma remove_outcome:
  assumes "with_uow (thenM (nodes_remove nid) uow_commit) s = (r, s')"
  shows "(\<exists>e. r = Inl e \<and> visible s' = visible s)
    \<or> (removed_db (nid_value nid) (st_db s) (st_db s') \<and> st_trace s' = st_trace s \<and> (r = Inr () \<or> r = Inl CancelledError))"
  using touch_outcome [OF tx_touches(1) assms] sql_remove_Inr by blast

lemma remove_row_outcome:
  assumes "remove_row nid s = (r, s')"
  shows "visible s' = visible s \<or> (removed_db (nid_value nid) (st_db s) (st_db s') \<and> st_trace s' = st_trace s)"
proof -
  obtain q s1 where q: "with_uow (thenM (nodes_remove nid) uow_commit) s = (q, s1)"
    by (cases "with_uow (thenM (nodes_remove nid) uow_commit) s")
  have "s' = s1"
    using assms q by (auto simp: remove_row_def catchM_def skipM_def returnM_def raiseM_def split: sum.splits if_splits)
  then show ?thesis using remove_outcome [OF q] by auto
qed

lemma frames_rows [frames_intros]:
  "frames store.more (disable_row nid)" "frames store.more (remove_row nid)"
  unfolding disable_row_def remove_row_def by (intro frames_intros)+

section \<open>Abandoning a node\<close>

lemma rows_of_db: "rows_of d' = rows_of d \<Longrightarrow> d_tasks d' = d_tasks d \<and> d_nodes d' = d_nodes d \<and> d_now d' = d_now d"
  by (simp add: rows_of_def)

lemma visible_rows: "visible s' = visible s \<Longrightarrow> rows_of (st_db s') = rows_of (st_db s) \<and> st_trace s' = st_trace s"
  by (simp add: visible_def committed_def)

context cloud_provider begin

lemma abandon_tracker:
  assumes "abandon_node cp n w = (r, w')"
  shows "w_tracker w' = snd (tracker_discard_by_node (n_node_id n) (w_tracker w))"
proof -
  have fr: "frames w_tracker (abandon_body cp n)"
    unfolding abandon_body_def
    by (intro frames_intros tracker_of_wdata [OF deallocate_frame] tracker_of_more)
  obtain q w1 where q: "abandon_body cp n w = (q, w1)" by (cases "abandon_body cp n w")
  have "w' = w1\<lparr>w_tracker := snd (tracker_discard_by_node (n_node_id n) (w_tracker w1))\<rparr>"
    using assms q by (simp add: abandon_node_def finallyM_def discard_slots_of_def modifyM_def)
  then show ?thesis using framesD' [OF fr q] by simp
qed

text \<open>The stages of an abandonment of a cloud node: nothing committed; the row disabled; the row removed,
  which only a successful deletion of the VM is followed by.\<close>

lemma abandon_stages:
  fixes w w' :: "'y world_scheme"
  assumes cl: "n_cloud n \<noteq> None" and run: "abandon_node cp n w = (r, w')"
  shows "rows_of (st_db w') = rows_of (st_db w)
    \<or> (\<exists>d. disabled_db (nid_value (n_node_id n)) (st_db w) d
         \<and> (rows_of (st_db w') = rows_of d
            \<or> (removed_db (nid_value (n_node_id n)) d (st_db w')
               \<and> (\<exists>v v'. cp_deallocate cp n v = (Inr (), v') \<and> st_db v = d))))"
proof -
  let ?i = "nid_value (n_node_id n)"
  obtain q w1 where q: "abandon_body cp n w = (q, w1)" by (cases "abandon_body cp n w")
  have w': "st_db w' = st_db w1"
    using run q by (auto simp: abandon_node_def finallyM_def discard_slots_of_def modifyM_def)
  have body: "thenM (disable_row (n_node_id n)) (thenM (cp_deallocate cp n) (remove_row (n_node_id n))) w = (q, w1)"
    using q cl by (simp add: abandon_body_def)
  then show ?thesis
  proof (cases rule: thenM_cases)
    case (1 e)
    from disable_row_outcome [OF 1(1)] show ?thesis
      using w' visible_rows [of w1 w] by (elim disjE) auto
  next
    case D: (2 u w2)
    have dis: "disabled_db ?i (st_db w) (st_db w2)" using disable_row_outcome [OF D(1)] by simp
    from D(2) show ?thesis
    proof (cases rule: thenM_cases)
      case (1 e)
      then have "st_db w1 = st_db w2" using framesD' [OF deallocate_frame 1(1)] by (simp add: wdata_def)
      then show ?thesis using dis w' by auto
    next
      case V: (2 u' w3)
      have same: "st_db w3 = st_db w2" using framesD' [OF deallocate_frame V(1)] by (simp add: wdata_def)
      have del: "cp_deallocate cp n w2 = (Inr (), w3)" using V(1) by simp
      from remove_row_outcome [OF V(2)] show ?thesis
      proof
        assume "visible w1 = visible w3"
        then show ?thesis using visible_rows [of w1 w3] same dis w' by auto
      next
        assume "removed_db ?i (st_db w3) (st_db w1) \<and> st_trace w1 = st_trace w3"
        then have "removed_db ?i (st_db w2) (st_db w')" using same w' by simp
        then show ?thesis using dis del by blast
      qed
    qed
  qed
qed

end

section \<open>Deallocating a node\<close>

lemma deallocate_busy:
  assumes "node_busy (n_node_id n) w"
  shows "deallocate_node cp n w = (Inr (), w)"
  using assms by (simp add: deallocate_node_def bindM_def getsM_def skipM_def returnM_def)

context cloud_provider begin

lemma deallocate_stages:
  fixes w w' :: "'y world_scheme"
  assumes free: "\<not> node_busy (n_node_id n) w" and run: "deallocate_node cp n w = (r, w')"
  shows "rows_of (st_db w') = rows_of (st_db w)
    \<or> ((n_cloud n = None \<or> n_cloud n = Some '''') \<and> removed_db (nid_value (n_node_id n)) (st_db w) (st_db w'))
    \<or> (\<exists>d. n_cloud n \<noteq> None \<and> n_cloud n \<noteq> Some '''' \<and> disabled_db (nid_value (n_node_id n)) (st_db w) d
         \<and> (rows_of (st_db w') = rows_of d
            \<or> (removed_db (nid_value (n_node_id n)) d (st_db w')
               \<and> (\<exists>v v'. cp_deallocate cp n v = (Inr (), v') \<and> st_db v = d))))"
proof -
  let ?i = "nid_value (n_node_id n)"
  let ?rm = "suppress (with_uow (thenM (nodes_remove (n_node_id n)) uow_commit)) :: ('y, unit) wprog"
  let ?cl = "n_cloud n \<noteq> None \<and> n_cloud n \<noteq> Some ''''"
  have rm: "rows_of (st_db v') = rows_of (st_db v) \<or> removed_db ?i (st_db v) (st_db v')" if "?rm v = (q, v')" for v v' q
  proof -
    obtain q1 v1 where q1: "with_uow (thenM (nodes_remove (n_node_id n)) uow_commit) v = (q1, v1)"
      by (cases "with_uow (thenM (nodes_remove (n_node_id n)) uow_commit) v")
    have "v' = v1" using that q1
      by (auto simp: suppress_def catchM_def skipM_def returnM_def raiseM_def split: sum.splits if_splits)
    then show ?thesis using remove_outcome [OF q1] visible_rows by blast
  qed
  have run': "thenM (whenM (repo_contains (n_node_id n) w) (repo_disconnect (n_node_id n)))
      (thenM (whenM ?cl (thenM (disable_row (n_node_id n)) (cp_deallocate cp n))) ?rm) w = (r, w')"
    using run free by (simp add: deallocate_node_def bindM_def [of "getsM _"] getsM_def)
  have disc: "frames wdata (whenM (repo_contains (n_node_id n) w) (repo_disconnect (n_node_id n)) :: ('y, unit) wprog)"
    by (intro frames_intros)
  from run' show ?thesis
  proof (cases rule: thenM_cases)
    case (1 e)
    then show ?thesis using framesD' [OF disc 1(1)] by (simp add: wdata_def)
  next
    case A: (2 u w1)
    have d1: "st_db w1 = st_db w" using framesD' [OF disc A(1)] by (simp add: wdata_def)
    show ?thesis
    proof (cases ?cl)
      case False
      then have "?rm w1 = (r, w')" using A(2) by (auto simp: whenM_def)
      from rm [OF this] show ?thesis using d1 False by auto
    next
      case True
      then have "thenM (thenM (disable_row (n_node_id n)) (cp_deallocate cp n)) ?rm w1 = (r, w')"
        using A(2) by (simp add: whenM_def)
      then show ?thesis
      proof (cases rule: thenM_cases)
        case (1 e)
        from 1(1) show ?thesis
        proof (cases rule: thenM_cases)
          case (1 e')
          from disable_row_outcome [OF 1(1)] show ?thesis
            using d1 True visible_rows [of w' w1] by (elim disjE) auto
        next
          case D: (2 u' w2)
          have "disabled_db ?i (st_db w1) (st_db w2)" using disable_row_outcome [OF D(1)] by simp
          moreover have "st_db w' = st_db w2" using framesD' [OF deallocate_frame D(2)] by (simp add: wdata_def)
          ultimately show ?thesis using d1 True by auto
        qed
      next
        case B: (2 u' w3)
        from B(1) obtain w2 where D: "disable_row (n_node_id n) w1 = (Inr (), w2)" "cp_deallocate cp n w2 = (Inr (), w3)"
          by (cases rule: thenM_cases) auto
        have dis: "disabled_db ?i (st_db w) (st_db w2)" using disable_row_outcome [OF D(1)] d1 by simp
        have "st_db w3 = st_db w2" using framesD' [OF deallocate_frame D(2)] by (simp add: wdata_def)
        then have "rows_of (st_db w') = rows_of (st_db w2) \<or> removed_db ?i (st_db w2) (st_db w')"
          using rm [OF B(2)] by simp
        then show ?thesis using dis True D(2) by blast
      qed
    qed
  qed
qed

end

section \<open>Choosing the nodes to tear down\<close>

text \<open>A row may be disabled: it was enabled, no RUNNING task held it, its provider is configured and it has
  been idle for at least that provider's tolerance.\<close>

definition idle_row :: "config_cloud list \<Rightarrow> (node_id \<times> real) list \<Rightarrow> real \<Rightarrow> db \<Rightarrow> node_row \<Rightarrow> bool" where
  "idle_row clouds idle now d q \<longleftrightarrow> q_enabled q
     \<and> (\<forall>r \<in> set (d_tasks d). r_status r = RUNNING \<longrightarrow> r_node r \<noteq> Some (q_node_id q))
     \<and> (\<exists>cfg \<in> set clouds. q_cloud q = Some (cfg_prefix cfg)
          \<and> (\<exists>t. dget idle (NodeId (q_node_id q)) = Some t \<and> now - t \<ge> real_of_int (cfg_idle_tolerance cfg)))"

definition drained_to :: "(node_row \<Rightarrow> bool) \<Rightarrow> node_row \<Rightarrow> node_row \<Rightarrow> bool" where
  "drained_to ok q q' \<longleftrightarrow> q' = q \<or> (ok q \<and> q' = disable_q (q_updated_at q') q)"

definition drained_db :: "(node_row \<Rightarrow> bool) \<Rightarrow> db \<Rightarrow> db \<Rightarrow> bool" where
  "drained_db ok d d' \<longleftrightarrow> d_tasks d' = d_tasks d \<and> list_all2 (drained_to ok) (d_nodes d) (d_nodes d')"

lemma drained_refl: "rows_of d' = rows_of d \<Longrightarrow> drained_db ok d d'"
  by (auto simp: drained_db_def rows_of_def drained_to_def intro: list_all2_refl)

lemma drained_disable:
  assumes wf: "distinct (map q_node_id (d_nodes d))" and dr: "drained_db ok d d1"
    and q: "q \<in> set (d_nodes d)" "ok q" and dis: "disabled_db (q_node_id q) d1 d2"
  shows "drained_db ok d d2"
proof -
  have step: "drained_to ok x (if q_node_id y = q_node_id q then disable_q (d_now d1) y else y)"
    if x: "x \<in> set (d_nodes d)" and y: "drained_to ok x y" for x y
  proof (cases "q_node_id y = q_node_id q")
    case True
    obtain u where "y = x \<or> y = disable_q u x" using y unfolding drained_to_def by blast
    then have "q_node_id x = q_node_id q" using True by (auto simp: disable_q_def)
    then have "x = q" using x q(1) wf by (auto simp: distinct_map inj_on_def)
    moreover from \<open>y = x \<or> y = disable_q u x\<close> have "disable_q (d_now d1) y = disable_q (d_now d1) x"
      by (auto simp: disable_q_def)
    ultimately show ?thesis using True q(2) by (simp add: drained_to_def disable_q_def)
  qed (use y in simp)
  have "list_all2 (drained_to ok) (d_nodes d) (d_nodes d2)"
  proof -
    let ?u = "\<lambda>y. if q_node_id y = q_node_id q then disable_q (d_now d1) y else y"
    have l: "list_all2 (drained_to ok) (d_nodes d) (d_nodes d1)" using dr by (simp add: drained_db_def)
    have "list_all2 (\<lambda>x y. drained_to ok x (?u y)) (d_nodes d) (d_nodes d1)"
      by (rule list.rel_mono_strong [OF l]) (rule step)
    then show ?thesis using dis by (simp add: disabled_db_def list_all2_map2)
  qed
  then show ?thesis using dr dis by (simp add: drained_db_def disabled_db_def)
qed

lemma keeps_drained_row:
  fixes d :: db
  assumes wf: "db_wf d" and q: "q \<in> set (d_nodes d)" "ok q" "nid_value nid = q_node_id q"
  shows "keeps (\<lambda>v :: 'y world_scheme. drained_db ok d (st_db v)) (disable_row nid)"
proof (rule keepsI)
  fix v :: "'y world_scheme" assume dr: "drained_db ok d (st_db v)"
  obtain r v' where r: "disable_row nid v = (r, v')" by (cases "disable_row nid v")
  from disable_row_outcome [OF r] have "drained_db ok d (st_db v')"
  proof
    assume "\<exists>e. r = Inl e \<and> visible v' = visible v"
    then have "rows_of (st_db v') = rows_of (st_db v)" using visible_rows by blast
    then show ?thesis using dr by (simp add: drained_db_def rows_of_def)
  next
    assume "disabled_db (nid_value nid) (st_db v) (st_db v') \<and> st_trace v' = st_trace v \<and> (r = Inr () \<or> r = Inl CancelledError)"
    then show ?thesis using drained_disable [OF db_wfD(2) [OF wf] dr q(1,2)] q(3) by simp
  qed
  then show "drained_db ok d (st_db (snd (disable_row nid v)))" using r by simp
qed

lemma snapshot_outcome:
  assumes run: "with_uow (bindM (tasks_list_running None) (\<lambda>running.
              bindM nodes_list_enabled (\<lambda>enabled. returnM (running, enabled)))) s = (Inr (running, enabled), s')"
  shows "n \<in> set enabled \<Longrightarrow> \<exists>q \<in> set (d_nodes (st_db s)). q_enabled q \<and> row_to_node q = Inr n"
    "Some (NodeId i) \<notin> set (map allocated_node_id_of running) \<Longrightarrow>
       \<forall>r \<in> set (d_tasks (st_db s)). r_status r = RUNNING \<longrightarrow> r_node r \<noteq> Some i"
proof -
  let ?F = "bindM (a_rows (sql_task_list_by_status [RUNNING] None) row_to_task)
      (\<lambda>running. bindM (a_rows sql_node_list_enabled row_to_node) (\<lambda>enabled. returnM (running, enabled))) :: (task list \<times> node list) txn"
  have den: "tx_den (bindM (tasks_list_running None) (\<lambda>running. bindM nodes_list_enabled (\<lambda>enabled. returnM (running, enabled)))) ?F"
    by (intro tx_intros)
  obtain x where x: "?F (st_db s, []) = (Inr (running, enabled), x)" using with_uow_read [OF den run] by auto
  obtain x1 where t1: "a_rows (sql_task_list_by_status [RUNNING] None) row_to_task (st_db s, []) = (Inr running, x1)"
      "a_rows sql_node_list_enabled row_to_node x1 = (Inr enabled, x)"
    using x by (elim bindM_cases) (auto simp: returnM_def)
  have x1: "x1 = (st_db s, [])" using a_rows_Inr(1) [OF t1(1)] by (simp add: sql_selects_db)
  have en: "list_all2 (\<lambda>q a. row_to_node q = Inr a) (filter q_enabled (d_nodes (st_db s))) enabled"
    using a_rows_Inr(2) [OF t1(2) [unfolded x1]] by (auto simp: sql_selects_db sql_defs getsM_def)
  have rn: "list_all2 (\<lambda>q a. row_to_task q = Inr a)
      (sort_key r_task_id (filter (\<lambda>r. List.member [RUNNING] (r_status r)) (d_tasks (st_db s)))) running"
    using a_rows_Inr(2) [OF t1(1)] by (auto simp: sql_selects_db sql_defs Let_def)
  show "n \<in> set enabled \<Longrightarrow> \<exists>q \<in> set (d_nodes (st_db s)). q_enabled q \<and> row_to_node q = Inr n"
    using list_all2_mem2 [OF en] by auto
  show "\<forall>r \<in> set (d_tasks (st_db s)). r_status r = RUNNING \<longrightarrow> r_node r \<noteq> Some i"
    if no: "Some (NodeId i) \<notin> set (map allocated_node_id_of running)"
  proof (intro ballI impI notI)
    fix r assume r: "r \<in> set (d_tasks (st_db s))" "r_status r = RUNNING" "r_node r = Some i"
    have "r \<in> set (sort_key r_task_id (filter (\<lambda>r. List.member [RUNNING] (r_status r)) (d_tasks (st_db s))))"
      using r by simp
    then obtain t where t: "t \<in> set running" "row_to_task r = Inr t" using list_all2_mem1 [OF rn] by blast
    have "allocated_node_id_of t = Some (NodeId i)" using row_to_task_allocated [OF t(2) r(2,3)] .
    then show False using no t(1) by (auto simp: image_iff)
  qed
qed

lemma row_to_node_fields:
  "row_to_node q = Inr n \<Longrightarrow> n_node_id n = NodeId (q_node_id q) \<and> n_cloud n = q_cloud q \<and> n_hostname n = q_hostname q"
  by (auto simp: row_to_node_def mk_node_id_def split: if_splits)

lemma dvalues_index: "n \<in> set (dvalues (foldl (\<lambda>d n. dput (f n) n d) [] ns)) \<Longrightarrow> n \<in> set ns"
proof -
  have "snd ` set (foldl (\<lambda>d n. dput (f n) n d) d ns) \<subseteq> snd ` set d \<union> set ns" for d
  proof (induction ns arbitrary: d)
    case (Cons m ms)
    have "snd ` set (dput (f m) m d) \<subseteq> insert m (snd ` set d)" by (rule snd_dput_subset)
    moreover have "snd ` set (foldl (\<lambda>d n. dput (f n) n d) (dput (f m) m d) ms) \<subseteq> snd ` set (dput (f m) m d) \<union> set ms"
      by (rule Cons.IH)
    ultimately show ?case by simp blast
  qed simp
  from this [of "[]"] show "n \<in> set (dvalues (foldl (\<lambda>d n. dput (f n) n d) [] ns)) \<Longrightarrow> n \<in> set ns"
    by (auto simp: dvalues_def)
qed

theorem deallocate_nodes_outcome:
  fixes w w' :: "'y world_scheme"
  assumes wf: "db_wf (st_db w)" and run: "deallocate_nodes clouds idle w = (r, w')"
  shows "drained_db (idle_row clouds idle (w_clock w) (st_db w)) (st_db w) (st_db w')
    \<and> (\<forall>ns. r = Inr ns \<longrightarrow> (\<forall>n \<in> set ns.
          (\<exists>q \<in> set (d_nodes (st_db w')). \<not> q_enabled q \<and> q_hostname q \<noteq> '''' \<and> row_to_node q = Inr n)
        \<and> (\<forall>t \<in> set (d_tasks (st_db w)). r_status t = RUNNING \<longrightarrow> r_node t \<noteq> Some (nid_value (n_node_id n)))))"
proof -
  let ?sb = "bindM (tasks_list_running None) (\<lambda>running. bindM nodes_list_enabled (\<lambda>enabled. returnM (running, enabled)))
      :: ('y, task list \<times> node list) wprog"
  let ?ok = "idle_row clouds idle (w_clock w) (st_db w)"
  let ?F = "bindM (a_rows (sql_task_list_by_status [RUNNING] None) row_to_task)
      (\<lambda>running. bindM (a_rows sql_node_list_enabled row_to_node) (\<lambda>enabled. returnM (running, enabled))) :: (task list \<times> node list) txn"
  have F: "tx_den ?sb ?F" by (intro tx_intros)
  from run show ?thesis
    unfolding deallocate_nodes_def
  proof (cases rule: bindM_cases)
    case (1 e)
    have "rows_of (st_db w') = rows_of (st_db w)" using with_uow_read [OF F 1(1)] visible_rows by blast
    then show ?thesis using drained_refl 1(2) by auto
  next
    case S: (2 p w1)
    obtain running enabled where p: "p = (running, enabled)" by (cases p)
    have v1: "rows_of (st_db w1) = rows_of (st_db w)" using with_uow_read [OF F S(1)] visible_rows by blast
    have "frames store.more (with_uow ?sb)" by (intro frames_intros)
    from world_more_sess [OF framesD' [OF this S(1)]] have c1: "w_clock w1 = w_clock w" by simp
    note snap = snapshot_outcome [OF S(1) [unfolded p]]
    let ?busy = "map allocated_node_id_of running"
    let ?cand = "dvalues (foldl (\<lambda>d n. dput (n_node_id n) n d) []
                   (filter (\<lambda>n. \<not> List.member ?busy (Some (n_node_id n))) enabled))"
    let ?dis = "forM clouds (\<lambda>cfg. forM (to_disable ?cand idle (w_clock w) cfg) (\<lambda>n. disable_row (n_node_id n))) :: ('y, unit) wprog"
    let ?fb = "bindM nodes_list_disabled (\<lambda>disabled.
                    returnM (filter (\<lambda>n. \<not> List.member ?busy (Some (n_node_id n))) disabled)) :: ('y, node list) wprog"
    have body: "thenM ?dis (with_uow ?fb) w1 = (r, w')"
      using S(2) p c1 by (simp add: Let_def bindM_def [of "getsM _"] getsM_def)
    have kd: "keeps (\<lambda>v :: 'y world_scheme. drained_db ?ok (st_db w) (st_db v)) ?dis"
    proof (intro keeps_forM)
      fix cfg n assume cfg: "cfg \<in> set clouds" and n: "n \<in> set (to_disable ?cand idle (w_clock w) cfg)"
      then have "n \<in> set ?cand" and cl: "n_cloud n = Some (cfg_prefix cfg)"
        and idl: "\<exists>t. dget idle (n_node_id n) = Some t \<and> w_clock w - t \<ge> real_of_int (cfg_idle_tolerance cfg)"
        by (auto simp: to_disable_def split: option.splits)
      then have "n \<in> set (filter (\<lambda>n. \<not> List.member ?busy (Some (n_node_id n))) enabled)" using dvalues_index by fast
      then have n': "n \<in> set enabled" "Some (n_node_id n) \<notin> set ?busy" by auto
      obtain q where q: "q \<in> set (d_nodes (st_db w))" "q_enabled q" "row_to_node q = Inr n" using snap(1) [OF n'(1)] by blast
      note f = row_to_node_fields [OF q(3)]
      have nr: "\<forall>r \<in> set (d_tasks (st_db w)). r_status r = RUNNING \<longrightarrow> r_node r \<noteq> Some (q_node_id q)"
        using snap(2) n'(2) f by simp
      have "?ok q" unfolding idle_row_def using q(2) nr cfg cl f idl by auto
      then show "keeps (\<lambda>v :: 'y world_scheme. drained_db ?ok (st_db w) (st_db v)) (disable_row (n_node_id n))"
        by (rule keeps_drained_row [where ok = ?ok, OF wf q(1)]) (simp add: f)
    qed
    from body show ?thesis
    proof (cases rule: thenM_cases)
      case (1 e)
      have "drained_db ?ok (st_db w) (st_db w')" using keepsD' [OF kd drained_refl [OF v1] 1(1)] .
      then show ?thesis using 1 by auto
    next
      case D: (2 u w2)
      have d2: "drained_db ?ok (st_db w) (st_db w2)" using keepsD' [OF kd drained_refl [OF v1] D(1)] .
      let ?G = "bindM (a_rows sql_node_list_disabled row_to_node) (\<lambda>disabled.
                    returnM (filter (\<lambda>n. \<not> List.member ?busy (Some (n_node_id n))) disabled)) :: node list txn"
      have G: "tx_den ?fb ?G" by (intro tx_intros)
      note R = with_uow_read [OF G D(2)]
      have same: "rows_of (st_db w') = rows_of (st_db w2)" using R visible_rows by blast
      have d3: "drained_db ?ok (st_db w) (st_db w')" using d2 same by (simp add: drained_db_def rows_of_def)
      have "(\<exists>q \<in> set (d_nodes (st_db w')). \<not> q_enabled q \<and> q_hostname q \<noteq> '''' \<and> row_to_node q = Inr n)
        \<and> (\<forall>t \<in> set (d_tasks (st_db w)). r_status t = RUNNING \<longrightarrow> r_node t \<noteq> Some (nid_value (n_node_id n)))"
        if ns: "r = Inr ns" "n \<in> set ns" for ns n
      proof -
        obtain x where x: "?G (st_db w2, []) = (Inr ns, x)" using R ns(1) by blast
        obtain dis x1 where g: "a_rows sql_node_list_disabled row_to_node (st_db w2, []) = (Inr dis, x1)"
            "ns = filter (\<lambda>n. \<not> List.member ?busy (Some (n_node_id n))) dis"
          using x by (elim bindM_cases) (auto simp: returnM_def)
        have l2: "list_all2 (\<lambda>q a. row_to_node q = Inr a) (filter (\<lambda>q. \<not> q_enabled q \<and> q_hostname q \<noteq> '''') (d_nodes (st_db w2))) dis"
          using a_rows_Inr(2) [OF g(1)] by (auto simp: sql_selects_db sql_defs getsM_def)
        have "n \<in> set dis" using ns(2) g(2) by simp
        then obtain q where q: "q \<in> set (d_nodes (st_db w2))" "\<not> q_enabled q" "q_hostname q \<noteq> ''''" "row_to_node q = Inr n"
          using list_all2_mem2 [OF l2] by auto
        have "Some (NodeId (nid_value (n_node_id n))) \<notin> set ?busy" using ns(2) g(2) by simp
        from snap(2) [OF this] show ?thesis using q same by (auto simp: rows_of_def)
      qed
      then show ?thesis using d3 by blast
    qed
  qed
qed

end
