(* ===== verification/Host_Spec.thy ===== *)
theory Host_Spec
  imports Deployment
begin

text \<open>
  The positional argument of \<open>yasetnode\<close> (\<open>entrypoints/cli/manage_node.py\<close>): either a node id or
  \<open>[user@]host[:port][~ncpus]\<close>, with its printer and the round trip.  Python's \<open>int()\<close> and \<open>isdigit()\<close>
  are those of ASCII strings.
\<close>

section \<open>Reading integers\<close>

text \<open>\<open>int(s)\<close>: surrounding white space, a sign, digits with single underscores between them.\<close>

definition int_digits :: "string \<Rightarrow> nat option" where
  "int_digits s = (let ps = split_on CHR ''_'' s in
     if list_all (\<lambda>p. p \<noteq> [] \<and> list_all is_digit p) ps then read_nat (concat ps) else None)"

definition py_int :: "string \<Rightarrow> int option" where
  "py_int s = (case strip s of
       [] \<Rightarrow> None
     | c # r \<Rightarrow> if c = CHR ''-'' then map_option (\<lambda>n. - int n) (int_digits r)
                else if c = CHR ''+'' then map_option int (int_digits r)
                else map_option int (int_digits (c # r)))"

definition py_isdigit :: "string \<Rightarrow> bool" where
  "py_isdigit s \<longleftrightarrow> s \<noteq> [] \<and> list_all is_digit s"

definition count_char :: "char \<Rightarrow> string \<Rightarrow> nat" where
  "count_char c s = length (filter (\<lambda>x. x = c) s)"

section \<open>The parser\<close>

record host_spec =
  hs_host :: string
  hs_username :: "string option"
  hs_port :: int
  hs_ncpus :: "int option"

text \<open>Exactly one of the two fields of \<open>NodeTarget\<close> is set.\<close>

datatype node_target = TargetId node_id | TargetHost host_spec

text \<open>What makes \<open>argparse\<close> exit with status 2: \<open>MalformedHostSpecError\<close> with the whole argument, or a
  \<open>ValueError\<close> of the type's constructor.\<close>

datatype arg_error = MalformedHostSpec string | ArgInvalid exn

text \<open>The three blocks of the parser; \<open>None\<close> stands for \<open>raise MalformedHostSpecError(raw)\<close>.\<close>

definition parse_user :: "string \<Rightarrow> (string option \<times> string) option" where
  "parse_user s =
     (if 1 < count_char CHR ''@'' s then None
      else if count_char CHR ''@'' s = 1 then
        (case partition_on CHR ''@'' s of (u, _, rest) \<Rightarrow> if u = [] then None else Some (Some u, rest))
      else Some (None, s))"

definition parse_ncpus :: "string \<Rightarrow> (int option \<times> string) option" where
  "parse_ncpus s =
     (if 1 < count_char CHR ''~'' s then None
      else if count_char CHR ''~'' s = 1 then
        (case partition_on CHR ''~'' s of (h, _, n) \<Rightarrow>
           if n = [] then None
           else (case py_int n of
                   None \<Rightarrow> None
                 | Some i \<Rightarrow> if i < 0 then None else Some (if i = 0 then None else Some i, h)))
      else Some (None, s))"

definition port_of :: "string \<Rightarrow> int option" where
  "port_of rest =
     (case rest of
        [] \<Rightarrow> Some 22
      | c # p \<Rightarrow> if c = CHR '':'' \<and> CHR '':'' \<notin> set p then py_int p else None)"

definition parse_host_port :: "string \<Rightarrow> (string \<times> int) option" where
  "parse_host_port s =
     (case s of
        c # r \<Rightarrow>
          if c = CHR ''['' then
            (case partition_on CHR '']'' r of (h, found, rest) \<Rightarrow>
               if \<not> found then None else map_option (\<lambda>p. (h, p)) (port_of rest))
          else if 1 < count_char CHR '':'' s then None
          else if count_char CHR '':'' s = 1 then
            (case partition_on CHR '':'' s of (h, _, p) \<Rightarrow> map_option (\<lambda>n. (h, n)) (py_int p))
          else Some (s, 22)
      | [] \<Rightarrow> Some ([], 22))"

definition parse_host_spec :: "string \<Rightarrow> arg_error + host_spec" where
  "parse_host_spec raw =
     (case Option.bind (parse_user raw) (\<lambda>(user, s1).
             Option.bind (parse_ncpus s1) (\<lambda>(ncpus, s2).
               Option.bind (parse_host_port s2) (\<lambda>(host, port).
                 if host = [] \<or> port < 1 \<or> MAX_PORT < port then None
                 else Some \<lparr>hs_host = host, hs_username = user, hs_port = port, hs_ncpus = ncpus\<rparr>))) of
        None \<Rightarrow> Inl (MalformedHostSpec raw)
      | Some spec \<Rightarrow> Inr spec)"

definition parse_node_target :: "string \<Rightarrow> arg_error + node_target" where
  "parse_node_target s =
     (if py_isdigit s then
        (case py_int s of
           None \<Rightarrow> Inl (ArgInvalid (ValueError ''invalid literal''))
         | Some i \<Rightarrow> map_sum ArgInvalid TargetId (mk_node_id i))
      else map_sum id TargetHost (parse_host_spec s))"

section \<open>The printer and the round trip\<close>

definition needs_brackets :: "string \<Rightarrow> bool" where
  "needs_brackets h \<longleftrightarrow> CHR '':'' \<in> set h \<or> hd h = CHR ''[''"

definition show_host_spec :: "host_spec \<Rightarrow> string" where
  "show_host_spec hs =
     (case hs_username hs of None \<Rightarrow> [] | Some u \<Rightarrow> u @ ''@'')
   @ (if needs_brackets (hs_host hs) then ''['' @ hs_host hs @ '']'' else hs_host hs)
   @ '':'' @ show_int (hs_port hs)
   @ (case hs_ncpus hs of None \<Rightarrow> [] | Some n \<Rightarrow> ''~'' @ show_int n)"

definition host_spec_ok :: "host_spec \<Rightarrow> bool" where
  "host_spec_ok hs \<longleftrightarrow> hs_host hs \<noteq> [] \<and> 1 \<le> hs_port hs \<and> hs_port hs \<le> MAX_PORT
     \<and> (case hs_ncpus hs of None \<Rightarrow> True | Some n \<Rightarrow> 0 < n)
     \<and> (case hs_username hs of None \<Rightarrow> True | Some u \<Rightarrow> u \<noteq> [])"

definition host_spec_plain :: "host_spec \<Rightarrow> bool" where
  "host_spec_plain hs \<longleftrightarrow> CHR ''@'' \<notin> set (hs_host hs) \<and> CHR ''~'' \<notin> set (hs_host hs)
     \<and> (needs_brackets (hs_host hs) \<longrightarrow> CHR '']'' \<notin> set (hs_host hs))
     \<and> (case hs_username hs of None \<Rightarrow> True | Some u \<Rightarrow> CHR ''@'' \<notin> set u)"

lemma count_char_0 [simp]: "count_char c s = 0 \<longleftrightarrow> c \<notin> set s"
  by (auto simp: count_char_def filter_empty_conv)

lemma count_char_append [simp]: "count_char c (s @ t) = count_char c s + count_char c t"
  by (simp add: count_char_def)

lemma count_char_Cons [simp]: "count_char c (x # s) = (if x = c then 1 else 0) + count_char c s"
  by (simp add: count_char_def)

lemma count_char_Nil [simp]: "count_char c [] = 0"
  by (simp add: count_char_def)

lemma digit_not_space: "is_digit c \<Longrightarrow> \<not> is_space c"
  by (auto simp: is_digit_def is_space_def Let_def)

lemma dropWhile_digits: "list_all is_digit s \<Longrightarrow> dropWhile is_space s = s"
  by (cases s) (simp_all add: digit_not_space)

lemma strip_digits: "list_all is_digit s \<Longrightarrow> strip s = s"
  using dropWhile_digits [of s] dropWhile_digits [of "rev s"] by (simp add: strip_def list_all_iff)

lemma int_digits_show [simp]: "int_digits (show_nat n) = Some n"
proof -
  have "CHR ''_'' \<notin> set (show_nat n)"
    using show_nat_digits [of n] by (auto simp: list_all_iff is_digit_def)
  then show ?thesis by (simp add: int_digits_def split_on_no_sep show_nat_digits)
qed

lemma py_int_show_pos: "0 \<le> i \<Longrightarrow> py_int (show_int i) = Some i"
proof -
  assume "0 \<le> i"
  then have s: "show_int i = show_nat (nat i)" by (simp add: show_int_def)
  obtain c r where cr: "show_nat (nat i) = c # r" by (cases "show_nat (nat i)") auto
  then have "is_digit c" by (rule show_nat_head)
  then have "c \<noteq> CHR ''-''" "c \<noteq> CHR ''+''" using is_digit_sign by auto
  moreover have "strip (show_nat (nat i)) = c # r" using strip_digits [OF show_nat_digits [of "nat i"]] cr by simp
  moreover have "int_digits (c # r) = Some (nat i)" using int_digits_show [of "nat i"] cr by simp
  ultimately show ?thesis using \<open>0 \<le> i\<close> by (simp add: py_int_def s)
qed

lemma show_pos_chars: "0 \<le> i \<Longrightarrow> c \<in> set (show_int i) \<Longrightarrow> is_digit c"
  using show_nat_digits [of "nat i"] by (simp add: show_int_def list_all_iff)

lemma show_int_no: "0 \<le> i \<Longrightarrow> \<not> is_digit c \<Longrightarrow> c \<notin> set (show_int i)"
  using show_pos_chars by blast

lemma parse_user_show:
  assumes "CHR ''@'' \<notin> set rest" "case u of None \<Rightarrow> True | Some n \<Rightarrow> n \<noteq> [] \<and> CHR ''@'' \<notin> set n"
  shows "parse_user ((case u of None \<Rightarrow> [] | Some n \<Rightarrow> n @ ''@'') @ rest) = Some (u, rest)"
  using assms by (cases u) (auto simp: parse_user_def partition_on_join simp flip: count_char_0)

lemma parse_ncpus_show:
  assumes "CHR ''~'' \<notin> set h" "case n of None \<Rightarrow> True | Some i \<Rightarrow> 0 < i"
  shows "parse_ncpus (h @ (case n of None \<Rightarrow> [] | Some i \<Rightarrow> ''~'' @ show_int i)) = Some (n, h)"
proof (cases n)
  case None
  then show ?thesis using assms(1) by (simp add: parse_ncpus_def flip: count_char_0)
next
  case (Some i)
  then have i: "0 < i" using assms(2) by simp
  have "CHR ''~'' \<notin> set (show_int i)" using i by (intro show_int_no) (simp_all add: is_digit_def)
  then have "count_char CHR ''~'' (h @ ''~'' @ show_int i) = 1" using assms(1) by (simp flip: count_char_0)
  moreover have "show_int i \<noteq> []" using i by (simp add: show_int_def)
  ultimately show ?thesis
    using Some i assms(1) py_int_show_pos [of i] by (simp add: parse_ncpus_def partition_on_join)
qed

lemma parse_host_port_show:
  assumes "h \<noteq> []" "1 \<le> p" "needs_brackets h \<longrightarrow> CHR '']'' \<notin> set h"
  shows "parse_host_port ((if needs_brackets h then ''['' @ h @ '']'' else h) @ '':'' @ show_int p) = Some (h, p)"
proof (cases "needs_brackets h")
  case True
  have "CHR '':'' \<notin> set (show_int p)" using assms(2) by (intro show_int_no) (simp_all add: is_digit_def)
  then show ?thesis
    using True assms py_int_show_pos [of p] by (simp add: parse_host_port_def partition_on_join port_of_def)
next
  case False
  have "CHR '':'' \<notin> set (show_int p)" using assms(2) by (intro show_int_no) (simp_all add: is_digit_def)
  moreover have "CHR '':'' \<notin> set h" "hd h \<noteq> CHR ''[''" using False by (simp_all add: needs_brackets_def)
  ultimately show ?thesis
    using assms py_int_show_pos [of p] False
    by (cases h) (auto simp: parse_host_port_def partition_on_join simp flip: count_char_0)
qed

lemma host_spec_round_trip:
  assumes "host_spec_ok hs" "host_spec_plain hs"
  shows "parse_host_spec (show_host_spec hs) = Inr hs"
proof -
  let ?h = "if needs_brackets (hs_host hs) then ''['' @ hs_host hs @ '']'' else hs_host hs"
  let ?p = "'':'' @ show_int (hs_port hs)" and ?n = "case hs_ncpus hs of None \<Rightarrow> [] | Some n \<Rightarrow> ''~'' @ show_int n"
  have port: "1 \<le> hs_port hs" "hs_host hs \<noteq> []" "hs_port hs \<le> MAX_PORT" using assms(1) by (simp_all add: host_spec_ok_def)
  have digits: "c \<notin> set (show_int (hs_port hs))" if "\<not> is_digit c" for c
    using port by (intro show_int_no that) simp
  have num: "CHR ''@'' \<notin> set ?n"
    using assms(1) show_int_no [of _ "CHR ''@''"] by (auto simp: host_spec_ok_def is_digit_def split: option.splits)
  have at: "CHR ''@'' \<notin> set (?h @ ?p @ ?n)"
    using assms(2) num digits [of "CHR ''@''"] by (simp add: host_spec_plain_def is_digit_def)
  have tilde: "CHR ''~'' \<notin> set (?h @ ?p)"
    using assms(2) digits [of "CHR ''~''"] by (simp add: host_spec_plain_def is_digit_def)
  have user: "case hs_username hs of None \<Rightarrow> True | Some n \<Rightarrow> n \<noteq> [] \<and> CHR ''@'' \<notin> set n"
    using assms by (simp add: host_spec_ok_def host_spec_plain_def split: option.splits)
  have "parse_user (show_host_spec hs) = Some (hs_username hs, (?h @ ?p) @ ?n)"
    using parse_user_show [OF at user] unfolding show_host_spec_def append_assoc .
  moreover have "parse_ncpus ((?h @ ?p) @ ?n) = Some (hs_ncpus hs, ?h @ ?p)"
    by (rule parse_ncpus_show [OF tilde]) (use assms(1) in \<open>simp add: host_spec_ok_def\<close>)
  moreover have "parse_host_port (?h @ ?p) = Some (hs_host hs, hs_port hs)"
    by (rule parse_host_port_show) (use port assms(2) in \<open>simp_all add: host_spec_plain_def\<close>)
  ultimately show ?thesis using port by (simp add: parse_host_spec_def)
qed

lemma parse_host_spec_sound:
  assumes "parse_host_spec s = Inr hs"
  shows "host_spec_ok hs"
  using assms
  by (auto simp: parse_host_spec_def parse_user_def parse_ncpus_def host_spec_ok_def Option.bind_eq_Some_conv
      split: option.splits if_splits prod.splits)

lemma parse_node_target_cases:
  assumes "parse_node_target s = Inr t"
  shows "case t of TargetId nid \<Rightarrow> 0 < nid_value nid \<and> py_isdigit s | TargetHost hs \<Rightarrow> host_spec_ok hs \<and> \<not> py_isdigit s"
  using assms parse_host_spec_sound [of s]
  by (auto simp: parse_node_target_def mk_node_id_def split: if_splits option.splits sum.splits)
     (cases "parse_host_spec s"; force)+

end
