(* ===== verification/Node_Manager.thy ===== *)
theory Node_Manager
  imports Node_Teardown Host_Spec
begin

text \<open>
  \<open>entrypoints/cli/manage_node.py\<close>: the operator's command \<open>yasetnode\<close>, which adds a host, or retires a
  node softly or by force.  Lines written to the terminal are the values the helpers return; the
  warning about a loopback host that shares the daemon's data folder is left out.
\<close>

section \<open>Arguments\<close>

record node_args =
  na_target :: node_target
  na_skip_setup :: bool
  na_remove_soft :: bool
  na_remove_hard :: bool

text \<open>The combinations \<open>argparse\<close> and \<open>_parse_node_args\<close> refuse, with exit status 2.\<close>

definition args_ok :: "node_args \<Rightarrow> bool" where
  "args_ok a \<longleftrightarrow> \<not> (na_remove_soft a \<and> na_remove_hard a)
     \<and> \<not> (na_skip_setup a \<and> (na_remove_soft a \<or> na_remove_hard a))
     \<and> (case na_target a of TargetId _ \<Rightarrow> na_remove_soft a \<or> na_remove_hard a | TargetHost _ \<Rightarrow> True)"

section \<open>Removal\<close>

definition abandon_running :: "task_id \<Rightarrow> ('x, unit) prog" where
  "abandon_running tid = bindM (tasks_get_running tid) (\<lambda>found. case found of
       None \<Rightarrow> skipM
     | Some t \<Rightarrow> bindM (fromSum (abandon_task t default_abandon_error)) (\<lambda>t'. tasks_save t' None))"

definition remove_node_hard :: "node \<Rightarrow> ('x, task_id list) prog" where
  "remove_node_hard n =
     with_uow (bindM (tasks_list_ids_by_node_id_and_status (n_node_id n) RUNNING) (\<lambda>ids.
       thenM (forM ids abandon_running)
      (thenM (nodes_remove (n_node_id n))
      (thenM uow_commit (returnM ids)))))"

datatype retired = Disabled | Removed

definition remove_node_soft :: "node \<Rightarrow> ('x, retired) prog" where
  "remove_node_soft n =
     with_uow (bindM (tasks_list_ids_by_node_id_and_status (n_node_id n) RUNNING) (\<lambda>ids.
       if ids \<noteq> [] then thenM (nodes_disable (n_node_id n)) (thenM uow_commit (returnM Disabled))
       else thenM (nodes_remove (n_node_id n)) (thenM uow_commit (returnM Removed))))"

section \<open>Addition\<close>

definition new_node_of :: "host_spec \<Rightarrow> remote_defaults \<Rightarrow> new_node" where
  "new_node_of spec rd = new_node_default\<lparr>
     nn_hostname := hs_host spec, nn_port := hs_port spec,
     nn_username := (case hs_username spec of Some u \<Rightarrow> (if u = [] then rd_username rd else u) | None \<Rightarrow> rd_username rd),
     nn_ncpus := hs_ncpus spec, nn_enabled := False, nn_jump_host := rd_jump_host rd,
     nn_jump_username := (case rd_jump_username rd of Some u \<Rightarrow> (if u = [] then ''root'' else u) | None \<Rightarrow> ''root''),
     nn_jump_port := rd_jump_port rd\<rparr>"

text \<open>The private keys are listed first (\<open>keys\<close> is the outcome); the data and tasks folders are the adapter's
  defaults.\<close>

definition cli_connect :: "exn + unit \<Rightarrow> remote_defaults \<Rightarrow> node \<Rightarrow> ('y, sid) wprog" where
  "cli_connect keys rd n = thenM (fromSum keys) (repo_connect_at None (Some (rd_engines_dir rd)) None n)"

definition drop_tmp_row :: "node_id \<Rightarrow> ('x, unit) prog" where
  "drop_tmp_row nid = suppress (with_uow (thenM (nodes_remove nid) uow_commit))"

definition connect_or_drop :: "exn + unit \<Rightarrow> remote_defaults \<Rightarrow> node \<Rightarrow> ('y, sid) wprog" where
  "connect_or_drop keys rd tmp =
     catchM (cli_connect keys rd tmp)
       (\<lambda>e. if is_Exception e then thenM (drop_tmp_row (n_node_id tmp)) (raiseM e) else raiseM e)"

definition enable_row :: "node \<Rightarrow> ('x, unit) prog" where
  "enable_row tmp = with_uow (thenM (nodes_update (tmp\<lparr>n_enabled := True\<rparr>)) uow_commit)"

definition add_node ::
  "exn + unit \<Rightarrow> remote_defaults \<Rightarrow> engine_repository \<Rightarrow> host_spec \<Rightarrow> bool \<Rightarrow> ('y, unit) wprog" where
  "add_node keys rd engines spec skip_setup =
     bindM (with_uow (bindM (nodes_insert (new_node_of spec rd)) (\<lambda>tmp. thenM uow_commit (returnM tmp)))) (\<lambda>tmp.
       finallyM
         (bindM (connect_or_drop keys rd tmp) (\<lambda>sid.
            thenM (whenM (\<not> skip_setup) (session_setup_node sid engines)) (enable_row tmp)))
         (repo_disconnect (n_node_id tmp)))"

section \<open>The command\<close>

text \<open>\<open>NodeAlreadyInDBError\<close>, \<open>NodeIdNotInDBError\<close> and \<open>HostNotInDBError\<close> are subclasses of \<open>ValueError\<close>.\<close>

definition host_matches :: "host_spec \<Rightarrow> node list \<Rightarrow> node option" where
  "host_matches spec ns = find (\<lambda>n. n_hostname n = hs_host spec) ns"

definition lookup_target :: "node_target \<Rightarrow> ('x, node option) prog" where
  "lookup_target t = (case t of
       TargetId nid \<Rightarrow> with_uow (nodes_get_by_id nid)
     | TargetHost spec \<Rightarrow> bindM (with_uow nodes_list_all) (\<lambda>ns. returnM (host_matches spec ns)))"

definition enforce_presence :: "node_target \<Rightarrow> bool \<Rightarrow> node option \<Rightarrow> exn + node option" where
  "enforce_presence t removing found = (case t of
       TargetHost spec \<Rightarrow>
         if found \<noteq> None \<and> \<not> removing then Inl (ValueError (''Host already in DB: '' @ hs_host spec))
         else if found = None \<and> removing then Inl (ValueError (''Host NOT in DB: '' @ hs_host spec))
         else Inr found
     | TargetId nid \<Rightarrow>
         if found = None \<and> removing then Inl (ValueError (''Node ID not in DB: '' @ show_int (nid_value nid)))
         else Inr found)"

definition resolve_node :: "node_target \<Rightarrow> bool \<Rightarrow> ('x, node option) prog" where
  "resolve_node t removing = bindM (lookup_target t) (\<lambda>found. fromSum (enforce_presence t removing found))"

datatype node_report = Marked "task_id list" node | Retired retired node | Added host_spec

definition assertion :: exn where
  "assertion = OtherError ''AssertionError''"

definition dispatch_node ::
  "exn + unit \<Rightarrow> remote_defaults \<Rightarrow> engine_repository \<Rightarrow> node_args \<Rightarrow> node option \<Rightarrow> ('y, node_report) wprog" where
  "dispatch_node keys rd engines a found =
     (if na_remove_hard a then
        (case found of None \<Rightarrow> raiseM assertion
         | Some n \<Rightarrow> bindM (remove_node_hard n) (\<lambda>ids. returnM (Marked ids n)))
      else if na_remove_soft a then
        (case found of None \<Rightarrow> raiseM assertion
         | Some n \<Rightarrow> bindM (remove_node_soft n) (\<lambda>k. returnM (Retired k n)))
      else
        (case na_target a of TargetId _ \<Rightarrow> raiseM assertion
         | TargetHost spec \<Rightarrow> thenM (add_node keys rd engines spec (na_skip_setup a)) (returnM (Added spec))))"

text \<open>\<open>Inl e\<close> is the error line and exit status 1; an exception outside \<open>Exception\<close> escapes.\<close>

definition manage_node ::
  "exn + unit \<Rightarrow> remote_defaults \<Rightarrow> engine_repository \<Rightarrow> node_args \<Rightarrow> ('y, exn + node_report) wprog" where
  "manage_node keys rd engines a =
     catchM
       (bindM (resolve_node (na_target a) (na_remove_soft a \<or> na_remove_hard a)) (\<lambda>found.
          bindM (dispatch_node keys rd engines a found) (\<lambda>rep. returnM (Inr rep))))
       (\<lambda>e. if is_Exception e then returnM (Inl e) else raiseM e)"

end
