(* ===== verification/Submit_Query.thy ===== *)
theory Submit_Query
  imports Uow_Blocks Engines Allocate_Facts
begin

text \<open>
  \<open>application/submit_task.py\<close> and \<open>application/query_tasks.py\<close>.

  Metadata is a dictionary of Python values; how the database driver binds one to a text or JSON
  column is its own affair, the parameters \<open>bind_text\<close> and \<open>bind_json\<close>.
\<close>

section \<open>Submission\<close>

definition known_typed_keys :: "string list" where
  "known_typed_keys = [''engine'', ''remote_folder'', ''local_folder'', ''webhook_url'',
     ''webhook_custom_params'', ''error'']"

definition submit_check :: "engine_repository \<Rightarrow> string \<Rightarrow> pydict \<Rightarrow> exn + unit" where
  "submit_check engines name metadata =
     (if \<not> engines_contains engines name then Inl (UnsupportedEngineError name)
      else (case engines_getitem engines name of
          Inl e \<Rightarrow> Inl e
        | Inr eng \<Rightarrow> (case first_missing (e_input_files eng) metadata of
            None \<Rightarrow> Inr () | Some f \<Rightarrow> Inl (MissingInputFileError name f))))"

definition submit_extra :: "pydict \<Rightarrow> pydict" where
  "submit_extra metadata = filter (\<lambda>(k, v). \<not> List.member known_typed_keys k) metadata"

definition submit_new_task ::
  "(pyval option \<Rightarrow> exn + string option) \<Rightarrow> (pyval \<Rightarrow> exn + pydict) \<Rightarrow> string \<Rightarrow> pydict \<Rightarrow> string \<Rightarrow> exn + new_task" where
  "submit_new_task bind_text bind_json label metadata name =
     (case bind_text (dget metadata ''local_folder'') of Inl e \<Rightarrow> Inl e | Inr lf \<Rightarrow>
      (case bind_text (dget metadata ''webhook_url'') of Inl e \<Rightarrow> Inl e | Inr wu \<Rightarrow>
      (case bind_json (case dget metadata ''webhook_custom_params'' of None \<Rightarrow> PDict [] | Some v \<Rightarrow> v) of
         Inl e \<Rightarrow> Inl e
       | Inr wp \<Rightarrow> Inr \<lparr>nt_engine = name, nt_label = label, nt_local_folder = lf, nt_webhook_url = wu,
                        nt_webhook_custom_params = wp, nt_extra = submit_extra metadata\<rparr>)))"

definition submit_task ::
  "(pyval option \<Rightarrow> exn + string option) \<Rightarrow> (pyval \<Rightarrow> exn + pydict) \<Rightarrow> string \<Rightarrow> pydict \<Rightarrow> string
     \<Rightarrow> engine_repository \<Rightarrow> ('x, task_id) prog" where
  "submit_task bind_text bind_json label metadata name engines =
     bindM (fromSum (submit_check engines name metadata)) (\<lambda>_.
       with_uow (bindM (fromSum (submit_new_task bind_text bind_json label metadata name)) (\<lambda>nt.
         bindM (tasks_insert nt) (\<lambda>t.
           thenM (tasks_save t None) (thenM uow_commit (returnM (t_task_id t)))))))"

section \<open>Queries\<close>

definition nonempty :: "'a list option \<Rightarrow> bool" where
  "nonempty x = (case x of None \<Rightarrow> False | Some xs \<Rightarrow> xs \<noteq> [])"

fun dedup_first :: "'a list \<Rightarrow> 'a list \<Rightarrow> 'a list" where
  "dedup_first seen [] = []"
| "dedup_first seen (x # xs) = (if List.member seen x then dedup_first seen xs else x # dedup_first (x # seen) xs)"

definition query_tasks ::
  "task_id list option \<Rightarrow> task_status list option \<Rightarrow> ('x, task list \<times> (node_id \<times> node) list) prog" where
  "query_tasks jobs statuses =
     (if nonempty jobs \<and> nonempty statuses then raiseM (ValueError ''jobs and statuses are mutually exclusive'')
      else if \<not> nonempty statuses \<and> \<not> nonempty jobs then returnM ([], [])
      else with_uow (
        bindM (if nonempty statuses then tasks_list_by_status (the statuses) None
               else tasks_list_by_jobs (case jobs of None \<Rightarrow> [] | Some js \<Rightarrow> js)) (\<lambda>ts.
          (let ids = dedup_first [] (concat (map (\<lambda>t. case allocated_node_id_of t of None \<Rightarrow> [] | Some n \<Rightarrow> [n]) ts)) in
           bindM (if ids \<noteq> [] then nodes_get_by_ids ids else returnM []) (\<lambda>nodes. returnM (ts, nodes))))))"

section \<open>What a submission does\<close>

text \<open>It is accepted exactly when the engine is configured and all its inputs are given.\<close>

lemma submit_check_ok:
  "submit_check engines name metadata = Inr () \<longleftrightarrow>
     (\<exists>e. engines_get engines name = Some e \<and> (\<forall>f \<in> set (e_input_files e). dhas metadata f))"
  by (auto simp: submit_check_def engines_contains_def engines_getitem_def engines_get_def dhas_def
      first_missing_None split: option.splits)
     (metis dhas_def first_missing_None option.distinct(1))

definition new_row :: "db \<Rightarrow> new_task \<Rightarrow> task_row" where
  "new_row d nt = \<lparr>r_task_id = d_next_task d, r_created_at = d_now d, r_updated_at = d_now d,
     r_title = nt_label nt, r_engine = nt_engine nt, r_status = TO_DO, r_node = None,
     r_local_folder = nt_local_folder nt, r_remote_folder = None, r_webhook_url = nt_webhook_url nt,
     r_params = nt_webhook_custom_params nt, r_error = None, r_extra = nt_extra nt\<rparr>"

text \<open>Saving the task that was just inserted writes the same row.\<close>

lemma insert_then_save:
  assumes wf: "db_wf d"
    and ins: "a_task_insert nt (d, ts) = (Inr t, (d1, ts1))"
    and save: "a_save t None (d1, ts1) = (Inr u, (d2, ts2))"
  shows "d_tasks d2 = d_tasks d @ [new_row d nt]" "d_nodes d2 = d_nodes d" "tid_value (t_task_id t) = d_next_task d"
    "ts2 = ts @ [t]" "t_events t = [TaskCreated (base_of t) (nt_engine nt)]" "t_webhook_url t = nt_webhook_url nt"
proof -
  let ?row = "new_row d nt"
  obtain t0 where t0: "row_to_task ?row = Inr t0" "t = materialize_task t0"
      and d1: "d1 = d\<lparr>d_next_task := d_next_task d + 1, d_tasks := d_tasks d @ [?row]\<rparr>" "ts1 = ts"
    using ins by (auto simp: a_task_insert_def a_sql_def sql_task_insert_def Let_def bindM_def fromSum_def returnM_def
        new_row_def split: sum.splits if_splits)
  have tr: "task_to_row t = ?row"
    using task_of_row [OF t0(1)] by (simp add: t0(2) new_row_def task_check_def materialize_task_def
        task_to_row_def t_status_def allocated_node_id_of_def remote_folder_of_def error_of_def)
  obtain rows where q: "sql_task_update ?row None d1 = (Inr rows, d2)" "rows \<noteq> []" "ts2 = ts1 @ [t]"
    using save unfolding a_save_Inr tr by auto
  have lt: "r_task_id r \<noteq> d_next_task d" if "r \<in> set (d_tasks d)" for r
    using db_wfD(4) [OF wf that] by simp
  have old: "map (\<lambda>r. if r_task_id r = d_next_task d then updated_row d1 ?row r else r) (d_tasks d) = d_tasks d"
    using lt by (auto intro!: map_idI)
  show "d_tasks d2 = d_tasks d @ [?row]" "d_nodes d2 = d_nodes d"
    using sql_task_update_Inr [OF q(1,2)] d1(1) old
    by (simp_all add: update_matches_def new_row_def [of d nt, THEN arg_cong [where f = r_task_id], simplified])
       (simp add: updated_row_def new_row_def d1(1))
  have t0f: "tid_value (t_task_id t0) = d_next_task d" "t_engine t0 = nt_engine nt" "t_webhook_url t0 = nt_webhook_url nt"
    using t0(1) by (auto simp: row_to_task_def new_row_def mk_task_id_def Let_def split: if_splits)
  show "tid_value (t_task_id t) = d_next_task d" "ts2 = ts @ [t]"
    "t_events t = [TaskCreated (base_of t) (nt_engine nt)]" "t_webhook_url t = nt_webhook_url nt"
    using t0f t0(2) q(3) d1(2) by (simp_all add: materialize_task_def base_of_def)
qed

definition a_submit :: "new_task \<Rightarrow> task txn" where
  "a_submit nt = bindM (a_task_insert nt) (\<lambda>t. thenM (a_save t None) (returnM t))"

lemma submit_outcome:
  assumes wf: "db_wf (st_db s)" and ok: "submit_check engines name metadata = Inr ()"
    and nt: "submit_new_task bt bj label metadata name = Inr nt"
    and run: "submit_task bt bj label metadata name engines s = (r, s')"
  shows "(\<exists>e. r = Inl e \<and> visible s' = visible s)
    \<or> (\<exists>t. (r = Inr (t_task_id t) \<and> st_trace s' = st_trace s @ calls (st_bus s) [TaskCreated (base_of t) name]
            \<or> r = Inl CancelledError)
         \<and> tid_value (t_task_id t) = d_next_task (st_db s)
         \<and> d_tasks (st_db s') = d_tasks (st_db s) @ [new_row (st_db s) nt] \<and> d_nodes (st_db s') = d_nodes (st_db s))"
proof -
  let ?ops = "bindM (tasks_insert nt) (\<lambda>t. thenM (tasks_save t None) (returnM t))"
  have den: "tx_den ?ops (a_submit nt)" unfolding a_submit_def by (intro tx_intros)
  have run': "with_uow (bindM ?ops (\<lambda>t. thenM uow_commit (returnM (t_task_id t)))) s = (r, s')"
    using run unfolding submit_task_def ok nt bindM_fromSum by (simp add: bindM_assoc thenM_def)
  have B: "block_result (of_txn (a_submit nt)) (\<lambda>_. True) (\<lambda>t. thenM uow_commit (returnM (t_task_id t))) t_task_id s r s'"
    by (rule with_uow_block [OF tx_run_den [OF den] _ _ run']) simp_all
  have nm: "nt_engine nt = name"
    using nt by (auto simp: submit_new_task_def split: sum.splits)
  have F: "tid_value (t_task_id t) = d_next_task (st_db s) \<and> d_tasks d = d_tasks (st_db s) @ [new_row (st_db s) nt]
      \<and> d_nodes d = d_nodes (st_db s) \<and> events_of ts = [TaskCreated (base_of t) name]"
    if asm: "of_txn (a_submit nt) (st_db s, []) t (d, ts)" for t d ts
  proof -
    obtain d1 ts1 u where "a_task_insert nt (st_db s, []) = (Inr t, (d1, ts1))" "a_save t None (d1, ts1) = (Inr u, (d, ts))"
      using asm unfolding of_txn_def a_submit_def
      by (elim bindM_cases thenM_cases) (auto simp: returnM_def)
    from insert_then_save [OF wf this] nm show ?thesis by (simp add: events_of_def)
  qed
  show ?thesis
    using B
  proof (unfold block_result_def, elim conjE disjE exE)
    assume v: "visible s' = visible s" and "\<forall>b. r = Inr b \<longrightarrow> (\<exists>a x t. of_txn (a_submit nt) (st_db s, []) a x \<and> \<not> True
        \<and> fst (thenM uow_commit (returnM (t_task_id a)) (t :: 'a store_scheme)) = Inr b)"
    then show ?thesis by (cases r) auto
  next
    fix t d ts
    assume R: "of_txn (a_submit nt) (st_db s, []) t (d, ts)" and "st_db s' = d" "r = Inr (t_task_id t)"
      "st_trace s' = st_trace s @ calls (st_bus s) (events_of ts)"
    then show ?thesis using F [OF R] by auto
  next
    fix t d ts cs
    assume R: "of_txn (a_submit nt) (st_db s, []) t (d, ts)" and "st_db s' = d" "r = Inl CancelledError"
    then show ?thesis using F [OF R] by auto
  qed
qed

lemma submit_rejected:
  "submit_check engines name metadata = Inl e \<Longrightarrow> submit_task bt bj label metadata name engines s = (Inl e, s)"
  by (simp add: submit_task_def bindM_def fromSum_def)

section \<open>What a query answers\<close>

lemma dedup_first_spec: "set (dedup_first seen xs) = set xs - set seen \<and> distinct (dedup_first seen xs)"
proof (induction xs arbitrary: seen)
  case (Cons x xs)
  show ?case using Cons.IH [of seen] Cons.IH [of "x # seen"] by auto
qed simp

lemma query_exclusive:
  "nonempty jobs \<Longrightarrow> nonempty statuses \<Longrightarrow>
     query_tasks jobs statuses s = (Inl (ValueError ''jobs and statuses are mutually exclusive''), s)"
  by (simp add: query_tasks_def raiseM_def)

lemma query_empty: "\<not> nonempty jobs \<Longrightarrow> \<not> nonempty statuses \<Longrightarrow> query_tasks jobs statuses s = (Inr ([], []), s)"
  by (simp add: query_tasks_def returnM_def)

definition a_by_ids :: "node_id list \<Rightarrow> (node_id \<times> node) list txn" where
  "a_by_ids ids = bindM (a_rows (sql_node_get_by_ids (map nid_value ids)) row_to_node)
     (\<lambda>ns. returnM (foldl (\<lambda>d n. dput (n_node_id n) n d) [] ns))"

lemma tx_by_ids [tx_intros]: "tx_den (nodes_get_by_ids ids) (a_by_ids ids)"
  unfolding nodes_get_by_ids_def a_by_ids_def a_rows_def decode_nodes_def bindM_assoc
  by (intro tx_intros)

text \<open>The rows a query selects, in the order of their ids.\<close>

definition queried_rows :: "task_id list option \<Rightarrow> task_status list option \<Rightarrow> db \<Rightarrow> task_row list" where
  "queried_rows jobs statuses d = sort_key r_task_id (filter
     (\<lambda>r. if nonempty statuses then r_status r \<in> set (the statuses)
          else r_task_id r \<in> tid_value ` set (case jobs of None \<Rightarrow> [] | Some js \<Rightarrow> js)) (d_tasks d))"

definition nodes_of :: "task list \<Rightarrow> node_id list" where
  "nodes_of ts = dedup_first [] (concat (map (\<lambda>t. case allocated_node_id_of t of None \<Rightarrow> [] | Some n \<Rightarrow> [n]) ts))"

lemma nodes_of_set: "set (nodes_of ts) = {n. \<exists>t \<in> set ts. allocated_node_id_of t = Some n}"
  unfolding nodes_of_def dedup_first_spec [THEN conjunct1] by (auto split: option.splits)

lemma query_rows_sql:
  "fst ((if nonempty statuses then sql_task_list_by_status (the statuses) None
         else sql_task_list_by_jobs (map tid_value (case jobs of None \<Rightarrow> [] | Some js \<Rightarrow> js))) d) =
     Inr (queried_rows jobs statuses d)"
  by (simp add: queried_rows_def sql_task_list_by_status_def sql_task_list_by_jobs_def getsM_def image_set
      del: set_map split: option.splits)

text \<open>The nodes of the answer are the rows that the answered tasks are allocated to.\<close>

lemma by_ids_Inr:
  assumes run: "a_by_ids ids (d, ts) = (Inr nd, y)" and pos: "\<forall>i \<in> set ids. 0 < nid_value i"
    and wf: "distinct (map q_node_id (d_nodes d))"
  shows "dget nd i = Some n \<longleftrightarrow> i \<in> set ids \<and> n_node_id n = i \<and> (\<exists>q \<in> set (d_nodes d). row_to_node q = Inr n)"
proof -
  let ?q = "sql_node_get_by_ids (map nid_value ids)"
  from run obtain ns where rows: "a_rows ?q row_to_node (d, ts) = (Inr ns, y)"
      and nd: "nd = foldl (\<lambda>d n. dput (n_node_id n) n d) [] ns"
    unfolding a_by_ids_def by (elim bindM_cases) (auto simp: returnM_def)
  have sel: "fst (?q d) = Inr (filter (\<lambda>q. q_node_id q \<in> nid_value ` set ids) (d_nodes d))"
    by (simp add: sql_node_get_by_ids_def sql_select_nodes_def getsM_def image_set del: set_map)
  have "snd (?q d') = d'" for d' by (rule sql_selects_db)
  from a_rows_Inr [OF rows this] sel
  have all: "list_all2 (\<lambda>q n. row_to_node q = Inr n) (filter (\<lambda>q. q_node_id q \<in> nid_value ` set ids) (d_nodes d)) ns"
    by auto
  have mem: "n \<in> set ns \<longleftrightarrow> (\<exists>q \<in> set (d_nodes d). q_node_id q \<in> nid_value ` set ids \<and> row_to_node q = Inr n)" for n
    using list_all2_mem1 [OF all] list_all2_mem2 [OF all, of n] by fastforce
  have fields: "row_to_node q = Inr n \<Longrightarrow> n_node_id n = NodeId (q_node_id q)" for q n
    by (auto simp: row_to_node_def mk_node_id_def split: if_splits sum.splits)
  have uniq: "n \<in> set ns \<Longrightarrow> n' \<in> set ns \<Longrightarrow> n_node_id n = n_node_id n' \<Longrightarrow> n = n'" for n n'
    using mem fields wf unfolding distinct_map inj_on_def by (metis Inr_inject node_id.inject)
  have get: "dget nd i = (case filter (\<lambda>n. n_node_id n = i) (rev ns) of [] \<Rightarrow> None | n # _ \<Rightarrow> Some n)"
    unfolding nd dget_foldl_dput dget.simps by (rule refl)
  have "dget nd i = Some n \<longleftrightarrow> n \<in> set ns \<and> n_node_id n = i"
  proof (cases "filter (\<lambda>n. n_node_id n = i) (rev ns)")
    case Nil
    then show ?thesis using get by (auto simp: filter_empty_conv)
  next
    case (Cons m ms)
    have "m \<in> set (filter (\<lambda>n. n_node_id n = i) (rev ns))" unfolding Cons by simp
    then have m: "m \<in> set ns" "n_node_id m = i" by simp_all
    have "dget nd i = Some m" using get unfolding Cons by simp
    then show ?thesis using m uniq [OF m(1), of n] by (metis option.inject)
  qed
  also have "\<dots> \<longleftrightarrow> i \<in> set ids \<and> n_node_id n = i \<and> (\<exists>q \<in> set (d_nodes d). row_to_node q = Inr n)"
  proof (intro iffI conjI; elim conjE)
    assume "n \<in> set ns" "n_node_id n = i"
    then obtain q where q: "q \<in> set (d_nodes d)" "q_node_id q \<in> nid_value ` set ids" "row_to_node q = Inr n"
      using mem by blast
    then obtain j where j: "j \<in> set ids" "q_node_id q = nid_value j" by blast
    then have "j = i" using fields [OF q(3)] \<open>n_node_id n = i\<close> by (metis node_id.collapse)
    then show "i \<in> set ids" "n_node_id n = i" "\<exists>q \<in> set (d_nodes d). row_to_node q = Inr n"
      using j q \<open>n_node_id n = i\<close> by blast+
  next
    assume i: "i \<in> set ids" "n_node_id n = i" and "\<exists>q \<in> set (d_nodes d). row_to_node q = Inr n"
    then obtain q where q: "q \<in> set (d_nodes d)" "row_to_node q = Inr n" by blast
    then have "q_node_id q = nid_value i" using fields [OF q(2)] i(2) by (metis node_id.sel)
    then show "n \<in> set ns" "n_node_id n = i" using mem q i by blast+
  qed
  finally show ?thesis .
qed

definition a_query :: "task_id list option \<Rightarrow> task_status list option \<Rightarrow> (task list \<times> (node_id \<times> node) list) txn" where
  "a_query jobs statuses = bindM
     (if nonempty statuses then a_rows (sql_task_list_by_status (the statuses) None) row_to_task
      else a_rows (sql_task_list_by_jobs (map tid_value (case jobs of None \<Rightarrow> [] | Some js \<Rightarrow> js))) row_to_task)
     (\<lambda>ts. bindM (if nodes_of ts \<noteq> [] then a_by_ids (nodes_of ts) else returnM []) (\<lambda>nodes. returnM (ts, nodes)))"

lemma tx_query:
  "tx_den (bindM (if nonempty statuses then tasks_list_by_status (the statuses) None
               else tasks_list_by_jobs (case jobs of None \<Rightarrow> [] | Some js \<Rightarrow> js)) (\<lambda>ts.
          (let ids = dedup_first [] (concat (map (\<lambda>t. case allocated_node_id_of t of None \<Rightarrow> [] | Some n \<Rightarrow> [n]) ts)) in
           bindM (if ids \<noteq> [] then nodes_get_by_ids ids else returnM []) (\<lambda>nodes. returnM (ts, nodes)))))
     (a_query jobs statuses)"
  unfolding a_query_def Let_def nodes_of_def [symmetric] by (intro tx_intros)

lemma row_to_task_node:
  "row_to_task r = Inr t \<Longrightarrow> allocated_node_id_of t = Some n \<Longrightarrow> r_node r = Some (nid_value n) \<and> 0 < nid_value n"
  by (auto simp: row_to_task_def mk_task_id_def mk_node_id_def allocated_node_id_of_def Let_def
      split: if_splits sum.splits option.splits task_status.splits)

theorem query_outcome:
  assumes wf: "db_wf (st_db s)" and ne: "nonempty jobs \<noteq> nonempty statuses"
    and run: "query_tasks jobs statuses s = (r, s')"
  shows "visible s' = visible s \<and> (\<forall>ts nd. r = Inr (ts, nd) \<longrightarrow>
      list_all2 (\<lambda>q t. row_to_task q = Inr t) (queried_rows jobs statuses (st_db s)) ts
    \<and> (\<forall>i n. dget nd i = Some n \<longleftrightarrow> (\<exists>t \<in> set ts. allocated_node_id_of t = Some i)
          \<and> n_node_id n = i \<and> (\<exists>q \<in> set (d_nodes (st_db s)). row_to_node q = Inr n)))"
proof -
  have c: "\<not> (nonempty jobs \<and> nonempty statuses)" "\<not> (\<not> nonempty statuses \<and> \<not> nonempty jobs)"
    using ne by auto
  have eq: "query_tasks jobs statuses = with_uow (bindM (if nonempty statuses then tasks_list_by_status (the statuses) None
               else tasks_list_by_jobs (case jobs of None \<Rightarrow> [] | Some js \<Rightarrow> js)) (\<lambda>ts.
          (let ids = dedup_first [] (concat (map (\<lambda>t. case allocated_node_id_of t of None \<Rightarrow> [] | Some n \<Rightarrow> [n]) ts)) in
           bindM (if ids \<noteq> [] then nodes_get_by_ids ids else returnM []) (\<lambda>nodes. returnM (ts, nodes)))))"
    unfolding query_tasks_def if_not_P [OF c(1)] if_not_P [OF c(2)] by (rule refl)
  have u: "visible s' = visible s \<and> (\<forall>a. r = Inr a \<longrightarrow> (\<exists>x. a_query jobs statuses (st_db s, []) = (Inr a, x)))"
    by (rule with_uow_read [OF tx_query run [unfolded eq]])
  have "list_all2 (\<lambda>q t. row_to_task q = Inr t) (queried_rows jobs statuses (st_db s)) ts
    \<and> (\<forall>i n. dget nd i = Some n \<longleftrightarrow> (\<exists>t \<in> set ts. allocated_node_id_of t = Some i)
          \<and> n_node_id n = i \<and> (\<exists>q \<in> set (d_nodes (st_db s)). row_to_node q = Inr n))"
    if a: "a_query jobs statuses (st_db s, []) = (Inr (ts, nd), x)" for ts nd x
  proof -
    let ?sql = "if nonempty statuses then sql_task_list_by_status (the statuses) None
         else sql_task_list_by_jobs (map tid_value (case jobs of None \<Rightarrow> [] | Some js \<Rightarrow> js))"
    have sel: "snd (?sql d) = d" for d by (simp add: sql_selects_db)
    have fold: "(if nonempty statuses then a_rows (sql_task_list_by_status (the statuses) None) row_to_task
      else a_rows (sql_task_list_by_jobs (map tid_value (case jobs of None \<Rightarrow> [] | Some js \<Rightarrow> js))) row_to_task) =
      a_rows ?sql row_to_task" by simp
    let ?rest = "\<lambda>ts. bindM (if nodes_of ts \<noteq> [] then a_by_ids (nodes_of ts) else returnM []) (\<lambda>nodes. returnM (ts, nodes))"
    from a have "bindM (a_rows ?sql row_to_task) ?rest (st_db s, []) = (Inr (ts, nd), x)"
      unfolding a_query_def fold .
    then obtain ts1 y where rows1: "a_rows ?sql row_to_task (st_db s, []) = (Inr ts1, y)"
        and rest1: "?rest ts1 y = (Inr (ts, nd), x)"
      by (rule bindM_cases) (simp, rule that)
    have "ts1 = ts" using rest1 by (rule bindM_cases) (simp_all add: returnM_def)
    with rows1 rest1 have rows: "a_rows ?sql row_to_task (st_db s, []) = (Inr ts, y)"
        and rest: "?rest ts y = (Inr (ts, nd), x)" by auto
    from a_rows_Inr [OF rows sel] query_rows_sql [of statuses jobs "st_db s"]
    have y: "y = (st_db s, [])" and all: "list_all2 (\<lambda>q t. row_to_task q = Inr t) (queried_rows jobs statuses (st_db s)) ts"
      by auto
    have pos: "\<forall>i \<in> set (nodes_of ts). 0 < nid_value i"
      using list_all2_mem2 [OF all] row_to_task_node by (fastforce simp: nodes_of_set)
    show ?thesis
    proof (cases "nodes_of ts = []")
      case True
      then show ?thesis using rest all nodes_of_set [of ts] by (auto simp: returnM_def bindM_def)
    next
      case False
      with rest obtain z where "a_by_ids (nodes_of ts) (st_db s, []) = (Inr nd, z)"
        unfolding y by (simp only: if_True not_False_eq_True) (erule bindM_cases, simp_all add: returnM_def)
      from by_ids_Inr [OF this pos db_wfD(2) [OF wf]] show ?thesis
        using all by (simp add: nodes_of_set)
    qed
  qed
  then show ?thesis using u by blast
qed

end
