(* ===== verification/Progress.thy ===== *)
theory Progress
  imports Submit_Query Provision_Facts
begin

text \<open>
  Progress of the task table: no computation of the program moves a task backwards.  \<open>row_le\<close> orders
  the states of one row (TO_DO, RUNNING, DONE; a running task keeps its node), \<open>tasks_le\<close> lifts it to
  tables.  \<open>in_block d\<close> is the invariant inside a unit of work and \<open>grown d\<close> the one between them; every
  repository operation keeps the first, and \<open>with_uow\<close> turns it into the second.
\<close>

named_theorems grown_intros "operations that keep the task table growing"

fun status_rank :: "task_status \<Rightarrow> nat" where
  "status_rank TO_DO = 0"
| "status_rank RUNNING = 1"
| "status_rank DONE = 2"

definition row_le :: "task_row \<Rightarrow> task_row \<Rightarrow> bool" where
  "row_le r r' \<longleftrightarrow> r_task_id r' = r_task_id r \<and> r_created_at r' = r_created_at r
     \<and> status_rank (r_status r) \<le> status_rank (r_status r')
     \<and> (r_status r = RUNNING \<and> r_status r' = RUNNING \<longrightarrow> r_node r' = r_node r)"

definition tasks_le :: "task_row list \<Rightarrow> task_row list \<Rightarrow> bool" where
  "tasks_le rs rs' \<longleftrightarrow> (\<forall>r \<in> set rs. \<exists>r' \<in> set rs'. row_le r r')"

lemma row_le_refl [simp]: "row_le r r"
  by (simp add: row_le_def)

lemma row_le_trans: "row_le a b \<Longrightarrow> row_le b c \<Longrightarrow> row_le a c"
  by (cases "r_status a"; cases "r_status b"; cases "r_status c") (auto simp: row_le_def)

lemma tasks_le_refl [simp]: "tasks_le rs rs"
  unfolding tasks_le_def using row_le_refl by blast

lemma tasks_le_trans: "tasks_le a b \<Longrightarrow> tasks_le b c \<Longrightarrow> tasks_le a c"
  unfolding tasks_le_def using row_le_trans by meson

lemma tasks_le_append [simp]: "tasks_le rs (rs @ xs)"
  unfolding tasks_le_def using row_le_refl by fastforce

lemma tasks_le_map: "(\<And>r. r \<in> set rs \<Longrightarrow> row_le r (f r)) \<Longrightarrow> tasks_le rs (map f rs)"
  unfolding tasks_le_def by auto

section \<open>Statements\<close>

definition sql_grows :: "(db, exn, 'a) M \<Rightarrow> bool" where
  "sql_grows q \<longleftrightarrow> sql_ok q \<and> (\<forall>d. tasks_le (d_tasks d) (d_tasks (snd (q d))))"

lemma sql_grows_select: "(\<And>d. snd (q d) = d) \<Longrightarrow> sql_grows q"
  by (simp add: sql_grows_def sql_okI_select)

lemma sql_grows_tasks: "sql_ok q \<Longrightarrow> (\<And>d. d_tasks (snd (q d)) = d_tasks d) \<Longrightarrow> sql_grows q"
  by (simp add: sql_grows_def)

lemma update_by_tasks: "d_tasks (snd (sql_node_update_by i f d)) = d_tasks d"
  by (simp add: sql_node_update_by_def Let_def)

lemma unlink_row_le: "task_check (unlink_row d i r) \<Longrightarrow> row_le r (unlink_row d i r)"
  by (auto simp: unlink_row_def row_le_def task_check_def)

lemma sql_grows_statements:
  "sql_grows (sql_task_insert ti en lf wu pa xt)" "sql_grows (sql_node_remove i)"
  "sql_grows (\<lambda>d. sql_node_insert (vals d) d)" "sql_grows (sql_node_update v)"
  "sql_grows (sql_node_enable i)" "sql_grows (sql_node_disable i)"
proof -
  show "sql_grows (sql_task_insert ti en lf wu pa xt)"
    unfolding sql_grows_def using sql_ok_statements(1) by (auto simp: sql_task_insert_def Let_def)
  show "sql_grows (sql_node_remove i)"
    unfolding sql_grows_def using sql_ok_statements(4)
    by (auto simp: sql_node_remove_def Let_def list_all_iff intro!: tasks_le_map unlink_row_le)
  show "sql_grows (\<lambda>d. sql_node_insert (vals d) d)"
    by (rule sql_grows_tasks [OF sql_ok_statements(5)]) (simp add: sql_node_insert_def Let_def)
  show "sql_grows (sql_node_update v)"
    by (rule sql_grows_tasks [OF sql_ok_statements(6)]) (simp add: sql_node_update_def update_by_tasks)
  show "sql_grows (sql_node_enable i)"
    by (rule sql_grows_tasks [OF sql_ok_statements(7)]) (simp add: sql_node_enable_def update_by_tasks)
  show "sql_grows (sql_node_disable i)"
    by (rule sql_grows_tasks [OF sql_ok_statements(8)]) (simp add: sql_node_disable_def update_by_tasks)
qed

text \<open>The two kinds of saves the program makes: a claim under its guard, and a final state.\<close>

definition forward_save :: "task \<Rightarrow> task_status option \<Rightarrow> bool" where
  "forward_save t ex \<longleftrightarrow> t_status t = DONE \<or> (t_status t = RUNNING \<and> ex = Some TO_DO)"

lemma sql_grows_save:
  assumes "forward_save t ex"
  shows "sql_grows (sql_task_update (task_to_row t) ex)"
proof -
  have st: "r_status (task_to_row t) = t_status t" by (simp add: task_to_row_def)
  have "row_le r (updated_row d (task_to_row t) r)" if "update_matches i ex r" for d i r
    using assms that
    by (cases "r_status r") (auto simp: forward_save_def row_le_def updated_row_def update_matches_def st)
  then have "tasks_le (d_tasks d) (d_tasks (snd (sql_task_update (task_to_row t) ex d)))" for d
    by (auto simp: sql_task_update_def Let_def intro!: tasks_le_map)
  then show ?thesis unfolding sql_grows_def using sql_ok_statements(2) by blast
qed

section \<open>The invariants\<close>

definition in_block :: "task_row list \<Rightarrow> 'x store_scheme \<Rightarrow> bool" where
  "in_block rs s \<longleftrightarrow> store_wf s \<and> tasks_le rs (d_tasks (st_db s))
     \<and> (\<forall>d f. conn_of s = InTx d f \<longrightarrow> tasks_le rs (d_tasks d))"

definition grown :: "task_row list \<Rightarrow> 'x store_scheme \<Rightarrow> bool" where
  "grown rs s \<longleftrightarrow> db_wf (st_db s) \<and> tasks_le rs (d_tasks (st_db s))"

lemma in_block_grown: "in_block rs s \<Longrightarrow> grown rs s"
  by (simp add: in_block_def grown_def store_wf_def)

lemma in_block_keepsI:
  fixes m :: "('x, 'a) prog"
  assumes wf: "keeps store_wf m"
    and le: "\<And>s r s'. store_wf s \<Longrightarrow> m s = (r, s') \<Longrightarrow> tasks_le rs (d_tasks (st_db s)) \<Longrightarrow>
      (\<And>d f. conn_of s = InTx d f \<Longrightarrow> tasks_le rs (d_tasks d)) \<Longrightarrow>
      tasks_le rs (d_tasks (st_db s')) \<and> (\<forall>d f. conn_of s' = InTx d f \<longrightarrow> tasks_le rs (d_tasks d))"
  shows "keeps (in_block rs) m"
proof (rule keepsI)
  fix s :: "'x store_scheme" assume b: "in_block rs s"
  obtain r s' where run: "m s = (r, s')" by (cases "m s")
  have "store_wf s" using b by (simp add: in_block_def)
  with le [OF this run] b keepsD' [OF wf this run] show "in_block rs (snd (m s))"
    by (simp add: in_block_def run)
qed

lemma grown_round_trip [grown_intros]: "keeps (in_block rs) round_trip"
  by (rule in_block_keepsI [OF keeps_round_trip]) (auto dest: round_trip_wf)

lemma grown_run_sql:
  fixes q :: "(db, exn, 'a) M"
  assumes "sql_grows q"
  shows "keeps (in_block rs) (run_sql q :: ('x, 'a) prog)"
proof (rule in_block_keepsI)
  have ok: "sql_ok q" and le: "tasks_le (d_tasks d) (d_tasks (snd (q d)))" for d
    using assms by (auto simp: sql_grows_def)
  show "keeps store_wf (run_sql q :: ('x, 'a) prog)" by (rule keeps_run_sql [OF ok])
  fix s s' :: "'x store_scheme" and r
  assume wf: "store_wf s" and run: "run_sql q s = (r, s')" and a: "tasks_le rs (d_tasks (st_db s))"
    and b: "\<And>d f. conn_of s = InTx d f \<Longrightarrow> tasks_le rs (d_tasks d)"
  obtain x s1 where s1: "round_trip s = (x, s1)" by (cases "round_trip s")
  note W = round_trip_wf [OF wf s1]
  show "tasks_le rs (d_tasks (st_db s')) \<and> (\<forall>d f. conn_of s' = InTx d f \<longrightarrow> tasks_le rs (d_tasks d))"
  proof (cases "conn_of s")
    case Closed
    then show ?thesis using run a by (auto simp: run_sql_def)
  next
    case Idle
    obtain y d where d: "q (st_db s) = (y, d)" by (cases "q (st_db s)")
    have "tasks_le rs (d_tasks d)" using tasks_le_trans [OF a le [of "st_db s"]] d by simp
    then show ?thesis
      using run W a d Idle by (cases x) (auto simp: run_sql_def s1)
  next
    case (InTx d f)
    obtain y d' where d: "q d = (y, d')" by (cases "q d")
    have "tasks_le rs (d_tasks d')" using tasks_le_trans [OF b [OF InTx] le [of d]] d by simp
    moreover have "tasks_le rs (d_tasks d)" by (rule b [OF InTx])
    ultimately show ?thesis
      using run W a d InTx by (cases x; cases y) (auto simp: run_sql_def s1 split: if_splits)
  qed
qed

lemma grown_run_tasks [grown_intros]: "sql_grows q \<Longrightarrow> keeps (in_block rs) (run_tasks q)"
  unfolding run_tasks_def by (intro keeps_intros grown_run_sql)

lemma grown_set:
  "keeps (in_block rs) (modifyM (set_conn Closed))" "keeps (in_block rs) (modifyM (set_conn Idle))"
  "keeps (in_block rs) (modifyM (\<lambda>s. set_saved (f s) s))"
  "keeps (in_block rs) (modifyM (\<lambda>s. set_saved (f s) (set_conn Idle s)))"
  by (auto simp: keeps_def modifyM_def in_block_def store_wf_def)

lemma grown_close [grown_intros]: "keeps (in_block rs) close_conn"
  unfolding close_conn_def by (intro keeps_intros grown_intros grown_set)

lemma grown_rollback [grown_intros]: "keeps (in_block rs) uow_rollback"
  unfolding uow_rollback_def by (intro keeps_intros grown_intros grown_set)

lemma grown_publish [grown_intros]: "keeps (in_block rs) publish_events"
proof -
  have "keeps (in_block rs) (\<lambda>s :: 'x store_scheme. case dispatch (st_bus s) evs (st_trace s) of
      (r, tr) \<Rightarrow> (r, s\<lparr>st_trace := tr\<rparr>))" for evs
    by (auto simp: keeps_def in_block_def split: prod.split)
  moreover have "keeps (in_block rs) (collect_events :: ('x, event list) prog)"
    by (simp add: keeps_def collect_events_def in_block_def)
  ultimately show ?thesis
    unfolding publish_events_def by (intro keeps_intros grown_set(3))
qed

lemma grown_commit [grown_intros]: "keeps (in_block rs) uow_commit"
proof -
  have "keeps (in_block rs) (modifyM (\<lambda>s :: 'x store_scheme. case conn_of s of
       InTx d False \<Rightarrow> set_conn Idle (s\<lparr>st_db := d\<rparr>)
     | InTx d True \<Rightarrow> set_conn Idle s
     | _ \<Rightarrow> s))"
    by (rule keeps_modify) (auto simp: in_block_def store_wf_conn(2) store_wf_commit split: conn.split bool.split)
  then have "keeps (in_block rs) (sql_commit :: ('x, unit) prog)"
    unfolding sql_commit_def by (intro keeps_intros grown_intros)
  then show ?thesis unfolding uow_commit_def by (intro keeps_intros grown_intros)
qed

lemma grown_exit [grown_intros]: "keeps (in_block rs) (uow_exit exc)"
proof (rule keepsI)
  fix s :: "'x store_scheme" assume b: "in_block rs s"
  have "keeps (in_block rs) (thenM (whenM a (suppress uow_rollback)) (whenM c close_conn) :: ('x, unit) prog)" for a c
    by (intro keeps_intros grown_intros)
  from keepsD [OF this b] show "in_block rs (snd (uow_exit exc s))"
    unfolding uow_exit_def Let_def .
qed

theorem grown_with_uow [grown_intros]:
  fixes body :: "('x, 'a) prog"
  assumes body: "keeps (in_block rs) body"
  shows "keeps (grown rs) (with_uow body)"
proof (rule keepsI)
  fix s :: "'x store_scheme" assume g: "grown rs s"
  obtain r s' where run: "with_uow body s = (r, s')" by (cases "with_uow body s")
  have b0: "in_block rs (s\<lparr>st_uow := uow_init\<rparr>)"
    using g by (simp add: in_block_def grown_def store_wf_def uow_init_def)
  have enter: "keeps (in_block rs) (uow_enter :: ('x, unit) prog)"
    unfolding uow_enter_def
  proof (intro keeps_intros grown_intros grown_set)
    show "keeps (in_block rs) (modifyM (\<lambda>s :: 'x store_scheme. s\<lparr>st_uow := (st_uow s)\<lparr>u_conn := InTx (st_db s) False, u_entered := True\<rparr>\<rparr>))"
      by (auto simp: keeps_def modifyM_def in_block_def store_wf_def)
  qed
  from run have "in_block rs s'"
  proof (cases rule: with_uow_body)
    case (1 e s1)
    then show ?thesis using keepsD' [OF enter b0 1(1)] by simp
  next
    case (2 s1 q s2 x)
    show ?thesis using keepsD' [OF grown_exit keepsD' [OF body keepsD' [OF enter b0 2(1)] 2(2)] 2(3)] .
  qed
  then show "grown rs (snd (with_uow body s))" by (simp add: run in_block_grown)
qed

section \<open>The repositories\<close>

lemma keeps_fromSum_bind:
  "(\<And>a. x = Inr a \<Longrightarrow> keeps P (f a)) \<Longrightarrow> keeps P (bindM (fromSum x) f)"
  by (cases x) (simp_all add: keeps_def bindM_def fromSum_def)

lemma keeps_bool_case [keeps_intros]:
  "(b \<Longrightarrow> keeps P m) \<Longrightarrow> (\<not> b \<Longrightarrow> keeps P n) \<Longrightarrow> keeps P (case b of True \<Rightarrow> m | False \<Rightarrow> n)"
  by (cases b) simp_all

lemma grown_save [grown_intros]:
  assumes "forward_save t ex"
  shows "keeps (in_block rs) (tasks_save t ex)"
  unfolding tasks_save_def by (intro keeps_intros grown_intros grown_set sql_grows_save assms)

lemma grown_tasks [grown_intros]:
  "keeps (in_block rs) (tasks_get tid)" "keeps (in_block rs) (tasks_get_running tid)"
  "keeps (in_block rs) (tasks_get_todo tid)" "keeps (in_block rs) (tasks_list_by_status sts lmt)"
  "keeps (in_block rs) (tasks_list_todo lmt)" "keeps (in_block rs) (tasks_list_running lmt)"
  "keeps (in_block rs) (tasks_list_ids_by_node_id_and_status nid st)" "keeps (in_block rs) (tasks_insert nt)"
  "keeps (in_block rs) (tasks_list_by_jobs ids)" "keeps (in_block rs) tasks_count_by_status"
  unfolding tasks_get_def tasks_get_running_def tasks_get_todo_def tasks_list_by_status_def tasks_list_todo_def
    tasks_list_running_def tasks_list_ids_by_node_id_and_status_def tasks_insert_def tasks_list_by_jobs_def
    tasks_count_by_status_def
  by (intro keeps_intros grown_intros sql_grows_statements sql_grows_select sql_selects_db)+

lemma grown_nodes [grown_intros]:
  "keeps (in_block rs) nodes_list_all" "keeps (in_block rs) nodes_list_enabled"
  "keeps (in_block rs) nodes_list_disabled" "keeps (in_block rs) (nodes_insert nn)"
  "keeps (in_block rs) (nodes_get_by_id nid)" "keeps (in_block rs) (nodes_get_by_ids ids)"
  "keeps (in_block rs) (nodes_update n)" "keeps (in_block rs) (nodes_enable nid)"
  "keeps (in_block rs) (nodes_disable nid)" "keeps (in_block rs) (nodes_remove nid)"
  "keeps (in_block rs) nodes_count_by_status"
  unfolding nodes_list_all_def nodes_list_enabled_def nodes_list_disabled_def nodes_insert_def nodes_get_by_id_def
    nodes_get_by_ids_def nodes_update_def nodes_enable_def nodes_disable_def nodes_remove_def nodes_count_by_status_def
    node_statement_def
  by (intro keeps_intros grown_intros sql_grows_statements sql_grows_select sql_selects_db)+

section \<open>Computations that leave the tables alone\<close>

lemma grown_frames: "frames wdata m \<Longrightarrow> keeps (grown rs) m"
  by (rule keepsI, subst (asm) frames_def) (simp add: grown_def wdata_def)

lemma in_block_view:
  "store_view s' = store_view s \<Longrightarrow> in_block rs s' = in_block rs s"
  by (simp add: store_view_def in_block_def store_wf_def conn_of_def)

lemma in_block_frames:
  fixes m :: "('x, 'a) prog"
  assumes "frames store_view m"
  shows "keeps (in_block rs) m"
proof (rule keepsI)
  fix s :: "'x store_scheme" assume "in_block rs s"
  then show "in_block rs (snd (m s))" using in_block_view [OF framesD [OF assms]] by simp
qed

lemma grown_modify: "(\<And>w. st_db (f w) = st_db w) \<Longrightarrow> keeps (grown rs) (modifyM f)"
  by (simp add: keeps_def modifyM_def grown_def)

lemma with_uow_fresh: "with_uow body (s\<lparr>st_uow := u\<rparr>) = with_uow body s"
  by (simp add: with_uow_def thenM_def bindM_def modifyM_def)

lemma keeps_db_wf:
  fixes body :: "('x, 'a) prog"
  assumes "keeps store_wf body"
  shows "keeps (\<lambda>s. db_wf (st_db s)) (with_uow body)"
proof (rule keepsI)
  fix s :: "'x store_scheme" assume "db_wf (st_db s)"
  then have "store_wf (s\<lparr>st_uow := uow_init\<rparr>)" by (simp add: store_wf_def uow_init_def)
  from keepsD [OF keeps_with_uow [OF assms] this] show "db_wf (st_db (snd (with_uow body s)))"
    by (simp add: with_uow_fresh store_wf_def)
qed

end
