(* ===== verification/Consume.thy ===== *)
theory Consume
  imports Allocate_Facts
begin

text \<open>
  \<open>application/consume_task.py\<close>: the outputs of a RUNNING task are downloaded and the task is
  finalised, or left RUNNING for another attempt when only transient errors occurred.

  The creation of the local folder runs in an executor: its outcome is the next answer of the
  environment (\<open>env_call\<close>).
\<close>

definition store_folder_for :: "task \<Rightarrow> ppath \<Rightarrow> string \<Rightarrow> ppath" where
  "store_folder_for t local_tasks_dir remote_folder = (case t_local_folder t of
      None \<Rightarrow> path_div local_tasks_dir (path_name (mk_path remote_folder))
    | Some lf \<Rightarrow> if lf = '''' then path_div local_tasks_dir (path_name (mk_path remote_folder)) else mk_path lf)"

definition prepare_store_folder ::
  "task \<Rightarrow> ppath \<Rightarrow> engine \<Rightarrow> ('y, ppath \<times> string list \<times> string) wprog" where
  "prepare_store_folder t local_tasks_dir e =
     (let rf = (case remote_folder_of t of None \<Rightarrow> '''' | Some rf \<Rightarrow> rf);
          outs = map (\<lambda>x. path_str (path_div (mk_path rf) x)) (e_output_files e);
          sf = store_folder_for t local_tasks_dir rf
      in thenM env_call (returnM (sf, outs, rf)))"

definition format_download_error :: "dl_errors \<Rightarrow> string" where
  "format_download_error errs = ''Download error: '' @
     join '', '' (map (\<lambda>(path, err). case path of None \<Rightarrow> exn_str err | Some p \<Rightarrow> p @ '': '' @ exn_str err) errs)"

text \<open>\<open>x or y\<close> on strings.\<close>

definition str_or :: "string \<Rightarrow> string \<Rightarrow> string" where
  "str_or a b = (if a = '''' then b else a)"

definition decide_finalisation ::
  "task \<Rightarrow> string \<Rightarrow> string \<Rightarrow> dl_errors \<Rightarrow> dl_errors \<Rightarrow> ppath \<Rightarrow> exn + task option" where
  "decide_finalisation t local_folder remote_folder transient permanent store_folder =
     (if transient \<noteq> [] \<and> permanent = [] then Inr None
      else (let combined = permanent @ transient;
                final_remote = str_or remote_folder (case remote_folder_of t of None \<Rightarrow> '''' | Some rf \<Rightarrow> rf)
            in map_sum id Some
                 (if combined \<noteq> [] then fail_task t (format_download_error combined) (str_or local_folder '''') final_remote
                  else complete_task t (path_str store_folder) final_remote)))"

definition save_final :: "task \<Rightarrow> ('y, bool) wprog" where
  "save_final t = thenM (with_uow (thenM (tasks_save t None) uow_commit))
                 (thenM (discard_slot (t_task_id t)) (returnM True))"

definition finalize_task ::
  "task \<Rightarrow> string \<Rightarrow> string \<Rightarrow> dl_errors \<Rightarrow> dl_errors \<Rightarrow> ppath \<Rightarrow> ('y, bool) wprog" where
  "finalize_task t local_folder remote_folder transient permanent store_folder =
     bindM (fromSum (decide_finalisation t local_folder remote_folder transient permanent store_folder))
       (\<lambda>fin. case fin of None \<Rightarrow> returnM False | Some t' \<Rightarrow> save_final t')"

definition quoted :: "string \<Rightarrow> string" where
  "quoted s = [char_of (39::nat)] @ s @ [char_of (39::nat)]"

definition fail_missing_engine :: "task \<Rightarrow> ('y, bool) wprog" where
  "fail_missing_engine t =
     bindM (fromSum (fail_task t (''engine '' @ quoted (t_engine t) @ '' no longer in config'')
              (case t_local_folder t of None \<Rightarrow> '''' | Some lf \<Rightarrow> lf)
              (case remote_folder_of t of None \<Rightarrow> '''' | Some rf \<Rightarrow> rf)))
       save_final"

definition consume_task :: "task_id \<Rightarrow> sid \<Rightarrow> engine_repository \<Rightarrow> ppath \<Rightarrow> ('y, bool) wprog" where
  "consume_task tid sid engines local_tasks_dir =
     bindM (with_uow (tasks_get_running tid)) (\<lambda>found. case found of
         None \<Rightarrow> thenM (discard_slot tid) (returnM True)
       | Some t \<Rightarrow> (case engines_get engines (t_engine t) of
           None \<Rightarrow> fail_missing_engine t
         | Some e \<Rightarrow> bindM (prepare_store_folder t local_tasks_dir e) (\<lambda>(sf, outs, rf).
             bindM (download_outputs sid rf (path_str sf) outs) (\<lambda>(lf, remote, tr, pe).
               finalize_task t lf remote tr pe sf))))"

section \<open>The decision\<close>

lemma map_sum_Some [simp]: "map_sum id Some x \<noteq> Inr None"
  by (cases x) simp_all

lemma decide_defer:
  "decide_finalisation t lf rf tr pe sf = Inr None \<longleftrightarrow> tr \<noteq> [] \<and> pe = []"
  by (auto simp: decide_finalisation_def Let_def)

lemma decide_final:
  assumes "is_running t" "\<not> (tr \<noteq> [] \<and> pe = [])"
  shows "\<exists>t'. decide_finalisation t lf rf tr pe sf = Inr (Some t') \<and> t_status t' = DONE
     \<and> t_task_id t' = t_task_id t \<and> allocated_node_id_of t' = allocated_node_id_of t
     \<and> (if pe = [] then error_of t' = None \<and> t_local_folder t' = Some (path_str sf)
        else error_of t' = Some (format_download_error (pe @ tr)) \<and> t_local_folder t' = Some lf)
     \<and> remote_folder_of t' = Some (str_or rf (the (remote_folder_of t)))
     \<and> t_events t' = t_events t @ [if pe = [] then TaskCompleted (base_of t) (path_str sf)
                                  else TaskFailed (base_of t) (format_download_error (pe @ tr))]"
  using assms
  by (cases "t_state t")
     (auto simp: decide_finalisation_def Let_def is_running_def fail_task_def complete_task_def t_status_def
        allocated_node_id_of_def error_of_def remote_folder_of_def str_or_def)

section \<open>What a consumption does to the store\<close>

text \<open>Saving \<open>t\<close> unguarded: its row exists and now holds \<open>t\<close>.\<close>

definition saved_over :: "task \<Rightarrow> db \<Rightarrow> db \<Rightarrow> bool" where
  "saved_over t d d' \<longleftrightarrow> (\<exists>r \<in> set (d_tasks d). r_task_id r = tid_value (t_task_id t))
     \<and> d_tasks d' = map (\<lambda>r. if r_task_id r = tid_value (t_task_id t) then updated_row d (task_to_row t) r else r) (d_tasks d)
     \<and> d_nodes d' = d_nodes d"

lemma a_save_over:
  assumes "a_save t None (d, ts) = (Inr u, (d', ts'))"
  shows "saved_over t d d'" "ts' = ts @ [t]"
proof -
  obtain rows where q: "sql_task_update (task_to_row t) None d = (Inr rows, d')" "rows \<noteq> []" "ts' = ts @ [t]"
    using assms unfolding a_save_Inr by auto
  have "r_task_id (task_to_row t) = tid_value (t_task_id t)" by (simp add: task_to_row_def)
  then show "saved_over t d d'" using sql_task_update_Inr [OF q(1,2)] by (auto simp: saved_over_def update_matches_def)
  show "ts' = ts @ [t]" using q by simp
qed

lemma save_block_outcome:
  assumes run: "with_uow (thenM (tasks_save t None) uow_commit) s = (r, s')"
  shows "(\<exists>e. r = Inl e \<and> visible s' = visible s)
    \<or> (saved_over t (st_db s) (st_db s') \<and> (r = Inr () \<and> st_trace s' = st_trace s @ calls (st_bus s) (t_events t)
         \<or> r = Inl CancelledError))"
proof -
  have "tx_result (a_save t None) s r s'"
    by (rule with_uow_commit [OF tx_save run [unfolded then_commit]])
  then show ?thesis
    using a_save_over by (fastforce simp: tx_result_def events_of_def)
qed

lemma save_final_outcome:
  fixes w w' :: "'y world_scheme"
  assumes run: "save_final t w = (r, w')"
  shows "((\<exists>e. r = Inl e \<and> visible w' = visible w) \<and> w_tracker w' = w_tracker w)
    \<or> (saved_over t (st_db w) (st_db w')
       \<and> (r = Inr True \<and> st_trace w' = st_trace w @ calls (st_bus w) (t_events t)
            \<and> w_tracker w' = tracker_discard (t_task_id t) (w_tracker w)
          \<or> r = Inl CancelledError \<and> w_tracker w' = w_tracker w))"
proof -
  let ?m = "with_uow (thenM (tasks_save t None) uow_commit) :: ('y, unit) wprog"
  obtain q w1 where q: "?m w = (q, w1)" by (cases "?m w")
  have "frames store.more ?m" by (intro frames_intros)
  from world_more_sess [OF framesD' [OF this q]] have tr: "w_tracker w1 = w_tracker w" by simp
  note S = save_block_outcome [OF q]
  show ?thesis
  proof (cases q)
    case (Inl e)
    then have "r = Inl e" "w' = w1" using run q by (simp_all add: save_final_def thenM_def bindM_def)
    then show ?thesis using S Inl tr by auto
  next
    case (Inr u)
    then have "r = Inr True" "w' = w1\<lparr>w_tracker := tracker_discard (t_task_id t) (w_tracker w1)\<rparr>"
      using run q by (simp_all add: save_final_def thenM_def bindM_def discard_slot_def modifyM_def returnM_def)
    then show ?thesis using S Inr tr by auto
  qed
qed

text \<open>The task that is consumed is the RUNNING row of its id.\<close>

lemma get_running_outcome:
  assumes run: "with_uow (tasks_get_running tid) s = (Inr found, s')"
  shows "visible s' = visible s" "store.more s' = store.more s"
    "(case found of
        None \<Rightarrow> \<not> (\<exists>q \<in> set (d_tasks (st_db s)). r_task_id q = tid_value tid \<and> r_status q = RUNNING)
      | Some t \<Rightarrow> \<exists>q \<in> set (d_tasks (st_db s)). r_task_id q = tid_value tid \<and> r_status q = RUNNING \<and> row_to_task q = Inr t)"
proof -
  let ?q = "sql_task_get_by_id_and_status (tid_value tid) RUNNING"
  have den: "tx_den (tasks_get_running tid) (a_first ?q row_to_task)" by (rule tx_firsts)
  note R = with_uow_read [OF den run]
  show "visible s' = visible s" using R by simp
  show "store.more s' = store.more s"
    by (rule framesD' [OF frames_more_with_uow [OF frames_more_tasks(2)] run])
  obtain x where "a_first ?q row_to_task (st_db s, []) = (Inr found, x)" using R by auto
  from a_first_Inr(2) [OF this] have "\<exists>rows. rows = filter (\<lambda>r. r_task_id r = tid_value tid \<and> r_status r = RUNNING) (d_tasks (st_db s))
      \<and> (case found of None \<Rightarrow> rows = [] | Some a \<Rightarrow> \<exists>r rs. rows = r # rs \<and> row_to_task r = Inr a)"
    by (simp add: sql_defs getsM_def)
  then show "(case found of
        None \<Rightarrow> \<not> (\<exists>q \<in> set (d_tasks (st_db s)). r_task_id q = tid_value tid \<and> r_status q = RUNNING)
      | Some t \<Rightarrow> \<exists>q \<in> set (d_tasks (st_db s)). r_task_id q = tid_value tid \<and> r_status q = RUNNING \<and> row_to_task q = Inr t)"
    by (auto simp: filter_empty_conv filter_eq_Cons_iff split: option.splits)
qed

lemma row_to_task_running:
  "row_to_task q = Inr t \<Longrightarrow> r_status q = RUNNING \<Longrightarrow> is_running t \<and> t_events t = []
     \<and> tid_value (t_task_id t) = r_task_id q"
  by (auto simp: row_to_task_def Let_def is_running_def mk_task_id_def split: option.splits sum.splits if_splits)

text \<open>The finished versions of a RUNNING task: same identity and node, one terminal event.\<close>

definition finished_from :: "task \<Rightarrow> task \<Rightarrow> bool" where
  "finished_from t t' \<longleftrightarrow> t_status t' = DONE \<and> t_task_id t' = t_task_id t
     \<and> allocated_node_id_of t' = allocated_node_id_of t
     \<and> (\<exists>ev. t_events t' = [ev] \<and> event_base ev = base_of t
          \<and> (case error_of t' of None \<Rightarrow> \<exists>lf. ev = TaskCompleted (base_of t) lf | Some m \<Rightarrow> ev = TaskFailed (base_of t) m))"

lemma finished_decide:
  assumes "decide_finalisation t lf rf tr pe sf = Inr (Some t')" "is_running t" "t_events t = []"
  shows "finished_from t t'"
proof -
  have "\<not> (tr \<noteq> [] \<and> pe = [])" using assms(1) decide_defer [of t lf rf tr pe sf] by auto
  from decide_final [OF assms(2) this, of lf rf sf] assms(1,3) show ?thesis
    by (auto simp: finished_from_def split: if_splits)
qed

lemma finished_missing_engine:
  assumes "fail_task t m lf rf = Inr t'" "is_running t" "t_events t = []"
  shows "finished_from t t'"
  using assms by (cases "t_state t") (auto simp: finished_from_def fail_task_def is_running_def t_status_def
      allocated_node_id_of_def error_of_def)

text \<open>Every outcome: nothing visible happened, or the RUNNING row that was read is now DONE and its one
  terminal event was handed over.\<close>

definition consume_result :: "task_id \<Rightarrow> 'y world_scheme \<Rightarrow> exn + bool \<Rightarrow> 'y world_scheme \<Rightarrow> bool" where
  "consume_result tid w r w' \<longleftrightarrow>
     (visible w' = visible w
        \<and> (r = Inr True \<longrightarrow> \<not> (\<exists>q \<in> set (d_tasks (st_db w)). r_task_id q = tid_value tid \<and> r_status q = RUNNING)
             \<and> w_tracker w' = tracker_discard tid (w_tracker w))
        \<and> (r \<noteq> Inr True \<longrightarrow> w_tracker w' = w_tracker w))
   \<or> (\<exists>q t t'. q \<in> set (d_tasks (st_db w)) \<and> r_task_id q = tid_value tid \<and> r_status q = RUNNING
        \<and> row_to_task q = Inr t \<and> finished_from t t' \<and> saved_over t' (st_db w) (st_db w')
        \<and> (r = Inr True \<and> st_trace w' = st_trace w @ calls (st_bus w) (t_events t')
             \<and> w_tracker w' = tracker_discard tid (w_tracker w)
           \<or> r = Inl CancelledError \<and> w_tracker w' = w_tracker w))"

lemma saved_over_rows: "rows_of d0 = rows_of d \<Longrightarrow> saved_over t d d' \<Longrightarrow> saved_over t d0 d'"
  by (simp add: saved_over_def rows_of_def updated_row_def)

lemma save_final_consumes:
  fixes w w1 w' :: "'y world_scheme"
  assumes q: "q \<in> set (d_tasks (st_db w))" "r_task_id q = tid_value tid" "r_status q = RUNNING" "row_to_task q = Inr t"
    and fin: "finished_from t t'" and v: "visible w1 = visible w" "w_tracker w1 = w_tracker w"
    and run: "save_final t' w1 = (r, w')"
  shows "consume_result tid w r w'"
proof -
  have tid: "t_task_id t' = tid"
    using row_to_task_running [OF q(4,3)] q(2) fin by (simp add: finished_from_def task_id.expand)
  have eqs: "rows_of (st_db w) = rows_of (st_db w1)" "st_bus w1 = st_bus w" "st_trace w1 = st_trace w"
    using v by (simp_all add: visible_def committed_def)
  from save_final_outcome [OF run] show ?thesis
  proof (elim disjE conjE exE)
    fix e assume "w_tracker w' = w_tracker w1" "r = Inl e" "visible w' = visible w1"
    then show ?thesis using v unfolding consume_result_def by simp
  next
    assume s: "saved_over t' (st_db w1) (st_db w')" and o: "r = Inr True"
      "st_trace w' = st_trace w1 @ calls (st_bus w1) (t_events t')"
      "w_tracker w' = tracker_discard (t_task_id t') (w_tracker w1)"
    have "r = Inr True \<and> st_trace w' = st_trace w @ calls (st_bus w) (t_events t')
        \<and> w_tracker w' = tracker_discard tid (w_tracker w)" using o eqs v tid by simp
    then show ?thesis using saved_over_rows [OF eqs(1) s] q fin unfolding consume_result_def by blast
  next
    assume s: "saved_over t' (st_db w1) (st_db w')" and o: "r = Inl CancelledError" "w_tracker w' = w_tracker w1"
    have "r = Inl CancelledError \<and> w_tracker w' = w_tracker w" using o v by simp
    then show ?thesis using saved_over_rows [OF eqs(1) s] q fin unfolding consume_result_def by blast
  qed
qed

lemma wdata_visible: "wdata w' = wdata w \<Longrightarrow> visible w' = visible w \<and> w_tracker w' = w_tracker w"
  by (simp add: wdata_def visible_def committed_def)

theorem consume_outcome:
  fixes w w' :: "'y world_scheme"
  assumes run: "consume_task tid sid engines tasks_dir w = (r, w')"
  shows "consume_result tid w r w'"
  using run unfolding consume_task_def
proof (cases rule: bindM_cases)
  case (1 e)
  have "frames store.more (with_uow (tasks_get_running tid) :: ('y, task option) wprog)" by (intro frames_intros)
  from world_more_sess [OF framesD' [OF this 1(1)]] have "w_tracker w' = w_tracker w" by simp
  moreover have "visible w' = visible w" using with_uow_read [OF tx_firsts(2) 1(1)] by simp
  ultimately show ?thesis using 1(2) by (simp add: consume_result_def)
next
  case G: (2 found w1)
  note O = get_running_outcome [OF G(1)]
  have t1: "w_tracker w1 = w_tracker w" using world_more_sess [OF O(2)] by simp
  show ?thesis
  proof (cases found)
    case None
    then show ?thesis using G(2) O t1
      by (auto simp: consume_result_def thenM_def bindM_def discard_slot_def modifyM_def returnM_def)
  next
    case (Some t)
    then obtain q where q: "q \<in> set (d_tasks (st_db w))" "r_task_id q = tid_value tid" "r_status q = RUNNING"
        "row_to_task q = Inr t" using O(3) by auto
    note T = row_to_task_running [OF q(4,3)]
    note fin = save_final_consumes [OF q]
    show ?thesis
    proof (cases "engines_get engines (t_engine t)")
      case None
      then have "fail_missing_engine t w1 = (r, w')" using G(2) Some by simp
      then show ?thesis
        unfolding fail_missing_engine_def
      proof (cases rule: bindM_cases)
        case (1 e)
        then show ?thesis using O(1) t1 by (simp add: fromSum_def consume_result_def)
      next
        case (2 t' w2)
        then have "w2 = w1" "finished_from t t'" using finished_missing_engine T by (auto simp: fromSum_def)
        then show ?thesis using fin [OF _ O(1) t1] 2(2) by simp
      qed
    next
      case (Some e)
      let ?dl = "\<lambda>(sf, outs, rf). bindM (download_outputs sid rf (path_str sf) outs)
          (\<lambda>(lf, remote, tr, pe). finalize_task t lf remote tr pe sf)"
      have m: "bindM (prepare_store_folder t tasks_dir e) ?dl w1 = (r, w')"
        using G(2) \<open>found = Some t\<close> Some by simp
      have fp: "frames wdata (prepare_store_folder t tasks_dir e :: ('y, ppath \<times> string list \<times> string) wprog)"
        unfolding prepare_store_folder_def Let_def by (intro frames_intros)
      have fd: "frames wdata (download_outputs sid rf ld outs :: ('y, string \<times> string \<times> dl_errors \<times> dl_errors) wprog)"
        for rf ld outs by (intro wdata_wcore frames_download)
      from m show ?thesis
      proof (cases rule: bindM_cases)
        case (1 er)
        then show ?thesis using wdata_visible [OF framesD' [OF fp 1(1)]] O(1) t1 by (simp add: consume_result_def)
      next
        case P: (2 p w2)
        obtain sf outs rf where p: "p = (sf, outs, rf)" by (cases p)
        note v2 = wdata_visible [OF framesD' [OF fp P(1)]]
        have "bindM (download_outputs sid rf (path_str sf) outs)
          (\<lambda>(lf, remote, tr, pe). finalize_task t lf remote tr pe sf) w2 = (r, w')" using P(2) p by simp
        then show ?thesis
        proof (cases rule: bindM_cases)
          case (1 er)
          then show ?thesis using wdata_visible [OF framesD' [OF fd 1(1)]] v2 O(1) t1 by (simp add: consume_result_def)
        next
          case D: (2 d w3)
          obtain lf remote tr pe where d: "d = (lf, remote, tr, pe)" by (cases d)
          have v3: "visible w3 = visible w" "w_tracker w3 = w_tracker w"
            using wdata_visible [OF framesD' [OF fd D(1)]] v2 O(1) t1 by simp_all
          have F: "finalize_task t lf remote tr pe sf w3 = (r, w')" using D(2) d by simp
          then show ?thesis
            unfolding finalize_task_def
          proof (cases rule: bindM_cases)
            case (1 er)
            then show ?thesis using v3 by (simp add: fromSum_def consume_result_def)
          next
            case (2 x w4)
            have w4: "w4 = w3" "decide_finalisation t lf remote tr pe sf = Inr x" using 2(1) by (simp_all add: fromSum_def)
            show ?thesis
            proof (cases x)
              case None
              then show ?thesis using 2(2) w4 v3 by (auto simp: returnM_def consume_result_def)
            next
              case (Some t')
              have "finished_from t t'" using finished_decide [of t lf remote tr pe sf t'] w4 Some T by simp
              then show ?thesis using fin [OF _ v3] 2(2) w4 Some by simp
            qed
          qed
        qed
      qed
    qed
  qed
qed

end
