(* ===== verification/Unique_Queue.thy ===== *)
theory Unique_Queue
  imports Domain_Model "HOL-Library.Multiset"
begin

text \<open>
  \<open>application/queue.py\<close>: the deduplicating queue between a producer and its consumers.  A message is
  in the queue, pending (taken but not done), or held by a blocked \<open>put\<close> that waits for room under the
  put lock.  Identity is the message id only.
\<close>

datatype ('i, 'p) umessage = UMessage (um_id: 'i) (um_payload: 'p)

record ('i, 'p) uqueue =
  uq_maxsize :: int
  uq_queue :: "('i, 'p) umessage list"
  uq_pending :: "('i, 'p) umessage list"
  uq_putting :: "('i, 'p) umessage option"
  uq_unfinished :: int

definition uq_new :: "int \<Rightarrow> ('i, 'p) uqueue" where
  "uq_new maxsize = \<lparr>uq_maxsize = maxsize, uq_queue = [], uq_pending = [], uq_putting = None,
                     uq_unfinished = 0\<rparr>"

definition um_eq :: "('i, 'p) umessage \<Rightarrow> ('i, 'p) umessage \<Rightarrow> bool" where
  "um_eq a b \<longleftrightarrow> um_id a = um_id b"

definition um_in :: "('i, 'p) umessage \<Rightarrow> ('i, 'p) umessage list \<Rightarrow> bool" where
  "um_in m ms \<longleftrightarrow> filter (um_eq m) ms \<noteq> []"

definition uq_full :: "('i, 'p) uqueue \<Rightarrow> bool" where
  "uq_full q \<longleftrightarrow> 0 < uq_maxsize q \<and> uq_maxsize q \<le> int (length (uq_queue q))"

definition uq_enqueue :: "('i, 'p) umessage \<Rightarrow> ('i, 'p) uqueue \<Rightarrow> ('i, 'p) uqueue" where
  "uq_enqueue m q = q\<lparr>uq_queue := uq_queue q @ [m], uq_unfinished := uq_unfinished q + 1,
                      uq_putting := None\<rparr>"

datatype put_result = Skipped | Enqueued | Blocked

text \<open>\<open>put\<close>, for a producer that holds the put lock: skip a known message, else enqueue it, waiting
  when the queue is full.\<close>

definition uq_put :: "('i, 'p) umessage \<Rightarrow> ('i, 'p) uqueue \<Rightarrow> put_result \<times> ('i, 'p) uqueue" where
  "uq_put m q =
     (if um_in m (uq_queue q) \<or> um_in m (uq_pending q) then (Skipped, q)
      else if uq_full q then (Blocked, q\<lparr>uq_putting := Some m\<rparr>)
      else (Enqueued, uq_enqueue m q))"

text \<open>The blocked \<open>put\<close> woken up: it enqueues once there is room.\<close>

definition uq_resume :: "('i, 'p) uqueue \<Rightarrow> ('i, 'p) uqueue" where
  "uq_resume q = (case uq_putting q of
      None \<Rightarrow> q
    | Some m \<Rightarrow> if uq_full q then q else uq_enqueue m q)"

text \<open>\<open>_get\<close>; adding to a Python set keeps an equal element that is already there.\<close>

definition uq_get :: "('i, 'p) uqueue \<Rightarrow> (('i, 'p) umessage \<times> ('i, 'p) uqueue) option" where
  "uq_get q = (case uq_queue q of
      [] \<Rightarrow> None
    | m # ms \<Rightarrow> Some (m, q\<lparr>uq_queue := ms,
        uq_pending := (if um_in m (uq_pending q) then uq_pending q else uq_pending q @ [m])\<rparr>))"

definition uq_item_done :: "('i, 'p) umessage \<Rightarrow> ('i, 'p) uqueue \<Rightarrow> exn + ('i, 'p) uqueue" where
  "uq_item_done m q =
     (if \<not> um_in m (uq_pending q) then Inl (KeyErr ''item'')
      else if uq_unfinished q \<le> 0 then Inl (ValueError ''task_done() called too many times'')
      else Inr (q\<lparr>uq_pending := filter (\<lambda>x. \<not> um_eq m x) (uq_pending q),
                  uq_unfinished := uq_unfinished q - 1\<rparr>))"

definition uq_qsize :: "('i, 'p) uqueue \<Rightarrow> int" where
  "uq_qsize q = int (length (uq_queue q))"

definition uq_psize :: "('i, 'p) uqueue \<Rightarrow> int" where
  "uq_psize q = int (length (uq_pending q))"

section \<open>Interleavings of producers and consumers\<close>

text \<open>One scheduler step: the put lock admits one \<open>put\<close> at a time, a blocked \<open>put\<close> may be cancelled.\<close>

inductive uq_step :: "('i, 'p) uqueue \<Rightarrow> ('i, 'p) uqueue \<Rightarrow> bool" where
  Put: "uq_putting q = None \<Longrightarrow> uq_put m q = (r, q') \<Longrightarrow> uq_step q q'"
| Resume: "uq_step q (uq_resume q)"
| Cancel: "uq_step q (q\<lparr>uq_putting := None\<rparr>)"
| Get: "uq_get q = Some (m, q') \<Longrightarrow> uq_step q q'"
| Done: "um_in m (uq_pending q) \<Longrightarrow> uq_item_done m q = Inr q' \<Longrightarrow> uq_step q q'"

inductive uq_reach :: "int \<Rightarrow> ('i, 'p) uqueue \<Rightarrow> bool" for n where
  start: "uq_reach n (uq_new n)"
| step: "uq_reach n q \<Longrightarrow> uq_step q q' \<Longrightarrow> uq_reach n q'"

inductive_cases uq_stepE: "uq_step q q'"

text \<open>All messages the queue knows of, and the invariant: no two share an id.\<close>

definition uq_ids :: "('i, 'p) uqueue \<Rightarrow> 'i list" where
  "uq_ids q = map um_id (uq_queue q @ uq_pending q @ (case uq_putting q of None \<Rightarrow> [] | Some m \<Rightarrow> [m]))"

definition uq_inv :: "int \<Rightarrow> ('i, 'p) uqueue \<Rightarrow> bool" where
  "uq_inv n q \<longleftrightarrow> distinct (uq_ids q) \<and> uq_unfinished q = uq_qsize q + uq_psize q
     \<and> uq_maxsize q = n \<and> (0 < n \<longrightarrow> uq_qsize q \<le> n)"

lemma um_in_iff: "um_in m ms \<longleftrightarrow> um_id m \<in> um_id ` set ms"
  by (auto simp: um_in_def um_eq_def filter_empty_conv)

lemma uq_inv_new: "uq_inv n (uq_new n)"
  by (simp add: uq_inv_def uq_new_def uq_ids_def uq_qsize_def uq_psize_def)

lemma uq_inv_enqueue:
  "uq_inv n q \<Longrightarrow> uq_putting q = None \<or> uq_putting q = Some m \<Longrightarrow> \<not> uq_full q \<Longrightarrow>
   um_id m \<notin> um_id ` set (uq_queue q) \<Longrightarrow> um_id m \<notin> um_id ` set (uq_pending q) \<Longrightarrow>
   uq_inv n (uq_enqueue m q)"
  by (auto simp: uq_inv_def uq_enqueue_def uq_ids_def uq_qsize_def uq_psize_def uq_full_def)

lemma uq_inv_put:
  "uq_inv n q \<Longrightarrow> uq_putting q = None \<Longrightarrow> uq_put m q = (r, q') \<Longrightarrow> uq_inv n q'"
  by (auto simp: uq_put_def um_in_iff uq_inv_enqueue split: if_splits)
     (auto simp: uq_inv_def uq_ids_def uq_qsize_def uq_psize_def)

lemma uq_inv_resume: "uq_inv n q \<Longrightarrow> uq_inv n (uq_resume q)"
proof (cases "uq_putting q")
  case (Some m)
  assume inv: "uq_inv n q"
  then have "um_id m \<notin> um_id ` set (uq_queue q)" "um_id m \<notin> um_id ` set (uq_pending q)"
    using Some by (auto simp: uq_inv_def uq_ids_def)
  then show ?thesis using inv Some by (simp add: uq_resume_def uq_inv_enqueue)
qed (simp add: uq_resume_def)

lemma uq_inv_cancel: "uq_inv n q \<Longrightarrow> uq_inv n (q\<lparr>uq_putting := None\<rparr>)"
  by (auto simp: uq_inv_def uq_ids_def uq_qsize_def uq_psize_def)

lemma uq_inv_get:
  assumes inv: "uq_inv n q" and run: "uq_get q = Some (m, q')"
  shows "uq_inv n q'"
proof (cases "uq_queue q")
  case Nil
  then show ?thesis using run by (simp add: uq_get_def)
next
  case (Cons x ms)
  have "\<not> um_in x (uq_pending q)"
    using inv Cons by (auto simp: uq_inv_def uq_ids_def um_in_iff)
  then have q': "q' = q\<lparr>uq_queue := ms, uq_pending := uq_pending q @ [x]\<rparr>"
    using run Cons by (auto simp: uq_get_def)
  have "mset (uq_ids q') = mset (uq_ids q)"
    using Cons by (simp add: q' uq_ids_def)
  then have "distinct (uq_ids q')"
    using inv by (metis mset_eq_imp_distinct_iff uq_inv_def)
  then show ?thesis
    using inv Cons by (auto simp: uq_inv_def q' uq_qsize_def uq_psize_def)
qed

lemma length_remove_id:
  "distinct (map um_id ms) \<Longrightarrow> um_id m \<in> um_id ` set ms \<Longrightarrow>
   int (length (filter (\<lambda>x. \<not> um_eq m x) ms)) = int (length ms) - 1"
proof (induction ms)
  case (Cons x xs)
  have "filter (\<lambda>y. \<not> um_eq m y) xs = xs" if "um_id m = um_id x"
    using Cons.prems that by (auto simp: um_eq_def filter_id_conv)
  then show ?case using Cons by (auto simp: um_eq_def)
qed simp

lemma uq_inv_done:
  assumes inv: "uq_inv n q" and run: "uq_item_done m q = Inr q'"
  shows "uq_inv n q'"
proof -
  let ?p = "filter (\<lambda>x. \<not> um_eq m x) (uq_pending q)"
  have m: "um_id m \<in> um_id ` set (uq_pending q)"
    and q': "q' = q\<lparr>uq_pending := ?p, uq_unfinished := uq_unfinished q - 1\<rparr>"
    using run by (auto simp: uq_item_done_def um_in_iff split: if_splits)
  have d: "distinct (map um_id (uq_pending q))" "distinct (map um_id (uq_queue q))"
    using inv by (auto simp: uq_inv_def uq_ids_def)
  have sub: "um_id ` set ?p \<subseteq> um_id ` set (uq_pending q)" by auto
  have "distinct (uq_ids q')"
    using inv sub d unfolding uq_inv_def uq_ids_def q'
    by (cases "uq_putting q") (simp_all add: distinct_map_filter, blast+)
  moreover have "uq_psize q' = uq_psize q - 1"
    using length_remove_id [OF d(1) m] by (simp add: uq_psize_def q')
  ultimately show ?thesis
    using inv by (simp add: uq_inv_def q' uq_qsize_def)
qed

lemma uq_inv_step: "uq_inv n q \<Longrightarrow> uq_step q q' \<Longrightarrow> uq_inv n q'"
  by (elim uq_stepE) (auto intro: uq_inv_put uq_inv_resume uq_inv_cancel uq_inv_get uq_inv_done)

lemma uq_inv_reach: "uq_reach n q \<Longrightarrow> uq_inv n q"
  by (induction rule: uq_reach.induct) (auto intro: uq_inv_new uq_inv_step)

end
