(* ===== verification/Orchestrator.thy ===== *)
theory Orchestrator
  imports Node_Teardown Consume Unique_Queue
begin

text \<open>
  \<open>application/orchestrator.py\<close>: the daemon's four scheduling phases.  The orchestrator's own state
  extends the world; its constructor arguments are the record \<open>orch_env\<close>.  Producers compute the
  messages of one cycle, consumers handle one message; \<open>pipe_step\<close> is one step of the loop that
  \<open>_create_producer_consumers\<close> builds from a producer, a queue and a consumer.

  Log records are left out, and so is the sleep between cycles: a cycle may begin at any time.
\<close>

record orch = world +
  o_consuming :: "task_id set"
  o_occupancy_started :: "node_id set"
  o_connect_failures :: "(node_id \<times> real) list"
  o_not_found :: "(task_id \<times> int) list"
  o_connected :: bool
  o_cancelled :: bool
  o_stopped :: bool
  o_http_open :: bool

type_synonym ('z, 'a) oprog = "('z orch_scheme, exn, 'a) M"

text \<open>How the private keys load: \<open>list_private_keys\<close> gives them, does not find its directory, or fails.\<close>

datatype keys_outcome = KeysLoaded | KeysDirMissing string | KeysFailed exn

record 'z orch_env =
  oe_settings :: local_settings
  oe_remote :: remote_defaults
  oe_clouds :: "'z orch_ext cloud_port"
  oe_engines :: engine_repository
  oe_config_clouds :: "config_cloud list"
  oe_active_clouds :: "config_cloud list"
  oe_local_tasks_dir :: ppath
  oe_keys :: keys_outcome
  oe_start :: "sid \<Rightarrow> engine \<Rightarrow> task \<Rightarrow> ('z, bool) oprog"

definition orch_init :: "world \<Rightarrow> orch" where
  "orch_init w = world.extend w
     \<lparr>o_consuming = {}, o_occupancy_started = {}, o_connect_failures = [], o_not_found = [],
      o_connected = False, o_cancelled = False, o_stopped = False, o_http_open = True\<rparr>"

definition logged :: "('z, unit) oprog \<Rightarrow> ('z, unit) oprog" where
  "logged m = suppress m"

section \<open>Connecting\<close>

definition connect_machine_producer :: "('z, (node_id, node) umessage list) oprog" where
  "connect_machine_producer =
     bindM (with_uow (bindM nodes_list_enabled (\<lambda>enabled.
              bindM (tasks_list_running None) (\<lambda>running.
                bindM nodes_list_disabled (\<lambda>disabled.
                  (let busy = map allocated_node_id_of running in
                   returnM (enabled, filter (\<lambda>n. List.member busy (Some (n_node_id n))) disabled)))))))
       (\<lambda>(enabled, draining). getsM (\<lambda>w.
          map (\<lambda>n. UMessage (n_node_id n) n)
            (filter (\<lambda>n. \<not> repo_contains (n_node_id n) w) (enabled @ draining))))"

fun connect_grace_for :: "config_cloud list \<Rightarrow> string option \<Rightarrow> int" where
  "connect_grace_for cfgs None = 120"
| "connect_grace_for [] (Some c) = 120"
| "connect_grace_for (cfg # cfgs) (Some c) =
     (if cfg_prefix cfg = c then cfg_connect_grace cfg else connect_grace_for cfgs (Some c))"

definition load_private_keys :: "'z orch_env \<Rightarrow> node \<Rightarrow> ('z, unit) oprog" where
  "load_private_keys env n = (case oe_keys env of
      KeysLoaded \<Rightarrow> skipM
    | KeysDirMissing d \<Rightarrow> raiseM (MachineConnectionError (n_node_id n) (n_hostname n) (''keys_dir does not exist: '' @ d))
    | KeysFailed e \<Rightarrow> raiseM e)"

definition forget_failure :: "node_id \<Rightarrow> ('z, unit) oprog" where
  "forget_failure nid = modifyM (\<lambda>w. w\<lparr>o_connect_failures := dpop nid (o_connect_failures w)\<rparr>)"

definition connect_attempt :: "'z orch_env \<Rightarrow> node \<Rightarrow> ('z, unit) oprog" where
  "connect_attempt env n =
     thenM (load_private_keys env n)
    (thenM (repo_connect (oe_remote env) n)
    (thenM (forget_failure (n_node_id n))
           (modifyM (\<lambda>w. w\<lparr>o_connected := True\<rparr>))))"

text \<open>The age of the first failure: \<open>setdefault\<close>, then the difference to the clock.\<close>

definition failure_age :: "node_id \<Rightarrow> ('z, real) oprog" where
  "failure_age nid w = (case dget (o_connect_failures w) nid of
      Some t \<Rightarrow> (Inr (w_clock w - t), w)
    | None \<Rightarrow> (Inr 0, w\<lparr>o_connect_failures := dput nid (w_clock w) (o_connect_failures w)\<rparr>))"

definition connect_failed :: "'z orch_env \<Rightarrow> node \<Rightarrow> ('z, unit) oprog" where
  "connect_failed env n =
     (if n_cloud n = None then skipM
      else bindM (failure_age (n_node_id n)) (\<lambda>age.
        if age < real_of_int (connect_grace_for (oe_config_clouds env) (n_cloud n)) then skipM
        else thenM (logged (abandon_node (oe_clouds env) n)) (forget_failure (n_node_id n))))"

definition connect_machine_consumer :: "'z orch_env \<Rightarrow> (node_id, node) umessage \<Rightarrow> ('z, unit) oprog" where
  "connect_machine_consumer env msg =
     catchM (connect_attempt env (um_payload msg))
       (\<lambda>err. if is_MachineConnectionError err then connect_failed env (um_payload msg)
              else if is_Exception err then skipM else raiseM err)"

section \<open>Allocating\<close>

definition clouds_get_capacity :: "'z orch_env \<Rightarrow> ('z, int) oprog" where
  "clouds_get_capacity env =
     bindM (with_uow nodes_list_all) (\<lambda>ns.
       (let counts = count_nodes_by_cloud ns;
            max_nodes = sum_list (map cfg_max_nodes (oe_active_clouds env));
            current = sum_list (map (\<lambda>c. case dget counts (cfg_prefix c) of None \<Rightarrow> 0 | Some k \<Rightarrow> k)
                        (oe_active_clouds env))
        in returnM (max 0 (max_nodes - current))))"

definition task_messages :: "task list \<Rightarrow> (task_id, task) umessage list" where
  "task_messages ts = map (\<lambda>t. UMessage (t_task_id t) t) ts"

definition allocator_producer :: "'z orch_env \<Rightarrow> ('z, (task_id, task) umessage list) oprog" where
  "allocator_producer env =
     bindM (clouds_get_capacity env) (\<lambda>ccap.
       bindM (getsM (\<lambda>w. int (length (repo_list_free None w)))) (\<lambda>free.
         bindM (with_uow (tasks_list_todo (Some (max ccap (max free 10))))) (\<lambda>ts.
           returnM (task_messages ts))))"

definition allocator_consumer :: "'z orch_env \<Rightarrow> (task_id, task) umessage \<Rightarrow> ('z, unit) oprog" where
  "allocator_consumer env msg =
     logged (thenM (allocate_task (oe_clouds env) (oe_start env) (oe_engines env)
                      (rd_tasks_dir (oe_remote env)) (um_id msg)) skipM)"

section \<open>Consuming\<close>

text \<open>The producer lists the running tasks; each is yielded unless it is in flight when its turn comes,
  the guard \<open>not_in_flight\<close>.\<close>

definition task_consumer_producer :: "('z, (task_id, task) umessage list) oprog" where
  "task_consumer_producer = bindM (with_uow (tasks_list_running None)) (\<lambda>ts. returnM (task_messages ts))"

definition not_in_flight :: "(task_id, task) umessage \<Rightarrow> 'z orch_scheme \<Rightarrow> bool" where
  "not_in_flight m w \<longleftrightarrow> um_id m \<notin> o_consuming w"

definition broken_tasks_passes :: int where
  "broken_tasks_passes = 20"

definition times_not_found :: "task_id \<Rightarrow> 'z orch_scheme \<Rightarrow> int" where
  "times_not_found tid w = (case dget (o_not_found w) tid of None \<Rightarrow> 0 | Some k \<Rightarrow> k)"

definition abandon_lost :: "task_id \<Rightarrow> task \<Rightarrow> ('z, unit) oprog" where
  "abandon_lost tid t =
     bindM (fromSum (abandon_task t default_abandon_error)) (\<lambda>t'.
       finallyM (with_uow (thenM (tasks_save t' None) uow_commit)) (discard_slot tid))"

definition machine_gone :: "task_id \<Rightarrow> task \<Rightarrow> ('z, unit) oprog" where
  "machine_gone tid t =
     thenM (modifyM (\<lambda>w. w\<lparr>o_not_found := dput tid (times_not_found tid w + 1) (o_not_found w)\<rparr>))
           (bindM (getsM (times_not_found tid)) (\<lambda>k. whenM (k > broken_tasks_passes) (abandon_lost tid t)))"

definition consume_guarded :: "'z orch_env \<Rightarrow> task_id \<Rightarrow> node_id \<Rightarrow> sid \<Rightarrow> ('z, unit) oprog" where
  "consume_guarded env tid key sid =
     thenM (modifyM (\<lambda>w. w\<lparr>o_consuming := insert tid (o_consuming w)\<rparr>))
    (bindM (finallyM (consume_task tid sid (oe_engines env) (oe_local_tasks_dir env))
                     (modifyM (\<lambda>w. w\<lparr>o_consuming := o_consuming w - {tid}\<rparr>)))
       (\<lambda>finalised. whenM finalised
          (modifyM (\<lambda>w. w\<lparr>o_occupancy_started := o_occupancy_started w - {key}\<rparr>))))"

text \<open>The first tick on a machine starts its occupancy check; the session is looked up again then.\<close>

definition ensure_occupancy :: "'z orch_env \<Rightarrow> task \<Rightarrow> node_id \<Rightarrow> sid \<Rightarrow> ('z, sid option) oprog" where
  "ensure_occupancy env t key sid =
     bindM (getsM (\<lambda>w. key \<in> o_occupancy_started w)) (\<lambda>started.
       if started then returnM (Some sid)
       else (case engines_get (oe_engines env) (t_engine t) of
           None \<Rightarrow> returnM (Some sid)
         | Some e \<Rightarrow>
             thenM (start_occupancy_check sid e)
            (thenM (modifyM (\<lambda>w. w\<lparr>o_occupancy_started := insert key (o_occupancy_started w)\<rparr>))
                   (getsM (repo_get_session key)))))"

definition task_consumer_consumer :: "'z orch_env \<Rightarrow> (task_id, task) umessage \<Rightarrow> ('z, unit) oprog" where
  "task_consumer_consumer env msg =
     (let tid = um_id msg; t = um_payload msg in
      case allocated_node_id_of t of
        None \<Rightarrow> raiseM (OtherError ''allocated_node_id'')
      | Some nid \<Rightarrow>
          bindM (getsM (repo_get_session nid)) (\<lambda>found. case found of
              None \<Rightarrow> machine_gone tid t
            | Some sid \<Rightarrow>
                bindM (getsM (\<lambda>w. m_node_id (ss_machine (sess w sid)))) (\<lambda>key.
                  bindM (ensure_occupancy env t key sid) (\<lambda>again. case again of
                      None \<Rightarrow> skipM
                    | Some sid' \<Rightarrow>
                        bindM (getsM (\<lambda>w. m_state (ss_machine (sess w sid')) = FREE \<and> key \<in> o_occupancy_started w))
                          (\<lambda>go. whenM go (consume_guarded env tid key sid'))))))"

section \<open>Deallocating\<close>

definition idle_machines :: "'y world_scheme \<Rightarrow> (node_id \<times> real) list" where
  "idle_machines w = foldl (\<lambda>d sid. (let m = ss_machine (sess w sid) in
       case m_free_since m of
         Some t \<Rightarrow> if m_state m = FREE then dput (m_node_id m) t d else d
       | None \<Rightarrow> d)) [] (repo_list_connected w)"

definition deallocator_producer :: "'z orch_env \<Rightarrow> ('z, (node_id, node) umessage list) oprog" where
  "deallocator_producer env =
     bindM (getsM idle_machines) (\<lambda>idle.
       bindM (deallocate_nodes (oe_config_clouds env) idle) (\<lambda>ns.
         returnM (map (\<lambda>n. UMessage (n_node_id n) n) ns)))"

definition deallocator_consumer :: "'z orch_env \<Rightarrow> (node_id, node) umessage \<Rightarrow> ('z, unit) oprog" where
  "deallocator_consumer env msg = logged (deallocate_node (oe_clouds env) (um_payload msg))"

section \<open>Statistics\<close>

definition count_of :: "('k \<times> int) list \<Rightarrow> 'k \<Rightarrow> int" where
  "count_of cs k = (case dget cs k of None \<Rightarrow> 0 | Some n \<Rightarrow> n)"

definition busy_machines :: "'y world_scheme \<Rightarrow> int" where
  "busy_machines w = int (length (filter (\<lambda>sid. m_state (ss_machine (sess w sid)) = BUSY) (repo_list_connected w)))"

definition stats_message :: "int \<Rightarrow> int \<Rightarrow> (bool \<times> int) list \<Rightarrow> (task_status \<times> int) list \<Rightarrow> string" where
  "stats_message threads n_busy ncounters tcounters =
     ''THREADS: '' @ show_int threads @ '' ''
     @ ''NODES: busy:'' @ show_int n_busy @ ''/enabled:'' @ show_int (count_of ncounters True)
     @ ''/total:'' @ show_int (sum_list (map snd ncounters)) @ '' ''
     @ ''TASKS: run:'' @ show_int (count_of tcounters RUNNING) @ ''/todo:'' @ show_int (count_of tcounters TO_DO)
     @ ''/done:'' @ show_int (count_of tcounters DONE)"

definition queue_message :: "(string \<times> int \<times> int) list \<Rightarrow> string" where
  "queue_message qs = join '' '' (map (\<lambda>(name, psize, qsize). name @ '': '' @ show_int psize @ ''/'' @ show_int qsize) qs)"

text \<open>One round of \<open>_print_stats\<close>: the last two messages, and the lines logged; a message is logged when
  it differs from the last one of its kind.  An error leaves the last messages as they were.\<close>

definition log_changed :: "string \<Rightarrow> string option \<times> string list \<Rightarrow> string \<Rightarrow> string option \<times> string list" where
  "log_changed prefix st msg = (if fst st = Some msg then st else (Some msg, snd st @ [prefix @ msg]))"

definition stats_round ::
  "int \<Rightarrow> (string \<times> int \<times> int) list \<Rightarrow> string option \<Rightarrow> string option
    \<Rightarrow> ('z, string option \<times> string option \<times> string list) oprog" where
  "stats_round threads queues last_msg last_qmsg =
     catchM
       (bindM (with_uow (bindM nodes_count_by_status (\<lambda>nc. bindM tasks_count_by_status (\<lambda>tc. returnM (nc, tc)))))
         (\<lambda>(nc, tc). bindM (getsM busy_machines) (\<lambda>n_busy.
            (let (lm, l1) = log_changed '''' (last_msg, []) (stats_message threads n_busy nc tc);
                 (lq, l2) = log_changed ''QUEUES: '' (last_qmsg, l1) (queue_message queues)
             in returnM (lm, lq, l2)))))
       (\<lambda>e. if is_Exception e then returnM (last_msg, last_qmsg, []) else raiseM e)"

section \<open>The loops\<close>

text \<open>A pipe is a queue with the messages its producer has computed and not yet put.  A step is one of:
  a production cycle, the put (or the skip) of the next message, a blocked put that finds room, a worker
  taking a message, and a worker finishing a message it took.  Between taking and finishing other steps
  may happen.  The consumer's errors are logged; a cancellation ends the worker, the message is marked
  done all the same.\<close>

record ('i, 'p) pipe =
  pp_queue :: "('i, 'p) uqueue"
  pp_yield :: "('i, 'p) umessage list"

definition pipe_new :: "int \<Rightarrow> ('i, 'p) pipe" where
  "pipe_new maxsize = \<lparr>pp_queue = uq_new maxsize, pp_yield = []\<rparr>"

definition worker_turn ::
  "(('i, 'p) umessage \<Rightarrow> ('w, exn, unit) M) \<Rightarrow> ('i, 'p) umessage \<Rightarrow> (('i, 'p) uqueue \<times> 'w, exn, unit) M" where
  "worker_turn consume m = finallyM
     (catchM (\<lambda>(q, w). case consume m w of (r, w') \<Rightarrow> (r, (q, w')))
             (\<lambda>e. if is_Exception e then skipM else raiseM e))
     (\<lambda>(q, w). case uq_item_done m q of Inl e \<Rightarrow> (Inl e, (q, w)) | Inr q' \<Rightarrow> (Inr (), (q', w)))"

inductive pipe_step ::
  "('w, exn, ('i, 'p) umessage list) M \<Rightarrow> (('i, 'p) umessage \<Rightarrow> 'w \<Rightarrow> bool)
    \<Rightarrow> (('i, 'p) umessage \<Rightarrow> ('w, exn, unit) M) \<Rightarrow> int
    \<Rightarrow> ('i, 'p) pipe \<times> 'w \<Rightarrow> ('i, 'p) pipe \<times> 'w \<Rightarrow> bool"
  for produce and yields and consume and workers where
  Produce: "pp_yield p = [] \<Longrightarrow> uq_putting (pp_queue p) = None \<Longrightarrow> produce w = (r, w') \<Longrightarrow>
      pipe_step produce yields consume workers (p, w)
        (p\<lparr>pp_yield := (case r of Inl e \<Rightarrow> [] | Inr ms \<Rightarrow> ms)\<rparr>, w')"
| Put: "pp_yield p = m # ms \<Longrightarrow> uq_putting (pp_queue p) = None \<Longrightarrow> yields m w \<Longrightarrow>
      uq_put m (pp_queue p) = (res, q) \<Longrightarrow>
      pipe_step produce yields consume workers (p, w) (p\<lparr>pp_queue := q, pp_yield := ms\<rparr>, w)"
| Skip: "pp_yield p = m # ms \<Longrightarrow> uq_putting (pp_queue p) = None \<Longrightarrow> \<not> yields m w \<Longrightarrow>
      pipe_step produce yields consume workers (p, w) (p\<lparr>pp_yield := ms\<rparr>, w)"
| Resume: "pipe_step produce yields consume workers (p, w) (p\<lparr>pp_queue := uq_resume (pp_queue p)\<rparr>, w)"
| Take: "uq_psize (pp_queue p) < workers \<Longrightarrow> uq_get (pp_queue p) = Some (m, q) \<Longrightarrow>
      pipe_step produce yields consume workers (p, w) (p\<lparr>pp_queue := q\<rparr>, w)"
| Finish: "um_in m (uq_pending (pp_queue p)) \<Longrightarrow> worker_turn consume m (pp_queue p, w) = (r, (q, w')) \<Longrightarrow>
      pipe_step produce yields consume workers (p, w) (p\<lparr>pp_queue := q\<rparr>, w')"

inductive_cases pipe_stepE: "pipe_step produce yields consume workers (p, w) (p', w')"

record daemon_pipes =
  dp_conn :: "(node_id, node) pipe"
  dp_alloc :: "(task_id, task) pipe"
  dp_cons :: "(task_id, task) pipe"
  dp_dealloc :: "(node_id, node) pipe"

definition daemon_pipes_new :: "local_settings \<Rightarrow> daemon_pipes" where
  "daemon_pipes_new s = \<lparr>dp_conn = pipe_new (ls_conn_machine_pending s), dp_alloc = pipe_new (ls_allocate_pending s),
     dp_cons = pipe_new (ls_consume_pending s), dp_dealloc = pipe_new (ls_deallocate_pending s)\<rparr>"

section \<open>Shutdown\<close>

text \<open>\<open>jobs\<close> says how each cancelled background job ended when awaited.\<close>

definition await_jobs :: "exn option list \<Rightarrow> ('z, unit) oprog" where
  "await_jobs jobs = forM jobs (\<lambda>out. case out of
       None \<Rightarrow> skipM
     | Some e \<Rightarrow> if e = CancelledError then skipM else logged (raiseM e))"

definition orch_stop :: "exn option list \<Rightarrow> ('z, unit) oprog" where
  "orch_stop jobs =
     bindM (getsM o_stopped) (\<lambda>stopped. if stopped then skipM
       else thenM (modifyM (\<lambda>w. w\<lparr>o_stopped := True, o_cancelled := True\<rparr>))
           (thenM (await_jobs jobs)
           (thenM (logged cloud_stop)
           (thenM (logged repo_disconnect_all)
           (thenM (bindM (getsM o_http_open) (\<lambda>h. whenM h (logged round_trip)))
                  (modifyM (\<lambda>w. w\<lparr>o_http_open := False\<rparr>)))))))"

end
