(* ===== verification/Lifecycle.thy ===== *)
theory Lifecycle
  imports Progress Orchestrator
begin

text \<open>
  Every use case of the application, and every producer and consumer of the daemon, keeps the tables
  well-formed and moves tasks forward only.
\<close>

lemma transition_forward:
  "run_task t nid rf = Inr t' \<Longrightarrow> forward_save t' (Some TO_DO)"
  "reject_task t m = Inr t' \<Longrightarrow> forward_save t' ex"
  "complete_task t lf rf = Inr t' \<Longrightarrow> forward_save t' ex"
  "fail_task t m lf rf = Inr t' \<Longrightarrow> forward_save t' ex"
  "abandon_task t m = Inr t' \<Longrightarrow> forward_save t' ex"
  using transition_Inr [of "TrRun nid rf" t t'] transition_Inr [of "TrReject m" t t']
    transition_Inr [of "TrComplete lf rf" t t'] transition_Inr [of "TrFail m lf rf" t t']
    transition_Inr [of "TrAbandon m" t t']
  by (simp_all add: forward_save_def)

lemma frames_occupancy_check: "frames wdata (start_occupancy_check sid e)"
proof (rule framesI)
  fix w :: "'y world_scheme"
  obtain r w' where run: "start_occupancy_check sid e w = (r, w')" by (cases "start_occupancy_check sid e w")
  show "wdata (snd (start_occupancy_check sid e w)) = wdata w"
    using start_occupancy_check_outcome(2,3) [OF run] by (simp add: run wdata_def store_view_def)
qed

lemma grown_discard [grown_intros]: "keeps (grown rs) (discard_slot tid)"
  unfolding discard_slot_def by (rule grown_modify) simp

lemma grown_suppress [grown_intros]: "keeps (grown rs) m \<Longrightarrow> keeps (grown rs) (suppress m)"
  by (rule keeps_suppress)

section \<open>Allocation\<close>

context task_starter begin

lemma grown_claim:
  assumes "forward_save t (Some TO_DO)"
  shows "keeps (grown rs) (claim_and_start start sid e t)"
proof -
  have "keeps (in_block rs) (start sid e t)" by (rule in_block_frames [OF start_store])
  then show ?thesis
    unfolding claim_and_start_def by (intro grown_intros keeps_intros assms)
qed

lemma grown_try_start [grown_intros]: "keeps (grown rs) (try_start_on_machine start tasks_dir sid n e t)"
  unfolding try_start_on_machine_def
  by (intro keeps_fromSum_bind keeps_intros grown_intros grown_claim grown_frames frames_occupancy_check)
     (rule transition_forward)

lemma grown_try_machines [grown_intros]: "keeps (grown rs) (try_machines start tasks_dir t e ps)"
proof (induction ps)
  case (Cons p ps)
  obtain sid n where p: "p = (sid, n)" by (cases p)
  show ?case unfolding p try_machines.simps by (intro keeps_intros grown_intros Cons.IH)
qed (simp add: keeps_return)

lemma grown_free [grown_intros]: "keeps (grown rs) (allocate_free_machine start tasks_dir t e)"
  unfolding allocate_free_machine_def find_free_machines_def by (intro keeps_intros grown_intros)

end

lemma grown_validate [grown_intros]: "keeps (grown rs) (validate_engine engines t)"
  unfolding validate_engine_def
  by (intro keeps_fromSum_bind keeps_intros grown_intros) (rule transition_forward)

lemma grown_cleanup [grown_intros]: "keeps (grown rs) (cleanup_tmp_node nid)"
  unfolding cleanup_tmp_node_def by (intro grown_intros keeps_intros)

lemma grown_slots [grown_intros]:
  "keeps (grown rs) (add_slot tid)" "keeps (grown rs) (link_slot tid nid)" "keeps (grown rs) (release_slot tid tmp)"
proof -
  show "keeps (grown rs) (add_slot tid)" by (auto simp: keeps_def add_slot_def grown_def split: prod.split)
  show "keeps (grown rs) (link_slot tid nid)" unfolding link_slot_def by (rule grown_modify) simp
  show "keeps (grown rs) (release_slot tid tmp)" unfolding release_slot_def by (intro keeps_intros grown_intros)
qed

context cloud_provider begin

lemma grown_cloud [grown_intros]:
  "keeps (grown rs) (cp_allocate cp name n)" "keeps (grown rs) (cp_deallocate cp n)"
  by (rule grown_frames [OF allocate_frame]) (rule grown_frames [OF deallocate_frame])

lemma grown_provision [grown_intros]: "keeps (grown rs) (provision_node cp e tid)"
  unfolding provision_node_def select_and_insert_tmp_def allocate_cloud_node_def persist_node_with_cleanup_def
  by (intro keeps_intros grown_intros)

lemma grown_teardown [grown_intros]:
  "keeps (grown rs) (abandon_node cp n)" "keeps (grown rs) (deallocate_node cp n)"
proof -
  have row: "keeps (grown rs) (disable_row nid)" "keeps (grown rs) (remove_row nid)" for nid
    unfolding disable_row_def remove_row_def by (intro grown_intros keeps_intros)+
  have "keeps (grown rs) (discard_slots_of nid)" for nid
    unfolding discard_slots_of_def by (rule grown_modify) simp
  then show "keeps (grown rs) (abandon_node cp n)"
    unfolding abandon_node_def abandon_body_def by (intro keeps_intros grown_intros row)
  show "keeps (grown rs) (deallocate_node cp n)"
    unfolding deallocate_node_def
    by (intro keeps_intros grown_intros row grown_frames frames_wdata_disconnect)
qed

end


section \<open>Consumption\<close>

lemma grown_save_final [grown_intros]: "forward_save t None \<Longrightarrow> keeps (grown rs) (save_final t)"
  unfolding save_final_def by (intro keeps_intros grown_intros)

lemma decide_forward:
  "decide_finalisation t lf rf tr pe sf = Inr (Some t') \<Longrightarrow> forward_save t' None"
  by (auto simp: decide_finalisation_def Let_def map_sum_def dest: transition_forward(3,4)
      split: if_splits sum.splits)

lemma grown_finalize [grown_intros]: "keeps (grown rs) (finalize_task t lf rf tr pe sf)"
  unfolding finalize_task_def
  by (intro keeps_fromSum_bind keeps_intros grown_intros) (auto dest: decide_forward)

lemma grown_consume [grown_intros]: "keeps (grown rs) (consume_task tid sid engines tasks_dir)"
proof -
  have miss: "keeps (grown rs) (fail_missing_engine t)" for t
    unfolding fail_missing_engine_def by (intro keeps_fromSum_bind grown_intros) (rule transition_forward)
  have "keeps (grown rs) (prepare_store_folder t d e)" for t d e
    unfolding prepare_store_folder_def Let_def by (intro grown_frames frames_intros)
  moreover have "keeps (grown rs) (download_outputs sid rd ld fs)" for rd ld fs
    by (intro grown_frames wdata_wcore frames_download)
  ultimately show ?thesis
    unfolding consume_task_def by (intro keeps_intros grown_intros miss)
qed

section \<open>Submission and the sweep of idle nodes\<close>

lemma grown_sweep [grown_intros]: "keeps (grown rs) (deallocate_nodes clouds idle)"
  unfolding deallocate_nodes_def Let_def disable_row_def by (intro keeps_intros grown_intros)

lemma grown_query [grown_intros]: "keeps (grown rs) (query_tasks jobs statuses)"
  unfolding query_tasks_def Let_def by (intro keeps_intros grown_intros)

lemma grown_submit [grown_intros]: "keeps (grown rs) (submit_task bt bj label metadata name engines :: ('x, task_id) prog)"
proof (rule keepsI)
  fix s :: "'x store_scheme" assume g: "grown rs s"
  let ?m = "submit_task bt bj label metadata name engines :: ('x, task_id) prog"
  let ?body = "\<lambda>nt. bindM (tasks_insert nt) (\<lambda>t. thenM (tasks_save t None) (thenM uow_commit (returnM (t_task_id t)))) :: ('x, task_id) prog"
  obtain r s' where run: "?m s = (r, s')" by (cases "?m s")
  have wf: "db_wf (st_db s)" and le: "tasks_le rs (d_tasks (st_db s))" using g by (simp_all add: grown_def)
  show "grown rs (snd (?m s))"
  proof (cases "submit_check engines name metadata")
    case (Inl e)
    then show ?thesis using g by (simp add: submit_rejected)
  next
    case ok: (Inr u)
    show ?thesis
    proof (cases "submit_new_task bt bj label metadata name")
      case (Inl e)
      have "?m = with_uow (raiseM e)" unfolding submit_task_def ok Inl bindM_fromSum ..
      moreover have "keeps (grown rs) (with_uow (raiseM e) :: ('x, task_id) prog)" by (intro grown_intros keeps_intros)
      ultimately have "keeps (grown rs) ?m" by simp
      from keepsD [OF this g] show ?thesis .
    next
      case (Inr nt)
      have m: "?m = with_uow (?body nt)" unfolding submit_task_def ok Inr bindM_fromSum ..
      have "keeps store_wf (?body nt)" by (intro keeps_intros)
      from keepsD [OF keeps_db_wf [OF this] wf] have "db_wf (st_db s')" using run m by simp
      moreover have "d_tasks (st_db s') = d_tasks (st_db s) \<or> (\<exists>x. d_tasks (st_db s') = d_tasks (st_db s) @ [x])"
        using submit_outcome [OF wf _ Inr run] ok visible_rows [of s' s] by (auto simp: rows_of_def)
      then have "tasks_le (d_tasks (st_db s)) (d_tasks (st_db s'))" using tasks_le_append by auto
      ultimately show ?thesis using tasks_le_trans [OF le] by (simp add: run grown_def)
    qed
  qed
qed

end
