(* ===== verification/Node_Manager_Facts.thy ===== *)
theory Node_Manager_Facts
  imports Node_Manager Lifecycle
begin

text \<open>
  What \<open>yasetnode\<close> promises.  A forced removal is one transaction: either nothing changes, or the node's
  row is gone and exactly the tasks that were RUNNING on it became DONE.  A soft removal disables a busy
  node and removes an idle one.  An added host is enabled only after it was connected and set up.
\<close>

section \<open>Forced removal\<close>

lemma tx_forM [tx_intros]: "(\<And>x. tx_den (f x) (F x)) \<Longrightarrow> tx_den (forM xs f) (forM xs F)"
  by (induction xs) (auto intro: tx_skip tx_then)

definition a_abandon :: "task_id \<Rightarrow> unit txn" where
  "a_abandon tid = bindM (a_first (sql_task_get_by_id_and_status (tid_value tid) RUNNING) row_to_task) (\<lambda>found.
     case found of None \<Rightarrow> skipM
     | Some t \<Rightarrow> bindM (fromSum (abandon_task t default_abandon_error)) (\<lambda>t'. a_save t' None))"

lemma tx_abandon [tx_intros]: "tx_den (abandon_running tid) (a_abandon tid)"
  unfolding abandon_running_def a_abandon_def by (intro tx_intros)

definition a_remove_hard :: "node_id \<Rightarrow> task_id list txn" where
  "a_remove_hard nid = bindM (a_rows (sql_task_ids_by_node_and_status (nid_value nid) RUNNING) mk_task_id) (\<lambda>ids.
     thenM (forM ids a_abandon) (thenM (a_touch nid (sql_node_remove (nid_value nid))) (returnM ids)))"

lemma remove_hard_txn:
  "remove_node_hard n s = (r, s') \<Longrightarrow> tx_result (a_remove_hard (n_node_id n)) s r s'"
proof -
  let ?ops = "bindM (tasks_list_ids_by_node_id_and_status (n_node_id n) RUNNING) (\<lambda>ids.
     thenM (forM ids abandon_running) (thenM (nodes_remove (n_node_id n)) (returnM ids)))"
  assume "remove_node_hard n s = (r, s')"
  then have "with_uow (bindM ?ops (\<lambda>a. thenM uow_commit (returnM a))) s = (r, s')"
    by (simp add: remove_node_hard_def bindM_assoc thenM_def)
  then show ?thesis
    by (rule with_uow_commit [rotated]) (unfold a_remove_hard_def, intro tx_intros)
qed

text \<open>Rows of tasks outside a list are kept, and so are the nodes.\<close>

definition kept_rows :: "int set \<Rightarrow> db \<Rightarrow> db \<Rightarrow> bool" where
  "kept_rows ids d d' \<longleftrightarrow> d_nodes d' = d_nodes d \<and> d_now d' = d_now d
     \<and> (\<forall>r \<in> set (d_tasks d). r_task_id r \<notin> ids \<longrightarrow> r \<in> set (d_tasks d'))"

lemma kept_refl [simp]: "kept_rows ids d d"
  by (simp add: kept_rows_def)

lemma kept_trans: "kept_rows ids d d' \<Longrightarrow> kept_rows ids d' d'' \<Longrightarrow> kept_rows ids d d''"
  by (simp add: kept_rows_def)

lemma abandoned_id: "abandon_task t m = Inr t' \<Longrightarrow> t_task_id t' = t_task_id t"
  by (auto simp: abandon_task_def advance_def split: task_state.splits)

lemma row_to_task_id: "row_to_task r = Inr t \<Longrightarrow> tid_value (t_task_id t) = r_task_id r"
  by (auto simp: row_to_task_def Let_def mk_task_id_def split: option.splits sum.splits if_splits task_status.splits)

lemma running_row_id:
  assumes "a_first (sql_task_get_by_id_and_status i RUNNING) row_to_task (d, ts) = (Inr (Some t), y)"
  shows "tid_value (t_task_id t) = i" "y = (d, ts)"
proof -
  note first = a_first_Inr [OF assms sql_selects_db(4)]
  show "y = (d, ts)" by (rule first)
  from first(2) obtain row rows where
    row: "fst (sql_task_get_by_id_and_status i RUNNING d) = Inr (row # rows)" "row_to_task row = Inr t"
    by auto
  then have "filter (\<lambda>r. r_task_id r = i \<and> r_status r = RUNNING) (d_tasks d) = row # rows"
    by (simp add: sql_defs monad_simps)
  then have "row \<in> set (filter (\<lambda>r. r_task_id r = i \<and> r_status r = RUNNING) (d_tasks d))" by simp
  then show "tid_value (t_task_id t) = i" using row_to_task_id [OF row(2)] by simp
qed

lemma a_abandon_keeps:
  assumes "a_abandon tid (d, ts) = (Inr u, (d', ts'))"
  shows "kept_rows {tid_value tid} d d'"
proof -
  let ?get = "a_first (sql_task_get_by_id_and_status (tid_value tid) RUNNING) row_to_task"
  obtain found x where get: "?get (d, ts) = (Inr found, x)"
    and rest: "(case found of None \<Rightarrow> skipM
      | Some t \<Rightarrow> bindM (fromSum (abandon_task t default_abandon_error)) (\<lambda>t'. a_save t' None)) x = (Inr u, (d', ts'))"
    using assms unfolding a_abandon_def by (rule bindM_cases) (simp, rule that)
  show ?thesis
  proof (cases found)
    case None
    then show ?thesis using rest a_first_Inr(1) [OF get sql_selects_db(4)] by (simp add: monad_simps)
  next
    case (Some t)
    note row = running_row_id [OF get [unfolded Some]]
    from rest Some obtain t' where t': "abandon_task t default_abandon_error = Inr t'"
      and save: "a_save t' None (d, ts) = (Inr u, (d', ts'))"
      using row(2) by (cases "abandon_task t default_abandon_error") (auto simp: monad_simps)
    obtain rows where upd: "sql_task_update (task_to_row t') None d = (Inr rows, d')" "rows \<noteq> []"
      using save unfolding a_save_Inr by auto
    have "r_task_id (task_to_row t') = tid_value tid"
      using abandoned_id [OF t'] row(1) by (simp add: task_to_row_def)
    with sql_task_update_Inr [OF upd] show ?thesis
      by (auto simp: kept_rows_def update_matches_def image_iff)
  qed
qed

lemma abandon_all_keeps:
  assumes "forM ids a_abandon (d, ts) = (Inr u, (d', ts'))" "tid_value ` set ids \<subseteq> S"
  shows "kept_rows S d d'"
  using assms
proof (induction ids arbitrary: d ts)
  case (Cons i ids)
  obtain v d1 ts1 where one: "a_abandon i (d, ts) = (Inr v, (d1, ts1))" "forM ids a_abandon (d1, ts1) = (Inr u, (d', ts'))"
    using Cons.prems(1) by (auto simp: thenM_def elim!: bindM_cases)
  have "kept_rows S d d1" using a_abandon_keeps [OF one(1)] Cons.prems(2) by (auto simp: kept_rows_def)
  with Cons.IH [OF one(2)] Cons.prems(2) show ?case by (auto intro: kept_trans)
qed (simp add: monad_simps)

text \<open>The tasks that run on a node, as the query sees them.\<close>

definition runs_on :: "int \<Rightarrow> task_row \<Rightarrow> bool" where
  "runs_on i r \<longleftrightarrow> r_status r = RUNNING \<and> r_node r = Some i"

lemma running_ids:
  assumes "a_rows (sql_task_ids_by_node_and_status i RUNNING) mk_task_id (d, ts) = (Inr ids, y)"
  shows "y = (d, ts)" "tid_value ` set ids = r_task_id ` {r \<in> set (d_tasks d). runs_on i r}"
proof -
  note rows = a_rows_Inr [OF assms sql_selects_db(7)]
  show "y = (d, ts)" by (rule rows)
  obtain xs where xs: "fst (sql_task_ids_by_node_and_status i RUNNING d) = Inr xs" "list_all2 (\<lambda>x t. mk_task_id x = Inr t) xs ids"
    using rows(2) by blast
  have "set xs = r_task_id ` {r \<in> set (d_tasks d). runs_on i r}"
    using xs(1) by (auto simp: sql_defs monad_simps runs_on_def)
  moreover have "map tid_value ids = xs"
    using xs(2) by (induction rule: list_all2_induct) (auto simp: mk_task_id_def split: if_splits)
  ultimately show "tid_value ` set ids = r_task_id ` {r \<in> set (d_tasks d). runs_on i r}" by (metis set_map)
qed

lemma a_remove_hard_Inr:
  assumes "a_remove_hard nid (d, ts) = (Inr ids, (d', ts'))"
  obtains d1 where "tid_value ` set ids = r_task_id ` {r \<in> set (d_tasks d). runs_on (nid_value nid) r}"
    "kept_rows (tid_value ` set ids) d d1" "removed_db (nid_value nid) d1 d'"
proof -
  obtain js x where js: "a_rows (sql_task_ids_by_node_and_status (nid_value nid) RUNNING) mk_task_id (d, ts) = (Inr js, x)"
    and rest: "thenM (forM js a_abandon) (thenM (a_touch nid (sql_node_remove (nid_value nid))) (returnM js)) x = (Inr ids, (d', ts'))"
    using assms unfolding a_remove_hard_def by (rule bindM_cases) (simp, rule that)
  have x: "x = (d, ts)" by (rule running_ids [OF js])
  obtain u d1 ts1 where all: "forM js a_abandon (d, ts) = (Inr u, (d1, ts1))"
    and rest2: "thenM (a_touch nid (sql_node_remove (nid_value nid))) (returnM js) (d1, ts1) = (Inr ids, (d', ts'))"
    using rest unfolding x by (rule thenM_cases) (simp, metis that prod.exhaust)
  obtain v where touch: "a_touch nid (sql_node_remove (nid_value nid)) (d1, ts1) = (Inr v, (d', ts'))" and ids: "ids = js"
    using rest2 by (auto simp: thenM_def returnM_def elim!: bindM_cases)
  from touch obtain rows where "sql_node_remove (nid_value nid) d1 = (Inr rows, d')" "rows \<noteq> []"
    unfolding a_touch_Inr by auto
  then have "removed_db (nid_value nid) d1 d'" by (rule sql_remove_Inr)
  with that running_ids(2) [OF js] abandon_all_keeps [OF all, of "tid_value ` set js"] ids show thesis by simp
qed

lemma grown_remove_hard: "keeps (grown rs) (remove_node_hard n)"
proof -
  have "keeps (in_block rs) (abandon_running tid)" for tid
    unfolding abandon_running_def
    by (intro grown_intros keeps_intros keeps_fromSum_bind) (rule transition_forward)
  then show ?thesis unfolding remove_node_hard_def by (intro grown_intros keeps_intros)
qed

text \<open>The state after a forced removal of node \<open>i\<close>.\<close>

definition retired_db :: "int \<Rightarrow> db \<Rightarrow> db \<Rightarrow> bool" where
  "retired_db i d d' \<longleftrightarrow> d_nodes d' = filter (\<lambda>q. q_node_id q \<noteq> i) (d_nodes d)
     \<and> (\<forall>r \<in> set (d_tasks d'). r_node r \<noteq> Some i)
     \<and> (\<forall>r \<in> set (d_tasks d). runs_on i r \<longrightarrow> (\<exists>r' \<in> set (d_tasks d'). r_task_id r' = r_task_id r \<and> r_status r' = DONE))
     \<and> (\<forall>r \<in> set (d_tasks d). \<not> runs_on i r \<longrightarrow> unlink_row d i r \<in> set (d_tasks d'))"

lemma unlinked: "r_node (unlink_row d i r) \<noteq> Some i"
  by (simp add: unlink_row_def)

lemma retired_dbI:
  assumes wf: "db_wf d" and le: "tasks_le (d_tasks d) (d_tasks d')"
    and kept: "kept_rows (r_task_id ` {r \<in> set (d_tasks d). runs_on i r}) d d1" and rem: "removed_db i d1 d'"
  shows "retired_db i d d'"
proof -
  have nodes: "d_nodes d' = filter (\<lambda>q. q_node_id q \<noteq> i) (d_nodes d)"
    using kept rem by (simp add: kept_rows_def removed_db_def)
  have free: "r_node r \<noteq> Some i" if "r \<in> set (d_tasks d')" for r
    using that rem unlinked by (auto simp: removed_db_def)
  have done': "\<exists>r' \<in> set (d_tasks d'). r_task_id r' = r_task_id r \<and> r_status r' = DONE" if "r \<in> set (d_tasks d)" "runs_on i r" for r
  proof -
    obtain r' where r': "r' \<in> set (d_tasks d')" "row_le r r'" using le \<open>r \<in> set (d_tasks d)\<close> by (auto simp: tasks_le_def)
    have "r_status r' \<noteq> RUNNING" using r' free [OF r'(1)] \<open>runs_on i r\<close> by (auto simp: row_le_def runs_on_def)
    moreover have "r_status r' \<noteq> TO_DO" using r'(2) \<open>runs_on i r\<close> by (auto simp: row_le_def runs_on_def)
    ultimately have "r_status r' = DONE" by (cases "r_status r'") simp_all
    with r' show ?thesis by (auto simp: row_le_def)
  qed
  have others: "unlink_row d i r \<in> set (d_tasks d')" if r: "r \<in> set (d_tasks d)" "\<not> runs_on i r" for r
  proof -
    have "r_task_id r \<notin> r_task_id ` {r \<in> set (d_tasks d). runs_on i r}"
    proof
      assume "r_task_id r \<in> r_task_id ` {r \<in> set (d_tasks d). runs_on i r}"
      then obtain q where "q \<in> set (d_tasks d)" "runs_on i q" "r_task_id q = r_task_id r" by auto
      with r wf show False by (auto simp: db_wf_def distinct_map inj_on_def)
    qed
    then have "r \<in> set (d_tasks d1)" "d_now d1 = d_now d" using kept r(1) by (simp_all add: kept_rows_def)
    then have "unlink_row d1 i r \<in> set (d_tasks d')" using rem by (auto simp: removed_db_def)
    moreover have "unlink_row d1 i r = unlink_row d i r" using \<open>d_now d1 = d_now d\<close> by (simp add: unlink_row_def)
    ultimately show ?thesis by simp
  qed
  show ?thesis using nodes free done' others by (auto simp: retired_db_def)
qed

theorem remove_hard_outcome:
  assumes wf: "db_wf (st_db s)" and run: "remove_node_hard n s = (r, s')"
  shows "(\<exists>e. r = Inl e \<and> visible s' = visible s)
    \<or> (retired_db (nid_value (n_node_id n)) (st_db s) (st_db s')
       \<and> ((\<exists>ids. r = Inr ids \<and> tid_value ` set ids = r_task_id ` {t \<in> set (d_tasks (st_db s)). runs_on (nid_value (n_node_id n)) t})
          \<or> r = Inl CancelledError))"
proof (cases "\<exists>e. r = Inl e \<and> visible s' = visible s")
  case False
  with remove_hard_txn [OF run] obtain ids d ts where
    F: "a_remove_hard (n_node_id n) (st_db s, []) = (Inr ids, (d, ts))" "st_db s' = d" and r: "r = Inr ids \<or> r = Inl CancelledError"
    unfolding tx_result_def by auto
  obtain d1 where d1: "tid_value ` set ids = r_task_id ` {r \<in> set (d_tasks (st_db s)). runs_on (nid_value (n_node_id n)) r}"
    "kept_rows (tid_value ` set ids) (st_db s) d1" "removed_db (nid_value (n_node_id n)) d1 d"
    using F(1) by (rule a_remove_hard_Inr)
  have "grown (d_tasks (st_db s)) s'"
    using keepsD' [OF grown_remove_hard _ run, of "d_tasks (st_db s)"] wf by (simp add: grown_def)
  then have "tasks_le (d_tasks (st_db s)) (d_tasks d)" using F(2) by (simp add: grown_def)
  from retired_dbI [OF wf this d1(2) [unfolded d1(1)] d1(3)] F(2) r d1(1)
  show ?thesis by auto
qed simp

section \<open>Soft removal\<close>

definition a_remove_soft :: "node_id \<Rightarrow> retired txn" where
  "a_remove_soft nid = bindM (a_rows (sql_task_ids_by_node_and_status (nid_value nid) RUNNING) mk_task_id) (\<lambda>ids.
     if ids \<noteq> [] then thenM (a_touch nid (sql_node_disable (nid_value nid))) (returnM Disabled)
     else thenM (a_touch nid (sql_node_remove (nid_value nid))) (returnM Removed))"

lemma remove_soft_txn:
  "remove_node_soft n s = (r, s') \<Longrightarrow> tx_result (a_remove_soft (n_node_id n)) s r s'"
proof -
  let ?ops = "bindM (tasks_list_ids_by_node_id_and_status (n_node_id n) RUNNING) (\<lambda>ids.
     if ids \<noteq> [] then thenM (nodes_disable (n_node_id n)) (returnM Disabled)
     else thenM (nodes_remove (n_node_id n)) (returnM Removed))"
  assume "remove_node_soft n s = (r, s')"
  then have "with_uow (bindM ?ops (\<lambda>a. thenM uow_commit (returnM a))) s = (r, s')"
    by (simp add: remove_node_soft_def bindM_assoc thenM_def if_distrib [of "\<lambda>m. bindM m _"] cong: if_cong)
  then show ?thesis
    by (rule with_uow_commit [rotated]) (unfold a_remove_soft_def, intro tx_intros)
qed

lemma touch_return:
  assumes "thenM (a_touch nid q) (returnM k) (d, ts) = (Inr a, (d', ts'))"
  shows "a = k" "ts' = ts" "\<exists>rows. q d = (Inr rows, d') \<and> rows \<noteq> []"
proof -
  obtain v where "a_touch nid q (d, ts) = (Inr v, (d', ts'))" "a = k"
    using assms by (auto simp: thenM_def returnM_def elim!: bindM_cases)
  then show "a = k" "ts' = ts" "\<exists>rows. q d = (Inr rows, d') \<and> rows \<noteq> []"
    unfolding a_touch_Inr by auto
qed

lemma a_remove_soft_Inr:
  assumes "a_remove_soft nid (d, ts) = (Inr k, (d', ts'))"
  shows "ts' = ts \<and> (if \<exists>r \<in> set (d_tasks d). runs_on (nid_value nid) r
    then k = Disabled \<and> disabled_db (nid_value nid) d d' else k = Removed \<and> removed_db (nid_value nid) d d')"
proof -
  obtain ids x where ids: "a_rows (sql_task_ids_by_node_and_status (nid_value nid) RUNNING) mk_task_id (d, ts) = (Inr ids, x)"
    and rest: "(if ids \<noteq> [] then thenM (a_touch nid (sql_node_disable (nid_value nid))) (returnM Disabled)
      else thenM (a_touch nid (sql_node_remove (nid_value nid))) (returnM Removed)) x = (Inr k, (d', ts'))"
    using assms unfolding a_remove_soft_def by (rule bindM_cases) (simp, rule that)
  have x: "x = (d, ts)" by (rule running_ids [OF ids])
  have busy: "ids \<noteq> [] \<longleftrightarrow> (\<exists>r \<in> set (d_tasks d). runs_on (nid_value nid) r)"
  proof -
    have "ids \<noteq> [] \<longleftrightarrow> tid_value ` set ids \<noteq> {}" by simp
    then show ?thesis unfolding running_ids(2) [OF ids] by blast
  qed
  show ?thesis
  proof (cases "ids = []")
    case True
    with rest x have "thenM (a_touch nid (sql_node_remove (nid_value nid))) (returnM Removed) (d, ts) = (Inr k, (d', ts'))"
      by simp
    from touch_return [OF this] sql_remove_Inr busy True show ?thesis by auto
  next
    case False
    with rest x have "thenM (a_touch nid (sql_node_disable (nid_value nid))) (returnM Disabled) (d, ts) = (Inr k, (d', ts'))"
      by simp
    from touch_return [OF this] sql_disable_Inr busy False show ?thesis by auto
  qed
qed

theorem remove_soft_outcome:
  assumes run: "remove_node_soft n s = (r, s')"
  shows "(\<exists>e. r = Inl e \<and> visible s' = visible s)
    \<or> (st_trace s' = st_trace s
       \<and> (if \<exists>t \<in> set (d_tasks (st_db s)). runs_on (nid_value (n_node_id n)) t
          then (r = Inr Disabled \<or> r = Inl CancelledError) \<and> disabled_db (nid_value (n_node_id n)) (st_db s) (st_db s')
          else (r = Inr Removed \<or> r = Inl CancelledError) \<and> removed_db (nid_value (n_node_id n)) (st_db s) (st_db s')))"
proof (cases "\<exists>e. r = Inl e \<and> visible s' = visible s")
  case False
  with remove_soft_txn [OF run] obtain k d ts cs where
    F: "a_remove_soft (n_node_id n) (st_db s, []) = (Inr k, (d, ts))" "st_db s' = d" and r: "r = Inr k \<or> r = Inl CancelledError"
    and tr: "st_trace s' = st_trace s @ cs" "\<forall>c \<in> set cs. snd c \<in> set (events_of ts)"
    unfolding tx_result_def using calls_events by blast
  note out = a_remove_soft_Inr [OF F(1)]
  have "cs = []" using tr(2) out by (cases cs) (force simp: events_of_def)+
  with out F(2) r tr(1) show ?thesis by (auto split: if_splits)
qed simp

section \<open>Adding a host\<close>

lemma insert_commit_outcome:
  assumes run: "with_uow (bindM (nodes_insert nn) (\<lambda>tmp. thenM uow_commit (returnM tmp))) s = (r, s')"
  shows "(\<exists>e. r = Inl e \<and> visible s' = visible s)
    \<or> (\<exists>row tmp. sql_node_insert (new_node_row nn (d_now (st_db s))) (st_db s) = (Inr row, st_db s')
         \<and> row_to_node row = Inr tmp \<and> (r = Inr tmp \<or> r = Inl CancelledError))"
proof -
  have "tx_result (a_node_insert nn) s r s'" by (rule with_uow_commit [OF tx_inserts(1) run])
  moreover have "\<exists>row. sql_node_insert (new_node_row nn (d_now d)) d = (Inr row, d') \<and> row_to_node row = Inr tmp"
    if "a_node_insert nn (d, []) = (Inr tmp, (d', ts))" for d d' tmp ts
    using that by (auto simp: a_node_insert_def a_sql_def monad_simps split: prod.splits sum.splits)
  ultimately show ?thesis unfolding tx_result_def by blast
qed

lemma frames_cli_connect [frames_intros]:
  "frames wdata (cli_connect keys rd n)" "frames st_faults (cli_connect keys rd n)"
proof -
  have f: "frames wdata (repo_connect_at a b c n)" "frames st_faults (repo_connect_at a b c n)" for a b c
    by (auto simp: frames_def repo_connect_at_def register_session_def Let_def wdata_def
        split: list.splits sum.splits prod.splits)
  show "frames wdata (cli_connect keys rd n)" "frames st_faults (cli_connect keys rd n)"
    unfolding cli_connect_def by (intro frames_intros f)+
qed

lemma drop_is_cleanup: "drop_tmp_row = cleanup_tmp_node"
  by (simp add: fun_eq_iff drop_tmp_row_def cleanup_tmp_node_def)

text \<open>The rows with the new host's row appended, enabled or not.\<close>

definition host_added :: "new_node \<Rightarrow> bool \<Rightarrow> db \<Rightarrow> db \<Rightarrow> bool" where
  "host_added nn en d d' \<longleftrightarrow> d_tasks d' = d_tasks d
     \<and> (\<exists>q. d_nodes d' = d_nodes d @ [q] \<and> q_node_id q = d_next_node d \<and> q_enabled q = en
          \<and> q_hostname q = nn_hostname nn \<and> q_port q = nn_port nn \<and> q_username q = nn_username nn
          \<and> q_jump_host q = nn_jump_host nn \<and> q_cloud q = nn_cloud nn)"

lemma host_added_rows: "rows_of d2 = rows_of d1 \<Longrightarrow> host_added nn en d d1 \<Longrightarrow> host_added nn en d d2"
  by (simp add: host_added_def rows_of_def)

lemma inserted_host:
  assumes "sql_node_insert (new_node_row nn (d_now d)) d = (Inr row, d1)"
  shows "host_added nn (nn_enabled nn) d d1"
  using sql_node_insert_Inr [OF assms] by (auto simp: host_added_def new_node_row_def)

text \<open>Enabling the row by an update with the decoded node.\<close>

lemma enabled_host:
  assumes wf: "db_wf d" and ins: "sql_node_insert (new_node_row nn (d_now d)) d = (Inr row, d1)" "row_to_node row = Inr tmp"
    and v: "rows_of dv = rows_of d1"
    and upd: "sql_node_update (node_to_row (tmp\<lparr>n_enabled := True\<rparr>)) dv = (Inr rows, d2)"
  shows "host_added nn True d d2"
proof -
  note row = sql_node_insert_Inr [OF ins(1)]
  have fresh: "q_node_id q \<noteq> d_next_node d" if "q \<in> set (d_nodes d)" for q
    using db_wfD(7) [OF wf that] by simp
  have dv: "d_nodes dv = d_nodes d @ [row]" "d_tasks dv = d_tasks d" using v row by (simp_all add: rows_of_def)
  let ?new = "node_to_row (tmp\<lparr>n_enabled := True\<rparr>)"
  have id: "q_node_id ?new = d_next_node d" and new: "q_enabled ?new" "q_hostname ?new = nn_hostname nn" "q_port ?new = nn_port nn"
      "q_username ?new = nn_username nn" "q_jump_host ?new = nn_jump_host nn" "q_cloud ?new = nn_cloud nn"
    using ins(2) row by (auto simp: row_to_node_def node_to_row_def mk_node_id_def new_node_row_def Let_def split: sum.splits if_splits)
  have d2: "d_nodes d2 = map (\<lambda>q. if q_node_id q = d_next_node d
        then ?new\<lparr>q_node_id := q_node_id q, q_created_at := q_created_at q, q_updated_at := d_now dv\<rparr> else q) (d_nodes dv)"
      "d_tasks d2 = d_tasks dv"
    using upd id by (auto simp: sql_node_update_def sql_node_update_by_def Let_def split: if_splits)
  have "d_nodes d2 = d_nodes d @ [?new\<lparr>q_node_id := q_node_id row, q_created_at := q_created_at row, q_updated_at := d_now dv\<rparr>]"
    unfolding d2 dv using fresh row(4) by (simp add: map_idI)
  with d2 dv new row(4) show ?thesis by (auto simp: host_added_def)
qed

lemma finallyM_run:
  "finallyM m f s = (r, s') \<Longrightarrow> \<exists>r1 s1 rf. m s = (r1, s1) \<and> f s1 = (rf, s') \<and> (r = r1 \<or> (\<exists>e. r = Inl e))"
  by (auto simp: finallyM_def split: prod.splits sum.splits)

lemma wdata_rows: "wdata w' = wdata w \<Longrightarrow> st_db w' = st_db w \<and> st_bus w' = st_bus w"
  by (simp add: wdata_def)

text \<open>Connecting: on success nothing but the sessions changed, on failure the row is dropped again,
  unless the coroutine was cancelled.\<close>

lemma connect_or_drop_outcome:
  fixes v v' :: "'y world_scheme"
  assumes wf: "db_wf d" and ins: "sql_node_insert vals d = (Inr row, d1)" "row_to_node row = Inr tmp"
    and calm: "calm_store v" and v: "st_db v = d1" and run: "connect_or_drop keys rd tmp v = (c, v')"
  shows "case c of Inr sid \<Rightarrow> st_db v' = d1
    | Inl e \<Rightarrow> if is_Exception e then rows_of (st_db v') = rows_of d else rows_of (st_db v') = rows_of d1"
proof -
  obtain k u where k: "cli_connect keys rd tmp v = (k, u)" by fastforce
  note fr = framesD' [OF frames_cli_connect(1) k] framesD' [OF frames_cli_connect(2) k]
  have u: "st_db u = d1" "calm_store u" using wdata_rows [OF fr(1)] fr(2) v calm by (simp_all add: calm_store_def)
  show ?thesis
  proof (cases k)
    case (Inr sid)
    with run k u show ?thesis by (auto simp: connect_or_drop_def catchM_def)
  next
    case (Inl e)
    show ?thesis
    proof (cases "is_Exception e")
      case False
      with run k u Inl show ?thesis by (auto simp: connect_or_drop_def catchM_def raiseM_def)
    next
      case True
      obtain q v2 where q: "drop_tmp_row (n_node_id tmp) u = (q, v2)" by fastforce
      have "nid_value (n_node_id tmp) = q_node_id row"
        using row_to_node_fields [OF ins(2)] by simp
      from manager.cleanup_fresh [OF wf ins(1) this u(2) _ q [unfolded drop_is_cleanup]] u(1)
      have "q = Inr ()" "rows_of (st_db v2) = rows_of d" by simp_all
      then show ?thesis using run k Inl True q by (auto simp: connect_or_drop_def monad_simps)
    qed
  qed
qed

lemma enable_row_outcome:
  assumes wf: "db_wf d" and ins: "sql_node_insert (new_node_row nn (d_now d)) d = (Inr row, d1)" "row_to_node row = Inr tmp"
    and v: "st_db v = d1" and run: "enable_row tmp v = (r, v')"
  shows "(r \<noteq> Inr () \<and> rows_of (st_db v') = rows_of d1) \<or> host_added nn True d (st_db v')"
proof -
  from touch_outcome [OF tx_touches(4) run [unfolded enable_row_def]]
  show ?thesis
  proof (elim disjE exE conjE)
    fix e assume "r = Inl e" "visible v' = visible v"
    then show ?thesis using visible_rows v by auto
  next
    fix rows assume "sql_node_update (node_to_row (tmp\<lparr>n_enabled := True\<rparr>)) (st_db v) = (Inr rows, st_db v')"
    from enabled_host [OF wf ins _ this] v show ?thesis by simp
  next
    fix rows assume "sql_node_update (node_to_row (tmp\<lparr>n_enabled := True\<rparr>)) (st_db v) = (Inr rows, st_db v')"
    from enabled_host [OF wf ins _ this] v show ?thesis by simp
  qed
qed

definition prepare_host ::
  "exn + unit \<Rightarrow> remote_defaults \<Rightarrow> engine_repository \<Rightarrow> bool \<Rightarrow> node \<Rightarrow> ('y, unit) wprog" where
  "prepare_host keys rd engines skip_setup tmp =
     bindM (connect_or_drop keys rd tmp) (\<lambda>sid. thenM (whenM (\<not> skip_setup) (session_setup_node sid engines)) (enable_row tmp))"

text \<open>The keys could be listed and the next connection attempt is answered.\<close>

definition answered :: "exn + unit \<Rightarrow> (exn + 'b) list \<Rightarrow> bool" where
  "answered keys cs \<longleftrightarrow> keys = Inr () \<and> (\<exists>x xs. cs = Inr x # xs)"

lemma connect_answered: "connect_or_drop keys rd tmp v = (Inr sid, v') \<Longrightarrow> answered keys (w_conn v)"
  by (cases keys; cases "w_conn v"; cases "hd (w_conn v)")
    (auto simp: answered_def connect_or_drop_def cli_connect_def repo_connect_at_def thenM_def bindM_def fromSum_def raiseM_def
      catchM_def Let_def split: if_splits sum.splits prod.splits)

lemma store_more_conn: "store.more w = store.more (w' :: 'y world_scheme) \<Longrightarrow> w_conn w = w_conn w'"
  by (cases w; cases w') simp

definition add_result :: "bool \<Rightarrow> new_node \<Rightarrow> db \<Rightarrow> exn + unit \<Rightarrow> db \<Rightarrow> bool" where
  "add_result ok nn d r d' \<longleftrightarrow> (rows_of d' = rows_of d \<and> r \<noteq> Inr ()) \<or> (host_added nn False d d' \<and> r \<noteq> Inr ())
     \<or> (ok \<and> host_added nn True d d')"

lemma prepare_host_outcome:
  fixes v v' :: "'y world_scheme"
  assumes wf: "db_wf d" and ins: "sql_node_insert (new_node_row nn (d_now d)) d = (Inr row, d1)" "row_to_node row = Inr tmp"
    and nn: "\<not> nn_enabled nn" and calm: "calm_store v" and v: "st_db v = d1" and run: "prepare_host keys rd engines skip tmp v = (r, v')"
  shows "add_result (answered keys (w_conn v)) nn d r (st_db v')"
proof -
  have dis: "host_added nn False d d1" using inserted_host [OF ins(1)] nn by simp
  obtain c v2 where c: "connect_or_drop keys rd tmp v = (c, v2)" by fastforce
  note conn = connect_or_drop_outcome [OF wf ins calm v c]
  show ?thesis
  proof (cases c)
    case (Inl e)
    then have "r = Inl e" "v' = v2" using run c by (simp_all add: prepare_host_def bindM_def)
    with conn Inl host_added_rows [OF _ dis] show ?thesis by (auto simp: add_result_def split: if_splits)
  next
    case (Inr sid)
    then have rest: "thenM (whenM (\<not> skip) (session_setup_node sid engines)) (enable_row tmp) v2 = (r, v')" and v2: "st_db v2 = d1"
      using run c conn by (simp_all add: prepare_host_def bindM_def)
    obtain q v3 where q: "whenM (\<not> skip) (session_setup_node sid engines) v2 = (q, v3)" by fastforce
    have "frames wdata (whenM (\<not> skip) (session_setup_node sid engines :: ('y, unit) wprog))"
      by (intro frames_intros frames_setup_node)
    from wdata_rows [OF framesD' [OF this q]] v2 have v3: "st_db v3 = d1" by simp
    show ?thesis
    proof (cases q)
      case (Inl e)
      then have "r = Inl e" "v' = v3" using rest q by (simp_all add: thenM_def bindM_def)
      with v3 dis show ?thesis by (simp add: add_result_def)
    next
      case (Inr u)
      then have "enable_row tmp v3 = (r, v')" using rest q by (simp add: thenM_def bindM_def)
      have "answered keys (w_conn v)" using c \<open>c = Inr sid\<close> by (simp add: connect_answered)
      with enable_row_outcome [OF wf ins v3 \<open>enable_row tmp v3 = (r, v')\<close>] host_added_rows [OF _ dis]
      show ?thesis by (auto simp: add_result_def)
    qed
  qed
qed

theorem add_node_outcome:
  fixes w w' :: "'y world_scheme"
  assumes wf: "db_wf (st_db w)" and calm: "calm_store w" and run: "add_node keys rd engines spec skip_setup w = (r, w')"
  shows "add_result (answered keys (w_conn w)) (new_node_of spec rd) (st_db w) r (st_db w')"
proof -
  let ?nn = "new_node_of spec rd" and ?d = "st_db w"
  let ?insert = "with_uow (bindM (nodes_insert ?nn) (\<lambda>tmp. thenM uow_commit (returnM tmp))) :: ('y, node) wprog"
  obtain k v where k: "?insert w = (k, v)" by fastforce
  have "calm ?insert" by (intro calm_intros)
  note cv = calmD [OF this calm k]
  from insert_commit_outcome [OF k] cv consider
    (none) e where "k = Inl e" "visible v = visible w"
    | (ok) row tmp where "sql_node_insert (new_node_row ?nn (d_now ?d)) ?d = (Inr row, st_db v)" "row_to_node row = Inr tmp" "k = Inr tmp"
    by blast
  then show ?thesis
  proof cases
    case none
    then show ?thesis using run k visible_rows by (auto simp: add_node_def bindM_def add_result_def)
  next
    case ok
    have "finallyM (prepare_host keys rd engines skip_setup tmp) (repo_disconnect (n_node_id tmp)) v = (r, w')"
      using run k ok(3) by (simp add: add_node_def prepare_host_def bindM_def [of ?insert])
    from finallyM_run [OF this] obtain r1 v1 rf where m: "prepare_host keys rd engines skip_setup tmp v = (r1, v1)"
      and disc: "repo_disconnect (n_node_id tmp) v1 = (rf, w')" and r: "r = r1 \<or> (\<exists>e. r = Inl e)" by blast
    have same: "st_db w' = st_db v1" using wdata_rows [OF framesD' [OF frames_wdata_disconnect disc]] by simp
    have "\<not> nn_enabled ?nn" by (simp add: new_node_of_def)
    moreover have fr: "frames store.more ?insert" by (intro frames_intros)
    have "w_conn v = w_conn w" by (rule store_more_conn [OF framesD' [OF fr k]])
    ultimately show ?thesis
      using prepare_host_outcome [OF wf ok(1,2) _ _ refl m] cv r same by (auto simp: add_result_def)
  qed
qed

section \<open>Any run of the command\<close>

lemma grown_drop [grown_intros]: "keeps (grown rs) (drop_tmp_row nid)"
  unfolding drop_tmp_row_def by (intro grown_intros keeps_intros)

lemma grown_soft [grown_intros]: "keeps (grown rs) (remove_node_soft n)"
  unfolding remove_node_soft_def by (intro grown_intros keeps_intros)

lemma grown_add_node [grown_intros]: "keeps (grown rs) (add_node keys rd engines spec skip_setup)"
proof -
  have c: "keeps (grown rs) (cli_connect keys rd n)" for n by (rule grown_frames [OF frames_cli_connect(1)])
  have s: "keeps (grown rs) (session_setup_node sid es)" for sid es
    by (rule grown_frames) (intro frames_setup_node frames_wdata_prims)
  have d: "keeps (grown rs) (repo_disconnect nid)" for nid by (rule grown_frames [OF frames_wdata_disconnect])
  show ?thesis
    unfolding add_node_def connect_or_drop_def enable_row_def by (intro grown_intros keeps_intros c s d)
qed

lemma grown_dispatch [grown_intros]: "keeps (grown rs) (dispatch_node keys rd engines a found)"
proof -
  have "keeps (grown rs) (case na_target a of TargetId _ \<Rightarrow> raiseM assertion
      | TargetHost spec \<Rightarrow> thenM (add_node keys rd engines spec (na_skip_setup a)) (returnM (Added spec)))"
    by (cases "na_target a") (simp_all add: keeps_intros grown_intros)
  then show ?thesis
    unfolding dispatch_node_def by (intro keeps_if keeps_option keeps_raise keeps_bind keeps_return grown_remove_hard grown_soft)
qed

theorem grown_manage_node [grown_intros]: "keeps (grown rs) (manage_node keys rd engines a)"
proof -
  have "keeps (grown rs) (lookup_target t)" for t
    unfolding lookup_target_def by (cases t) (simp_all, (intro keeps_intros grown_intros)+)
  then show ?thesis
    unfolding manage_node_def resolve_node_def by (intro keeps_intros grown_dispatch)
qed

end
