(* ===== verification/Daemon.thy ===== *)
theory Daemon
  imports Node_Manager_Facts
begin

text \<open>
  The daemon as a transition system: its four pipes, the monitors, the clock, other processes that
  submit tasks or run \<open>yasetnode\<close>, and the shutdown.  The locale \<open>pipeline\<close> is the contract between a loop and what it
  runs: producer and consumer keep an invariant of the world; the loop then keeps it too, together with
  the invariant of its queue.  It is interpreted on the four loops of the orchestrator.
\<close>

section \<open>One loop\<close>

lemma uq_item_done_ok:
  assumes inv: "uq_inv n q" and m: "um_in m (uq_pending q)"
  shows "\<exists>q'. uq_item_done m q = Inr q' \<and> uq_psize q' = uq_psize q - 1"
proof -
  have d: "distinct (map um_id (uq_pending q))" using inv by (auto simp: uq_inv_def uq_ids_def)
  have "uq_pending q \<noteq> []" using m by (auto simp: um_in_def)
  then have "1 \<le> uq_psize q" by (simp add: uq_psize_def Suc_le_eq)
  moreover have "0 \<le> uq_qsize q" by (simp add: uq_qsize_def)
  ultimately have "\<not> uq_unfinished q \<le> 0" using inv by (simp add: uq_inv_def)
  with m length_remove_id [OF d] show ?thesis
    by (auto simp: uq_item_done_def uq_psize_def um_in_iff)
qed

lemma worker_turn_outcome:
  assumes inv: "uq_inv n q" and m: "um_in m (uq_pending q)" and run: "worker_turn consume m (q, w) = (r, (q', w'))"
  shows "uq_item_done m q = Inr q'" "w' = snd (consume m w)" "uq_psize q' = uq_psize q - 1"
    "r = Inr () \<or> (r = Inl CancelledError \<and> fst (consume m w) = Inl CancelledError)"
proof -
  from uq_item_done_ok [OF inv m] obtain q1 where q1: "uq_item_done m q = Inr q1" "uq_psize q1 = uq_psize q - 1" by blast
  obtain x w1 where x: "consume m w = (x, w1)" by (cases "consume m w")
  have "w' = w1 \<and> q' = q1 \<and> (r = Inr () \<or> (r = Inl CancelledError \<and> x = Inl CancelledError))"
    using run by (cases x) (auto simp: worker_turn_def finallyM_def catchM_def x q1(1) skipM_def returnM_def
        raiseM_def is_Exception_def split: if_splits)
  then show "uq_item_done m q = Inr q'" "w' = snd (consume m w)" "uq_psize q' = uq_psize q - 1"
    "r = Inr () \<or> (r = Inl CancelledError \<and> fst (consume m w) = Inl CancelledError)"
    using q1 x by simp_all
qed

definition pipe_inv :: "int \<Rightarrow> int \<Rightarrow> ('i, 'p) pipe \<Rightarrow> bool" where
  "pipe_inv n workers p \<longleftrightarrow> uq_inv n (pp_queue p) \<and> uq_psize (pp_queue p) \<le> workers"

lemma pipe_inv_new: "0 \<le> workers \<Longrightarrow> pipe_inv n workers (pipe_new n)"
  by (simp add: pipe_inv_def pipe_new_def uq_inv_new) (simp add: uq_new_def uq_psize_def)

lemma uq_put_psize: "uq_put m q = (r, q') \<Longrightarrow> uq_psize q' = uq_psize q"
  by (auto simp: uq_put_def uq_psize_def uq_enqueue_def split: if_splits)

lemma uq_resume_psize: "uq_psize (uq_resume q) = uq_psize q"
  by (auto simp: uq_resume_def uq_psize_def uq_enqueue_def split: option.split)

lemma uq_get_psize: "uq_get q = Some (m, q') \<Longrightarrow> uq_psize q' \<le> uq_psize q + 1"
  by (auto simp: uq_get_def uq_psize_def split: list.splits)

locale pipeline =
  fixes produce :: "('w, exn, ('i, 'p) umessage list) M"
    and consume :: "('i, 'p) umessage \<Rightarrow> ('w, exn, unit) M"
    and inv :: "'w \<Rightarrow> bool"
  assumes produce_inv: "keeps inv produce"
    and consume_inv: "keeps inv (consume m)"
begin

lemma step_inv:
  assumes step: "pipe_step produce yields consume workers (p, w) (p', w')" and "pipe_inv n workers p" "inv w"
  shows "pipe_inv n workers p' \<and> inv w'"
  using step
proof (cases rule: pipe_stepE [consumes 1, case_names Produce Put Skip Resume Take Finish])
  case (Produce r)
  then show ?thesis using assms(2) keepsD' [OF produce_inv assms(3)] by (auto simp: pipe_inv_def)
next
  case (Put m ms res q)
  then show ?thesis using assms(2,3) uq_inv_put uq_put_psize by (fastforce simp: pipe_inv_def)
next
  case (Skip m ms)
  then show ?thesis using assms(2,3) by (auto simp: pipe_inv_def)
next
  case Resume
  then show ?thesis using assms(2,3) by (simp add: pipe_inv_def uq_resume_psize uq_inv_resume)
next
  case (Take m q)
  then show ?thesis using assms(2,3) uq_inv_get uq_get_psize by (fastforce simp: pipe_inv_def)
next
  case (Finish m r q)
  have q: "uq_inv n (pp_queue p)" using assms(2) by (simp add: pipe_inv_def)
  note W = worker_turn_outcome [OF q Finish(2,3)]
  show ?thesis
    using Finish(1) W(2,3) uq_inv_done [OF q W(1)] assms(2) keepsD [OF consume_inv assms(3)]
    by (simp add: pipe_inv_def)
qed

end

section \<open>The orchestrator's operations\<close>

lemma st_db_orch [simp]:
  "st_db (w\<lparr>o_consuming := x1\<rparr>) = st_db w" "st_db (w\<lparr>o_occupancy_started := x2\<rparr>) = st_db w"
  "st_db (w\<lparr>o_connect_failures := x3\<rparr>) = st_db w" "st_db (w\<lparr>o_not_found := x4\<rparr>) = st_db w"
  "st_db (w\<lparr>o_connected := x5\<rparr>) = st_db w" "st_db (w\<lparr>o_stopped := x6, o_cancelled := x7\<rparr>) = st_db w"
  "st_db (w\<lparr>o_http_open := x8\<rparr>) = st_db w"
  by simp_all

lemma grown_logged [grown_intros]: "keeps (grown rs) m \<Longrightarrow> keeps (grown rs) (logged m)"
  unfolding logged_def by (rule grown_suppress)

lemma grown_failures [grown_intros]:
  "keeps (grown rs) (forget_failure nid)" "keeps (grown rs) (failure_age nid)"
  by (auto simp: keeps_def forget_failure_def failure_age_def modifyM_def grown_def split: option.split)

lemma grown_keys [grown_intros]: "keeps (grown rs) (load_private_keys env n)"
  unfolding load_private_keys_def by (auto intro!: keeps_intros split: keys_outcome.split)

lemma grown_connect [grown_intros]: "keeps (grown rs) (repo_connect rd n)"
  by (intro grown_frames frames_intros)

lemma grown_connect_producer [grown_intros]: "keeps (grown rs) connect_machine_producer"
  unfolding connect_machine_producer_def Let_def by (intro keeps_intros grown_intros)

lemma grown_allocator_producer [grown_intros]: "keeps (grown rs) (allocator_producer env)"
  unfolding allocator_producer_def clouds_get_capacity_def Let_def by (intro keeps_intros grown_intros)

lemma grown_consumer_producer [grown_intros]: "keeps (grown rs) task_consumer_producer"
  unfolding task_consumer_producer_def by (intro keeps_intros grown_intros)

lemma grown_deallocator_producer [grown_intros]: "keeps (grown rs) (deallocator_producer env)"
  unfolding deallocator_producer_def by (intro keeps_intros grown_intros)

lemma grown_consumer [grown_intros]: "keeps (grown rs) (task_consumer_consumer env msg)"
proof -
  have gone: "keeps (grown rs) (machine_gone tid t)" for tid t
  proof -
    have "keeps (grown rs) (abandon_lost tid t)"
      unfolding abandon_lost_def
      by (intro keeps_fromSum_bind keeps_intros grown_intros) (rule transition_forward)
    then show ?thesis
      unfolding machine_gone_def by (intro keeps_intros grown_intros grown_modify st_db_orch)
  qed
  have "keeps (grown rs) (start_occupancy_check sid e)" for sid e
    by (intro grown_frames frames_occupancy_check)
  then have ens: "keeps (grown rs) (ensure_occupancy env t key sid)" for t key sid
    unfolding ensure_occupancy_def by (intro keeps_intros grown_modify st_db_orch)
  have "keeps (grown rs) (consume_guarded env tid key sid)" for tid key sid
    unfolding consume_guarded_def by (intro keeps_intros grown_intros grown_modify st_db_orch)
  then show ?thesis
    unfolding task_consumer_consumer_def Let_def by (intro keeps_intros grown_intros gone ens)
qed

text \<open>The ports the orchestrator is given keep their contracts.\<close>

definition env_ok :: "'z orch_env \<Rightarrow> bool" where
  "env_ok env \<longleftrightarrow> cloud_provider (oe_clouds env) \<and> task_starter (oe_start env)"

lemma grown_connect_consumer:
  assumes "env_ok env"
  shows "keeps (grown rs) (connect_machine_consumer env msg)"
proof -
  have "keeps (grown rs) (abandon_node (oe_clouds env) n)" for n
    using assms by (auto simp: env_ok_def intro: cloud_provider.grown_teardown)
  then have "keeps (grown rs) (connect_failed env n)" for n
    unfolding connect_failed_def by (intro keeps_intros grown_intros)
  moreover have "keeps (grown rs) (connect_attempt env n)" for n
    unfolding connect_attempt_def
    by (intro keeps_intros grown_intros grown_modify st_db_orch)
  ultimately show ?thesis unfolding connect_machine_consumer_def by (intro keeps_intros)
qed

lemma grown_allocator_consumer:
  assumes "env_ok env"
  shows "keeps (grown rs) (allocator_consumer env msg)"
proof -
  have "keeps (grown rs) (allocate_free_machine (oe_start env) d t e)" for d t e
    using assms by (auto simp: env_ok_def intro: task_starter.grown_free)
  moreover have "keeps (grown rs) (provision_node (oe_clouds env) e tid)" for e tid
    using assms by (auto simp: env_ok_def intro: cloud_provider.grown_provision)
  ultimately have "keeps (grown rs) (allocate_task (oe_clouds env) (oe_start env) es d tid)" for es d tid
    unfolding allocate_task_def by (intro keeps_intros grown_intros)
  then show ?thesis unfolding allocator_consumer_def by (intro keeps_intros grown_intros)
qed

lemma grown_deallocator_consumer:
  assumes "env_ok env"
  shows "keeps (grown rs) (deallocator_consumer env msg)"
  using assms unfolding deallocator_consumer_def
  by (auto simp: env_ok_def intro!: grown_logged cloud_provider.grown_teardown)

section \<open>The daemon\<close>

locale daemon =
  fixes env :: "'z orch_env"
  assumes ports: "env_ok env"

sublocale daemon \<subseteq> conn_loop: pipeline connect_machine_producer "connect_machine_consumer env" "grown rs" for rs
  by unfold_locales (intro grown_intros grown_connect_consumer ports)+

sublocale daemon \<subseteq> alloc_loop: pipeline "allocator_producer env" "allocator_consumer env" "grown rs" for rs
  by unfold_locales (intro grown_intros grown_allocator_consumer ports)+

sublocale daemon \<subseteq> cons_loop: pipeline task_consumer_producer "task_consumer_consumer env" "grown rs" for rs
  by unfold_locales (intro grown_intros)+

sublocale daemon \<subseteq> dealloc_loop: pipeline "deallocator_producer env" "deallocator_consumer env" "grown rs" for rs
  by unfold_locales (intro grown_intros grown_deallocator_consumer ports)+

text \<open>The environment of the running program: its ports are the provisioner and the orchestrator's own
  starter.\<close>

definition daemon_env ::
  "local_settings \<Rightarrow> provisioner \<Rightarrow> config_cloud list \<Rightarrow> config_cloud list \<Rightarrow> keys_outcome
    \<Rightarrow> (session \<Rightarrow> exn + int) \<Rightarrow> (pyval \<Rightarrow> string) \<Rightarrow> (string \<Rightarrow> string) \<Rightarrow> 'z orch_env" where
  "daemon_env settings pv clouds active keys discover repr quote =
     \<lparr>oe_settings = settings, oe_remote = pv_remote pv, oe_clouds = cloud_port_of pv, oe_engines = pv_engines pv,
      oe_config_clouds = clouds, oe_active_clouds = active, oe_local_tasks_dir = ls_tasks_dir settings,
      oe_keys = keys, oe_start = orch_start_task discover repr quote (rd_engines_dir (pv_remote pv))\<rparr>"

interpretation program: daemon "daemon_env settings pv clouds active keys discover repr quote"
  for settings pv clouds active keys discover repr quote
  by unfold_locales
     (simp add: env_ok_def daemon_env_def manager.cloud_provider_axioms orch_starter.task_starter_axioms)

inductive daemon_step ::
  "'z orch_env \<Rightarrow> ssh_probe \<Rightarrow> daemon_pipes \<times> 'z orch_scheme \<Rightarrow> daemon_pipes \<times> 'z orch_scheme \<Rightarrow> bool"
  for env and pb where
  Conn: "pipe_step connect_machine_producer (\<lambda>_ _. True) (connect_machine_consumer env)
      (ls_conn_machine_limit (oe_settings env)) (dp_conn c, w) (p, w') \<Longrightarrow>
      daemon_step env pb (c, w) (c\<lparr>dp_conn := p\<rparr>, w')"
| Alloc: "pipe_step (allocator_producer env) (\<lambda>_ _. True) (allocator_consumer env)
      (ls_allocate_limit (oe_settings env)) (dp_alloc c, w) (q, w') \<Longrightarrow>
      daemon_step env pb (c, w) (c\<lparr>dp_alloc := q\<rparr>, w')"
| Cons: "pipe_step task_consumer_producer not_in_flight (task_consumer_consumer env)
      (ls_consume_limit (oe_settings env)) (dp_cons c, w) (q, w') \<Longrightarrow>
      daemon_step env pb (c, w) (c\<lparr>dp_cons := q\<rparr>, w')"
| Dealloc: "pipe_step (deallocator_producer env) (\<lambda>_ _. True) (deallocator_consumer env)
      (ls_deallocate_limit (oe_settings env)) (dp_dealloc c, w) (p, w') \<Longrightarrow>
      daemon_step env pb (c, w) (c\<lparr>dp_dealloc := p\<rparr>, w')"
| Monitor: "daemon_step env pb (c, w) (c, monitor_tick pb sid w)"
| Clock: "0 \<le> dt \<Longrightarrow> daemon_step env pb (c, w) (c, w\<lparr>w_clock := w_clock w + dt\<rparr>)"
| Network: "daemon_step env pb (c, w)
      (c, w\<lparr>st_faults := fs, w_net := ns, w_conn := cs, w_creates := es, w_deletes := ds\<rparr>)"
| Submission: "daemon_step env pb (c, w)
      (c, w\<lparr>st_db := st_db (snd (submit_task bt bj label metadata name engines w))\<rparr>)"
| Operator: "st_db v = st_db w \<Longrightarrow> daemon_step env pb (c, w)
      (c, w\<lparr>st_db := st_db (snd (manage_node keys rd engines args (v :: 'z orch_scheme)))\<rparr>)"
| Now: "daemon_step env pb (c, w) (c, w\<lparr>st_db := (st_db w)\<lparr>d_now := t\<rparr>\<rparr>)"
| Stop: "daemon_step env pb (c, w) (c, snd (orch_stop jobs w))"

definition pipes_ok :: "local_settings \<Rightarrow> daemon_pipes \<Rightarrow> bool" where
  "pipes_ok s c \<longleftrightarrow> pipe_inv (ls_conn_machine_pending s) (ls_conn_machine_limit s) (dp_conn c)
     \<and> pipe_inv (ls_allocate_pending s) (ls_allocate_limit s) (dp_alloc c)
     \<and> pipe_inv (ls_consume_pending s) (ls_consume_limit s) (dp_cons c)
     \<and> pipe_inv (ls_deallocate_pending s) (ls_deallocate_limit s) (dp_dealloc c)"

lemma pipes_ok_new: "settings_ok s \<Longrightarrow> pipes_ok s (daemon_pipes_new s)"
  by (simp add: pipes_ok_def daemon_pipes_new_def settings_ok_def pipe_inv_new)

lemma monitor_tick_db: "st_db (monitor_tick pb sid w) = st_db w"
  by (simp add: monitor_tick_def session_release_def split: option.split prod.split sum.split bool.split)

lemma db_wf_now: "db_wf (d\<lparr>d_now := t\<rparr>) = db_wf d"
  by (simp add: db_wf_def task_row_ok_def task_fk_def node_exists_def split: option.split)

lemma frames_disconnect_all: "frames wdata repo_disconnect_all"
  unfolding repo_disconnect_all_def by (intro frames_intros)

lemma grown_stop [grown_intros]: "keeps (grown rs) (orch_stop jobs)"
proof -
  have "keeps (grown rs) (cloud_stop :: ('y, unit) wprog)" "keeps (grown rs) (repo_disconnect_all :: ('y, unit) wprog)"
    unfolding cloud_stop_def by (rule grown_frames [OF frames_disconnect_all])+
  moreover have "keeps (grown rs) (round_trip :: ('y, unit) wprog)"
    by (rule grown_frames [OF frames_round_trip])
  moreover have "keeps (grown rs) (await_jobs jobs)"
    unfolding await_jobs_def by (intro keeps_intros grown_intros)
  ultimately show ?thesis
    unfolding orch_stop_def
    by (intro keeps_intros grown_intros grown_modify st_db_orch)
qed

context daemon begin

lemma step_keeps:
  assumes step: "daemon_step env pb (c, w) (c', w')" and ok: "pipes_ok (oe_settings env) c" and g: "grown rs w"
  shows "pipes_ok (oe_settings env) c' \<and> grown rs w'"
  using step
proof cases
  case (Conn p)
  then show ?thesis using conn_loop.step_inv [OF Conn(2) _ g] ok unfolding pipes_ok_def by fastforce
next
  case (Alloc q)
  then show ?thesis using alloc_loop.step_inv [OF Alloc(2) _ g] ok unfolding pipes_ok_def by fastforce
next
  case (Cons q)
  then show ?thesis using cons_loop.step_inv [OF Cons(2) _ g] ok unfolding pipes_ok_def by fastforce
next
  case (Dealloc p)
  then show ?thesis using dealloc_loop.step_inv [OF Dealloc(2) _ g] ok unfolding pipes_ok_def by fastforce
next
  case (Monitor sid)
  then show ?thesis using ok g by (simp add: grown_def monitor_tick_db)
next
  case (Clock dt)
  then show ?thesis using ok g by (simp add: grown_def)
next
  case (Network fs ns cs es ds)
  then show ?thesis using ok g by (simp add: grown_def)
next
  case (Submission bt bj label metadata name engines)
  then show ?thesis using ok keepsD [OF grown_submit g] by (simp add: grown_def)
next
  case (Operator v keys rd engines args)
  then have "grown rs v" using g by (simp add: grown_def)
  from keepsD [OF grown_manage_node this] Operator show ?thesis using ok by (simp add: grown_def)
next
  case (Now t)
  then show ?thesis using ok g by (simp add: grown_def db_wf_now)
next
  case (Stop jobs)
  then show ?thesis using ok keepsD [OF grown_stop g] by simp
qed

lemma run_keeps:
  assumes "(daemon_step env pb)\<^sup>*\<^sup>* s s'" "pipes_ok (oe_settings env) (fst s)" "grown rs (snd s)"
  shows "pipes_ok (oe_settings env) (fst s') \<and> grown rs (snd s')"
  using assms
proof (induction rule: rtranclp_induct)
  case (step s1 s2)
  obtain c w where s1: "s1 = (c, w)" by (cases s1)
  obtain c' w' where s2: "s2 = (c', w')" by (cases s2)
  show ?case using step_keeps [of pb c w c' w' rs] step by (simp add: s1 s2)
qed simp

text \<open>Once a task has left TO_DO no claim on it succeeds again.\<close>

lemma never_again:
  assumes run: "(daemon_step env pb)\<^sup>*\<^sup>* (c, w) (c', w')" and ok: "pipes_ok (oe_settings env) c" and wf: "db_wf (st_db w)"
    and r: "r \<in> set (d_tasks (st_db w))" "r_status r \<noteq> TO_DO"
  shows "\<not> (\<exists>q \<in> set (d_tasks (st_db w')). r_task_id q = r_task_id r \<and> r_status q = TO_DO)"
proof
  assume "\<exists>q \<in> set (d_tasks (st_db w')). r_task_id q = r_task_id r \<and> r_status q = TO_DO"
  then obtain q where q: "q \<in> set (d_tasks (st_db w'))" "r_task_id q = r_task_id r" "r_status q = TO_DO" by blast
  have g: "grown (d_tasks (st_db w)) w'"
    using run_keeps [OF run, of "d_tasks (st_db w)"] ok wf by (simp add: grown_def)
  then obtain r' where r': "r' \<in> set (d_tasks (st_db w'))" "row_le r r'"
    using r(1) by (auto simp: grown_def tasks_le_def)
  have "db_wf (st_db w')" using g by (simp add: grown_def)
  from task_row_unique [OF this q(1) r'(1)] have "q = r'" using q(2) r'(2) by (simp add: row_le_def)
  then show False using q(3) r'(2) r(2) by (cases "r_status r") (auto simp: row_le_def)
qed

end

end
