(* ===== verification/Orchestrator_Facts.thy ===== *)
theory Orchestrator_Facts
  imports Daemon
begin

text \<open>
  What each producer and consumer of the daemon does: who is connected and who is given up, what becomes
  of a task whose machine is gone, the in-flight guard of consumption, the idle machines, the capacity
  of the clouds, and the shutdown.
\<close>

section \<open>Connecting and giving up\<close>

definition age_of :: "node_id \<Rightarrow> 'z orch_scheme \<Rightarrow> real" where
  "age_of nid w = (case dget (o_connect_failures w) nid of None \<Rightarrow> 0 | Some t \<Rightarrow> w_clock w - t)"

lemma repo_connect_Inl:
  "repo_connect rd n w = (Inl e, w') \<Longrightarrow> w' = w \<or> (\<exists>cs. w' = w\<lparr>w_conn := cs\<rparr>)"
  by (auto simp: repo_connect_def repo_connect_at_def register_session_def Let_def split: list.splits sum.splits prod.splits)

lemma connect_attempt_Inl:
  assumes "connect_attempt env n w = (Inl e, w')"
  shows "w' = w \<or> (\<exists>cs. w' = w\<lparr>w_conn := cs\<rparr>)"
  using assms unfolding connect_attempt_def
proof (elim thenM_cases)
  fix e1 assume "load_private_keys env n w = (Inl e1, w')"
  then show ?thesis by (auto simp: load_private_keys_def skipM_def returnM_def raiseM_def split: keys_outcome.splits)
next
  fix a s1 e1 assume "load_private_keys env n w = (Inr a, s1)" "repo_connect (oe_remote env) n s1 = (Inl e1, w')"
  then show ?thesis using repo_connect_Inl
    by (force simp: load_private_keys_def skipM_def returnM_def raiseM_def split: keys_outcome.splits)
qed (auto simp: forget_failure_def modifyM_def)

lemma frames_connect_attempt: "frames wdata (connect_attempt env n)"
proof -
  have "frames wdata (modifyM (\<lambda>w. w\<lparr>o_connect_failures := f w\<rparr>))" "frames wdata (modifyM (\<lambda>w. w\<lparr>o_connected := b\<rparr>))" for f b
    by (auto simp: frames_def modifyM_def wdata_def)
  moreover have "frames wdata (load_private_keys env n)"
    by (auto simp: load_private_keys_def intro!: frames_intros split: keys_outcome.split)
  ultimately show ?thesis
    unfolding connect_attempt_def forget_failure_def by (intro frames_intros)
qed

lemma failure_age_run:
  "failure_age nid w = (Inr (age_of nid w), if dget (o_connect_failures w) nid = None
     then w\<lparr>o_connect_failures := dput nid (w_clock w) (o_connect_failures w)\<rparr> else w)"
  by (simp add: failure_age_def age_of_def split: option.split)

lemma age_of_conn [simp]: "age_of nid (w\<lparr>w_conn := cs\<rparr>) = age_of nid w"
  by (simp add: age_of_def cong: option.case_cong)

text \<open>A static node, and a cloud node within its grace, is never given up: the tables, the events and the
  tracker stay as they are, whatever the connection does.\<close>

lemma within_grace:
  assumes "n_cloud n = None \<or> age_of (n_node_id n) w < real_of_int (connect_grace_for (oe_config_clouds env) (n_cloud n))"
  shows "wdata (snd (connect_machine_consumer env (UMessage i n) w)) = wdata w"
proof -
  obtain r w1 where run: "connect_attempt env n w = (r, w1)" by (cases "connect_attempt env n w")
  have d1: "wdata w1 = wdata w" using framesD' [OF frames_connect_attempt run] .
  show ?thesis
  proof (cases r)
    case (Inr u)
    then show ?thesis using run d1 by (simp add: connect_machine_consumer_def catchM_def)
  next
    case (Inl e)
    have w1: "age_of (n_node_id n) w1 = age_of (n_node_id n) w"
      using connect_attempt_Inl run Inl by fastforce
    have "wdata (snd (connect_failed env n w1)) = wdata w1"
      using assms
      by (auto simp: connect_failed_def bindM_def failure_age_run w1 skipM_def returnM_def) (simp_all add: wdata_def)
    then show ?thesis
      using run d1 Inl by (simp add: connect_machine_consumer_def catchM_def skipM_def returnM_def raiseM_def)
  qed
qed

text \<open>A cloud node that stays unreachable beyond its grace is given up: its tracker slots are released
  whatever fails, and only a cancellation escapes.\<close>

lemma beyond_grace:
  assumes cp: "cloud_provider (oe_clouds env)" and cl: "n_cloud n \<noteq> None"
    and fail: "connect_attempt env n w = (Inl (MachineConnectionError a b c), w1)"
    and age: "real_of_int (connect_grace_for (oe_config_clouds env) (n_cloud n)) \<le> age_of (n_node_id n) w"
    and run: "connect_machine_consumer env (UMessage i n) w = (r, w')"
  shows "w_tracker w' = snd (tracker_discard_by_node (n_node_id n) (w_tracker w)) \<and> (r = Inr () \<or> r = Inl CancelledError)"
proof -
  define w2 where "w2 = snd (failure_age (n_node_id n) w1)"
  have tr: "w_tracker w2 = w_tracker w" "age_of (n_node_id n) w1 = age_of (n_node_id n) w"
    using connect_attempt_Inl [OF fail] by (auto simp: w2_def failure_age_run)
  obtain q w3 where ab: "abandon_node (oe_clouds env) n w2 = (q, w3)" by (cases "abandon_node (oe_clouds env) n w2")
  note T = cloud_provider.abandon_tracker [OF cp ab]
  have "connect_machine_consumer env (UMessage i n) w = thenM (logged (abandon_node (oe_clouds env) n)) (forget_failure (n_node_id n)) w2"
    using age cl by (auto simp: connect_machine_consumer_def catchM_def fail is_MachineConnectionError_def connect_failed_def
        bindM_def failure_age_run tr(2) w2_def)
  then show ?thesis
    using run T tr(1) by (cases q) (auto simp: thenM_def bindM_def logged_def suppress_def catchM_def ab forget_failure_def
        modifyM_def skipM_def returnM_def raiseM_def is_Exception_def split: if_splits)
qed

section \<open>Machines that are gone\<close>

lemma frames_not_found: "frames wdata (modifyM (\<lambda>w. w\<lparr>o_not_found := f w\<rparr>))"
  by (auto simp: frames_def modifyM_def wdata_def)

text \<open>A running task whose machine is gone is only counted for twenty passes; on the next it becomes DONE
  with the abandonment event, and its slot is released even when the row cannot be saved.\<close>

lemma machine_gone_outcome:
  fixes w w' :: "'z orch_scheme"
  assumes t: "abandon_task t default_abandon_error = Inr t'" and run: "machine_gone tid t w = (r, w')"
  shows "if times_not_found tid w < broken_tasks_passes
    then r = Inr () \<and> wdata w' = wdata w \<and> times_not_found tid w' = times_not_found tid w + 1
    else w_tracker w' = tracker_discard tid (w_tracker w)
      \<and> ((\<exists>e. r = Inl e \<and> visible w' = visible w)
         \<or> (saved_over t' (st_db w) (st_db w')
            \<and> (r = Inr () \<and> st_trace w' = st_trace w @ calls (st_bus w) (t_events t') \<or> r = Inl CancelledError)))"
proof -
  define w1 where "w1 = w\<lparr>o_not_found := dput tid (times_not_found tid w + 1) (o_not_found w)\<rparr>"
  have w1: "times_not_found tid w1 = times_not_found tid w + 1" "visible w1 = visible w" "w_tracker w1 = w_tracker w"
      "st_db w1 = st_db w" "st_trace w1 = st_trace w" "st_bus w1 = st_bus w" "wdata w1 = wdata w"
    by (simp_all add: w1_def times_not_found_def visible_def committed_def wdata_def)
  have eq: "machine_gone tid t w = whenM (times_not_found tid w + 1 > broken_tasks_passes) (abandon_lost tid t) w1"
    by (simp add: machine_gone_def thenM_def bindM_def modifyM_def getsM_def w1_def [symmetric] w1(1))
  show ?thesis
  proof (cases "times_not_found tid w < broken_tasks_passes")
    case True
    then show ?thesis using run w1 unfolding eq by (simp add: whenM_def skipM_def returnM_def)
  next
    case False
    let ?m = "with_uow (thenM (tasks_save t' None) uow_commit) :: ('z, unit) oprog"
    obtain q w2 where m: "?m w1 = (q, w2)" by (cases "?m w1")
    have fr: "frames store.more ?m" by (intro frames_intros)
    from world_more_sess [OF framesD' [OF fr m]] have tr: "w_tracker w2 = w_tracker w" using w1(3) by simp
    have "abandon_lost tid t w1 = (q, w2\<lparr>w_tracker := tracker_discard tid (w_tracker w2)\<rparr>)"
      by (cases q) (simp_all add: abandon_lost_def t bindM_fromSum finallyM_def m discard_slot_def modifyM_def)
    then have "r = q" "w' = w2\<lparr>w_tracker := tracker_discard tid (w_tracker w2)\<rparr>"
      using run False unfolding eq by (simp_all add: whenM_def)
    then show ?thesis using save_block_outcome [OF m] False tr w1 by auto
  qed
qed

section \<open>The in-flight guard\<close>

definition own :: "'z orch_scheme \<Rightarrow> task_id set \<times> node_id set" where
  "own w = (o_consuming w, o_occupancy_started w)"

lemma store_more_world: "store.more w = store.more (w' :: 'y world_scheme) \<Longrightarrow> world.more w = world.more w'"
  by (cases w; cases w') simp

lemma world_more_own: "world.more w = world.more w' \<Longrightarrow> own w = own w'"
  by (cases w; cases w') (simp add: own_def)

lemma own_store_more: "frames store.more m \<Longrightarrow> frames own m"
  unfolding frames_def using store_more_world world_more_own by blast

lemma own_simps [simp]:
  "own (w\<lparr>w_tracker := x1\<rparr>) = own w" "own (w\<lparr>w_remote := x2\<rparr>) = own w" "own (w\<lparr>w_net := x3\<rparr>) = own w"
  "own (env_close sid w) = own w"
  by (simp_all add: own_def env_close_def upd_sess_def)

lemma frames_own_calls [frames_intros]:
  "frames own (remote_call sid op)" "frames own (env_call :: ('z, string) oprog)"
  by (auto simp: frames_def remote_call_def env_call_def Let_def split: list.split)

lemma frames_own_slot [frames_intros]: "frames own (discard_slot tid)"
  by (simp add: frames_def discard_slot_def modifyM_def)

lemma frames_own_download [frames_intros]: "frames own (download_outputs sid rd ld files)"
proof -
  have l: "frames own (dl_loop sid ld fs tr pe)" for fs tr pe
  proof (induction fs arbitrary: tr pe)
    case (Cons f fs)
    show ?case unfolding dl_loop.simps dl_escape_def Let_def by (intro frames_intros Cons.IH)
  qed (simp add: frames_return)
  then show ?thesis unfolding download_outputs_def dl_rmtree_def with_sftp_def by (intro frames_intros)
qed

lemma frames_own_consume: "frames own (consume_task tid sid engines tasks_dir)"
proof -
  have f: "frames own (save_final t)" for t
    unfolding save_final_def by (intro frames_intros own_store_more)
  show ?thesis
    unfolding consume_task_def fail_missing_engine_def finalize_task_def prepare_store_folder_def Let_def
    by (intro frames_intros f own_store_more)
qed

text \<open>While a task is consumed its id is in flight; afterwards it is not, on every path.  The occupancy of
  its machine is checked anew exactly when the task was finalised.\<close>

lemma consume_guarded_own:
  assumes "consume_guarded env tid key sid w = (r, w')"
  shows "o_consuming w' = o_consuming w - {tid}"
    "o_occupancy_started w' = (if r = Inr () \<and> fst (consume_task tid sid (oe_engines env) (oe_local_tasks_dir env)
         (w\<lparr>o_consuming := insert tid (o_consuming w)\<rparr>)) = Inr True
       then o_occupancy_started w - {key} else o_occupancy_started w)"
proof -
  let ?w = "w\<lparr>o_consuming := insert tid (o_consuming w)\<rparr>"
  obtain q w1 where q: "consume_task tid sid (oe_engines env) (oe_local_tasks_dir env) ?w = (q, w1)" by fastforce
  have "own w1 = own ?w" by (rule framesD' [OF frames_own_consume q])
  then have o1: "o_consuming w1 = insert tid (o_consuming w)" "o_occupancy_started w1 = o_occupancy_started w"
    by (simp_all add: own_def)
  have "(r, w') = (case q of
      Inl e \<Rightarrow> (Inl e, w1\<lparr>o_consuming := o_consuming w1 - {tid}\<rparr>)
    | Inr fin \<Rightarrow> (Inr (), if fin then w1\<lparr>o_consuming := o_consuming w1 - {tid}, o_occupancy_started := o_occupancy_started w1 - {key}\<rparr>
                    else w1\<lparr>o_consuming := o_consuming w1 - {tid}\<rparr>))"
    using assms by (cases q) (auto simp: consume_guarded_def thenM_def bindM_def modifyM_def finallyM_def q whenM_def
        skipM_def returnM_def split: if_splits)
  then show "o_consuming w' = o_consuming w - {tid}"
    "o_occupancy_started w' = (if r = Inr () \<and> fst (consume_task tid sid (oe_engines env) (oe_local_tasks_dir env) ?w) = Inr True
       then o_occupancy_started w - {key} else o_occupancy_started w)"
    using o1 unfolding q by (cases q; auto split: if_splits)+
qed

section \<open>Idle machines\<close>

lemma idle_machines_get:
  assumes ok: "sessions_ok w"
  shows "dget (idle_machines w) nid = Some t \<longleftrightarrow>
    (\<exists>sid. repo_get_session nid w = Some sid \<and> m_state (ss_machine (sess w sid)) = FREE
       \<and> m_free_since (ss_machine (sess w sid)) = Some t)"
proof -
  let ?step = "\<lambda>d sid. (let m = ss_machine (sess w sid) in
       case m_free_since m of
         Some t \<Rightarrow> if m_state m = FREE then dput (m_node_id m) t d else d
       | None \<Rightarrow> d)"
  have fold: "dget (foldl ?step d xs) nid = Some t \<longleftrightarrow>
      (\<exists>sid \<in> set xs. m_node_id (ss_machine (sess w sid)) = nid \<and> m_state (ss_machine (sess w sid)) = FREE
         \<and> m_free_since (ss_machine (sess w sid)) = Some t)
    \<or> (dget d nid = Some t \<and> (\<forall>sid \<in> set xs. m_node_id (ss_machine (sess w sid)) = nid \<longrightarrow>
          m_state (ss_machine (sess w sid)) \<noteq> FREE \<or> m_free_since (ss_machine (sess w sid)) = None))"
    if "inj_on (\<lambda>sid. m_node_id (ss_machine (sess w sid))) (set xs)" "distinct xs" for d xs
    using that
  proof (induction xs arbitrary: d)
    case (Cons x xs)
    have ne: "m_node_id (ss_machine (sess w y)) \<noteq> m_node_id (ss_machine (sess w x))" if "y \<in> set xs" for y
      using Cons.prems that by (auto simp: inj_on_def)
    show ?case
      using Cons.IH [of "?step d x"] Cons.prems ne
      by (cases "m_free_since (ss_machine (sess w x))"; cases "m_state (ss_machine (sess w x))")
         (auto simp: Let_def inj_on_def)
  qed simp
  have key: "(n, sid) \<in> set (w_registry w) \<Longrightarrow> m_node_id (ss_machine (sess w sid)) = n" for n sid
    using ok by (auto simp: sessions_ok_def)
  have dist: "distinct (repo_list_connected w)" and dk: "distinct (map fst (w_registry w))"
    using ok by (simp_all add: sessions_ok_def repo_list_connected_def dvalues_def dict_ok_def)
  have inj: "inj_on (\<lambda>sid. m_node_id (ss_machine (sess w sid))) (set (repo_list_connected w))"
  proof (rule inj_onI)
    fix x y assume "x \<in> set (repo_list_connected w)" "y \<in> set (repo_list_connected w)"
      and eq: "m_node_id (ss_machine (sess w x)) = m_node_id (ss_machine (sess w y))"
    then obtain a b where ab: "(a, x) \<in> set (w_registry w)" "(b, y) \<in> set (w_registry w)"
      by (auto simp: repo_list_connected_def dvalues_def)
    then have "a = b" using key eq by metis
    then show "x = y" using ab dk by (metis eq_key_imp_eq_value)
  qed
  have mem: "sid \<in> set (repo_list_connected w) \<and> m_node_id (ss_machine (sess w sid)) = nid \<longleftrightarrow> repo_get_session nid w = Some sid" for sid
  proof
    assume "sid \<in> set (repo_list_connected w) \<and> m_node_id (ss_machine (sess w sid)) = nid"
    then obtain a where a: "(a, sid) \<in> set (w_registry w)" and n: "m_node_id (ss_machine (sess w sid)) = nid"
      by (auto simp: repo_list_connected_def dvalues_def)
    with key [OF a] dget_mem [OF sessions_ok_dict [OF ok] a] show "repo_get_session nid w = Some sid"
      by (simp add: repo_get_session_def)
  next
    assume "repo_get_session nid w = Some sid"
    then have a: "(nid, sid) \<in> set (w_registry w)" by (simp add: repo_get_session_def dget_Some_mem)
    then have "sid \<in> snd ` set (w_registry w)" by force
    then show "sid \<in> set (repo_list_connected w) \<and> m_node_id (ss_machine (sess w sid)) = nid"
      using key [OF a] by (simp add: repo_list_connected_def dvalues_def)
  qed
  show ?thesis
    unfolding idle_machines_def fold [OF inj dist] dget.simps using mem by blast
qed

text \<open>A connected node may be disabled by the deallocator only after its session has been free for the
  tolerance of its provider.\<close>

definition idle_session :: "config_cloud list \<Rightarrow> 'y world_scheme \<Rightarrow> node_row \<Rightarrow> bool" where
  "idle_session clouds w q \<longleftrightarrow> q_enabled q
     \<and> (\<forall>r \<in> set (d_tasks (st_db w)). r_status r = RUNNING \<longrightarrow> r_node r \<noteq> Some (q_node_id q))
     \<and> (\<exists>cfg \<in> set clouds. \<exists>sid t. q_cloud q = Some (cfg_prefix cfg)
          \<and> repo_get_session (NodeId (q_node_id q)) w = Some sid \<and> m_state (ss_machine (sess w sid)) = FREE
          \<and> m_free_since (ss_machine (sess w sid)) = Some t \<and> w_clock w - t \<ge> real_of_int (cfg_idle_tolerance cfg))"

lemma idle_row_session:
  "sessions_ok w \<Longrightarrow> idle_row clouds (idle_machines w) (w_clock w) (st_db w) q = idle_session clouds w q"
  unfolding idle_row_def idle_session_def idle_machines_get by blast

lemma deallocator_outcome:
  fixes w w' :: "'z orch_scheme"
  assumes wf: "db_wf (st_db w)" and ok: "sessions_ok w" and run: "deallocator_producer env w = (r, w')"
  shows "drained_db (idle_session (oe_config_clouds env) w) (st_db w) (st_db w')
    \<and> (\<forall>ms. r = Inr ms \<longrightarrow> (\<forall>m \<in> set ms. um_id m = n_node_id (um_payload m)
         \<and> (\<exists>q \<in> set (d_nodes (st_db w')). \<not> q_enabled q \<and> row_to_node q = Inr (um_payload m))
         \<and> (\<forall>t \<in> set (d_tasks (st_db w)). r_status t = RUNNING \<longrightarrow> r_node t \<noteq> Some (nid_value (um_id m)))))"
proof -
  obtain x w1 where d: "deallocate_nodes (oe_config_clouds env) (idle_machines w) w = (x, w1)" by fastforce
  have w1: "w' = w1" and r: "r = (case x of Inl e \<Rightarrow> Inl e | Inr ns \<Rightarrow> Inr (map (\<lambda>n. UMessage (n_node_id n) n) ns))"
    using run by (cases x; simp add: deallocator_producer_def bindM_def getsM_def d returnM_def)+
  note D = deallocate_nodes_outcome [OF wf d]
  have "idle_row (oe_config_clouds env) (idle_machines w) (w_clock w) (st_db w) = idle_session (oe_config_clouds env) w"
    using idle_row_session [OF ok] by blast
  with D show ?thesis unfolding w1 r by (auto split: sum.splits) blast
qed

section \<open>Capacity\<close>

lemma count_nodes_get:
  "dget (count_nodes_by_cloud ns) c =
     (if c = '''' \<or> (\<forall>n \<in> set ns. n_cloud n \<noteq> Some c) then None
      else Some (int (length (filter (\<lambda>n. n_cloud n = Some c) ns))))"
proof -
  let ?step = "\<lambda>counts n. case n_cloud n of
       None \<Rightarrow> counts
     | Some c \<Rightarrow> if c = '''' then counts
                 else dput c ((case dget counts c of None \<Rightarrow> 0 | Some k \<Rightarrow> k) + 1) counts"
  have "dget (foldl ?step d ns) c =
     (if c = '''' \<or> (\<forall>n \<in> set ns. n_cloud n \<noteq> Some c) then dget d c
      else Some ((case dget d c of None \<Rightarrow> 0 | Some k \<Rightarrow> k) + int (length (filter (\<lambda>n. n_cloud n = Some c) ns))))" for d
  proof (induction ns arbitrary: d)
    case (Cons n ns)
    show ?case unfolding foldl_Cons Cons.IH
      by (cases "n_cloud n") (auto simp: filter_empty_conv)
  qed simp
  from this [of "[]"] show ?thesis by (simp add: count_nodes_by_cloud_def)
qed

definition cloud_rows :: "db \<Rightarrow> string \<Rightarrow> int" where
  "cloud_rows d c = int (length (filter (\<lambda>q. q_cloud q = Some c) (d_nodes d)))"

lemma cfg_prefix_nonempty [simp]: "cfg_prefix cfg \<noteq> ''''"
  by (cases cfg) simp_all

lemma length_filter_all2:
  "list_all2 (\<lambda>a b. P a = Q b) xs ys \<Longrightarrow> length (filter P xs) = length (filter Q ys)"
  by (induction rule: list_all2_induct) simp_all

text \<open>The capacity is what the configured maxima leave after the rows of the table, placeholders and
  disabled nodes included, and never negative.\<close>

lemma count_rows:
  assumes "list_all2 (\<lambda>q n. row_to_node q = Inr n) (sort_key q_node_id rows) ns" "c \<noteq> ''''"
  shows "(case dget (count_nodes_by_cloud ns) c of None \<Rightarrow> 0 | Some k \<Rightarrow> k) = int (length (filter (\<lambda>q. q_cloud q = Some c) rows))"
proof -
  have "list_all2 (\<lambda>q n. (q_cloud q = Some c) = (n_cloud n = Some c)) (sort_key q_node_id rows) ns"
    using assms(1) by (rule list_all2_mono) (auto dest: row_to_node_fields)
  from length_filter_all2 [OF this]
  have "length (filter (\<lambda>n. n_cloud n = Some c) ns) = length (filter (\<lambda>q. q_cloud q = Some c) rows)"
    by (simp add: filter_sort)
  moreover have "\<forall>n \<in> set ns. n_cloud n \<noteq> Some c \<Longrightarrow> filter (\<lambda>n. n_cloud n = Some c) ns = []"
    by (simp add: filter_empty_conv)
  ultimately show ?thesis using assms(2) by (auto simp: count_nodes_get)
qed

lemma capacity_outcome:
  fixes w w' :: "'z orch_scheme"
  assumes run: "clouds_get_capacity env w = (r, w')"
  shows "visible w' = visible w \<and> (\<forall>k. r = Inr k \<longrightarrow>
    k = max 0 ((\<Sum>c \<leftarrow> oe_active_clouds env. cfg_max_nodes c) - (\<Sum>c \<leftarrow> oe_active_clouds env. cloud_rows (st_db w) (cfg_prefix c))))"
proof -
  obtain x w1 where l: "with_uow nodes_list_all w = (x, w1)" by fastforce
  note R = with_uow_read [OF tx_lists(6) l]
  have w1: "w' = w1" using run by (cases x) (simp_all add: clouds_get_capacity_def bindM_def l Let_def returnM_def)
  show ?thesis
  proof (cases x)
    case (Inl e)
    then show ?thesis using run R by (auto simp: clouds_get_capacity_def bindM_def l)
  next
    case (Inr ns)
    then obtain y where "a_rows sql_node_list_all row_to_node (st_db w, []) = (Inr ns, y)" using R by blast
    from a_rows_Inr(2) [OF this sql_selects_db(9)]
    have "list_all2 (\<lambda>q n. row_to_node q = Inr n) (sort_key q_node_id (d_nodes (st_db w))) ns"
      by (simp add: sql_node_list_all_def getsM_def)
    note C = count_rows [OF this cfg_prefix_nonempty]
    show ?thesis
      using run R Inr C by (auto simp: clouds_get_capacity_def bindM_def l Let_def returnM_def cloud_rows_def)
  qed
qed

section \<open>Whom to connect\<close>

lemma connect_producer_outcome:
  fixes w w' :: "'z orch_scheme"
  assumes run: "connect_machine_producer w = (r, w')"
  shows "visible w' = visible w \<and> (\<forall>ms. r = Inr ms \<longrightarrow> (\<forall>m \<in> set ms. um_id m = n_node_id (um_payload m)
      \<and> \<not> repo_contains (um_id m) w'
      \<and> (\<exists>q \<in> set (d_nodes (st_db w)). row_to_node q = Inr (um_payload m)
           \<and> (q_enabled q \<or> (\<exists>t \<in> set (d_tasks (st_db w)). r_status t = RUNNING \<and> r_node t = Some (q_node_id q))))))"
proof -
  let ?ops = "bindM nodes_list_enabled (\<lambda>enabled.
              bindM (tasks_list_running None) (\<lambda>running.
                bindM nodes_list_disabled (\<lambda>disabled.
                  (let busy = map allocated_node_id_of running in
                   returnM (enabled, filter (\<lambda>n. List.member busy (Some (n_node_id n))) disabled))))) :: ('z orch_scheme, exn, node list \<times> node list) M"
  let ?F = "bindM (a_rows sql_node_list_enabled row_to_node) (\<lambda>enabled.
              bindM (a_rows (sql_task_list_by_status [RUNNING] None) row_to_task) (\<lambda>running.
                bindM (a_rows sql_node_list_disabled row_to_node) (\<lambda>disabled.
                  (let busy = map allocated_node_id_of running in
                   returnM (enabled, filter (\<lambda>n. List.member busy (Some (n_node_id n))) disabled)))))"
  have den: "tx_den ?ops ?F" unfolding Let_def by (intro tx_intros)
  obtain x w1 where l: "with_uow ?ops w = (x, w1)" by (cases "with_uow ?ops w")
  note R = with_uow_read [OF den l]
  have err: "connect_machine_producer w = (Inl e, w1)" if e: "x = Inl e" for e
    unfolding connect_machine_producer_def by (rule bindM_Inl) (simp only: l e)
  have ok: "connect_machine_producer w = (case p of (enabled, draining) \<Rightarrow> getsM (\<lambda>w.
          map (\<lambda>n. UMessage (n_node_id n) n)
            (filter (\<lambda>n. \<not> repo_contains (n_node_id n) w) (enabled @ draining)))) w1" if e: "x = Inr p" for p
    unfolding connect_machine_producer_def by (rule bindM_Inr) (simp only: l e)
  show ?thesis
  proof (cases x)
    case (Inl e)
    then show ?thesis using run R err by auto
  next
    case (Inr p)
    then have w1: "w' = w1" using run ok [OF Inr] by (cases p) (simp add: getsM_def)
    obtain enabled draining where p: "p = (enabled, draining)" by (cases p)
    have r: "r = Inr (map (\<lambda>n. UMessage (n_node_id n) n) (filter (\<lambda>n. \<not> repo_contains (n_node_id n) w') (enabled @ draining)))"
      using run ok [OF Inr] by (auto simp: p getsM_def)
    from R Inr p obtain y where "?F (st_db w, []) = (Inr (enabled, draining), y)" by blast
    then obtain y1 en where e1: "a_rows sql_node_list_enabled row_to_node (st_db w, []) = (Inr en, y1)"
        and k1: "bindM (a_rows (sql_task_list_by_status [RUNNING] None) row_to_task) (\<lambda>running.
                bindM (a_rows sql_node_list_disabled row_to_node) (\<lambda>disabled.
                  (let busy = map allocated_node_id_of running in
                   returnM (en, filter (\<lambda>n. List.member busy (Some (n_node_id n))) disabled)))) y1 = (Inr (enabled, draining), y)"
      by (rule bindM_cases) (simp, rule that)
    note E = a_rows_Inr [OF e1 sql_selects_db(10)]
    from k1 obtain y2 run' where e2: "a_rows (sql_task_list_by_status [RUNNING] None) row_to_task y1 = (Inr run', y2)"
        and k2: "bindM (a_rows sql_node_list_disabled row_to_node) (\<lambda>disabled.
                  (let busy = map allocated_node_id_of run' in
                   returnM (en, filter (\<lambda>n. List.member busy (Some (n_node_id n))) disabled))) y2 = (Inr (enabled, draining), y)"
      by (rule bindM_cases) (simp, rule that)
    note T = a_rows_Inr [OF e2 [unfolded E(1)] sql_selects_db(5)]
    from k2 obtain y3 dis where e3: "a_rows sql_node_list_disabled row_to_node y2 = (Inr dis, y3)"
        and en: "en = enabled" and dr: "draining = filter (\<lambda>n. List.member (map allocated_node_id_of run') (Some (n_node_id n))) dis"
      by (rule bindM_cases) (simp, rule that, assumption, simp_all add: returnM_def Let_def)
    note D = a_rows_Inr [OF e3 [unfolded T(1)] sql_selects_db(11)]
    have one: "\<exists>q \<in> set (d_nodes (st_db w)). row_to_node q = Inr n \<and> q_enabled q" if "n \<in> set enabled" for n
    proof -
      have "list_all2 (\<lambda>r a. row_to_node r = Inr a) (filter q_enabled (d_nodes (st_db w))) enabled"
        using E(2) en by (simp add: sql_node_list_enabled_def sql_select_nodes_def getsM_def)
      from list_all2_mem2 [OF this that] show ?thesis by auto
    qed
    have two: "\<exists>q \<in> set (d_nodes (st_db w)). row_to_node q = Inr n
        \<and> (\<exists>t \<in> set (d_tasks (st_db w)). r_status t = RUNNING \<and> r_node t = Some (q_node_id q))"
      if n: "n \<in> set draining" for n
    proof -
      have nd: "n \<in> set dis" and "Some (n_node_id n) \<in> set (map allocated_node_id_of run')" using n by (auto simp: dr)
      then obtain t where t: "t \<in> set run'" "allocated_node_id_of t = Some (n_node_id n)" by auto
      from T(2) obtain rows where rows: "fst (sql_task_list_by_status [RUNNING] None (st_db w)) = Inr rows"
        "list_all2 (\<lambda>r a. row_to_task r = Inr a) rows run'" by blast
      from list_all2_mem2 [OF rows(2) t(1)] obtain q where q: "q \<in> set rows" "row_to_task q = Inr t" by blast
      have tq: "q \<in> set (d_tasks (st_db w))" "r_status q = RUNNING"
        using rows(1) q(1) by (auto simp: sql_task_list_by_status_def Let_def)
      obtain p where p: "p \<in> set (d_nodes (st_db w))" "row_to_node p = Inr n"
      proof -
        have "list_all2 (\<lambda>r a. row_to_node r = Inr a)
            (filter (\<lambda>q. \<not> q_enabled q \<and> q_hostname q \<noteq> '''') (d_nodes (st_db w))) dis"
          using D(2) by (simp add: sql_node_list_disabled_def sql_select_nodes_def getsM_def)
        from list_all2_mem2 [OF this nd] show ?thesis using that by auto
      qed
      have "r_node q = Some (q_node_id p)" using row_to_task_node [OF q(2) t(2)] row_to_node_fields [OF p(2)] by simp
      then show ?thesis using p tq by blast
    qed
    have msg: "um_id m = n_node_id (um_payload m)" "\<not> repo_contains (um_id m) w'"
        "um_payload m \<in> set enabled \<or> um_payload m \<in> set draining" if "r = Inr ms" "m \<in> set ms" for ms m
      using that unfolding r by auto
    show ?thesis
    proof (intro conjI allI impI ballI)
      show "visible w' = visible w" using R unfolding w1 by (rule conjunct1)
      fix ms m assume m: "r = Inr ms" "m \<in> set ms"
      show "um_id m = n_node_id (um_payload m)" "\<not> repo_contains (um_id m) w'" by (rule msg [OF m])+
      show "\<exists>q \<in> set (d_nodes (st_db w)). row_to_node q = Inr (um_payload m)
           \<and> (q_enabled q \<or> (\<exists>t \<in> set (d_tasks (st_db w)). r_status t = RUNNING \<and> r_node t = Some (q_node_id q)))"
        using msg(3) [OF m] one two by blast
    qed
  qed
qed

section \<open>Shutdown\<close>

lemma stop_again: "o_stopped w \<Longrightarrow> orch_stop jobs w = (Inr (), w)"
  by (simp add: orch_stop_def bindM_def getsM_def skipM_def returnM_def)

lemma disconnect_no_fault:
  assumes "st_faults w = []" "repo_disconnect nid w = (r, w')"
  shows "r = Inr () \<and> st_faults w' = []"
  using assms
  by (auto simp: repo_disconnect_def session_close_def round_trip_def Let_def split: option.splits if_splits)

lemma disconnect_closed:
  assumes ok: "sessions_ok w" and run: "repo_disconnect nid w = (r, w')"
  shows "ss_closed (sess w sid) \<Longrightarrow> ss_closed (sess w' sid)"
proof -
  assume c: "ss_closed (sess w sid)"
  then have "repo_get_session nid w \<noteq> Some sid"
    using sessions_okD(3) [OF ok] by (auto simp: repo_get_session_def)
  then show ?thesis using repo_disconnect_spec [OF ok run] c by auto
qed

lemma disconnect_list:
  assumes "sessions_ok w" "st_faults w = []" "forM ks repo_disconnect w = (r, w')"
  shows "r = Inr () \<and> st_faults w' = [] \<and> sessions_ok w'
    \<and> (\<forall>nid. repo_get_session nid w' = (if nid \<in> set ks then None else repo_get_session nid w))
    \<and> (\<forall>nid \<in> set ks. \<forall>sid. repo_get_session nid w = Some sid \<longrightarrow> ss_closed (sess w' sid))
    \<and> (\<forall>sid. ss_closed (sess w sid) \<longrightarrow> ss_closed (sess w' sid))"
  using assms
proof (induction ks arbitrary: w)
  case Nil
  then show ?case by (simp add: skipM_def returnM_def)
next
  case (Cons k ks)
  obtain x w1 where d: "repo_disconnect k w = (x, w1)" by (cases "repo_disconnect k w")
  note S = repo_disconnect_spec [OF Cons.prems(1) d]
  have x: "x = Inr ()" "st_faults w1 = []" using disconnect_no_fault [OF Cons.prems(2) d] by simp_all
  have run: "forM ks repo_disconnect w1 = (r, w')"
    using Cons.prems(3) by (simp add: thenM_def bindM_def d x)
  note IH = Cons.IH [OF sessions_ok_disconnect [OF Cons.prems(1) d] x(2) run]
  have g: "repo_get_session nid w1 = (if nid = k then None else repo_get_session nid w)" for nid
    using S sessions_ok_dict [OF Cons.prems(1)] by (simp add: repo_get_session_def)
  have "ss_closed (sess w' sid)" if "nid \<in> set (k # ks)" "repo_get_session nid w = Some sid" for nid sid
  proof (cases "nid = k")
    case True
    then have "ss_closed (sess w1 sid)" using S that(2) by simp
    then show ?thesis using IH by blast
  next
    case False
    then show ?thesis using IH that g [of nid] by auto
  qed
  moreover have "ss_closed (sess w' sid)" if "ss_closed (sess w sid)" for sid
    using IH disconnect_closed [OF Cons.prems(1) d that] by blast
  ultimately show ?case using IH g by auto
qed

lemma disconnect_all_no_fault:
  assumes "sessions_ok w" "st_faults w = []" "repo_disconnect_all w = (r, w')"
  shows "r = Inr () \<and> st_faults w' = [] \<and> sessions_ok w' \<and> w_registry w' = []
    \<and> (\<forall>nid sid. repo_get_session nid w = Some sid \<longrightarrow> ss_closed (sess w' sid))
    \<and> (\<forall>sid. ss_closed (sess w sid) \<longrightarrow> ss_closed (sess w' sid))"
proof -
  have run: "forM (dkeys (w_registry w)) repo_disconnect w = (r, w')"
    using assms(3) by (simp add: repo_disconnect_all_def bindM_def getsM_def)
  note D = disconnect_list [OF assms(1,2) run]
  have key: "repo_get_session nid w = Some sid \<Longrightarrow> nid \<in> set (dkeys (w_registry w))" for nid sid
    using dhas_iff [of "w_registry w" nid] by (simp add: repo_get_session_def dhas_def)
  have "repo_get_session nid w' = None" for nid
    using D key [of nid] by (cases "repo_get_session nid w") auto
  then have "w_registry w' = []"
    by (cases "w_registry w'") (auto simp: repo_get_session_def dget_None_iff)
  then show ?thesis using D key by blast
qed

lemma frames_stopped:
  "frames o_stopped (cloud_stop :: ('z, unit) oprog)" "frames o_stopped (repo_disconnect_all :: ('z, unit) oprog)"
  "frames o_stopped (round_trip :: ('z, unit) oprog)"
proof -
  show rt: "frames o_stopped (round_trip :: ('z, unit) oprog)"
    by (auto simp: frames_def round_trip_def split: list.split option.split)
  show d: "frames o_stopped (repo_disconnect_all :: ('z, unit) oprog)"
    unfolding repo_disconnect_all_def
    by (intro frames_intros frames_disconnect rt) (simp_all add: upd_sess_def)
  show "frames o_stopped (cloud_stop :: ('z, unit) oprog)" unfolding cloud_stop_def by (rule d)
qed

lemma await_jobs_run: "await_jobs jobs w = (Inr (), w)"
proof (induction jobs)
  case (Cons j js)
  have "(case j of None \<Rightarrow> skipM | Some e \<Rightarrow> if e = CancelledError then skipM else logged (raiseM e)) w = (Inr (), w)"
    by (auto simp: logged_def suppress_def catchM_def raiseM_def skipM_def returnM_def is_Exception_def split: option.split)
  then show ?case using Cons.IH by (simp add: await_jobs_def thenM_def bindM_def)
qed (simp add: await_jobs_def skipM_def returnM_def)

lemma bind_gets: "bindM (getsM f) g w = g (f w) w"
  by (simp add: bindM_def getsM_def)

lemma then_modify: "thenM (modifyM f) m w = m (f w)"
  by (simp add: thenM_def bindM_def modifyM_def)

lemma then_Inr: "m w = (Inr a, w1) \<Longrightarrow> thenM m n w = n w1"
  by (simp add: thenM_def bindM_def)

lemma logged_Inr: "m w = (Inr u, w1) \<Longrightarrow> logged m w = (Inr u, w1)"
  by (simp add: logged_def suppress_def catchM_def)

text \<open>What a stop does after its guard.\<close>

definition stop_work :: "exn option list \<Rightarrow> ('z, unit) oprog" where
  "stop_work jobs = thenM (await_jobs jobs) (thenM (logged cloud_stop) (thenM (logged repo_disconnect_all)
      (thenM (bindM (getsM o_http_open) (\<lambda>h. whenM h (logged round_trip))) (modifyM (\<lambda>w. w\<lparr>o_http_open := False\<rparr>)))))"

lemma stop_first: "\<not> o_stopped w \<Longrightarrow> orch_stop jobs w = stop_work jobs (w\<lparr>o_stopped := True, o_cancelled := True\<rparr>)"
  by (simp only: orch_stop_def bind_gets if_False then_modify stop_work_def)

text \<open>Stopping twice is stopping once.\<close>

lemma stop_idempotent: "orch_stop jobs' (snd (orch_stop jobs w)) = (Inr (), snd (orch_stop jobs w))"
proof (rule stop_again, cases "o_stopped w")
  case False
  have "frames o_stopped (await_jobs jobs)" by (simp add: frames_def await_jobs_run)
  moreover have "frames o_stopped (modifyM (\<lambda>w. w\<lparr>o_http_open := False\<rparr>))" by (simp add: frames_def modifyM_def)
  ultimately have "frames o_stopped (stop_work jobs)"
    unfolding logged_def stop_work_def by (intro frames_intros frames_suppress frames_stopped)
  from framesD [OF this, of "w\<lparr>o_stopped := True, o_cancelled := True\<rparr>"]
  show "o_stopped (snd (orch_stop jobs w))" by (simp add: stop_first [OF False])
qed (simp add: stop_again)

text \<open>A stop without connection failures closes every session and empties the registry, however the
  background jobs ended.\<close>

lemma stop_closes:
  fixes w w' :: "'z orch_scheme"
  assumes ok: "sessions_ok w" and nf: "st_faults w = []" and ns: "\<not> o_stopped w" and run: "orch_stop jobs w = (r, w')"
  shows "r = Inr () \<and> w_registry w' = [] \<and> \<not> o_http_open w'
    \<and> (\<forall>nid sid. repo_get_session nid w = Some sid \<longrightarrow> ss_closed (sess w' sid))"
proof -
  let ?w = "w\<lparr>o_stopped := True, o_cancelled := True\<rparr>"
  have ok0: "sessions_ok ?w" "st_faults ?w = []" and g0: "repo_get_session nid ?w = repo_get_session nid w" for nid
    using ok nf by (simp_all add: sessions_ok_def sess_def repo_get_session_def)
  obtain x1 w1 where d1: "repo_disconnect_all ?w = (x1, w1)" by (cases "repo_disconnect_all ?w")
  note D1 = disconnect_all_no_fault [OF ok0 d1]
  obtain x2 w2 where d2: "repo_disconnect_all w1 = (x2, w2)" by (cases "repo_disconnect_all w1")
  have ok1: "sessions_ok w1" "st_faults w1 = []" using D1 by simp_all
  note D2 = disconnect_all_no_fault [OF ok1 d2]
  have c1: "logged cloud_stop ?w = (Inr (), w1)" using d1 D1 by (simp add: logged_Inr cloud_stop_def)
  have c2: "logged repo_disconnect_all w1 = (Inr (), w2)" using d2 D2 by (simp add: logged_Inr)
  have c3: "bindM (getsM o_http_open) (\<lambda>h. whenM h (logged round_trip)) w2 = (Inr (), w2)"
    using D2 by (simp add: bind_gets whenM_def logged_def suppress_def catchM_def round_trip_def skipM_def returnM_def)
  have "orch_stop jobs w = modifyM (\<lambda>w. w\<lparr>o_http_open := False\<rparr>) w2"
    unfolding stop_first [OF ns] stop_work_def then_Inr [where m = "await_jobs jobs", OF await_jobs_run]
      then_Inr [where m = "logged cloud_stop", OF c1] then_Inr [where m = "logged repo_disconnect_all", OF c2] by (rule then_Inr [where m = "bindM (getsM o_http_open) (\<lambda>h. whenM h (logged round_trip))", OF c3])
  then have "r = Inr ()" "w' = w2\<lparr>o_http_open := False\<rparr>" using run by (simp_all add: modifyM_def)
  then show ?thesis using D1 D2 g0 by (auto simp: sess_def)
qed

end
