(* ===== verification/Samples.thy ===== *)
theory Samples
  imports Orchestrator_Facts
begin

text \<open>
  A small concrete deployment, at which the witnesses of the properties apply them: three tasks (one
  waiting, one running, one done), three nodes (two enabled, one disabled cloud node), one connected
  free machine and a cloud that answers.
\<close>

definition day0 :: datetime where
  "day0 = \<lparr>dt_year = 2026, dt_month = 1, dt_day = 2, dt_hour = 3, dt_minute = 4, dt_second = 5, dt_micro = 6\<rparr>"

definition sample_engine :: engine where
  "sample_engine = \<lparr>e_name = ''dummy'', e_spawn = ''run'', e_input_files = [''in''], e_output_files = [''out''],
     e_platforms = [''linux''], e_check_cmd = None, e_check_pname = Some ''dummy'', e_deployable = [],
     e_platform_packages = [], e_check_cmd_code = 0, e_sleep_interval = 10\<rparr>"

definition sample_engines :: engine_repository where
  "sample_engines = [(''dummy'', sample_engine)]"

definition sample_row :: "int \<Rightarrow> task_status \<Rightarrow> int option \<Rightarrow> string option \<Rightarrow> task_row" where
  "sample_row i st nd rf = \<lparr>r_task_id = i, r_created_at = day0, r_updated_at = day0, r_title = ''job'',
     r_engine = ''dummy'', r_status = st, r_node = nd, r_local_folder = None, r_remote_folder = rf,
     r_webhook_url = None, r_params = [], r_error = None, r_extra = [(''in'', PStr ''x'')]\<rparr>"

definition sample_node :: "int \<Rightarrow> bool \<Rightarrow> string option \<Rightarrow> node_row" where
  "sample_node i en cl = \<lparr>q_node_id = i, q_created_at = day0, q_updated_at = day0, q_enabled = en,
     q_status = OTHER, q_hostname = ''host'', q_port = 22, q_username = ''root'', q_jump_host = None,
     q_jump_port = 22, q_jump_username = ''root'', q_ncpus = Some 4, q_cloud = cl, q_external_id = None\<rparr>"

definition sample_db :: db where
  "sample_db = \<lparr>d_tasks = [sample_row 1 TO_DO None None, sample_row 2 RUNNING (Some 1) (Some ''/t/2''),
                           sample_row 3 DONE (Some 2) (Some ''/t/3'')],
     d_nodes = [sample_node 1 True None, sample_node 2 True (Some ''hetzner''), sample_node 3 False (Some ''hetzner'')],
     d_next_task = 4, d_next_node = 4, d_now = day0\<rparr>"

definition sample_session :: session where
  "sample_session = \<lparr>ss_hostname = ''host'', ss_machine = \<lparr>m_node_id = NodeId 2, m_platforms = [''linux''],
       m_state = FREE, m_free_since = Some 0\<rparr>, ss_platforms = [''linux''], ss_data_dir = ''/d'',
     ss_engines_dir = ''/d/engines'', ss_tasks_dir = ''/d/tasks'', ss_closed = False, ss_conn_open = True,
     ss_monitor = None, ss_ncpus = Some 4\<rparr>"

definition sample_world :: world where
  "sample_world = \<lparr>st_db = sample_db, st_uow = uow_init, st_faults = [], st_bus = [], st_trace = [],
     w_tracker = [], w_registry = [(NodeId 2, 0)], w_heap = [sample_session], w_clock = 0,
     w_next_monitor = 0, w_net = [], w_remote = [], w_conn = [], w_vms = [], w_creates = [], w_deletes = [],
     w_ops = []\<rparr>"

lemmas sample_defs = sample_world_def sample_db_def sample_node_def sample_row_def sample_session_def

lemma sample_db_wf: "db_wf sample_db"
  by (auto simp: sample_defs db_wf_def task_row_ok_def task_check_def task_widths_def task_fk_def
    node_exists_def node_row_ok_def opt_len_def)

lemma sample_world_simps [simp]:
  "st_db sample_world = sample_db" "st_faults sample_world = []" "st_bus sample_world = []"
  "st_trace sample_world = []" "w_tracker sample_world = []" "w_deletes sample_world = []"
  "w_heap sample_world = [sample_session]" "sess sample_world 0 = sample_session"
  "w_registry sample_world = [(NodeId 2, 0)]"
  by (simp_all add: sample_world_def sess_def)

lemma sample_sessions_ok: "sessions_ok sample_world"
  by (simp add: sessions_ok_def dict_ok_def) (simp add: sample_session_def)

lemma sample_calm: "calm_store sample_world"
  by (simp add: calm_store_def uncancelled_def)

lemma sample_store_wf: "store_wf sample_world"
  by (simp add: store_wf_def sample_db_wf) (simp add: sample_world_def conn_of_def uow_init_def)

definition mk_task :: "int \<Rightarrow> task" where
  "mk_task i = \<lparr>t_task_id = TaskId i, t_engine = ''dummy'', t_state = Todo None, t_created_at = day0,
     t_updated_at = day0, t_label = ''job'', t_local_folder = None, t_webhook_url = None,
     t_webhook_custom_params = [], t_extra = [], t_events = []\<rparr>"

definition mk_running :: "int \<Rightarrow> task" where
  "mk_running i = (mk_task i)\<lparr>t_state := Running (NodeId 1) ''/t/2''\<rparr>"

definition cloud_node :: node where
  "cloud_node = \<lparr>n_node_id = NodeId 2, n_hostname = ''host'', n_ncpus = Some 4, n_created_at = day0,
     n_updated_at = day0, n_username = ''root'', n_port = 22, n_jump_host = None, n_jump_port = 22,
     n_jump_username = ''root'', n_enabled = True, n_status = OTHER, n_cloud = Some ''hetzner'', n_external_id = Some ''vm''\<rparr>"

definition sample_hetzner :: config_cloud where
  "sample_hetzner = CfgHetzner \<lparr>cb_max_nodes = 3, cb_priority = 0, cb_idle_tolerance = 120,
     cb_connect_grace = 120, cb_package_upgrade = False, cb_jump_username = None, cb_jump_host = None,
     cb_jump_port = 22, cb_label = '''', hz_token = ''tok'', hz_username = ''root'', hz_server_type = ''cx51'',
     hz_location = '''', hz_image_name = ''debian-11''\<rparr>"

definition sample_provisioner :: provisioner where
  "sample_provisioner = \<lparr>pv_adapters = [(''hetzner'', get_hetzner_adapter ''hetzner'')],
     pv_configs = [(''hetzner'', sample_hetzner)], pv_remote = remote_defaults0, pv_engines = sample_engines\<rparr>"

definition sample_settings :: local_settings where
  "sample_settings = local_defaults"

lemma sample_settings_ok: "settings_ok sample_settings"
  by (simp add: sample_settings_def local_defaults_def settings_ok_def)

definition sample_orch :: orch where
  "sample_orch = orch_init sample_world"

definition sample_env :: "unit orch_env" where
  "sample_env = daemon_env sample_settings sample_provisioner [sample_hetzner] [sample_hetzner] KeysLoaded
     (\<lambda>_. Inr 4) (\<lambda>_. '''') id"

definition sample_probe :: ssh_probe where
  "sample_probe = \<lparr>pb_pgrep = (\<lambda>_ _. Inr []), pb_run = (\<lambda>_ _. Inr (Some 0))\<rparr>"

lemma sample_orch_simps [simp]:
  "st_db sample_orch = sample_db" "st_faults sample_orch = []" "st_bus sample_orch = []"
  "w_registry sample_orch = [(NodeId 2, 0)]" "w_heap sample_orch = [sample_session]" "sess sample_orch 0 = sample_session"
  "o_stopped sample_orch = False" "o_consuming sample_orch = {}" "o_connect_failures sample_orch = []"
  "o_not_found sample_orch = []" "w_tracker sample_orch = []" "w_clock sample_orch = 0"
  by (simp_all add: sample_orch_def orch_init_def world.extend_def sess_def) (simp_all add: sample_world_def)

lemma sample_orch_sessions: "sessions_ok sample_orch"
  by (simp add: sessions_ok_def dict_ok_def) (simp add: sample_session_def)

lemma oe_settings_sample [simp]: "oe_settings sample_env = sample_settings"
  by (simp add: sample_env_def daemon_env_def)

end
