(* ===== verification/Migrations.thy ===== *)
theory Migrations
  imports Domain_Model "HOL-Library.Char_ord" "HOL-Library.List_Lexorder"
begin

text \<open>
  \<open>infra/persistence/postgres_migrations.py\<close>, \<open>postgres_schema.py\<close>, \<open>db_config.py\<close> and the schema
  step of \<open>entrypoints/cli/init.py\<close>: the forward-only migration runner and the bootstrap of the schema.

  The server holds the tracker table (\<open>None\<close> when it does not exist) and the rest of the schema and data,
  a value of a type \<open>'d\<close> on which the SQL scripts act.  What a script does is the argument \<open>me_exec\<close>;
  the packaged scripts neither open nor close a transaction and leave the tracker alone.  As in
  \<open>Unit_Of_Work\<close>, each round trip takes one entry of the list of faults.  PostgreSQL's transaction rules
  that matter here: a statement that fails aborts the open transaction; in an aborted transaction every
  statement fails, \<open>BEGIN\<close> included, and \<open>COMMIT\<close> rolls back; a \<open>COMMIT\<close> that fails has rolled back and
  leaves no transaction open.
\<close>

section \<open>The server and the connection\<close>

record 'd server =
  g_tracker :: "string list option"
  g_data :: 'd

datatype 'd mconn = NoConn | NoTx | InTxn "'d server" bool

record 'd mig =
  mg_server :: "'d server"
  mg_conn :: "'d mconn"
  mg_faults :: "exn option list"

type_synonym ('d, 'a) mprog = "('d mig, exn, 'a) M"

definition next_fault :: "'d mig \<Rightarrow> exn option \<times> 'd mig" where
  "next_fault s = (case mg_faults s of [] \<Rightarrow> (None, s) | f # fs \<Rightarrow> (f, s\<lparr>mg_faults := fs\<rparr>))"

definition aborted :: "'d mconn \<Rightarrow> 'd mconn" where
  "aborted c = (case c of InTxn v _ \<Rightarrow> InTxn v True | _ \<Rightarrow> c)"

definition tx_aborted :: exn where
  "tx_aborted = DatabaseError ''current transaction is aborted''"

text \<open>\<open>conn.run\<close> of a statement other than transaction control: autocommitted outside a transaction.\<close>

definition mig_run :: "('d server, exn, 'a) M \<Rightarrow> ('d, 'a) mprog" where
  "mig_run q s = (case next_fault s of
       (Some e, s') \<Rightarrow> (Inl e, s'\<lparr>mg_conn := aborted (mg_conn s')\<rparr>)
     | (None, s') \<Rightarrow> (case mg_conn s' of
           NoConn \<Rightarrow> (Inl (OtherError ''connection is closed''), s')
         | NoTx \<Rightarrow> (case q (mg_server s') of
               (Inl e, _) \<Rightarrow> (Inl e, s')
             | (Inr a, v) \<Rightarrow> (Inr a, s'\<lparr>mg_server := v\<rparr>))
         | InTxn v True \<Rightarrow> (Inl tx_aborted, s')
         | InTxn v False \<Rightarrow> (case q v of
               (Inl e, _) \<Rightarrow> (Inl e, s'\<lparr>mg_conn := InTxn v True\<rparr>)
             | (Inr a, v') \<Rightarrow> (Inr a, s'\<lparr>mg_conn := InTxn v' False\<rparr>))))"

definition mig_begin :: "('d, unit) mprog" where
  "mig_begin s = (case next_fault s of
       (Some e, s') \<Rightarrow> (Inl e, s'\<lparr>mg_conn := aborted (mg_conn s')\<rparr>)
     | (None, s') \<Rightarrow> (case mg_conn s' of
           NoConn \<Rightarrow> (Inl (OtherError ''connection is closed''), s')
         | NoTx \<Rightarrow> (Inr (), s'\<lparr>mg_conn := InTxn (mg_server s') False\<rparr>)
         | InTxn v True \<Rightarrow> (Inl tx_aborted, s')
         | InTxn v False \<Rightarrow> (Inr (), s')))"

definition leave_tx :: "'d mconn \<Rightarrow> 'd mconn" where
  "leave_tx c = (case c of NoConn \<Rightarrow> NoConn | _ \<Rightarrow> NoTx)"

definition mig_commit :: "('d, unit) mprog" where
  "mig_commit s = (case next_fault s of
       (Some e, s') \<Rightarrow> (Inl e, s'\<lparr>mg_conn := leave_tx (mg_conn s')\<rparr>)
     | (None, s') \<Rightarrow> (case mg_conn s' of
           NoConn \<Rightarrow> (Inl (OtherError ''connection is closed''), s')
         | NoTx \<Rightarrow> (Inr (), s')
         | InTxn v True \<Rightarrow> (Inr (), s'\<lparr>mg_conn := NoTx\<rparr>)
         | InTxn v False \<Rightarrow> (Inr (), s'\<lparr>mg_server := v, mg_conn := NoTx\<rparr>)))"

definition sql_rollback :: "('d, unit) mprog" where
  "sql_rollback s = (case next_fault s of
       (Some e, s') \<Rightarrow> (Inl e, s')
     | (None, s') \<Rightarrow> (case mg_conn s' of
           NoConn \<Rightarrow> (Inl (OtherError ''connection is closed''), s')
         | _ \<Rightarrow> (Inr (), s'\<lparr>mg_conn := NoTx\<rparr>)))"

text \<open>\<open>Connection(...)\<close> and \<open>close()\<close>; the server discards the transaction of a connection that ends.\<close>

definition mig_connect :: "('d, unit) mprog" where
  "mig_connect s = (case next_fault s of
       (Some e, s') \<Rightarrow> (Inl e, s'\<lparr>mg_conn := NoConn\<rparr>)
     | (None, s') \<Rightarrow> (Inr (), s'\<lparr>mg_conn := NoTx\<rparr>))"

definition mig_close :: "('d, unit) mprog" where
  "mig_close s = (case next_fault s of
       (Some e, s') \<Rightarrow> (Inl e, s'\<lparr>mg_conn := NoConn\<rparr>)
     | (None, s') \<Rightarrow> (Inr (), s'\<lparr>mg_conn := NoConn\<rparr>))"

section \<open>Statements on the tracker\<close>

definition no_such_table :: exn where
  "no_such_table = DatabaseError ''relation does not exist''"

definition sql_to_regclass :: "('d server, exn, bool) M" where
  "sql_to_regclass = getsM (\<lambda>v. g_tracker v \<noteq> None)"

fun greatest :: "string list \<Rightarrow> string option" where
  "greatest [] = None"
| "greatest (i # ids) = (case greatest ids of None \<Rightarrow> Some i | Some j \<Rightarrow> Some (max i j))"

definition sql_max_id :: "('d server, exn, string option) M" where
  "sql_max_id v = (case g_tracker v of None \<Rightarrow> (Inl no_such_table, v) | Some ids \<Rightarrow> (Inr (greatest ids), v))"

definition sql_insert_id :: "string \<Rightarrow> ('d server, exn, unit) M" where
  "sql_insert_id p v = (case g_tracker v of
       None \<Rightarrow> (Inl no_such_table, v)
     | Some ids \<Rightarrow> if p \<in> set ids then (Inl (DatabaseError ''duplicate key value''), v)
                   else (Inr (), v\<lparr>g_tracker := Some (ids @ [p])\<rparr>))"

section \<open>Migration files\<close>

text \<open>A Python migration module: what its load does, the classes \<open>inspect.getmembers\<close> finds in it.\<close>

record 'd py_class =
  pc_is_migration :: bool
  pc_is_base :: bool
  pc_module :: string
  pc_migrate :: "('d mig, exn, unit) M"

record 'd py_module =
  py_load :: "('d mig, exn, unit) M"
  py_name :: string
  py_classes :: "'d py_class list"

record 'd mig_env =
  me_dir :: "string list"
  me_text :: "string \<Rightarrow> exn + string"
  me_exec :: "string \<Rightarrow> 'd \<Rightarrow> exn + 'd"
  me_spec :: "string \<Rightarrow> 'd py_module option"

definition prefix_id :: "string \<Rightarrow> string" where
  "prefix_id name = hd (split_on CHR ''_'' name)"

text \<open>\<open>PurePath.suffix\<close>: from the last dot, unless that is the first or the last character.\<close>

definition path_suffix :: "string \<Rightarrow> string" where
  "path_suffix name =
     (let ext = rev (takeWhile (\<lambda>c. c \<noteq> CHR ''.'') (rev name));
          stem = length name - length ext
      in if 1 < stem \<and> ext \<noteq> [] then CHR ''.'' # ext else [])"

definition scan_migrations :: "'d mig_env \<Rightarrow> string list" where
  "scan_migrations env = sort (filter (ends_with ''.sql'') (me_dir env) @ filter (ends_with ''.py'') (me_dir env))"

definition pending :: "string option \<Rightarrow> string list \<Rightarrow> string list" where
  "pending lst files = (case lst of None \<Rightarrow> files | Some l \<Rightarrow> filter (\<lambda>f. l < prefix_id f) files)"

definition last_applied :: "('d, string option) mprog" where
  "last_applied = catchM (mig_run sql_max_id)
     (\<lambda>e. case e of DatabaseError _ \<Rightarrow> returnM None | _ \<Rightarrow> raiseM e)"

section \<open>The compatibility check\<close>

datatype migration_state = MISSING | EMPTY | CURRENT | BEHIND | AHEAD

record migration_status =
  ms_state :: migration_state
  ms_applied :: "string option"
  ms_required :: string

definition classify :: "string option \<Rightarrow> string \<Rightarrow> migration_status" where
  "classify a required =
     \<lparr>ms_state = (case a of None \<Rightarrow> EMPTY
                  | Some i \<Rightarrow> if i < required then BEHIND else if required < i then AHEAD else CURRENT),
      ms_applied = a, ms_required = required\<rparr>"

definition read_tracker :: "string \<Rightarrow> ('d, migration_status) mprog" where
  "read_tracker required =
     bindM (mig_run sql_to_regclass) (\<lambda>present.
       if \<not> present then returnM \<lparr>ms_state = MISSING, ms_applied = None, ms_required = required\<rparr>
       else bindM (mig_run sql_max_id) (\<lambda>a. returnM (classify a required)))"

definition check_migration_status :: "'d mig_env \<Rightarrow> ('d, migration_status) mprog" where
  "check_migration_status env =
     (let files = scan_migrations env in
      if files = [] then raiseM (RuntimeErr ''no packaged migrations found'')
      else thenM mig_connect (finallyM (read_tracker (prefix_id (last files))) mig_close))"

section \<open>Applying migrations\<close>

definition one_migration_subclass :: "'d py_module \<Rightarrow> exn + 'd py_class" where
  "one_migration_subclass m =
     (case filter (\<lambda>c. pc_is_migration c \<and> \<not> pc_is_base c \<and> pc_module c = py_name m) (py_classes m) of
        [c] \<Rightarrow> Inr c
      | _ \<Rightarrow> Inl (RuntimeErr ''expected exactly one Migration subclass''))"

definition mig_rollback :: "('d, unit) mprog" where
  "mig_rollback = catchM sql_rollback (\<lambda>e. if is_Exception e then skipM else raiseM e)"

definition rollback_and_raise :: "exn \<Rightarrow> ('d, unit) mprog" where
  "rollback_and_raise e = (if is_Exception e then thenM mig_rollback (raiseM e) else raiseM e)"

definition script_of :: "'d mig_env \<Rightarrow> string \<Rightarrow> ('d server, exn, unit) M" where
  "script_of env txt v = (case me_exec env txt (g_data v) of
       Inl e \<Rightarrow> (Inl e, v) | Inr d \<Rightarrow> (Inr (), v\<lparr>g_data := d\<rparr>))"

definition apply_sql_migration :: "'d mig_env \<Rightarrow> string \<Rightarrow> string \<Rightarrow> ('d, unit) mprog" where
  "apply_sql_migration env path p =
     thenM mig_begin
       (catchM
         (bindM (fromSum (me_text env path)) (\<lambda>txt.
            thenM (mig_run (script_of env txt))
           (thenM (mig_run (sql_insert_id p)) mig_commit)))
         rollback_and_raise)"

definition record_py_tracker :: "string \<Rightarrow> ('d, unit) mprog" where
  "record_py_tracker p =
     catchM (thenM (mig_run (sql_insert_id p)) mig_commit)
       (\<lambda>e. case e of
          DatabaseError _ \<Rightarrow> thenM mig_begin (thenM (mig_run (sql_insert_id p)) mig_commit)
        | _ \<Rightarrow> raiseM e)"

definition apply_py_migration :: "'d mig_env \<Rightarrow> string \<Rightarrow> string \<Rightarrow> ('d, unit) mprog" where
  "apply_py_migration env path p =
     (case me_spec env path of
        None \<Rightarrow> raiseM (RuntimeErr ''cannot load migration module'')
      | Some m \<Rightarrow>
          thenM mig_begin
            (catchM
              (thenM (py_load m)
                (bindM (fromSum (one_migration_subclass m)) (\<lambda>k.
                   thenM (pc_migrate k) (record_py_tracker p))))
              rollback_and_raise))"

definition apply_one :: "'d mig_env \<Rightarrow> string \<Rightarrow> ('d, unit) mprog" where
  "apply_one env path =
     (if path_suffix path = ''.sql'' then apply_sql_migration env path (prefix_id path)
      else apply_py_migration env path (prefix_id path))"

definition apply_pending :: "'d mig_env \<Rightarrow> ('d, unit) mprog" where
  "apply_pending env =
     bindM last_applied (\<lambda>lst. forM (pending lst (scan_migrations env)) (apply_one env))"

definition apply_migrations :: "'d mig_env \<Rightarrow> ('d, unit) mprog" where
  "apply_migrations env = thenM mig_connect (finallyM (apply_pending env) mig_close)"

section \<open>The schema and \<open>yainit\<close>\<close>

text \<open>The bootstrap block of \<open>schema.sql\<close>: a database without the nodes table is fresh and starts at the
  newest version.  The rest of the script is a parameter, as are migration scripts.\<close>

record 'd schema =
  sc_has_nodes :: "'d \<Rightarrow> bool"
  sc_tables :: "'d \<Rightarrow> exn + 'd"

definition schema_last_migration :: string where
  "schema_last_migration = ''013''"

definition bootstrap_tracker :: "'d schema \<Rightarrow> 'd server \<Rightarrow> 'd server" where
  "bootstrap_tracker sc v = (case g_tracker v of
       None \<Rightarrow> v\<lparr>g_tracker := Some (if sc_has_nodes sc (g_data v) then [] else [schema_last_migration])\<rparr>
     | Some _ \<Rightarrow> v)"

definition schema_script :: "'d schema \<Rightarrow> ('d server, exn, unit) M" where
  "schema_script sc v = (case sc_tables sc (g_data v) of
       Inl e \<Rightarrow> (Inl e, v) | Inr d \<Rightarrow> (Inr (), (bootstrap_tracker sc v)\<lparr>g_data := d\<rparr>))"

text \<open>Both handlers of \<open>apply_schema\<close> roll back and re-raise; they differ in what they log.\<close>

definition apply_schema :: "'d schema \<Rightarrow> ('d, unit) mprog" where
  "apply_schema sc =
     thenM mig_connect
       (finallyM
         (catchM (thenM mig_begin (thenM (mig_run (schema_script sc)) mig_commit))
           (\<lambda>e. thenM mig_rollback (raiseM e)))
         mig_close)"

text \<open>\<open>_init_schema\<close>: \<open>Inl ()\<close> is \<open>sys.exit(1)\<close> after a database error.\<close>

definition init_schema :: "'d schema \<Rightarrow> 'd mig_env \<Rightarrow> ('d, unit + unit) mprog" where
  "init_schema sc env =
     catchM (thenM (apply_schema sc) (thenM (apply_migrations env) (returnM (Inr ()))))
       (\<lambda>e. case e of DatabaseError _ \<Rightarrow> returnM (Inl ()) | _ \<Rightarrow> raiseM e)"

text \<open>The directory \<open>infra/persistence/sql/migrations\<close>.\<close>

definition packaged_migrations :: "string list" where
  "packaged_migrations =
     [''001_add_username_port.sql'', ''002_add_node_id.sql'', ''003_drop_tmp_node_fake_ip.sql'',
      ''004_add_allocated_node_id.sql'', ''005_serial_to_identity.sql'', ''006_rename_label_to_title.sql'',
      ''007_add_created_updated_at.sql'', ''008_status_to_enum.sql'', ''009_drop_allocated_ip.sql'',
      ''010_extract_metadata_columns.sql'', ''011_task_status_field_check.sql'',
      ''012_node_rename_and_fields.sql'', ''013_ncpus_nullable.sql'']"

end
