(* ===== verification/Migration_Facts.thy ===== *)
theory Migration_Facts
  imports Migrations
begin

text \<open>
  What the migration runner promises.  The specification \<open>migrate_all\<close> is a pure function on the server:
  it runs the scripts one after another and records each.  Whatever fails and whenever, the runner leaves
  the server as \<open>migrate_all\<close> does on some initial part of the pending files, the whole of it when it
  returns; a later run continues where an interrupted one stopped.  This holds for SQL files; two lemmas
  on Python files show why not for those.
\<close>

section \<open>Specification\<close>

definition migrate_one :: "'d mig_env \<Rightarrow> string \<Rightarrow> 'd server \<Rightarrow> 'd server option" where
  "migrate_one env f v = (case (g_tracker v, me_text env f) of
       (Some ids, Inr src) \<Rightarrow> (case me_exec env src (g_data v) of
           Inr d \<Rightarrow> if prefix_id f \<in> set ids then None
                    else Some (v\<lparr>g_data := d, g_tracker := Some (ids @ [prefix_id f])\<rparr>)
         | Inl e \<Rightarrow> None)
     | _ \<Rightarrow> None)"

fun migrate_all :: "'d mig_env \<Rightarrow> string list \<Rightarrow> 'd server \<Rightarrow> 'd server option" where
  "migrate_all env [] v = Some v"
| "migrate_all env (f # fs) v = (case migrate_one env f v of None \<Rightarrow> None | Some v' \<Rightarrow> migrate_all env fs v')"

lemma migrate_all_append:
  "migrate_all env (fs @ gs) v = (case migrate_all env fs v of None \<Rightarrow> None | Some v' \<Rightarrow> migrate_all env gs v')"
  by (induction fs arbitrary: v) (auto split: option.splits)

lemma migrate_one_tracker:
  "migrate_one env f v = Some v' \<Longrightarrow> \<exists>ids. g_tracker v = Some ids \<and> g_tracker v' = Some (ids @ [prefix_id f])"
  by (auto simp: migrate_one_def split: option.splits sum.splits if_splits)

lemma migrate_all_tracker:
  "migrate_all env fs v = Some v' \<Longrightarrow> g_tracker v = Some ids \<Longrightarrow> g_tracker v' = Some (ids @ map prefix_id fs)"
proof (induction fs arbitrary: v ids)
  case (Cons f fs)
  then obtain u where u: "migrate_one env f v = Some u" "migrate_all env fs u = Some v'"
    by (auto split: option.splits)
  with migrate_one_tracker [OF u(1)] Cons.prems(2) have "g_tracker u = Some (ids @ [prefix_id f])"
    by simp
  with Cons.IH [OF u(2)] show ?case by simp
qed simp

section \<open>One SQL file\<close>

text \<open>Inside the runner's transaction nothing reaches the server's committed state.\<close>

lemma next_fault_frame [simp]:
  "mg_server (snd (next_fault s)) = mg_server s" "mg_conn (snd (next_fault s)) = mg_conn s"
  by (simp_all add: next_fault_def split: list.split)

lemma next_fault_eq: "next_fault s = (f, s') \<Longrightarrow> mg_server s' = mg_server s \<and> mg_conn s' = mg_conn s"
  using next_fault_frame [of s] by simp

lemma run_in_tx:
  "triple (\<lambda>s. mg_server s = v0 \<and> mg_conn s = InTxn v False) (mig_run q)
     (\<lambda>a s. mg_server s = v0 \<and> (\<exists>v'. q v = (Inr a, v') \<and> mg_conn s = InTxn v' False))
     (\<lambda>e s. mg_server s = v0)"
  by (rule tripleI) (auto simp: mig_run_def aborted_def dest!: next_fault_eq
        split: prod.splits option.splits sum.splits)

lemma commit_in_tx:
  "triple (\<lambda>s. mg_server s = v0 \<and> mg_conn s = InTxn v False) mig_commit
     (\<lambda>_ s. mg_server s = v \<and> mg_conn s = NoTx) (\<lambda>e s. mg_server s = v0)"
  by (rule tripleI) (auto simp: mig_commit_def dest!: next_fault_eq split: prod.splits option.splits)

lemma begin_idle:
  "triple (\<lambda>s. mg_server s = v0 \<and> mg_conn s = NoTx) mig_begin
     (\<lambda>_ s. mg_server s = v0 \<and> mg_conn s = InTxn v0 False) (\<lambda>e s. mg_server s = v0)"
  by (rule tripleI) (auto simp: mig_begin_def dest!: next_fault_eq split: prod.splits option.splits)

lemma rollback_server: "mg_server (snd (rollback_and_raise e s)) = mg_server s"
  by (auto simp: rollback_and_raise_def mig_rollback_def sql_rollback_def monad_simps dest!: next_fault_eq
      split: prod.splits option.splits mconn.splits)

lemma rollback_raises: "fst (rollback_and_raise e s) \<noteq> Inr ()"
  by (auto simp: rollback_and_raise_def mig_rollback_def monad_simps split: prod.splits sum.splits)

lemma triple_rollback:
  fixes v0 :: "'a server"
  shows "triple (\<lambda>s. mg_server s = v0) (rollback_and_raise e) Q (\<lambda>e s. mg_server s = v0)"
  unfolding triple_def
proof (intro allI impI)
  fix s :: "'a mig" assume "mg_server s = v0"
  then show "case rollback_and_raise e s of (Inl e, s') \<Rightarrow> mg_server s' = v0 | (Inr a, s') \<Rightarrow> Q a s'"
    using rollback_server [of e s] rollback_raises [of e s] by (auto split: prod.split sum.split)
qed

lemma insert_and_commit:
  "triple (\<lambda>s. mg_server s = v0 \<and> mg_conn s = InTxn v False) (thenM (mig_run q) mig_commit)
     (\<lambda>_ s. q v = (Inr (), mg_server s) \<and> mg_conn s = NoTx) (\<lambda>e s. mg_server s = v0)"
  unfolding thenM_def
proof (rule triple_bind [OF run_in_tx])
  fix u :: unit
  show "triple (\<lambda>s. mg_server s = v0 \<and> (\<exists>v'. q v = (Inr u, v') \<and> mg_conn s = InTxn v' False)) mig_commit
     (\<lambda>_ s. q v = (Inr (), mg_server s) \<and> mg_conn s = NoTx) (\<lambda>e s. mg_server s = v0)"
    by (rule tripleI) (auto simp: mig_commit_def dest!: next_fault_eq split: prod.splits option.splits)
qed

lemma sql_script_body:
  assumes src: "me_text env f = Inr src"
  shows "triple (\<lambda>s. mg_server s = v0 \<and> mg_conn s = InTxn v0 False)
      (thenM (mig_run (script_of env src)) (thenM (mig_run (sql_insert_id (prefix_id f))) mig_commit))
      (\<lambda>_ s. migrate_one env f v0 = Some (mg_server s) \<and> mg_conn s = NoTx) (\<lambda>e s. mg_server s = v0)"
  unfolding thenM_def [of "mig_run (script_of env src)"]
proof (rule triple_bind [OF run_in_tx])
  fix u :: unit
  obtain r v1 where q: "script_of env src v0 = (r, v1)" by fastforce
  show "triple (\<lambda>s. mg_server s = v0 \<and> (\<exists>v'. script_of env src v0 = (Inr u, v') \<and> mg_conn s = InTxn v' False))
     (thenM (mig_run (sql_insert_id (prefix_id f))) mig_commit)
     (\<lambda>_ s. migrate_one env f v0 = Some (mg_server s) \<and> mg_conn s = NoTx) (\<lambda>e s. mg_server s = v0)"
  proof (cases r)
    case (Inl e)
    with q show ?thesis by (simp add: triple_def)
  next
    case (Inr x)
    have fin: "migrate_one env f v0 = Some v2" if "sql_insert_id (prefix_id f) v1 = (Inr (), v2)" for v2
      using that q Inr src
      by (auto simp: migrate_one_def script_of_def sql_insert_id_def split: sum.splits option.splits if_splits)
    show ?thesis
      by (rule triple_conseq [OF insert_and_commit [of v0 v1]]) (use q Inr fin in auto)
  qed
qed

lemma sql_file_atomic:
  "triple (\<lambda>s. mg_server s = v0 \<and> mg_conn s = NoTx) (apply_sql_migration env f (prefix_id f))
     (\<lambda>_ s. migrate_one env f v0 = Some (mg_server s) \<and> mg_conn s = NoTx) (\<lambda>e s. mg_server s = v0)"
proof -
  have "triple (\<lambda>s. mg_server s = v0 \<and> mg_conn s = InTxn v0 False)
      (bindM (fromSum (me_text env f)) (\<lambda>src.
         thenM (mig_run (script_of env src)) (thenM (mig_run (sql_insert_id (prefix_id f))) mig_commit)))
      (\<lambda>_ s. migrate_one env f v0 = Some (mg_server s) \<and> mg_conn s = NoTx) (\<lambda>e s. mg_server s = v0)"
  proof (cases "me_text env f")
    case (Inl e)
    then show ?thesis by (simp add: bindM_fromSum triple_def raiseM_def)
  next
    case (Inr src)
    then show ?thesis using sql_script_body [OF Inr] by (simp add: bindM_fromSum)
  qed
  then show ?thesis
    unfolding apply_sql_migration_def thenM_def [of mig_begin]
    by (intro triple_bind [OF begin_idle] triple_catch [OF _ triple_rollback])
qed

section \<open>A whole run\<close>

lemma apply_one_sql: "path_suffix f = ''.sql'' \<Longrightarrow> apply_one env f = apply_sql_migration env f (prefix_id f)"
  by (simp add: apply_one_def)

lemma files_prefix:
  assumes "\<forall>f \<in> set fs. path_suffix f = ''.sql''" "mg_conn s = NoTx" "forM fs (apply_one env) s = (r, s')"
  shows "\<exists>k \<le> length fs. migrate_all env (take k fs) (mg_server s) = Some (mg_server s') \<and> (r = Inr () \<longrightarrow> k = length fs)"
  using assms
proof (induction fs arbitrary: s)
  case Nil
  then show ?case by (simp add: monad_simps)
next
  case (Cons f fs)
  obtain r1 s1 where s1: "apply_one env f s = (r1, s1)" by fastforce
  with Cons.prems have pre: "apply_sql_migration env f (prefix_id f) s = (r1, s1)" by (simp add: apply_one_sql)
  show ?case
  proof (cases r1)
    case (Inl e)
    with Cons.prems s1 have "r = Inl e \<and> s' = s1" by (simp add: monad_simps)
    moreover have "mg_server s1 = mg_server s"
      using tripleD_Inl [OF sql_file_atomic, of s "mg_server s" env f] pre Inl Cons.prems(2) by simp
    ultimately show ?thesis by (intro exI [of _ 0]) simp
  next
    case (Inr u)
    with Cons.prems s1 have rest: "forM fs (apply_one env) s1 = (r, s')" by (simp add: monad_simps)
    have one: "migrate_one env f (mg_server s) = Some (mg_server s1) \<and> mg_conn s1 = NoTx"
      using tripleD_Inr [OF sql_file_atomic, of s "mg_server s" env f] pre Inr Cons.prems(2) by simp
    with Cons.IH [OF _ _ rest] Cons.prems(1) obtain k where
      "k \<le> length fs" "migrate_all env (take k fs) (mg_server s1) = Some (mg_server s')" "r = Inr () \<longrightarrow> k = length fs"
      by auto
    with one show ?thesis by (intro exI [of _ "Suc k"]) simp
  qed
qed

text \<open>The pending files are fixed once, by what the tracker answers after the connection was opened.\<close>

definition migration_plan :: "'d mig_env \<Rightarrow> 'd mig \<Rightarrow> string list" where
  "migration_plan env w = (case fst (thenM mig_connect last_applied w) of
       Inr lst \<Rightarrow> pending lst (scan_migrations env) | Inl _ \<Rightarrow> [])"

lemma connect_outcome: "mig_connect w = (r, w') \<Longrightarrow> mg_server w' = mg_server w \<and> (r = Inr () \<longrightarrow> mg_conn w' = NoTx)
   \<and> (\<forall>e. r = Inl e \<longrightarrow> mg_conn w' = NoConn)"
  by (auto simp: mig_connect_def dest!: next_fault_eq split: prod.splits option.splits)

lemma close_outcome: "mig_close w = (r, w') \<Longrightarrow> mg_server w' = mg_server w \<and> mg_conn w' = NoConn
    \<and> (mg_faults w = [] \<longrightarrow> r = Inr ())"
  by (auto simp: mig_close_def next_fault_def split: list.splits option.splits)

lemma last_applied_outcome:
  assumes "mg_conn w = NoTx" "last_applied w = (r, w')"
  shows "mg_server w' = mg_server w \<and> mg_conn w' = NoTx
    \<and> (\<forall>lst. r = Inr lst \<longrightarrow> lst = None \<or> (\<exists>ids. g_tracker (mg_server w) = Some ids \<and> lst = greatest ids))"
  using assms
  by (auto simp: last_applied_def mig_run_def sql_max_id_def aborted_def no_such_table_def monad_simps
      dest!: next_fault_eq split: prod.splits option.splits sum.splits exn.splits)

lemma finally_close: "finallyM m mig_close w = (r, w') \<Longrightarrow>
   \<exists>r1 w1. m w = (r1, w1) \<and> mg_server w' = mg_server w1 \<and> mg_conn w' = NoConn \<and> (r = r1 \<or> (\<exists>e. r = Inl e))
     \<and> (mg_faults w1 = [] \<longrightarrow> r = r1)"
  by (auto simp: finallyM_def dest!: close_outcome split: prod.splits sum.splits)

lemma apply_migrations_outcome:
  assumes sql: "\<forall>f \<in> set (migration_plan env w). path_suffix f = ''.sql''" and run: "apply_migrations env w = (r, w')"
  shows "mg_conn w' = NoConn
    \<and> (\<exists>k \<le> length (migration_plan env w). migrate_all env (take k (migration_plan env w)) (mg_server w) = Some (mg_server w')
        \<and> (r = Inr () \<longrightarrow> k = length (migration_plan env w)))"
proof -
  obtain c w0 where c: "mig_connect w = (c, w0)" by fastforce
  show ?thesis
  proof (cases c)
    case (Inl e)
    with c run connect_outcome [OF c] show ?thesis
      by (intro conjI exI [of _ 0]) (auto simp: apply_migrations_def monad_simps)
  next
    case (Inr u)
    with c run have "finallyM (apply_pending env) mig_close w0 = (r, w')"
      by (simp add: apply_migrations_def monad_simps)
    from finally_close [OF this] obtain r1 w1 where fin: "apply_pending env w0 = (r1, w1)"
      "mg_server w' = mg_server w1" "mg_conn w' = NoConn" "r = r1 \<or> (\<exists>e. r = Inl e)" by blast
    obtain l w2 where l: "last_applied w0 = (l, w2)" by fastforce
    note w2 = last_applied_outcome [OF _ l] and w0 = connect_outcome [OF c]
    show ?thesis
    proof (cases l)
      case (Inl e)
      with l fin Inr w0 w2 show ?thesis
        by (intro conjI exI [of _ 0]) (auto simp: apply_pending_def monad_simps)
    next
      case (Inr lst)
      have plan: "migration_plan env w = pending lst (scan_migrations env)"
        using c l Inr \<open>c = Inr u\<close> by (simp add: migration_plan_def monad_simps)
      have "forM (migration_plan env w) (apply_one env) w2 = (r1, w1)"
        using fin(1) l Inr plan by (simp add: apply_pending_def monad_simps)
      from files_prefix [OF sql _ this] w2 w0 \<open>c = Inr u\<close> fin show ?thesis by auto
    qed
  qed
qed

section \<open>Order of the files\<close>

definition prefixes_ordered :: "string list \<Rightarrow> bool" where
  "prefixes_ordered fs \<longleftrightarrow> sorted_wrt (\<lambda>f g. prefix_id f < prefix_id g) fs"

lemma prefixes_ordered_code [code]:
  "prefixes_ordered [] \<longleftrightarrow> True"
  "prefixes_ordered (f # fs) \<longleftrightarrow> (\<forall>g \<in> set fs. prefix_id f < prefix_id g) \<and> prefixes_ordered fs"
  by (simp_all add: prefixes_ordered_def)

lemma greatest_None [simp]: "greatest ids = None \<longleftrightarrow> ids = []"
  by (cases ids) (simp_all split: option.split)

lemma greatest_above: "greatest ids = Some m \<Longrightarrow> (\<forall>i \<in> set ids. i < x) \<longleftrightarrow> m < x"
proof (induction ids arbitrary: m)
  case (Cons i ids)
  then show ?case by (cases "greatest ids") (auto simp: max_def split: if_splits)
qed simp

lemma greatest_mem: "greatest ids = Some m \<Longrightarrow> m \<in> set ids \<and> (\<forall>i \<in> set ids. i \<le> m)"
proof (induction ids arbitrary: m)
  case (Cons i ids)
  then show ?case by (cases "greatest ids") (auto simp: max_def split: if_splits)
qed simp

lemma greatest_eqI: "m \<in> set ids \<Longrightarrow> \<forall>i \<in> set ids. i \<le> m \<Longrightarrow> greatest ids = Some m"
  using greatest_mem [of ids] by (cases "greatest ids") (auto intro: order_antisym)

lemma pending_greatest: "pending (greatest ids) fs = filter (\<lambda>f. \<forall>i \<in> set ids. i < prefix_id f) fs"
  by (cases "greatest ids") (simp_all add: pending_def greatest_above)

lemma pending_rest:
  assumes "prefixes_ordered fs"
  shows "filter (\<lambda>f. \<forall>g \<in> set (take k fs). prefix_id g < prefix_id f) fs = drop k fs"
proof -
  let ?P = "\<lambda>f. \<forall>g \<in> set (take k fs). prefix_id g < prefix_id f"
  have "sorted_wrt (\<lambda>f g. prefix_id f < prefix_id g) (take k fs @ drop k fs)"
    using assms by (simp only: prefixes_ordered_def append_take_drop_id)
  then have "\<forall>f \<in> set (drop k fs). ?P f" by (simp only: sorted_wrt_append) blast
  then have "filter ?P (drop k fs) = drop k fs" by (simp only: filter_id_conv)
  moreover have "filter ?P (take k fs) = []"
    by (auto simp: filter_empty_conv)
  ultimately have "filter ?P (take k fs @ drop k fs) = drop k fs" by (simp only: filter_append append_Nil)
  then show ?thesis by (simp only: append_take_drop_id)
qed

lemma pending_ordered: "prefixes_ordered fs \<Longrightarrow> prefixes_ordered (pending lst fs)"
  by (cases lst) (simp_all add: prefixes_ordered_def pending_def sorted_wrt_filter)

text \<open>After the first \<open>k\<close> pending files were recorded, the pending files are the remaining ones.\<close>

lemma pending_resume:
  assumes "prefixes_ordered fs" and p: "p = pending (greatest ids) fs"
  shows "pending (greatest (ids @ map prefix_id (take k p))) fs = drop k p"
proof -
  have "pending (greatest (ids @ map prefix_id (take k p))) fs
      = filter (\<lambda>f. \<forall>g \<in> set (take k p). prefix_id g < prefix_id f) p"
    unfolding pending_greatest p filter_filter by (rule filter_cong) auto
  also have "\<dots> = drop k p"
    unfolding p by (rule pending_rest) (rule pending_ordered [OF assms(1)])
  finally show ?thesis .
qed

lemma last_prefix: "prefixes_ordered fs \<Longrightarrow> f \<in> set fs \<Longrightarrow> prefix_id f \<le> prefix_id (last fs)"
  by (induction fs) (auto simp: prefixes_ordered_def intro: less_imp_le)

lemma packaged_ordered: "prefixes_ordered packaged_migrations"
  by code_simp

lemma packaged_sql: "\<forall>f \<in> set packaged_migrations. path_suffix f = ''.sql''"
  by code_simp

lemma packaged_sorted: "sort (filter (ends_with ''.sql'') packaged_migrations @ filter (ends_with ''.py'') packaged_migrations)
    = packaged_migrations"
  by code_simp

section \<open>Reading the tracker\<close>

definition reads_ok :: "'d mig \<Rightarrow> bool" where
  "reads_ok w \<longleftrightarrow> list_all (\<lambda>f. f = None) (take 2 (mg_faults w))"

lemma plan_cases:
  assumes "g_tracker (mg_server w) = Some ids" "migration_plan env w \<noteq> []"
  shows "migration_plan env w = scan_migrations env \<or> migration_plan env w = pending (greatest ids) (scan_migrations env)"
proof -
  obtain c w0 where c: "mig_connect w = (c, w0)" by fastforce
  obtain l w2 where l: "last_applied w0 = (l, w2)" by fastforce
  note outs = connect_outcome [OF c] last_applied_outcome [OF _ l]
  show ?thesis
    using assms c l outs by (cases c; cases l) (auto simp: migration_plan_def monad_simps pending_def)
qed

lemma plan_reads_ok:
  assumes "reads_ok w" "g_tracker (mg_server w) = Some ids"
  shows "migration_plan env w = pending (greatest ids) (scan_migrations env)"
  using assms
  by (cases "mg_faults w"; cases "tl (mg_faults w)")
    (simp_all add: reads_ok_def migration_plan_def mig_connect_def next_fault_def last_applied_def
      mig_run_def sql_max_id_def monad_simps)

lemma plan_read_failed:
  assumes "mg_faults w = None # Some (DatabaseError m) # fs"
  shows "migration_plan env w = scan_migrations env"
  using assms
  by (simp add: migration_plan_def mig_connect_def next_fault_def last_applied_def mig_run_def aborted_def
      monad_simps pending_def)

section \<open>Interrupted runs\<close>

lemma resumed_run:
  assumes ord: "prefixes_ordered (scan_migrations env)"
    and sql: "\<forall>f \<in> set (scan_migrations env). path_suffix f = ''.sql''"
    and ids: "g_tracker (mg_server w) = Some ids"
    and reads: "reads_ok w" "reads_ok (w1\<lparr>mg_faults := fs\<rparr>)"
    and run1: "apply_migrations env w = (r1, w1)"
    and run2: "apply_migrations env (w1\<lparr>mg_faults := fs\<rparr>) = (Inr (), w2)"
  shows "migrate_all env (pending (greatest ids) (scan_migrations env)) (mg_server w) = Some (mg_server w2)"
proof -
  let ?p = "pending (greatest ids) (scan_migrations env)"
  have sub: "\<forall>f \<in> set (pending l (scan_migrations env)). path_suffix f = ''.sql''" for l
    using sql by (auto simp: pending_def split: option.splits)
  obtain k where k: "migrate_all env (take k ?p) (mg_server w) = Some (mg_server w1)"
    using apply_migrations_outcome [OF _ run1] sub [of "greatest ids"] by (auto simp: plan_reads_ok [OF reads(1) ids])
  have t1: "g_tracker (mg_server (w1\<lparr>mg_faults := fs\<rparr>)) = Some (ids @ map prefix_id (take k ?p))"
    using migrate_all_tracker [OF k ids] by simp
  have plan2: "migration_plan env (w1\<lparr>mg_faults := fs\<rparr>) = drop k ?p"
    using plan_reads_ok [OF reads(2) t1] pending_resume [OF ord refl] by simp
  have "\<forall>f \<in> set (drop k ?p). path_suffix f = ''.sql''"
    using sub [of "greatest ids"] by (auto dest: in_set_dropD)
  with apply_migrations_outcome [OF _ run2] plan2
  have "migrate_all env (drop k ?p) (mg_server w1) = Some (mg_server w2)" by auto
  with k have "migrate_all env (take k ?p @ drop k ?p) (mg_server w) = Some (mg_server w2)"
    by (simp add: migrate_all_append del: append_take_drop_id)
  then show ?thesis by simp
qed

section \<open>The compatibility check\<close>

definition status_of :: "'d server \<Rightarrow> string \<Rightarrow> migration_status" where
  "status_of v required = (case g_tracker v of
       None \<Rightarrow> \<lparr>ms_state = MISSING, ms_applied = None, ms_required = required\<rparr>
     | Some ids \<Rightarrow> classify (greatest ids) required)"

lemma read_tracker_outcome:
  assumes "mg_conn w = NoTx" "read_tracker req w = (r, w')"
  shows "mg_server w' = mg_server w \<and> (\<forall>st. r = Inr st \<longrightarrow> st = status_of (mg_server w) req)
    \<and> (mg_faults w = [] \<longrightarrow> r = Inr (status_of (mg_server w) req) \<and> mg_faults w' = [])"
proof -
  have step: "\<exists>w0. mg_run sql_to_regclass w = (fst (mg_run sql_to_regclass w), w0)" by (metis prod.collapse)
  show ?thesis
    using assms
    by (cases "g_tracker (mg_server w)"; cases "mg_faults w"; cases "hd (mg_faults w)";
        cases "tl (mg_faults w)"; cases "hd (tl (mg_faults w))")
      (auto simp: read_tracker_def mig_run_def next_fault_def sql_to_regclass_def sql_max_id_def status_of_def
        aborted_def monad_simps)
qed

lemma check_status_outcome:
  assumes "check_migration_status env w = (r, w')"
  shows "mg_server w' = mg_server w
    \<and> (\<forall>st. r = Inr st \<longrightarrow> scan_migrations env \<noteq> [] \<and> st = status_of (mg_server w) (prefix_id (last (scan_migrations env))))
    \<and> (mg_faults w = [] \<and> scan_migrations env \<noteq> []
        \<longrightarrow> r = Inr (status_of (mg_server w) (prefix_id (last (scan_migrations env)))))"
proof (cases "scan_migrations env = []")
  case True
  then show ?thesis using assms by (auto simp: check_migration_status_def monad_simps)
next
  case False
  let ?req = "prefix_id (last (scan_migrations env))"
  obtain c w0 where c: "mig_connect w = (c, w0)" by fastforce
  have calm: "mg_faults w = [] \<longrightarrow> c = Inr () \<and> mg_faults w0 = []"
    using c by (auto simp: mig_connect_def next_fault_def)
  show ?thesis
  proof (cases c)
    case (Inl e)
    then show ?thesis using assms False c connect_outcome [OF c] calm
      by (auto simp: check_migration_status_def Let_def monad_simps)
  next
    case (Inr u)
    then have "finallyM (read_tracker ?req) mig_close w0 = (r, w')"
      using assms False c by (simp add: check_migration_status_def Let_def monad_simps)
    from finally_close [OF this] obtain r1 w1 where fin: "read_tracker ?req w0 = (r1, w1)" "mg_server w' = mg_server w1"
        "r = r1 \<or> (\<exists>e. r = Inl e)" "mg_faults w1 = [] \<longrightarrow> r = r1" by blast
    let ?S = "status_of (mg_server w) ?req"
    have w0: "mg_server w0 = mg_server w" "mg_conn w0 = NoTx" using connect_outcome [OF c] Inr by simp_all
    have read: "mg_server w1 = mg_server w" "\<forall>st. r1 = Inr st \<longrightarrow> st = ?S" "mg_faults w0 = [] \<longrightarrow> r1 = Inr ?S \<and> mg_faults w1 = []"
      using read_tracker_outcome [OF w0(2) fin(1)] unfolding w0 by blast+
    have "\<forall>st. r = Inr st \<longrightarrow> st = ?S" using fin(3) read(2) by (elim disjE exE) simp_all
    moreover have "mg_faults w = [] \<longrightarrow> r = Inr ?S" using calm read(3) fin(4) by simp
    moreover have "mg_server w' = mg_server w" using fin(2) read(1) by simp
    ultimately show ?thesis using False by blast
  qed
qed

lemma check_status_calm:
  assumes "mg_faults w = []" "scan_migrations env \<noteq> []"
  shows "fst (check_migration_status env w) = Inr (status_of (mg_server w) (prefix_id (last (scan_migrations env))))"
  using check_status_outcome [OF prod.collapse [symmetric], of env w] assms by blast

lemma successful_plan:
  assumes run: "apply_migrations env w = (Inr (), w')" and ids: "g_tracker (mg_server w) = Some ids"
  shows "\<exists>l. migration_plan env w = pending l (scan_migrations env) \<and> (l = None \<or> l = greatest ids)"
proof -
  obtain c w0 where c: "mig_connect w = (c, w0)" by fastforce
  obtain l w2 where l: "last_applied w0 = (l, w2)" by fastforce
  from run c obtain u where u: "c = Inr u" by (cases c) (auto simp: apply_migrations_def monad_simps)
  with run c have "finallyM (apply_pending env) mig_close w0 = (Inr (), w')"
    by (simp add: apply_migrations_def monad_simps)
  from finally_close [OF this] obtain w1 where "apply_pending env w0 = (Inr (), w1)" by auto
  with l obtain x where x: "l = Inr x" by (cases l) (auto simp: apply_pending_def monad_simps)
  from c u l x have "migration_plan env w = pending x (scan_migrations env)"
    by (simp add: migration_plan_def monad_simps)
  moreover have "x = None \<or> x = greatest ids"
    using last_applied_outcome [OF _ l] connect_outcome [OF c] u x ids by auto
  ultimately show ?thesis by blast
qed

text \<open>A run that returns leaves the tracker at the newest packaged version.\<close>

definition at_most :: "string \<Rightarrow> string list \<Rightarrow> bool" where
  "at_most m ids \<longleftrightarrow> list_all (\<lambda>i. i \<le> m) ids"

lemma applied_is_current:
  assumes ord: "prefixes_ordered (scan_migrations env)" and ne: "scan_migrations env \<noteq> []"
    and sql: "\<forall>f \<in> set (scan_migrations env). path_suffix f = ''.sql''"
    and ids: "g_tracker (mg_server w) = Some ids" "at_most (prefix_id (last (scan_migrations env))) ids"
    and run: "apply_migrations env w = (Inr (), w')"
  shows "status_of (mg_server w') (prefix_id (last (scan_migrations env)))
      = \<lparr>ms_state = CURRENT, ms_applied = Some (prefix_id (last (scan_migrations env))),
         ms_required = prefix_id (last (scan_migrations env))\<rparr>"
proof -
  let ?fs = "scan_migrations env" and ?p = "migration_plan env w"
  let ?m = "prefix_id (last ?fs)"
  have "set ?p \<subseteq> set ?fs"
    by (auto simp: migration_plan_def pending_def split: sum.splits option.splits)
  with sql apply_migrations_outcome [OF _ run]
  have all: "migrate_all env ?p (mg_server w) = Some (mg_server w')" by auto
  have t: "g_tracker (mg_server w') = Some (ids @ map prefix_id ?p)"
    by (rule migrate_all_tracker [OF all ids(1)])
  have le: "\<forall>i \<in> set (ids @ map prefix_id ?p). i \<le> ?m"
    using ids(2) \<open>set ?p \<subseteq> set ?fs\<close> last_prefix [OF ord] by (auto simp: at_most_def list_all_iff)
  have "?m \<in> set (ids @ map prefix_id ?p)"
  proof (rule ccontr)
    assume "?m \<notin> set (ids @ map prefix_id ?p)"
    then have out: "?m \<notin> set ids" "last ?fs \<notin> set ?p" by auto
    from out(1) ids(2) have "\<forall>i \<in> set ids. i < ?m"
      by (auto simp: at_most_def list_all_iff less_le)
    with ne have "last ?fs \<in> set (pending (greatest ids) ?fs)" by (simp add: pending_greatest)
    moreover from successful_plan [OF run ids(1)]
    have "\<exists>l. ?p = pending l ?fs \<and> (l = None \<or> l = greatest ids)" by blast
    ultimately show False using out(2) ne by (auto simp: pending_def)
  qed
  from greatest_eqI [OF this le] show ?thesis by (simp add: status_of_def t classify_def)
qed

section \<open>Runs without faults\<close>

lemma next_fault_Nil [simp]: "mg_faults s = [] \<Longrightarrow> next_fault s = (None, s)"
  by (simp add: next_fault_def)

lemmas mig_eval = mig_run_def mig_begin_def mig_commit_def mig_connect_def mig_close_def monad_simps

lemma sql_file_runs:
  assumes "mg_conn s = NoTx" "mg_faults s = []" "migrate_one env f (mg_server s) = Some v"
  shows "apply_sql_migration env f (prefix_id f) s = (Inr (), s\<lparr>mg_server := v\<rparr>)"
  using assms
  by (auto simp: migrate_one_def apply_sql_migration_def script_of_def sql_insert_id_def mig_eval
      split: option.splits sum.splits if_splits)

lemma files_run:
  assumes "mg_conn s = NoTx" "mg_faults s = []" "\<forall>f \<in> set fs. path_suffix f = ''.sql''"
    "migrate_all env fs (mg_server s) = Some v"
  shows "forM fs (apply_one env) s = (Inr (), s\<lparr>mg_server := v\<rparr>)"
  using assms
proof (induction fs arbitrary: s)
  case (Cons f fs)
  then obtain u where u: "migrate_one env f (mg_server s) = Some u" "migrate_all env fs u = Some v"
    by (auto split: option.splits)
  from sql_file_runs [OF Cons.prems(1,2) u(1)] Cons.prems(3)
  have "apply_one env f s = (Inr (), s\<lparr>mg_server := u\<rparr>)" by (simp add: apply_one_sql)
  moreover have "forM fs (apply_one env) (s\<lparr>mg_server := u\<rparr>) = (Inr (), s\<lparr>mg_server := v\<rparr>)"
    using Cons.IH [of "s\<lparr>mg_server := u\<rparr>"] Cons.prems u by simp
  ultimately show ?case by (simp add: monad_simps)
qed (simp add: monad_simps)

lemma migrations_run:
  assumes "mg_faults w = []" "g_tracker (mg_server w) = Some ids"
    "\<forall>f \<in> set (scan_migrations env). path_suffix f = ''.sql''"
    "migrate_all env (pending (greatest ids) (scan_migrations env)) (mg_server w) = Some v"
  shows "apply_migrations env w = (Inr (), w\<lparr>mg_server := v, mg_conn := NoConn\<rparr>)"
proof -
  have "forM (pending (greatest ids) (scan_migrations env)) (apply_one env) (w\<lparr>mg_conn := NoTx\<rparr>)
      = (Inr (), w\<lparr>mg_conn := NoTx, mg_server := v\<rparr>)"
    using files_run [of "w\<lparr>mg_conn := NoTx\<rparr>"] assms by (auto simp: pending_def split: option.splits)
  then show ?thesis
    using assms(1,2) by (simp add: apply_migrations_def apply_pending_def last_applied_def sql_max_id_def mig_eval)
qed

text \<open>A database error while the tracker is read is taken for a missing tracker: every file is applied,
  the recorded ones too.\<close>

lemma read_error_restarts:
  assumes "mg_faults w = [None, Some (DatabaseError m)]"
    "\<forall>f \<in> set (scan_migrations env). path_suffix f = ''.sql''"
    "migrate_all env (scan_migrations env) (mg_server w) = Some v"
  shows "apply_migrations env w = (Inr (), w\<lparr>mg_server := v, mg_conn := NoConn, mg_faults := []\<rparr>)"
proof -
  have "forM (scan_migrations env) (apply_one env) (w\<lparr>mg_faults := [], mg_conn := NoTx\<rparr>)
      = (Inr (), w\<lparr>mg_faults := [], mg_conn := NoTx, mg_server := v\<rparr>)"
    using files_run [of "w\<lparr>mg_faults := [], mg_conn := NoTx\<rparr>"] assms by simp
  then show ?thesis
    using assms(1) by (simp add: apply_migrations_def apply_pending_def last_applied_def aborted_def
        pending_def next_fault_def mig_eval)
qed

section \<open>Schema and \<open>yainit\<close>\<close>

lemma triple_rollback_raise:
  fixes v0 :: "'a server"
  shows "triple (\<lambda>s. mg_server s = v0) (\<lambda>s. thenM mig_rollback (raiseM e) s) Q (\<lambda>_ s. mg_server s = v0)"
  unfolding triple_def
proof (intro allI impI)
  fix s :: "'a mig" assume "mg_server s = v0"
  then show "case thenM mig_rollback (raiseM e) s of (Inl e, s') \<Rightarrow> mg_server s' = v0 | (Inr a, s') \<Rightarrow> Q a s'"
    by (auto simp: mig_rollback_def sql_rollback_def monad_simps dest!: next_fault_eq
        split: prod.splits sum.splits option.splits mconn.splits)
qed

lemma schema_atomic:
  "triple (\<lambda>s. mg_server s = v0 \<and> mg_conn s = NoTx)
     (catchM (thenM mig_begin (thenM (mig_run (schema_script sc)) mig_commit)) (\<lambda>e. thenM mig_rollback (raiseM e)))
     (\<lambda>_ s. schema_script sc v0 = (Inr (), mg_server s)) (\<lambda>e s. mg_server s = v0)"
proof (rule triple_catch [OF _ triple_rollback_raise])
  show "triple (\<lambda>s. mg_server s = v0 \<and> mg_conn s = NoTx) (thenM mig_begin (thenM (mig_run (schema_script sc)) mig_commit))
     (\<lambda>_ s. schema_script sc v0 = (Inr (), mg_server s)) (\<lambda>e s. mg_server s = v0)"
    unfolding thenM_def [of mig_begin]
    by (rule triple_bind [OF begin_idle]) (rule triple_conseq [OF insert_and_commit], auto)
qed

lemma apply_schema_outcome:
  assumes run: "apply_schema sc w = (r, w')"
  shows "mg_conn w' = NoConn \<and> (mg_server w' = mg_server w \<or> schema_script sc (mg_server w) = (Inr (), mg_server w'))
    \<and> (r = Inr () \<longrightarrow> schema_script sc (mg_server w) = (Inr (), mg_server w'))"
proof -
  let ?body = "catchM (thenM mig_begin (thenM (mig_run (schema_script sc)) mig_commit)) (\<lambda>e. thenM mig_rollback (raiseM e))"
  obtain c w0 where c: "mig_connect w = (c, w0)" by fastforce
  show ?thesis
  proof (cases c)
    case (Inl e)
    with c run connect_outcome [OF c] show ?thesis by (auto simp: apply_schema_def monad_simps)
  next
    case (Inr u)
    then have w0: "mg_server w0 = mg_server w \<and> mg_conn w0 = NoTx" using connect_outcome [OF c] by simp
    from Inr c run have "finallyM ?body mig_close w0 = (r, w')"
      unfolding apply_schema_def by (simp add: thenM_def bindM_def)
    from finally_close [OF this] obtain r1 w1 where fin: "?body w0 = (r1, w1)" "mg_server w' = mg_server w1"
      "mg_conn w' = NoConn" "r = r1 \<or> (\<exists>e. r = Inl e)" by blast
    show ?thesis
    proof (cases r1)
      case (Inl e)
      with tripleD_Inl [OF schema_atomic w0] fin show ?thesis by auto
    next
      case (Inr v)
      with tripleD_Inr [OF schema_atomic w0] fin show ?thesis by auto
    qed
  qed
qed

lemma init_parts:
  assumes "init_schema sc env w = (Inr (Inr ()), w')"
  obtains w1 where "apply_schema sc w = (Inr (), w1)" "apply_migrations env w1 = (Inr (), w')"
  using assms
  by (auto simp: init_schema_def monad_simps split: prod.splits sum.splits exn.splits)

lemma schema_tracker:
  assumes "schema_script sc v = (Inr (), v')"
    and "g_tracker v = None \<or> g_tracker v = Some ids \<and> at_most schema_last_migration ids"
  shows "\<exists>js. g_tracker v' = Some js \<and> at_most schema_last_migration js"
proof -
  obtain d where "v' = (bootstrap_tracker sc v)\<lparr>g_data := d\<rparr>"
    using assms(1) by (auto simp: schema_script_def split: sum.splits)
  with assms(2) show ?thesis by (auto simp: bootstrap_tracker_def at_most_def)
qed

text \<open>Whatever state the database was in, a \<open>yainit\<close> that succeeds leaves it at the newest version.\<close>

lemma init_current:
  assumes ord: "prefixes_ordered (scan_migrations env)" and ne: "scan_migrations env \<noteq> []"
    and sql: "\<forall>f \<in> set (scan_migrations env). path_suffix f = ''.sql''"
    and seed: "prefix_id (last (scan_migrations env)) = schema_last_migration"
    and old: "g_tracker (mg_server w) = None \<or> g_tracker (mg_server w) = Some ids \<and> at_most schema_last_migration ids"
    and run: "init_schema sc env w = (Inr (Inr ()), w')"
  shows "status_of (mg_server w') schema_last_migration
      = \<lparr>ms_state = CURRENT, ms_applied = Some schema_last_migration, ms_required = schema_last_migration\<rparr>"
proof -
  from init_parts [OF run] obtain w1 where w1: "apply_schema sc w = (Inr (), w1)" "apply_migrations env w1 = (Inr (), w')" .
  from apply_schema_outcome [OF w1(1)] have sch: "schema_script sc (mg_server w) = (Inr (), mg_server w1)" by simp
  obtain js where js: "g_tracker (mg_server w1) = Some js" "at_most schema_last_migration js"
    using schema_tracker [OF sch old] by blast
  from applied_is_current [OF ord ne sql js(1) _ w1(2)] js(2) seed show ?thesis by simp
qed

lemma schema_runs:
  assumes "mg_faults w = []" "schema_script sc (mg_server w) = (Inr (), v)"
  shows "apply_schema sc w = (Inr (), w\<lparr>mg_server := v, mg_conn := NoConn\<rparr>)"
  using assms by (simp add: apply_schema_def mig_eval)

lemma init_runs:
  assumes "mg_faults w = []" "schema_script sc (mg_server w) = (Inr (), u)" "g_tracker u = Some ids"
    "\<forall>f \<in> set (scan_migrations env). path_suffix f = ''.sql''"
    "migrate_all env (pending (greatest ids) (scan_migrations env)) u = Some v"
  shows "init_schema sc env w = (Inr (Inr ()), w\<lparr>mg_server := v, mg_conn := NoConn\<rparr>)"
proof -
  have "apply_migrations env (w\<lparr>mg_server := u, mg_conn := NoConn\<rparr>) = (Inr (), w\<lparr>mg_server := v, mg_conn := NoConn\<rparr>)"
    using migrations_run [of "w\<lparr>mg_server := u, mg_conn := NoConn\<rparr>" ids env v] assms by simp
  then show ?thesis
    using schema_runs [OF assms(1,2)] by (simp add: init_schema_def monad_simps)
qed

text \<open>A fresh database gets the schema and no migration, a legacy one every migration.\<close>

lemma init_fresh:
  assumes "mg_faults w = []" "g_tracker (mg_server w) = None" "\<not> sc_has_nodes sc (g_data (mg_server w))"
    and "sc_tables sc (g_data (mg_server w)) = Inr d"
    and ord: "prefixes_ordered (scan_migrations env)" and seed: "prefix_id (last (scan_migrations env)) = schema_last_migration"
    and sql: "\<forall>f \<in> set (scan_migrations env). path_suffix f = ''.sql''"
  shows "init_schema sc env w
    = (Inr (Inr ()), w\<lparr>mg_server := (mg_server w)\<lparr>g_tracker := Some [schema_last_migration], g_data := d\<rparr>, mg_conn := NoConn\<rparr>)"
proof (rule init_runs)
  have "prefix_id f \<le> schema_last_migration" if "f \<in> set (scan_migrations env)" for f
    using last_prefix [OF ord that] seed by simp
  then have "pending (greatest [schema_last_migration]) (scan_migrations env) = []"
    by (auto simp: pending_def filter_empty_conv not_less)
  then show "migrate_all env (pending (greatest [schema_last_migration]) (scan_migrations env))
      ((mg_server w)\<lparr>g_tracker := Some [schema_last_migration], g_data := d\<rparr>)
    = Some ((mg_server w)\<lparr>g_tracker := Some [schema_last_migration], g_data := d\<rparr>)" by simp
qed (use assms in \<open>auto simp: schema_script_def bootstrap_tracker_def\<close>)

lemma init_legacy:
  assumes "mg_faults w = []" "g_tracker (mg_server w) = None" "sc_has_nodes sc (g_data (mg_server w))"
    and "sc_tables sc (g_data (mg_server w)) = Inr d"
    and "\<forall>f \<in> set (scan_migrations env). path_suffix f = ''.sql''"
    and "migrate_all env (scan_migrations env) ((mg_server w)\<lparr>g_tracker := Some [], g_data := d\<rparr>) = Some v"
  shows "init_schema sc env w = (Inr (Inr ()), w\<lparr>mg_server := v, mg_conn := NoConn\<rparr>)"
  by (rule init_runs [where u = "(mg_server w)\<lparr>g_tracker := Some [], g_data := d\<rparr>" and ids = "[]"])
    (use assms in \<open>auto simp: schema_script_def bootstrap_tracker_def pending_def\<close>)

section \<open>Python files\<close>

text \<open>The retry of the tracker record: inside the migration's transaction it cannot succeed, because the
  failed statement has aborted the transaction and \<open>BEGIN\<close> fails there.\<close>

lemma py_retry_in_transaction:
  assumes "mg_conn s = InTxn v False" "mg_faults s = [Some (DatabaseError e)]"
  shows "record_py_tracker p s = (Inl tx_aborted, s\<lparr>mg_faults := [], mg_conn := InTxn v True\<rparr>)"
  using assms by (simp add: record_py_tracker_def next_fault_def aborted_def mig_eval)

text \<open>When it is the \<open>COMMIT\<close> that the server refused, the migration's changes are gone, and the retry
  records the migration as applied.\<close>

lemma py_commit_refused:
  assumes "mg_conn s = InTxn v False" "mg_faults s = [None, Some (DatabaseError e)]"
    "g_tracker v = Some js" "g_tracker (mg_server s) = Some ids" "p \<notin> set js" "p \<notin> set ids"
  shows "record_py_tracker p s = (Inr (), s\<lparr>mg_faults := [], mg_conn := NoTx,
    mg_server := (mg_server s)\<lparr>g_tracker := Some (ids @ [p])\<rparr>\<rparr>)"
  using assms
  by (simp add: record_py_tracker_def next_fault_def leave_tx_def sql_insert_id_def mig_eval)

section \<open>A sample directory\<close>

text \<open>The packaged files on data that lists the scripts run.\<close>

definition sample_mig_env :: "string list mig_env" where
  "sample_mig_env = \<lparr>me_dir = packaged_migrations, me_text = Inr, me_exec = (\<lambda>t d. Inr (d @ [t])), me_spec = (\<lambda>_. None)\<rparr>"

definition sample_schema :: "string list schema" where
  "sample_schema = \<lparr>sc_has_nodes = (\<lambda>d. d \<noteq> []), sc_tables = Inr\<rparr>"

definition sample_mig :: "string list option \<Rightarrow> string list \<Rightarrow> string list mig" where
  "sample_mig t d = \<lparr>mg_server = \<lparr>g_tracker = t, g_data = d\<rparr>, mg_conn = NoConn, mg_faults = []\<rparr>"

lemma sample_scan [simp]: "scan_migrations sample_mig_env = packaged_migrations"
  by (simp add: scan_migrations_def sample_mig_env_def packaged_sorted)

lemma sample_last: "packaged_migrations \<noteq> []" "prefix_id (last packaged_migrations) = schema_last_migration"
  by code_simp+

end
