(* ===== verification/Vendor_Api.thy ===== *)
theory Vendor_Api
  imports Cloud_Config Host_Spec
begin

text \<open>
  What the three REST clients of \<open>infra/cloud/providers/\<close> (\<open>hetzner.py\<close>, \<open>vultr.py\<close>, \<open>vastai.py\<close>) share: a
  request and its error translation, the sleeps between attempts, listings in pages, deletion with retry
  and confirmation.  The vendor is the list of answers in the state, one per request, each after a delay;
  a sleep may be cancelled; requests and their answers are logged, so theorems speak of what was asked
  and answered.  Messages leave out the \<open>repr\<close> of a malformed response.
\<close>

section \<open>Requests and errors\<close>

record http_request =
  hq_method :: string
  hq_path :: string
  hq_params :: pydict
  hq_data :: "pydict option"

text \<open>An answer: a response with its status, its text and what \<open>json.loads\<close> makes of it; a
  \<open>ClientResponseError\<close> of the HTTP library; another of its errors or a time-out; any other exception.\<close>

datatype http_body = NoBody | Json pyval | Garbled string

datatype http_answer =
    Answer int string http_body
  | BadResponse string int
  | Transport string
  | Broken exn

record vendor_net =
  vn_clock :: real
  vn_answers :: "(real \<times> http_answer) list"
  vn_naps :: "bool list"
  vn_random :: "nat list"
  vn_log :: "(http_request \<times> http_answer) list"

text \<open>\<open>ApiError\<close> is \<open>HetznerError\<close>, vultr's \<open>APIError\<close> or \<open>VastAIError\<close>, with the HTTP status if there was one.\<close>

datatype api_exn = ApiError string "int option" | Raised exn

type_synonym 'a api = "(vendor_net, api_exn, 'a) M"

definition api_Exception :: "api_exn \<Rightarrow> bool" where
  "api_Exception x = (case x of ApiError _ _ \<Rightarrow> True | Raised e \<Rightarrow> is_Exception e)"

definition transient_status :: "int option \<Rightarrow> bool" where
  "transient_status st = (case st of None \<Rightarrow> True | Some s \<Rightarrow> s = 429 \<or> 500 \<le> s)"

definition http_send :: "http_request \<Rightarrow> http_answer api" where
  "http_send q w = (let (d, a, rest) = (case vn_answers w of [] \<Rightarrow> (0, Transport ''no answer'', []) | (d, a) # xs \<Rightarrow> (d, a, xs))
     in (Inr a, w\<lparr>vn_clock := vn_clock w + max 0 d, vn_answers := rest, vn_log := vn_log w @ [(q, a)]\<rparr>))"

text \<open>\<open>_request\<close>: the clients of Hetzner and Vultr do not tell a \<open>ClientResponseError\<close> from other client errors.\<close>

fun read_answer :: "bool \<Rightarrow> http_answer \<Rightarrow> api_exn + pyval" where
  "read_answer tells (Answer st t b) =
     (if 400 \<le> st then Inl (ApiError (''HTTP '' @ show_int st @ '': '' @ t) (Some st))
      else (case b of
          NoBody \<Rightarrow> Inr PNone
        | Json v \<Rightarrow> Inr v
        | Garbled m \<Rightarrow> Inl (ApiError (''Invalid JSON response: '' @ m) None)))"
| "read_answer tells (BadResponse m st) =
     Inl (if tells then ApiError (''HTTP request failed: '' @ m) (Some st) else ApiError (''Transport error: '' @ m) None)"
| "read_answer tells (Transport m) = Inl (ApiError (''Transport error: '' @ m) None)"
| "read_answer tells (Broken e) = Inl (Raised e)"

definition api_request :: "bool \<Rightarrow> string \<Rightarrow> string \<Rightarrow> pydict \<Rightarrow> pydict option \<Rightarrow> pyval api" where
  "api_request tells meth path params data =
     bindM (http_send \<lparr>hq_method = meth, hq_path = path, hq_params = params, hq_data = data\<rparr>) (\<lambda>a. fromSum (read_answer tells a))"

text \<open>\<open>asyncio.sleep\<close> and the running loop's clock.\<close>

definition nap :: "real \<Rightarrow> unit api" where
  "nap d w = (case vn_naps w of
       [] \<Rightarrow> (Inr (), w\<lparr>vn_clock := vn_clock w + d\<rparr>)
     | c # ns \<Rightarrow> if c then (Inl (Raised CancelledError), w\<lparr>vn_naps := ns\<rparr>)
                 else (Inr (), w\<lparr>vn_clock := vn_clock w + d, vn_naps := ns\<rparr>))"

section \<open>JSON values\<close>

text \<open>\<open>isinstance\<close> against \<open>int\<close> (which a \<open>bool\<close> is), \<open>(int, float)\<close> and \<open>str\<close>.\<close>

definition is_int :: "pyval \<Rightarrow> bool" where
  "is_int v = (case v of PInt _ \<Rightarrow> True | PBool _ \<Rightarrow> True | _ \<Rightarrow> False)"

definition is_num :: "pyval \<Rightarrow> bool" where
  "is_num v = (is_int v \<or> (case v of PFloat _ \<Rightarrow> True | _ \<Rightarrow> False))"

definition is_str :: "pyval \<Rightarrow> bool" where
  "is_str v = (case v of PStr _ \<Rightarrow> True | _ \<Rightarrow> False)"

definition is_list :: "pyval \<Rightarrow> bool" where
  "is_list v = (case v of PList _ \<Rightarrow> True | _ \<Rightarrow> False)"

definition is_dict :: "pyval \<Rightarrow> bool" where
  "is_dict v = (case v of PDict _ \<Rightarrow> True | _ \<Rightarrow> False)"

definition items_of :: "pyval \<Rightarrow> pydict" where
  "items_of v = (case v of PDict d \<Rightarrow> d | _ \<Rightarrow> [])"

definition elems_of :: "pyval \<Rightarrow> pyval list" where
  "elems_of v = (case v of PList xs \<Rightarrow> xs | _ \<Rightarrow> [])"

definition str_of :: "pyval \<Rightarrow> string" where
  "str_of v = (case v of PStr s \<Rightarrow> s | _ \<Rightarrow> [])"

text \<open>\<open>obj.get(k)\<close> of a dictionary, and the value as a truth value.\<close>

definition pget :: "pyval \<Rightarrow> string \<Rightarrow> pyval" where
  "pget v k = (case dget (items_of v) k of None \<Rightarrow> PNone | Some x \<Rightarrow> x)"

definition has_key :: "pyval \<Rightarrow> string \<Rightarrow> bool" where
  "has_key v k = (dget (items_of v) k \<noteq> None)"

definition py_true :: "pyval \<Rightarrow> bool" where
  "py_true v = (case v of PNone \<Rightarrow> False | PBool b \<Rightarrow> b | PInt i \<Rightarrow> i \<noteq> 0 | PFloat r \<Rightarrow> r \<noteq> 0
     | PStr s \<Rightarrow> s \<noteq> [] | PBytes s \<Rightarrow> s \<noteq> [] | PList xs \<Rightarrow> xs \<noteq> [] | PDict d \<Rightarrow> d \<noteq> [])"

text \<open>\<open>v.get(k, {})\<close> of any value: anything but a dictionary has no such attribute.\<close>

definition sub_dict :: "string \<Rightarrow> pyval \<Rightarrow> api_exn + pyval" where
  "sub_dict k v = (case v of
       PDict d \<Rightarrow> Inr (case dget d k of None \<Rightarrow> PDict [] | Some x \<Rightarrow> x)
     | _ \<Rightarrow> Inl (Raised (OtherError ''AttributeError'')))"

definition get_attr :: "string \<Rightarrow> pyval \<Rightarrow> api_exn + pyval" where
  "get_attr k v = (case v of
       PDict d \<Rightarrow> Inr (pget v k)
     | _ \<Rightarrow> Inl (Raised (OtherError ''AttributeError'')))"

text \<open>\<open>resp.get("meta", {}).get(section, {}).get(key)\<close>, the place of the next page.\<close>

definition next_page :: "string \<Rightarrow> string \<Rightarrow> pyval \<Rightarrow> api_exn + pyval" where
  "next_page section key resp =
     (case sub_dict ''meta'' resp of
        Inl x \<Rightarrow> Inl x
      | Inr meta \<Rightarrow> (case sub_dict section meta of Inl x \<Rightarrow> Inl x | Inr links \<Rightarrow> get_attr key links))"

text \<open>What \<open>for x in v\<close> goes through.\<close>

definition py_iter :: "pyval \<Rightarrow> api_exn + pyval list" where
  "py_iter v = (case v of
       PList xs \<Rightarrow> Inr xs
     | PDict d \<Rightarrow> Inr (map (\<lambda>(k, _). PStr k) d)
     | PStr s \<Rightarrow> Inr (map (\<lambda>c. PStr [c]) s)
     | _ \<Rightarrow> Inl (Raised (TypeError ''object is not iterable'')))"

text \<open>An integer in an f-string.\<close>

definition int_text :: "pyval \<Rightarrow> string" where
  "int_text v = (case v of PInt i \<Rightarrow> show_int i | PBool b \<Rightarrow> (if b then ''True'' else ''False'') | _ \<Rightarrow> [])"

section \<open>Listings in pages\<close>

text \<open>An asynchronous generator over pages, consumed until the first element that matches.  A page is its
  elements and what computes the parameters of the next one, which runs only after all were looked at.
  Every page takes an answer of the vendor, so the number of answers left bounds the pages.\<close>

type_synonym page = "pyval list \<times> (api_exn + pydict option)"

fun search_loop :: "nat \<Rightarrow> (pydict \<Rightarrow> page api) \<Rightarrow> (pyval \<Rightarrow> bool) \<Rightarrow> pydict \<Rightarrow> pyval option api" where
  "search_loop 0 fetch P ps = raiseM (ApiError ''Transport error: no answer'' None)"
| "search_loop (Suc n) fetch P ps = bindM (fetch ps) (\<lambda>(xs, more).
     case find P xs of
       Some x \<Rightarrow> returnM (Some x)
     | None \<Rightarrow> bindM (fromSum more) (\<lambda>next. case next of
           None \<Rightarrow> returnM None
         | Some ps' \<Rightarrow> search_loop n fetch P ps'))"

definition search_pages :: "(pydict \<Rightarrow> page api) \<Rightarrow> (pyval \<Rightarrow> bool) \<Rightarrow> pydict \<Rightarrow> pyval option api" where
  "search_pages fetch P ps w = search_loop (Suc (length (vn_answers w))) fetch P ps w"

section \<open>Deletion\<close>

text \<open>The attempts of \<open>_delete_and_verify\<close> and \<open>_delete_instance\<close>: \<open>None\<close> is an accepted request (the
  \<open>break\<close>), \<open>Some b\<close> an early \<open>return b\<close>.\<close>

fun delete_attempts :: "nat \<Rightarrow> real \<Rightarrow> unit api \<Rightarrow> bool option api" where
  "delete_attempts 0 d del = returnM None"
| "delete_attempts (Suc n) d del = bindM (attemptM del) (\<lambda>r. case r of
       Inr _ \<Rightarrow> returnM None
     | Inl (ApiError m st) \<Rightarrow>
         if st = Some 404 then returnM (Some True)
         else if transient_status st \<and> 0 < n then thenM (nap d) (delete_attempts n d del)
         else returnM (Some False)
     | Inl (Raised e) \<Rightarrow> if is_Exception e then returnM (Some False) else raiseM (Raised e))"

text \<open>Polling: until the deadline, a step either settles the matter or is repeated after a pause.  Every
  repetition sleeps, so \<open>poll_rounds\<close> rounds reach the deadline.\<close>

fun poll_loop :: "nat \<Rightarrow> real \<Rightarrow> real \<Rightarrow> 'a option api \<Rightarrow> 'a api \<Rightarrow> 'a api" where
  "poll_loop fuel deadline d step late w =
     (if \<not> vn_clock w < deadline then late w
      else case fuel of
          0 \<Rightarrow> late w
        | Suc n \<Rightarrow> bindM step (\<lambda>r. case r of
              Some a \<Rightarrow> returnM a
            | None \<Rightarrow> thenM (nap d) (poll_loop n deadline d step late)) w)"

declare poll_loop.simps [simp del]

definition poll_rounds :: "real \<Rightarrow> real \<Rightarrow> nat" where
  "poll_rounds timeout d = nat \<lceil>timeout / d\<rceil>"

definition poll :: "real \<Rightarrow> real \<Rightarrow> 'a option api \<Rightarrow> 'a api \<Rightarrow> 'a api" where
  "poll timeout d step late = bindM (getsM vn_clock) (\<lambda>now. poll_loop (poll_rounds timeout d) (now + timeout) d step late)"

text \<open>\<open>_verify_server_gone\<close>, \<open>_verify_instance_gone\<close>: a 404 settles it, any other outcome is uncertain.\<close>

definition verify_step :: "unit api \<Rightarrow> bool option api" where
  "verify_step look = bindM (attemptM look) (\<lambda>r. case r of
       Inr _ \<Rightarrow> returnM None
     | Inl (ApiError m st) \<Rightarrow> returnM (if st = Some 404 then Some True else None)
     | Inl (Raised e) \<Rightarrow> if is_Exception e then returnM None else raiseM (Raised e))"

definition verify_gone :: "real \<Rightarrow> real \<Rightarrow> unit api \<Rightarrow> bool api" where
  "verify_gone timeout d look = poll timeout d (verify_step look) (returnM False)"

definition delete_and_verify :: "nat \<Rightarrow> real \<Rightarrow> real \<Rightarrow> real \<Rightarrow> unit api \<Rightarrow> unit api \<Rightarrow> bool api" where
  "delete_and_verify attempts pause timeout interval del look =
     bindM (delete_attempts attempts pause del) (\<lambda>r. case r of
         Some b \<Rightarrow> returnM b
       | None \<Rightarrow> verify_gone timeout interval look)"

section \<open>Random names\<close>

definition rnd_below :: "nat \<Rightarrow> nat api" where
  "rnd_below n w = (case vn_random w of [] \<Rightarrow> (Inr 0, w) | r # rs \<Rightarrow> (Inr (r mod n), w\<lparr>vn_random := rs\<rparr>))"

text \<open>\<open>get_rnd_name\<close>: eight random lower-case letters after the prefix.\<close>

definition get_rnd_name :: "string \<Rightarrow> string api" where
  "get_rnd_name prefix = bindM (mapM (\<lambda>_. rnd_below 26) (replicate 8 ())) (\<lambda>ns.
     returnM (prefix @ ''-'' @ map (\<lambda>n. char_of (97 + n)) ns))"

text \<open>\<open>ssh_keys.get_key_name\<close> and what of a key the providers use.\<close>

record ssh_key =
  sk_filename :: "string option"
  sk_comment :: string
  sk_md5 :: string
  sk_public :: string

definition get_key_name :: "ssh_key \<Rightarrow> string" where
  "get_key_name k =
     (let name = (case sk_filename k of None \<Rightarrow> [] | Some f \<Rightarrow> if f = [] then [] else path_name (mk_path f))
      in if name \<noteq> [] then name else if sk_comment k \<noteq> [] then sk_comment k
         else snd (snd (partition_on CHR '':'' (sk_md5 k))))"

text \<open>\<open>base64.b64encode\<close> of ASCII text.\<close>

definition b64_char :: "int \<Rightarrow> char" where
  "b64_char n = (if n < 26 then char_of (65 + n) else if n < 52 then char_of (71 + n) else if n < 62 then char_of (n - 4)
     else if n = 62 then CHR ''+'' else CHR ''/'')"

fun b64_encode :: "string \<Rightarrow> string" where
  "b64_encode [] = []"
| "b64_encode [a] = (let n = of_char a * 16 :: int in [b64_char (n div 64), b64_char (n mod 64), CHR ''='', CHR ''=''])"
| "b64_encode [a, b] = (let n = (of_char a * 256 + of_char b) * 4 :: int in
     [b64_char (n div 4096), b64_char (n div 64 mod 64), b64_char (n mod 64), CHR ''=''])"
| "b64_encode (a # b # c # rest) = (let n = (of_char a * 256 + of_char b) * 256 + of_char c :: int in
     [b64_char (n div 262144), b64_char (n div 4096 mod 64), b64_char (n div 64 mod 64), b64_char (n mod 64)] @ b64_encode rest)"

section \<open>Cloud-init\<close>

record cloud_init =
  ci_bootcmd :: "pyval list"
  ci_runcmd :: "string list"
  ci_package_upgrade :: bool
  ci_packages :: "string list"
  ci_users :: "pyval list"

definition cloud_init0 :: cloud_init where
  "cloud_init0 = \<lparr>ci_bootcmd = [], ci_runcmd = [], ci_package_upgrade = False, ci_packages = [], ci_users = []\<rparr>"

definition build_cloud_init_users :: "string \<Rightarrow> string \<Rightarrow> pyval list" where
  "build_cloud_init_users username pub =
     PDict [(''name'', PStr ''root''), (''ssh_authorized_keys'', PList [PStr pub])]
     # (if username \<noteq> ''root''
        then [PDict [(''name'', PStr username), (''ssh_authorized_keys'', PList [PStr pub]),
                     (''groups'', PStr ''sudo''), (''sudo'', PStr ''ALL=(ALL) NOPASSWD:ALL'')]]
        else [])"

text \<open>\<open>json.dumps\<close> with its defaults, for values without bytes; \<open>fl\<close> writes a float.  Everything outside
  printable ASCII is escaped.\<close>

definition hex_digit :: "nat \<Rightarrow> char" where
  "hex_digit n = char_of (if n < 10 then 48 + n else 87 + n)"

definition json_char :: "char \<Rightarrow> string" where
  "json_char c = (let n = of_char c :: nat in
     if n = 34 \<or> n = 92 then [CHR 0x5C, c]
     else if n = 10 then [CHR 0x5C, CHR ''n''] else if n = 13 then [CHR 0x5C, CHR ''r'']
     else if n = 9 then [CHR 0x5C, CHR ''t''] else if n = 8 then [CHR 0x5C, CHR ''b'']
     else if n = 12 then [CHR 0x5C, CHR ''f'']
     else if n < 32 \<or> 126 < n then [CHR 0x5C, CHR ''u'', CHR ''0'', CHR ''0'', hex_digit (n div 16), hex_digit (n mod 16)]
     else [c])"

definition json_string :: "string \<Rightarrow> string" where
  "json_string s = [CHR 0x22] @ concat (map json_char s) @ [CHR 0x22]"

fun json_dumps :: "(rat \<Rightarrow> string) \<Rightarrow> pyval \<Rightarrow> string" where
  "json_dumps fl PNone = ''null''"
| "json_dumps fl (PBool b) = (if b then ''true'' else ''false'')"
| "json_dumps fl (PInt i) = show_int i"
| "json_dumps fl (PFloat r) = fl r"
| "json_dumps fl (PStr s) = json_string s"
| "json_dumps fl (PBytes s) = []"
| "json_dumps fl (PList xs) = ''['' @ join '', '' (map (json_dumps fl) xs) @ '']''"
| "json_dumps fl (PDict d) = ''{'' @ join '', '' (map (\<lambda>(k, v). json_string k @ '': '' @ json_dumps fl v) d) @ ''}''"

text \<open>The dictionary \<open>render\<close> hands to \<open>json.dumps\<close>: empty sequences are left out.\<close>

definition cloud_init_data :: "cloud_init \<Rightarrow> pydict" where
  "cloud_init_data c = filter (\<lambda>(k, v). \<not> (is_list v \<and> elems_of v = []))
     [(''bootcmd'', PList (ci_bootcmd c)), (''runcmd'', PList (map PStr (ci_runcmd c))),
      (''package_upgrade'', PBool (ci_package_upgrade c)), (''packages'', PList (map PStr (ci_packages c))),
      (''users'', PList (ci_users c))]"

definition render :: "(rat \<Rightarrow> string) \<Rightarrow> cloud_init \<Rightarrow> string" where
  "render fl c = ''#cloud-config'' @ [CHR 0x0A] @ json_dumps fl (PDict (cloud_init_data c))"

definition render_base64 :: "(rat \<Rightarrow> string) \<Rightarrow> cloud_init \<Rightarrow> string" where
  "render_base64 fl c = b64_encode (render fl c)"

end
