(* ===== verification/Vendor_Facts.thy ===== *)
theory Vendor_Facts
  imports Vendor_Api
begin

text \<open>
  The contract of deletion, stated once for every vendor: the locales say what is known of a client's
  DELETE and GET, and their lemmas follow the loops.  Further, a search through pages finds the first match
  of the pages it saw, and the fuel of both loops is enough.
\<close>

section \<open>Requests\<close>

definition grows :: "nat \<Rightarrow> 'a api \<Rightarrow> bool" where
  "grows k m \<longleftrightarrow> (\<forall>w. \<exists>l. vn_log (snd (m w)) = vn_log w @ l \<and> length l \<le> k)"

definition ticks :: "'a api \<Rightarrow> bool" where
  "ticks m \<longleftrightarrow> (\<forall>w. vn_clock w \<le> vn_clock (snd (m w)))"

named_theorems grows_intros "bounds on the number of requests"
named_theorems ticks_intros "the clock does not go back"

lemma growsD: "grows k m \<Longrightarrow> m w = (r, w') \<Longrightarrow> \<exists>l. vn_log w' = vn_log w @ l \<and> length l \<le> k"
  by (metis grows_def snd_conv)

lemma growsI: "(\<And>w r w'. m w = (r, w') \<Longrightarrow> \<exists>l. vn_log w' = vn_log w @ l \<and> length l \<le> k) \<Longrightarrow> grows k m"
  unfolding grows_def by (metis prod.collapse)

lemma grows_mono: "grows k m \<Longrightarrow> k \<le> k' \<Longrightarrow> grows k' m"
  unfolding grows_def by (meson order_trans)

lemma grows_frame: "(\<And>w. vn_log (snd (m w)) = vn_log w) \<Longrightarrow> grows k m"
  by (simp add: grows_def)

lemma grows_basic [grows_intros]:
  "grows 0 (returnM a)" "grows 0 (raiseM e)" "grows 0 (fromSum r)" "grows 0 (getsM f)" "grows 0 (nap d)" "grows 0 (rnd_below n)"
  by (auto intro!: grows_frame simp: monad_simps nap_def rnd_below_def split: list.splits)

lemma grows_send [grows_intros]: "grows 1 (http_send q)"
  by (auto simp: grows_def http_send_def Let_def split: list.splits prod.splits)

lemma grows_bind [grows_intros]: "grows i m \<Longrightarrow> (\<And>a. grows j (f a)) \<Longrightarrow> grows (i + j) (bindM m f)"
proof (rule growsI)
  fix w r w' assume m: "grows i m" and f: "\<And>a. grows j (f a)" and run: "bindM m f w = (r, w')"
  obtain q w1 where q: "m w = (q, w1)" by fastforce
  from growsD [OF m q] obtain l where l: "vn_log w1 = vn_log w @ l" "length l \<le> i" by blast
  show "\<exists>l. vn_log w' = vn_log w @ l \<and> length l \<le> i + j"
  proof (cases q)
    case (Inl e)
    then show ?thesis using run q l by (auto simp: bindM_def)
  next
    case (Inr a)
    then have "f a w1 = (r, w')" using run q by (simp add: bindM_def)
    from growsD [OF f this] l show ?thesis by fastforce
  qed
qed

lemma grows_then: "grows i m \<Longrightarrow> grows j n \<Longrightarrow> grows (i + j) (thenM m n)"
  by (simp add: thenM_def grows_bind)

lemma grows_attempt: "grows i m \<Longrightarrow> grows i (attemptM m)"
  by (simp add: grows_def attemptM_def case_prod_unfold)

lemma grows_catch:
  assumes "grows i m" "\<And>e. grows j (h e)"
  shows "grows (i + j) (catchM m h)"
proof -
  have "grows (i + j) (bindM (attemptM m) (\<lambda>r. case r of Inl e \<Rightarrow> h e | Inr a \<Rightarrow> returnM a))"
    by (intro grows_bind grows_attempt assms(1)) (auto intro: assms(2) grows_mono grows_basic split: sum.split)
  then show ?thesis
    unfolding grows_def catchM_def bindM_def attemptM_def returnM_def
    by (auto split: prod.splits sum.splits)
qed

lemma grows_request: "grows 1 (api_request tells meth path ps data)"
  using grows_bind [OF grows_send grows_basic(3)] by (simp add: api_request_def)

lemma ticks_basic [ticks_intros]:
  "ticks (returnM a)" "ticks (raiseM e)" "ticks (fromSum r)" "ticks (getsM f)" "ticks (http_send q)" "ticks (rnd_below n)"
  by (auto simp: ticks_def monad_simps http_send_def rnd_below_def Let_def split: list.splits prod.splits)

lemma ticks_nap: "0 \<le> d \<Longrightarrow> ticks (nap d)"
  by (auto simp: ticks_def nap_def split: list.splits)

lemma ticks_bind [ticks_intros]: "ticks m \<Longrightarrow> (\<And>a. ticks (f a)) \<Longrightarrow> ticks (bindM m f)"
  unfolding ticks_def bindM_def by (fastforce split: prod.splits sum.splits intro: order_trans)

lemma ticks_request [ticks_intros]: "ticks (api_request tells meth path ps data)"
  unfolding api_request_def by (intro ticks_intros)

text \<open>What a request leaves in the log.\<close>

lemma request_logged:
  assumes "api_request tells meth path ps data w = (r, w')"
  shows "\<exists>a. vn_log w' = vn_log w @ [(\<lparr>hq_method = meth, hq_path = path, hq_params = ps, hq_data = data\<rparr>, a)]
    \<and> r = read_answer tells a"
  using assms by (auto simp: api_request_def http_send_def Let_def monad_simps split: list.splits prod.splits)

definition answered_404 :: "http_answer \<Rightarrow> bool" where
  "answered_404 a \<longleftrightarrow> (case a of Answer st _ _ \<Rightarrow> st = 404 | BadResponse _ st \<Rightarrow> st = 404 | _ \<Rightarrow> False)"

lemma read_404: "read_answer tells a = Inl (ApiError m (Some 404)) \<Longrightarrow> answered_404 a"
  by (cases a) (auto simp: answered_404_def split: if_splits http_body.splits)

text \<open>The last request asked for this resource, to delete or to get it, and the vendor answered 404.\<close>

definition gone_at :: "string \<Rightarrow> vendor_net \<Rightarrow> bool" where
  "gone_at path w \<longleftrightarrow> vn_log w \<noteq> [] \<and> (case last (vn_log w) of (q, a) \<Rightarrow>
     hq_path q = path \<and> hq_method q \<in> {''DELETE'', ''GET''} \<and> answered_404 a)"

lemma request_gone:
  assumes "api_request tells meth path ps data w = (Inl (ApiError m (Some 404)), w')" "meth \<in> {''DELETE'', ''GET''}"
  shows "gone_at path w'"
proof -
  from request_logged [OF assms(1)] obtain a where
    a: "vn_log w' = vn_log w @ [(\<lparr>hq_method = meth, hq_path = path, hq_params = ps, hq_data = data\<rparr>, a)]"
    "Inl (ApiError m (Some 404)) = read_answer tells a" by blast
  from read_404 [OF a(2) [symmetric]] a(1) assms(2) show ?thesis by (auto simp: gone_at_def)
qed

text \<open>How often the deletion of a resource was asked for; which requests a computation may make.\<close>

definition deletes :: "string \<Rightarrow> vendor_net \<Rightarrow> nat" where
  "deletes path w = length (filter (\<lambda>(q, a). hq_method q = ''DELETE'' \<and> hq_path q = path) (vn_log w))"

lemma deletes_grow: "grows k m \<Longrightarrow> m w = (r, w') \<Longrightarrow> deletes path w \<le> deletes path w'"
  by (drule (1) growsD) (auto simp: deletes_def)

definition asked :: "(http_request \<Rightarrow> bool) \<Rightarrow> (http_request \<times> http_answer) list \<Rightarrow> vendor_net \<Rightarrow> bool" where
  "asked P l0 w \<longleftrightarrow> (\<exists>l. vn_log w = l0 @ l \<and> (\<forall>x \<in> set l. P (fst x)))"

lemma asked_refl [simp]: "asked P (vn_log w) w"
  by (auto simp: asked_def)

lemma asked_send: "P q \<Longrightarrow> keeps (asked P l0) (http_send q)"
  by (auto simp: keeps_def asked_def http_send_def Let_def split: list.splits prod.splits)

lemma asked_request:
  "P \<lparr>hq_method = meth, hq_path = path, hq_params = ps, hq_data = data\<rparr> \<Longrightarrow> keeps (asked P l0) (api_request tells meth path ps data)"
  unfolding api_request_def by (intro keeps_bind asked_send keeps_fromSum) simp

lemma asked_nap: "keeps (asked P l0) (nap d)"
  by (auto simp: keeps_def asked_def nap_def split: list.splits)

lemma asked_rnd: "keeps (asked P l0) (rnd_below n)"
  by (auto simp: keeps_def asked_def rnd_below_def split: list.splits)

lemma asked_name: "keeps (asked P l0) (get_rnd_name prefix)"
  unfolding get_rnd_name_def by (intro keeps_bind keeps_mapM asked_rnd keeps_return)

lemma asked_search:
  assumes "\<And>ps. keeps (asked P l0) (fetch ps)"
  shows "keeps (asked P l0) (search_pages fetch Q ps)"
proof -
  have "keeps (asked P l0) (search_loop n fetch Q ps)" for n ps
  proof (induction n arbitrary: ps)
    case (Suc n)
    show ?case
      unfolding search_loop.simps
      by (intro keeps_bind assms keeps_prod keeps_option keeps_return keeps_fromSum Suc.IH)
  qed (simp add: keeps_raise)
  then show ?thesis by (simp add: keeps_def search_pages_def del: search_loop.simps)
qed

lemma asked_attempts: "keeps (asked P l0) del \<Longrightarrow> keeps (asked P l0) (delete_attempts n d del)"
proof (induction n)
  case (Suc n)
  have "keeps (asked P l0) (case x of ApiError m st \<Rightarrow>
         if st = Some 404 then returnM (Some True)
         else if transient_status st \<and> 0 < n then thenM (nap d) (delete_attempts n d del) else returnM (Some False)
     | Raised e \<Rightarrow> if is_Exception e then returnM (Some False) else raiseM (Raised e))" for x
    by (cases x) (simp_all add: keeps_return keeps_raise keeps_then asked_nap Suc)
  then show ?case unfolding delete_attempts.simps by (intro keeps_bind keeps_attempt keeps_sum keeps_return Suc.prems)
qed (simp add: keeps_return)

lemma asked_poll:
  assumes "keeps (asked P l0) step" "keeps (asked P l0) late"
  shows "keeps (asked P l0) (poll timeout d step late)"
proof -
  have "keeps (asked P l0) (poll_loop n deadline d step late)" for n deadline
  proof (induction n)
    case 0
    show ?case by (rule keepsI, subst poll_loop.simps) (simp add: keepsD [OF assms(2)])
  next
    case (Suc n)
    have "keeps (asked P l0) (bindM step (\<lambda>r. case r of Some a \<Rightarrow> returnM a | None \<Rightarrow> thenM (nap d) (poll_loop n deadline d step late)))"
      by (intro keeps_bind keeps_option keeps_return keeps_then asked_nap assms(1) Suc.IH)
    then show ?case by (intro keepsI, subst poll_loop.simps) (simp add: keepsD assms(2))
  qed
  then show ?thesis unfolding poll_def by (intro keeps_bind keeps_gets)
qed

text \<open>\<open>stoic m\<close>: nothing but a cancellation (no subclass of \<open>Exception\<close>) escapes from \<open>m\<close>.\<close>

definition stoic :: "'a api \<Rightarrow> bool" where
  "stoic m \<longleftrightarrow> (\<forall>w x w'. m w = (Inl x, w') \<longrightarrow> \<not> api_Exception x)"

named_theorems stoic_intros "computations that only a cancellation stops"

lemma stoicD: "stoic m \<Longrightarrow> m w = (Inl x, w') \<Longrightarrow> \<not> api_Exception x"
  unfolding stoic_def by blast

lemma stoic_basic [stoic_intros]: "stoic (returnM a)" "stoic (getsM f)" "stoic (attemptM m)"
  by (auto simp: stoic_def monad_simps split: prod.splits)

lemma stoic_nap [stoic_intros]: "stoic (nap d)"
  by (auto simp: stoic_def nap_def api_Exception_def is_Exception_def split: list.splits if_splits)

lemma stoic_raise: "\<not> is_Exception e \<Longrightarrow> stoic (raiseM (Raised e))"
  by (auto simp: stoic_def raiseM_def api_Exception_def)

lemma stoic_bind [stoic_intros]: "stoic m \<Longrightarrow> (\<And>a. stoic (f a)) \<Longrightarrow> stoic (bindM m f)"
  unfolding stoic_def bindM_def by (fastforce split: prod.splits sum.splits)

lemma stoic_then [stoic_intros]: "stoic m \<Longrightarrow> stoic n \<Longrightarrow> stoic (thenM m n)"
  by (simp add: thenM_def stoic_bind)

lemma stoic_sum: "(\<And>e. x = Inl e \<Longrightarrow> stoic (h e)) \<Longrightarrow> (\<And>a. x = Inr a \<Longrightarrow> stoic (f a)) \<Longrightarrow> stoic (case x of Inl e \<Rightarrow> h e | Inr a \<Rightarrow> f a)"
  by (cases x) simp_all

lemma stoic_exn: "(\<And>m st. x = ApiError m st \<Longrightarrow> stoic (h m st)) \<Longrightarrow> (\<And>e. x = Raised e \<Longrightarrow> stoic (f e)) \<Longrightarrow>
    stoic (case x of ApiError m st \<Rightarrow> h m st | Raised e \<Rightarrow> f e)"
  by (cases x) simp_all

lemma stoic_option: "(x = None \<Longrightarrow> stoic m) \<Longrightarrow> (\<And>a. x = Some a \<Longrightarrow> stoic (f a)) \<Longrightarrow> stoic (case x of None \<Rightarrow> m | Some a \<Rightarrow> f a)"
  by (cases x) simp_all

lemma stoic_if: "(b \<Longrightarrow> stoic m) \<Longrightarrow> (\<not> b \<Longrightarrow> stoic n) \<Longrightarrow> stoic (if b then m else n)"
  by simp

lemmas stoic_rules = stoic_intros stoic_sum stoic_exn stoic_option stoic_if stoic_raise

section \<open>Deletion with retry\<close>

locale vendor_deletion =
  fixes del :: "unit api" and path :: string
  assumes del_404: "del w = (Inl (ApiError m (Some 404)), w') \<Longrightarrow> gone_at path w'"
    and del_logs: "\<exists>a. vn_log (snd (del w)) = vn_log w @ [(\<lparr>hq_method = ''DELETE'', hq_path = path, hq_params = [], hq_data = None\<rparr>, a)]"
begin

lemma del_one: "grows 1 del"
proof (rule growsI)
  fix w r w' assume "del w = (r, w')"
  then show "\<exists>l. vn_log w' = vn_log w @ l \<and> length l \<le> 1" using del_logs [of w] by auto
qed

lemma attempts_gone: "delete_attempts n d del w = (Inr (Some True), w') \<Longrightarrow> gone_at path w'"
proof (induction n arbitrary: w)
  case (Suc n)
  obtain q w1 where q: "del w = (q, w1)" by fastforce
  show ?case
  proof (cases q)
    case (Inr u)
    then show ?thesis using Suc.prems q by (simp add: monad_simps)
  next
    case (Inl x)
    show ?thesis
    proof (cases x)
      case (Raised e)
      then show ?thesis using Suc.prems q Inl by (simp add: monad_simps split: if_splits)
    next
      case (ApiError m st)
      obtain z w2 where z: "nap d w1 = (z, w2)" by fastforce
      consider (gone) "st = Some 404" "w' = w1" | (again) "z = Inr ()" "delete_attempts n d del w2 = (Inr (Some True), w')"
        using Suc.prems q Inl ApiError z by (auto simp: monad_simps split: if_splits sum.splits)
      then show ?thesis using del_404 q Inl ApiError Suc.IH by cases auto
    qed
  qed
qed (simp add: monad_simps)

text \<open>The loop breaks off only after an accepted request.\<close>

lemma attempts_accepted: "delete_attempts (Suc n) d del w = (Inr None, w') \<Longrightarrow> \<exists>w1 u. del w1 = (Inr u, w')"
proof (induction n arbitrary: w)
  case (Suc n)
  obtain q w1 where q: "del w = (q, w1)" by fastforce
  show ?case
  proof (cases q)
    case (Inr u)
    then show ?thesis using Suc.prems q by (auto simp: monad_simps)
  next
    case (Inl x)
    show ?thesis
    proof (cases x)
      case (ApiError m st)
      obtain z w2 where z: "nap d w1 = (z, w2)" by fastforce
      then have "delete_attempts (Suc n) d del w2 = (Inr None, w')"
        using Suc.prems q Inl ApiError
        unfolding delete_attempts.simps(2) [of "Suc n"]
        by (auto simp: monad_simps simp del: delete_attempts.simps split: if_splits sum.splits)
      then show ?thesis by (rule Suc.IH)
    next
      case (Raised e)
      then show ?thesis
        using Suc.prems q Inl unfolding delete_attempts.simps(2) [of "Suc n"]
        by (auto simp: monad_simps simp del: delete_attempts.simps split: if_splits)
    qed
  qed
next
  case 0
  then show ?case
    by (cases "del w"; cases "fst (del w)") (auto simp: monad_simps split: api_exn.splits if_splits)
qed

lemma attempts_rest:
  "grows n (delete_attempts n d del) \<Longrightarrow> grows n ((\<lambda>r. case r of
       Inr _ \<Rightarrow> returnM None
     | Inl (ApiError m st) \<Rightarrow>
         if st = Some 404 then returnM (Some True)
         else if transient_status st \<and> 0 < n then thenM (nap d) (delete_attempts n d del)
         else returnM (Some False)
     | Inl (Raised e) \<Rightarrow> if is_Exception e then returnM (Some False) else raiseM (Raised e)) r)"
  using grows_then [OF grows_basic(5), of n _ d]
  by (auto intro: grows_mono [OF grows_basic(1)] grows_mono [OF grows_basic(2)] split: sum.split api_exn.split)

lemma attempts_grow: "grows n (delete_attempts n d del)"
proof (induction n)
  case (Suc n)
  from grows_bind [OF grows_attempt [OF del_one] attempts_rest [OF Suc.IH]] show ?case by simp
qed (simp add: grows_basic)

lemma attempts_ask:
  assumes "delete_attempts (Suc n) d del w = (r, w')"
  shows "deletes path w < deletes path w'"
proof -
  obtain q w1 where q: "del w = (q, w1)" by fastforce
  have "deletes path w1 = Suc (deletes path w)" using del_logs [of w] q by (auto simp: deletes_def)
  moreover have "deletes path w1 \<le> deletes path w'"
    using assms q by (intro deletes_grow [OF attempts_rest [OF attempts_grow], of n d q w1]) (simp add: bindM_def attemptM_def)
  ultimately show ?thesis by simp
qed

text \<open>Only what is not an \<open>Exception\<close> escapes.\<close>

lemma stoic_attempts: "stoic (delete_attempts n d del)"
proof (induction n)
  case (Suc n)
  show ?case unfolding delete_attempts.simps by (intro stoic_rules Suc.IH)
qed (simp add: stoic_basic)

end

section \<open>Polling\<close>

lemma nap_raise: "nap d w = (Inl x, w') \<Longrightarrow> x = Raised CancelledError"
  by (auto simp: nap_def split: list.splits if_splits)

lemma nap_clock: "nap d w = (Inr u, w') \<Longrightarrow> vn_clock w' = vn_clock w + d"
  by (auto simp: nap_def split: list.splits if_splits)

locale polling =
  fixes step :: "'a option api" and late :: "'a api"
  assumes step_ticks: "ticks step" and step_grows: "grows 1 step" and late_grows: "grows 0 late"
begin

lemma poll_round:
  "vn_clock w < deadline \<Longrightarrow> poll_loop (Suc n) deadline d step late w =
     bindM step (\<lambda>r. case r of Some a \<Rightarrow> returnM a | None \<Rightarrow> thenM (nap d) (poll_loop n deadline d step late)) w"
  by (subst poll_loop.simps) simp

lemma poll_late: "\<not> vn_clock w < deadline \<or> n = 0 \<Longrightarrow> poll_loop n deadline d step late w = late w"
  by (subst poll_loop.simps) auto

text \<open>A poll ends with a settled step, an error of a step, a cancelled sleep, or late.\<close>

lemma poll_result:
  "poll_loop n deadline d step late w = (r, w') \<Longrightarrow>
   (\<exists>w1 a. step w1 = (Inr (Some a), w') \<and> r = Inr a) \<or> (\<exists>w1 y. step w1 = (Inl y, w') \<and> r = Inl y)
   \<or> r = Inl (Raised CancelledError) \<or> (\<exists>w1. late w1 = (r, w'))"
proof (induction n arbitrary: w)
  case 0
  then show ?case using poll_late [of w deadline 0] by auto
next
  case (Suc n)
  show ?case
  proof (cases "vn_clock w < deadline")
    case False
    then show ?thesis using Suc.prems poll_late [of w deadline "Suc n"] by auto
  next
    case True
    obtain q w1 where q: "step w = (q, w1)" by fastforce
    show ?thesis
    proof (cases q)
      case (Inl y)
      then show ?thesis using Suc.prems q by (auto simp: poll_round [OF True] bindM_def)
    next
      case (Inr o1)
      show ?thesis
      proof (cases o1)
        case (Some a)
        then show ?thesis using Suc.prems q Inr by (auto simp: poll_round [OF True] bindM_def returnM_def)
      next
        case None
        obtain z w2 where z: "nap d w1 = (z, w2)" by fastforce
        show ?thesis
        proof (cases z)
          case (Inl y)
          then show ?thesis
            using Suc.prems q Inr None z nap_raise [of d w1 y w2] by (auto simp: poll_round [OF True] monad_simps)
        next
          case (Inr u)
          then have "poll_loop n deadline d step late w2 = (r, w')"
            using Suc.prems q \<open>q = Inr o1\<close> None z by (auto simp: poll_round [OF True] monad_simps)
          then show ?thesis by (rule Suc.IH)
        qed
      qed
    qed
  qed
qed

lemma poll_loop_grows: "grows n (poll_loop n deadline d step late)"
proof (induction n)
  case 0
  then show ?case using late_grows poll_late by (simp add: grows_def)
next
  case (Suc n)
  have "grows (1 + (0 + n)) (bindM step (\<lambda>r. case r of Some a \<Rightarrow> returnM a | None \<Rightarrow> thenM (nap d) (poll_loop n deadline d step late)))"
    using grows_then [OF grows_basic(5) Suc.IH, of d]
    by (intro grows_bind step_grows) (auto intro: grows_mono [OF grows_basic(1)] split: option.split)
  moreover have "grows (Suc n) late" using late_grows by (rule grows_mono) simp
  ultimately show ?case
    unfolding grows_def using poll_round [of _ deadline n d] poll_late [of _ deadline "Suc n" d] by (metis add.left_neutral plus_1_eq_Suc)
qed

text \<open>The rounds are enough: when they run out the deadline has passed, so more of them change nothing.\<close>

lemma poll_fuel:
  "0 < d \<Longrightarrow> deadline \<le> vn_clock w + real n * d \<Longrightarrow>
   poll_loop (n + k) deadline d step late w = poll_loop n deadline d step late w"
proof (induction n arbitrary: w)
  case 0
  then show ?case using poll_late [of w deadline k] poll_late [of w deadline 0] by simp
next
  case (Suc n)
  show ?case
  proof (cases "vn_clock w < deadline")
    case False
    then show ?thesis using poll_late [of w deadline] by simp
  next
    case True
    obtain q w1 where q: "step w = (q, w1)" by fastforce
    have c1: "vn_clock w \<le> vn_clock w1" using step_ticks q by (metis ticks_def snd_conv)
    have "thenM (nap d) (poll_loop (n + k) deadline d step late) w1 = thenM (nap d) (poll_loop n deadline d step late) w1"
    proof (cases "nap d w1")
      case (Pair z w2)
      show ?thesis
      proof (cases z)
        case (Inr u)
        then have "vn_clock w2 = vn_clock w1 + d" using Pair nap_clock by simp
        then have "deadline \<le> vn_clock w2 + real n * d" using Suc.prems c1 by (simp add: algebra_simps)
        from Suc.IH [OF Suc.prems(1) this] show ?thesis using Pair Inr by (simp add: thenM_def bindM_def)
      qed (simp add: Pair thenM_def bindM_def)
    qed
    then show ?thesis using poll_round [OF True] q by (simp add: bindM_def split: sum.split option.split)
  qed
qed

lemma poll_rounds_enough:
  assumes "0 < d"
  shows "poll_loop (poll_rounds timeout d + k) (vn_clock w + timeout) d step late w = poll timeout d step late w"
proof -
  have "timeout / d \<le> real (poll_rounds timeout d)" unfolding poll_rounds_def by linarith
  then have "timeout \<le> real (poll_rounds timeout d) * d" using assms by (simp add: pos_divide_le_eq)
  with assms show ?thesis by (simp add: poll_fuel poll_def bindM_def getsM_def)
qed

lemma poll_grows: "grows (poll_rounds timeout d) (poll timeout d step late)"
  using grows_bind [OF grows_basic(4) poll_loop_grows] by (simp add: poll_def)

lemma poll_stoic: "stoic step \<Longrightarrow> stoic late \<Longrightarrow> stoic (poll timeout d step late)"
proof -
  assume st: "stoic step" and la: "stoic late"
  have "stoic (poll_loop n deadline d step late)" for n deadline
  proof (induction n)
    case (Suc n)
    have "stoic (bindM step (\<lambda>r. case r of Some a \<Rightarrow> returnM a | None \<Rightarrow> thenM (nap d) (poll_loop n deadline d step late)))"
      by (intro stoic_rules st Suc.IH)
    with la show ?case
      unfolding stoic_def using poll_round [of _ deadline n d] poll_late [of _ deadline "Suc n" d] by metis
  qed (use la poll_late in \<open>simp add: stoic_def\<close>)
  then show ?thesis unfolding poll_def by (intro stoic_bind stoic_basic)
qed

lemma poll_cases:
  assumes "poll timeout d step late w = (r, w')"
  obtains (settled) w1 a where "step w1 = (Inr (Some a), w')" "r = Inr a"
  | (failed) w1 y where "step w1 = (Inl y, w')" "r = Inl y"
  | (cancelled) "r = Inl (Raised CancelledError)"
  | (late) w1 where "late w1 = (r, w')"
  using poll_result [of "poll_rounds timeout d" "vn_clock w + timeout" d w r w'] assms
  by (simp add: poll_def bindM_def getsM_def) blast

end

section \<open>Listings\<close>

locale paging =
  fixes fetch :: "pydict \<Rightarrow> page api"
  assumes fetch_answered: "fetch ps w = (Inr pg, w') \<Longrightarrow> length (vn_answers w') < length (vn_answers w)"
begin

lemma search_fuel:
  "length (vn_answers w) < n \<Longrightarrow> search_loop (n + k) fetch P ps w = search_loop n fetch P ps w"
proof (induction n arbitrary: ps w)
  case (Suc n)
  obtain q w1 where q: "fetch ps w = (q, w1)" by fastforce
  show ?case
  proof (cases q)
    case (Inr pg)
    then have "length (vn_answers w1) < n" using Suc.prems fetch_answered q by fastforce
    then show ?thesis
      using q Inr Suc.IH by (cases pg) (simp add: monad_simps split: option.split sum.split)
  qed (simp add: q bindM_def)
qed simp

lemma search_pages_fuel:
  "search_loop (Suc (length (vn_answers w)) + k) fetch P ps w = search_pages fetch P ps w"
  unfolding search_pages_def by (rule search_fuel) simp

text \<open>A found element is on the page that was read last, and it is the first match there.\<close>

lemma search_found:
  "search_loop n fetch P ps w = (Inr (Some x), w') \<Longrightarrow>
   \<exists>ps' w1 xs more. fetch ps' w1 = (Inr (xs, more), w') \<and> find P xs = Some x"
proof (induction n arbitrary: ps w)
  case (Suc n)
  obtain q w1 where q: "fetch ps w = (q, w1)" by fastforce
  show ?case
  proof (cases q)
    case (Inr pg)
    obtain xs more where pg: "pg = (xs, more)" by fastforce
    show ?thesis
    proof (cases "find P xs")
      case None
      then show ?thesis
        using Suc.prems q Inr pg Suc.IH by (auto simp: monad_simps split: sum.splits option.splits)
    next
      case (Some y)
      then have "y = x" "w1 = w'" using Suc.prems q Inr pg by (auto simp: monad_simps)
      then show ?thesis using q Inr pg Some by blast
    qed
  qed (use Suc.prems q in \<open>simp add: bindM_def\<close>)
qed (simp add: monad_simps)

end

lemma request_answered:
  "api_request tells meth path ps data w = (Inr v, w') \<Longrightarrow> length (vn_answers w') < length (vn_answers w)"
  by (auto simp: api_request_def http_send_def Let_def monad_simps split: list.splits prod.splits)

section \<open>Confirmation\<close>

locale confirmed_deletion = vendor_deletion del path for del path +
  fixes look :: "unit api"
  assumes look_404: "look w = (Inl (ApiError m (Some 404)), w') \<Longrightarrow> gone_at path w'"
    and look_one: "grows 1 look"
    and look_ticks: "ticks look"

text \<open>The confirmation is a poll.\<close>

lemma ticks_attempt: "ticks m \<Longrightarrow> ticks (attemptM m)"
  by (simp add: ticks_def attemptM_def case_prod_unfold)

sublocale confirmed_deletion \<subseteq> checks: polling "verify_step look" "returnM False"
proof
  show "ticks (verify_step look)"
    unfolding verify_step_def
    by (intro ticks_bind ticks_attempt look_ticks) (auto intro: ticks_intros split: sum.split api_exn.split)
  have "grows (1 + 0) (verify_step look)"
    unfolding verify_step_def
    by (intro grows_bind grows_attempt look_one) (auto intro: grows_intros split: sum.split api_exn.split)
  then show "grows 1 (verify_step look)" by simp
  show "grows 0 (returnM False)" by (rule grows_basic)
qed

context confirmed_deletion
begin

lemma verify_step_true: "verify_step look w = (Inr (Some b), w') \<Longrightarrow> b \<and> gone_at path w'"
  using look_404 by (auto simp: verify_step_def monad_simps split: prod.splits sum.splits api_exn.splits if_splits)

lemma stoic_verify_step: "stoic (verify_step look)"
  unfolding verify_step_def by (intro stoic_rules)

lemma verified: "verify_gone timeout d look w = (Inr True, w') \<Longrightarrow> gone_at path w'"
  unfolding verify_gone_def by (erule checks.poll_cases) (auto dest: verify_step_true simp: returnM_def)

lemma stoic_verify: "stoic (verify_gone timeout d look)"
  unfolding verify_gone_def by (intro checks.poll_stoic stoic_verify_step stoic_basic)

theorem confirmed:
  assumes "delete_and_verify n pause timeout interval del look w = (Inr True, w')"
  shows "gone_at path w'"
proof -
  from assms obtain r w1 where r: "delete_attempts n pause del w = (Inr r, w1)"
    and k: "(case r of Some b \<Rightarrow> returnM b | None \<Rightarrow> verify_gone timeout interval look) w1 = (Inr True, w')"
    unfolding delete_and_verify_def by (rule bindM_cases) (simp, rule that)
  show ?thesis
  proof (cases r)
    case None
    then show ?thesis using k verified by auto
  next
    case (Some b)
    then show ?thesis using k r attempts_gone by (auto simp: returnM_def)
  qed
qed

theorem deletion_asked:
  assumes "delete_and_verify (Suc n) pause timeout interval del look w = (r, w')"
  shows "deletes path w < deletes path w'"
proof -
  obtain q w1 where q: "delete_attempts (Suc n) pause del w = (q, w1)" by fastforce
  have "grows (poll_rounds timeout interval) (case b of Some b \<Rightarrow> returnM b | None \<Rightarrow> verify_gone timeout interval look)" for b
    by (auto intro: grows_mono [OF grows_basic(1)] checks.poll_grows simp: verify_gone_def split: option.split)
  from deletes_grow [OF this] have "deletes path w1 \<le> deletes path w'"
    using assms q by (cases q) (auto simp: delete_and_verify_def bindM_def)
  with attempts_ask [OF q] show ?thesis by simp
qed

theorem stoic_deletion: "stoic (delete_and_verify n pause timeout interval del look)"
  unfolding delete_and_verify_def by (intro stoic_rules stoic_attempts stoic_verify)

theorem delete_requests:
  "grows (n + poll_rounds timeout interval) (delete_and_verify n pause timeout interval del look)"
  unfolding delete_and_verify_def
  by (intro grows_bind attempts_grow)
     (auto intro: grows_mono [OF grows_basic(1)] checks.poll_grows simp: verify_gone_def split: option.split)

end

text \<open>The clients' DELETE and their GET with a type guard meet the contract.\<close>

lemma client_deletes: "vendor_deletion (thenM (api_request tells ''DELETE'' path [] None) (returnM ())) path"
proof
  fix m w w'
  assume "thenM (api_request tells ''DELETE'' path [] None) (returnM ()) w = (Inl (ApiError m (Some 404)), w')"
  then have "api_request tells ''DELETE'' path [] None w = (Inl (ApiError m (Some 404)), w')"
    by (auto simp: monad_simps split: prod.splits sum.splits)
  then show "gone_at path w'" by (rule request_gone) simp
next
  fix w :: vendor_net
  obtain r w' where r: "api_request tells ''DELETE'' path [] None w = (r, w')" by fastforce
  moreover have "snd (thenM (api_request tells ''DELETE'' path [] None) (returnM ()) w) = w'"
    using r by (auto simp: monad_simps split: sum.splits)
  ultimately show "\<exists>a. vn_log (snd (thenM (api_request tells ''DELETE'' path [] None) (returnM ()) w)) = vn_log w
      @ [(\<lparr>hq_method = ''DELETE'', hq_path = path, hq_params = [], hq_data = None\<rparr>, a)]"
    using request_logged [OF r] by auto
qed

lemma client_confirms:
  "confirmed_deletion (thenM (api_request tells ''DELETE'' path [] None) (returnM ())) path
     (thenM (bindM (api_request tells ''GET'' path [] None) (\<lambda>resp. if G resp then returnM (f resp) else raiseM (ApiError msg None)))
        (returnM ()))" (is "confirmed_deletion ?del path (thenM ?get (returnM ()))")
proof (intro confirmed_deletion.intro client_deletes confirmed_deletion_axioms.intro)
  fix m w w'
  assume "thenM ?get (returnM ()) w = (Inl (ApiError m (Some 404)), w')"
  then have "api_request tells ''GET'' path [] None w = (Inl (ApiError m (Some 404)), w')"
    by (auto simp: monad_simps split: prod.splits sum.splits if_splits)
  then show "gone_at path w'" by (rule request_gone) simp
next
  have "grows (1 + 0) ?get" by (intro grows_bind grows_request) (simp add: grows_basic)
  from grows_then [OF this grows_basic(1)] show "grows 1 (thenM ?get (returnM ()))" by simp
next
  show "ticks (thenM ?get (returnM ()))"
    unfolding thenM_def by (intro ticks_intros) (simp add: ticks_intros)
qed

text \<open>A loop of steps that cannot fail cannot fail.\<close>

lemma mapM_total:
  assumes "\<And>x u. x \<in> set xs \<Longrightarrow> \<exists>v u'. f x u = (Inr v, u')"
  shows "\<exists>vs u'. mapM f xs u = (Inr vs, u')"
  using assms
proof (induction xs arbitrary: u)
  case (Cons x xs)
  obtain v u1 where v: "f x u = (Inr v, u1)" using Cons.prems [of x u] by auto
  obtain vs u' where "mapM f xs u1 = (Inr vs, u')" using Cons.IH [of u1] Cons.prems by auto
  with v show ?case by (simp add: bindM_def returnM_def)
qed (simp add: returnM_def)

end
