(* ===== verification/Hetzner.thy ===== *)
theory Hetzner
  imports Vendor_Facts
begin

text \<open>
  \<open>infra/cloud/providers/hetzner.py\<close>: the REST client, the SSH key, creation of a server with the search
  for an orphan after a failed request, and deletion.  \<open>fl\<close> writes floats, which no payload here contains.
\<close>

section \<open>The client\<close>

definition hz_request :: "string \<Rightarrow> string \<Rightarrow> pydict \<Rightarrow> pydict option \<Rightarrow> pyval api" where
  "hz_request = api_request False"

text \<open>The type guards; that of the list of servers does not ask for a list, so iterating may raise.\<close>

definition hz_is_ssh_key :: "pyval \<Rightarrow> bool" where
  "hz_is_ssh_key v \<longleftrightarrow> is_dict v \<and> is_int (pget v ''id'') \<and> is_str (pget v ''name'') \<and> is_str (pget v ''fingerprint'')"

definition hz_is_ssh_key_created :: "pyval \<Rightarrow> bool" where
  "hz_is_ssh_key_created v \<longleftrightarrow> is_dict v \<and> has_key v ''ssh_key'' \<and> hz_is_ssh_key (pget v ''ssh_key'')"

definition hz_is_ssh_keys :: "pyval \<Rightarrow> bool" where
  "hz_is_ssh_keys v \<longleftrightarrow> is_dict v \<and> is_list (pget v ''ssh_keys'') \<and> list_all hz_is_ssh_key (elems_of (pget v ''ssh_keys''))"

definition hz_is_ipv4 :: "pyval \<Rightarrow> bool" where
  "hz_is_ipv4 v \<longleftrightarrow> is_dict v \<and> is_str (pget v ''ip'')"

definition hz_is_public_net :: "pyval \<Rightarrow> bool" where
  "hz_is_public_net v \<longleftrightarrow> is_dict v \<and> has_key v ''ipv4'' \<and> hz_is_ipv4 (pget v ''ipv4'')"

definition hz_is_server :: "pyval \<Rightarrow> bool" where
  "hz_is_server v \<longleftrightarrow> is_dict v \<and> is_int (pget v ''id'') \<and> is_str (pget v ''name'') \<and> has_key v ''public_net''
     \<and> hz_is_public_net (pget v ''public_net'') \<and> is_dict (pget v ''labels'')"

definition hz_is_server_response :: "pyval \<Rightarrow> bool" where
  "hz_is_server_response v \<longleftrightarrow> is_dict v \<and> has_key v ''server'' \<and> hz_is_server (pget v ''server'')"

definition hz_is_servers :: "pyval \<Rightarrow> api_exn + bool" where
  "hz_is_servers v = (if is_dict v \<and> has_key v ''servers''
     then map_sum id (list_all hz_is_server) (py_iter (pget v ''servers'')) else Inr False)"

definition hz_next :: "pyval \<Rightarrow> pydict \<Rightarrow> api_exn + pydict option" where
  "hz_next resp ps = map_sum id (\<lambda>p. if py_true p then Some (dput ''page'' p ps) else None)
     (next_page ''pagination'' ''next_page'' resp)"

definition hz_ssh_keys_page :: "pydict \<Rightarrow> page api" where
  "hz_ssh_keys_page ps = bindM (hz_request ''GET'' ''ssh_keys'' ps None) (\<lambda>resp.
     if hz_is_ssh_keys resp then returnM (elems_of (pget resp ''ssh_keys''), hz_next resp ps)
     else raiseM (ApiError ''Invalid SSH keys list response'' None))"

definition hz_servers_page :: "pydict \<Rightarrow> page api" where
  "hz_servers_page ps = bindM (hz_request ''GET'' ''servers'' ps None) (\<lambda>resp.
     bindM (fromSum (hz_is_servers resp)) (\<lambda>ok.
       if ok then returnM (elems_of (pget resp ''servers''), hz_next resp ps)
       else raiseM (ApiError ''Invalid servers list response'' None)))"

definition hz_create_ssh_key :: "string \<Rightarrow> string \<Rightarrow> pyval api" where
  "hz_create_ssh_key name pub =
     bindM (hz_request ''POST'' ''ssh_keys'' [] (Some [(''name'', PStr name), (''public_key'', PStr pub)])) (\<lambda>resp.
       if hz_is_ssh_key_created resp then returnM (pget resp ''ssh_key'')
       else raiseM (ApiError ''Invalid create SSH key response'' None))"

definition hz_server_path :: "pyval \<Rightarrow> string" where
  "hz_server_path i = ''servers/'' @ int_text i"

definition hz_get_server :: "pyval \<Rightarrow> pyval api" where
  "hz_get_server i = bindM (hz_request ''GET'' (hz_server_path i) [] None) (\<lambda>resp.
     if hz_is_server_response resp then returnM (pget resp ''server'')
     else raiseM (ApiError ''Invalid get server response'' None))"

definition hz_create_server :: "pydict \<Rightarrow> pyval api" where
  "hz_create_server data = bindM (hz_request ''POST'' ''servers'' [] (Some data)) (\<lambda>resp.
     if hz_is_server_response resp then returnM (pget resp ''server'')
     else raiseM (ApiError ''Invalid create server response'' None))"

definition hz_delete_server :: "pyval \<Rightarrow> unit api" where
  "hz_delete_server i = thenM (hz_request ''DELETE'' (hz_server_path i) [] None) (returnM ())"

section \<open>The SSH key\<close>

definition hz_resolve_key :: "ssh_key \<Rightarrow> pyval option api" where
  "hz_resolve_key key =
     (let f = sk_md5 key; fp = (if starts_with ''MD5:'' f then drop 4 f else f) in
      bindM (search_pages hz_ssh_keys_page (\<lambda>_. True)
          ([(''page'', PInt 1), (''per_page'', PInt 25)] @ (if fp \<noteq> [] then [(''fingerprint'', PStr fp)] else [])))
        (\<lambda>k. returnM (map_option (\<lambda>v. pget v ''id'') k)))"

definition hz_ensure_key :: "ssh_key \<Rightarrow> string \<Rightarrow> pyval api" where
  "hz_ensure_key key name = bindM (hz_resolve_key key) (\<lambda>k. case k of
       Some i \<Rightarrow> returnM i
     | None \<Rightarrow> bindM (hz_create_ssh_key name (sk_public key)) (\<lambda>v. returnM (pget v ''id'')))"

section \<open>Deletion\<close>

definition hz_delete_and_verify :: "pyval \<Rightarrow> bool api" where
  "hz_delete_and_verify i =
     delete_and_verify 3 5 120 5 (hz_delete_server i) (thenM (hz_get_server i) (returnM ()))"

definition hetzner_delete_node :: "hetzner_config \<Rightarrow> string \<Rightarrow> unit api" where
  "hetzner_delete_node cfg ext = (case py_int ext of
       None \<Rightarrow> raiseM (ApiError (''Invalid Hetzner server id '' @ ext) None)
     | Some i \<Rightarrow> bindM (hz_delete_and_verify (PInt i)) (\<lambda>gone.
         if gone then returnM ()
         else raiseM (ApiError (''Server '' @ show_int i
                @ '' delete not confirmed gone -- cloud VM may still bill; orchestrator will retry next cycle'') None)))"

section \<open>Orphans of a failed creation\<close>

definition hz_label_key :: string where
  "hz_label_key = ''yascheduler/reconcile''"

definition hz_label_params :: "string \<Rightarrow> pydict" where
  "hz_label_params label = [(''page'', PInt 1), (''per_page'', PInt 25), (''label_selector'', PStr (hz_label_key @ ''='' @ label))]"

text \<open>Phase 1 looks for the server by its label, in at most five listings ten seconds apart; a listing
  that raises anything counts as empty.\<close>

fun hz_find_orphan :: "nat \<Rightarrow> string \<Rightarrow> pyval option api" where
  "hz_find_orphan 0 label = returnM None"
| "hz_find_orphan (Suc n) label = bindM (attemptM (search_pages hz_servers_page (\<lambda>_. True) (hz_label_params label))) (\<lambda>r.
     case r of
       Inr (Some server) \<Rightarrow> returnM (Some (pget server ''id''))
     | _ \<Rightarrow> if 0 < n then thenM (nap 10) (hz_find_orphan n label) else returnM None)"

text \<open>Phase 2 deletes it by its id, in at most five rounds.\<close>

fun hz_delete_orphan :: "nat \<Rightarrow> pyval \<Rightarrow> unit api" where
  "hz_delete_orphan 0 i = returnM ()"
| "hz_delete_orphan (Suc n) i = bindM (hz_delete_and_verify i) (\<lambda>gone.
     if gone then returnM ()
     else if 0 < n then thenM (nap 10) (hz_delete_orphan n i) else returnM ())"

definition hz_reconcile :: "string \<Rightarrow> unit api" where
  "hz_reconcile label = bindM (hz_find_orphan 5 label) (\<lambda>found. case found of
       None \<Rightarrow> returnM ()
     | Some i \<Rightarrow> hz_delete_orphan 5 i)"

section \<open>Creation\<close>

definition hz_server_data :: "hetzner_config \<Rightarrow> pyval \<Rightarrow> string \<Rightarrow> string \<Rightarrow> pydict" where
  "hz_server_data cfg key_id user_data label =
     [(''name'', PStr label), (''server_type'', PStr (hz_server_type cfg)), (''image'', PStr (hz_image_name cfg)),
      (''ssh_keys'', PList [key_id]), (''user_data'', PStr user_data), (''location'', PStr (hz_location cfg)),
      (''labels'', PDict [(hz_label_key, PStr label)])]"

definition jump_user :: "string option \<Rightarrow> string" where
  "jump_user u = (case u of Some n \<Rightarrow> if n = [] then ''root'' else n | None \<Rightarrow> ''root'')"

definition hz_dto :: "hetzner_config \<Rightarrow> pyval \<Rightarrow> string \<Rightarrow> create_dto" where
  "hz_dto cfg i ip = \<lparr>dto_external_id = int_text i, dto_hostname = ip, dto_username = hz_username cfg, dto_port = 22,
     dto_jump_host = cb_jump_host cfg, dto_jump_port = cb_jump_port cfg, dto_jump_username = jump_user (cb_jump_username cfg)\<rparr>"

definition hz_launch :: "hetzner_config \<Rightarrow> pyval \<Rightarrow> string \<Rightarrow> string \<Rightarrow> create_dto api" where
  "hz_launch cfg key_id user_data label =
     bindM (catchM (hz_create_server (hz_server_data cfg key_id user_data label))
              (\<lambda>x. thenM (hz_reconcile label) (raiseM x))) (\<lambda>server.
       let i = pget server ''id''; ip = str_of (pget (pget (pget server ''public_net'') ''ipv4'') ''ip'') in
       if ip = [] then thenM (hz_reconcile label) (raiseM (ApiError (''Create returned empty IPv4 for server '' @ int_text i) None))
       else returnM (hz_dto cfg i ip))"

definition hetzner_create_node ::
  "(rat \<Rightarrow> string) \<Rightarrow> hetzner_config \<Rightarrow> ssh_key \<Rightarrow> cloud_init option \<Rightarrow> create_dto api" where
  "hetzner_create_node fl cfg key cloud_config =
     (let base = (case cloud_config of None \<Rightarrow> cloud_init0 | Some c \<Rightarrow> c);
          user_data = render fl (base\<lparr>ci_users := build_cloud_init_users (hz_username cfg) (sk_public key)\<rparr>)
      in bindM (hz_ensure_key key (get_key_name key)) (\<lambda>key_id.
           bindM (get_rnd_name (cb_label cfg)) (\<lambda>label. hz_launch cfg key_id user_data label)))"

section \<open>What deletion promises\<close>

interpretation hz_gone: confirmed_deletion "hz_delete_server i" "hz_server_path i" "thenM (hz_get_server i) (returnM ())" for i
  unfolding hz_delete_server_def hz_get_server_def hz_request_def by (rule client_confirms)

interpretation hz_pages: paging hz_servers_page
  by unfold_locales (auto simp: hz_servers_page_def hz_request_def monad_simps split: prod.splits sum.splits if_splits
    dest: request_answered)

lemma hz_path_int: "hz_server_path (PInt i) = ''servers/'' @ show_int i"
  by (simp add: hz_server_path_def int_text_def)

lemma hz_confirmed: "hz_delete_and_verify i w = (Inr True, w') \<Longrightarrow> gone_at (hz_server_path i) w'"
  unfolding hz_delete_and_verify_def by (rule hz_gone.confirmed)

lemma hz_stoic: "stoic (hz_delete_and_verify i)"
  unfolding hz_delete_and_verify_def by (rule hz_gone.stoic_deletion)

lemma hz_delete_grows: "grows 27 (hz_delete_and_verify i)"
proof -
  have "poll_rounds 120 5 = 24" by (simp add: poll_rounds_def)
  then show ?thesis
    using hz_gone.delete_requests [of 3 120 5 5 i] by (simp add: hz_delete_and_verify_def)
qed

lemma hz_delete_asked: "hz_delete_and_verify i w = (r, w') \<Longrightarrow> deletes (hz_server_path i) w < deletes (hz_server_path i) w'"
  unfolding hz_delete_and_verify_def numeral_3_eq_3 by (rule hz_gone.deletion_asked)

theorem hetzner_delete_outcome:
  assumes "hetzner_delete_node cfg ext w = (r, w')"
  shows "case r of
      Inr _ \<Rightarrow> \<exists>i. py_int ext = Some i \<and> gone_at (''servers/'' @ show_int i) w'
    | Inl x \<Rightarrow> (\<exists>m. x = ApiError m None) \<or> \<not> api_Exception x"
proof (cases "py_int ext")
  case None
  then show ?thesis using assms by (auto simp: hetzner_delete_node_def raiseM_def)
next
  case (Some i)
  obtain q w1 where q: "hz_delete_and_verify (PInt i) w = (q, w1)" by fastforce
  show ?thesis
  proof (cases q)
    case (Inl x)
    then show ?thesis
      using assms Some q stoicD [OF hz_stoic] by (auto simp: hetzner_delete_node_def bindM_def)
  next
    case (Inr b)
    then show ?thesis
      using assms Some q hz_confirmed [of "PInt i" w w1]
      by (cases b) (auto simp: hetzner_delete_node_def monad_simps hz_path_int)
  qed
qed

theorem hetzner_delete_requests: "grows 27 (hetzner_delete_node cfg ext)"
proof (cases "py_int ext")
  case None
  then show ?thesis by (auto simp: hetzner_delete_node_def intro: grows_mono [OF grows_basic(2)])
next
  case (Some i)
  have "grows (27 + 0) (hetzner_delete_node cfg ext)"
    unfolding hetzner_delete_node_def Some option.case
    by (intro grows_bind hz_delete_grows) (simp add: grows_basic)
  then show ?thesis by simp
qed

section \<open>What creation promises\<close>

text \<open>Phase 2: confirmed gone, tried \<open>n\<close> times, or cancelled.\<close>

lemma hz_orphan_outcome:
  "hz_delete_orphan n i w = (r, w') \<Longrightarrow> 0 < n \<Longrightarrow>
   gone_at (hz_server_path i) w' \<or> deletes (hz_server_path i) w + n \<le> deletes (hz_server_path i) w'
   \<or> (\<exists>x. r = Inl x \<and> \<not> api_Exception x)"
proof (induction n arbitrary: w)
  case (Suc n)
  obtain q w1 where q: "hz_delete_and_verify i w = (q, w1)" by fastforce
  note more = hz_delete_asked [OF q]
  show ?case
  proof (cases q)
    case (Inl x)
    then show ?thesis using Suc.prems q stoicD [OF hz_stoic] by (auto simp: bindM_def)
  next
    case (Inr b)
    show ?thesis
    proof (cases "b \<or> n = 0")
      case True
      then show ?thesis
        using Suc.prems q Inr more hz_confirmed [of i w w1] by (auto simp: bindM_def returnM_def split: if_splits)
    next
      case False
      obtain z w2 where z: "nap 10 w1 = (z, w2)" by fastforce
      show ?thesis
      proof (cases z)
        case (Inl x)
        then show ?thesis
          using Suc.prems q Inr False z nap_raise [of 10 w1 x w2]
          by (auto simp: thenM_def bindM_def api_Exception_def is_Exception_def)
      next
        case (Inr u)
        have d: "deletes (hz_server_path i) w1 \<le> deletes (hz_server_path i) w2"
          by (rule deletes_grow [OF grows_basic(5) z])
        have "hz_delete_orphan n i w2 = (r, w')"
          using Suc.prems q \<open>q = Inr b\<close> False z Inr by (auto simp: thenM_def bindM_def)
        from Suc.IH [OF this] False more d show ?thesis by auto
      qed
    qed
  qed
qed simp

definition hz_pursued :: "string \<Rightarrow> vendor_net \<Rightarrow> vendor_net \<Rightarrow> bool" where
  "hz_pursued label w w' \<longleftrightarrow> (\<exists>found w1. hz_find_orphan 5 label w = (Inr found, w1) \<and>
     (case found of None \<Rightarrow> w' = w1
      | Some i \<Rightarrow> gone_at (hz_server_path i) w' \<or> deletes (hz_server_path i) w1 + 5 \<le> deletes (hz_server_path i) w'))"

lemma stoic_find: "stoic (hz_find_orphan n label)"
proof (induction n)
  case (Suc n)
  show ?case unfolding hz_find_orphan.simps by (intro stoic_rules Suc.IH)
qed (simp add: stoic_basic)

lemma stoic_delete_orphan: "stoic (hz_delete_orphan n i)"
proof (induction n)
  case (Suc n)
  show ?case unfolding hz_delete_orphan.simps by (intro stoic_rules hz_stoic Suc.IH)
qed (simp add: stoic_basic)

lemma hz_reconcile_outcome:
  assumes "hz_reconcile label w = (r, w')"
  shows "(r = Inr () \<and> hz_pursued label w w') \<or> (\<exists>x. r = Inl x \<and> \<not> api_Exception x)"
proof -
  obtain q w1 where q: "hz_find_orphan 5 label w = (q, w1)" by fastforce
  show ?thesis
  proof (cases q)
    case (Inl x)
    then show ?thesis using assms q stoicD [OF stoic_find] by (auto simp: hz_reconcile_def bindM_def)
  next
    case (Inr found)
    show ?thesis
    proof (cases found)
      case None
      then show ?thesis using assms q Inr by (auto simp: hz_reconcile_def bindM_def returnM_def hz_pursued_def)
    next
      case (Some i)
      then have run: "hz_delete_orphan 5 i w1 = (r, w')" using assms q Inr by (simp add: hz_reconcile_def bindM_def)
      from hz_orphan_outcome [OF this] stoicD [OF stoic_delete_orphan] run q Inr Some show ?thesis
        by (cases r) (auto simp: hz_pursued_def)
    qed
  qed
qed

definition hz_posted :: "string \<Rightarrow> http_answer \<Rightarrow> vendor_net \<Rightarrow> bool" where
  "hz_posted label a w \<longleftrightarrow> vn_log w \<noteq> [] \<and> (\<exists>q d. last (vn_log w) = (q, a) \<and> hq_method q = ''POST'' \<and> hq_path q = ''servers''
     \<and> hq_data q = Some d \<and> dget d ''name'' = Some (PStr label) \<and> dget d ''labels'' = Some (PDict [(hz_label_key, PStr label)]))"

lemma hz_posting:
  assumes "hz_create_server (hz_server_data cfg key_id user_data label) w = (r, w')"
  shows "\<exists>a. hz_posted label a w' \<and> (\<forall>server. r = Inr server \<longrightarrow>
    (\<exists>resp. read_answer False a = Inr resp \<and> hz_is_server_response resp \<and> server = pget resp ''server''))"
proof -
  obtain q w1 where q: "api_request False ''POST'' ''servers'' [] (Some (hz_server_data cfg key_id user_data label)) w = (q, w1)"
    by fastforce
  have w1: "w' = w1" using assms q by (auto simp: hz_create_server_def hz_request_def monad_simps split: sum.splits if_splits)
  from request_logged [OF q] obtain a where a: "vn_log w1 = vn_log w @ [(\<lparr>hq_method = ''POST'', hq_path = ''servers'',
      hq_params = [], hq_data = Some (hz_server_data cfg key_id user_data label)\<rparr>, a)]" "q = read_answer False a" by blast
  have "hz_posted label a w1" using a(1) by (simp add: hz_posted_def hz_server_data_def)
  moreover have "\<exists>resp. read_answer False a = Inr resp \<and> hz_is_server_response resp \<and> server = pget resp ''server''"
    if "r = Inr server" for server
    using assms q that a(2) by (auto simp: hz_create_server_def hz_request_def monad_simps split: sum.splits if_splits)
  ultimately show ?thesis using w1 by blast
qed

lemma hz_launch_outcome:
  assumes "hz_launch cfg key_id user_data label w = (r, w')"
  shows "case r of
      Inr dto \<Rightarrow> \<exists>a resp. hz_posted label a w' \<and> read_answer False a = Inr resp \<and> hz_is_server_response resp
        \<and> dto_hostname dto \<noteq> [] \<and> dto = hz_dto cfg (pget (pget resp ''server'') ''id'') (dto_hostname dto)
        \<and> dto_hostname dto = str_of (pget (pget (pget (pget resp ''server'') ''public_net'') ''ipv4'') ''ip'')
    | Inl x \<Rightarrow> \<exists>a w1. hz_posted label a w1 \<and> (hz_pursued label w1 w' \<or> \<not> api_Exception x)"
proof -
  obtain q w1 where q: "hz_create_server (hz_server_data cfg key_id user_data label) w = (q, w1)" by fastforce
  from hz_posting [OF q] obtain a where a: "hz_posted label a w1"
    "\<forall>server. q = Inr server \<longrightarrow> (\<exists>resp. read_answer False a = Inr resp \<and> hz_is_server_response resp \<and> server = pget resp ''server'')"
    by blast
  have rec: "\<exists>x. e = Inl x \<and> (hz_pursued label w1 u \<or> \<not> api_Exception x)"
    if "thenM (hz_reconcile label) (raiseM y) w1 = (e, u)" for y and e :: "api_exn + 'b" and u
  proof -
    obtain z w2 where z: "hz_reconcile label w1 = (z, w2)" by fastforce
    from hz_reconcile_outcome [OF z] z that show ?thesis by (auto simp: thenM_def bindM_def raiseM_def)
  qed
  show ?thesis
  proof (cases q)
    case (Inl y)
    obtain e u where e: "thenM (hz_reconcile label) (raiseM y) w1 = (e :: api_exn + pyval, u)" by fastforce
    from rec [OF e] obtain x where x: "e = Inl x" "hz_pursued label w1 u \<or> \<not> api_Exception x" by blast
    then have "r = Inl x" "w' = u" using assms q Inl e by (simp_all add: hz_launch_def catchM_def bindM_def)
    with x a(1) show ?thesis by auto
  next
    case (Inr server)
    let ?ip = "str_of (pget (pget (pget server ''public_net'') ''ipv4'') ''ip'')"
    show ?thesis
    proof (cases "?ip = []")
      case True
      then have "\<exists>y. thenM (hz_reconcile label) (raiseM y) w1 = (r, w')"
        using assms q Inr by (auto simp: hz_launch_def catchM_def bindM_def [of "\<lambda>s. case _ s of _ \<Rightarrow> _"] bindM_Inr Let_def)
      with rec a(1) show ?thesis by fastforce
    next
      case False
      then have "r = Inr (hz_dto cfg (pget server ''id'') ?ip)" "w' = w1"
        using assms q Inr by (auto simp: hz_launch_def catchM_def bindM_def returnM_def Let_def)
      moreover obtain resp where "read_answer False a = Inr resp" "hz_is_server_response resp" "server = pget resp ''server''"
        using a(2) Inr by blast
      ultimately show ?thesis using a(1) False by (auto simp: hz_dto_def)
    qed
  qed
qed

lemma hz_key_asks: "keeps (asked (\<lambda>q. hq_path q = ''ssh_keys'') l0) (hz_ensure_key key name)"
  unfolding hz_ensure_key_def hz_resolve_key_def hz_create_ssh_key_def hz_ssh_keys_page_def hz_request_def Let_def
  by (intro keeps_intros asked_search asked_request) simp_all

theorem hetzner_create_outcome:
  assumes "hetzner_create_node fl cfg key cc w = (r, w')"
  shows "case r of
      Inr dto \<Rightarrow> \<exists>label a resp. hz_posted label a w' \<and> read_answer False a = Inr resp \<and> hz_is_server_response resp
        \<and> dto_hostname dto \<noteq> [] \<and> dto = hz_dto cfg (pget (pget resp ''server'') ''id'') (dto_hostname dto)
        \<and> dto_hostname dto = str_of (pget (pget (pget (pget resp ''server'') ''public_net'') ''ipv4'') ''ip'')
    | Inl x \<Rightarrow> asked (\<lambda>q. hq_path q = ''ssh_keys'') (vn_log w) w'
        \<or> (\<exists>label a w1. hz_posted label a w1 \<and> (hz_pursued label w1 w' \<or> \<not> api_Exception x))"
proof -
  let ?asked = "asked (\<lambda>q. hq_path q = ''ssh_keys'') (vn_log w)"
  obtain q w1 where q: "hz_ensure_key key (get_key_name key) w = (q, w1)" by fastforce
  have a1: "?asked w1" using keepsD' [OF hz_key_asks _ q] by simp
  obtain z w2 where z: "get_rnd_name (cb_label cfg) w1 = (z, w2)" by fastforce
  have a2: "?asked w2" using keepsD' [OF asked_name a1 z] .
  show ?thesis
  proof (cases q)
    case (Inl x)
    then show ?thesis using assms q a1 by (auto simp: hetzner_create_node_def Let_def bindM_def)
  next
    case (Inr kid)
    show ?thesis
    proof (cases z)
      case (Inl x)
      then show ?thesis using assms q \<open>q = Inr kid\<close> z a2 by (auto simp: hetzner_create_node_def Let_def bindM_def)
    next
      case (Inr label)
      then have "\<exists>ud. hz_launch cfg kid ud label w2 = (r, w')"
        using assms q \<open>q = Inr kid\<close> z by (auto simp: hetzner_create_node_def Let_def bindM_def)
      then obtain ud where "hz_launch cfg kid ud label w2 = (r, w')" ..
      from hz_launch_outcome [OF this] show ?thesis by (cases r) auto
    qed
  qed
qed

end
