(* ===== verification/Vultr.thy ===== *)
theory Vultr
  imports Hetzner
begin

text \<open>
  \<open>infra/cloud/providers/vultr.py\<close>: the REST client, the SSH key, the user data of a bare-metal machine,
  its creation with the wait until it is active, and deletion.  The lock around the SSH key's upload is
  not modelled: one run of the provider at a time.
\<close>

section \<open>The client\<close>

definition vu_request :: "string \<Rightarrow> string \<Rightarrow> pydict \<Rightarrow> pydict option \<Rightarrow> pyval api" where
  "vu_request = api_request False"

definition vu_is_ssh_key :: "pyval \<Rightarrow> bool" where
  "vu_is_ssh_key v \<longleftrightarrow> is_dict v \<and> is_str (pget v ''id'') \<and> is_str (pget v ''ssh_key'')"

definition vu_is_ssh_keys :: "pyval \<Rightarrow> bool" where
  "vu_is_ssh_keys v \<longleftrightarrow> is_dict v \<and> is_list (pget v ''ssh_keys'') \<and> list_all vu_is_ssh_key (elems_of (pget v ''ssh_keys''))"

definition vu_is_ssh_key_created :: "pyval \<Rightarrow> bool" where
  "vu_is_ssh_key_created v \<longleftrightarrow> is_dict v \<and> vu_is_ssh_key (pget v ''ssh_key'')"

definition vu_is_metal :: "pyval \<Rightarrow> bool" where
  "vu_is_metal v \<longleftrightarrow> is_dict v \<and> is_str (pget v ''id'')
     \<and> (has_key v ''label'' \<longrightarrow> is_str (pget v ''label'')) \<and> (has_key v ''status'' \<longrightarrow> is_str (pget v ''status''))
     \<and> (has_key v ''main_ip'' \<longrightarrow> is_str (pget v ''main_ip''))"

definition vu_is_metal_response :: "pyval \<Rightarrow> bool" where
  "vu_is_metal_response v \<longleftrightarrow> is_dict v \<and> vu_is_metal (pget v ''bare_metal'')"

definition vu_is_metals :: "pyval \<Rightarrow> bool" where
  "vu_is_metals v \<longleftrightarrow> is_dict v \<and> is_list (pget v ''bare_metals'') \<and> list_all vu_is_metal (elems_of (pget v ''bare_metals''))
     \<and> (has_key v ''meta'' \<longrightarrow> is_dict (pget v ''meta''))"

definition vu_next :: "pyval \<Rightarrow> pydict \<Rightarrow> api_exn + pydict option" where
  "vu_next resp ps = map_sum id (\<lambda>c. if py_true c then Some (dput ''cursor'' c ps) else None) (next_page ''links'' ''next'' resp)"

definition vu_ssh_keys_page :: "pydict \<Rightarrow> page api" where
  "vu_ssh_keys_page ps = bindM (vu_request ''GET'' ''ssh-keys'' ps None) (\<lambda>resp.
     if vu_is_ssh_keys resp then returnM (elems_of (pget resp ''ssh_keys''), vu_next resp ps)
     else raiseM (ApiError ''Invalid SSH keys list response'' None))"

definition vu_metals_page :: "pydict \<Rightarrow> page api" where
  "vu_metals_page ps = bindM (vu_request ''GET'' ''bare-metals'' ps None) (\<lambda>resp.
     if vu_is_metals resp then returnM (elems_of (pget resp ''bare_metals''), vu_next resp ps)
     else raiseM (ApiError ''Invalid bare-metals list response'' None))"

definition vu_create_ssh_key :: "string \<Rightarrow> string \<Rightarrow> string api" where
  "vu_create_ssh_key name pub =
     bindM (vu_request ''POST'' ''ssh-keys'' [] (Some [(''name'', PStr name), (''ssh_key'', PStr pub)])) (\<lambda>resp.
       if vu_is_ssh_key_created resp then returnM (str_of (pget (pget resp ''ssh_key'') ''id''))
       else raiseM (ApiError ''Cannot create SSH key'' None))"

definition vu_metal_path :: "string \<Rightarrow> string" where
  "vu_metal_path i = ''bare-metals/'' @ i"

definition vu_create_metal :: "pydict \<Rightarrow> pyval api" where
  "vu_create_metal data = bindM (vu_request ''POST'' ''bare-metals'' [] (Some data)) (\<lambda>resp.
     if vu_is_metal_response resp then returnM (pget resp ''bare_metal'')
     else raiseM (ApiError ''Invalid create Bare Metal response'' None))"

definition vu_get_metal :: "string \<Rightarrow> pyval api" where
  "vu_get_metal i = bindM (vu_request ''GET'' (vu_metal_path i) [] None) (\<lambda>resp.
     if vu_is_metal_response resp then returnM (pget resp ''bare_metal'')
     else raiseM (ApiError ''Invalid get Bare Metal response'' None))"

definition vu_delete_metal :: "string \<Rightarrow> unit api" where
  "vu_delete_metal i = thenM (vu_request ''DELETE'' (vu_metal_path i) [] None) (returnM ())"

section \<open>The SSH key\<close>

definition vu_ssh_key_id :: "ssh_key \<Rightarrow> string api" where
  "vu_ssh_key_id key = (let pub = strip (sk_public key) in
     bindM (search_pages vu_ssh_keys_page (\<lambda>k. strip (str_of (pget k ''ssh_key'')) = pub) [(''per_page'', PInt 500)]) (\<lambda>found.
       case found of
         Some k \<Rightarrow> returnM (str_of (pget k ''id''))
       | None \<Rightarrow> vu_create_ssh_key (get_key_name key) pub))"

section \<open>User data\<close>

definition vu_base_packages :: "string list" where
  "vu_base_packages = [''openmpi-bin'', ''openmpi-common'', ''libopenmpi-dev'', ''libscalapack-openmpi-dev'', ''libxml2-dev'',
     ''libblas-dev'', ''liblapack-dev'', ''build-essential'', ''gfortran'', ''cmake'', ''git'']"

definition dq :: string where
  "dq = [CHR 0x22]"

definition sq :: string where
  "sq = [CHR 0x27]"

definition bs_n :: string where
  "bs_n = [CHR 0x5C, CHR ''n'']"

definition vu_raid_commands :: "string list" where
  "vu_raid_commands =
     [''mdadm --create /dev/md0 --level=0 --raid-devices=2 /dev/nvme0n1 /dev/nvme1n1 --force'',
      ''mkfs.ext4 -b 4096 -E stride=128,stripe-width=256 /dev/md0'',
      ''UUID=$(blkid -s UUID -o value /dev/md0) && echo '' @ dq @ ''UUID=$UUID /data ext4 defaults 0 2'' @ dq
        @ '' >> /etc/fstab && mount /data'',
      ''mdadm --detail --scan >> /etc/mdadm/mdadm.conf'',
      ''update-initramfs -u'',
      ''echo '' @ sq @ ''tmpfs /dev/shm tmpfs defaults,size=200G 0 0'' @ sq @ '' >> /etc/fstab'',
      ''mount -o remount /dev/shm'']"

definition vu_tail_commands :: "string list" where
  "vu_tail_commands =
     [''printf '' @ sq @ ''* soft nofile 65536'' @ bs_n @ ''* hard nofile 65536'' @ bs_n @ ''root soft nofile 65536'' @ bs_n
        @ ''root hard nofile 65536'' @ bs_n @ sq @ '' >> /etc/security/limits.conf'',
      ''ln -sf /usr/lib/x86_64-linux-gnu/libscalapack-openmpi.so.2.2.1 /usr/lib/x86_64-linux-gnu/libscalapack-openmpi.so.2.1'',
      ''ln -sf /usr/lib/x86_64-linux-gnu/libscalapack-openmpi.so.2.2.1 /usr/lib/x86_64-linux-gnu/libscalapack-openmpi.so.2.2'']"

text \<open>\<open>list(dict.fromkeys(xs))\<close> keeps the first occurrence of each element.\<close>

fun first_occurrences :: "'a list \<Rightarrow> 'a list" where
  "first_occurrences [] = []"
| "first_occurrences (x # xs) = x # filter (\<lambda>y. y \<noteq> x) (first_occurrences xs)"

definition baremetal_config :: "string \<Rightarrow> string \<Rightarrow> cloud_init option \<Rightarrow> bool \<Rightarrow> cloud_init" where
  "baremetal_config username pub cc need_raid =
     (let base = (case cc of None \<Rightarrow> cloud_init0 | Some c \<Rightarrow> c) in
      \<lparr>ci_bootcmd = ci_bootcmd base,
       ci_runcmd = [''mkdir -p /data''] @ (if need_raid then vu_raid_commands else [])
         @ (if username \<noteq> ''root'' then [''chown -R '' @ username @ '':'' @ username @ '' /data''] else []) @ vu_tail_commands,
       ci_package_upgrade = ci_package_upgrade base,
       ci_packages = first_occurrences (vu_base_packages @ (if need_raid then [''mdadm''] else []) @ ci_packages base),
       ci_users = build_cloud_init_users username pub\<rparr>)"

definition build_baremetal_user_data :: "(rat \<Rightarrow> string) \<Rightarrow> string \<Rightarrow> string \<Rightarrow> cloud_init option \<Rightarrow> bool \<Rightarrow> string" where
  "build_baremetal_user_data fl username pub cc need_raid = render fl (baremetal_config username pub cc need_raid)"

section \<open>Deletion\<close>

definition vu_delete_and_verify :: "string \<Rightarrow> bool api" where
  "vu_delete_and_verify i = delete_and_verify 3 5 180 10 (vu_delete_metal i) (thenM (vu_get_metal i) (returnM ()))"

definition vultr_delete_node :: "string \<Rightarrow> unit api" where
  "vultr_delete_node ext = bindM (vu_delete_and_verify ext) (\<lambda>gone.
     if gone then returnM ()
     else raiseM (ApiError (''Bare-metal '' @ ext
            @ '' delete not confirmed gone -- cloud VM may still bill; orchestrator will retry next cycle'') None))"

section \<open>Creation\<close>

definition quietly :: "'a api \<Rightarrow> unit api" where
  "quietly m = bindM (attemptM m) (\<lambda>_. returnM ())"

definition vu_label_is :: "string \<Rightarrow> pyval \<Rightarrow> bool" where
  "vu_label_is label v \<longleftrightarrow> pget v ''label'' = PStr label \<and> str_of (pget v ''id'') \<noteq> []"

text \<open>Ten listings fifteen seconds apart, until one shows a machine with the label; that one is deleted once.\<close>

fun vu_reconcile :: "nat \<Rightarrow> string \<Rightarrow> unit api" where
  "vu_reconcile 0 label = returnM ()"
| "vu_reconcile (Suc n) label =
     bindM (attemptM (search_pages vu_metals_page (vu_label_is label) [(''per_page'', PInt 500)])) (\<lambda>r. case r of
       Inr (Some m) \<Rightarrow> thenM (vu_delete_and_verify (str_of (pget m ''id''))) (returnM ())
     | _ \<Rightarrow> if 0 < n then thenM (nap 15) (vu_reconcile n label) else returnM ())"

text \<open>One look at the new machine: its address once it is active, \<open>None\<close> to look again.\<close>

definition vu_ready :: "pyval \<Rightarrow> string option" where
  "vu_ready m = (let ip = str_of (pget m ''main_ip'') in
     if str_of (pget m ''status'') = ''active'' \<and> ip \<noteq> [] \<and> ip \<noteq> ''0.0.0.0'' then Some ip else None)"

definition vu_look :: "string \<Rightarrow> string option api" where
  "vu_look i = bindM (attemptM (vu_get_metal i)) (\<lambda>r. case r of
       Inl (ApiError m st) \<Rightarrow> if transient_status st then returnM None else raiseM (ApiError m st)
     | Inl (Raised e) \<Rightarrow> raiseM (Raised e)
     | Inr m \<Rightarrow> returnM (vu_ready m))"

definition vu_wait :: "string \<Rightarrow> string api" where
  "vu_wait i = poll 1200 20 (vu_look i) (raiseM (ApiError (''Bare-metal '' @ i @ '' did not become active in 1200s'') None))"

definition vu_metal_data :: "vultr_config \<Rightarrow> string \<Rightarrow> string \<Rightarrow> string \<Rightarrow> pydict" where
  "vu_metal_data cfg key_id user_data label =
     [(''region'', PStr (vu_location cfg)), (''plan'', PStr (vu_server_type cfg)), (''os_id'', PInt (vu_image_name cfg)),
      (''label'', PStr label), (''hostname'', PStr label), (''sshkey_id'', PList [PStr key_id]),
      (''user_data'', PStr user_data), (''enable_ipv6'', PBool True)]"

definition vu_dto :: "vultr_config \<Rightarrow> string \<Rightarrow> string \<Rightarrow> create_dto" where
  "vu_dto cfg i ip = \<lparr>dto_external_id = i, dto_hostname = ip, dto_username = vu_username cfg, dto_port = 22,
     dto_jump_host = cb_jump_host cfg, dto_jump_port = cb_jump_port cfg, dto_jump_username = jump_user (cb_jump_username cfg)\<rparr>"

definition vu_launch :: "vultr_config \<Rightarrow> string \<Rightarrow> string \<Rightarrow> string \<Rightarrow> create_dto api" where
  "vu_launch cfg key_id user_data label =
     bindM (catchM (vu_create_metal (vu_metal_data cfg key_id user_data label))
              (\<lambda>x. thenM (quietly (vu_reconcile 10 label)) (raiseM x))) (\<lambda>m.
       let i = str_of (pget m ''id'') in
       catchM (bindM (vu_wait i) (\<lambda>ip. returnM (vu_dto cfg i ip)))
         (\<lambda>x. thenM (quietly (vu_delete_and_verify i)) (raiseM x)))"

definition vultr_create_node ::
  "(rat \<Rightarrow> string) \<Rightarrow> vultr_config \<Rightarrow> ssh_key \<Rightarrow> cloud_init option \<Rightarrow> create_dto api" where
  "vultr_create_node fl cfg key cc =
     bindM (get_rnd_name (cb_label cfg)) (\<lambda>label.
       bindM (vu_ssh_key_id key) (\<lambda>key_id.
         vu_launch cfg key_id (b64_encode (build_baremetal_user_data fl (vu_username cfg) (sk_public key) cc (vu_need_raid cfg))) label))"

section \<open>What deletion promises\<close>

interpretation vu_gone: confirmed_deletion "vu_delete_metal i" "vu_metal_path i" "thenM (vu_get_metal i) (returnM ())" for i
  unfolding vu_delete_metal_def vu_get_metal_def vu_request_def by (rule client_confirms)

lemma vu_confirmed: "vu_delete_and_verify i w = (Inr True, w') \<Longrightarrow> gone_at (vu_metal_path i) w'"
  unfolding vu_delete_and_verify_def by (rule vu_gone.confirmed)

lemma vu_stoic: "stoic (vu_delete_and_verify i)"
  unfolding vu_delete_and_verify_def by (rule vu_gone.stoic_deletion)

lemma vu_delete_asked: "vu_delete_and_verify i w = (r, w') \<Longrightarrow> deletes (vu_metal_path i) w < deletes (vu_metal_path i) w'"
  unfolding vu_delete_and_verify_def numeral_3_eq_3 by (rule vu_gone.deletion_asked)

theorem vultr_delete_outcome:
  assumes "vultr_delete_node ext w = (r, w')"
  shows "deletes (''bare-metals/'' @ ext) w < deletes (''bare-metals/'' @ ext) w'
    \<and> (case r of Inr _ \<Rightarrow> gone_at (''bare-metals/'' @ ext) w'
       | Inl x \<Rightarrow> (\<exists>m. x = ApiError m None) \<or> \<not> api_Exception x)"
proof -
  obtain q w1 where q: "vu_delete_and_verify ext w = (q, w1)" by fastforce
  then have "w' = w1" using assms by (auto simp: vultr_delete_node_def monad_simps split: sum.splits if_splits)
  then show ?thesis
    using assms q vu_delete_asked [OF q] vu_confirmed [of ext w w1] stoicD [OF vu_stoic]
    by (cases q) (auto simp: vultr_delete_node_def monad_simps vu_metal_path_def split: if_splits)
qed

section \<open>What creation promises\<close>

lemma quietly_outcome:
  assumes "quietly m w = (r, w')"
  shows "r = Inr () \<and> snd (m w) = w'"
  using assms by (auto simp: quietly_def monad_simps split: prod.splits)

interpretation vu_polls: polling "vu_look i" "raiseM x" for i x
proof
  have "grows (1 + 0) (vu_get_metal i)"
    unfolding vu_get_metal_def vu_request_def by (intro grows_bind grows_request) (simp add: grows_basic)
  then have "grows (1 + 0) (vu_look i)"
    unfolding vu_look_def by (intro grows_bind grows_attempt) (auto intro: grows_basic split: sum.split api_exn.split)
  then show "grows 1 (vu_look i)" by simp
  have "ticks (vu_get_metal i)"
    unfolding vu_get_metal_def vu_request_def by (intro ticks_intros) (simp add: ticks_intros)
  then show "ticks (vu_look i)"
    unfolding vu_look_def by (intro ticks_bind ticks_attempt) (auto intro: ticks_intros split: sum.split api_exn.split)
  show "grows 0 (raiseM x)" by (rule grows_basic)
qed

text \<open>The last answer was of the machine, active and with an address.\<close>

definition vu_active_at :: "string \<Rightarrow> string \<Rightarrow> vendor_net \<Rightarrow> bool" where
  "vu_active_at i ip w \<longleftrightarrow> vn_log w \<noteq> [] \<and> (\<exists>q a resp. last (vn_log w) = (q, a) \<and> hq_method q = ''GET'' \<and> hq_path q = vu_metal_path i
     \<and> read_answer False a = Inr resp \<and> vu_is_metal_response resp \<and> vu_ready (pget resp ''bare_metal'') = Some ip)"

lemma vu_look_active:
  assumes "vu_look i w = (Inr (Some ip), w')"
  shows "vu_active_at i ip w'"
proof -
  obtain q w1 where q: "api_request False ''GET'' (vu_metal_path i) [] None w = (q, w1)" by fastforce
  from request_logged [OF q] obtain a where a: "vn_log w1 = vn_log w @ [(\<lparr>hq_method = ''GET'', hq_path = vu_metal_path i,
      hq_params = [], hq_data = None\<rparr>, a)]" "q = read_answer False a" by blast
  have "w' = w1 \<and> (\<exists>resp. q = Inr resp \<and> vu_is_metal_response resp \<and> vu_ready (pget resp ''bare_metal'') = Some ip)"
    using assms q by (cases q) (auto simp: vu_look_def vu_get_metal_def vu_request_def monad_simps split: if_splits api_exn.splits)
  with a show ?thesis by (auto simp: vu_active_at_def)
qed

lemma vu_wait_active: "vu_wait i w = (Inr ip, w') \<Longrightarrow> vu_active_at i ip w'"
  unfolding vu_wait_def by (erule vu_polls.poll_cases) (auto dest: vu_look_active simp: raiseM_def)

lemma vu_launch_outcome:
  assumes "vu_launch cfg key_id user_data label w = (r, w')"
  shows "case r of
      Inr dto \<Rightarrow> dto = vu_dto cfg (dto_external_id dto) (dto_hostname dto) \<and> vu_active_at (dto_external_id dto) (dto_hostname dto) w'
    | Inl x \<Rightarrow> (\<exists>w1. vu_create_metal (vu_metal_data cfg key_id user_data label) w = (Inl x, w1) \<and> w' = snd (vu_reconcile 10 label w1))
        \<or> (\<exists>m w1. vu_create_metal (vu_metal_data cfg key_id user_data label) w = (Inr m, w1)
             \<and> (\<exists>w2. vu_wait (str_of (pget m ''id'')) w1 = (Inl x, w2) \<and> w' = snd (vu_delete_and_verify (str_of (pget m ''id'')) w2)))"
proof -
  obtain q w1 where q: "vu_create_metal (vu_metal_data cfg key_id user_data label) w = (q, w1)" by fastforce
  show ?thesis
  proof (cases q)
    case (Inl x)
    obtain z w2 where z: "quietly (vu_reconcile 10 label) w1 = (z, w2)" by fastforce
    with quietly_outcome [OF z] assms q Inl show ?thesis
      by (auto simp: vu_launch_def catchM_def thenM_def bindM_def raiseM_def)
  next
    case (Inr m)
    let ?i = "str_of (pget m ''id'')"
    obtain p w2 where p: "vu_wait ?i w1 = (p, w2)" by fastforce
    show ?thesis
    proof (cases p)
      case (Inl x)
      obtain z w3 where z: "quietly (vu_delete_and_verify ?i) w2 = (z, w3)" by fastforce
      with quietly_outcome [OF z] assms q Inr p Inl show ?thesis
        by (auto simp: vu_launch_def catchM_def thenM_def bindM_def raiseM_def Let_def)
    next
      case (Inr ip)
      then have "r = Inr (vu_dto cfg ?i ip)" "w' = w2"
        using assms q \<open>q = Inr m\<close> p by (auto simp: vu_launch_def catchM_def bindM_def returnM_def Let_def)
      with vu_wait_active p Inr show ?thesis by (auto simp: vu_dto_def)
    qed
  qed
qed

interpretation vu_pages: paging vu_metals_page
  by unfold_locales (auto simp: vu_metals_page_def vu_request_def monad_simps split: prod.splits sum.splits if_splits
    dest: request_answered)

text \<open>What the search after a failed request does: it only lists machines, or it deletes the one that a
  listing showed under the label of this creation.\<close>

definition vu_lists :: "http_request \<Rightarrow> bool" where
  "vu_lists q \<longleftrightarrow> hq_method q = ''GET'' \<and> hq_path q = ''bare-metals''"

definition vu_hunted :: "string \<Rightarrow> vendor_net \<Rightarrow> vendor_net \<Rightarrow> bool" where
  "vu_hunted label w w' \<longleftrightarrow> asked vu_lists (vn_log w) w'
     \<or> (\<exists>m w1. vu_label_is label m \<and> asked vu_lists (vn_log w) w1
          \<and> deletes (vu_metal_path (str_of (pget m ''id''))) w1 < deletes (vu_metal_path (str_of (pget m ''id''))) w')"

lemma vu_search_lists: "keeps (asked vu_lists l0) (search_pages vu_metals_page P ps)"
  unfolding vu_metals_page_def vu_request_def
  by (intro asked_search keeps_intros asked_request) (simp_all add: vu_lists_def)

lemma asked_trans: "asked P l0 w \<Longrightarrow> asked P (vn_log w) w' \<Longrightarrow> asked P l0 w'"
  by (auto simp: asked_def)

lemma vu_hunted_later: "asked vu_lists (vn_log w) w1 \<Longrightarrow> vu_hunted label w1 w' \<Longrightarrow> vu_hunted label w w'"
  unfolding vu_hunted_def using asked_trans by blast

lemma search_matches:
  "search_pages vu_metals_page P ps w = (Inr (Some m), w') \<Longrightarrow> P m"
  unfolding search_pages_def by (drule vu_pages.search_found) (auto simp: find_Some_iff)

lemma vu_reconcile_outcome: "vu_hunted label w (snd (vu_reconcile n label w))"
proof (induction n arbitrary: w)
  case 0
  then show ?case by (simp add: vu_hunted_def returnM_def)
next
  case (Suc n)
  let ?search = "search_pages vu_metals_page (vu_label_is label) [(''per_page'', PInt 500)]"
  obtain q w1 where q: "?search w = (q, w1)" by fastforce
  have l1: "asked vu_lists (vn_log w) w1" using keepsD' [OF vu_search_lists _ q] by simp
  have wait: "vu_hunted label w (snd ((if 0 < n then thenM (nap 15) (vu_reconcile n label) else returnM ()) w1))"
  proof (cases "0 < n")
    case True
    obtain z w2 where z: "nap 15 w1 = (z, w2)" by fastforce
    have "asked vu_lists (vn_log w) w2" by (rule keepsD' [OF asked_nap l1 z])
    with True z Suc.IH [of w2] show ?thesis
      by (cases z) (auto simp: thenM_def bindM_def vu_hunted_later vu_hunted_def [of label w w2])
  qed (use l1 in \<open>simp add: returnM_def vu_hunted_def\<close>)
  show ?case
  proof (cases "\<exists>m. q = Inr (Some m)")
    case True
    then obtain m where m: "q = Inr (Some m)" ..
    let ?i = "str_of (pget m ''id'')"
    obtain z w2 where z: "vu_delete_and_verify ?i w1 = (z, w2)" by fastforce
    have "snd (vu_reconcile (Suc n) label w) = w2" using q m z by (cases z) (simp_all add: monad_simps)
    with vu_delete_asked [OF z] search_matches [OF q [unfolded m]] l1 show ?thesis unfolding vu_hunted_def by auto
  next
    case False
    then show ?thesis using wait q by (auto simp: bindM_def attemptM_def split: sum.split option.split)
  qed
qed

lemma vu_key_asks: "keeps (asked (\<lambda>q. hq_path q = ''ssh-keys'') l0) (vu_ssh_key_id key)"
  unfolding vu_ssh_key_id_def vu_create_ssh_key_def vu_ssh_keys_page_def vu_request_def Let_def
  by (intro keeps_intros asked_search asked_request) simp_all

theorem vultr_create_outcome:
  assumes "vultr_create_node fl cfg key cc w = (r, w')"
  shows "case r of
      Inr dto \<Rightarrow> dto = vu_dto cfg (dto_external_id dto) (dto_hostname dto) \<and> vu_active_at (dto_external_id dto) (dto_hostname dto) w'
    | Inl x \<Rightarrow> asked (\<lambda>q. hq_path q = ''ssh-keys'') (vn_log w) w'
        \<or> (\<exists>kid data label w0 w1. vu_create_metal (vu_metal_data cfg kid data label) w0 = (Inl x, w1) \<and> vu_hunted label w1 w')
        \<or> (\<exists>kid data label w0 m w1. vu_create_metal (vu_metal_data cfg kid data label) w0 = (Inr m, w1)
             \<and> (\<exists>w2. vu_wait (str_of (pget m ''id'')) w1 = (Inl x, w2))
             \<and> deletes (vu_metal_path (str_of (pget m ''id''))) w1 < deletes (vu_metal_path (str_of (pget m ''id''))) w')"
proof -
  let ?asked = "asked (\<lambda>q. hq_path q = ''ssh-keys'') (vn_log w)"
  obtain z w1 where z: "get_rnd_name (cb_label cfg) w = (z, w1)" by fastforce
  have a1: "?asked w1" using keepsD' [OF asked_name _ z] by simp
  obtain q w2 where q: "vu_ssh_key_id key w1 = (q, w2)" by fastforce
  have a2: "?asked w2" by (rule keepsD' [OF vu_key_asks a1 q])
  show ?thesis
  proof (cases z)
    case (Inl x)
    then show ?thesis using assms z a1 by (auto simp: vultr_create_node_def bindM_def)
  next
    case (Inr label)
    show ?thesis
    proof (cases q)
      case (Inl x)
      then show ?thesis using assms z \<open>z = Inr label\<close> q a2 by (auto simp: vultr_create_node_def bindM_def)
    next
      case (Inr kid)
      then obtain ud where run: "vu_launch cfg kid ud label w2 = (r, w')"
        using assms q z \<open>z = Inr label\<close> by (auto simp: vultr_create_node_def bindM_def)
      show ?thesis
      proof (cases r)
        case (Inr dto)
        then show ?thesis using vu_launch_outcome [OF run] by simp
      next
        case (Inl x)
        from vu_launch_outcome [OF run] Inl consider
          (post) w3 where "vu_create_metal (vu_metal_data cfg kid ud label) w2 = (Inl x, w3)" "w' = snd (vu_reconcile 10 label w3)"
          | (wait) m w3 w4 where "vu_create_metal (vu_metal_data cfg kid ud label) w2 = (Inr m, w3)"
              "vu_wait (str_of (pget m ''id'')) w3 = (Inl x, w4)" "w' = snd (vu_delete_and_verify (str_of (pget m ''id'')) w4)"
          by auto
        then show ?thesis
        proof cases
          case post
          with vu_reconcile_outcome [of label w3 10] Inl show ?thesis by auto
        next
          case wait
          let ?p = "vu_metal_path (str_of (pget m ''id''))"
          have "deletes ?p w3 \<le> deletes ?p w4"
            using wait(2) unfolding vu_wait_def by (rule deletes_grow [OF vu_polls.poll_grows])
          moreover have "deletes ?p w4 < deletes ?p w'"
            using vu_delete_asked [OF prod.collapse [symmetric]] wait(3) by simp
          ultimately have "deletes ?p w3 < deletes ?p w'" by simp
          then show ?thesis unfolding Inl sum.case using wait(1,2) by blast
        qed
      qed
    qed
  qed
qed

end
