(* ===== verification/Vastai.thy ===== *)
theory Vastai
  imports Vultr
begin

text \<open>
  \<open>infra/cloud/providers/vastai.py\<close>: the REST client, the choice of an offer, the start-up script,
  creation of an instance with the wait until it runs, and deletion.
\<close>

section \<open>The client\<close>

definition va_request :: "string \<Rightarrow> string \<Rightarrow> pydict \<Rightarrow> pydict option \<Rightarrow> pyval api" where
  "va_request = api_request True"

text \<open>Numbers of a response: \<open>int\<close>, \<open>bool\<close> or \<open>float\<close>; \<open>int(v)\<close> truncates.\<close>

definition num_val :: "pyval \<Rightarrow> rat" where
  "num_val v = (case v of PInt i \<Rightarrow> of_int i | PBool b \<Rightarrow> (if b then 1 else 0) | PFloat r \<Rightarrow> r | _ \<Rightarrow> 0)"

definition num_int :: "pyval \<Rightarrow> int" where
  "num_int v = (let r = num_val v in if r < 0 then - \<lfloor>- r\<rfloor> else \<lfloor>r\<rfloor>)"

definition num_text :: "(rat \<Rightarrow> string) \<Rightarrow> pyval \<Rightarrow> string" where
  "num_text fl v = (case v of PFloat r \<Rightarrow> fl r | _ \<Rightarrow> int_text v)"

text \<open>\<open>v[k]\<close> of a dictionary.\<close>

definition pindex :: "pyval \<Rightarrow> string \<Rightarrow> api_exn + pyval" where
  "pindex v k = (case dget (items_of v) k of None \<Rightarrow> Inl (Raised (KeyErr k)) | Some x \<Rightarrow> Inr x)"

definition str_or_none :: "pyval \<Rightarrow> bool" where
  "str_or_none v \<longleftrightarrow> is_str v \<or> v = PNone"

definition va_is_ssh_key :: "pyval \<Rightarrow> bool" where
  "va_is_ssh_key v \<longleftrightarrow> is_dict v \<and> is_str (pget v ''public_key'')"

definition va_is_ssh_keys :: "pyval \<Rightarrow> bool" where
  "va_is_ssh_keys v \<longleftrightarrow> is_list v \<and> list_all va_is_ssh_key (elems_of v)"

definition va_is_ssh_key_created :: "pyval \<Rightarrow> bool" where
  "va_is_ssh_key_created v \<longleftrightarrow> is_dict v \<and> (case pget v ''success'' of PBool _ \<Rightarrow> True | _ \<Rightarrow> False)
     \<and> has_key v ''key'' \<and> va_is_ssh_key (pget v ''key'')"

definition va_is_offer :: "pyval \<Rightarrow> bool" where
  "va_is_offer v \<longleftrightarrow> is_dict v \<and> is_num (pget v ''id'') \<and> is_num (pget v ''dph_total'')"

definition va_is_offers :: "pyval \<Rightarrow> api_exn + bool" where
  "va_is_offers v = (if is_dict v \<and> has_key v ''offers''
     then map_sum id (list_all va_is_offer) (py_iter (pget v ''offers'')) else Inr False)"

definition va_is_created :: "pyval \<Rightarrow> bool" where
  "va_is_created v \<longleftrightarrow> is_dict v \<and> is_num (pget v ''new_contract'')"

definition va_is_instance :: "pyval \<Rightarrow> bool" where
  "va_is_instance v \<longleftrightarrow> is_dict v \<and> is_num (pget v ''id'') \<and> str_or_none (pget v ''actual_status'')
     \<and> str_or_none (pget v ''ssh_host'') \<and> (pget v ''ssh_port'' = PNone \<or> is_num (pget v ''ssh_port''))"

definition va_is_show :: "pyval \<Rightarrow> bool" where
  "va_is_show v \<longleftrightarrow> is_dict v \<and> has_key v ''instances''
     \<and> (pget v ''instances'' = PNone \<or> va_is_instance (pget v ''instances''))"

definition va_is_shows :: "pyval \<Rightarrow> bool" where
  "va_is_shows v \<longleftrightarrow> is_dict v \<and> str_or_none (pget v ''next_token'') \<and> is_list (pget v ''instances'')
     \<and> list_all va_is_instance (elems_of (pget v ''instances''))"

definition va_get_ssh_keys :: "pyval list api" where
  "va_get_ssh_keys = bindM (va_request ''GET'' ''ssh'' [] None) (\<lambda>resp.
     if va_is_ssh_keys resp then returnM (elems_of resp) else raiseM (ApiError ''Invalid SSH key list response'' None))"

definition va_create_ssh_key :: "string \<Rightarrow> bool api" where
  "va_create_ssh_key key = bindM (va_request ''POST'' ''ssh'' [] (Some [(''ssh_key'', PStr key)])) (\<lambda>resp.
     if va_is_ssh_key_created resp then returnM (pget resp ''success'' = PBool True)
     else raiseM (ApiError ''Invalid SSH key create response'' None))"

text \<open>The filters, then the type of the instances, the order and the limit.\<close>

definition va_offer_query :: "vastai_config \<Rightarrow> pydict" where
  "va_offer_query cfg =
     [(''duration'', PDict [(''gte'', PInt 60)]), (''gpu_ram'', PDict [(''gte'', PInt (va_min_vram_mb cfg))]),
      (''num_gpus'', PDict [(''eq'', PInt (va_num_gpus cfg))]), (''gpu_frac'', PDict [(''gte'', PFloat 1)]),
      (''reliability'', PDict [(''gte'', PFloat (99 / 100))]), (''rentable'', PDict [(''eq'', PBool True)]),
      (''rented'', PDict [(''eq'', PBool False)]), (''dph_total'', PDict [(''lte'', PFloat (va_max_price_per_hr cfg))]),
      (''type'', PStr ''ondemand''), (''order'', PList [PList [PStr ''dph_total'', PStr ''asc'']]), (''limit'', PInt 20)]"

definition va_search_offers :: "vastai_config \<Rightarrow> pyval list api" where
  "va_search_offers cfg = bindM (va_request ''POST'' ''bundles'' [] (Some (va_offer_query cfg))) (\<lambda>resp.
     bindM (fromSum (va_is_offers resp)) (\<lambda>ok.
       if ok then returnM (elems_of (pget resp ''offers''))
       else raiseM (ApiError ''Invalid offers list response'' None)))"

definition va_create_instance :: "(rat \<Rightarrow> string) \<Rightarrow> pyval \<Rightarrow> pydict \<Rightarrow> int api" where
  "va_create_instance fl ask params =
     bindM (va_request ''PUT'' (''asks/'' @ num_text fl ask) []
        (Some ([(''target_state'', PStr ''running''), (''runtype'', PStr ''ssh_proxy''), (''cancel_unavail'', PBool True)] @ params)))
       (\<lambda>resp. if va_is_created resp then returnM (num_int (pget resp ''new_contract''))
          else raiseM (ApiError ''Invalid create instance response'' None))"

definition va_instance_path :: "int \<Rightarrow> string" where
  "va_instance_path i = ''instances/'' @ show_int i"

definition va_destroy :: "int \<Rightarrow> unit api" where
  "va_destroy i = thenM (va_request ''DELETE'' (va_instance_path i) [] None) (returnM ())"

definition va_show :: "int \<Rightarrow> pyval api" where
  "va_show i = bindM (va_request ''GET'' (va_instance_path i) [] None) (\<lambda>resp.
     if va_is_show resp then returnM (pget resp ''instances'')
     else raiseM (ApiError ''Invalid show instance response'' None))"

definition va_instances_page :: "pydict \<Rightarrow> page api" where
  "va_instances_page ps = bindM (va_request ''GET'' ''instances'' ps None) (\<lambda>resp.
     if va_is_shows resp
     then returnM (elems_of (pget resp ''instances''),
            Inr (if py_true (pget resp ''next_token'') then Some (dput ''after_token'' (pget resp ''next_token'') ps) else None))
     else raiseM (ApiError ''Invalid show instances response'' None))"

section \<open>Before the launch\<close>

definition va_ensure_key :: "string \<Rightarrow> bool api" where
  "va_ensure_key pub = bindM va_get_ssh_keys (\<lambda>ks.
     if list_ex (\<lambda>k. strip (str_of (pget k ''public_key'')) = strip pub) ks then returnM True else va_create_ssh_key pub)"

text \<open>A random one of the five cheapest; \<open>sorted\<close> is stable.\<close>

definition select_cheapest_offer :: "pyval list \<Rightarrow> rat \<Rightarrow> pyval api" where
  "select_cheapest_offer offers max_price =
     (if offers = [] then raiseM (ApiError ''No offers found matching the configured criteria'' None)
      else (let five = take 5 (sort_key (\<lambda>x. num_val (pget x ''dph_total'')) offers) in
        bindM (rnd_below (length five)) (\<lambda>i. let offer = five ! i in
          if max_price < num_val (pget offer ''dph_total'') then raiseM (ApiError ''Offer price exceeds max price'' None)
          else returnM offer)))"

fun contains :: "string \<Rightarrow> string \<Rightarrow> bool" where
  "contains p [] = (p = [])"
| "contains p (c # s) = (starts_with p (c # s) \<or> contains p s)"

definition lower_char :: "char \<Rightarrow> char" where
  "lower_char c = (let n = of_char c :: nat in if 65 \<le> n \<and> n \<le> 90 then char_of (n + 32) else c)"

definition detect_launch_mode :: "string \<Rightarrow> string" where
  "detect_launch_mode img = (if contains ''vastai/kvm'' img then ''kvm'' else ''docker'')"

definition generate_onstart :: "vastai_config \<Rightarrow> cloud_init option \<Rightarrow> string" where
  "generate_onstart cfg cc = (case va_onstart_script cfg of
       Some s \<Rightarrow> s
     | None \<Rightarrow> (case cc of
         None \<Rightarrow> []
       | Some c \<Rightarrow>
          let img = map lower_char (va_image cfg);
              use_apt = contains ''debian'' img \<or> contains ''ubuntu'' img;
              pm = (if use_apt then ''apt-get'' else ''dnf'')
          in join [CHR 0x0A]
               ((if detect_launch_mode (va_image cfg) = ''kvm'' then [''#!/bin/bash''] else [])
                @ (if ci_package_upgrade c then [if use_apt then ''apt-get update && apt-get upgrade -y'' else ''dnf upgrade -y''] else [])
                @ (if ci_packages c \<noteq> [] then [pm @ '' install -y '' @ join '' '' (ci_packages c)] else [])
                @ concat (map (\<lambda>cmd. case cmd of PList xs \<Rightarrow> map str_of xs | _ \<Rightarrow> [str_of cmd]) (ci_bootcmd c)))))"

section \<open>Deletion\<close>

definition va_delete_instance :: "int \<Rightarrow> bool api" where
  "va_delete_instance i = bindM (delete_attempts 3 5 (va_destroy i)) (\<lambda>r. returnM (case r of None \<Rightarrow> True | Some b \<Rightarrow> b))"

definition vastai_delete_node :: "string \<Rightarrow> unit api" where
  "vastai_delete_node ext = (case py_int ext of
       None \<Rightarrow> raiseM (ApiError (''Invalid VastAI instance id '' @ ext) None)
     | Some i \<Rightarrow> bindM (va_delete_instance i) (\<lambda>gone.
         if gone then returnM ()
         else raiseM (ApiError (''Instance '' @ show_int i
            @ '' delete failed (permanent error or retries exhausted after 3 attempts); orchestrator will retry next cycle'') None)))"

section \<open>Creation\<close>

definition va_label_params :: "string \<Rightarrow> pydict" where
  "va_label_params label = [(''limit'', PInt 25),
     (''select_filters'', PStr (json_dumps (\<lambda>_. []) (PDict [(''label'', PDict [(''eq'', PStr label)])])))]"

fun va_reconcile :: "nat \<Rightarrow> string \<Rightarrow> unit api" where
  "va_reconcile 0 label = returnM ()"
| "va_reconcile (Suc n) label =
     bindM (attemptM (search_pages va_instances_page (\<lambda>_. True) (va_label_params label))) (\<lambda>r. case r of
       Inr (Some inst) \<Rightarrow>
         catchM (thenM (va_delete_instance (num_int (pget inst ''id''))) (returnM ()))
           (\<lambda>x. if api_Exception x then returnM () else raiseM x)
     | Inl x \<Rightarrow> if \<not> api_Exception x then raiseM x
               else if 0 < n then thenM (nap 15) (va_reconcile n label) else returnM ()
     | Inr None \<Rightarrow> if 0 < n then thenM (nap 15) (va_reconcile n label) else returnM ())"

definition va_terminal :: "string list" where
  "va_terminal = [''stopped'', ''frozen'', ''exited'', ''unknown'', ''offline'']"

text \<open>One look at an instance: ready, to be looked at again, or hopeless.\<close>

definition va_judge :: "int \<Rightarrow> pyval \<Rightarrow> pyval option api" where
  "va_judge i inst =
     (if inst = PNone
      then raiseM (ApiError (''Instance '' @ show_int i @ '' no longer exists (gone during readiness)'') None)
      else bindM (fromSum (pindex inst ''actual_status'')) (\<lambda>status.
        if status = PStr ''running'' then
          bindM (fromSum (pindex inst ''ssh_host'')) (\<lambda>host.
            if \<not> py_true host then returnM None
            else bindM (fromSum (pindex inst ''ssh_port'')) (\<lambda>port.
              if port = PNone then returnM None else returnM (Some inst)))
        else if status \<in> set (map PStr va_terminal)
        then raiseM (ApiError (''Instance '' @ show_int i @ '' entered terminal status: '' @ str_of status) None)
        else returnM None))"

definition va_look :: "int \<Rightarrow> pyval option api" where
  "va_look i = bindM (attemptM (va_show i)) (\<lambda>r. case r of
       Inl (Raised e) \<Rightarrow> raiseM (Raised e)
     | Inl (ApiError m st) \<Rightarrow>
         if transient_status st then returnM None
         else raiseM (ApiError (''Instance '' @ show_int i @ '' status query failed: '' @ m) st)
     | Inr inst \<Rightarrow> va_judge i inst)"

definition wait_until_ready :: "int \<Rightarrow> int \<Rightarrow> pyval api" where
  "wait_until_ready i timeout = poll (real_of_int timeout) 5 (va_look i)
     (raiseM (ApiError (''Instance '' @ show_int i @ '' did not become ready within '' @ show_int timeout @ ''s'') None))"

definition va_params :: "vastai_config \<Rightarrow> string \<Rightarrow> cloud_init option \<Rightarrow> pydict" where
  "va_params cfg label cc =
     [(''image'', PStr (va_image cfg)), (''disk'', PInt (va_disk_gb cfg)),
      (''vm'', PBool (detect_launch_mode (va_image cfg) = ''kvm'')), (''label'', PStr label),
      (''onstart'', PStr (generate_onstart cfg cc)), (''env'', PStr (case va_docker_options cfg of None \<Rightarrow> [] | Some s \<Rightarrow> s))]"

definition va_dto :: "vastai_config \<Rightarrow> int \<Rightarrow> pyval \<Rightarrow> create_dto" where
  "va_dto cfg i inst = \<lparr>dto_external_id = show_int i, dto_hostname = str_of (pget inst ''ssh_host''), dto_username = ''root'',
     dto_port = num_int (pget inst ''ssh_port''), dto_jump_host = cb_jump_host cfg, dto_jump_port = cb_jump_port cfg,
     dto_jump_username = jump_user (cb_jump_username cfg)\<rparr>"

definition va_launch :: "(rat \<Rightarrow> string) \<Rightarrow> vastai_config \<Rightarrow> cloud_init option \<Rightarrow> pyval \<Rightarrow> string \<Rightarrow> create_dto api" where
  "va_launch fl cfg cc offer label =
     bindM (catchM (va_create_instance fl (pget offer ''id'') (va_params cfg label cc))
              (\<lambda>x. thenM (va_reconcile 10 label) (raiseM x))) (\<lambda>i.
       bindM (catchM (wait_until_ready i (cb_connect_grace cfg)) (\<lambda>x. thenM (va_delete_instance i) (raiseM x)))
         (\<lambda>inst. returnM (va_dto cfg i inst)))"

definition vastai_create_node ::
  "(rat \<Rightarrow> string) \<Rightarrow> vastai_config \<Rightarrow> ssh_key \<Rightarrow> cloud_init option \<Rightarrow> create_dto api" where
  "vastai_create_node fl cfg key cc =
     bindM (va_ensure_key (sk_public key)) (\<lambda>registered.
       if \<not> registered then raiseM (ApiError ''SSH key registration refused by VastAI (success:false)'' None)
       else bindM (va_search_offers cfg) (\<lambda>offers.
         bindM (select_cheapest_offer offers (va_max_price_per_hr cfg)) (\<lambda>offer.
           bindM (get_rnd_name (cb_label cfg)) (\<lambda>label. va_launch fl cfg cc offer label))))"

section \<open>What deletion promises\<close>

interpretation va_gone: vendor_deletion "va_destroy i" "va_instance_path i" for i
  unfolding va_destroy_def va_request_def by (rule client_deletes)

text \<open>The last request was the deletion of the instance, and it was accepted.\<close>

definition accepted_at :: "string \<Rightarrow> vendor_net \<Rightarrow> bool" where
  "accepted_at path w \<longleftrightarrow> vn_log w \<noteq> [] \<and> (\<exists>q a v. last (vn_log w) = (q, a) \<and> hq_method q = ''DELETE'' \<and> hq_path q = path
     \<and> read_answer True a = Inr v)"

lemma va_destroy_accepted:
  assumes "va_destroy i w = (Inr u, w')"
  shows "accepted_at (va_instance_path i) w'"
proof -
  obtain q w1 where q: "api_request True ''DELETE'' (va_instance_path i) [] None w = (q, w1)" by fastforce
  moreover have "\<exists>v. q = Inr v \<and> w' = w1" using assms q by (cases q) (auto simp: va_destroy_def va_request_def monad_simps)
  ultimately show ?thesis using request_logged [OF q] by (auto simp: accepted_at_def) metis
qed

lemma va_delete_true:
  assumes "va_delete_instance i w = (Inr True, w')"
  shows "gone_at (va_instance_path i) w' \<or> accepted_at (va_instance_path i) w'"
proof -
  obtain r where "delete_attempts 3 5 (va_destroy i) w = (Inr r, w')" "r = None \<or> r = Some True"
    using assms by (auto simp: va_delete_instance_def monad_simps split: prod.splits sum.splits option.splits)
  then show ?thesis
    using va_gone.attempts_gone [of 3] va_gone.attempts_accepted [of 2] va_destroy_accepted
    by (auto simp: numeral_3_eq_3 numeral_2_eq_2 simp del: delete_attempts.simps) blast+
qed

lemma va_delete_stoic: "stoic (va_delete_instance i)"
  unfolding va_delete_instance_def by (intro stoic_rules va_gone.stoic_attempts)

lemma va_delete_asked: "va_delete_instance i w = (r, w') \<Longrightarrow> deletes (va_instance_path i) w < deletes (va_instance_path i) w'"
proof -
  assume run: "va_delete_instance i w = (r, w')"
  obtain q w1 where q: "delete_attempts (Suc 2) 5 (va_destroy i) w = (q, w1)" by fastforce
  then have "w' = w1"
    using run by (auto simp: va_delete_instance_def monad_simps numeral_3_eq_3 numeral_2_eq_2 simp del: delete_attempts.simps split: sum.splits)
  with va_gone.attempts_ask [OF q] show ?thesis by simp
qed

theorem vastai_delete_outcome:
  assumes "vastai_delete_node ext w = (r, w')"
  shows "case r of
      Inr _ \<Rightarrow> \<exists>i. py_int ext = Some i \<and> (gone_at (va_instance_path i) w' \<or> accepted_at (va_instance_path i) w')
    | Inl x \<Rightarrow> (\<exists>m. x = ApiError m None) \<or> \<not> api_Exception x"
proof (cases "py_int ext")
  case None
  then show ?thesis using assms by (auto simp: vastai_delete_node_def raiseM_def)
next
  case (Some i)
  obtain q w1 where q: "va_delete_instance i w = (q, w1)" by fastforce
  then have "w' = w1" using assms Some by (auto simp: vastai_delete_node_def monad_simps split: sum.splits if_splits)
  then show ?thesis
    using assms Some q va_delete_true [of i w w1] stoicD [OF va_delete_stoic]
    by (cases q) (auto simp: vastai_delete_node_def monad_simps split: if_splits)
qed

section \<open>The price ceiling\<close>

text \<open>A request may rent only this offer.\<close>

definition rents :: "(rat \<Rightarrow> string) \<Rightarrow> pyval \<Rightarrow> http_request \<Rightarrow> bool" where
  "rents fl offer q \<longleftrightarrow> (hq_method q = ''PUT'' \<longrightarrow> hq_path q = ''asks/'' @ num_text fl (pget offer ''id''))"

lemma asked_destroy: "keeps (asked (rents fl offer) l0) (va_destroy i)"
  unfolding va_destroy_def va_request_def by (intro keeps_intros asked_request) (simp add: rents_def)

lemma asked_delete: "keeps (asked (rents fl offer) l0) (va_delete_instance i)"
  unfolding va_delete_instance_def by (intro keeps_intros asked_attempts asked_destroy)

lemma asked_reconcile: "keeps (asked (rents fl offer) l0) (va_reconcile n label)"
proof (induction n)
  case (Suc n)
  have l: "keeps (asked (rents fl offer) l0) (search_pages va_instances_page P ps)" for P ps
    unfolding va_instances_page_def va_request_def
    by (intro asked_search keeps_intros asked_request) (simp add: rents_def)
  show ?case
    unfolding va_reconcile.simps
    by (intro keeps_bind keeps_attempt l keeps_sum keeps_option keeps_if keeps_raise keeps_return keeps_then asked_nap Suc.IH
      keeps_catch asked_delete)
qed (simp add: keeps_return)

lemma asked_wait: "keeps (asked (rents fl offer) l0) (wait_until_ready i timeout)"
proof -
  have s: "keeps (asked (rents fl offer) l0) (va_show i)"
    unfolding va_show_def va_request_def by (intro keeps_intros asked_request) (simp add: rents_def)
  have j: "keeps (asked (rents fl offer) l0) (va_judge i inst)" for inst
    unfolding va_judge_def by (intro keeps_intros)
  have "keeps (asked (rents fl offer) l0) (va_look i)"
    unfolding va_look_def by (rule keeps_bind [OF keeps_attempt [OF s]])
      (auto intro: keeps_return keeps_raise j split: sum.split api_exn.split)
  then show ?thesis unfolding wait_until_ready_def by (intro asked_poll keeps_raise)
qed

lemma asked_launch: "keeps (asked (rents fl offer) l0) (va_launch fl cfg cc offer label)"
proof -
  have "keeps (asked (rents fl offer) l0) (va_create_instance fl (pget offer ''id'') ps)" for ps
    unfolding va_create_instance_def va_request_def by (intro keeps_intros asked_request) (simp add: rents_def)
  then show ?thesis
    unfolding va_launch_def by (intro keeps_intros asked_reconcile asked_wait asked_delete)
qed

text \<open>An offer the vendor listed, at or under the ceiling.\<close>

definition listed_offer :: "(http_request \<times> http_answer) list \<Rightarrow> rat \<Rightarrow> pyval \<Rightarrow> bool" where
  "listed_offer l price offer \<longleftrightarrow> num_val (pget offer ''dph_total'') \<le> price
     \<and> (\<exists>q a resp. (q, a) \<in> set l \<and> hq_path q = ''bundles'' \<and> read_answer True a = Inr resp \<and> offer \<in> set (elems_of (pget resp ''offers'')))"

lemma offers_listed:
  assumes "va_search_offers cfg w = (Inr offers, w')"
  shows "\<exists>q a resp. vn_log w' = vn_log w @ [(q, a)] \<and> hq_path q = ''bundles'' \<and> hq_method q = ''POST''
    \<and> read_answer True a = Inr resp \<and> offers = elems_of (pget resp ''offers'')"
proof -
  obtain q w1 where q: "api_request True ''POST'' ''bundles'' [] (Some (va_offer_query cfg)) w = (q, w1)" by fastforce
  from request_logged [OF q] obtain a where a: "vn_log w1 = vn_log w @ [(\<lparr>hq_method = ''POST'', hq_path = ''bundles'',
      hq_params = [], hq_data = Some (va_offer_query cfg)\<rparr>, a)]" "q = read_answer True a" by blast
  have "\<exists>resp. q = Inr resp \<and> offers = elems_of (pget resp ''offers'') \<and> w' = w1"
    using assms q by (cases q) (auto simp: va_search_offers_def va_request_def monad_simps split: sum.splits if_splits)
  with a show ?thesis by auto
qed

lemma offer_selected:
  assumes "select_cheapest_offer offers price w = (Inr offer, w')"
  shows "offer \<in> set offers \<and> num_val (pget offer ''dph_total'') \<le> price \<and> vn_log w' = vn_log w"
proof -
  let ?five = "take 5 (sort_key (\<lambda>x. num_val (pget x ''dph_total'')) offers)"
  have ne: "offers \<noteq> []" using assms by (auto simp: select_cheapest_offer_def raiseM_def)
  then obtain i w1 where i: "rnd_below (length ?five) w = (Inr i, w1)" "offer = ?five ! i"
      "num_val (pget offer ''dph_total'') \<le> price" "w' = w1"
    using assms
    by (auto simp: select_cheapest_offer_def monad_simps Let_def not_less split: if_splits prod.splits sum.splits)
  have len: "0 < length ?five" using ne by simp
  have "i = 0 \<or> (\<exists>k. i = k mod length ?five)" using i(1) by (auto simp: rnd_below_def split: list.splits)
  then have "i < length ?five" using len mod_less_divisor by blast
  then have "offer \<in> set ?five" unfolding i(2) by (rule nth_mem)
  then have "offer \<in> set (sort_key (\<lambda>x. num_val (pget x ''dph_total'')) offers)" by (rule in_set_takeD)
  then show ?thesis using i by (auto simp: rnd_below_def split: list.splits)
qed

definition no_rent :: "http_request \<Rightarrow> bool" where
  "no_rent q \<longleftrightarrow> hq_method q \<noteq> ''PUT''"

lemma va_key_asks: "keeps (asked no_rent l0) (va_ensure_key pub)"
  unfolding va_ensure_key_def va_get_ssh_keys_def va_create_ssh_key_def va_request_def
  by (intro keeps_intros asked_request) (simp_all add: no_rent_def)

lemma va_offers_asks: "keeps (asked no_rent l0) (va_search_offers cfg)"
  unfolding va_search_offers_def va_request_def
  by (intro keeps_intros asked_request) (simp_all add: no_rent_def)

lemma va_select_asks: "keeps (asked no_rent l0) (select_cheapest_offer offers price)"
  unfolding select_cheapest_offer_def Let_def by (intro keeps_intros asked_rnd)

text \<open>A run either rents nothing or goes through an offer at or under the ceiling.\<close>

lemma va_create_cases:
  assumes run: "vastai_create_node fl cfg key cc w = (r, w')"
  obtains (unrented) x where "r = Inl x" "asked no_rent (vn_log w) w'"
  | (launch) offer label w1 where "va_launch fl cfg cc offer label w1 = (r, w')" "asked no_rent (vn_log w) w1"
      "listed_offer (vn_log w1) (va_max_price_per_hr cfg) offer"
proof -
  obtain k w2 where k: "va_ensure_key (sk_public key) w = (k, w2)" by fastforce
  have a2: "asked no_rent (vn_log w) w2" using keepsD' [OF va_key_asks _ k] by simp
  obtain s w3 where s: "va_search_offers cfg w2 = (s, w3)" by fastforce
  have a3: "asked no_rent (vn_log w) w3" by (rule keepsD' [OF va_offers_asks a2 s])
  show ?thesis
  proof (cases "k = Inr True \<and> (\<exists>offers. s = Inr offers)")
    case False
    then have "(\<exists>x. r = Inl x) \<and> (w' = w2 \<or> w' = w3)"
      using run k s by (cases k; cases s) (auto simp: vastai_create_node_def bindM_def raiseM_def split: if_splits)
    then obtain x where x: "r = Inl x" "w' = w2 \<or> w' = w3" by blast
    with a2 a3 have "asked no_rent (vn_log w) w'" by auto
    with x(1) show ?thesis by (rule unrented)
  next
    case True
    then obtain offers where ok: "k = Inr True" "s = Inr offers" by blast
    obtain c w4 where c: "select_cheapest_offer offers (va_max_price_per_hr cfg) w3 = (c, w4)" by fastforce
    have a4: "asked no_rent (vn_log w) w4" by (rule keepsD' [OF va_select_asks a3 c])
    show ?thesis
    proof (cases c)
      case (Inl x)
      then have "r = Inl x" "w' = w4" using run k s ok c by (auto simp: vastai_create_node_def bindM_def)
      with a4 show ?thesis using unrented [of x] by simp
    next
      case (Inr offer)
      obtain n w5 where n: "get_rnd_name (cb_label cfg) w4 = (n, w5)" by fastforce
      have a5: "asked no_rent (vn_log w) w5" by (rule keepsD' [OF asked_name a4 n])
      from keepsD' [OF asked_name [of "\<lambda>_. False"] asked_refl n] have l5: "vn_log w5 = vn_log w4"
        by (auto simp: asked_def) (metis list.set_intros(1) neq_Nil_conv surj_pair)
      show ?thesis
      proof (cases n)
        case (Inl x)
        then have "r = Inl x" "w' = w5" using run k s ok c Inr n by (auto simp: vastai_create_node_def bindM_def)
      with a5 show ?thesis using unrented [of x] by simp
      next
        case (Inr label)
        have "va_launch fl cfg cc offer label w5 = (r, w')"
          using run k s ok c \<open>c = Inr offer\<close> n Inr by (auto simp: vastai_create_node_def bindM_def)
        moreover from offer_selected [OF c [unfolded \<open>c = Inr offer\<close>]] offers_listed [OF s [unfolded ok(2)]] l5
        have "listed_offer (vn_log w5) (va_max_price_per_hr cfg) offer" unfolding listed_offer_def by fastforce
        ultimately show ?thesis using launch a5 by blast
      qed
    qed
  qed
qed

theorem vastai_price_ceiling:
  assumes run: "vastai_create_node fl cfg key cc w = (r, w')" and new: "vn_log w' = vn_log w @ l" "(q, a) \<in> set l" "hq_method q = ''PUT''"
  shows "\<exists>offer. hq_path q = ''asks/'' @ num_text fl (pget offer ''id'') \<and> listed_offer (vn_log w') (va_max_price_per_hr cfg) offer"
  using run
proof (rule va_create_cases)
  fix x assume "asked no_rent (vn_log w) w'"
  with new show ?thesis by (auto simp: asked_def no_rent_def)
next
  fix offer label w1
  assume run: "va_launch fl cfg cc offer label w1 = (r, w')" and a1: "asked no_rent (vn_log w) w1"
    and offer: "listed_offer (vn_log w1) (va_max_price_per_hr cfg) offer"
  from a1 obtain l1 where l1: "vn_log w1 = vn_log w @ l1" "\<forall>x \<in> set l1. no_rent (fst x)" by (auto simp: asked_def)
  from keepsD' [OF asked_launch _ run, of "vn_log w1"] obtain l2 where
    l2: "vn_log w' = vn_log w1 @ l2" "\<forall>x \<in> set l2. rents fl offer (fst x)" by (auto simp: asked_def)
  have "l = l1 @ l2" using l1(1) l2(1) new(1) by simp
  then have "rents fl offer q" using new(2,3) l1(2) l2(2) by (auto simp: no_rent_def)
  moreover have "listed_offer (vn_log w') (va_max_price_per_hr cfg) offer"
    using offer l2(1) by (auto simp: listed_offer_def)
  ultimately show ?thesis using new(3) by (auto simp: rents_def)
qed

section \<open>What creation promises\<close>

interpretation va_polls: polling "va_look i" "raiseM x" for i x
proof
  have j: "grows 0 (va_judge i inst)" for inst
    by (auto simp: grows_def va_judge_def monad_simps split: sum.split)
  have "grows (1 + 0) (va_show i)"
    unfolding va_show_def va_request_def by (intro grows_bind grows_request) (simp add: grows_basic)
  then have "grows (1 + 0) (va_look i)"
    unfolding va_look_def by (intro grows_bind grows_attempt) (auto intro: grows_basic j split: sum.split api_exn.split)
  then show "grows 1 (va_look i)" by simp
  have tj: "ticks (va_judge i inst)" for inst
    by (auto simp: ticks_def va_judge_def monad_simps split: sum.split)
  have "ticks (va_show i)"
    unfolding va_show_def va_request_def by (intro ticks_intros) (simp add: ticks_intros)
  then show "ticks (va_look i)"
    unfolding va_look_def by (intro ticks_bind ticks_attempt) (auto intro: ticks_intros tj split: sum.split api_exn.split)
  show "grows 0 (raiseM x)" by (rule grows_basic)
qed

text \<open>The last answer showed the instance running, with an address to connect to.\<close>

definition va_running_at :: "int \<Rightarrow> pyval \<Rightarrow> vendor_net \<Rightarrow> bool" where
  "va_running_at i inst w \<longleftrightarrow> vn_log w \<noteq> [] \<and> (\<exists>q a resp. last (vn_log w) = (q, a) \<and> hq_path q = va_instance_path i
     \<and> read_answer True a = Inr resp \<and> inst = pget resp ''instances'')
     \<and> pget inst ''actual_status'' = PStr ''running'' \<and> str_of (pget inst ''ssh_host'') \<noteq> [] \<and> is_num (pget inst ''ssh_port'')"

lemma pindex_Inr: "pindex v k = Inr x \<Longrightarrow> pget v k = x"
  by (auto simp: pindex_def pget_def split: option.splits)

lemma va_judge_some:
  assumes "va_judge i v w = (Inr (Some inst), w')" "v = PNone \<or> va_is_instance v"
  shows "w' = w \<and> inst = v \<and> pget v ''actual_status'' = PStr ''running'' \<and> str_of (pget v ''ssh_host'') \<noteq> []
    \<and> is_num (pget v ''ssh_port'')"
proof -
  have ne: "v \<noteq> PNone" using assms(1) by (auto simp: va_judge_def raiseM_def)
  obtain st where st: "pindex v ''actual_status'' = Inr st"
    using assms(1) ne by (cases "pindex v ''actual_status''") (simp_all add: va_judge_def bindM_def fromSum_def)
  have run: "st = PStr ''running''"
    using assms(1) ne st by (simp add: va_judge_def bindM_def fromSum_def raiseM_def returnM_def split: if_splits)
  obtain host where host: "pindex v ''ssh_host'' = Inr host"
    using assms(1) ne st run by (cases "pindex v ''ssh_host''") (simp_all add: va_judge_def bindM_def fromSum_def)
  have up: "py_true host"
    using assms(1) ne st run host by (simp add: va_judge_def bindM_def fromSum_def returnM_def split: if_splits)
  obtain port where port: "pindex v ''ssh_port'' = Inr port"
    using assms(1) ne st run host up by (cases "pindex v ''ssh_port''") (simp_all add: va_judge_def bindM_def fromSum_def)
  have "port \<noteq> PNone" "inst = v" "w' = w"
    using assms(1) ne st run host up port by (simp_all add: va_judge_def bindM_def fromSum_def returnM_def split: if_splits)
  with ne pindex_Inr [OF st] run pindex_Inr [OF host] up pindex_Inr [OF port]
  have v: "v \<noteq> PNone" "pget v ''actual_status'' = PStr ''running''" "inst = v" "w' = w" "py_true (pget v ''ssh_host'')"
      "pget v ''ssh_port'' \<noteq> PNone"
    by simp_all
  with assms(2) have "str_or_none (pget v ''ssh_host'')" "is_num (pget v ''ssh_port'')" by (simp_all add: va_is_instance_def)
  with v(5) have "str_of (pget v ''ssh_host'') \<noteq> []"
    by (cases "pget v ''ssh_host''") (simp_all add: str_or_none_def is_str_def str_of_def py_true_def)
  with v \<open>is_num (pget v ''ssh_port'')\<close> show ?thesis by simp
qed

lemma va_look_running:
  assumes "va_look i w = (Inr (Some inst), w')"
  shows "va_running_at i inst w'"
proof -
  obtain q w1 where q: "api_request True ''GET'' (va_instance_path i) [] None w = (q, w1)" by fastforce
  from request_logged [OF q] obtain a where a: "vn_log w1 = vn_log w @ [(\<lparr>hq_method = ''GET'', hq_path = va_instance_path i,
      hq_params = [], hq_data = None\<rparr>, a)]" "q = read_answer True a" by blast
  obtain resp where r: "q = Inr resp" "va_is_show resp" "va_judge i (pget resp ''instances'') w1 = (Inr (Some inst), w')"
    using assms q by (cases q) (auto simp: va_look_def va_show_def va_request_def monad_simps split: if_splits api_exn.splits)
  have "read_answer True a = Inr resp" using a(2) r(1) by simp
  moreover from va_judge_some [OF r(3)] r(2) have "w' = w1 \<and> inst = pget resp ''instances'' \<and> pget inst ''actual_status'' = PStr ''running''
    \<and> str_of (pget inst ''ssh_host'') \<noteq> [] \<and> is_num (pget inst ''ssh_port'')" by (auto simp: va_is_show_def)
  ultimately show ?thesis using a(1) by (auto simp: va_running_at_def)
qed

lemma wait_running: "wait_until_ready i timeout w = (Inr inst, w') \<Longrightarrow> va_running_at i inst w'"
  unfolding wait_until_ready_def by (erule va_polls.poll_cases) (auto dest: va_look_running simp: raiseM_def)

lemma va_launch_outcome:
  assumes "va_launch fl cfg cc offer label w = (r, w')"
  shows "case r of
      Inr dto \<Rightarrow> \<exists>i inst. dto = va_dto cfg i inst \<and> va_running_at i inst w'
    | Inl x \<Rightarrow> (\<exists>y w1 z. va_create_instance fl (pget offer ''id'') (va_params cfg label cc) w = (Inl y, w1)
          \<and> va_reconcile 10 label w1 = (z, w') \<and> (z = Inr () \<and> x = y \<or> z = Inl x))
        \<or> (\<exists>i w1 w2 y. va_create_instance fl (pget offer ''id'') (va_params cfg label cc) w = (Inr i, w1)
             \<and> wait_until_ready i (cb_connect_grace cfg) w1 = (Inl y, w2) \<and> (x = y \<or> \<not> api_Exception x)
             \<and> deletes (va_instance_path i) w2 < deletes (va_instance_path i) w')"
proof -
  obtain q w1 where q: "va_create_instance fl (pget offer ''id'') (va_params cfg label cc) w = (q, w1)" by fastforce
  show ?thesis
  proof (cases q)
    case (Inl y)
    obtain z w2 where z: "va_reconcile 10 label w1 = (z, w2)" by fastforce
    with assms q Inl show ?thesis
      by (cases z) (auto simp: va_launch_def catchM_def thenM_def bindM_def raiseM_def)
  next
    case (Inr i)
    obtain p w2 where p: "wait_until_ready i (cb_connect_grace cfg) w1 = (p, w2)" by fastforce
    show ?thesis
    proof (cases p)
      case (Inl y)
      obtain z w3 where z: "va_delete_instance i w2 = (z, w3)" by fastforce
      have "\<exists>x. r = Inl x \<and> w' = w3 \<and> (x = y \<or> \<not> api_Exception x)"
        using assms q Inr p Inl z stoicD [OF va_delete_stoic]
        by (cases z) (auto simp: va_launch_def catchM_def thenM_def bindM_def raiseM_def)
      with va_delete_asked [OF z] q Inr p Inl show ?thesis by auto
    next
      case (Inr inst)
      then have "r = Inr (va_dto cfg i inst)" "w' = w2"
        using assms q \<open>q = Inr i\<close> p by (auto simp: va_launch_def catchM_def bindM_def returnM_def)
      moreover have "va_running_at i inst w2" using wait_running p Inr by blast
      ultimately show ?thesis by auto
    qed
  qed
qed

lemma vastai_log_grows:
  "vn_log (snd (vastai_create_node fl cfg key cc w)) = vn_log w @ drop (length (vn_log w)) (vn_log (snd (vastai_create_node fl cfg key cc w)))"
proof (rule va_create_cases [OF prod.collapse [symmetric], of fl cfg key cc w])
  fix x assume "asked no_rent (vn_log w) (snd (vastai_create_node fl cfg key cc w))"
  then show ?thesis by (auto simp: asked_def)
next
  fix offer label w1
  assume run: "va_launch fl cfg cc offer label w1 = (fst (vastai_create_node fl cfg key cc w), snd (vastai_create_node fl cfg key cc w))"
    and a: "asked no_rent (vn_log w) w1"
  from keepsD' [OF asked_launch _ run, of "vn_log w1"] a show ?thesis by (auto simp: asked_def)
qed

end
