(* ===== verification/Upcloud.thy ===== *)
theory Upcloud
  imports Hetzner
begin

text \<open>
  \<open>infra/cloud/providers/upcloud.py\<close>, over the vendor's SDK: every SDK call takes its outcome from a list in
  the state and is logged.  The functions run in a worker thread, where nothing cancels them.  \<open>get_client\<close>
  is one more SDK call; its cache is not modelled.
\<close>

section \<open>The SDK\<close>

datatype up_exn = UpError string | UpRaised exn

record up_server =
  us_uuid :: string
  us_storages :: "string list"

datatype up_call =
    Authenticate
  | CreateServer pydict
  | GetServers
  | GetPublicIp string
  | StopServer string
  | DestroyServer string
  | DestroyStorage string
  | Pause int

record up_net =
  un_acts :: "up_exn option list"
  un_creates :: "(up_exn + up_server) list"
  un_lists :: "(up_exn + up_server list) list"
  un_ips :: "(up_exn + string option) list"
  un_random :: "nat list"
  un_log :: "(up_call \<times> bool) list"

type_synonym 'a up = "(up_net, up_exn, 'a) M"

definition up_lost :: up_exn where
  "up_lost = UpRaised (OSErr ''no answer'')"

definition up_note :: "up_call \<Rightarrow> 'a up \<Rightarrow> 'a up" where
  "up_note c m w = (case m w of (r, w') \<Rightarrow> (r, w'\<lparr>un_log := un_log w' @ [(c, \<not> isl r)]\<rparr>))"

definition up_act :: "up_call \<Rightarrow> unit up" where
  "up_act c = up_note c (\<lambda>w. case un_acts w of
       [] \<Rightarrow> (Inl up_lost, w)
     | a # as \<Rightarrow> ((case a of None \<Rightarrow> Inr () | Some x \<Rightarrow> Inl x), w\<lparr>un_acts := as\<rparr>))"

definition up_create_server :: "pydict \<Rightarrow> up_server up" where
  "up_create_server d = up_note (CreateServer d) (\<lambda>w. case un_creates w of
       [] \<Rightarrow> (Inl up_lost, w) | a # as \<Rightarrow> (a, w\<lparr>un_creates := as\<rparr>))"

definition up_get_servers :: "up_server list up" where
  "up_get_servers = up_note GetServers (\<lambda>w. case un_lists w of
       [] \<Rightarrow> (Inl up_lost, w) | a # as \<Rightarrow> (a, w\<lparr>un_lists := as\<rparr>))"

definition up_public_ip :: "up_server \<Rightarrow> string option up" where
  "up_public_ip s = up_note (GetPublicIp (us_uuid s)) (\<lambda>w. case un_ips w of
       [] \<Rightarrow> (Inl up_lost, w) | a # as \<Rightarrow> (a, w\<lparr>un_ips := as\<rparr>))"

definition up_sleep :: "int \<Rightarrow> unit up" where
  "up_sleep d = up_note (Pause d) (returnM ())"

definition up_letter :: "nat up" where
  "up_letter w = (case un_random w of [] \<Rightarrow> (Inr 0, w) | r # rs \<Rightarrow> (Inr (r mod 26), w\<lparr>un_random := rs\<rparr>))"

definition up_rnd_name :: "string \<Rightarrow> string up" where
  "up_rnd_name prefix = bindM (mapM (\<lambda>_. up_letter) (replicate 8 ())) (\<lambda>ns. returnM (prefix @ ''-'' @ map (\<lambda>n. char_of (97 + n)) ns))"

section \<open>Creation\<close>

definition not_found :: string where
  "not_found = ''SERVER_NOT_FOUND''"

text \<open>\<open>_destroy_created_server_best_effort\<close>: one attempt, whatever it raises is logged.\<close>

definition destroy_created :: "up_server \<Rightarrow> unit up" where
  "destroy_created s = bindM (attemptM
     (thenM (up_act (StopServer (us_uuid s)))
     (thenM (up_sleep 20)
       (bindM (attemptM (up_act (DestroyServer (us_uuid s)))) (\<lambda>r. case r of
            Inl (UpError c) \<Rightarrow> if c = not_found then returnM () else raiseM (UpError c)
          | Inl x \<Rightarrow> raiseM x
          | Inr _ \<Rightarrow> forM (us_storages s) (\<lambda>st. up_act (DestroyStorage st)))))))
     (\<lambda>_. returnM ())"

definition up_server_data :: "(rat \<Rightarrow> string) \<Rightarrow> upcloud_config \<Rightarrow> ssh_key \<Rightarrow> cloud_init option \<Rightarrow> string \<Rightarrow> pydict" where
  "up_server_data fl cfg key cc hostname =
     [(''core_number'', PInt 8), (''memory_amount'', PInt 4096), (''hostname'', PStr hostname), (''zone'', PStr ''uk-lon1''),
      (''storage_devices'', PList [PDict [(''os'', PStr ''Debian 10.0''), (''size'', PInt 40)]]),
      (''login_user'', PDict [(''username'', PStr (up_username cfg)), (''ssh_keys'', PList [PStr (sk_public key)]),
                              (''create_password'', PBool False)]),
      (''user_data'', case cc of None \<Rightarrow> PNone | Some c \<Rightarrow> PStr (render fl c))]"

definition up_dto :: "upcloud_config \<Rightarrow> string \<Rightarrow> create_dto" where
  "up_dto cfg ip = \<lparr>dto_external_id = ip, dto_hostname = ip, dto_username = up_username cfg, dto_port = 22,
     dto_jump_host = cb_jump_host cfg, dto_jump_port = cb_jump_port cfg, dto_jump_username = jump_user (cb_jump_username cfg)\<rparr>"

definition up_adopt :: "upcloud_config \<Rightarrow> string \<Rightarrow> up_server \<Rightarrow> create_dto up" where
  "up_adopt cfg hostname s = bindM (up_public_ip s) (\<lambda>ip. case ip of
       None \<Rightarrow> raiseM (UpRaised (RuntimeErr (''UpCloud server '' @ hostname @ '' created without a public IP'')))
     | Some a \<Rightarrow> returnM (up_dto cfg a))"

definition upcloud_create_node :: "(rat \<Rightarrow> string) \<Rightarrow> upcloud_config \<Rightarrow> ssh_key \<Rightarrow> cloud_init option \<Rightarrow> create_dto up" where
  "upcloud_create_node fl cfg key cc =
     thenM (up_act Authenticate)
      (bindM (up_rnd_name (cb_label cfg)) (\<lambda>hostname.
         bindM (up_create_server (up_server_data fl cfg key cc hostname)) (\<lambda>s.
           catchM (up_adopt cfg hostname s) (\<lambda>x. thenM (destroy_created s) (raiseM x)))))"

section \<open>Deletion\<close>

text \<open>The first server whose public address is the id; the listing's servers are asked one by one.\<close>

fun up_find :: "string \<Rightarrow> up_server list \<Rightarrow> up_server option up" where
  "up_find ext [] = returnM None"
| "up_find ext (s # ss) = bindM (up_public_ip s) (\<lambda>ip. if ip = Some ext then returnM (Some s) else up_find ext ss)"

text \<open>The attempts at destroying it, with the last error and whether the server was found to be gone.\<close>

fun up_destroy_loop :: "nat \<Rightarrow> string \<Rightarrow> up_exn option \<Rightarrow> (up_exn option \<times> bool) up" where
  "up_destroy_loop 0 uuid err = returnM (err, False)"
| "up_destroy_loop (Suc n) uuid err = bindM (attemptM (up_act (DestroyServer uuid))) (\<lambda>r. case r of
       Inr _ \<Rightarrow> returnM (None, False)
     | Inl (UpError c) \<Rightarrow>
         if c = not_found then returnM (err, True)
         else thenM (whenM (0 < n) (up_sleep 5)) (up_destroy_loop n uuid (Some (UpError c)))
     | Inl (UpRaised e) \<Rightarrow> raiseM (UpRaised e))"

definition up_destroy :: "up_server \<Rightarrow> unit up" where
  "up_destroy s =
     thenM (up_act (StopServer (us_uuid s)))
    (thenM (up_sleep 20)
      (bindM (up_destroy_loop 3 (us_uuid s) None) (\<lambda>(err, server_gone). case err of
           Some x \<Rightarrow> raiseM x
         | None \<Rightarrow> whenM (\<not> server_gone) (forM (us_storages s) (\<lambda>st. up_act (DestroyStorage st))))))"

definition upcloud_delete_node :: "string \<Rightarrow> unit up" where
  "upcloud_delete_node ext =
     thenM (up_act Authenticate)
      (bindM up_get_servers (\<lambda>ss. bindM (up_find ext ss) (\<lambda>found. case found of
          None \<Rightarrow> returnM ()
        | Some s \<Rightarrow> up_destroy s)))"

section \<open>What they promise\<close>

definition did :: "up_call \<Rightarrow> up_net \<Rightarrow> bool" where
  "did c w \<longleftrightarrow> (c, True) \<in> set (un_log w)"

definition tried :: "up_call \<Rightarrow> up_net \<Rightarrow> bool" where
  "tried c w \<longleftrightarrow> (\<exists>b. (c, b) \<in> set (un_log w))"

lemma did_tried: "did c w \<Longrightarrow> tried c w"
  by (auto simp: did_def tried_def)

lemma up_act_logs:
  assumes "up_act c w = (r, w')"
  shows "un_log w' = un_log w @ [(c, \<not> isl r)]"
  using assms by (auto simp: up_act_def up_note_def split: list.splits option.splits prod.splits)

lemma log_grows_forM:
  assumes "forM xs (\<lambda>x. up_act (f x)) w = (r, w')"
  shows "\<exists>l. un_log w' = un_log w @ l \<and> (r = Inr () \<longrightarrow> (\<forall>x \<in> set xs. (f x, True) \<in> set l))"
  using assms
proof (induction xs arbitrary: w)
  case (Cons x xs)
  obtain q w1 where q: "up_act (f x) w = (q, w1)" by fastforce
  show ?case
  proof (cases q)
    case (Inl e)
    then show ?thesis using Cons.prems q up_act_logs [OF q] by (auto simp: thenM_def bindM_def)
  next
    case (Inr u)
    then have "forM xs (\<lambda>x. up_act (f x)) w1 = (r, w')" using Cons.prems q by (simp add: thenM_def bindM_def)
    from Cons.IH [OF this] up_act_logs [OF q] Inr show ?thesis by auto
  qed
qed (simp add: skipM_def returnM_def)

text \<open>A settled loop: the last attempt succeeded, or found no server.\<close>

lemma up_loop_outcome:
  assumes "up_destroy_loop n uuid err w = (Inr (err', server_gone), w')"
  shows "\<exists>l. un_log w' = un_log w @ l \<and> (err' = None \<and> 0 < n \<longrightarrow> (DestroyServer uuid, \<not> server_gone) \<in> set l)"
  using assms
proof (induction n arbitrary: err w)
  case (Suc n)
  obtain q w1 where q: "up_act (DestroyServer uuid) w = (q, w1)" by fastforce
  note l1 = up_act_logs [OF q]
  show ?case
  proof (cases q)
    case (Inr u)
    then show ?thesis using Suc.prems q l1 by (auto simp: monad_simps)
  next
    case (Inl x)
    show ?thesis
    proof (cases x)
      case (UpRaised e)
      then show ?thesis using Suc.prems q Inl by (simp add: monad_simps)
    next
      case (UpError c)
      show ?thesis
      proof (cases "c = not_found")
        case True
        then show ?thesis using Suc.prems q l1 Inl UpError by (auto simp: monad_simps)
      next
        case False
        obtain z w2 where z: "whenM (0 < n) (up_sleep 5) w1 = (z, w2)" by fastforce
        then have l2: "\<exists>l. un_log w2 = un_log w1 @ l" "z = Inr ()"
          by (auto simp: whenM_def up_sleep_def up_note_def skipM_def returnM_def split: if_splits)
        have rest: "up_destroy_loop n uuid (Some (UpError c)) w2 = (Inr (err', server_gone), w')"
          using Suc.prems q Inl UpError False z l2(2) by (simp add: bindM_def attemptM_def thenM_def)
        from Suc.IH [OF this] l2(1) l1 obtain l where
          l: "un_log w' = un_log w @ l" "err' = None \<and> 0 < n \<longrightarrow> (DestroyServer uuid, \<not> server_gone) \<in> set l" by fastforce
        have "n = 0 \<Longrightarrow> err' \<noteq> None" using rest by (auto simp: returnM_def)
        then show ?thesis using l by blast
      qed
    qed
  qed
qed (simp add: returnM_def)

text \<open>Deleting a server returns only after it was destroyed or found missing; its storages are destroyed
  when this call destroyed it.\<close>

lemma up_destroy_outcome:
  assumes "up_destroy s w = (Inr (), w')"
  shows "\<exists>l. un_log w' = un_log w @ l \<and>
     ((DestroyServer (us_uuid s), True) \<in> set l \<and> (\<forall>st \<in> set (us_storages s). (DestroyStorage st, True) \<in> set l)
      \<or> (DestroyServer (us_uuid s), False) \<in> set l)"
proof -
  obtain w1 where w1: "up_act (StopServer (us_uuid s)) w = (Inr (), w1)"
    using assms unfolding up_destroy_def by (rule thenM_cases) (simp, metis that old.unit.exhaust)
  obtain w2 where w2: "up_sleep 20 w1 = (Inr (), w2)" "un_log w2 = un_log w1 @ [(Pause 20, True)]"
    by (auto simp: up_sleep_def up_note_def returnM_def)
  have run: "bindM (up_destroy_loop 3 (us_uuid s) None) (\<lambda>(err, server_gone). case err of
           Some x \<Rightarrow> raiseM x
         | None \<Rightarrow> whenM (\<not> server_gone) (forM (us_storages s) (\<lambda>st. up_act (DestroyStorage st)))) w2 = (Inr (), w')"
    using assms w1 w2(1) by (simp add: up_destroy_def thenM_def bindM_def)
  then obtain err g w3 where w3: "up_destroy_loop 3 (us_uuid s) None w2 = (Inr (err, g), w3)"
    by (rule bindM_cases) (simp, metis that prod.exhaust)
  have k: "err = None" "whenM (\<not> g) (forM (us_storages s) (\<lambda>st. up_act (DestroyStorage st))) w3 = (Inr (), w')"
    using run w3 by (auto simp: bindM_def raiseM_def split: option.splits)
  from up_loop_outcome [OF w3] k(1) obtain l3 where l3: "un_log w3 = un_log w2 @ l3" "(DestroyServer (us_uuid s), \<not> g) \<in> set l3" by auto
  show ?thesis
  proof (cases g)
    case True
    then show ?thesis using k(2) l3 w2(2) up_act_logs [OF w1] by (auto simp: whenM_def skipM_def returnM_def)
  next
    case False
    then have "forM (us_storages s) (\<lambda>st. up_act (DestroyStorage st)) w3 = (Inr (), w')" using k(2) by (simp add: whenM_def)
    from log_grows_forM [OF this] l3 w2(2) up_act_logs [OF w1] False show ?thesis by auto
  qed
qed

text \<open>A first attempt that failed for another reason spoils the outcome: when the next one finds the server
  gone, the old error is raised all the same, and the storages are not looked at.\<close>

lemma up_gone_after_error:
  assumes "un_acts w = Some (UpError c) # Some (UpError not_found) # rest" "c \<noteq> not_found"
  shows "\<exists>w'. up_destroy_loop 3 uuid None w = (Inr (Some (UpError c), True), w') \<and> un_acts w' = rest"
  using assms
  by (simp add: numeral_3_eq_3 monad_simps up_act_def up_note_def up_sleep_def)

text \<open>The clean-up after a failed adoption never raises, and starts by stopping the server.\<close>

lemma destroy_created_stops:
  "\<exists>b l w'. destroy_created s w = (Inr (), w') \<and> un_log w' = un_log w @ (StopServer (us_uuid s), b) # l"
proof -
  let ?rest = "bindM (attemptM (up_act (DestroyServer (us_uuid s)))) (\<lambda>r. case r of
            Inl (UpError c) \<Rightarrow> if c = not_found then returnM () else raiseM (UpError c)
          | Inl x \<Rightarrow> raiseM x
          | Inr _ \<Rightarrow> forM (us_storages s) (\<lambda>st. up_act (DestroyStorage st)))"
  have grow: "\<exists>l. un_log (snd (?rest u)) = un_log u @ l" for u
  proof -
    obtain p u1 where p: "up_act (DestroyServer (us_uuid s)) u = (p, u1)" by fastforce
    obtain t u2 where t: "forM (us_storages s) (\<lambda>st. up_act (DestroyStorage st)) u1 = (t, u2)" by fastforce
    from log_grows_forM [OF t] up_act_logs [OF p] p t show ?thesis
      by (cases p) (auto simp: monad_simps split: up_exn.split)
  qed
  obtain z w1 where z: "up_act (StopServer (us_uuid s)) w = (z, w1)" by fastforce
  have sleep: "up_sleep 20 w1 = (Inr (), w1\<lparr>un_log := un_log w1 @ [(Pause 20, True)]\<rparr>)"
    by (simp add: up_sleep_def up_note_def returnM_def)
  obtain q w3 where q: "?rest (w1\<lparr>un_log := un_log w1 @ [(Pause 20, True)]\<rparr>) = (q, w3)" by fastforce
  from grow [of "w1\<lparr>un_log := un_log w1 @ [(Pause 20, True)]\<rparr>"] q
  have l3: "\<exists>l. un_log w3 = un_log w1 @ l" by auto
  have "destroy_created s w = (Inr (), if isl z then w1 else w3)"
    using z q unfolding destroy_created_def
    by (cases z) (simp_all add: thenM_def bindM_Inr [where m = "up_sleep 20" and s = w1, OF sleep] bindM_def [of "attemptM (bindM _ _)"]
      attemptM_def [of "bindM _ _"] bindM_def [of "up_act (StopServer _)"] returnM_def)
  with up_act_logs [OF z] l3 show ?thesis by (auto split: if_splits)
qed

lemma up_name_total: "\<exists>name u'. up_rnd_name p u = (Inr name, u')"
proof -
  have "\<exists>v u'. up_letter u = (Inr v, u')" for u
    by (cases "un_random u") (simp_all add: up_letter_def)
  from mapM_total [of "replicate 8 ()" "\<lambda>_. up_letter" u, OF this] obtain ns u' where
    "mapM (\<lambda>_. up_letter) (replicate 8 ()) u = (Inr ns, u')" by blast
  then show ?thesis by (simp add: up_rnd_name_def bindM_def returnM_def)
qed

text \<open>Every failure once the server exists is followed by its clean-up and raised unchanged; a failure of
  the creation itself leaves nothing to clean up.\<close>

theorem up_create_outcome:
  assumes "upcloud_create_node fl cfg key cc w = (r, w')"
  shows "case r of
      Inr dto \<Rightarrow> \<exists>host s ip w0 w1. up_create_server (up_server_data fl cfg key cc host) w0 = (Inr s, w1)
         \<and> up_public_ip s w1 = (Inr (Some ip), w') \<and> dto = up_dto cfg ip
    | Inl x \<Rightarrow> up_act Authenticate w = (Inl x, w')
        \<or> (\<exists>host w0. up_create_server (up_server_data fl cfg key cc host) w0 = (Inl x, w'))
        \<or> (\<exists>host s w0 w1 w2 b l. up_create_server (up_server_data fl cfg key cc host) w0 = (Inr s, w1)
             \<and> up_adopt cfg host s w1 = (Inl x, w2) \<and> un_log w' = un_log w2 @ (StopServer (us_uuid s), b) # l)"
proof -
  obtain a u where a: "up_act Authenticate w = (a, u)" by fastforce
  show ?thesis
  proof (cases a)
    case (Inl x)
    then show ?thesis using assms a by (auto simp: upcloud_create_node_def thenM_def bindM_def)
  next
    case (Inr unit)
    obtain host w0 where n: "up_rnd_name (cb_label cfg) u = (Inr host, w0)" using up_name_total by blast
    obtain q w1 where q: "up_create_server (up_server_data fl cfg key cc host) w0 = (q, w1)" by fastforce
    have run: "bindM (up_create_server (up_server_data fl cfg key cc host)) (\<lambda>s.
           catchM (up_adopt cfg host s) (\<lambda>x. thenM (destroy_created s) (raiseM x))) w0 = (r, w')"
      using assms a Inr n by (simp add: upcloud_create_node_def thenM_def bindM_def)
    show ?thesis
    proof (cases q)
      case (Inl x)
      then have "r = Inl x" "w' = w1" using run q by (simp_all add: bindM_def)
      then show ?thesis using q unfolding Inl \<open>r = Inl x\<close> \<open>w' = w1\<close> sum.case by blast
    next
      case s: (Inr s)
      obtain d w2 where d: "up_adopt cfg host s w1 = (d, w2)" by fastforce
      show ?thesis
      proof (cases d)
        case (Inl x)
        from destroy_created_stops [of s w2] obtain b l w3 where c: "destroy_created s w2 = (Inr (), w3)"
          "un_log w3 = un_log w2 @ (StopServer (us_uuid s), b) # l" by blast
        have "r = Inl x" "w' = w3"
          using run q s d Inl c(1) by (simp_all add: bindM_def catchM_def thenM_def raiseM_def)
        with q s d Inl c(2) show ?thesis unfolding \<open>r = Inl x\<close> sum.case by blast
      next
        case dto: (Inr dto)
        then have "r = Inr dto" "w' = w2" using run q s d by (simp_all add: bindM_def catchM_def)
        moreover obtain ip where "up_public_ip s w1 = (Inr (Some ip), w2)" "dto = up_dto cfg ip"
          using d dto by (auto simp: up_adopt_def bindM_def raiseM_def returnM_def split: prod.splits sum.splits option.splits)
        ultimately show ?thesis using q s by (simp only: sum.case) blast
      qed
    qed
  qed
qed

end
