(* ===== verification/Azure.thy ===== *)
theory Azure
  imports Hetzner
begin

text \<open>
  \<open>infra/cloud/providers/az.py\<close>, over the vendor's SDK: every awaited call takes its outcome from a list in
  the state and is logged.  Credentials and the closing of the clients are left out.
\<close>

section \<open>The SDK\<close>

record az_nic =
  an_name :: string
  an_id :: string
  an_ips :: "string option list"
  an_tags :: "(string \<times> string) list option"

record az_vm =
  av_name :: string
  av_tags :: "(string \<times> string) list option"

record vm_params =
  vp_location :: string
  vp_tags :: "(string \<times> string) list"
  vp_size :: string
  vp_image :: azure_image
  vp_nic_id :: string
  vp_computer_name :: string
  vp_username :: string
  vp_custom_data :: "string option"
  vp_key_path :: string
  vp_key_data :: string

datatype az_call =
    GetSubnet string | GetNsg string
  | BeginNic string string | WaitNic string | ResultNic string | TagNic string string
  | BeginVm string vm_params | WaitVm string | ResultVm string
  | PowerOffVm string | DeleteVm string | DeleteNic string | WaitDone string
  | ListVms | ListNics

record az_net =
  zn_acts :: "exn option list"
  zn_nics :: "(exn + az_nic) list"
  zn_vm_pages :: "(az_vm list \<times> exn option) list"
  zn_nic_pages :: "(az_nic list \<times> exn option) list"
  zn_random :: "nat list"
  zn_log :: "(az_call \<times> bool) list"

type_synonym 'a az = "(az_net, exn, 'a) M"

definition az_note :: "az_call \<Rightarrow> 'a az \<Rightarrow> 'a az" where
  "az_note c m w = (case m w of (r, w') \<Rightarrow> (r, w'\<lparr>zn_log := zn_log w' @ [(c, \<not> isl r)]\<rparr>))"

definition az_act :: "az_call \<Rightarrow> unit az" where
  "az_act c = az_note c (\<lambda>w. case zn_acts w of
       [] \<Rightarrow> (Inl (OSErr ''no answer''), w)
     | a # as \<Rightarrow> ((case a of None \<Rightarrow> Inr () | Some x \<Rightarrow> Inl x), w\<lparr>zn_acts := as\<rparr>))"

definition az_nic_result :: "string \<Rightarrow> az_nic az" where
  "az_nic_result name = az_note (ResultNic name) (\<lambda>w. case zn_nics w of
       [] \<Rightarrow> (Inl (OSErr ''no answer''), w) | a # as \<Rightarrow> (a, w\<lparr>zn_nics := as\<rparr>))"

text \<open>A listing yields some items and then ends, or raises.\<close>

definition az_vms :: "(az_vm list \<times> exn option) az" where
  "az_vms = az_note ListVms (\<lambda>w. case zn_vm_pages w of
       [] \<Rightarrow> (Inr ([], Some (OSErr ''no answer'')), w) | a # as \<Rightarrow> (Inr a, w\<lparr>zn_vm_pages := as\<rparr>))"

definition az_nics :: "(az_nic list \<times> exn option) az" where
  "az_nics = az_note ListNics (\<lambda>w. case zn_nic_pages w of
       [] \<Rightarrow> (Inr ([], Some (OSErr ''no answer'')), w) | a # as \<Rightarrow> (Inr a, w\<lparr>zn_nic_pages := as\<rparr>))"

definition az_letter :: "nat az" where
  "az_letter w = (case zn_random w of [] \<Rightarrow> (Inr 0, w) | r # rs \<Rightarrow> (Inr (r mod 26), w\<lparr>zn_random := rs\<rparr>))"

definition az_rnd_name :: "string \<Rightarrow> string az" where
  "az_rnd_name prefix = bindM (mapM (\<lambda>_. az_letter) (replicate 8 ())) (\<lambda>ns. returnM (prefix @ ''-'' @ map (\<lambda>n. char_of (97 + n)) ns))"

section \<open>Creation\<close>

definition id_tag_name :: string where
  "id_tag_name = ''yascheduler_ip''"

definition fetch_network_resources :: "azure_config \<Rightarrow> unit az" where
  "fetch_network_resources cfg = thenM (az_act (GetSubnet (az_subnet cfg))) (az_act (GetNsg (az_nsg cfg)))"

text \<open>The address of the last IP configuration counts.\<close>

definition nic_address :: "az_nic \<Rightarrow> string option" where
  "nic_address nic = (if an_ips nic = [] then None else (case last (an_ips nic) of Some a \<Rightarrow> (if a = [] then None else Some a) | None \<Rightarrow> None))"

definition create_nic :: "azure_config \<Rightarrow> string \<Rightarrow> (az_nic \<times> string) az" where
  "create_nic cfg vm_name = (let name = vm_name @ ''-nic'' in
     thenM (fetch_network_resources cfg)
    (thenM (az_act (BeginNic name (name @ ''-ip-config'')))
    (thenM (az_act (WaitNic name))
      (bindM (az_nic_result name) (\<lambda>nic. case nic_address nic of
           None \<Rightarrow> raiseM (RuntimeErr ''Azure VM created but no IP is assigned'')
         | Some ip \<Rightarrow> thenM (az_act (TagNic (an_name nic) ip)) (returnM (nic, ip)))))))"

definition az_render_custom_data :: "(rat \<Rightarrow> string) \<Rightarrow> cloud_init option \<Rightarrow> string option" where
  "az_render_custom_data fl cc = map_option (\<lambda>c.
     render_base64 fl (c\<lparr>ci_bootcmd := PStr ''systemctl mask waagent-apt.service'' # ci_bootcmd c\<rparr>)) cc"

definition create_vm_params ::
  "(rat \<Rightarrow> string) \<Rightarrow> azure_config \<Rightarrow> string \<Rightarrow> az_nic \<Rightarrow> ssh_key \<Rightarrow> (string \<times> string) list \<Rightarrow> cloud_init option \<Rightarrow> vm_params" where
  "create_vm_params fl cfg vm_name nic key tags cc =
     \<lparr>vp_location = az_location cfg, vp_tags = tags, vp_size = az_vm_size cfg, vp_image = az_vm_image cfg, vp_nic_id = an_id nic,
      vp_computer_name = take 15 vm_name, vp_username = az_username cfg, vp_custom_data = az_render_custom_data fl cc,
      vp_key_path = path_str (path_div (path_div (mk_path ''/home'') (az_username cfg)) ''.ssh/authorized_keys''),
      vp_key_data = sk_public key\<rparr>"

definition az_quietly :: "unit az \<Rightarrow> unit az" where
  "az_quietly m = bindM (attemptM m) (\<lambda>_. returnM ())"

definition cleanup_vm_and_nic :: "string \<Rightarrow> string \<Rightarrow> unit az" where
  "cleanup_vm_and_nic vm_name nic_name =
     thenM (az_quietly (thenM (az_act (DeleteVm vm_name)) (az_act (WaitDone vm_name))))
           (az_quietly (thenM (az_act (DeleteNic nic_name)) (az_act (WaitDone nic_name))))"

definition az_dto :: "azure_config \<Rightarrow> string \<Rightarrow> create_dto" where
  "az_dto cfg ip = \<lparr>dto_external_id = ip, dto_hostname = ip, dto_username = az_username cfg, dto_port = 22,
     dto_jump_host = cb_jump_host cfg, dto_jump_port = cb_jump_port cfg, dto_jump_username = jump_user (cb_jump_username cfg)\<rparr>"

definition create_vm :: "string \<Rightarrow> vm_params \<Rightarrow> unit az" where
  "create_vm vm_name params = thenM (az_act (BeginVm vm_name params)) (thenM (az_act (WaitVm vm_name)) (az_act (ResultVm vm_name)))"

definition az_create_node :: "(rat \<Rightarrow> string) \<Rightarrow> azure_config \<Rightarrow> ssh_key \<Rightarrow> cloud_init option \<Rightarrow> create_dto az" where
  "az_create_node fl cfg key cc = bindM (az_rnd_name (cb_label cfg)) (\<lambda>vm_name.
     bindM (create_nic cfg vm_name) (\<lambda>(nic, ip).
       thenM (catchM (create_vm vm_name (create_vm_params fl cfg vm_name nic key [(id_tag_name, ip)] cc)) (\<lambda>x. thenM (cleanup_vm_and_nic vm_name (an_name nic)) (raiseM x)))
             (returnM (az_dto cfg ip))))"

section \<open>Deletion\<close>

definition tag_ip :: "(string \<times> string) list option \<Rightarrow> string option" where
  "tag_ip tags = dget (case tags of None \<Rightarrow> [] | Some d \<Rightarrow> d) id_tag_name"

definition az_delete_vm :: "string \<Rightarrow> unit az" where
  "az_delete_vm ext = bindM az_vms (\<lambda>(vms, err). case find (\<lambda>v. tag_ip (av_tags v) = Some ext) vms of
       Some v \<Rightarrow> thenM (az_act (PowerOffVm (av_name v))) (thenM (az_act (WaitDone (av_name v)))
                  (thenM (az_act (DeleteVm (av_name v))) (az_act (WaitDone (av_name v)))))
     | None \<Rightarrow> (case err of None \<Rightarrow> returnM () | Some x \<Rightarrow> raiseM x))"

definition az_delete_nic :: "string \<Rightarrow> unit az" where
  "az_delete_nic ext = bindM az_nics (\<lambda>(nics, err). case find (\<lambda>n. tag_ip (an_tags n) = Some ext) nics of
       Some n \<Rightarrow> thenM (az_act (DeleteNic (an_name n))) (az_act (WaitDone (an_name n)))
     | None \<Rightarrow> (case err of None \<Rightarrow> returnM () | Some x \<Rightarrow> raiseM x))"

definition az_delete_node :: "string \<Rightarrow> unit az" where
  "az_delete_node ext = thenM (az_delete_vm ext) (az_delete_nic ext)"

section \<open>What they promise\<close>

lemma az_act_logs:
  assumes "az_act c w = (r, w')"
  shows "zn_log w' = zn_log w @ [(c, \<not> isl r)]"
  using assms by (auto simp: az_act_def az_note_def split: list.splits option.splits prod.splits)

text \<open>Two calls in a row, the second only after the first succeeded.\<close>

lemma two_acts:
  assumes "thenM (az_act c) (az_act d) w = (r, w')"
  shows "(zn_log w' = zn_log w @ [(c, False)] \<and> isl r) \<or> (zn_log w' = zn_log w @ [(c, True), (d, \<not> isl r)])"
proof -
  obtain q w1 where q: "az_act c w = (q, w1)" by fastforce
  show ?thesis
  proof (cases q)
    case (Inl x)
    then show ?thesis using assms q az_act_logs [OF q] by (auto simp: thenM_def bindM_def)
  next
    case (Inr u)
    then have "az_act d w1 = (r, w')" using assms q by (simp add: thenM_def bindM_def)
    from az_act_logs [OF this] az_act_logs [OF q] Inr show ?thesis by auto
  qed
qed

text \<open>The clean-up asks for the deletion of the machine first and of its interface in any case, and never raises.\<close>

lemma cleanup_order:
  "\<exists>l1 l2. zn_log (snd (cleanup_vm_and_nic v n w)) = zn_log w @ l1 @ l2 \<and> fst (hd l1) = DeleteVm v \<and> fst (hd l2) = DeleteNic n
     \<and> l1 \<noteq> [] \<and> l2 \<noteq> [] \<and> fst (cleanup_vm_and_nic v n w) = Inr ()"
proof -
  have q: "\<exists>l. zn_log (snd (az_quietly (thenM (az_act c) (az_act d)) u)) = zn_log u @ l \<and> l \<noteq> [] \<and> fst (hd l) = c
      \<and> fst (az_quietly (thenM (az_act c) (az_act d)) u) = Inr ()" for c d u
  proof -
    obtain r u' where "thenM (az_act c) (az_act d) u = (r, u')" by fastforce
    from two_acts [OF this] this show ?thesis by (auto simp: az_quietly_def bindM_def attemptM_def returnM_def)
  qed
  obtain r1 w1 where w1: "az_quietly (thenM (az_act (DeleteVm v)) (az_act (WaitDone v))) w = (r1, w1)" by fastforce
  from q [of "DeleteVm v" "WaitDone v" w] w1 obtain l1 where l1: "zn_log w1 = zn_log w @ l1" "l1 \<noteq> []" "fst (hd l1) = DeleteVm v" "r1 = Inr ()"
    by auto
  from q [of "DeleteNic n" "WaitDone n" w1] obtain l2 where
    l2: "zn_log (snd (az_quietly (thenM (az_act (DeleteNic n)) (az_act (WaitDone n))) w1)) = zn_log w1 @ l2" "l2 \<noteq> []"
      "fst (hd l2) = DeleteNic n" "fst (az_quietly (thenM (az_act (DeleteNic n)) (az_act (WaitDone n))) w1) = Inr ()" by blast
  have c: "cleanup_vm_and_nic v n w = az_quietly (thenM (az_act (DeleteNic n)) (az_act (WaitDone n))) w1"
    using w1 l1(4) by (simp add: cleanup_vm_and_nic_def thenM_def [of "az_quietly _"] bindM_def)
  show ?thesis unfolding c using l1 l2 by auto
qed

lemma az_name_total: "\<exists>name u'. az_rnd_name p u = (Inr name, u')"
proof -
  have "\<exists>v u'. az_letter u = (Inr v, u')" for u
    by (cases "zn_random u") (simp_all add: az_letter_def)
  from mapM_total [of "replicate 8 ()" "\<lambda>_. az_letter" u, OF this] obtain ns u' where
    "mapM (\<lambda>_. az_letter) (replicate 8 ()) u = (Inr ns, u')" by blast
  then show ?thesis by (simp add: az_rnd_name_def bindM_def returnM_def)
qed

text \<open>Creation that fails before the machine was asked for leaves whatever interface exists; a failure of
  the machine itself is raised, after the deletion of the machine, then of its interface, was asked for.\<close>

definition az_params :: "(rat \<Rightarrow> string) \<Rightarrow> azure_config \<Rightarrow> ssh_key \<Rightarrow> cloud_init option \<Rightarrow> string \<Rightarrow> az_nic \<Rightarrow> string \<Rightarrow> vm_params" where
  "az_params fl cfg key cc name nic ip = create_vm_params fl cfg name nic key [(id_tag_name, ip)] cc"

definition cleaned_up :: "string \<Rightarrow> string \<Rightarrow> az_net \<Rightarrow> az_net \<Rightarrow> bool" where
  "cleaned_up v n w w' \<longleftrightarrow> (\<exists>l1 l2. zn_log w' = zn_log w @ l1 @ l2 \<and> l1 \<noteq> [] \<and> fst (hd l1) = DeleteVm v \<and> l2 \<noteq> [] \<and> fst (hd l2) = DeleteNic n)"

lemma cleanup_cleans: "\<exists>w'. cleanup_vm_and_nic v n w = (Inr (), w') \<and> cleaned_up v n w w'"
  using cleanup_order [of v n w] unfolding cleaned_up_def by (metis prod.collapse)

theorem az_create_outcome:
  assumes "az_create_node fl cfg key cc w = (r, w')"
  shows "case r of
      Inr dto \<Rightarrow> \<exists>name nic ip w0 w1. create_nic cfg name w0 = (Inr (nic, ip), w1)
         \<and> create_vm name (az_params fl cfg key cc name nic ip) w1 = (Inr (), w') \<and> dto = az_dto cfg ip
    | Inl x \<Rightarrow> (\<exists>name w0. create_nic cfg name w0 = (Inl x, w'))
        \<or> (\<exists>name nic ip w0 w1 w2. create_nic cfg name w0 = (Inr (nic, ip), w1)
             \<and> create_vm name (az_params fl cfg key cc name nic ip) w1 = (Inl x, w2) \<and> cleaned_up name (an_name nic) w2 w')"
proof -
  obtain name w0 where n: "az_rnd_name (cb_label cfg) w = (Inr name, w0)" using az_name_total by blast
  obtain q w1 where q: "create_nic cfg name w0 = (q, w1)" by fastforce
  show ?thesis
  proof (cases q)
    case (Inl x)
    then have "r = Inl x" "w' = w1" using assms n q by (simp_all add: az_create_node_def bindM_def)
    then show ?thesis using q unfolding Inl \<open>r = Inl x\<close> \<open>w' = w1\<close> sum.case by blast
  next
    case (Inr p)
    obtain nic ip where p: "p = (nic, ip)" by fastforce
    obtain v w2 where v: "create_vm name (az_params fl cfg key cc name nic ip) w1 = (v, w2)" by fastforce
    note e = assms n q [unfolded Inr p] v [unfolded az_params_def]
    show ?thesis
    proof (cases v)
      case x: (Inl x)
      obtain w3 where c: "cleanup_vm_and_nic name (an_name nic) w2 = (Inr (), w3)" "cleaned_up name (an_name nic) w2 w3"
        using cleanup_cleans by blast
      have "r = Inl x" "w' = w3"
        using e x c(1) by (simp_all add: az_create_node_def bindM_def catchM_def thenM_def raiseM_def)
      with q [unfolded Inr p] v [unfolded x] c(2) show ?thesis unfolding \<open>r = Inl x\<close> sum.case by blast
    next
      case u: (Inr u)
      have r: "r = Inr (az_dto cfg ip)" "w' = w2"
        using e u by (simp_all add: az_create_node_def bindM_def catchM_def thenM_def returnM_def)
      have "u = ()" by simp
      with q [unfolded Inr p] v [unfolded u] \<open>w' = w2\<close> show ?thesis unfolding r(1) sum.case by blast
    qed
  qed
qed

text \<open>When the tags of the new interface cannot be set, it is left behind: nothing asks for its deletion.\<close>

lemma az_nic_leak:
  assumes "zn_acts w = [None, None, None, None, Some x]" "zn_nics w = [Inr nic]" "nic_address nic = Some ip" "zn_log w = []"
  shows "\<exists>w'. create_nic cfg name w = (Inl x, w') \<and> (ResultNic (name @ ''-nic''), True) \<in> set (zn_log w')
    \<and> (\<forall>n b. (DeleteNic n, b) \<notin> set (zn_log w'))"
  using assms by (simp add: create_nic_def fetch_network_resources_def Let_def monad_simps az_act_def az_nic_result_def az_note_def)

text \<open>Deletion.  The calls on a machine or an interface are made in order, up to the first failure.\<close>

lemma acts_logged:
  assumes "forM cs az_act w = (r, w')"
  shows "\<exists>l. zn_log w' = zn_log w @ l \<and> set (map fst l) \<subseteq> set cs \<and> (r = Inr () \<longrightarrow> l = map (\<lambda>c. (c, True)) cs)
     \<and> zn_vm_pages w' = zn_vm_pages w \<and> zn_nic_pages w' = zn_nic_pages w"
  using assms
proof (induction cs arbitrary: w)
  case (Cons c cs)
  obtain q w1 where q: "az_act c w = (q, w1)" by fastforce
  have pages: "zn_vm_pages w1 = zn_vm_pages w" "zn_nic_pages w1 = zn_nic_pages w"
    using q by (auto simp: az_act_def az_note_def split: list.splits option.splits prod.splits)
  show ?case
  proof (cases q)
    case (Inl x)
    then show ?thesis using Cons.prems q pages az_act_logs [OF q] by (auto simp: thenM_def bindM_def)
  next
    case (Inr u)
    then have "forM cs az_act w1 = (r, w')" using Cons.prems q by (simp add: thenM_def bindM_def)
    from Cons.IH [OF this] az_act_logs [OF q] Inr pages show ?thesis by fastforce
  qed
qed (simp add: skipM_def returnM_def)

lemma last_act: "az_act c = thenM (az_act c) skipM"
  by (rule ext) (auto simp: thenM_def bindM_def skipM_def returnM_def split: prod.split sum.split)

definition vm_calls :: "string \<Rightarrow> az_call list" where
  "vm_calls n = [PowerOffVm n, WaitDone n, DeleteVm n, WaitDone n]"

definition nic_calls :: "string \<Rightarrow> az_call list" where
  "nic_calls n = [DeleteNic n, WaitDone n]"

lemma vm_calls_eq: "thenM (az_act (PowerOffVm n)) (thenM (az_act (WaitDone n)) (thenM (az_act (DeleteVm n)) (az_act (WaitDone n))))
   = forM (vm_calls n) az_act"
  unfolding vm_calls_def forM.simps using last_act [of "WaitDone n"] by metis

lemma nic_calls_eq: "thenM (az_act (DeleteNic n)) (az_act (WaitDone n)) = forM (nic_calls n) az_act"
  unfolding nic_calls_def forM.simps using last_act [of "WaitDone n"] by metis

lemma vm_stage:
  assumes "az_delete_vm ext w = (r, w')" "zn_vm_pages w = (vms, e) # ps"
  shows "\<exists>l. zn_log w' = zn_log w @ (ListVms, True) # l \<and> zn_nic_pages w' = zn_nic_pages w
     \<and> (case find (\<lambda>v. tag_ip (av_tags v) = Some ext) vms of
           None \<Rightarrow> l = [] \<and> (r = Inr () \<longrightarrow> e = None)
         | Some v \<Rightarrow> set (map fst l) \<subseteq> set (vm_calls (av_name v)) \<and> (r = Inr () \<longrightarrow> l = map (\<lambda>c. (c, True)) (vm_calls (av_name v))))"
proof -
  let ?w = "w\<lparr>zn_vm_pages := ps, zn_log := zn_log w @ [(ListVms, True)]\<rparr>"
  have run: "(case find (\<lambda>v. tag_ip (av_tags v) = Some ext) vms of
       Some v \<Rightarrow> forM (vm_calls (av_name v)) az_act
     | None \<Rightarrow> (case e of None \<Rightarrow> returnM () | Some x \<Rightarrow> raiseM x)) ?w = (r, w')"
    using assms unfolding az_delete_vm_def vm_calls_eq by (simp add: bindM_def az_vms_def az_note_def)
  show ?thesis
  proof (cases "find (\<lambda>v. tag_ip (av_tags v) = Some ext) vms")
    case None
    then show ?thesis using run by (auto simp: returnM_def raiseM_def split: option.splits)
  next
    case (Some v)
    then have "forM (vm_calls (av_name v)) az_act ?w = (r, w')" using run by simp
    from acts_logged [OF this] Some show ?thesis by auto
  qed
qed

lemma nic_stage:
  assumes "az_delete_nic ext w = (r, w')" "zn_nic_pages w = (nics, e) # ps"
  shows "\<exists>l. zn_log w' = zn_log w @ (ListNics, True) # l
     \<and> (case find (\<lambda>n. tag_ip (an_tags n) = Some ext) nics of
           None \<Rightarrow> l = [] \<and> (r = Inr () \<longrightarrow> e = None)
         | Some n \<Rightarrow> set (map fst l) \<subseteq> set (nic_calls (an_name n)) \<and> (r = Inr () \<longrightarrow> l = map (\<lambda>c. (c, True)) (nic_calls (an_name n))))"
proof -
  let ?w = "w\<lparr>zn_nic_pages := ps, zn_log := zn_log w @ [(ListNics, True)]\<rparr>"
  have run: "(case find (\<lambda>n. tag_ip (an_tags n) = Some ext) nics of
       Some n \<Rightarrow> forM (nic_calls (an_name n)) az_act
     | None \<Rightarrow> (case e of None \<Rightarrow> returnM () | Some x \<Rightarrow> raiseM x)) ?w = (r, w')"
    using assms unfolding az_delete_nic_def nic_calls_eq by (simp add: bindM_def az_nics_def az_note_def)
  show ?thesis
  proof (cases "find (\<lambda>n. tag_ip (an_tags n) = Some ext) nics")
    case None
    then show ?thesis using run by (auto simp: returnM_def raiseM_def split: option.splits)
  next
    case (Some n)
    then have "forM (nic_calls (an_name n)) az_act ?w = (r, w')" using run by simp
    from acts_logged [OF this] Some show ?thesis by auto
  qed
qed

text \<open>A deletion that returns has deleted the machine and the interface that carry the address, the machine
  first; what it deletes, however it ends, carries the address.\<close>

theorem az_deletion:
  assumes "az_delete_node ext w = (r, w')" "zn_vm_pages w = (vms, e) # ps" "zn_nic_pages w = (nics, e') # qs"
  defines "vm \<equiv> find (\<lambda>v. tag_ip (av_tags v) = Some ext) vms" and "nic \<equiv> find (\<lambda>n. tag_ip (an_tags n) = Some ext) nics"
  shows "\<exists>l. zn_log w' = zn_log w @ l
     \<and> (\<forall>c b. (c, b) \<in> set l \<longrightarrow> c \<in> {ListVms, ListNics}
          \<or> (\<exists>v. vm = Some v \<and> c \<in> set (vm_calls (av_name v))) \<or> (\<exists>n. nic = Some n \<and> c \<in> set (nic_calls (an_name n))))
     \<and> (r = Inr () \<longrightarrow> map fst l = ListVms # (case vm of None \<Rightarrow> [] | Some v \<Rightarrow> vm_calls (av_name v))
                          @ ListNics # (case nic of None \<Rightarrow> [] | Some n \<Rightarrow> nic_calls (an_name n)))"
proof -
  obtain q w1 where q: "az_delete_vm ext w = (q, w1)" by fastforce
  from vm_stage [OF q assms(2)] obtain l1 where l1: "zn_log w1 = zn_log w @ (ListVms, True) # l1" "zn_nic_pages w1 = zn_nic_pages w"
    "case vm of None \<Rightarrow> l1 = [] \<and> (q = Inr () \<longrightarrow> e = None)
       | Some v \<Rightarrow> set (map fst l1) \<subseteq> set (vm_calls (av_name v)) \<and> (q = Inr () \<longrightarrow> l1 = map (\<lambda>c. (c, True)) (vm_calls (av_name v)))"
    unfolding vm_def by blast
  have s1: "\<forall>c b. (c, b) \<in> set l1 \<longrightarrow> (\<exists>v. vm = Some v \<and> c \<in> set (vm_calls (av_name v)))"
    using l1(3) by (force split: option.splits)
  show ?thesis
  proof (cases q)
    case (Inl x)
    then have "r = Inl x" "w' = w1" using assms(1) q by (simp_all add: az_delete_node_def thenM_def bindM_def)
    with l1(1) s1 show ?thesis by auto
  next
    case (Inr u)
    then have n: "az_delete_nic ext w1 = (r, w')" using assms(1) q by (simp add: az_delete_node_def thenM_def bindM_def)
    from nic_stage [OF n, of nics e' qs] l1(2) assms(3) obtain l2 where l2: "zn_log w' = zn_log w1 @ (ListNics, True) # l2"
      "case nic of None \<Rightarrow> l2 = [] \<and> (r = Inr () \<longrightarrow> e' = None)
         | Some n \<Rightarrow> set (map fst l2) \<subseteq> set (nic_calls (an_name n)) \<and> (r = Inr () \<longrightarrow> l2 = map (\<lambda>c. (c, True)) (nic_calls (an_name n)))"
      unfolding nic_def by auto
    have s2: "\<forall>c b. (c, b) \<in> set l2 \<longrightarrow> (\<exists>n. nic = Some n \<and> c \<in> set (nic_calls (an_name n)))"
      using l2(2) by (force split: option.splits)
    have f1: "map fst l1 = (case vm of None \<Rightarrow> [] | Some v \<Rightarrow> vm_calls (av_name v))"
      using l1(3) Inr by (auto split: option.splits simp: o_def)
    have f2: "r = Inr () \<Longrightarrow> map fst l2 = (case nic of None \<Rightarrow> [] | Some n \<Rightarrow> nic_calls (an_name n))"
      using l2(2) by (auto split: option.splits simp: o_def)
    show ?thesis
      using l1(1) l2(1) s1 s2 f1 f2 by (intro exI [of _ "(ListVms, True) # l1 @ (ListNics, True) # l2"]) auto
  qed
qed

end
