(* ===== verification/Vendor_Samples.thy ===== *)
theory Vendor_Samples
  imports Vastai Upcloud Azure Samples
begin

text \<open>Concrete vendors, at which the witnesses of the providers' properties apply them.\<close>

definition vendor_sample :: "http_answer list \<Rightarrow> vendor_net" where
  "vendor_sample as = \<lparr>vn_clock = 0, vn_answers = map (Pair 1) as, vn_naps = [], vn_random = [], vn_log = []\<rparr>"

definition ok_json :: "(string \<times> pyval) list \<Rightarrow> http_answer" where
  "ok_json d = Answer 200 ''{}'' (Json (PDict d))"

definition sample_hz :: hetzner_config where
  "sample_hz = (case sample_hetzner of CfgHetzner c \<Rightarrow> c)"

definition sample_server :: pyval where
  "sample_server = PDict [(''id'', PInt 42), (''name'', PStr ''node-aaaaaaaa''),
     (''public_net'', PDict [(''ipv4'', PDict [(''ip'', PStr ''1.2.3.4'')])]), (''labels'', PDict [])]"

definition sample_hz_key :: pyval where
  "sample_hz_key = PDict [(''id'', PInt 7), (''name'', PStr ''key''), (''fingerprint'', PStr ''aa:bb'')]"

definition sample_key :: ssh_key where
  "sample_key = \<lparr>sk_filename = Some ''/keys/yakey-1'', sk_comment = ''yakey-1'', sk_md5 = ''MD5:aa:bb'', sk_public = ''ssh-rsa AAAA''\<rparr>"

definition sample_vultr :: vultr_config where
  "sample_vultr = \<lparr>cb_max_nodes = 3, cb_priority = 0, cb_idle_tolerance = 300, cb_connect_grace = 300,
     cb_package_upgrade = False, cb_jump_username = None, cb_jump_host = None, cb_jump_port = 22, cb_label = ''ya'',
     vu_api_key = ''k'', vu_location = ''ams'', vu_server_type = ''vbm-8c-132gb'', vu_image_name = 2136, vu_need_raid = False,
     vu_username = ''root''\<rparr>"

definition sample_metal :: "string \<Rightarrow> string \<Rightarrow> http_answer" where
  "sample_metal st ip = ok_json [(''bare_metal'', PDict [(''id'', PStr ''m1''), (''status'', PStr st), (''main_ip'', PStr ip)])]"

definition sample_vastai :: vastai_config where
  "sample_vastai = \<lparr>cb_max_nodes = 3, cb_priority = 0, cb_idle_tolerance = 300, cb_connect_grace = 300,
     cb_package_upgrade = False, cb_jump_username = None, cb_jump_host = None, cb_jump_port = 22, cb_label = ''ya'',
     va_api_key = ''k'', va_image = ''pytorch/pytorch'', va_disk_gb = 80, va_min_vram_mb = 1024, va_num_gpus = 1,
     va_max_price_per_hr = 3 / 2, va_onstart_script = None, va_docker_options = None\<rparr>"

definition sample_offer :: "int \<Rightarrow> rat \<Rightarrow> pyval" where
  "sample_offer i p = PDict [(''id'', PInt i), (''dph_total'', PFloat p)]"

text \<open>A Hetzner whose POST is lost on the way back, and which then lists the server under its label.\<close>

definition lost_post :: vendor_net where
  "lost_post = vendor_sample [ok_json [(''ssh_keys'', PList [sample_hz_key])], Transport ''reset'',
     ok_json [(''servers'', PList [sample_server])], Answer 204 [] NoBody, Answer 404 ''gone'' NoBody]"

definition vultr_boot :: vendor_net where
  "vultr_boot = vendor_sample [ok_json [(''ssh_keys'', PList [PDict [(''id'', PStr ''k1''), (''ssh_key'', PStr ''ssh-rsa AAAA'')]])],
     sample_metal ''pending'' '''', Answer 503 ''busy'' NoBody, sample_metal ''pending'' ''0.0.0.0'', sample_metal ''active'' ''1.2.3.4'']"

definition vast_market :: vendor_net where
  "vast_market = vendor_sample [Answer 200 ''[]'' (Json (PList [PDict [(''public_key'', PStr ''ssh-rsa AAAA'')]])),
     ok_json [(''offers'', PList [sample_offer 5 (6 / 5), sample_offer 6 1])],
     ok_json [(''new_contract'', PInt 99)],
     ok_json [(''instances'', PDict [(''id'', PInt 99), (''actual_status'', PStr ''running''), (''ssh_host'', PStr ''ssh5.vast.ai''), (''ssh_port'', PInt 40022)])]]"

definition sample_az :: "(az_call \<times> bool) list \<Rightarrow> az_net" where
  "sample_az l = \<lparr>zn_acts = replicate 6 None, zn_nics = [],
     zn_vm_pages = [([\<lparr>av_name = ''a'', av_tags = None\<rparr>, \<lparr>av_name = ''b'', av_tags = Some [(''yascheduler_ip'', ''10.0.0.5'')]\<rparr>], None)],
     zn_nic_pages = [([\<lparr>an_name = ''b-nic'', an_id = ''n1'', an_ips = [Some ''10.0.0.5''], an_tags = Some [(''yascheduler_ip'', ''10.0.0.5'')]\<rparr>], None)],
     zn_random = [], zn_log = l\<rparr>"

definition sample_up :: "up_exn option list \<Rightarrow> up_net" where
  "sample_up as = \<lparr>un_acts = as, un_creates = [], un_lists = [], un_ips = [], un_random = [], un_log = []\<rparr>"

end
