(* ===== verification/Ini.thy ===== *)
theory Ini
  imports Host_Spec
begin

text \<open>
  What the configuration parser uses of Python's \<open>configparser\<close>: a parsed file with its \<open>[DEFAULT]\<close> section,
  reading an option with \<open>%(name)s\<close> interpolation, the typed getters, and setting an option.  Option names
  are in lower case, as \<open>read\<close> leaves them; case folding is that of ASCII.  The messages of
  \<open>configparser\<close>'s own errors are cut down to their class.
\<close>

section \<open>Sums as results\<close>

definition bindE :: "exn + 'a \<Rightarrow> ('a \<Rightarrow> exn + 'b) \<Rightarrow> exn + 'b" where
  "bindE r f = (case r of Inl e \<Rightarrow> Inl e | Inr a \<Rightarrow> f a)"

fun mapE :: "('a \<Rightarrow> exn + 'b) \<Rightarrow> 'a list \<Rightarrow> exn + 'b list" where
  "mapE f [] = Inr []"
| "mapE f (x # xs) = bindE (f x) (\<lambda>y. bindE (mapE f xs) (\<lambda>ys. Inr (y # ys)))"

lemma bindE_simps [simp]: "bindE (Inl e) f = Inl e" "bindE (Inr a) f = f a"
  by (simp_all add: bindE_def)

lemma bindE_Inr_iff: "bindE r f = Inr b \<longleftrightarrow> (\<exists>a. r = Inr a \<and> f a = Inr b)"
  by (cases r) auto

lemma mapE_Inr_iff: "mapE f xs = Inr ys \<longleftrightarrow> list_all2 (\<lambda>x y. f x = Inr y) xs ys"
  by (induction xs arbitrary: ys) (auto simp: bindE_Inr_iff list_all2_Cons1)

lemma mapE_cong_on: "(\<And>x. x \<in> set xs \<Longrightarrow> f x = g x) \<Longrightarrow> mapE f xs = mapE g xs"
  by (induction xs) auto

section \<open>Strings\<close>

definition lower_char :: "char \<Rightarrow> char" where
  "lower_char c = (let n = of_char c :: nat in if 65 \<le> n \<and> n \<le> 90 then char_of (n + 32) else c)"

definition lower :: "string \<Rightarrow> string" where
  "lower s = map lower_char s"

text \<open>\<open>s.split()\<close>: the words between white space.\<close>

fun words_from :: "string \<Rightarrow> string \<Rightarrow> string list" where
  "words_from w [] = (if w = [] then [] else [rev w])"
| "words_from w (c # cs) = (if is_space c then (if w = [] then words_from [] cs else rev w # words_from [] cs)
                            else words_from (c # w) cs)"

definition py_words :: "string \<Rightarrow> string list" where
  "py_words s = words_from [] s"

lemma words_from_plain: "list_all (\<lambda>c. \<not> is_space c) w \<Longrightarrow> x \<in> set (words_from w s) \<Longrightarrow> x \<noteq> [] \<and> list_all (\<lambda>c. \<not> is_space c) x"
proof (induction w s rule: words_from.induct)
  case (1 w)
  then show ?case by (simp split: if_splits)
next
  case (2 w c cs)
  show ?case
  proof (cases "is_space c")
    case True
    then show ?thesis using 2 by (cases "w = []") auto
  next
    case False
    then show ?thesis using 2 by simp
  qed
qed

lemma py_words_plain: "x \<in> set (py_words s) \<Longrightarrow> x \<noteq> [] \<and> list_all (\<lambda>c. \<not> is_space c) x"
  unfolding py_words_def by (rule words_from_plain) simp_all

lemma strip_plain: "list_all (\<lambda>c. \<not> is_space c) x \<Longrightarrow> strip x = x"
proof -
  assume "list_all (\<lambda>c. \<not> is_space c) x"
  then have p: "\<forall>c \<in> set x. \<not> is_space c" by (simp add: list_all_iff)
  have "x = [] \<or> \<not> is_space (hd x)" using p by (cases x) auto
  moreover have "rev x = [] \<or> \<not> is_space (hd (rev x))" using p by (cases x rule: rev_cases) auto
  ultimately have "dropWhile is_space x = x" "dropWhile is_space (rev x) = rev x"
    by (simp_all only: dropWhile_eq_self_iff)
  then show ?thesis by (simp add: strip_def)
qed

section \<open>Files and sections\<close>

record ini =
  in_sections :: "(string \<times> (string \<times> string) list) list"
  in_defaults :: "(string \<times> string) list"
  in_warnings :: "(string \<times> string list) list"

record ini_section =
  sc_name :: string
  sc_options :: "(string \<times> string) list"
  sc_defaults :: "(string \<times> string) list"

definition ini_section :: "ini \<Rightarrow> string \<Rightarrow> ini_section" where
  "ini_section cfg name = \<lparr>sc_name = name, sc_options = (case dget (in_sections cfg) name of None \<Rightarrow> [] | Some os \<Rightarrow> os),
     sc_defaults = in_defaults cfg\<rparr>"

definition sec_lookup :: "ini_section \<Rightarrow> string \<Rightarrow> string option" where
  "sec_lookup sec key = (case dget (sc_options sec) key of None \<Rightarrow> dget (sc_defaults sec) key | Some v \<Rightarrow> Some v)"

text \<open>\<open>parser.options(section)\<close>.\<close>

definition sec_keys :: "ini_section \<Rightarrow> string list" where
  "sec_keys sec = dkeys (sc_options sec) @ filter (\<lambda>k. \<not> dhas (sc_options sec) k) (dkeys (sc_defaults sec))"

definition ensure_section :: "string \<Rightarrow> ini \<Rightarrow> ini" where
  "ensure_section name cfg = (if dhas (in_sections cfg) name then cfg else cfg\<lparr>in_sections := in_sections cfg @ [(name, [])]\<rparr>)"

section \<open>Interpolation\<close>

definition interpolation_error :: exn where
  "interpolation_error = OtherError ''InterpolationError''"

text \<open>\<open>%%\<close> is a percent sign, \<open>%(name)s\<close> the value of an option, interpolated in turn; at most ten levels.\<close>

function interpolate :: "(string \<Rightarrow> string option) \<Rightarrow> nat \<Rightarrow> string \<Rightarrow> exn + string" where
  "interpolate look d s = (case s of
      [] \<Rightarrow> Inr []
    | c # r \<Rightarrow>
        if c \<noteq> CHR ''%'' then map_sum id ((#) c) (interpolate look d r)
        else (case r of
            [] \<Rightarrow> Inl interpolation_error
          | c' # t \<Rightarrow>
              if c' = CHR ''%'' then map_sum id ((#) CHR ''%'') (interpolate look d t)
              else if c' \<noteq> CHR ''('' then Inl interpolation_error
              else (case partition_on CHR '')'' t of (name, found, u) \<Rightarrow>
                if \<not> found \<or> name = [] \<or> u = [] \<or> hd u \<noteq> CHR ''s'' then Inl interpolation_error
                else (case look (lower name) of
                    None \<Rightarrow> Inl interpolation_error
                  | Some v \<Rightarrow> (case (if CHR ''%'' \<in> set v then (if d = 0 then Inl interpolation_error else interpolate look (d - 1) v) else Inr v) of
                        Inl e \<Rightarrow> Inl e
                      | Inr a \<Rightarrow> map_sum id ((@) a) (interpolate look d (tl u)))))))"
  by pat_completeness auto
termination
proof (relation "measures [\<lambda>(look, d, s). d, \<lambda>(look, d, s). length s]")
qed (auto dest!: partition_on_length [OF sym] simp: le_imp_less_Suc)

declare interpolate.simps [simp del]

lemma interpolate_plain: "CHR ''%'' \<notin> set s \<Longrightarrow> interpolate look d s = Inr s"
  by (induction s) (subst interpolate.simps, auto)+

text \<open>\<open>before_set\<close>: what remains without \<open>%%\<close> and references must hold no percent sign.\<close>

fun drop_escapes :: "string \<Rightarrow> string" where
  "drop_escapes [] = []"
| "drop_escapes [c] = [c]"
| "drop_escapes (c # c' # r) = (if c = CHR ''%'' \<and> c' = CHR ''%'' then drop_escapes r else c # drop_escapes (c' # r))"

function drop_references :: "string \<Rightarrow> string" where
  "drop_references s = (case s of
      [] \<Rightarrow> []
    | c # r \<Rightarrow>
        (if c = CHR ''%'' \<and> r \<noteq> [] \<and> hd r = CHR ''('' then
           (case partition_on CHR '')'' (tl r) of (name, found, u) \<Rightarrow>
              if found \<and> name \<noteq> [] \<and> u \<noteq> [] \<and> hd u = CHR ''s'' then drop_references (tl u) else c # drop_references r)
         else c # drop_references r))"
  by pat_completeness auto
termination
  by (relation "measure length") (auto dest!: partition_on_length [OF sym] simp: le_imp_less_Suc)

declare drop_references.simps [simp del]

definition settable :: "string \<Rightarrow> bool" where
  "settable v \<longleftrightarrow> CHR ''%'' \<notin> set (drop_references (drop_escapes v))"

definition ini_set :: "string \<Rightarrow> string \<Rightarrow> string \<Rightarrow> ini \<Rightarrow> exn + ini" where
  "ini_set name key v cfg =
     (if \<not> settable v then Inl (ValueError ''invalid interpolation syntax'')
      else Inr (cfg\<lparr>in_sections := dput name (dput key v (sc_options (ini_section cfg name))) (in_sections cfg)\<rparr>))"

section \<open>Getters\<close>

text \<open>\<open>sec.get(key)\<close>, \<open>None\<close> for a missing option.\<close>

definition sec_get :: "ini_section \<Rightarrow> string \<Rightarrow> exn + string option" where
  "sec_get sec key = (case sec_lookup sec key of
      None \<Rightarrow> Inr None
    | Some raw \<Rightarrow> map_sum id Some (interpolate (sec_lookup sec) 9 raw))"

definition sec_conv :: "(string \<Rightarrow> exn + 'a) \<Rightarrow> ini_section \<Rightarrow> string \<Rightarrow> exn + 'a option" where
  "sec_conv conv sec key = bindE (sec_get sec key) (\<lambda>v. case v of None \<Rightarrow> Inr None | Some s \<Rightarrow> map_sum id Some (conv s))"

definition conv_int :: "string \<Rightarrow> exn + int" where
  "conv_int s = (case py_int s of None \<Rightarrow> Inl (ValueError ''invalid literal for int() with base 10'') | Some i \<Rightarrow> Inr i)"

definition conv_bool :: "string \<Rightarrow> exn + bool" where
  "conv_bool s = (if List.member [''1'', ''yes'', ''true'', ''on''] (lower s) then Inr True
     else if List.member [''0'', ''no'', ''false'', ''off''] (lower s) then Inr False
     else Inl (ValueError (''Not a boolean: '' @ s)))"

definition sec_getint :: "ini_section \<Rightarrow> string \<Rightarrow> exn + int option" where
  "sec_getint = sec_conv conv_int"

definition sec_getboolean :: "ini_section \<Rightarrow> string \<Rightarrow> exn + bool option" where
  "sec_getboolean = sec_conv conv_bool"

text \<open>\<open>float()\<close> reads the text by the parameter \<open>rf\<close>.\<close>

definition sec_getfloat :: "(string \<Rightarrow> rat option) \<Rightarrow> ini_section \<Rightarrow> string \<Rightarrow> exn + rat option" where
  "sec_getfloat rf = sec_conv (\<lambda>s. case rf s of None \<Rightarrow> Inl (ValueError ''could not convert string to float'') | Some q \<Rightarrow> Inr q)"

definition or_default :: "'a \<Rightarrow> 'a option \<Rightarrow> 'a" where
  "or_default d v = (case v of None \<Rightarrow> d | Some x \<Rightarrow> x)"

lemma sec_get_plain: "sec_lookup sec key = Some v \<Longrightarrow> CHR ''%'' \<notin> set v \<Longrightarrow> sec_get sec key = Inr (Some v)"
  by (simp add: sec_get_def interpolate_plain)

lemma sec_get_missing: "sec_lookup sec key = None \<Longrightarrow> sec_get sec key = Inr None"
  by (simp add: sec_get_def)

end
