(* ===== verification/Config_Parser.thy ===== *)
theory Config_Parser
  imports Ini Cloud_Config
begin

text \<open>
  \<open>entrypoints/config_parser.py\<close>, \<open>entrypoints/_config_utils.py\<close>, \<open>entrypoints/config.py\<close> and
  \<open>infra/persistence/db_config.py\<close>: from a parsed INI file to the settings of the program.  The file system
  (\<open>resolve\<close>, the text of a start-up script) and the arbitrary order of a Python set are parameters.
\<close>

section \<open>Engines\<close>

definition task_template_env :: "string \<Rightarrow> string option" where
  "task_template_env name = (if List.member [''task_path'', ''engine_path'', ''ncpus''] name then Some '''' else None)"

definition check_spawn :: "engine \<Rightarrow> string \<Rightarrow> exn + unit" where
  "check_spawn e value = (case py_format task_template_env value of
      Inl (KeyErr p) \<Rightarrow> Inl (ValueError (''Engine '' @ e_name e @ '' has unknown template placeholder `'' @ p @ ''` in *spawn* command''))
    | Inl x \<Rightarrow> Inl x
    | Inr _ \<Rightarrow> Inr ())"

definition falsy_str :: "string option \<Rightarrow> bool" where
  "falsy_str v \<longleftrightarrow> v = None \<or> v = Some []"

definition check_check :: "engine \<Rightarrow> exn + unit" where
  "check_check e = (if falsy_str (e_check_cmd e) \<and> falsy_str (e_check_pname e)
     then Inl (ValueError (''Engine '' @ e_name e @ '' has no *check_cmd* or *check_pname* set'')) else Inr ())"

definition check_at_least_one_elem :: "engine \<Rightarrow> string \<Rightarrow> string list \<Rightarrow> exn + unit" where
  "check_at_least_one_elem e field value = (if value = []
     then Inl (ValueError (''Engine '' @ e_name e @ '' has no *'' @ field @ ''* config set'')) else Inr ())"

definition engine_valid_fields :: "string list" where
  "engine_valid_fields = [''spawn'', ''input_files'', ''output_files'', ''platforms'', ''check_cmd'', ''check_pname'',
     ''platform_packages'', ''check_cmd_code'', ''sleep_interval'',
     ''deploy_local_files'', ''deploy_local_archive'', ''deploy_remote_archive'']"

text \<open>The match of \<open>^(debian|windows)-\d+$\<close>: the family.\<close>

definition versioned_platform :: "string \<Rightarrow> string option" where
  "versioned_platform tag = (case partition_on CHR ''-'' tag of (family, found, v) \<Rightarrow>
     if found \<and> List.member [''debian'', ''windows''] family \<and> py_isdigit v then Some family else None)"

fun dedup :: "string list \<Rightarrow> string list \<Rightarrow> string list" where
  "dedup seen [] = []"
| "dedup seen (t # ts) = (if List.member seen t then dedup seen ts else t # dedup (t # seen) ts)"

definition normalize_platforms :: "string list \<Rightarrow> string list" where
  "normalize_platforms raw = dedup [] (map (\<lambda>tag. case versioned_platform tag of Some f \<Rightarrow> f | None \<Rightarrow> tag) raw)"

definition sec_words :: "ini_section \<Rightarrow> string \<Rightarrow> exn + string list" where
  "sec_words sec key = bindE (sec_get sec key) (\<lambda>v. Inr (map strip (py_words (or_default [] v))))"

definition truthy_str :: "string option \<Rightarrow> string list" where
  "truthy_str v = (case v of None \<Rightarrow> [] | Some s \<Rightarrow> if s = [] then [] else [s])"

definition engine_deployable :: "ini_section \<Rightarrow> ppath \<Rightarrow> exn + deploy list" where
  "engine_deployable sec dir =
     bindE (sec_words sec ''deploy_local_files'') (\<lambda>files.
     bindE (sec_get sec ''deploy_local_archive'') (\<lambda>archive.
     bindE (sec_get sec ''deploy_remote_archive'') (\<lambda>url. Inr (
       (if files = [] then [] else [LocalFilesDeploy (map (\<lambda>x. path_str (path_div dir (strip x))) files)])
       @ map (\<lambda>a. LocalArchiveDeploy (path_str (path_div dir a))) (truthy_str archive)
       @ map RemoteArchiveDeploy (truthy_str url)))))"

definition check_engine :: "engine \<Rightarrow> exn + unit" where
  "check_engine e =
     bindE (check_spawn e (e_spawn e)) (\<lambda>_.
     bindE (check_check e) (\<lambda>_.
     bindE (check_at_least_one_elem e ''input_files'' (e_input_files e)) (\<lambda>_.
       check_at_least_one_elem e ''output_files'' (e_output_files e))))"

definition engine_fields :: "ini_section \<Rightarrow> string \<Rightarrow> string \<Rightarrow> deploy list \<Rightarrow> exn + engine" where
  "engine_fields sec name spawn deployable =
     bindE (sec_words sec ''input_files'') (\<lambda>input_files.
     bindE (sec_words sec ''output_files'') (\<lambda>output_files.
     bindE (sec_get sec ''check_cmd'') (\<lambda>check_cmd.
     bindE (sec_getint sec ''check_cmd_code'') (\<lambda>code.
     bindE (sec_get sec ''check_pname'') (\<lambda>check_pname.
     bindE (sec_getint sec ''sleep_interval'') (\<lambda>sleep.
     bindE (sec_words sec ''platforms'') (\<lambda>platforms.
     bindE (sec_words sec ''platform_packages'') (\<lambda>packages. Inr
       \<lparr>e_name = name, e_spawn = spawn, e_input_files = input_files, e_output_files = output_files,
        e_platforms = normalize_platforms platforms, e_check_cmd = check_cmd, e_check_pname = check_pname,
        e_deployable = deployable, e_platform_packages = packages, e_check_cmd_code = or_default 0 code,
        e_sleep_interval = or_default 10 sleep\<rparr>))))))))"

definition parse_engine_section :: "ini_section \<Rightarrow> ppath \<Rightarrow> exn + engine" where
  "parse_engine_section sec engines_dir = (let name = drop 7 (sc_name sec) in
     bindE (engine_deployable sec (path_div engines_dir name)) (\<lambda>deployable.
     bindE (sec_get sec ''spawn'') (\<lambda>spawn. case spawn of
        None \<Rightarrow> Inl (ValueError (''Engine '' @ name @ '' has no spawn command''))
      | Some cmd \<Rightarrow> bindE (engine_fields sec name cmd deployable) (\<lambda>e. bindE (check_engine e) (\<lambda>_. Inr e)))))"

section \<open>Unknown fields\<close>

text \<open>\<open>warn_unknown_fields\<close>: the unknown keys in the order of the section (Python's is a set's).\<close>

definition warn_unknown_fields :: "string list \<Rightarrow> string \<Rightarrow> (ini, exn, unit) M" where
  "warn_unknown_fields known name = (\<lambda>cfg.
     let unknown = filter (\<lambda>k. \<not> List.member known k) (sec_keys (ini_section cfg name)) in
     (Inr (), if unknown = [] then cfg else cfg\<lparr>in_warnings := in_warnings cfg @ [(name, unknown)]\<rparr>))"

definition section_of :: "string \<Rightarrow> (ini, exn, ini_section) M" where
  "section_of name = getsM (\<lambda>cfg. ini_section cfg name)"

definition parse_engines :: "ppath \<Rightarrow> (ini, exn, engine_repository) M" where
  "parse_engines engines_dir = bindM (getsM (\<lambda>cfg. filter (starts_with ''engine.'') (dkeys (in_sections cfg)))) (\<lambda>snames.
     bindM (mapM (\<lambda>sname. thenM (warn_unknown_fields engine_valid_fields sname)
               (bindM (section_of sname) (\<lambda>sec. fromSum (parse_engine_section sec engines_dir)))) snames)
       (\<lambda>es. returnM (foldl (\<lambda>d e. dput (e_name e) e d) [] es)))"

section \<open>Fields of data classes\<close>

datatype field_value =
    VNone | VStr string | VInt int | VFloat rat | VBool bool | VImage azure_image | VPath ppath

record cfg_field =
  f_name :: string
  f_type :: string
  f_default :: "field_value option"

definition fld :: "string \<Rightarrow> string \<Rightarrow> field_value option \<Rightarrow> cfg_field" where
  "fld n t d = \<lparr>f_name = n, f_type = t, f_default = d\<rparr>"

type_synonym coercion = "ini_section \<Rightarrow> string \<Rightarrow> field_value option \<Rightarrow> exn + field_value"

definition require_str :: "string \<Rightarrow> ini_section \<Rightarrow> exn + string" where
  "require_str key sec = bindE (sec_get sec key) (\<lambda>v. case v of
      None \<Rightarrow> Inl (ValueError (key @ '' is required''))
    | Some s \<Rightarrow> if s = [] then Inl (ValueError (key @ '' is required'')) else Inr s)"

definition field_key :: "string \<Rightarrow> (string \<times> string) list \<Rightarrow> cfg_field \<Rightarrow> string" where
  "field_key prefix aliases f = (let suffix = or_default (f_name f) (dget aliases (f_name f)) in
     if prefix = [] then suffix else prefix @ ''_'' @ suffix)"

definition keep_default :: "field_value \<Rightarrow> ('a \<Rightarrow> field_value) \<Rightarrow> exn + 'a option \<Rightarrow> exn + field_value" where
  "keep_default d mk r = bindE r (\<lambda>v. Inr (case v of None \<Rightarrow> d | Some x \<Rightarrow> mk x))"

definition read_field ::
  "(string \<Rightarrow> rat option) \<Rightarrow> ini_section \<Rightarrow> string \<Rightarrow> (string \<times> string) list \<Rightarrow> (string \<times> coercion) list \<Rightarrow> cfg_field \<Rightarrow> exn + string \<times> field_value" where
  "read_field rf sec prefix aliases coerce f = (let key = field_key prefix aliases f in
     bindE (case dget coerce (f_name f) of
        Some c \<Rightarrow> c sec key (f_default f)
      | None \<Rightarrow> (case f_default f of
          None \<Rightarrow> bindE (require_str key sec) (\<lambda>s. Inr (VStr s))
        | Some d \<Rightarrow>
            if f_type f = ''int'' then keep_default d VInt (sec_getint sec key)
            else if f_type f = ''float'' then keep_default d VFloat (sec_getfloat rf sec key)
            else if f_type f = ''bool'' then keep_default d VBool (sec_getboolean sec key)
            else keep_default d VStr (sec_get sec key)))
       (\<lambda>v. Inr (f_name f, v)))"

definition read_fields ::
  "(string \<Rightarrow> rat option) \<Rightarrow> ini_section \<Rightarrow> cfg_field list \<Rightarrow> string \<Rightarrow> (string \<times> string) list \<Rightarrow> (string \<times> coercion) list \<Rightarrow> exn + (string \<times> field_value) list" where
  "read_fields rf sec fs prefix aliases coerce = mapE (read_field rf sec prefix aliases coerce) fs"

text \<open>The keyword arguments of a constructor.\<close>

definition kw_str :: "(string \<times> field_value) list \<Rightarrow> string \<Rightarrow> string" where
  "kw_str kw n = (case dget kw n of Some (VStr s) \<Rightarrow> s | _ \<Rightarrow> [])"

definition kw_opt :: "(string \<times> field_value) list \<Rightarrow> string \<Rightarrow> string option" where
  "kw_opt kw n = (case dget kw n of Some (VStr s) \<Rightarrow> Some s | _ \<Rightarrow> None)"

definition kw_int :: "(string \<times> field_value) list \<Rightarrow> string \<Rightarrow> int" where
  "kw_int kw n = (case dget kw n of Some (VInt i) \<Rightarrow> i | _ \<Rightarrow> 0)"

definition kw_bool :: "(string \<times> field_value) list \<Rightarrow> string \<Rightarrow> bool" where
  "kw_bool kw n = (case dget kw n of Some (VBool b) \<Rightarrow> b | _ \<Rightarrow> False)"

definition kw_float :: "(string \<times> field_value) list \<Rightarrow> string \<Rightarrow> rat" where
  "kw_float kw n = (case dget kw n of Some (VFloat q) \<Rightarrow> q | _ \<Rightarrow> 0)"

definition kw_image :: "(string \<times> field_value) list \<Rightarrow> string \<Rightarrow> azure_image" where
  "kw_image kw n = (case dget kw n of Some (VImage a) \<Rightarrow> a | _ \<Rightarrow> \<lparr>ai_publisher = [], ai_offer = [], ai_sku = [], ai_version = []\<rparr>)"

definition kw_path :: "(string \<times> field_value) list \<Rightarrow> string \<Rightarrow> ppath" where
  "kw_path kw n = (case dget kw n of Some (VPath p) \<Rightarrow> p | _ \<Rightarrow> mk_path [])"

section \<open>Clouds\<close>

definition common_fields :: "int \<Rightarrow> int \<Rightarrow> cfg_field list" where
  "common_fields idle grace =
     [fld ''idle_tolerance'' ''int'' (Some (VInt idle)), fld ''connect_grace'' ''int'' (Some (VInt grace)),
      fld ''package_upgrade'' ''bool'' (Some (VBool True))]"

definition jump_fields :: "cfg_field list" where
  "jump_fields =
     [fld ''jump_username'' ''str | None'' (Some VNone), fld ''jump_host'' ''str | None'' (Some VNone),
      fld ''jump_port'' ''int'' (Some (VInt 22)), fld ''label'' ''str'' (Some (VStr ''yascheduler''))]"

definition sized_fields :: "cfg_field list" where
  "sized_fields = [fld ''max_nodes'' ''int'' (Some (VInt 10))]"

definition user_fields :: "string \<Rightarrow> cfg_field list" where
  "user_fields u = [fld ''username'' ''str'' (Some (VStr u))]"

definition priority_fields :: "cfg_field list" where
  "priority_fields = [fld ''priority'' ''int'' (Some (VInt 0))]"

definition default_image :: azure_image where
  "default_image = \<lparr>ai_publisher = ''Debian'', ai_offer = ''debian-11-daily'', ai_sku = ''11-backports-gen2'', ai_version = ''latest''\<rparr>"

definition azure_fields :: "cfg_field list" where
  "azure_fields =
     [fld ''tenant_id'' ''str'' None, fld ''client_id'' ''str'' None, fld ''client_secret'' ''str'' None,
      fld ''subscription_id'' ''str'' None, fld ''resource_group'' ''str'' (Some (VStr ''yascheduler-rg'')),
      fld ''location'' ''str'' (Some (VStr ''westeurope'')), fld ''vnet'' ''str'' (Some (VStr ''yascheduler-vnet'')),
      fld ''subnet'' ''str'' (Some (VStr ''yascheduler-subnet'')), fld ''nsg'' ''str'' (Some (VStr ''yascheduler-nsg'')),
      fld ''vm_image'' ''AzureImageReference'' (Some (VImage default_image)),
      fld ''vm_size'' ''str'' (Some (VStr ''Standard_B1s''))]
     @ sized_fields @ user_fields ''yascheduler'' @ priority_fields @ common_fields 300 120 @ jump_fields"

definition hetzner_fields :: "cfg_field list" where
  "hetzner_fields =
     [fld ''token'' ''str'' None] @ sized_fields @ user_fields ''root'' @ priority_fields
     @ [fld ''server_type'' ''str'' (Some (VStr ''cx52'')), fld ''location'' ''str'' (Some (VStr ''fsn1'')),
        fld ''image_name'' ''str'' (Some (VStr ''debian-13''))]
     @ common_fields 120 60 @ jump_fields"

definition upcloud_fields :: "cfg_field list" where
  "upcloud_fields =
     [fld ''login'' ''str'' None, fld ''password'' ''str'' None] @ sized_fields @ user_fields ''root'' @ priority_fields
     @ common_fields 120 60 @ jump_fields"

definition vastai_fields :: "cfg_field list" where
  "vastai_fields =
     [fld ''api_key'' ''str'' None, fld ''image'' ''str'' (Some (VStr ''pytorch/pytorch:2.2.2-cuda12.1-cudnn8-devel'')),
      fld ''disk_gb'' ''int'' (Some (VInt 80)), fld ''min_vram_mb'' ''int'' (Some (VInt 81920)),
      fld ''num_gpus'' ''int'' (Some (VInt 1)), fld ''max_price_per_hr'' ''float'' (Some (VFloat (3 / 2)))]
     @ sized_fields @ priority_fields @ common_fields 300 300
     @ [fld ''onstart_script'' ''str | None'' (Some VNone), fld ''docker_options'' ''str | None'' (Some VNone)] @ jump_fields"

definition vultr_fields :: "cfg_field list" where
  "vultr_fields =
     [fld ''api_key'' ''str'' None, fld ''location'' ''str'' (Some (VStr ''ams'')),
      fld ''server_type'' ''str'' (Some (VStr ''vbm-24c-256gb-amd'')), fld ''image_name'' ''int'' (Some (VInt 2136)),
      fld ''need_raid'' ''bool'' (Some (VBool True))]
     @ sized_fields @ user_fields ''root'' @ priority_fields @ common_fields 1800 300 @ jump_fields"

text \<open>\<open>dto_cls(**kwargs)\<close>, before the checks of \<open>__post_init__\<close>.\<close>

definition azure_of :: "(string \<times> field_value) list \<Rightarrow> config_cloud" where
  "azure_of kw = CfgAzure
     \<lparr>cb_max_nodes = kw_int kw ''max_nodes'', cb_priority = kw_int kw ''priority'', cb_idle_tolerance = kw_int kw ''idle_tolerance'',
      cb_connect_grace = kw_int kw ''connect_grace'', cb_package_upgrade = kw_bool kw ''package_upgrade'',
      cb_jump_username = kw_opt kw ''jump_username'', cb_jump_host = kw_opt kw ''jump_host'', cb_jump_port = kw_int kw ''jump_port'',
      cb_label = kw_str kw ''label'', az_tenant_id = kw_str kw ''tenant_id'', az_client_id = kw_str kw ''client_id'',
      az_client_secret = kw_str kw ''client_secret'', az_subscription_id = kw_str kw ''subscription_id'',
      az_resource_group = kw_str kw ''resource_group'', az_location = kw_str kw ''location'', az_vnet = kw_str kw ''vnet'',
      az_subnet = kw_str kw ''subnet'', az_nsg = kw_str kw ''nsg'', az_vm_image = kw_image kw ''vm_image'',
      az_vm_size = kw_str kw ''vm_size'', az_username = kw_str kw ''username''\<rparr>"

definition hetzner_of :: "(string \<times> field_value) list \<Rightarrow> config_cloud" where
  "hetzner_of kw = CfgHetzner
     \<lparr>cb_max_nodes = kw_int kw ''max_nodes'', cb_priority = kw_int kw ''priority'', cb_idle_tolerance = kw_int kw ''idle_tolerance'',
      cb_connect_grace = kw_int kw ''connect_grace'', cb_package_upgrade = kw_bool kw ''package_upgrade'',
      cb_jump_username = kw_opt kw ''jump_username'', cb_jump_host = kw_opt kw ''jump_host'', cb_jump_port = kw_int kw ''jump_port'',
      cb_label = kw_str kw ''label'', hz_token = kw_str kw ''token'', hz_username = kw_str kw ''username'',
      hz_server_type = kw_str kw ''server_type'', hz_location = kw_str kw ''location'', hz_image_name = kw_str kw ''image_name''\<rparr>"

definition upcloud_of :: "(string \<times> field_value) list \<Rightarrow> config_cloud" where
  "upcloud_of kw = CfgUpcloud
     \<lparr>cb_max_nodes = kw_int kw ''max_nodes'', cb_priority = kw_int kw ''priority'', cb_idle_tolerance = kw_int kw ''idle_tolerance'',
      cb_connect_grace = kw_int kw ''connect_grace'', cb_package_upgrade = kw_bool kw ''package_upgrade'',
      cb_jump_username = kw_opt kw ''jump_username'', cb_jump_host = kw_opt kw ''jump_host'', cb_jump_port = kw_int kw ''jump_port'',
      cb_label = kw_str kw ''label'', up_login = kw_str kw ''login'', up_password = kw_str kw ''password'', up_username = kw_str kw ''username''\<rparr>"

definition vastai_of :: "(string \<times> field_value) list \<Rightarrow> config_cloud" where
  "vastai_of kw = CfgVastAI
     \<lparr>cb_max_nodes = kw_int kw ''max_nodes'', cb_priority = kw_int kw ''priority'', cb_idle_tolerance = kw_int kw ''idle_tolerance'',
      cb_connect_grace = kw_int kw ''connect_grace'', cb_package_upgrade = kw_bool kw ''package_upgrade'',
      cb_jump_username = kw_opt kw ''jump_username'', cb_jump_host = kw_opt kw ''jump_host'', cb_jump_port = kw_int kw ''jump_port'',
      cb_label = kw_str kw ''label'', va_api_key = kw_str kw ''api_key'', va_image = kw_str kw ''image'', va_disk_gb = kw_int kw ''disk_gb'',
      va_min_vram_mb = kw_int kw ''min_vram_mb'', va_num_gpus = kw_int kw ''num_gpus'', va_max_price_per_hr = kw_float kw ''max_price_per_hr'',
      va_onstart_script = kw_opt kw ''onstart_script'', va_docker_options = kw_opt kw ''docker_options''\<rparr>"

definition vultr_of :: "(string \<times> field_value) list \<Rightarrow> config_cloud" where
  "vultr_of kw = CfgVultr
     \<lparr>cb_max_nodes = kw_int kw ''max_nodes'', cb_priority = kw_int kw ''priority'', cb_idle_tolerance = kw_int kw ''idle_tolerance'',
      cb_connect_grace = kw_int kw ''connect_grace'', cb_package_upgrade = kw_bool kw ''package_upgrade'',
      cb_jump_username = kw_opt kw ''jump_username'', cb_jump_host = kw_opt kw ''jump_host'', cb_jump_port = kw_int kw ''jump_port'',
      cb_label = kw_str kw ''label'', vu_api_key = kw_str kw ''api_key'', vu_location = kw_str kw ''location'',
      vu_server_type = kw_str kw ''server_type'', vu_image_name = kw_int kw ''image_name'', vu_need_raid = kw_bool kw ''need_raid'',
      vu_username = kw_str kw ''username''\<rparr>"

text \<open>The file system: \<open>Path(s).resolve()\<close>, and the text of a file that exists.\<close>

record file_system =
  fy_resolve :: "string \<Rightarrow> ppath"
  fy_text :: "string \<Rightarrow> (exn + string) option"

definition cloud_aliases :: "(string \<times> string) list" where
  "cloud_aliases = [(''username'', ''user''), (''jump_username'', ''jump_user''), (''vm_size'', ''size''), (''vm_image'', ''image'')]"

definition value_of_default :: "field_value option \<Rightarrow> field_value" where
  "value_of_default d = or_default VNone d"

definition coerce_azure_image :: coercion where
  "coerce_azure_image sec key d = bindE (sec_get sec key) (\<lambda>urn. case truthy_str urn of
      [] \<Rightarrow> Inr (value_of_default d)
    | u # _ \<Rightarrow> map_sum id VImage (from_urn u))"

definition coerce_onstart_script :: "file_system \<Rightarrow> coercion" where
  "coerce_onstart_script fy sec key d = bindE (sec_get sec key) (\<lambda>path. case truthy_str path of
      [] \<Rightarrow> Inr VNone
    | p # _ \<Rightarrow> (case fy_text fy p of
          None \<Rightarrow> Inl (ValueError (key @ '' must be a readable file path or empty, got '' @ p))
        | Some txt' \<Rightarrow> map_sum id VStr txt'))"

definition ban_root_user :: "ini_section \<Rightarrow> string \<Rightarrow> exn + unit" where
  "ban_root_user sec prefix = bindE (sec_get sec (prefix @ ''_user'')) (\<lambda>u.
     if u = Some ''root'' then Inl (ValueError ''Root user is forbidden on Azure'') else Inr ())"

record cloud_spec =
  sp_fields :: "cfg_field list"
  sp_make :: "(string \<times> field_value) list \<Rightarrow> config_cloud"
  sp_excludes :: "string list"
  sp_includes :: "string list"
  sp_coerce :: "(string \<times> coercion) list"
  sp_pre_check :: "(ini_section \<Rightarrow> string \<Rightarrow> exn + unit) option"

definition base_excl :: "string list" where
  "base_excl = [''prefix'', ''username'', ''jump_username'']"

definition base_incl :: "string list" where
  "base_incl = [''user'', ''jump_user'']"

definition cloud_specs :: "file_system \<Rightarrow> (string \<times> cloud_spec) list" where
  "cloud_specs fy =
     [(''az'', \<lparr>sp_fields = azure_fields, sp_make = azure_of, sp_excludes = base_excl @ [''vm_image'', ''vm_size''],
        sp_includes = [''user'', ''jump_user'', ''image'', ''size''], sp_coerce = [(''vm_image'', coerce_azure_image)],
        sp_pre_check = Some ban_root_user\<rparr>),
      (''hetzner'', \<lparr>sp_fields = hetzner_fields, sp_make = hetzner_of, sp_excludes = base_excl, sp_includes = base_incl, sp_coerce = [], sp_pre_check = None\<rparr>),
      (''upcloud'', \<lparr>sp_fields = upcloud_fields, sp_make = upcloud_of, sp_excludes = base_excl, sp_includes = base_incl, sp_coerce = [], sp_pre_check = None\<rparr>),
      (''vastai'', \<lparr>sp_fields = vastai_fields, sp_make = vastai_of, sp_excludes = base_excl @ [''env''], sp_includes = base_incl,
        sp_coerce = [(''onstart_script'', coerce_onstart_script fy)], sp_pre_check = None\<rparr>),
      (''vultr'', \<lparr>sp_fields = vultr_fields, sp_make = vultr_of, sp_excludes = base_excl, sp_includes = base_incl, sp_coerce = [], sp_pre_check = None\<rparr>)]"

definition cloud_valid_fields :: "string \<times> cloud_spec \<Rightarrow> string list" where
  "cloud_valid_fields = (\<lambda>(prefix, sp). map (\<lambda>n. prefix @ ''_'' @ n)
     (filter (\<lambda>n. \<not> List.member (sp_excludes sp) n) (map f_name (sp_fields sp)) @ sp_includes sp))"

definition all_cloud_valid_fields :: "file_system \<Rightarrow> string list" where
  "all_cloud_valid_fields fy = concat (map cloud_valid_fields (cloud_specs fy))"

definition cloud_of_section ::
  "file_system \<Rightarrow> (string \<Rightarrow> rat option) \<Rightarrow> (rat \<Rightarrow> string) \<Rightarrow> ini_section \<Rightarrow> string \<Rightarrow> cloud_spec \<Rightarrow> exn + config_cloud" where
  "cloud_of_section fy rf shown sec prefix sp =
     bindE (read_fields rf sec (sp_fields sp) prefix cloud_aliases (sp_coerce sp)) (\<lambda>kw. mk_config shown (sp_make sp kw))"

definition parse_cloud_section ::
  "file_system \<Rightarrow> (string \<Rightarrow> rat option) \<Rightarrow> (rat \<Rightarrow> string) \<Rightarrow> string \<times> cloud_spec \<Rightarrow> (ini, exn, config_cloud) M" where
  "parse_cloud_section fy rf shown = (\<lambda>(prefix, sp).
     thenM (warn_unknown_fields (all_cloud_valid_fields fy) ''clouds'')
       (bindM (section_of ''clouds'') (\<lambda>sec. fromSum (cloud_of_section fy rf shown sec prefix sp))))"

text \<open>The prefixes of the option names; \<open>ord\<close> is the order in which Python's set yields them.\<close>

definition cloud_prefixes :: "(string list \<Rightarrow> string list) \<Rightarrow> ini \<Rightarrow> string list" where
  "cloud_prefixes ord cfg = ord (remdups (map (\<lambda>k. fst (partition_on CHR ''_'' k)) (sec_keys (ini_section cfg ''clouds''))))"

definition known_specs :: "file_system \<Rightarrow> string list \<Rightarrow> (string \<times> cloud_spec) list" where
  "known_specs fy prefixes = concat (map (\<lambda>p. case dget (cloud_specs fy) p of None \<Rightarrow> [] | Some sp \<Rightarrow> [(p, sp)]) prefixes)"

definition pre_checks :: "(string \<times> cloud_spec) list \<Rightarrow> (ini, exn, unit) M" where
  "pre_checks known = forM known (\<lambda>(prefix, sp). case sp_pre_check sp of
      None \<Rightarrow> skipM
    | Some check \<Rightarrow> bindM (section_of ''clouds'') (\<lambda>sec. fromSum (check sec prefix)))"

definition inherit_user :: "string \<Rightarrow> string \<Rightarrow> (ini, exn, unit) M" where
  "inherit_user user prefix cfg = (let user_key = prefix @ ''_user'' in
     if List.member (sec_keys (ini_section cfg ''clouds'')) user_key then (Inr (), cfg)
     else (case ini_set ''clouds'' user_key user cfg of Inl x \<Rightarrow> (Inl x, cfg) | Inr cfg' \<Rightarrow> (Inr (), cfg')))"

definition parse_clouds ::
  "file_system \<Rightarrow> (string \<Rightarrow> rat option) \<Rightarrow> (rat \<Rightarrow> string) \<Rightarrow> (string list \<Rightarrow> string list) \<Rightarrow> remote_defaults \<Rightarrow> (ini, exn, config_cloud list) M" where
  "parse_clouds fy rf shown ord remote =
     thenM (modifyM (ensure_section ''clouds''))
    (bindM (getsM (cloud_prefixes ord)) (\<lambda>prefixes. let known = known_specs fy prefixes in
       thenM (pre_checks known)
      (thenM (forM prefixes (inherit_user (rd_username remote)))
             (mapM (parse_cloud_section fy rf shown) known))))"

section \<open>Database, daemon and remote machines\<close>

record db_config =
  dc_user :: string
  dc_password :: string
  dc_database :: string
  dc_host :: string
  dc_port :: int

definition mk_db_config :: "db_config \<Rightarrow> exn + db_config" where
  "mk_db_config c = (if \<not> dc_port c \<ge> 1 then Inl (ValueError (''port must be >= 1, got '' @ show_int (dc_port c))) else Inr c)"

definition db_fields :: "cfg_field list" where
  "db_fields = [fld ''user'' ''str'' (Some (VStr ''yascheduler'')), fld ''password'' ''str'' (Some (VStr ''password'')),
     fld ''database'' ''str'' (Some (VStr ''database'')), fld ''host'' ''str'' (Some (VStr ''localhost'')),
     fld ''port'' ''int'' (Some (VInt 5432))]"

definition db_of :: "(string \<times> field_value) list \<Rightarrow> db_config" where
  "db_of kw = \<lparr>dc_user = kw_str kw ''user'', dc_password = kw_str kw ''password'', dc_database = kw_str kw ''database'',
     dc_host = kw_str kw ''host'', dc_port = kw_int kw ''port''\<rparr>"

definition db_of_section :: "ini_section \<Rightarrow> exn + db_config" where
  "db_of_section sec = bindE (read_fields (\<lambda>_. None) sec db_fields [] [] []) (\<lambda>kw. mk_db_config (db_of kw))"

definition parse_db_section :: "(ini, exn, db_config) M" where
  "parse_db_section = thenM (warn_unknown_fields (map f_name db_fields) ''db'')
     (bindM (section_of ''db'') (\<lambda>sec. fromSum (db_of_section sec)))"

definition local_limits :: "string list" where
  "local_limits = [''webhook_reqs_limit'', ''conn_machine_limit'', ''conn_machine_pending'', ''allocate_limit'', ''allocate_pending'',
     ''consume_limit'', ''consume_pending'', ''deallocate_limit'', ''deallocate_pending'']"

definition local_valid_fields :: "string list" where
  "local_valid_fields = [''data_dir'', ''tasks_dir'', ''engines_dir'', ''keys_dir'', ''webhook_url''] @ local_limits"

text \<open>Absent limits keep the defaults of the data class.\<close>

definition limit_of :: "(string \<times> int option) list \<Rightarrow> string \<Rightarrow> int \<Rightarrow> int" where
  "limit_of kw n d = (case dget kw n of Some (Some i) \<Rightarrow> i | _ \<Rightarrow> d)"

definition local_of :: "ppath \<Rightarrow> ppath \<Rightarrow> ppath \<Rightarrow> ppath \<Rightarrow> string option \<Rightarrow> (string \<times> int option) list \<Rightarrow> local_settings" where
  "local_of data tasks engines keys webhook kw =
     \<lparr>ls_data_dir = data, ls_tasks_dir = tasks, ls_engines_dir = engines, ls_keys_dir = keys, ls_webhook_url = webhook,
      ls_webhook_reqs_limit = limit_of kw ''webhook_reqs_limit'' (ls_webhook_reqs_limit local_defaults),
      ls_conn_machine_limit = limit_of kw ''conn_machine_limit'' (ls_conn_machine_limit local_defaults),
      ls_conn_machine_pending = limit_of kw ''conn_machine_pending'' (ls_conn_machine_pending local_defaults),
      ls_allocate_limit = limit_of kw ''allocate_limit'' (ls_allocate_limit local_defaults),
      ls_allocate_pending = limit_of kw ''allocate_pending'' (ls_allocate_pending local_defaults),
      ls_consume_limit = limit_of kw ''consume_limit'' (ls_consume_limit local_defaults),
      ls_consume_pending = limit_of kw ''consume_pending'' (ls_consume_pending local_defaults),
      ls_deallocate_limit = limit_of kw ''deallocate_limit'' (ls_deallocate_limit local_defaults),
      ls_deallocate_pending = limit_of kw ''deallocate_pending'' (ls_deallocate_pending local_defaults)\<rparr>"

definition resolved :: "file_system \<Rightarrow> ini_section \<Rightarrow> string \<Rightarrow> ppath \<Rightarrow> exn + ppath" where
  "resolved fy sec key d = bindE (sec_get sec key) (\<lambda>v. Inr (fy_resolve fy (or_default (path_str d) v)))"

definition local_of_section :: "file_system \<Rightarrow> ini_section \<Rightarrow> exn + local_settings" where
  "local_of_section fy sec =
     bindE (resolved fy sec ''data_dir'' (ls_data_dir local_defaults)) (\<lambda>data.
     bindE (resolved fy sec ''tasks_dir'' (path_div data ''tasks'')) (\<lambda>tasks.
     bindE (resolved fy sec ''engines_dir'' (path_div data ''engines'')) (\<lambda>engines.
     bindE (resolved fy sec ''keys_dir'' (path_div data ''keys'')) (\<lambda>keys.
     bindE (sec_get sec ''webhook_url'') (\<lambda>webhook.
     bindE (mapE (\<lambda>k. map_sum id (Pair k) (sec_getint sec k)) local_limits) (\<lambda>kw.
       mk_local_settings (local_of data tasks engines keys webhook kw)))))))"

definition parse_local_section :: "file_system \<Rightarrow> (ini, exn, local_settings) M" where
  "parse_local_section fy = thenM (warn_unknown_fields local_valid_fields ''local'')
     (bindM (section_of ''local'') (\<lambda>sec. fromSum (local_of_section fy sec)))"

definition remote_fields :: "cfg_field list" where
  "remote_fields =
     [fld ''data_dir'' ''PurePath'' (Some (VPath (mk_path ''./data''))), fld ''tasks_dir'' ''PurePath'' (Some (VPath (mk_path ''./data/tasks''))),
      fld ''engines_dir'' ''PurePath'' (Some (VPath (mk_path ''./data/engines''))), fld ''username'' ''str'' (Some (VStr ''root'')),
      fld ''jump_username'' ''str | None'' (Some VNone), fld ''jump_host'' ''str | None'' (Some VNone),
      fld ''jump_port'' ''int'' (Some (VInt 22))]"

definition remote_valid_fields :: "string list" where
  "remote_valid_fields = filter (\<lambda>n. \<not> List.member [''username'', ''jump_username''] n) (map f_name remote_fields) @ [''user'', ''jump_user'']"

definition coerce_path :: coercion where
  "coerce_path sec key d = bindE (sec_get sec key) (\<lambda>v. Inr (case v of Some s \<Rightarrow> VPath (mk_path s) | None \<Rightarrow> value_of_default d))"

definition remote_of_section :: "ini_section \<Rightarrow> exn + remote_defaults" where
  "remote_of_section sec =
     bindE (read_fields (\<lambda>_. None) sec remote_fields [] [(''username'', ''user''), (''jump_username'', ''jump_user'')] [(''data_dir'', coerce_path)]) (\<lambda>kw.
     bindE (sec_get sec ''engines_dir'') (\<lambda>engines.
     bindE (sec_get sec ''tasks_dir'') (\<lambda>tasks. let data = kw_path kw ''data_dir'' in
       mk_remote_defaults \<lparr>rd_data_dir = data, rd_tasks_dir = mk_path (or_default (path_str (path_div data ''tasks'')) tasks),
         rd_engines_dir = mk_path (or_default (path_str (path_div data ''engines'')) engines), rd_username = kw_str kw ''username'',
         rd_jump_username = kw_opt kw ''jump_username'', rd_jump_host = kw_opt kw ''jump_host'', rd_jump_port = kw_int kw ''jump_port''\<rparr>)))"

definition parse_remote_section :: "(ini, exn, remote_defaults) M" where
  "parse_remote_section = thenM (warn_unknown_fields remote_valid_fields ''remote'')
     (bindM (section_of ''remote'') (\<lambda>sec. fromSum (remote_of_section sec)))"

section \<open>The configuration\<close>

record config =
  cf_db :: db_config
  cf_local :: local_settings
  cf_remote :: remote_defaults
  cf_clouds :: "config_cloud list"
  cf_engines :: engine_repository

text \<open>\<open>parse_config\<close> after \<open>cfg.read\<close>.\<close>

definition parse_config ::
  "file_system \<Rightarrow> (string \<Rightarrow> rat option) \<Rightarrow> (rat \<Rightarrow> string) \<Rightarrow> (string list \<Rightarrow> string list) \<Rightarrow> (ini, exn, config) M" where
  "parse_config fy rf shown ord =
     thenM (forM [''db'', ''local'', ''remote'', ''clouds''] (\<lambda>n. modifyM (ensure_section n)))
    (bindM (parse_local_section fy) (\<lambda>local.
     bindM parse_remote_section (\<lambda>remote.
     bindM (parse_clouds fy rf shown ord remote) (\<lambda>clouds.
     bindM parse_db_section (\<lambda>db.
     bindM (parse_engines (ls_engines_dir local)) (\<lambda>engines.
       returnM \<lparr>cf_db = db, cf_local = local, cf_remote = remote, cf_clouds = clouds, cf_engines = engines\<rparr>))))))"

end
