(* ===== verification/Config_Facts.thy ===== *)
theory Config_Facts
  imports Config_Parser
begin

text \<open>
  What a successful parse promises: every value object passed its checks, every engine can be spawned and
  watched, platforms are families, each provider named in \<open>[clouds]\<close> has one configuration with its user
  inherited from \<open>[remote]\<close>; and reading back the options that spell out a data class.
\<close>

section \<open>Spawn templates\<close>

text \<open>A template that formats with some values formats with any values of the same names.\<close>

lemma py_format_same_names:
  assumes "py_format env s = Inr r" "\<And>n. env n \<noteq> None \<Longrightarrow> env' n \<noteq> None"
  shows "\<exists>r'. py_format env' s = Inr r'"
  using assms(1)
proof (induction s arbitrary: r rule: measure_induct_rule [of length])
  case (less s)
  note IH = less.IH and ok = less.prems
  show ?case
  proof (cases s)
    case Nil
    then show ?thesis by simp
  next
    case (Cons c t)
    have rec: "\<exists>q'. map_sum id g (py_format env' u) = Inr q'" if "map_sum id f (py_format env u) = Inr q" "length u < length s" for f g u q
      using that IH [of u] by (cases "py_format env u") auto
    show ?thesis
    proof (cases "c = CHR ''{''")
      case brace: True
      show ?thesis
      proof (cases "t \<noteq> [] \<and> hd t = CHR ''{''")
        case True
        then show ?thesis using ok Cons brace rec [of "(#) CHR ''{''" "tl t" _ "(#) CHR ''{''"] by (cases t) (auto simp: py_format.simps [of _ s])
      next
        case False
        obtain name found u where p: "partition_on CHR ''}'' t = (name, found, u)" by (cases "partition_on CHR ''}'' t")
        have u: "length u < length s" using partition_on_length [OF p] Cons by simp
        obtain v where v: "env name = Some v" "found" "map_sum id ((@) v) (py_format env u) = Inr r"
          using ok Cons brace False p by (auto simp: py_format.simps [of _ s] split: if_splits option.splits)
        obtain v' where "env' name = Some v'" using assms(2) [of name] v(1) by auto
        then show ?thesis using Cons brace False p v(2) rec [OF v(3) u] by (auto simp: py_format.simps [of _ s])
      qed
    next
      case False
      show ?thesis
      proof (cases "c = CHR ''}''")
        case brace: True
        then show ?thesis using ok Cons False rec [of "(#) CHR ''}''" "tl t" _ "(#) CHR ''}''"] 
          by (cases t) (auto simp: py_format.simps [of _ s] split: if_splits)
      next
        case plain: False
        then show ?thesis using ok Cons False rec [of "(#) c" t r "(#) c"] by (simp add: py_format.simps [of _ s])
      qed
    qed
  qed
qed

lemma check_spawn_ok:
  assumes "check_spawn e v = Inr ()"
  shows "\<exists>cmd. py_format (spawn_env quote eng_path task_dir ncpus) v = Inr cmd"
proof -
  obtain r where "py_format task_template_env v = Inr r"
    using assms by (auto simp: check_spawn_def split: sum.splits exn.splits)
  then show ?thesis
    by (rule py_format_same_names) (auto simp: task_template_env_def spawn_env_def split: if_splits)
qed

section \<open>Platforms\<close>

lemma dedup_spec: "set (dedup seen ts) = set ts - set seen \<and> distinct (dedup seen ts)"
  by (induction ts arbitrary: seen) auto

lemma family_plain: "versioned_platform tag = Some f \<Longrightarrow> versioned_platform f = None"
  by (auto simp: versioned_platform_def split: prod.splits if_splits)

lemma normalize_platforms_spec:
  "distinct (normalize_platforms raw)"
  "set (normalize_platforms raw) = (\<lambda>tag. case versioned_platform tag of Some f \<Rightarrow> f | None \<Rightarrow> tag) ` set raw"
  "p \<in> set (normalize_platforms raw) \<Longrightarrow> versioned_platform p = None"
  using dedup_spec [of "[]"] family_plain by (auto simp: normalize_platforms_def split: option.splits)

lemma dedup_distinct: "distinct ts \<Longrightarrow> set ts \<inter> set seen = {} \<Longrightarrow> dedup seen ts = ts"
  by (induction ts arbitrary: seen) auto

lemma normalize_platforms_idem: "normalize_platforms (normalize_platforms raw) = normalize_platforms raw"
proof -
  have "map (\<lambda>tag. case versioned_platform tag of Some f \<Rightarrow> f | None \<Rightarrow> tag) (normalize_platforms raw) = normalize_platforms raw"
    using normalize_platforms_spec(3) by (simp add: map_idI)
  then show ?thesis
    using dedup_distinct [of "normalize_platforms raw" "[]"] normalize_platforms_spec(1) [of raw]
    by (simp add: normalize_platforms_def [of "normalize_platforms raw"])
qed

section \<open>Engines\<close>

definition engine_ok :: "engine \<Rightarrow> bool" where
  "engine_ok e \<longleftrightarrow> e_input_files e \<noteq> [] \<and> e_output_files e \<noteq> []
     \<and> (\<not> falsy_str (e_check_cmd e) \<or> \<not> falsy_str (e_check_pname e))
     \<and> distinct (e_platforms e) \<and> (\<forall>p \<in> set (e_platforms e). versioned_platform p = None)
     \<and> (\<forall>quote eng_path task_dir ncpus. \<exists>cmd. py_format (spawn_env quote eng_path task_dir ncpus) (e_spawn e) = Inr cmd)"

lemma check_engine_ok: "check_engine e = Inr () \<Longrightarrow> e_input_files e \<noteq> [] \<and> e_output_files e \<noteq> []
    \<and> (\<not> falsy_str (e_check_cmd e) \<or> \<not> falsy_str (e_check_pname e)) \<and> check_spawn e (e_spawn e) = Inr ()"
  by (auto simp: check_engine_def bindE_Inr_iff check_check_def check_at_least_one_elem_def split: if_splits)

lemma engine_fields_ok:
  assumes "engine_fields sec name cmd ds = Inr e"
  shows "e_name e = name \<and> e_spawn e = cmd \<and> e_deployable e = ds \<and> (\<exists>raw. e_platforms e = normalize_platforms raw)"
  using assms unfolding engine_fields_def bindE_Inr_iff by auto

lemma parse_engine_section_ok:
  assumes "parse_engine_section sec dir = Inr e"
  shows "engine_ok e \<and> e_name e = drop 7 (sc_name sec)"
proof -
  obtain ds cmd where f: "engine_fields sec (drop 7 (sc_name sec)) cmd ds = Inr e" "check_engine e = Inr ()"
    using assms by (auto simp: parse_engine_section_def Let_def bindE_Inr_iff split: option.splits)
  from engine_fields_ok [OF f(1)] check_engine_ok [OF f(2)] check_spawn_ok normalize_platforms_spec(1,3)
  show ?thesis by (auto simp: engine_ok_def)
qed

section \<open>Running a section\<close>

lemma warned_sections [simp]:
  "ini_section (snd (warn_unknown_fields known name cfg)) n = ini_section cfg n"
  "in_sections (snd (warn_unknown_fields known name cfg)) = in_sections cfg"
  "fst (warn_unknown_fields known name cfg) = Inr ()"
  by (simp_all add: warn_unknown_fields_def ini_section_def Let_def)

lemma warn_then: "thenM (warn_unknown_fields known name) m cfg = m (snd (warn_unknown_fields known name cfg))"
  by (simp add: thenM_def bindM_def warn_unknown_fields_def Let_def)

lemma read_section: "bindM (section_of name) (\<lambda>sec. fromSum (f sec)) cfg = (f (ini_section cfg name), cfg)"
  by (simp add: section_of_def bindM_def getsM_def fromSum_def)

lemmas section_runs = warn_then read_section

text \<open>A parser of one section changes nothing but the warnings.\<close>

definition same_options :: "ini \<Rightarrow> ini \<Rightarrow> bool" where
  "same_options cfg cfg' \<longleftrightarrow> in_sections cfg' = in_sections cfg \<and> in_defaults cfg' = in_defaults cfg"

lemma same_options_section: "same_options cfg cfg' \<Longrightarrow> ini_section cfg' n = ini_section cfg n"
  by (simp add: same_options_def ini_section_def)

lemma same_options_refl [simp]: "same_options cfg cfg"
  by (simp add: same_options_def)

lemma same_options_trans: "same_options a b \<Longrightarrow> same_options b c \<Longrightarrow> same_options a c"
  by (simp add: same_options_def)

lemma same_options_warned [simp]: "same_options cfg (snd (warn_unknown_fields known name cfg))"
  by (simp add: same_options_def warn_unknown_fields_def Let_def)

lemma mapM_sections:
  assumes step: "\<And>x cfg. step x cfg = (f x (ini_section cfg (n x)), snd (warn_unknown_fields (k x) (n x) cfg))"
    and "mapM step xs cfg = (Inr ys, cfg')"
  shows "list_all2 (\<lambda>x y. f x (ini_section cfg (n x)) = Inr y) xs ys \<and> same_options cfg cfg'"
  using assms(2)
proof (induction xs arbitrary: cfg ys)
  case Nil
  then show ?case by (simp add: returnM_def)
next
  case (Cons x xs)
  let ?cfg = "snd (warn_unknown_fields (k x) (n x) cfg)"
  obtain y zs where y: "f x (ini_section cfg (n x)) = Inr y" "mapM step xs ?cfg = (Inr zs, cfg')" "ys = y # zs"
    using Cons.prems by (auto simp: bindM_def step [of x cfg] returnM_def split: sum.splits prod.splits)
  from Cons.IH [OF y(2)] y(1,3) same_options_section [OF same_options_warned [of cfg "k x" "n x"]]
    same_options_trans [OF same_options_warned [of cfg "k x" "n x"]]
  show ?case by simp
qed

lemma parse_engines_ok:
  assumes "parse_engines dir cfg = (Inr es, cfg')"
  shows "dict_ok es \<and> (\<forall>(n, e) \<in> set es. engine_ok e \<and> e_name e = n)"
proof -
  let ?names = "filter (starts_with ''engine.'') (dkeys (in_sections cfg))"
  let ?step = "\<lambda>sname. thenM (warn_unknown_fields engine_valid_fields sname)
               (bindM (section_of sname) (\<lambda>sec. fromSum (parse_engine_section sec dir)))"
  obtain ys where ys: "mapM ?step ?names cfg = (Inr ys, cfg')" "es = foldl (\<lambda>d e. dput (e_name e) e d) [] ys"
    using assms by (auto simp: parse_engines_def bindM_def [of "getsM _"] getsM_def bindM_def [of "mapM _ _"] returnM_def split: prod.splits sum.splits)
  have step: "?step x c = (parse_engine_section (ini_section c x) dir, snd (warn_unknown_fields engine_valid_fields x c))" for x c
    by (simp add: section_runs)
  have "list_all2 (\<lambda>x y. parse_engine_section (ini_section cfg x) dir = Inr y) ?names ys"
    using mapM_sections [where n = "\<lambda>x. x" and k = "\<lambda>_. engine_valid_fields" and f = "\<lambda>_ sec. parse_engine_section sec dir", OF step ys(1)] by simp
  then have all: "\<forall>e \<in> set ys. engine_ok e"
    by (auto simp: list_all2_conv_all_nth in_set_conv_nth) (metis parse_engine_section_ok)
  have fold: "dict_ok (foldl (\<lambda>d e. dput (e_name e) e d) d zs) \<and> (\<forall>(n, e) \<in> set (foldl (\<lambda>d e. dput (e_name e) e d) d zs). engine_ok e \<and> e_name e = n)"
    if "dict_ok d" "\<forall>(n, e) \<in> set d. engine_ok e \<and> e_name e = n" "\<forall>e \<in> set zs. engine_ok e" for d zs
    using that
  proof (induction zs arbitrary: d)
    case (Cons z zs)
    have "set (dput (e_name z) z d) \<subseteq> insert (e_name z, z) (set d)" for d by (induction "e_name z" z d rule: dput.induct) auto
    with Cons.prems Cons.IH [of "dput (e_name z) z d"] show ?case by auto
  qed simp
  show ?thesis using fold [of "[]" ys] all unfolding ys(2) by (simp add: dict_ok_def)
qed

section \<open>Clouds\<close>

text \<open>What the field tables give: each field is read under its key.\<close>

lemma read_field_name: "read_field rf sec p al co f = Inr x \<Longrightarrow> fst x = f_name f"
  by (auto simp: read_field_def Let_def bindE_Inr_iff)

lemma read_fields_lookup:
  assumes "read_fields rf sec fs p al co = Inr kw" "f \<in> set fs" "distinct (map f_name fs)"
  shows "\<exists>v. read_field rf sec p al co f = Inr (f_name f, v) \<and> dget kw (f_name f) = Some v"
  using assms unfolding read_fields_def
proof (induction fs arbitrary: kw)
  case (Cons g fs)
  obtain x xs where x: "read_field rf sec p al co g = Inr x" "mapE (read_field rf sec p al co) fs = Inr xs" "kw = x # xs"
    using Cons.prems(1) by (auto simp: bindE_Inr_iff)
  note n = read_field_name [OF x(1)]
  show ?case
  proof (cases "f = g")
    case True
    then show ?thesis using x n by (cases x) auto
  next
    case False
    then have "f \<in> set fs" using Cons.prems(2) by simp
    then have f: "f \<in> set fs" "f_name f \<noteq> f_name g" using Cons.prems(3) by (simp, metis imageI distinct.simps(2) list.simps(9) set_map)
    from Cons.IH [OF x(2) f(1)] Cons.prems(3) x n f(2) show ?thesis by (cases x) auto
  qed
qed simp

lemma sec_keys_lookup: "List.member (sec_keys sec) k \<longleftrightarrow> sec_lookup sec k \<noteq> None"
proof -
  have h: "k \<in> fst ` set d \<longleftrightarrow> dget d k \<noteq> None" for d :: "(string \<times> string) list" by (simp add: dget_None_iff)
  have "k \<in> set (sec_keys sec) \<longleftrightarrow> k \<in> fst ` set (sc_options sec) \<or> k \<in> fst ` set (sc_defaults sec)"
    by (auto simp: sec_keys_def dkeys_def dhas_def dget_None_iff)
  then show ?thesis by (simp add: sec_lookup_def h split: option.split)
qed

definition inherited :: "string \<Rightarrow> string list \<Rightarrow> ini_section \<Rightarrow> string \<Rightarrow> string option" where
  "inherited user ps sec k = (case sec_lookup sec k of
      Some v \<Rightarrow> Some v
    | None \<Rightarrow> if \<exists>p \<in> set ps. k = p @ ''_user'' then Some user else None)"

lemma inherit_user_ok:
  assumes "inherit_user u p cfg = (Inr (), cfg')"
  shows "sec_lookup (ini_section cfg' ''clouds'') k = inherited u [p] (ini_section cfg ''clouds'') k
    \<and> (n \<noteq> ''clouds'' \<longrightarrow> ini_section cfg' n = ini_section cfg n)"
proof (cases "List.member (sec_keys (ini_section cfg ''clouds'')) (p @ ''_user'')")
  case True
  then have "cfg' = cfg" using assms by (simp add: inherit_user_def Let_def)
  moreover have "sec_lookup (ini_section cfg ''clouds'') (p @ ''_user'') \<noteq> None" using True sec_keys_lookup by blast
  ultimately show ?thesis by (auto simp: inherited_def split: option.split)
next
  case False
  let ?os = "sc_options (ini_section cfg ''clouds'')"
  have cfg': "cfg' = cfg\<lparr>in_sections := dput ''clouds'' (dput (p @ ''_user'') u ?os) (in_sections cfg)\<rparr>"
    using assms False by (auto simp: inherit_user_def ini_set_def Let_def split: if_splits)
  have "sec_lookup (ini_section cfg ''clouds'') (p @ ''_user'') = None" using False sec_keys_lookup by blast
  then show ?thesis unfolding cfg'
    by (auto simp: inherited_def sec_lookup_def ini_section_def split: option.splits)
qed

lemma inherit_all:
  assumes "forM ps (inherit_user u) cfg = (Inr (), cfg')"
  shows "(\<forall>k. sec_lookup (ini_section cfg' ''clouds'') k = inherited u ps (ini_section cfg ''clouds'') k)
    \<and> (\<forall>n. n \<noteq> ''clouds'' \<longrightarrow> ini_section cfg' n = ini_section cfg n)"
  using assms
proof (induction ps arbitrary: cfg)
  case Nil
  then show ?case by (simp add: skipM_def returnM_def inherited_def split: option.split)
next
  case (Cons p ps)
  obtain cfg1 where c: "inherit_user u p cfg = (Inr (), cfg1)" "forM ps (inherit_user u) cfg1 = (Inr (), cfg')"
    using Cons.prems by (auto simp: thenM_def bindM_def split: prod.splits sum.splits)
  from inherit_user_ok [OF c(1)] Cons.IH [OF c(2)] show ?case
    by (auto simp: inherited_def split: option.splits if_splits)
qed

lemma pre_checks_ok:
  assumes "pre_checks known cfg = (Inr (), cfg')"
  shows "cfg' = cfg \<and> (\<forall>(p, sp) \<in> set known. \<forall>chk. sp_pre_check sp = Some chk \<longrightarrow> chk (ini_section cfg ''clouds'') p = Inr ())"
  using assms unfolding pre_checks_def
proof (induction known)
  case Nil
  then show ?case by (simp add: skipM_def returnM_def)
next
  case (Cons x known)
  obtain p sp where x: "x = (p, sp)" by (cases x)
  from Cons show ?case unfolding x
    by (cases "sp_pre_check sp") (auto simp: thenM_def bindM_def skipM_def returnM_def section_of_def getsM_def fromSum_def split: sum.splits)
qed

lemma parse_clouds_ok:
  assumes "parse_clouds fy rf shown ord remote cfg = (Inr cs, cfg')" and has: "dhas (in_sections cfg) ''clouds''"
  defines "ps \<equiv> cloud_prefixes ord cfg"
  shows "\<exists>sec. (\<forall>k. sec_lookup sec k = inherited (rd_username remote) ps (ini_section cfg ''clouds'') k)
     \<and> list_all2 (\<lambda>(p, sp) c. cloud_of_section fy rf shown sec p sp = Inr c) (known_specs fy ps) cs
     \<and> (\<forall>(p, sp) \<in> set (known_specs fy ps). \<forall>chk. sp_pre_check sp = Some chk \<longrightarrow> chk (ini_section cfg ''clouds'') p = Inr ())
     \<and> (\<forall>n. n \<noteq> ''clouds'' \<longrightarrow> ini_section cfg' n = ini_section cfg n)"
proof -
  let ?known = "known_specs fy ps"
  have e: "ensure_section ''clouds'' cfg = cfg" using has by (simp add: ensure_section_def)
  have run: "thenM (pre_checks ?known) (thenM (forM ps (inherit_user (rd_username remote))) (mapM (parse_cloud_section fy rf shown) ?known)) cfg = (Inr cs, cfg')"
    using assms(1) by (simp add: parse_clouds_def thenM_def [of "modifyM _"] bindM_def modifyM_def getsM_def e Let_def ps_def)
  then obtain cfg1 where p: "pre_checks ?known cfg = (Inr (), cfg1)" by (rule thenM_cases) (simp, metis that old.unit.exhaust)
  note pc = pre_checks_ok [OF p]
  obtain cfg2 where i: "forM ps (inherit_user (rd_username remote)) cfg = (Inr (), cfg2)" "mapM (parse_cloud_section fy rf shown) ?known cfg2 = (Inr cs, cfg')"
    using run p pc by (auto simp: thenM_def bindM_def split: prod.splits sum.splits)
  have step: "parse_cloud_section fy rf shown x c = (case x of (p, sp) \<Rightarrow> cloud_of_section fy rf shown (ini_section c ''clouds'') p sp,
      snd (warn_unknown_fields (all_cloud_valid_fields fy) ''clouds'' c))" for x c
    by (simp add: parse_cloud_section_def section_runs split: prod.split)
  from mapM_sections [where n = "\<lambda>_. ''clouds''" and k = "\<lambda>_. all_cloud_valid_fields fy"
      and f = "\<lambda>x sec. case x of (p, sp) \<Rightarrow> cloud_of_section fy rf shown sec p sp", OF step i(2)]
  have m: "list_all2 (\<lambda>(p, sp) c. cloud_of_section fy rf shown (ini_section cfg2 ''clouds'') p sp = Inr c) ?known cs" "same_options cfg2 cfg'"
    by (auto simp: case_prod_unfold)
  from inherit_all [OF i(1)] m same_options_section [OF m(2)] pc show ?thesis
    by (intro exI [of _ "ini_section cfg2 ''clouds''"]) simp
qed

definition cloud_ok :: "config_cloud \<Rightarrow> bool" where
  "cloud_ok c \<longleftrightarrow> 0 \<le> cfg_max_nodes c \<and> 1 \<le> cfg_idle_tolerance c \<and> 1 \<le> cfg_connect_grace c
     \<and> 1 \<le> cb_jump_port (cfg_base c) \<and> cb_jump_port (cfg_base c) \<le> MAX_PORT"

fun cfg_username :: "config_cloud \<Rightarrow> string option" where
  "cfg_username (CfgAzure c) = Some (az_username c)"
| "cfg_username (CfgHetzner c) = Some (hz_username c)"
| "cfg_username (CfgUpcloud c) = Some (up_username c)"
| "cfg_username (CfgVastAI c) = None"
| "cfg_username (CfgVultr c) = Some (vu_username c)"

lemma cloud_of_section_ok:
  assumes "cloud_of_section fy rf shown sec p sp = Inr c"
  shows "cloud_ok c \<and> (\<exists>kw. read_fields rf sec (sp_fields sp) p cloud_aliases (sp_coerce sp) = Inr kw \<and> c = sp_make sp kw)"
  using assms mk_config_ok [of shown] unfolding cloud_of_section_def bindE_Inr_iff cloud_ok_def by metis

lemma spec_prefix:
  assumes "dget (cloud_specs fy) p = Some sp"
  shows "cfg_prefix (sp_make sp kw) = p \<and> distinct (map f_name (sp_fields sp)) \<and> dget (sp_coerce sp) ''username'' = None
    \<and> (p \<noteq> ''vastai'' \<longrightarrow> (\<exists>u. fld ''username'' ''str'' (Some (VStr u)) \<in> set (sp_fields sp)))
    \<and> cfg_username (sp_make sp kw) = (if p = ''vastai'' then None else Some (kw_str kw ''username''))"
  using assms
  by (auto simp: cloud_specs_def split: if_splits)
     (simp_all add: azure_fields_def hetzner_fields_def upcloud_fields_def vastai_fields_def vultr_fields_def sized_fields_def user_fields_def
       priority_fields_def common_fields_def jump_fields_def fld_def azure_of_def hetzner_of_def upcloud_of_def vastai_of_def vultr_of_def)

lemma known_specs_iff: "(p, sp) \<in> set (known_specs fy ps) \<longleftrightarrow> p \<in> set ps \<and> dget (cloud_specs fy) p = Some sp"
  by (auto simp: known_specs_def split: option.splits)

text \<open>The user of a provider: its own option, else the remote user.\<close>

lemma cloud_user:
  assumes "cloud_of_section fy rf shown sec p sp = Inr c" "dget (cloud_specs fy) p = Some sp" "p \<noteq> ''vastai''"
    "sec_lookup sec (p @ ''_user'') = Some v" "CHR ''%'' \<notin> set v"
  shows "cfg_username c = Some v"
proof -
  obtain kw where kw: "read_fields rf sec (sp_fields sp) p cloud_aliases (sp_coerce sp) = Inr kw" "c = sp_make sp kw"
    using cloud_of_section_ok [OF assms(1)] by blast
  from spec_prefix [OF assms(2)] assms(3) obtain u where u: "fld ''username'' ''str'' (Some (VStr u)) \<in> set (sp_fields sp)"
    "distinct (map f_name (sp_fields sp))" "dget (sp_coerce sp) ''username'' = None" by blast
  have "p \<noteq> []" using assms(2) by (auto simp: cloud_specs_def split: if_splits)
  from read_fields_lookup [OF kw(1) u(1,2)] u(3) sec_get_plain [OF assms(4,5)] \<open>p \<noteq> []\<close>
  have "dget kw ''username'' = Some (VStr v)"
    by (auto simp: read_field_def fld_def field_key_def cloud_aliases_def or_default_def keep_default_def Let_def)
  then show ?thesis using spec_prefix [OF assms(2), of kw] assms(3) unfolding kw(2) by (simp add: kw_str_def)
qed

lemma cloud_users:
  assumes "parse_clouds fy rf shown ord remote cfg = (Inr cs, cfg')" "dhas (in_sections cfg) ''clouds''"
    and "CHR ''%'' \<notin> set (rd_username remote)" "c \<in> set cs" "cfg_prefix c \<noteq> ''vastai''"
  shows "case sec_lookup (ini_section cfg ''clouds'') (cfg_prefix c @ ''_user'') of
      Some v \<Rightarrow> CHR ''%'' \<in> set v \<or> cfg_username c = Some v
    | None \<Rightarrow> cfg_username c = Some (rd_username remote)"
proof -
  let ?ps = "cloud_prefixes ord cfg"
  obtain sec where sec: "\<forall>k. sec_lookup sec k = inherited (rd_username remote) ?ps (ini_section cfg ''clouds'') k"
    "list_all2 (\<lambda>(p, sp) c. cloud_of_section fy rf shown sec p sp = Inr c) (known_specs fy ?ps) cs"
    using parse_clouds_ok [OF assms(1,2)] by blast
  from sec(2) assms(4) obtain p sp where p: "(p, sp) \<in> set (known_specs fy ?ps)" "cloud_of_section fy rf shown sec p sp = Inr c"
    by (auto simp: list_all2_conv_all_nth in_set_conv_nth case_prod_unfold) (metis prod.collapse)
  then have d: "dget (cloud_specs fy) p = Some sp" "p \<in> set ?ps" by (simp_all add: known_specs_iff)
  have pre: "cfg_prefix c = p" using cloud_of_section_ok [OF p(2)] spec_prefix [OF d(1)] by auto
  show ?thesis
  proof (cases "sec_lookup (ini_section cfg ''clouds'') (p @ ''_user'')")
    case None
    then have "sec_lookup sec (p @ ''_user'') = Some (rd_username remote)" using sec(1) d(2) by (auto simp: inherited_def)
    from cloud_user [OF p(2) d(1) _ this assms(3)] assms(5) pre None show ?thesis by simp
  next
    case (Some v)
    then have "sec_lookup sec (p @ ''_user'') = Some v" using sec(1) by (simp add: inherited_def)
    from cloud_user [OF p(2) d(1) _ this] assms(5) pre Some show ?thesis by auto
  qed
qed

text \<open>One configuration for each known provider that an option names, in the order of the prefixes.\<close>

lemma cloud_providers:
  assumes "parse_clouds fy rf shown ord remote cfg = (Inr cs, cfg')" "dhas (in_sections cfg) ''clouds''"
  shows "map cfg_prefix cs = filter (dhas (cloud_specs fy)) (cloud_prefixes ord cfg) \<and> (\<forall>c \<in> set cs. cloud_ok c)"
proof -
  let ?ps = "cloud_prefixes ord cfg"
  obtain sec where sec: "list_all2 (\<lambda>(p, sp) c. cloud_of_section fy rf shown sec p sp = Inr c) (known_specs fy ?ps) cs"
    using parse_clouds_ok [OF assms] by blast
  have names: "map fst (known_specs fy ps) = filter (dhas (cloud_specs fy)) ps" for ps
    by (induction ps) (auto simp: known_specs_def dhas_def split: option.split)
  have one: "cfg_prefix c = fst x \<and> cloud_ok c" if "x \<in> set (known_specs fy ?ps)" "(case x of (p, sp) \<Rightarrow> cloud_of_section fy rf shown sec p sp = Inr c)" for x c
    using that spec_prefix [of fy "fst x" "snd x"] cloud_of_section_ok [of fy rf shown sec "fst x" "snd x" c] known_specs_iff [of "fst x" "snd x"]
    by (auto simp: case_prod_unfold)
  have "list_all2 (\<lambda>x c. cfg_prefix c = fst x \<and> cloud_ok c) (known_specs fy ?ps) cs"
    using sec by (rule list.rel_mono_strong) (rule one, assumption, simp add: case_prod_unfold)
  then have "map cfg_prefix cs = map fst (known_specs fy ?ps)" "\<forall>c \<in> set cs. cloud_ok c"
    by (auto simp: list_all2_conv_all_nth in_set_conv_nth intro!: nth_equalityI)
  then show ?thesis by (simp add: names)
qed

section \<open>The configuration\<close>

lemma local_of_section_ok: "local_of_section fy sec = Inr s \<Longrightarrow> settings_ok s"
  by (auto simp: local_of_section_def bindE_Inr_iff mk_local_settings_iff)

lemma remote_of_section_ok: "remote_of_section sec = Inr r \<Longrightarrow> 1 \<le> rd_jump_port r \<and> rd_jump_port r \<le> MAX_PORT"
  by (auto simp: remote_of_section_def bindE_Inr_iff mk_remote_defaults_iff Let_def)

lemma db_of_section_ok: "db_of_section sec = Inr d \<Longrightarrow> 1 \<le> dc_port d"
  by (auto simp: db_of_section_def bindE_Inr_iff mk_db_config_def split: if_splits)

definition with_sections :: "ini \<Rightarrow> ini" where
  "with_sections cfg = fold ensure_section [''db'', ''local'', ''remote'', ''clouds''] cfg"

lemma ensure_keeps: "dhas (in_sections cfg) n \<Longrightarrow> dhas (in_sections (ensure_section m cfg)) n"
proof -
  have "dget d n \<noteq> None \<Longrightarrow> dget (d @ [(m, [])]) n \<noteq> None" for d :: "(string \<times> (string \<times> string) list) list"
    by (induction d) auto
  then show "dhas (in_sections cfg) n \<Longrightarrow> dhas (in_sections (ensure_section m cfg)) n" by (simp add: ensure_section_def dhas_def)
qed

lemma ensure_has: "dhas (in_sections (ensure_section n cfg)) n"
proof -
  have "dget (d @ [(n, [])]) n \<noteq> None" for d :: "(string \<times> (string \<times> string) list) list"
    by (induction d) auto
  then show ?thesis by (simp add: ensure_section_def dhas_def)
qed

lemma with_sections_run: "forM [''db'', ''local'', ''remote'', ''clouds''] (\<lambda>n. modifyM (ensure_section n)) cfg = (Inr (), with_sections cfg)"
  by (simp add: with_sections_def monad_simps)

lemma with_sections_clouds: "dhas (in_sections (with_sections cfg)) ''clouds''"
  by (simp add: with_sections_def ensure_has)

definition config_ok :: "config \<Rightarrow> bool" where
  "config_ok c \<longleftrightarrow> settings_ok (cf_local c) \<and> 1 \<le> rd_jump_port (cf_remote c) \<and> rd_jump_port (cf_remote c) \<le> MAX_PORT
     \<and> 1 \<le> dc_port (cf_db c) \<and> (\<forall>x \<in> set (cf_clouds c). cloud_ok x)
     \<and> dict_ok (cf_engines c) \<and> (\<forall>(n, e) \<in> set (cf_engines c). engine_ok e \<and> e_name e = n)"

text \<open>The stages of a successful parse.\<close>

lemma parse_config_stages:
  assumes "parse_config fy rf shown ord cfg = (Inr c, cfg')"
  obtains cfg1 cfg2 cfg3 where
    "local_of_section fy (ini_section (with_sections cfg) ''local'') = Inr (cf_local c)"
    "remote_of_section (ini_section (with_sections cfg) ''remote'') = Inr (cf_remote c)"
    "same_options (with_sections cfg) cfg1"
    "parse_clouds fy rf shown ord (cf_remote c) cfg1 = (Inr (cf_clouds c), cfg2)"
    "db_of_section (ini_section cfg2 ''db'') = Inr (cf_db c)"
    "parse_engines (ls_engines_dir (cf_local c)) cfg3 = (Inr (cf_engines c), cfg')"
proof -
  let ?w = "with_sections cfg"
  let ?w1 = "snd (warn_unknown_fields local_valid_fields ''local'' ?w)"
  let ?w2 = "snd (warn_unknown_fields remote_valid_fields ''remote'' ?w1)"
  have run: "bindM (parse_local_section fy) (\<lambda>local. bindM parse_remote_section (\<lambda>remote.
     bindM (parse_clouds fy rf shown ord remote) (\<lambda>clouds. bindM parse_db_section (\<lambda>db.
     bindM (parse_engines (ls_engines_dir local)) (\<lambda>engines.
       returnM \<lparr>cf_db = db, cf_local = local, cf_remote = remote, cf_clouds = clouds, cf_engines = engines\<rparr>))))) ?w = (Inr c, cfg')"
    using assms unfolding parse_config_def thenM_def bindM_Inr [where f = "\<lambda>_. bindM (parse_local_section fy) _", OF with_sections_run] .
  have l: "parse_local_section fy ?w = (local_of_section fy (ini_section ?w ''local''), ?w1)"
    by (simp add: parse_local_section_def section_runs)
  obtain local where local: "local_of_section fy (ini_section ?w ''local'') = Inr local"
    using run l by (auto simp: bindM_def [of "parse_local_section fy"] split: sum.splits)
  have r: "parse_remote_section ?w1 = (remote_of_section (ini_section ?w ''remote''), ?w2)"
    by (simp add: parse_remote_section_def section_runs)
  obtain remote where remote: "remote_of_section (ini_section ?w ''remote'') = Inr remote"
    using run l r local by (auto simp: bindM_def [of "parse_local_section fy"] bindM_def [of parse_remote_section] split: sum.splits)
  obtain clouds cfg2 where clouds: "parse_clouds fy rf shown ord remote ?w2 = (Inr clouds, cfg2)"
    using run l r local remote
    by (auto simp: bindM_def [of "parse_local_section fy"] bindM_def [of parse_remote_section] bindM_def [of "parse_clouds fy rf shown ord remote"] split: sum.splits prod.splits)
  let ?w3 = "snd (warn_unknown_fields (map f_name db_fields) ''db'' cfg2)"
  have d: "parse_db_section cfg2 = (db_of_section (ini_section cfg2 ''db''), ?w3)"
    by (simp add: parse_db_section_def section_runs)
  obtain db engines cfg4 where rest: "db_of_section (ini_section cfg2 ''db'') = Inr db" "parse_engines (ls_engines_dir local) ?w3 = (Inr engines, cfg4)"
    "c = \<lparr>cf_db = db, cf_local = local, cf_remote = remote, cf_clouds = clouds, cf_engines = engines\<rparr>" "cfg' = cfg4"
    using run l r local remote clouds d
    by (auto simp: bindM_def [of "parse_local_section fy"] bindM_def [of parse_remote_section] bindM_def [of "parse_clouds fy rf shown ord remote"]
      bindM_def [of parse_db_section] bindM_def [of "parse_engines _"] returnM_def split: sum.splits prod.splits)
  have "same_options ?w ?w2" using same_options_trans same_options_warned by blast
  with local remote clouds rest show ?thesis by (intro that [of ?w2 cfg2 ?w3]) simp_all
qed

theorem parse_config_ok:
  assumes "parse_config fy rf shown ord cfg = (Inr c, cfg')"
  shows "config_ok c"
  using assms
proof (rule parse_config_stages)
  fix cfg1 cfg2 cfg3
  assume s: "local_of_section fy (ini_section (with_sections cfg) ''local'') = Inr (cf_local c)"
    "remote_of_section (ini_section (with_sections cfg) ''remote'') = Inr (cf_remote c)"
    "same_options (with_sections cfg) cfg1"
    "parse_clouds fy rf shown ord (cf_remote c) cfg1 = (Inr (cf_clouds c), cfg2)"
    "db_of_section (ini_section cfg2 ''db'') = Inr (cf_db c)"
    "parse_engines (ls_engines_dir (cf_local c)) cfg3 = (Inr (cf_engines c), cfg')"
  have "dhas (in_sections cfg1) ''clouds''" using s(3) with_sections_clouds by (simp add: same_options_def)
  from cloud_providers [OF s(4) this] local_of_section_ok [OF s(1)] remote_of_section_ok [OF s(2)] db_of_section_ok [OF s(5)] parse_engines_ok [OF s(6)]
  show ?thesis by (simp add: config_ok_def)
qed

section \<open>Reading back what spells a data class\<close>

text \<open>\<open>shown\<close> writes a float, \<open>rf\<close> reads it; a value is absent when it has no text.\<close>

fun field_text :: "(rat \<Rightarrow> string) \<Rightarrow> field_value \<Rightarrow> string option" where
  "field_text shown (VStr s) = Some s"
| "field_text shown (VInt i) = Some (show_int i)"
| "field_text shown (VBool b) = Some (if b then ''true'' else ''false'')"
| "field_text shown (VFloat q) = Some (shown q)"
| "field_text shown v = None"

definition fits :: "(string \<Rightarrow> rat option) \<Rightarrow> (rat \<Rightarrow> string) \<Rightarrow> cfg_field \<Rightarrow> field_value \<Rightarrow> bool" where
  "fits rf shown f v \<longleftrightarrow> (case v of
       VStr s \<Rightarrow> CHR ''%'' \<notin> set s \<and> (f_default f = None \<longrightarrow> s \<noteq> []) \<and> \<not> List.member [''int'', ''float'', ''bool''] (f_type f)
     | VInt i \<Rightarrow> f_default f \<noteq> None \<and> f_type f = ''int''
     | VBool b \<Rightarrow> f_default f \<noteq> None \<and> f_type f = ''bool''
     | VFloat q \<Rightarrow> f_default f \<noteq> None \<and> f_type f = ''float'' \<and> CHR ''%'' \<notin> set (shown q) \<and> rf (shown q) = Some q
     | _ \<Rightarrow> f_default f = Some v \<and> \<not> List.member [''int'', ''float'', ''bool''] (f_type f))"

definition write_fields :: "(rat \<Rightarrow> string) \<Rightarrow> cfg_field list \<Rightarrow> string \<Rightarrow> (string \<times> string) list \<Rightarrow> (string \<Rightarrow> field_value) \<Rightarrow> (string \<times> string) list" where
  "write_fields shown fs prefix aliases vals = concat (map (\<lambda>f. case field_text shown (vals (f_name f)) of
      None \<Rightarrow> [] | Some t \<Rightarrow> [(field_key prefix aliases f, t)]) fs)"

lemma dget_append: "dget (a @ b) k = (case dget a k of None \<Rightarrow> dget b k | Some v \<Rightarrow> Some v)"
  by (induction a) (auto split: option.split)

lemma write_fields_lookup:
  assumes "f \<in> set fs" "distinct (map (field_key p al) fs)"
  shows "dget (write_fields shown fs p al vals) (field_key p al f) = field_text shown (vals (f_name f))"
  using assms
proof (induction fs)
  case (Cons g fs)
  have other: "k \<notin> field_key p al ` set fs \<Longrightarrow> dget (write_fields shown fs p al vals) k = None" for k
    by (induction fs) (auto simp: write_fields_def dget_append split: option.split)
  show ?case
  proof (cases "f = g")
    case True
    then show ?thesis using Cons.prems(2) other [of "field_key p al g"] by (auto simp: write_fields_def dget_append split: option.split)
  next
    case False
    then have "f \<in> set fs" using Cons.prems(1) by simp
    moreover from this have "field_key p al f \<noteq> field_key p al g" using Cons.prems(2) by (simp, metis imageI)
    ultimately show ?thesis using Cons by (auto simp: write_fields_def dget_append split: option.split)
  qed
qed simp

lemma py_int_show: "py_int (show_int i) = Some i"
proof (cases "0 \<le> i")
  case False
  have d: "list_all is_digit (show_nat (nat (- i)))" by (rule show_nat_digits)
  have u: "CHR ''_'' \<notin> set (show_nat (nat (- i)))" using d by (auto simp: list_all_iff is_digit_def)
  have s: "strip (show_int i) = show_int i" using d False
    by (intro strip_plain) (auto simp: show_int_def list_all_iff digit_not_space is_digit_def is_space_def Let_def)
  have "int_digits (show_nat (nat (- i))) = Some (nat (- i))"
    using d u by (simp add: int_digits_def split_on_no_sep Let_def)
  then show ?thesis using False s by (simp add: py_int_def) (simp add: show_int_def)
qed (rule py_int_show_pos)

lemma show_int_plain: "CHR ''%'' \<notin> set (show_int i)"
proof -
  have "CHR ''%'' \<notin> set (show_nat n)" for n
    using show_nat_digits [of n] by (auto simp: list_all_iff is_digit_def)
  then show ?thesis by (simp add: show_int_def)
qed

theorem read_write_fields:
  assumes "sc_options sec = write_fields shown fs p al vals" "sc_defaults sec = []" "distinct (map (field_key p al) fs)"
    and "\<And>f. f \<in> set fs \<Longrightarrow> fits rf shown f (vals (f_name f))"
  shows "read_fields rf sec fs p al [] = Inr (map (\<lambda>f. (f_name f, vals (f_name f))) fs)"
proof -
  have one: "read_field rf sec p al [] f = Inr (f_name f, vals (f_name f))" if "f \<in> set fs" for f
  proof -
    have "sec_lookup sec (field_key p al f) = field_text shown (vals (f_name f))"
      using write_fields_lookup [OF that assms(3), of shown vals] assms(1,2) by (simp add: sec_lookup_def split: option.split)
    then have g: "sec_get sec (field_key p al f) = Inr (field_text shown (vals (f_name f)))"
      using assms(4) [OF that] show_int_plain by (cases "vals (f_name f)") (auto simp: fits_def sec_get_def interpolate_plain)
    show ?thesis using g assms(4) [OF that]
      by (cases "vals (f_name f)") (auto simp: read_field_def Let_def fits_def require_str_def keep_default_def sec_getint_def sec_getboolean_def sec_getfloat_def
        sec_conv_def conv_int_def conv_bool_def py_int_show lower_def lower_char_def split: option.split)
  qed
  then show ?thesis unfolding read_fields_def using assms
    by (auto simp: mapE_Inr_iff list_all2_conv_all_nth)
qed

text \<open>The values of a provider's configuration, for the providers without coercions.\<close>

definition base_values :: "('a cloud_base_scheme) \<Rightarrow> (string \<times> field_value) list" where
  "base_values b = [(''max_nodes'', VInt (cb_max_nodes b)), (''priority'', VInt (cb_priority b)), (''idle_tolerance'', VInt (cb_idle_tolerance b)),
     (''connect_grace'', VInt (cb_connect_grace b)), (''package_upgrade'', VBool (cb_package_upgrade b)),
     (''jump_username'', (case cb_jump_username b of None \<Rightarrow> VNone | Some u \<Rightarrow> VStr u)),
     (''jump_host'', (case cb_jump_host b of None \<Rightarrow> VNone | Some h \<Rightarrow> VStr h)), (''jump_port'', VInt (cb_jump_port b)), (''label'', VStr (cb_label b))]"

fun cloud_values :: "config_cloud \<Rightarrow> (string \<times> field_value) list" where
  "cloud_values (CfgHetzner c) = [(''token'', VStr (hz_token c)), (''username'', VStr (hz_username c)), (''server_type'', VStr (hz_server_type c)),
     (''location'', VStr (hz_location c)), (''image_name'', VStr (hz_image_name c))] @ base_values c"
| "cloud_values (CfgUpcloud c) = [(''login'', VStr (up_login c)), (''password'', VStr (up_password c)), (''username'', VStr (up_username c))] @ base_values c"
| "cloud_values (CfgVultr c) = [(''api_key'', VStr (vu_api_key c)), (''location'', VStr (vu_location c)), (''server_type'', VStr (vu_server_type c)),
     (''image_name'', VInt (vu_image_name c)), (''need_raid'', VBool (vu_need_raid c)), (''username'', VStr (vu_username c))] @ base_values c"
| "cloud_values _ = []"

definition plain_values :: "cfg_field list \<Rightarrow> (string \<times> field_value) list \<Rightarrow> bool" where
  "plain_values fs kw \<longleftrightarrow> list_all (\<lambda>f. case dget kw (f_name f) of
      Some (VStr s) \<Rightarrow> CHR ''%'' \<notin> set s \<and> (f_default f = None \<longrightarrow> s \<noteq> []) | _ \<Rightarrow> True) fs"

definition cloud_options :: "(rat \<Rightarrow> string) \<Rightarrow> config_cloud \<Rightarrow> cloud_spec \<Rightarrow> ini_section" where
  "cloud_options shown c sp = \<lparr>sc_name = ''clouds'',
     sc_options = write_fields shown (sp_fields sp) (cfg_prefix c) cloud_aliases (\<lambda>n. or_default VNone (dget (cloud_values c) n)),
     sc_defaults = []\<rparr>"

lemma fits_fld:
  "fits rf shown (fld n t d) (VStr s) \<longleftrightarrow> CHR ''%'' \<notin> set s \<and> (d = None \<longrightarrow> s \<noteq> []) \<and> \<not> List.member [''int'', ''float'', ''bool''] t"
  "fits rf shown (fld n t d) (VInt i) \<longleftrightarrow> d \<noteq> None \<and> t = ''int''"
  "fits rf shown (fld n t d) (VBool b) \<longleftrightarrow> d \<noteq> None \<and> t = ''bool''"
  "fits rf shown (fld n t d) VNone \<longleftrightarrow> d = Some VNone \<and> \<not> List.member [''int'', ''float'', ''bool''] t"
  by (simp_all add: fits_def fld_def)

lemma f_name_fld [simp]: "f_name (fld n t d) = n" "f_default (fld n t d) = d" "f_type (fld n t d) = t"
  by (simp_all add: fld_def)

lemmas field_lists = hetzner_fields_def upcloud_fields_def vultr_fields_def sized_fields_def user_fields_def priority_fields_def
  common_fields_def jump_fields_def

lemmas field_tables = hetzner_fields_def upcloud_fields_def vultr_fields_def sized_fields_def user_fields_def priority_fields_def
  common_fields_def jump_fields_def fld_def

theorem cloud_options_round_trip:
  assumes "dget (cloud_specs fy) (cfg_prefix c) = Some sp" "sp_coerce sp = []" "plain_values (sp_fields sp) (cloud_values c)"
  shows "cloud_of_section fy rf shown (cloud_options shown c sp) (cfg_prefix c) sp = mk_config shown c"
proof -
  let ?vals = "\<lambda>n. or_default VNone (dget (cloud_values c) n)"
  have sp: "(\<exists>h. c = CfgHetzner h \<and> sp_fields sp = hetzner_fields \<and> sp_make sp = hetzner_of)
      \<or> (\<exists>h. c = CfgUpcloud h \<and> sp_fields sp = upcloud_fields \<and> sp_make sp = upcloud_of)
      \<or> (\<exists>h. c = CfgVultr h \<and> sp_fields sp = vultr_fields \<and> sp_make sp = vultr_of)"
    using assms(1,2) by (cases c) (auto simp: cloud_specs_def)
  have d: "distinct (map (field_key (cfg_prefix c) cloud_aliases) (sp_fields sp))"
    using sp by (auto simp: field_tables field_key_def cloud_aliases_def or_default_def)
  have "list_all (\<lambda>f. fits rf shown f (?vals (f_name f))) (sp_fields sp)"
    using sp assms(3) unfolding plain_values_def
    by (elim disjE exE conjE) (simp_all add: field_lists fits_fld or_default_def base_values_def split: option.splits)
  then have f: "fits rf shown f (?vals (f_name f))" if "f \<in> set (sp_fields sp)" for f
    using that by (simp add: list_all_iff)
  have "read_fields rf (cloud_options shown c sp) (sp_fields sp) (cfg_prefix c) cloud_aliases [] = Inr (map (\<lambda>f. (f_name f, ?vals (f_name f))) (sp_fields sp))"
    by (rule read_write_fields [OF _ _ d f]) (simp_all add: cloud_options_def)
  moreover have "sp_make sp (map (\<lambda>f. (f_name f, ?vals (f_name f))) (sp_fields sp)) = c"
    using sp by (auto simp: field_tables hetzner_of_def upcloud_of_def vultr_of_def or_default_def base_values_def kw_int_def kw_str_def kw_opt_def kw_bool_def
      split: option.split)
  ultimately show ?thesis using assms(2) by (simp add: cloud_of_section_def)
qed

end
