(* ===== verification/Config_Samples.thy ===== *)
theory Config_Samples
  imports Config_Facts
begin

text \<open>A small configuration file, at which the witnesses of the parser's properties apply them.\<close>

definition sample_ini :: ini where
  "sample_ini = \<lparr>in_sections = [
     (''remote'', [(''user'', ''alice'')]),
     (''engine.dummy'', [(''spawn'', ''{engine_path}/run {task_path} {ncpus}''), (''check_pname'', ''dummy''), (''input_files'', ''in  out''),
        (''output_files'', ''out''), (''platforms'', ''debian-10 debian-11 linux'')])],
     in_defaults = [], in_warnings = []\<rparr>"

definition sample_fs :: file_system where
  "sample_fs = \<lparr>fy_resolve = mk_path, fy_text = (\<lambda>_. None)\<rparr>"

lemma sample_ini_run:
  "\<exists>c. fst (parse_config sample_fs (\<lambda>_. None) (\<lambda>_. []) id sample_ini) = Inr c \<and> map fst (cf_engines c) = [''dummy'']"
proof -
  let ?run = "parse_config sample_fs (\<lambda>_. None) (\<lambda>_. []) id sample_ini"
  have "map_sum id (\<lambda>c. map fst (cf_engines c)) (fst ?run) = Inr [''dummy'']" by code_simp
  then show ?thesis by (cases "fst ?run") auto
qed

definition sample_clouds :: ini where
  "sample_clouds = \<lparr>in_sections = [(''clouds'', [(''upcloud_login'', ''l''), (''upcloud_password'', ''p'')])], in_defaults = [], in_warnings = []\<rparr>"

definition sample_upcloud_section :: ini_section where
  "sample_upcloud_section = \<lparr>sc_name = ''clouds'',
     sc_options = [(''upcloud_login'', ''l''), (''upcloud_password'', ''p''), (''upcloud_user'', ''root'')], sc_defaults = []\<rparr>"

lemma sample_upcloud: "\<exists>c. cloud_of_section sample_fs (\<lambda>_. None) (\<lambda>_. []) sample_upcloud_section ''upcloud''
    (the (dget (cloud_specs sample_fs) ''upcloud'')) = Inr c \<and> cfg_prefix c = ''upcloud''"
proof -
  have "map_sum id cfg_prefix (cloud_of_section sample_fs (\<lambda>_. None) (\<lambda>_. []) sample_upcloud_section ''upcloud''
    (the (dget (cloud_specs sample_fs) ''upcloud''))) = Inr ''upcloud''" by code_simp
  then show ?thesis
    by (cases "cloud_of_section sample_fs (\<lambda>_. None) (\<lambda>_. []) sample_upcloud_section ''upcloud'' (the (dget (cloud_specs sample_fs) ''upcloud''))") auto
qed

lemma sample_clouds_run:
  "\<exists>c cfg'. parse_clouds sample_fs (\<lambda>_. None) (\<lambda>_. []) id remote_defaults0 sample_clouds = (Inr [c], cfg') \<and> cfg_prefix c = ''upcloud''"
proof -
  define sp where "sp = the (dget (cloud_specs sample_fs) ''upcloud'')"
  obtain c where c: "cloud_of_section sample_fs (\<lambda>_. None) (\<lambda>_. []) sample_upcloud_section ''upcloud'' sp = Inr c" "cfg_prefix c = ''upcloud''"
    using sample_upcloud unfolding sp_def by blast
  have p: "cloud_prefixes id sample_clouds = [''upcloud'']" by code_simp
  have k: "known_specs sample_fs [''upcloud''] = [(''upcloud'', sp)]" "sp_pre_check sp = None"
    by (simp_all add: known_specs_def cloud_specs_def sp_def)
  let ?cfg = "\<lparr>in_sections = [(''clouds'', sc_options sample_upcloud_section)], in_defaults = [], in_warnings = []\<rparr>"
  have i: "inherit_user ''root'' ''upcloud'' sample_clouds = (Inr (), ?cfg)" 
    by (simp add: inherit_user_def sample_clouds_def sample_upcloud_section_def ini_section_def sec_keys_def dkeys_def ini_set_def settable_def
      Let_def drop_references.simps)
  have s: "ini_section ?cfg ''clouds'' = sample_upcloud_section"
    by (simp add: ini_section_def sample_upcloud_section_def)
  have e: "ensure_section ''clouds'' sample_clouds = sample_clouds" by (simp add: ensure_section_def sample_clouds_def dhas_def)
  have "parse_clouds sample_fs (\<lambda>_. None) (\<lambda>_. []) id remote_defaults0 sample_clouds
    = (Inr [c], snd (warn_unknown_fields (all_cloud_valid_fields sample_fs) ''clouds'' ?cfg))"
    using c(1) by (simp add: parse_clouds_def Let_def thenM_def bindM_def modifyM_def getsM_def e p k pre_checks_def skipM_def returnM_def
      remote_defaults0_def i parse_cloud_section_def section_runs [unfolded thenM_def bindM_def] s)
  then show ?thesis using c(2) by blast
qed

end
