(* ===== verification/Platform.thy ===== *)
theory Platform
  imports Host_Spec
begin

text \<open>
  The platform adapters of \<open>infra/ssh/platform/\<close> on a POSIX machine (\<open>linux.py\<close>, \<open>common.py\<close>,
  \<open>run_fn.py\<close>): running commands, listing processes, deploying engines and setting up a node.

  The connection is the SSH library's.  Every awaited call takes its answer from a list in the state and is
  logged; a finished process is an exit status and what it printed.  With \<open>check=True\<close> the library raises
  \<open>ProcessError\<close> for a non-zero exit status.
\<close>

section \<open>The connection\<close>

datatype ssh_exn = ProcessFailed int | SshRaised exn | PlatformGuessFailed

datatype ssh_request =
    Run string
  | CreateProcess string
  | StartSftp
  | CloseSftp
  | SftpPut "string list" string
  | SftpMakedirs string
  | SftpRemove string
  | SftpRealpath string
  | Wait int

type_synonym finished = "int option \<times> string option"

record ssh_conn =
  sn_answers :: "(exn + finished) list"
  sn_log :: "ssh_request list"
  sn_username :: "string option"
  sn_is_linux :: "bool option"
  sn_is_darwin :: "bool option"
  sn_is_windows :: "bool option"
  sn_os_release :: "string list option option"

type_synonym 'a ssh = "(ssh_conn, ssh_exn, 'a) M"

definition ssh_call :: "ssh_request \<Rightarrow> finished ssh" where
  "ssh_call c w = (let w1 = w\<lparr>sn_log := sn_log w @ [c]\<rparr> in
     case sn_answers w of
       [] \<Rightarrow> (Inl (SshRaised (OSErr ''connection lost'')), w1)
     | a # as \<Rightarrow> ((case a of Inl e \<Rightarrow> Inl (SshRaised e) | Inr r \<Rightarrow> Inr r), w1\<lparr>sn_answers := as\<rparr>))"

definition ssh_do :: "ssh_request \<Rightarrow> unit ssh" where
  "ssh_do c = bindM (ssh_call c) (\<lambda>_. returnM ())"

definition ssh_sleep :: "int \<Rightarrow> unit ssh" where
  "ssh_sleep d = modifyM (\<lambda>w. w\<lparr>sn_log := sn_log w @ [Wait d]\<rparr>)"

definition conn_run :: "bool \<Rightarrow> string \<Rightarrow> finished ssh" where
  "conn_run check cmd = bindM (ssh_call (Run cmd)) (\<lambda>(rc, out). case rc of
       Some c \<Rightarrow> if check \<and> c \<noteq> 0 then raiseM (ProcessFailed c) else returnM (rc, out)
     | None \<Rightarrow> returnM (rc, out))"

section \<open>Running commands\<close>

definition in_directory :: "(string \<Rightarrow> string) \<Rightarrow> string option \<Rightarrow> string \<Rightarrow> string" where
  "in_directory quote cwd command = (case cwd of
      None \<Rightarrow> command
    | Some d \<Rightarrow> if d = [] then command else ''cd '' @ quote d @ ''; '' @ command)"

text \<open>A timeout that is not a number counts as none; Booleans are not numbers here.\<close>

definition run_timeout :: "pyval option \<Rightarrow> pyval option" where
  "run_timeout t = (case t of Some (PInt i) \<Rightarrow> t | Some (PFloat q) \<Rightarrow> t | _ \<Rightarrow> None)"

definition platform_run :: "(string \<Rightarrow> string) \<Rightarrow> string \<Rightarrow> string option \<Rightarrow> bool \<Rightarrow> finished ssh" where
  "platform_run quote command cwd check = conn_run check (in_directory quote cwd command)"

definition platform_run_bg :: "(string \<Rightarrow> string) \<Rightarrow> string \<Rightarrow> string option \<Rightarrow> finished ssh" where
  "platform_run_bg quote command cwd = ssh_call (CreateProcess (in_directory quote cwd command))"

text \<open>\<open>shlex.quote\<close>.\<close>

definition shell_safe :: "char \<Rightarrow> bool" where
  "shell_safe c \<longleftrightarrow> (let n = of_char c :: nat in
     (48 \<le> n \<and> n \<le> 57) \<or> (65 \<le> n \<and> n \<le> 90) \<or> (97 \<le> n \<and> n \<le> 122) \<or> List.member ''_@%+=:,./-'' c)"

definition apostrophe :: char where
  "apostrophe = CHR 0x27"

definition escape_char :: "char \<Rightarrow> string" where
  "escape_char c = (if c = apostrophe then [apostrophe, CHR 0x22, apostrophe, CHR 0x22, apostrophe] else [c])"

definition shlex_quote :: "string \<Rightarrow> string" where
  "shlex_quote s = (if s = [] then [apostrophe, apostrophe]
     else if list_all shell_safe s then s
     else [apostrophe] @ concat (map escape_char s) @ [apostrophe])"

section \<open>Linux\<close>

definition stripped_or_one :: "string option \<Rightarrow> string" where
  "stripped_or_one out = (case out of None \<Rightarrow> ''1'' | Some s \<Rightarrow> if strip s = [] then ''1'' else strip s)"

definition cores_of :: "string option \<Rightarrow> int" where
  "cores_of out = (case py_int (stripped_or_one out) of Some n \<Rightarrow> n | None \<Rightarrow> 1)"

definition linux_get_cpu_cores :: "(string \<Rightarrow> string) \<Rightarrow> int ssh" where
  "linux_get_cpu_cores quote = bindM (platform_run quote ''getconf NPROCESSORS_ONLN 2> /dev/null || getconf _NPROCESSORS_ONLN'' None False)
     (\<lambda>(rc, out). returnM (cores_of out))"

record proc_info =
  pi_pid :: int
  pi_name :: string
  pi_command :: string

fun occurs_in :: "string \<Rightarrow> string \<Rightarrow> bool" where
  "occurs_in p [] \<longleftrightarrow> p = []"
| "occurs_in p (c # cs) \<longleftrightarrow> starts_with p (c # cs) \<or> occurs_in p cs"

text \<open>\<open>s.split(sep)\<close> for a non-empty separator.\<close>

function split_str :: "string \<Rightarrow> string \<Rightarrow> string \<Rightarrow> string list" where
  "split_str sep acc s = (case s of
      [] \<Rightarrow> [rev acc]
    | c # cs \<Rightarrow> if sep \<noteq> [] \<and> starts_with sep s then rev acc # split_str sep [] (drop (length sep) s)
                else split_str sep (c # acc) cs)"
  by pat_completeness auto
termination
  by (relation "measure (\<lambda>(sep, acc, s). length s)") (auto simp: Suc_le_eq)

declare split_str.simps [simp del]

definition ps_columns :: string where
  "ps_columns = join '','' (map (\<lambda>x. x @ '':255'') [''pid'', ''comm'', ''args''])"

definition ps_command :: "string option \<Rightarrow> string" where
  "ps_command query = (case query of
      None \<Rightarrow> ''ps -eo '' @ ps_columns
    | Some q \<Rightarrow> if q = [] then ''ps -eo '' @ ps_columns
                else q @ '' | xargs --no-run-if-empty ps -o '' @ ps_columns)"

text \<open>The columns of one line of \<open>ps\<close>; a line with less than three is skipped, and so is the wrapper that
  executes the command.\<close>

definition ps_parts :: "string \<Rightarrow> string list" where
  "ps_parts raw = map strip (filter (\<lambda>p. p \<noteq> []) (split_str (replicate 10 CHR '' '') [] raw))"

definition ps_line :: "string \<Rightarrow> string \<Rightarrow> (exn + proc_info) option" where
  "ps_line ps_cmd line = (let raw = strip line; parts = ps_parts raw in
     if raw = [] \<or> length parts < 3 then None
     else if occurs_in ps_cmd (parts ! 2) then None
     else Some (case py_int (parts ! 0) of
         None \<Rightarrow> Inl (ValueError ''invalid literal for int() with base 10'')
       | Some p \<Rightarrow> Inr \<lparr>pi_pid = p, pi_name = parts ! 1, pi_command = parts ! 2\<rparr>))"

text \<open>What the generator yields, and the exception that ends it.\<close>

fun ps_yield :: "string \<Rightarrow> string list \<Rightarrow> proc_info list \<times> exn option" where
  "ps_yield ps_cmd [] = ([], None)"
| "ps_yield ps_cmd (l # ls) = (case ps_line ps_cmd l of
      None \<Rightarrow> ps_yield ps_cmd ls
    | Some (Inl e) \<Rightarrow> ([], Some e)
    | Some (Inr p) \<Rightarrow> (case ps_yield ps_cmd ls of (ps, e) \<Rightarrow> (p # ps, e)))"

definition lines_of :: "string option \<Rightarrow> string list" where
  "lines_of out = (case out of None \<Rightarrow> [] | Some s \<Rightarrow> split_on (CHR 0x0A) s)"

definition linux_list_processes :: "string option \<Rightarrow> (proc_info list \<times> exn option) ssh" where
  "linux_list_processes query = (let ps_cmd = ps_command query in
     bindM (ssh_call (CreateProcess ps_cmd)) (\<lambda>(rc, out). returnM (ps_yield ps_cmd (drop 1 (lines_of out)))))"

definition pgrep_query :: "(string \<Rightarrow> string) \<Rightarrow> string \<Rightarrow> bool \<Rightarrow> string" where
  "pgrep_query quote pattern full = join '' '' (filter (\<lambda>x. x \<noteq> []) ([''pgrep''] @ (if full then [''-f''] else []) @ [quote pattern]))"

definition linux_pgrep :: "(string \<Rightarrow> string) \<Rightarrow> string \<Rightarrow> bool \<Rightarrow> (proc_info list \<times> exn option) ssh" where
  "linux_pgrep quote pattern full = linux_list_processes (Some (pgrep_query quote pattern full))"

section \<open>Deploying engines\<close>

definition deploy_local_files :: "ppath \<Rightarrow> string list \<Rightarrow> unit ssh" where
  "deploy_local_files engine_dir files = ssh_do (SftpPut files (path_str engine_dir))"

definition deploy_local_archive :: "(string \<Rightarrow> string) \<Rightarrow> ppath \<Rightarrow> string \<Rightarrow> unit ssh" where
  "deploy_local_archive quote engine_dir archive = (let name = path_name (mk_path archive) in
     thenM (ssh_do (SftpPut [archive] (path_str engine_dir)))
    (bindM (platform_run quote (''tar xfv '' @ quote name) (Some (path_str engine_dir)) True) (\<lambda>_.
       ssh_do (SftpRemove (path_str (path_div engine_dir name))))))"

definition deploy_remote_archive :: "(string \<Rightarrow> string) \<Rightarrow> ppath \<Rightarrow> string \<Rightarrow> unit ssh" where
  "deploy_remote_archive quote engine_dir url = (let name = ''archive.tar.gz'' in
     bindM (platform_run quote (''wget '' @ quote url @ '' -O '' @ quote name) (Some (path_str engine_dir)) True) (\<lambda>_.
     bindM (platform_run quote (''tar xfv '' @ quote name) (Some (path_str engine_dir)) True) (\<lambda>_.
       ssh_do (SftpRemove (path_str (path_div engine_dir name))))))"

fun deploy_one :: "(string \<Rightarrow> string) \<Rightarrow> ppath \<Rightarrow> deploy \<Rightarrow> unit ssh" where
  "deploy_one quote dir (LocalFilesDeploy files) = deploy_local_files dir files"
| "deploy_one quote dir (LocalArchiveDeploy archive) = deploy_local_archive quote dir archive"
| "deploy_one quote dir (RemoteArchiveDeploy url) = deploy_remote_archive quote dir url"

definition deploy_engine :: "(string \<Rightarrow> string) \<Rightarrow> ppath \<Rightarrow> engine \<Rightarrow> unit ssh" where
  "deploy_engine quote engines_dir e = (let dir = path_div engines_dir (e_name e) in
     thenM (ssh_do (SftpMakedirs (path_str dir))) (forM (e_deployable e) (deploy_one quote dir)))"

definition linux_deploy_engines :: "(string \<Rightarrow> string) \<Rightarrow> engine_repository \<Rightarrow> ppath \<Rightarrow> unit ssh" where
  "linux_deploy_engines quote engines engines_dir = forM (engines_values engines) (deploy_engine quote engines_dir)"

text \<open>\<open>async with conn.start_sftp_client()\<close>.\<close>

definition ssh_with_sftp :: "unit ssh \<Rightarrow> unit ssh" where
  "ssh_with_sftp m = thenM (ssh_do StartSftp) (finallyM m (modifyM (\<lambda>w. w\<lparr>sn_log := sn_log w @ [CloseSftp]\<rparr>)))"

definition linux_setup_node :: "(string \<Rightarrow> string) \<Rightarrow> engine_repository \<Rightarrow> ppath \<Rightarrow> unit ssh" where
  "linux_setup_node quote engines engines_dir = ssh_with_sftp (linux_deploy_engines quote engines engines_dir)"

definition log_mpi_version :: "(string \<Rightarrow> string) \<Rightarrow> unit ssh" where
  "log_mpi_version quote = bindM (platform_run quote ''mpirun --allow-run-as-root -V'' None True) (\<lambda>_. returnM ())"

definition apt_transient :: int where
  "apt_transient = 100"

text \<open>\<open>_run_apt_with_retry\<close>: the number of the attempt, and the last transient failure.\<close>

function apt_loop :: "(string \<Rightarrow> string) \<Rightarrow> string \<Rightarrow> nat \<Rightarrow> nat \<Rightarrow> int option \<Rightarrow> unit ssh" where
  "apt_loop quote cmd attempts attempt last_exc =
     (if attempt > attempts then (case last_exc of None \<Rightarrow> returnM () | Some c \<Rightarrow> raiseM (ProcessFailed c))
      else bindM (attemptM (platform_run quote cmd None True)) (\<lambda>r. case r of
          Inr _ \<Rightarrow> returnM ()
        | Inl (ProcessFailed c) \<Rightarrow>
            if c \<noteq> apt_transient then raiseM (ProcessFailed c)
            else thenM (whenM (attempt < attempts) (ssh_sleep (5 * int attempt)))
                       (apt_loop quote cmd attempts (attempt + 1) (Some c))
        | Inl x \<Rightarrow> raiseM x))"
  by pat_completeness auto
termination
  by (relation "measure (\<lambda>(quote, cmd, attempts, attempt, last_exc). Suc attempts - attempt)") auto

declare apt_loop.simps [simp del]

definition run_apt_with_retry :: "(string \<Rightarrow> string) \<Rightarrow> string \<Rightarrow> unit ssh" where
  "run_apt_with_retry quote cmd = apt_loop quote cmd 3 1 None"

definition linux_setup_deb_node :: "(string \<Rightarrow> string) \<Rightarrow> engine_repository \<Rightarrow> ppath \<Rightarrow> unit ssh" where
  "linux_setup_deb_node quote engines engines_dir =
     bindM (getsM (\<lambda>w. sn_username w = Some ''root'')) (\<lambda>is_root.
       let apt_cmd = (if is_root then '''' else ''sudo '') @ ''apt-get -o DPkg::Lock::Timeout=600 -y'';
           pkgs = get_platform_packages engines in
       thenM (run_apt_with_retry quote (apt_cmd @ '' update''))
      (thenM (run_apt_with_retry quote (apt_cmd @ '' upgrade''))
      (thenM (whenM (pkgs \<noteq> []) (run_apt_with_retry quote (apt_cmd @ '' install '' @ join '' '' pkgs)))
      (thenM (whenM (list_ex (occurs_in ''mpi'') pkgs) (log_mpi_version quote))
             (ssh_with_sftp (linux_deploy_engines quote engines engines_dir))))))"

end
