(* ===== verification/Windows.thy ===== *)
theory Windows
  imports Platform Vendor_Api Ini
begin

text \<open>
  The Windows side of the platform adapters (\<open>infra/ssh/platform/windows.py\<close>): the path class that drops the
  spurious backslash of the SFTP server, quoting for PowerShell, the process listing, the deployment of engines.

  A Windows path is its raw text, as \<open>pathlib\<close> of Python 3.12 keeps it; \<open>ntpath.splitroot\<close>, \<open>ntpath.join\<close> and the
  parser of \<open>PureWindowsPath\<close> are the standard library's.  \<open>json.loads\<close> is a parameter.
\<close>

section \<open>Windows paths\<close>

definition bslash :: char where
  "bslash = CHR 0x5C"

definition win_seps :: "string \<Rightarrow> string" where
  "win_seps = List.map (\<lambda>c. if c = slash then bslash else c)"

definition sub_str :: "nat \<Rightarrow> nat \<Rightarrow> string \<Rightarrow> string" where
  "sub_str i n s = take n (drop i s)"

fun upper_char :: "char \<Rightarrow> char" where
  "upper_char c = (let n = of_char c :: nat in if 97 \<le> n \<and> n \<le> 122 then char_of (n - 32) else c)"

text \<open>\<open>s.find(\<backslash>, i)\<close>.\<close>

definition find_bslash :: "nat \<Rightarrow> string \<Rightarrow> nat option" where
  "find_bslash i s = (let k = length (takeWhile (\<lambda>c. c \<noteq> bslash) (drop i s)) in
     if i + k < length s then Some (i + k) else None)"

definition unc_prefix :: string where
  "unc_prefix = [bslash, bslash] @ ''?'' @ [bslash] @ ''UNC'' @ [bslash]"

definition splitroot :: "string \<Rightarrow> string \<times> string \<times> string" where
  "splitroot p = (let n = win_seps p in
     if take 1 n = [bslash] then
       if sub_str 1 1 n = [bslash] then
         (let start = (if List.map upper_char (take 8 n) = unc_prefix then 8 else 2) in
          case find_bslash start n of
            None \<Rightarrow> (p, '''', '''')
          | Some i \<Rightarrow> (case find_bslash (i + 1) n of
              None \<Rightarrow> (p, '''', '''')
            | Some j \<Rightarrow> (take j p, sub_str j 1 p, drop (j + 1) p)))
       else ('''', take 1 p, drop 1 p)
     else if sub_str 1 1 n = '':'' then
       if sub_str 2 1 n = [bslash] then (take 2 p, sub_str 2 1 p, drop 3 p) else (take 2 p, '''', drop 2 p)
     else ('''', '''', p))"

definition ends_in_sep :: "string \<Rightarrow> bool" where
  "ends_in_sep s \<longleftrightarrow> s \<noteq> [] \<and> (List.last s = bslash \<or> List.last s = slash)"

definition append_rel :: "string \<Rightarrow> string \<Rightarrow> string" where
  "append_rel r p = (if r \<noteq> [] \<and> \<not> ends_in_sep r then r @ [bslash] else r) @ p"

definition win_assemble :: "string \<times> string \<times> string \<Rightarrow> string" where
  "win_assemble = (\<lambda>(drv, rt, rel).
     if rel \<noteq> [] \<and> rt = [] \<and> drv \<noteq> [] \<and> \<not> (List.last drv = CHR '':'' \<or> ends_in_sep drv)
     then drv @ [bslash] @ rel else drv @ rt @ rel)"

definition win_join :: "string \<Rightarrow> string \<Rightarrow> string" where
  "win_join a b = (case (splitroot a, splitroot b) of ((ad, ar, ap), (bd, br, bp)) \<Rightarrow>
     win_assemble
      (if br \<noteq> [] then (if bd \<noteq> [] \<or> ad = [] then bd else ad, br, bp)
       else if bd \<noteq> [] \<and> bd \<noteq> ad then
         (if List.map lower_char bd \<noteq> List.map lower_char ad then (bd, br, bp) else (bd, ar, append_rel ap bp))
       else (ad, ar, append_rel ap bp)))"

type_synonym win_parts = "string \<times> string \<times> string list"

definition unc_root :: "string \<Rightarrow> bool" where
  "unc_root drv = (let ps = split_on bslash drv in
     take 1 drv = [bslash] \<and> \<not> ends_in_sep drv \<and>
     (length ps = 4 \<and> \<not> occurs_in (ps ! 2) ''?.'' \<or> length ps = 6))"

text \<open>The parser of \<open>PureWindowsPath\<close>.\<close>

definition win_parse :: "string \<Rightarrow> win_parts" where
  "win_parse p = (if p = [] then ('''', '''', []) else
     (case splitroot (win_seps p) of (drv, rt, rel) \<Rightarrow>
       (drv, if rt = [] \<and> unc_root drv then [bslash] else rt, filter real_part (split_on bslash rel))))"

definition drive_letter :: "string \<Rightarrow> bool" where
  "drive_letter s \<longleftrightarrow> (case s of
      [c, d] \<Rightarrow> d = CHR '':'' \<and> (let n = of_char c :: nat in (65 \<le> n \<and> n \<le> 90) \<or> (97 \<le> n \<and> n \<le> 122))
    | _ \<Rightarrow> False)"

text \<open>\<open>MyPureWindowsPath._parse_path\<close>.\<close>

definition my_parse :: "string \<Rightarrow> win_parts" where
  "my_parse p = (case win_parse p of (drv, rt, parts) \<Rightarrow>
     (case parts of
       [] \<Rightarrow> (drv, rt, parts)
     | h # t \<Rightarrow> if drv = [] \<and> rt = [bslash] \<and> drive_letter h then (h, rt, t) else (drv, rt, parts)))"

definition win_format :: "win_parts \<Rightarrow> string" where
  "win_format = (\<lambda>(drv, rt, parts).
     let s = (if drv \<noteq> [] \<or> rt \<noteq> [] then drv @ rt @ join [bslash] parts
              else if parts \<noteq> [] \<and> fst (splitroot (hd parts)) \<noteq> [] then join [bslash] (''.'' # parts)
              else join [bslash] parts) in
     if s = [] then ''.'' else s)"

definition my_str :: "string \<Rightarrow> string" where
  "my_str p = win_format (my_parse p)"

definition win_str :: "string \<Rightarrow> string" where
  "win_str p = win_format (win_parse p)"

text \<open>\<open>PurePath(p)\<close> of a Windows path on a POSIX controller.\<close>

definition posix_of_win :: "string \<Rightarrow> ppath" where
  "posix_of_win p = mk_path (List.map (\<lambda>c. if c = bslash then slash else c) p)"

section \<open>Commands\<close>

definition windows_quote :: "string \<Rightarrow> string" where
  "windows_quote s = [apostrophe] @ concat (map (\<lambda>c. if c = apostrophe then [apostrophe, apostrophe] else [c]) s) @ [apostrophe]"

definition windows_get_cpu_cores :: "(string \<Rightarrow> string) \<Rightarrow> int ssh" where
  "windows_get_cpu_cores quote = bindM (platform_run quote ''[environment]::ProcessorCount'' None False)
     (\<lambda>(rc, out). returnM (cores_of out))"

definition in_quotes :: "string \<Rightarrow> string" where
  "in_quotes s = [apostrophe] @ s @ [apostrophe]"

definition win_ps_command :: "string option \<Rightarrow> string" where
  "win_ps_command query = (let
     pipe = (case query of None \<Rightarrow> [] | Some q \<Rightarrow> if q = [] then [] else ''| ?{ '' @ q @ '' }'');
     obj = ''@'' @ ''{'' @ in_quotes ''pid'' @ '' = $_.ProcessId; '' @ in_quotes ''name'' @ '' = $_.Name; ''
           @ in_quotes ''command'' @ '' = $_.CommandLine}'' in
     ''Get-CimInstance Win32_Process '' @ pipe @ '' | '' @ ''%{ '' @ obj @ '' | ConvertTo-Json -compress }'')"

definition int_of_py :: "pyval \<Rightarrow> int" where
  "int_of_py v = (case v of PInt i \<Rightarrow> i | PBool b \<Rightarrow> (if b then 1 else 0) | _ \<Rightarrow> 0)"

definition str_val :: "pyval \<Rightarrow> string" where
  "str_val v = (case v of PStr s \<Rightarrow> s | _ \<Rightarrow> [])"

text \<open>One line of output; whatever goes wrong with it is logged and the line skipped: a key missing, a value
  that is no dictionary, keys the record does not have.\<close>

definition win_line :: "(string \<Rightarrow> pyval option) \<Rightarrow> string \<Rightarrow> proc_info option" where
  "win_line json line = (case json line of
      Some (PDict d) \<Rightarrow> (case (map_of d ''command'', map_of d ''name'', map_of d ''pid'') of
          (Some c, Some n, Some p) \<Rightarrow>
            (let c1 = (if py_true c then c else n) in
             if \<not> is_int p \<or> \<not> is_str n \<or> \<not> is_str c1 then None
             else if str_val n = ''powershell.exe'' \<and> occurs_in ''Get-CimInstance Win32_Process'' (str_val c1) then None
             else if list_all (\<lambda>(k, v). List.member [''pid'', ''name'', ''command''] k) d
               then Some \<lparr>pi_pid = int_of_py p, pi_name = str_val n, pi_command = str_val c1\<rparr>
             else None)
        | _ \<Rightarrow> None)
    | _ \<Rightarrow> None)"

definition windows_list_processes :: "(string \<Rightarrow> pyval option) \<Rightarrow> string option \<Rightarrow> proc_info list ssh" where
  "windows_list_processes json query = bindM (ssh_call (CreateProcess (win_ps_command query)))
     (\<lambda>(rc, out). returnM (List.map_filter (win_line json) (lines_of out)))"

definition win_where :: "(string \<Rightarrow> string) \<Rightarrow> string \<Rightarrow> bool \<Rightarrow> string" where
  "win_where quote pattern full = (let tail = [''-match'', quote pattern];
     name_expr = ''$_.Name'' # tail; cmd_expr = ''$_.CommandLine'' # tail in
     if full then join '' '' (name_expr @ ''-or'' # cmd_expr) else join '' '' name_expr)"

definition windows_pgrep :: "(string \<Rightarrow> pyval option) \<Rightarrow> (string \<Rightarrow> string) \<Rightarrow> string \<Rightarrow> bool \<Rightarrow> proc_info list ssh" where
  "windows_pgrep json quote pattern full = windows_list_processes json (Some (win_where quote pattern full))"

section \<open>Deploying engines\<close>

text \<open>\<open>asyncio.gather\<close> over the uploads: all of them are issued, then the first failure is raised.\<close>

definition win_deploy_local_files :: "string \<Rightarrow> string list \<Rightarrow> unit ssh" where
  "win_deploy_local_files dir files =
     bindM (mapM (\<lambda>f. attemptM (ssh_do (SftpPut [f] (win_str (win_join dir (path_name (mk_path f))))))) files) (\<lambda>rs.
     case List.map_filter (\<lambda>r. case r of Inl e \<Rightarrow> Some e | Inr _ \<Rightarrow> None) rs of
       [] \<Rightarrow> returnM ()
     | e # _ \<Rightarrow> raiseM e)"

definition continued :: "string list \<Rightarrow> string" where
  "continued = join ('' `'' @ [CHR 0x0A] @ replicate 12 CHR '' '')"

definition expand_archive :: "(string \<Rightarrow> string) \<Rightarrow> string \<Rightarrow> string \<Rightarrow> string" where
  "expand_archive quote archive dir =
     continued [''Expand-Archive '' @ quote archive, ''-DestinationPath '' @ quote dir, ''-Force'']"

definition win_deploy_local_archive :: "(string \<Rightarrow> string) \<Rightarrow> string \<Rightarrow> string \<Rightarrow> unit ssh" where
  "win_deploy_local_archive quote dir archive = (let rpath = win_str (win_join dir (path_name (mk_path archive))) in
     thenM (ssh_do (SftpPut [archive] (win_str dir)))
    (bindM (platform_run quote (expand_archive quote rpath (win_str dir)) None True) (\<lambda>_.
       ssh_do (SftpRemove rpath))))"

definition win_deploy_remote_archive :: "(string \<Rightarrow> string) \<Rightarrow> string \<Rightarrow> string \<Rightarrow> unit ssh" where
  "win_deploy_remote_archive quote dir url = (let rpath = win_str (win_join dir ''archive.zip'') in
     bindM (platform_run quote
       (continued [''Invoke-WebRequest -Uri '' @ quote url, ''-OutFile '' @ quote rpath @ '' -Force'']) None True) (\<lambda>_.
     bindM (platform_run quote (expand_archive quote rpath (win_str dir)) None True) (\<lambda>_.
       ssh_do (SftpRemove rpath))))"

fun win_deploy_one :: "(string \<Rightarrow> string) \<Rightarrow> string \<Rightarrow> deploy \<Rightarrow> unit ssh" where
  "win_deploy_one quote dir (LocalFilesDeploy files) = win_deploy_local_files dir files"
| "win_deploy_one quote dir (LocalArchiveDeploy archive) = win_deploy_local_archive quote dir archive"
| "win_deploy_one quote dir (RemoteArchiveDeploy url) = win_deploy_remote_archive quote dir url"

text \<open>The directory is what the server resolves, without its leading slash.\<close>

definition real_dir :: "finished \<Rightarrow> string" where
  "real_dir r = (case snd r of None \<Rightarrow> [] | Some s \<Rightarrow> drop 1 s)"

definition win_deploy_engine :: "(string \<Rightarrow> string) \<Rightarrow> string \<Rightarrow> engine \<Rightarrow> unit ssh" where
  "win_deploy_engine quote engines_dir e =
     bindM (ssh_call (SftpRealpath (my_str (win_join engines_dir (e_name e))))) (\<lambda>r. let dir = real_dir r in
     thenM (ssh_do (SftpMakedirs (path_str (posix_of_win dir))))
           (forM (e_deployable e) (win_deploy_one quote dir)))"

definition windows_deploy_engines :: "(string \<Rightarrow> string) \<Rightarrow> engine_repository \<Rightarrow> string \<Rightarrow> unit ssh" where
  "windows_deploy_engines quote engines engines_dir = forM (engines_values engines) (win_deploy_engine quote engines_dir)"

definition windows_setup_node :: "(string \<Rightarrow> string) \<Rightarrow> engine_repository \<Rightarrow> string \<Rightarrow> unit ssh" where
  "windows_setup_node quote engines engines_dir = ssh_with_sftp (windows_deploy_engines quote engines engines_dir)"

end
