(* ===== verification/Platform_Facts.thy ===== *)
theory Platform_Facts
  imports Windows
begin

text \<open>
  The facts on running commands: how often \<open>apt-get\<close> is tried, that quoting survives the shell's reading, that the
  process listing reads back the table \<open>ps\<close> prints.
\<close>

section \<open>The retry of apt-get\<close>

definition answer_at :: "(exn + finished) list \<Rightarrow> nat \<Rightarrow> exn + finished" where
  "answer_at as i = (if i < length as then as ! i else Inl (OSErr ''connection lost''))"

text \<open>What a command run with \<open>check=True\<close> makes of an answer.\<close>

definition checked :: "exn + finished \<Rightarrow> ssh_exn + unit" where
  "checked a = (case a of
      Inl e \<Rightarrow> Inl (SshRaised e)
    | Inr (Some c, out) \<Rightarrow> (if c \<noteq> 0 then Inl (ProcessFailed c) else Inr ())
    | Inr (None, out) \<Rightarrow> Inr ())"

definition transient_failure :: "exn + finished \<Rightarrow> bool" where
  "transient_failure a \<longleftrightarrow> checked a = Inl (ProcessFailed apt_transient)"

text \<open>\<open>n\<close> runs of the command from the \<open>k\<close>th attempt on, with the waits between them.\<close>

fun apt_trace :: "string \<Rightarrow> nat \<Rightarrow> nat \<Rightarrow> ssh_request list" where
  "apt_trace cmd k 0 = []"
| "apt_trace cmd k (Suc n) = Run cmd # (if n = 0 then [] else Wait (5 * int k) # apt_trace cmd (k + 1) n)"

lemma answer_at_Suc: "answer_at as (Suc i) = answer_at (tl as) i"
  by (cases as) (simp_all add: answer_at_def)

lemma run_checked:
  "\<exists>r. platform_run quote cmd None True w =
      (r, w\<lparr>sn_log := sn_log w @ [Run cmd], sn_answers := tl (sn_answers w)\<rparr>)
    \<and> checked (answer_at (sn_answers w) 0) = (case r of Inl x \<Rightarrow> Inl x | Inr _ \<Rightarrow> Inr ())"
  by (cases "sn_answers w")
    (auto simp: platform_run_def in_directory_def conn_run_def ssh_call_def bindM_def Let_def checked_def
      answer_at_def raiseM_def returnM_def split: sum.splits option.splits prod.splits)

lemma apt_loop_outcome:
  assumes "1 \<le> k" "k \<le> attempts"
  shows "\<exists>n w'. 1 \<le> n \<and> n \<le> attempts + 1 - k
    \<and> apt_loop quote cmd attempts k last_exc w = (checked (answer_at (sn_answers w) (n - 1)), w')
    \<and> sn_log w' = sn_log w @ apt_trace cmd k n \<and> sn_answers w' = drop n (sn_answers w)
    \<and> (\<forall>i < n - 1. transient_failure (answer_at (sn_answers w) i))
    \<and> (n < attempts + 1 - k \<longrightarrow> \<not> transient_failure (answer_at (sn_answers w) (n - 1)))"
  using assms
proof (induction "attempts - k" arbitrary: k last_exc w)
  case 0
  then have k: "k = attempts" by simp
  obtain r where r: "platform_run quote cmd None True w =
      (r, w\<lparr>sn_log := sn_log w @ [Run cmd], sn_answers := tl (sn_answers w)\<rparr>)"
    and c: "checked (answer_at (sn_answers w) 0) = (case r of Inl x \<Rightarrow> Inl x | Inr _ \<Rightarrow> Inr ())"
    using run_checked [of quote cmd w] by blast
  show ?case
    by (intro exI [of _ 1] exI [of _ "w\<lparr>sn_log := sn_log w @ [Run cmd], sn_answers := tl (sn_answers w)\<rparr>"])
      (simp add: k apt_loop.simps [of _ _ _ attempts] apt_loop.simps [of _ _ _ "Suc attempts"] bindM_def thenM_def
        attemptM_def whenM_def skipM_def r c raiseM_def returnM_def drop_Suc split: sum.split ssh_exn.split)
next
  case (Suc m)
  let ?w = "w\<lparr>sn_log := sn_log w @ [Run cmd], sn_answers := tl (sn_answers w)\<rparr>"
  obtain r where r: "platform_run quote cmd None True w = (r, ?w)"
    and c: "checked (answer_at (sn_answers w) 0) = (case r of Inl x \<Rightarrow> Inl x | Inr _ \<Rightarrow> Inr ())"
    using run_checked [of quote cmd w] by blast
  show ?case
  proof (cases "r = Inl (ProcessFailed apt_transient)")
    case False
    then show ?thesis
      using Suc.hyps(2) Suc.prems
      by (intro exI [of _ 1] exI [of _ ?w])
        (auto simp: apt_loop.simps [of _ _ _ k] bindM_def thenM_def attemptM_def r c raiseM_def returnM_def drop_Suc
          transient_failure_def split: sum.split ssh_exn.split)
  next
    case True
    let ?v = "?w\<lparr>sn_log := sn_log w @ [Run cmd, Wait (5 * int k)]\<rparr>"
    have "1 \<le> Suc k" "Suc k \<le> attempts" "m = attempts - Suc k" using Suc.hyps(2) Suc.prems by auto
    from Suc.hyps(1) [OF this(3,1,2), of "Some apt_transient" ?v]
    obtain n w' where n: "1 \<le> n" "n \<le> attempts + 1 - Suc k"
      "apt_loop quote cmd attempts (Suc k) (Some apt_transient) ?v = (checked (answer_at (tl (sn_answers w)) (n - 1)), w')"
      "sn_log w' = sn_log w @ [Run cmd, Wait (5 * int k)] @ apt_trace cmd (Suc k) n"
      "sn_answers w' = drop n (tl (sn_answers w))"
      "\<forall>i < n - 1. transient_failure (answer_at (tl (sn_answers w)) i)"
      "n < attempts + 1 - Suc k \<longrightarrow> \<not> transient_failure (answer_at (tl (sn_answers w)) (n - 1))"
      by auto
    have less: "k < attempts" using Suc.hyps(2) by simp
    have step: "apt_loop quote cmd attempts k last_exc w = apt_loop quote cmd attempts (Suc k) (Some apt_transient) ?v"
      using less by (simp add: apt_loop.simps [of _ _ _ k] bindM_def thenM_def attemptM_def r True whenM_def ssh_sleep_def modifyM_def)
    have at: "answer_at (sn_answers w) n = answer_at (tl (sn_answers w)) (n - 1)"
      using n(1) answer_at_Suc [of "sn_answers w" "n - 1"] by simp
    have pre: "transient_failure (answer_at (sn_answers w) i)" if "i < n" for i
      using that n(6) c True by (cases i) (auto simp: transient_failure_def answer_at_Suc)
    show ?thesis
      using n Suc.hyps(2) Suc.prems pre
      by (intro exI [of _ "Suc n"] exI [of _ w']) (auto simp: step at drop_Suc)
  qed
qed

text \<open>The waits add up to five seconds times the attempts so far.\<close>

definition waited :: "ssh_request list \<Rightarrow> int" where
  "waited cs = sum_list (map (\<lambda>c. case c of Wait d \<Rightarrow> d | _ \<Rightarrow> 0) cs)"

lemma waited_simps [simp]: "waited [] = 0" "waited (Run cmd # cs) = waited cs" "waited (Wait d # cs) = d + waited cs"
  by (simp_all add: waited_def)

lemma waited_apt: "2 * waited (apt_trace cmd k (Suc n)) = 5 * int n * (2 * int k + int n - 1)"
proof (induction n arbitrary: k)
  case (Suc n)
  have "waited (apt_trace cmd k (Suc (Suc n))) = 5 * int k + waited (apt_trace cmd (Suc k) (Suc n))"
    by simp
  then show ?case
    using Suc.IH [of "Suc k"] by (simp only: distrib_left) (simp add: algebra_simps)
qed simp

section \<open>Quoting\<close>

text \<open>How a POSIX shell reads one word: quotes and safe characters; anything else ends it.\<close>

datatype sh_mode = Plain | Single | Double

fun sh_word :: "sh_mode \<Rightarrow> string \<Rightarrow> (string \<times> string) option" where
  "sh_word Plain [] = Some ([], [])"
| "sh_word Plain (c # cs) =
     (if c = apostrophe then sh_word Single cs
      else if c = CHR 0x22 then sh_word Double cs
      else if shell_safe c then map_option (\<lambda>(w, r). (c # w, r)) (sh_word Plain cs)
      else Some ([], c # cs))"
| "sh_word Single [] = None"
| "sh_word Single (c # cs) =
     (if c = apostrophe then sh_word Plain cs else map_option (\<lambda>(w, r). (c # w, r)) (sh_word Single cs))"
| "sh_word Double [] = None"
| "sh_word Double (c # cs) =
     (if c = CHR 0x22 then sh_word Plain cs
      else if List.member ''$`'' c \<or> c = bslash then None
      else map_option (\<lambda>(w, r). (c # w, r)) (sh_word Double cs))"

definition word_ends :: "string \<Rightarrow> bool" where
  "word_ends r \<longleftrightarrow> (case r of [] \<Rightarrow> True | c # _ \<Rightarrow> \<not> shell_safe c \<and> c \<noteq> apostrophe \<and> c \<noteq> CHR 0x22)"

lemma quotes_unsafe: "\<not> shell_safe apostrophe" "\<not> shell_safe CHR 0x22" "apostrophe \<noteq> CHR 0x22"
  by (simp_all add: shell_safe_def apostrophe_def)

lemma quote_chars [simp]:
  "apostrophe \<noteq> CHR ''$''" "apostrophe \<noteq> CHR 0x60" "apostrophe \<noteq> bslash" "apostrophe \<noteq> CHR 0x22" "CHR 0x22 \<noteq> apostrophe"
  by (simp_all add: apostrophe_def bslash_def)

lemma sh_word_end: "word_ends r \<Longrightarrow> sh_word Plain r = Some ([], r)"
  by (cases r) (auto simp: word_ends_def)

lemma sh_word_safe: "list_all shell_safe s \<Longrightarrow> word_ends r \<Longrightarrow> sh_word Plain (s @ r) = Some (s, r)"
  by (induction s) (auto simp: sh_word_end quotes_unsafe)

lemma sh_word_escaped:
  "word_ends r \<Longrightarrow> sh_word Single (concat (map escape_char s) @ apostrophe # r) = Some (s, r)"
  by (induction s) (auto simp: sh_word_end escape_char_def)

lemma shlex_quote_read: "word_ends r \<Longrightarrow> sh_word Plain (shlex_quote s @ r) = Some (s, r)"
  by (simp add: shlex_quote_def sh_word_safe sh_word_escaped sh_word_end)

text \<open>How PowerShell reads a single-in_quotes string.\<close>

fun pwsh_body :: "string \<Rightarrow> (string \<times> string) option" where
  "pwsh_body [] = None"
| "pwsh_body (c # cs) =
     (if c = apostrophe then (case cs of
          d # ds \<Rightarrow> if d = apostrophe then map_option (\<lambda>(w, r). (c # w, r)) (pwsh_body ds) else Some ([], cs)
        | [] \<Rightarrow> Some ([], cs))
      else map_option (\<lambda>(w, r). (c # w, r)) (pwsh_body cs))"

definition pwsh_string :: "string \<Rightarrow> (string \<times> string) option" where
  "pwsh_string s = (case s of c # cs \<Rightarrow> if c = apostrophe then pwsh_body cs else None | [] \<Rightarrow> None)"

definition string_ends :: "string \<Rightarrow> bool" where
  "string_ends r \<longleftrightarrow> (case r of [] \<Rightarrow> True | c # _ \<Rightarrow> c \<noteq> apostrophe)"

lemma windows_quote_read: "string_ends r \<Longrightarrow> pwsh_string (windows_quote s @ r) = Some (s, r)"
proof -
  assume r: "string_ends r"
  have "pwsh_body (concat (map (\<lambda>c. if c = apostrophe then [apostrophe, apostrophe] else [c]) s) @ apostrophe # r) = Some (s, r)"
    using r by (induction s) (auto simp: string_ends_def split: list.splits)
  then show ?thesis by (simp add: pwsh_string_def windows_quote_def)
qed

section \<open>The process listing\<close>

definition blank :: char where
  "blank = CHR '' ''"

definition wide :: string where
  "wide = replicate 10 blank"

text \<open>A field of the table: it neither starts nor ends with white space, and has no wide gap and no line end in it.\<close>

definition field_ok :: "string \<Rightarrow> bool" where
  "field_ok s \<longleftrightarrow> s \<noteq> [] \<and> \<not> is_space (hd s) \<and> \<not> is_space (List.last s) \<and> \<not> occurs_in wide s \<and> CHR 0x0A \<notin> set s"

definition gap :: "nat \<Rightarrow> string" where
  "gap n = replicate n blank"

lemma blank_space [simp]: "is_space blank"
  by (simp add: blank_def is_space_def)

lemma strip_ends: "s \<noteq> [] \<Longrightarrow> \<not> is_space (hd s) \<Longrightarrow> \<not> is_space (List.last s) \<Longrightarrow> strip s = s"
proof -
  assume a: "s \<noteq> []" "\<not> is_space (hd s)" "\<not> is_space (List.last s)"
  have "dropWhile is_space s = s" using a by (simp add: dropWhile_eq_self_iff)
  moreover have "dropWhile is_space (rev s) = rev s" using a by (simp add: dropWhile_eq_self_iff hd_rev)
  ultimately show "strip s = s" by (simp add: strip_def)
qed

lemma strip_gap: "strip (gap n @ s) = strip s"
proof -
  have "dropWhile is_space (gap n @ s) = dropWhile is_space s"
    by (rule dropWhile_append2) (simp add: gap_def)
  then show ?thesis by (simp add: strip_def)
qed

lemma contains_suffix: "occurs_in p t \<Longrightarrow> occurs_in p (s @ t)"
  by (induction s) auto

lemma starts_contains: "starts_with p s \<Longrightarrow> occurs_in p s"
  by (cases s) (auto simp: starts_with_def)

lemma split_str_none: "\<not> occurs_in sep x \<Longrightarrow> split_str sep acc x = [rev acc @ x]"
proof (induction x arbitrary: acc)
  case (Cons c cs)
  then show ?case by (simp add: split_str.simps [of _ _ "c # cs"])
qed (simp add: split_str.simps)

lemma split_str_sep: "sep \<noteq> [] \<Longrightarrow> split_str sep acc (sep @ t) = rev acc # split_str sep [] t"
  by (subst split_str.simps) (auto simp: neq_Nil_conv starts_with_def)

lemma not_wide_inside:
  assumes "x \<noteq> []" "\<not> is_space (List.last x)" "\<not> occurs_in wide x"
  shows "\<not> starts_with wide (x @ t)"
proof
  assume s: "starts_with wide (x @ t)"
  show False
  proof (cases "10 \<le> length x")
    case True
    then show False using s assms starts_contains [of wide x] by (simp add: starts_with_def wide_def)
  next
    case False
    then have "x @ take (10 - length x) t = replicate 10 blank"
      using s by (simp add: starts_with_def wide_def)
    then have "set x \<subseteq> {blank}" by (metis Un_subset_iff set_append set_replicate_conv_if subset_singleton_iff)
    then have "List.last x = blank" using assms(1) last_in_set by blast
    then show False using assms(2) by simp
  qed
qed

lemma split_str_field:
  assumes "x \<noteq> []" "\<not> is_space (List.last x)" "\<not> occurs_in wide x" "10 \<le> k"
  shows "split_str wide acc (x @ gap k @ t) = (rev acc @ x) # split_str wide [] (gap (k - 10) @ t)"
  using assms
proof (induction x arbitrary: acc)
  case (Cons c cs)
  have ns: "\<not> starts_with wide (c # cs @ gap k @ t)"
    using not_wide_inside [OF Cons.prems(1-3), of "gap k @ t"] by simp
  show ?case
  proof (cases "cs = []")
    case False
    then show ?thesis using Cons ns by (simp add: split_str.simps [of _ _ "c # _"])
  next
    case True
    have g: "gap k = wide @ gap (k - 10)"
      using Cons.prems(4) by (simp add: gap_def wide_def flip: replicate_add)
    have "split_str wide (c # acc) (gap k @ t) = rev (c # acc) # split_str wide [] (gap (k - 10) @ t)"
      using split_str_sep [of wide "c # acc" "gap (k - 10) @ t"] g by (simp add: wide_def)
    then show ?thesis using True ns by (simp add: split_str.simps [of _ _ "c # _"])
  qed
qed simp

lemma no_wide_gap:
  assumes "x \<noteq> []" "\<not> is_space (hd x)" "\<not> occurs_in wide x" "n < 10"
  shows "\<not> occurs_in wide (gap n @ x)"
  using assms(4)
proof (induction n)
  case (Suc n)
  have "\<not> starts_with wide (gap (Suc n) @ x)"
  proof
    assume "starts_with wide (gap (Suc n) @ x)"
    then have "(gap (Suc n) @ x) ! Suc n = wide ! Suc n"
      using Suc.prems by (metis starts_with_def nth_take length_replicate wide_def)
    then have "x ! 0 = blank" using Suc.prems by (simp add: gap_def wide_def nth_append)
    then show False using assms(1,2) by (simp add: hd_conv_nth)
  qed
  then show ?case using Suc by (simp add: gap_def)
qed (simp add: gap_def assms(3))

text \<open>After a gap, the pieces are those of the rest, behind what is left of the gap.\<close>

lemma split_str_gap:
  assumes "\<not> is_space (hd t)" "t \<noteq> []"
  shows "filter (\<lambda>p. p \<noteq> []) (split_str wide [] (gap n @ t))
       = filter (\<lambda>p. p \<noteq> []) (split_str wide [] (gap (n mod 10) @ t))"
proof (induction n rule: less_induct)
  case (less n)
  show ?case
  proof (cases "n < 10")
    case False
    then have g: "gap n = wide @ gap (n - 10)" by (simp add: gap_def wide_def flip: replicate_add)
    have "split_str wide [] (gap n @ t) = [] # split_str wide [] (gap (n - 10) @ t)"
      using split_str_sep [of wide "[]" "gap (n - 10) @ t"] g by (simp add: wide_def)
    then show ?thesis using less.IH [of "n - 10"] False by (simp add: le_mod_geq)
  qed simp
qed

lemma field_strip: "field_ok s \<Longrightarrow> strip (gap n @ s) = s" "field_ok s \<Longrightarrow> strip s = s"
  by (simp_all add: field_ok_def strip_gap strip_ends)

lemma ps_parts_row:
  assumes "field_ok p" "field_ok c" "field_ok a" "10 \<le> i" "10 \<le> j"
  shows "ps_parts (p @ gap i @ c @ gap j @ a) = [p, c, a]"
proof -
  have hd: "hd (c @ gap j @ a) = hd c" using assms by (simp add: field_ok_def)
  have c: "filter (\<lambda>p. p \<noteq> []) (split_str wide [] (gap k @ a)) = [gap (k mod 10) @ a]" for k
    using assms(3) split_str_gap [of a k] split_str_none [OF no_wide_gap [of a "k mod 10"], of "[]"]
    by (simp add: field_ok_def)
  have "filter (\<lambda>p. p \<noteq> []) (split_str wide [] (gap k @ c @ gap j @ a))
      = [gap (k mod 10) @ c, gap ((j - 10) mod 10) @ a]" for k
    using assms hd split_str_gap [of "c @ gap j @ a" k] no_wide_gap [of c "k mod 10"]
      split_str_field [of "gap (k mod 10) @ c" j "[]" a] c
    by (simp add: field_ok_def)
  then show ?thesis
    using assms split_str_field [of p i "[]" "c @ gap j @ a"]
    by (simp add: ps_parts_def field_ok_def flip: wide_def blank_def) (simp add: field_strip field_ok_def)
qed

text \<open>One row of the table, with the widths of its three gaps.\<close>

type_synonym ps_row = "proc_info \<times> nat \<times> nat \<times> nat"

definition row_ok :: "ps_row \<Rightarrow> bool" where
  "row_ok r \<longleftrightarrow> (case r of (p, i, j, k) \<Rightarrow>
     0 \<le> pi_pid p \<and> field_ok (pi_name p) \<and> field_ok (pi_command p) \<and> 10 \<le> j \<and> 10 \<le> k)"

definition show_row :: "ps_row \<Rightarrow> string" where
  "show_row r = (case r of (p, i, j, k) \<Rightarrow> gap i @ show_int (pi_pid p) @ gap j @ pi_name p @ gap k @ pi_command p)"

definition ps_table :: "string \<Rightarrow> ps_row list \<Rightarrow> string" where
  "ps_table header rows = header @ [CHR 0x0A] @ concat (map (\<lambda>r. show_row r @ [CHR 0x0A]) rows)"

lemma pid_field: "0 \<le> n \<Longrightarrow> field_ok (show_int n)"
proof -
  assume n: "0 \<le> n"
  have ne: "show_int n \<noteq> []" using n by (simp add: show_int_def)
  have "occurs_in wide s \<Longrightarrow> blank \<in> set s" for s
  proof (induction s)
    case (Cons c s)
    then show ?case
      by (auto simp: starts_with_def wide_def numeral_eq_Suc)
  qed (simp add: wide_def)
  then have "\<not> occurs_in wide (show_int n)"
    using show_int_no [OF n, of blank] by (auto simp: blank_def is_digit_def)
  moreover have "CHR 0x0A \<notin> set (show_int n)"
    using show_int_no [OF n, of "CHR 0x0A"] by (simp add: is_digit_def)
  ultimately show ?thesis
    using ne show_pos_chars [OF n hd_in_set [OF ne]] show_pos_chars [OF n last_in_set [OF ne]] digit_not_space
    by (simp add: field_ok_def)
qed

lemma ps_line_row:
  assumes "row_ok (p, i, j, k)"
  shows "ps_line cmd (show_row (p, i, j, k)) = (if occurs_in cmd (pi_command p) then None else Some (Inr p))"
proof -
  let ?r = "show_int (pi_pid p) @ gap j @ pi_name p @ gap k @ pi_command p"
  have f: "field_ok (show_int (pi_pid p))" "field_ok (pi_name p)" "field_ok (pi_command p)"
    using assms pid_field by (auto simp: row_ok_def)
  have s: "strip (show_row (p, i, j, k)) = ?r"
    using f by (simp add: show_row_def strip_gap) (rule strip_ends, auto simp: field_ok_def)
  have "ps_parts ?r = [show_int (pi_pid p), pi_name p, pi_command p]"
    using f assms by (intro ps_parts_row) (auto simp: row_ok_def)
  moreover have "show_int (pi_pid p) \<noteq> []" using f by (simp add: field_ok_def)
  ultimately show ?thesis
    using assms py_int_show_pos [of "pi_pid p"] by (simp add: ps_line_def Let_def s row_ok_def)
qed

lemma row_one_line: "row_ok r \<Longrightarrow> CHR 0x0A \<notin> set (show_row r)"
  using pid_field by (cases r) (auto simp: row_ok_def show_row_def field_ok_def gap_def blank_def)

lemma rows_lines:
  "list_all row_ok rows \<Longrightarrow>
     split_on (CHR 0x0A) (concat (map (\<lambda>r. show_row r @ [CHR 0x0A]) rows)) = map show_row rows @ [[]]"
  by (induction rows) (simp_all add: split_on_append_sep row_one_line)

lemma ps_yield_rows:
  "list_all row_ok rows \<Longrightarrow> ps_yield cmd (map show_row rows @ [[]])
     = (filter (\<lambda>p. \<not> occurs_in cmd (pi_command p)) (map fst rows), None)"
proof (induction rows)
  case Nil
  show ?case by (simp add: ps_line_def strip_def)
next
  case (Cons r rows)
  then show ?case by (cases r) (simp add: ps_line_row)
qed

lemma ps_table_read:
  "CHR 0x0A \<notin> set header \<Longrightarrow> list_all row_ok rows \<Longrightarrow>
     ps_yield cmd (drop 1 (lines_of (Some (ps_table header rows))))
       = (filter (\<lambda>p. \<not> occurs_in cmd (pi_command p)) (map fst rows), None)"
  by (simp add: lines_of_def ps_table_def split_on_append_sep rows_lines ps_yield_rows)


section \<open>The set-up of a Debian node\<close>

lemma apt_succeeds:
  assumes "sn_answers w = Inr (Some 0, out) # as"
  shows "run_apt_with_retry quote cmd w = (Inr (), w\<lparr>sn_log := sn_log w @ [Run cmd], sn_answers := as\<rparr>)"
  using assms
  by (simp add: run_apt_with_retry_def apt_loop.simps [of _ _ 3 "Suc 0"] bindM_def attemptM_def platform_run_def in_directory_def
      conn_run_def ssh_call_def Let_def returnM_def)

text \<open>The look at the version of MPI, which is only logged, decides over the set-up: where \<open>mpirun\<close> answers an
  error, as OpenMPI's option makes every other implementation do, no engine is deployed.\<close>

lemma mpi_version_aborts:
  assumes "sn_answers w = [Inr (Some 0, o1), Inr (Some 0, o2), Inr (Some 0, o3), Inr (Some e, o4)] @ as" "e \<noteq> 0"
    and "pkg \<in> set (get_platform_packages engines)" "occurs_in ''mpi'' pkg" "sn_username w = Some ''root''"
  shows "(let (r, w') = linux_setup_deb_node quote engines dir w; apt = ''apt-get -o DPkg::Lock::Timeout=600 -y'' in
     r = Inl (ProcessFailed e)
   \<and> sn_log w' = sn_log w @ [Run (apt @ '' update''), Run (apt @ '' upgrade''),
        Run (apt @ '' install '' @ join '' '' (get_platform_packages engines)), Run ''mpirun --allow-run-as-root -V''])"
proof -
  have p: "get_platform_packages engines \<noteq> []" "list_ex (occurs_in ''mpi'') (get_platform_packages engines)"
    using assms(3,4) by (auto simp: list_ex_iff)
  show ?thesis
    using assms(1,2,5) p
    by (simp add: linux_setup_deb_node_def bindM_def [of "getsM _"] getsM_def thenM_def bindM_def apt_succeeds whenM_def
        log_mpi_version_def platform_run_def in_directory_def conn_run_def ssh_call_def Let_def raiseM_def)
qed

end
