(* ===== verification/Detection.thy ===== *)
theory Detection
  imports Platform Windows
begin

text \<open>
  The detection of a machine's platform (\<open>infra/ssh/platform/checks.py\<close>, \<open>detect.py\<close>) and the adapters it
  chooses from (\<open>adapters.py\<close>, \<open>registry.py\<close>), most specific first.
\<close>

section \<open>Checks\<close>

text \<open>The checks remember their answer for the connection; an exception is not remembered.\<close>

definition memo :: "(ssh_conn \<Rightarrow> 'a option) \<Rightarrow> ('a \<Rightarrow> ssh_conn \<Rightarrow> ssh_conn) \<Rightarrow> 'a ssh \<Rightarrow> 'a ssh" where
  "memo get put m w = (case get w of
      Some a \<Rightarrow> (Inr a, w)
    | None \<Rightarrow> bindM m (\<lambda>a. thenM (modifyM (put a)) (returnM a)) w)"

definition printed :: "string \<Rightarrow> finished \<Rightarrow> bool" where
  "printed name = (\<lambda>(rc, out). rc = Some 0 \<and> (case out of None \<Rightarrow> False | Some s \<Rightarrow> strip s = name))"

definition check_is_linux :: "bool ssh" where
  "check_is_linux = memo sn_is_linux (\<lambda>b w. w\<lparr>sn_is_linux := Some b\<rparr>)
     (bindM (conn_run False ''uname'') (\<lambda>r. returnM (printed ''Linux'' r)))"

definition check_is_darwin :: "bool ssh" where
  "check_is_darwin = memo sn_is_darwin (\<lambda>b w. w\<lparr>sn_is_darwin := Some b\<rparr>)
     (bindM (conn_run False ''uname'') (\<lambda>r. returnM (printed ''Darwin'' r)))"

text \<open>\<open>s.split(sep, maxsplit=n)\<close>: the pieces after the \<open>n\<close>th separator stay together.\<close>

definition split_str_max :: "nat \<Rightarrow> string \<Rightarrow> string \<Rightarrow> string list" where
  "split_str_max n sep s = (let ps = split_str sep [] s in
     if length ps \<le> n + 1 then ps else take n ps @ [join sep (drop n ps)])"

definition os_release_of :: "finished \<Rightarrow> string list option" where
  "os_release_of = (\<lambda>(rc, out). case out of
      None \<Rightarrow> None
    | Some s \<Rightarrow> if rc \<noteq> Some 0 \<or> s = [] then None else Some (map strip (split_str_max 2 ''@@@'' s)))"

definition get_os_release :: "string list option ssh" where
  "get_os_release = memo sn_os_release (\<lambda>r w. w\<lparr>sn_os_release := Some r\<rparr>)
     (bindM (conn_run False (''sh -c '' @ [apostrophe] @ ''source /etc/os-release; echo $ID@@@$ID_LIKE'' @ [apostrophe]))
       (\<lambda>r. returnM (os_release_of r)))"

definition is_debian_like :: "string list option \<Rightarrow> bool" where
  "is_debian_like r = (case r of None \<Rightarrow> False | Some ps \<Rightarrow> List.member (take 2 ps) ''debian'')"

definition is_debian :: "string list option \<Rightarrow> bool" where
  "is_debian r = (case r of None \<Rightarrow> False | Some [] \<Rightarrow> False | Some (i # _) \<Rightarrow> i = ''debian'')"

definition check_is_debian_like :: "bool ssh" where
  "check_is_debian_like = bindM get_os_release (\<lambda>r. returnM (is_debian_like r))"

definition check_is_debian :: "bool ssh" where
  "check_is_debian = bindM get_os_release (\<lambda>r. returnM (is_debian r))"

definition check_is_windows :: "bool ssh" where
  "check_is_windows = memo sn_is_windows (\<lambda>b w. w\<lparr>sn_is_windows := Some b\<rparr>)
     (bindM (conn_run False ''[environment]::OSVersion'') (\<lambda>(rc, out). returnM (rc = Some 0)))"

section \<open>Adapters\<close>

datatype path_class = PosixPaths | WindowsPaths

text \<open>\<open>path(p)\<close> and back: the text of a path of the class.\<close>

fun class_str :: "path_class \<Rightarrow> string \<Rightarrow> string" where
  "class_str PosixPaths p = path_str (mk_path p)"
| "class_str WindowsPaths p = my_str p"

record machine_adapter =
  ma_platform :: string
  ma_path :: path_class
  ma_quote :: "string \<Rightarrow> string"
  ma_get_cpu_cores :: "(string \<Rightarrow> string) \<Rightarrow> int ssh"
  ma_list_processes :: "string option \<Rightarrow> (proc_info list \<times> exn option) ssh"
  ma_pgrep :: "(string \<Rightarrow> string) \<Rightarrow> string \<Rightarrow> bool \<Rightarrow> (proc_info list \<times> exn option) ssh"
  ma_setup_node :: "(string \<Rightarrow> string) \<Rightarrow> engine_repository \<Rightarrow> string \<Rightarrow> unit ssh"
  ma_checks :: "bool ssh list"

definition linux_adapter :: machine_adapter where
  "linux_adapter = \<lparr>ma_platform = ''linux'', ma_path = PosixPaths, ma_quote = shlex_quote,
     ma_get_cpu_cores = linux_get_cpu_cores, ma_list_processes = linux_list_processes, ma_pgrep = linux_pgrep,
     ma_setup_node = (\<lambda>q es d. linux_setup_node q es (mk_path d)), ma_checks = [check_is_linux]\<rparr>"

definition debian_like_adapter :: machine_adapter where
  "debian_like_adapter = linux_adapter\<lparr>ma_platform := ''debian-like'',
     ma_setup_node := (\<lambda>q es d. linux_setup_deb_node q es (mk_path d)),
     ma_checks := ma_checks linux_adapter @ [check_is_debian_like]\<rparr>"

definition debian_adapter :: machine_adapter where
  "debian_adapter = debian_like_adapter\<lparr>ma_platform := ''debian'', ma_checks := ma_checks debian_like_adapter @ [check_is_debian]\<rparr>"

definition darwin_adapter :: machine_adapter where
  "darwin_adapter = linux_adapter\<lparr>ma_platform := ''darwin'', ma_checks := [check_is_darwin]\<rparr>"

definition all_yielded :: "proc_info list ssh \<Rightarrow> (proc_info list \<times> exn option) ssh" where
  "all_yielded m = bindM m (\<lambda>ps. returnM (ps, None))"

definition windows_adapter :: "(string \<Rightarrow> pyval option) \<Rightarrow> machine_adapter" where
  "windows_adapter json = \<lparr>ma_platform = ''windows'', ma_path = WindowsPaths, ma_quote = windows_quote,
     ma_get_cpu_cores = windows_get_cpu_cores,
     ma_list_processes = (\<lambda>query. all_yielded (windows_list_processes json query)),
     ma_pgrep = (\<lambda>q pattern full. all_yielded (windows_pgrep json q pattern full)),
     ma_setup_node = windows_setup_node, ma_checks = [check_is_windows]\<rparr>"

definition ADAPTERS :: "(string \<Rightarrow> pyval option) \<Rightarrow> machine_adapter list" where
  "ADAPTERS json = [debian_adapter, debian_like_adapter, linux_adapter, darwin_adapter, windows_adapter json]"

text \<open>What the session does with the adapter it was given: \<open>make_run_fn\<close>.\<close>

definition run_fn :: "machine_adapter \<Rightarrow> string \<Rightarrow> string option \<Rightarrow> bool \<Rightarrow> finished ssh" where
  "run_fn a command cwd check = platform_run (ma_quote a) command cwd check"

section \<open>Detection\<close>

text \<open>\<open>all\<close> over the checks stops at the first that fails.\<close>

fun all_checks :: "bool ssh list \<Rightarrow> bool ssh" where
  "all_checks [] = returnM True"
| "all_checks (c # cs) = bindM c (\<lambda>b. if b then all_checks cs else returnM False)"

definition detect_platform :: "machine_adapter list \<Rightarrow> (machine_adapter \<times> string list) ssh" where
  "detect_platform adapters = bindM (mapM (\<lambda>a. all_checks (ma_checks a)) adapters) (\<lambda>checks.
     let matched = map fst (filter snd (zip adapters checks)) in
     case matched of
       [] \<Rightarrow> raiseM PlatformGuessFailed
     | a # _ \<Rightarrow> returnM (a, map ma_platform matched))"

end
