(* ===== verification/Detection_Facts.thy ===== *)
theory Detection_Facts
  imports Detection
begin

text \<open>
  The facts on the detection of a platform.  What a check has learned of a machine stays: the locale states this
  contract between the checks and the detection, and each check of the code is interpreted in it.
\<close>

section \<open>What a connection knows\<close>

definition unknown :: "'a option \<Rightarrow> nat" where
  "unknown x = (if x = None then 1 else 0)"

definition unknowns :: "ssh_conn \<Rightarrow> nat" where
  "unknowns w = unknown (sn_is_linux w) + unknown (sn_is_darwin w) + unknown (sn_is_windows w) + unknown (sn_os_release w)"

definition runs :: "ssh_conn \<Rightarrow> nat" where
  "runs w = length (sn_log w)"

definition kept :: "'a option \<Rightarrow> 'a option \<Rightarrow> bool" where
  "kept x y \<longleftrightarrow> x = None \<or> y = x"

definition learned :: "ssh_conn \<Rightarrow> ssh_conn \<Rightarrow> bool" where
  "learned w w' \<longleftrightarrow> kept (sn_is_linux w) (sn_is_linux w') \<and> kept (sn_is_darwin w) (sn_is_darwin w')
     \<and> kept (sn_is_windows w) (sn_is_windows w') \<and> kept (sn_os_release w) (sn_os_release w')"

lemma learned_refl [simp]: "learned w w"
  by (simp add: learned_def kept_def)

lemma learned_trans: "learned u v \<Longrightarrow> learned v w \<Longrightarrow> learned u w"
  by (auto simp: learned_def kept_def)

text \<open>A command is paid for by an answer that is remembered, but for the last one of a computation that fails.\<close>

definition frugal :: "'a ssh \<Rightarrow> bool" where
  "frugal m \<longleftrightarrow> (\<forall>w. case m w of
      (Inr a, w') \<Rightarrow> runs w' + unknowns w' \<le> runs w + unknowns w
    | (Inl x, w') \<Rightarrow> runs w' \<le> runs w + unknowns w)"

lemma frugal_return: "frugal (returnM a)"
  by (simp add: frugal_def returnM_def)

lemma frugal_bind:
  assumes "frugal m" "\<And>a. frugal (f a)"
  shows "frugal (bindM m f)"
  unfolding frugal_def
proof
  fix w
  show "case bindM m f w of (Inr a, w') \<Rightarrow> runs w' + unknowns w' \<le> runs w + unknowns w
      | (Inl x, w') \<Rightarrow> runs w' \<le> runs w + unknowns w"
  proof (cases "m w")
    case (Pair r v)
    show ?thesis
    proof (cases r)
      case (Inl x)
      then show ?thesis using assms(1) Pair unfolding frugal_def by (auto simp: bindM_def dest: spec [of _ w])
    next
      case (Inr a)
      have "runs v + unknowns v \<le> runs w + unknowns w" using assms(1) Pair Inr unfolding frugal_def by (auto dest: spec [of _ w])
      moreover have "case f a v of (Inr b, w') \<Rightarrow> runs w' + unknowns w' \<le> runs v + unknowns v
          | (Inl x, w') \<Rightarrow> runs w' \<le> runs v + unknowns v"
        using assms(2) [of a] unfolding frugal_def by (rule spec)
      ultimately show ?thesis
        using Pair Inr by (auto simp: bindM_def split: prod.splits sum.splits)
    qed
  qed
qed

lemma frugalD: "frugal m \<Longrightarrow> m w = (r, w') \<Longrightarrow> runs w' \<le> runs w + unknowns w"
  unfolding frugal_def by (drule spec [of _ w], cases r) auto

lemma frugal_mapM: "(\<And>x. x \<in> set xs \<Longrightarrow> frugal (f x)) \<Longrightarrow> frugal (mapM f xs)"
  by (induction xs) (auto intro!: frugal_return frugal_bind)

section \<open>The contract of a check\<close>

locale remembered_check =
  fixes fact :: "ssh_conn \<Rightarrow> bool option" and check :: "bool ssh"
  assumes records: "check w = (Inr b, w') \<Longrightarrow> fact w' = Some b"
    and hit: "fact w = Some b \<Longrightarrow> check w = (Inr b, w)"
    and learns: "check w = (r, w') \<Longrightarrow> learned w w'"
    and stable: "learned w w' \<Longrightarrow> fact w = Some b \<Longrightarrow> fact w' = Some b"
    and raises: "check w = (Inl x, w') \<Longrightarrow> \<exists>e. x = SshRaised e"
    and pays: "frugal check"
begin

lemma settled: "check w = (Inr b, w') \<Longrightarrow> learned w' v \<Longrightarrow> fact v = Some b"
  using records stable by blast

lemma again: "check w = (Inr b, w') \<Longrightarrow> learned w' v \<Longrightarrow> check v = (Inr b, v)"
  using settled hit by blast

end

lemma conn_run_unchecked:
  "conn_run False cmd w = (case sn_answers w of
       [] \<Rightarrow> Inl (SshRaised (OSErr ''connection lost''))
     | a # as \<Rightarrow> (case a of Inl e \<Rightarrow> Inl (SshRaised e) | Inr r \<Rightarrow> Inr r),
     w\<lparr>sn_log := sn_log w @ [Run cmd], sn_answers := tl (sn_answers w)\<rparr>)"
  by (cases "sn_answers w")
    (auto simp: conn_run_def ssh_call_def bindM_def Let_def returnM_def split: sum.split prod.split option.split)

text \<open>A remembered command is a check, when the slot it is remembered in is its own.\<close>

definition ask :: "string \<Rightarrow> (finished \<Rightarrow> 'a) \<Rightarrow> 'a ssh" where
  "ask cmd f = bindM (conn_run False cmd) (\<lambda>r. returnM (f r))"

lemma ask_cases:
  "(\<exists>e. ask cmd f w = (Inl (SshRaised e), w\<lparr>sn_log := sn_log w @ [Run cmd], sn_answers := tl (sn_answers w)\<rparr>))
    \<or> (\<exists>a. ask cmd f w = (Inr a, w\<lparr>sn_log := sn_log w @ [Run cmd], sn_answers := tl (sn_answers w)\<rparr>))"
  by (auto simp: ask_def bindM_def conn_run_unchecked returnM_def split: list.split sum.split)

lemma memo_ask_cases:
  "(\<exists>a. get w = Some a \<and> memo get put (ask cmd f) w = (Inr a, w))
    \<or> get w = None \<and> (\<exists>e. memo get put (ask cmd f) w
        = (Inl (SshRaised e), w\<lparr>sn_log := sn_log w @ [Run cmd], sn_answers := tl (sn_answers w)\<rparr>))
    \<or> get w = None \<and> (\<exists>a. memo get put (ask cmd f) w
        = (Inr a, put a (w\<lparr>sn_log := sn_log w @ [Run cmd], sn_answers := tl (sn_answers w)\<rparr>)))"
  using ask_cases [of cmd f w]
  by (cases "get w") (auto simp: memo_def bindM_def thenM_def modifyM_def returnM_def)

lemmas knowledge = learned_def kept_def unknowns_def unknown_def runs_def

lemma memo_outcome:
  assumes get: "\<And>w l as. get (w\<lparr>sn_log := l, sn_answers := as\<rparr>) = get w"
    and put: "\<And>a w. get (put a w) = Some a"
    and slot: "\<And>a w. get w = None \<Longrightarrow> learned w (put a w) \<and> runs (put a w) = runs w \<and> unknowns (put a w) + 1 = unknowns w"
    and m: "memo get put (ask cmd f) w = (r, w')"
  shows "learned w w' \<and> (case r of Inr a \<Rightarrow> get w' = Some a \<and> runs w' + unknowns w' \<le> runs w + unknowns w
      | Inl x \<Rightarrow> (\<exists>e. x = SshRaised e) \<and> runs w' \<le> runs w + unknowns w)"
proof -
  let ?v = "w\<lparr>sn_log := sn_log w @ [Run cmd], sn_answers := tl (sn_answers w)\<rparr>"
  have v: "learned w ?v" "runs ?v = runs w + 1" "unknowns ?v = unknowns w" by (simp_all add: knowledge)
  have n: "1 \<le> unknowns w" if "get w = None" using slot [OF that, of undefined] by linarith
  show ?thesis
    using memo_ask_cases [of get w put cmd f]
  proof (elim disjE conjE exE)
    fix a assume "get w = Some a" "memo get put (ask cmd f) w = (Inr a, w)"
    then show ?thesis using m by simp
  next
    fix e assume "get w = None" "memo get put (ask cmd f) w = (Inl (SshRaised e), ?v)"
    then show ?thesis using m v n by auto
  next
    fix a assume g: "get w = None" and e: "memo get put (ask cmd f) w = (Inr a, put a ?v)"
    have "get ?v = None" using get g by simp
    from slot [OF this, of a] show ?thesis using m e v put learned_trans by auto
  qed
qed

lemma frugal_outcome:
  "(\<And>w r w'. m w = (r, w') \<Longrightarrow> case r of Inr a \<Rightarrow> runs w' + unknowns w' \<le> runs w + unknowns w
      | Inl x \<Rightarrow> runs w' \<le> runs w + unknowns w) \<Longrightarrow> frugal m"
  unfolding frugal_def by (auto split: prod.split sum.split)

lemma memo_check:
  assumes get: "\<And>w l as. get (w\<lparr>sn_log := l, sn_answers := as\<rparr>) = get w"
    and put: "\<And>a w. get (put a w) = Some a"
    and slot: "\<And>a w. get w = None \<Longrightarrow> learned w (put a w) \<and> runs (put a w) = runs w \<and> unknowns (put a w) + 1 = unknowns w"
    and stable: "\<And>w w' b. learned w w' \<Longrightarrow> get w = Some b \<Longrightarrow> get w' = Some b"
  shows "remembered_check (\<lambda>w. map_option g (get w)) (bindM (memo get put (ask cmd f)) (\<lambda>r. returnM (g r)))"
proof -
  have o: "learned w w' \<and> (case r of Inr a \<Rightarrow> get w' = Some a \<and> runs w' + unknowns w' \<le> runs w + unknowns w
      | Inl x \<Rightarrow> (\<exists>e. x = SshRaised e) \<and> runs w' \<le> runs w + unknowns w)"
    if "memo get put (ask cmd f) w = (r, w')" for w r w'
    using that by (rule memo_outcome [of get put, rotated -1]) (erule slot | rule get put)+
  let ?m = "memo get put (ask cmd f)" and ?c = "bindM (memo get put (ask cmd f)) (\<lambda>r. returnM (g r))"
  have c: "?c w = (case ?m w of (Inl x, v) \<Rightarrow> (Inl x, v) | (Inr a, v) \<Rightarrow> (Inr (g a), v))" for w
    by (simp add: bindM_def returnM_def split: prod.split sum.split)
  show ?thesis
  proof
    fix w b w' assume "?c w = (Inr b, w')"
    then show "map_option g (get w') = Some b" using o [of w] by (auto simp: c split: prod.splits sum.splits)
  next
    fix w b assume "map_option g (get w) = Some b"
    then show "?c w = (Inr b, w)" by (auto simp: c memo_def)
  next
    fix w r w' assume "?c w = (r, w')"
    then show "learned w w'" using o [of w] by (auto simp: c split: prod.splits sum.splits)
  next
    fix w w' b assume "learned w w'" "map_option g (get w) = Some b"
    then show "map_option g (get w') = Some b" using stable by auto
  next
    fix w x w' assume "?c w = (Inl x, w')"
    then show "\<exists>e. x = SshRaised e" using o [of w] by (auto simp: c split: prod.splits sum.splits)
  next
    have "frugal ?m"
    proof (rule frugal_outcome)
      fix w r w' assume "?m w = (r, w')"
      from o [OF this] show "case r of Inr a \<Rightarrow> runs w' + unknowns w' \<le> runs w + unknowns w
        | Inl x \<Rightarrow> runs w' \<le> runs w + unknowns w" by (auto split: sum.splits)
    qed
    then show "frugal ?c" by (intro frugal_bind frugal_return)
  qed
qed

lemma bind_return: "bindM m returnM = m"
  by (rule ext) (auto simp: bindM_def returnM_def split: prod.split sum.split)

lemma memo_check_plain:
  assumes "\<And>w l as. get (w\<lparr>sn_log := l, sn_answers := as\<rparr>) = get w"
    and "\<And>a w. get (put a w) = Some a"
    and "\<And>a w. get w = None \<Longrightarrow> learned w (put a w) \<and> runs (put a w) = runs w \<and> unknowns (put a w) + 1 = unknowns w"
    and "\<And>w w' b. learned w w' \<Longrightarrow> get w = Some b \<Longrightarrow> get w' = Some b"
  shows "remembered_check get (memo get put (ask cmd f))"
  using memo_check [of get put "\<lambda>b. b", OF assms] by (simp add: option.map_ident bind_return)

interpretation is_linux: remembered_check sn_is_linux check_is_linux
  unfolding check_is_linux_def ask_def [symmetric] by (rule memo_check_plain) (auto simp: knowledge)

interpretation is_darwin: remembered_check sn_is_darwin check_is_darwin
  unfolding check_is_darwin_def ask_def [symmetric] by (rule memo_check_plain) (auto simp: knowledge)

lemma check_is_windows_ask:
  "check_is_windows = memo sn_is_windows (\<lambda>b w. w\<lparr>sn_is_windows := Some b\<rparr>)
     (ask ''[environment]::OSVersion'' (\<lambda>(rc, out). rc = Some 0))"
  by (simp add: check_is_windows_def ask_def case_prod_unfold)

interpretation is_windows: remembered_check sn_is_windows check_is_windows
  unfolding check_is_windows_ask by (rule memo_check_plain) (auto simp: knowledge)

definition debian_like_fact :: "ssh_conn \<Rightarrow> bool option" where
  "debian_like_fact w = map_option is_debian_like (sn_os_release w)"

definition debian_fact :: "ssh_conn \<Rightarrow> bool option" where
  "debian_fact w = map_option is_debian (sn_os_release w)"

interpretation is_debian_like: remembered_check debian_like_fact check_is_debian_like
  unfolding check_is_debian_like_def debian_like_fact_def get_os_release_def ask_def [symmetric]
  by (rule memo_check) (auto simp: knowledge)

interpretation is_debian: remembered_check debian_fact check_is_debian
  unfolding check_is_debian_def debian_fact_def get_os_release_def ask_def [symmetric]
  by (rule memo_check) (auto simp: knowledge)

section \<open>Conjunctions of checks\<close>

definition holds :: "(ssh_conn \<Rightarrow> bool option) list \<Rightarrow> ssh_conn \<Rightarrow> bool" where
  "holds fs w \<longleftrightarrow> list_all (\<lambda>f. f w = Some True) fs"

abbreviation checks_of :: "(ssh_conn \<Rightarrow> bool option) list \<Rightarrow> bool ssh list \<Rightarrow> bool" where
  "checks_of \<equiv> list_all2 remembered_check"

lemma all_checks_frugal: "checks_of fs cs \<Longrightarrow> frugal (all_checks cs)"
proof (induction fs cs rule: list_all2_induct)
  case (Cons f fs c cs)
  then show ?case
    using remembered_check.pays [OF Cons(1)]
    by (auto intro!: frugal_bind [of c] simp: frugal_return)
qed (simp add: frugal_return)

lemma all_checks_learns: "checks_of fs cs \<Longrightarrow> all_checks cs w = (r, w') \<Longrightarrow> learned w w'"
proof (induction fs cs arbitrary: w rule: list_all2_induct)
  case Nil
  then show ?case by (simp add: returnM_def)
next
  case (Cons f fs c cs)
  obtain q v where q: "c w = (q, v)" by (cases "c w")
  have v: "learned w v" using remembered_check.learns [OF Cons(1) q] .
  show ?case
  proof (cases "q = Inr True")
    case True
    then have "all_checks cs v = (r, w')" using Cons.prems by (simp add: bindM_def q)
    from Cons.IH [OF this] show ?thesis using v learned_trans by blast
  next
    case False
    then have "w' = v" using Cons.prems by (cases q) (auto simp: bindM_def q returnM_def)
    then show ?thesis using v by simp
  qed
qed

lemma all_checks_raises: "checks_of fs cs \<Longrightarrow> all_checks cs w = (Inl x, w') \<Longrightarrow> \<exists>e. x = SshRaised e"
proof (induction fs cs arbitrary: w rule: list_all2_induct)
  case (Cons f fs c cs)
  show ?case
  proof (cases "c w")
    case (Pair b v)
    then show ?thesis
      using Cons.prems remembered_check.raises [OF Cons(1)] Cons.IH [of v]
      by (auto simp: bindM_def returnM_def split: sum.splits if_splits)
  qed
qed (simp add: returnM_def)

text \<open>The answer is what the connection knows from then on, and asking again gives it without a command.\<close>

lemma all_checks_settled:
  "checks_of fs cs \<Longrightarrow> all_checks cs w = (Inr b, w') \<Longrightarrow> learned w' v \<Longrightarrow>
     holds fs v = b \<and> all_checks cs v = (Inr b, v)"
proof (induction fs cs arbitrary: w rule: list_all2_induct)
  case Nil
  then show ?case by (simp add: returnM_def holds_def)
next
  case (Cons f fs c cs)
  obtain d u where d: "c w = (Inr d, u)" using Cons.prems(1) by (cases "c w") (auto simp: bindM_def split: sum.splits)
  have u: "learned u w'"
    using Cons.prems(1) all_checks_learns [OF Cons(2)] by (auto simp: bindM_def d returnM_def split: if_splits)
  have "learned u v" using u Cons.prems(2) learned_trans by blast
  then have f: "f v = Some d" "c v = (Inr d, v)"
    using remembered_check.settled [OF Cons(1) d] remembered_check.again [OF Cons(1) d] by auto
  then show ?case
    using Cons.prems Cons.IH [of u] by (auto simp: bindM_def d returnM_def holds_def split: if_splits)
qed

section \<open>Detection\<close>

definition platform_facts :: "string \<Rightarrow> (ssh_conn \<Rightarrow> bool option) list" where
  "platform_facts p = (
     if p = ''debian'' then [sn_is_linux, debian_like_fact, debian_fact]
     else if p = ''debian-like'' then [sn_is_linux, debian_like_fact]
     else if p = ''linux'' then [sn_is_linux]
     else if p = ''darwin'' then [sn_is_darwin]
     else [sn_is_windows])"

abbreviation adapter_holds :: "ssh_conn \<Rightarrow> machine_adapter \<Rightarrow> bool" where
  "adapter_holds w a \<equiv> holds (platform_facts (ma_platform a)) w"

lemmas adapter_defs = debian_adapter_def debian_like_adapter_def linux_adapter_def darwin_adapter_def windows_adapter_def

lemma adapter_checks:
  "a \<in> set (ADAPTERS json) \<Longrightarrow> checks_of (platform_facts (ma_platform a)) (ma_checks a)"
  by (auto simp: ADAPTERS_def adapter_defs platform_facts_def is_linux.remembered_check_axioms
    is_darwin.remembered_check_axioms is_windows.remembered_check_axioms is_debian_like.remembered_check_axioms
    is_debian.remembered_check_axioms)

lemma all_checks_mapM:
  assumes "\<And>a. a \<in> set as \<Longrightarrow> checks_of (F a) (ma_checks a)"
  shows "mapM (\<lambda>a. all_checks (ma_checks a)) as w = (r, w') \<Longrightarrow> learned w w' \<and>
     (case r of
        Inl x \<Rightarrow> \<exists>e. x = SshRaised e
      | Inr bs \<Rightarrow> \<forall>v. learned w' v \<longrightarrow> bs = map (\<lambda>a. holds (F a) v) as
                   \<and> mapM (\<lambda>a. all_checks (ma_checks a)) as v = (Inr bs, v))"
  using assms
proof (induction as arbitrary: w r w')
  case Nil
  then show ?case by (auto simp: returnM_def)
next
  case (Cons a as)
  have c: "checks_of (F a) (ma_checks a)" using Cons.prems(2) by simp
  obtain q u where q: "all_checks (ma_checks a) w = (q, u)" by (cases "all_checks (ma_checks a) w")
  have lu: "learned w u" using all_checks_learns [OF c q] .
  show ?case
  proof (cases q)
    case (Inl x)
    then show ?thesis using Cons.prems(1) q lu all_checks_raises [OF c] by (auto simp: bindM_def)
  next
    case (Inr b)
    obtain s v where s: "mapM (\<lambda>a. all_checks (ma_checks a)) as u = (s, v)"
      by (cases "mapM (\<lambda>a. all_checks (ma_checks a)) as u")
    have IH: "learned u v \<and> (case s of
        Inl x \<Rightarrow> \<exists>e. x = SshRaised e
      | Inr bs \<Rightarrow> \<forall>t. learned v t \<longrightarrow> bs = map (\<lambda>a. holds (F a) t) as
                   \<and> mapM (\<lambda>a. all_checks (ma_checks a)) as t = (Inr bs, t))"
      using Cons.IH [OF s] Cons.prems(2) by simp
    have w': "w' = v" "r = (case s of Inl x \<Rightarrow> Inl x | Inr bs \<Rightarrow> Inr (b # bs))"
      using Cons.prems(1) q Inr s by (auto simp: bindM_def returnM_def split: sum.splits)
    have set: "holds (F a) t = b \<and> all_checks (ma_checks a) t = (Inr b, t)" if "learned v t" for t
      using all_checks_settled [OF c q [unfolded Inr], of t] IH that learned_trans by blast
    show ?thesis
    proof (cases s)
      case (Inl x)
      then show ?thesis using IH lu w' by (auto intro: learned_trans)
    next
      case (Inr bs)
      then show ?thesis using IH lu w' set by (auto simp: bindM_def returnM_def intro: learned_trans)
    qed
  qed
qed

lemma detect_frugal: "frugal (detect_platform (ADAPTERS json))"
proof -
  have "frugal (raiseM x :: (machine_adapter \<times> string list) ssh)" for x by (simp add: frugal_def raiseM_def)
  then show ?thesis
    unfolding detect_platform_def Let_def
    by (intro frugal_bind frugal_mapM all_checks_frugal [OF adapter_checks])
      (auto intro: frugal_return split: list.split)
qed

definition platform_names :: "string list" where
  "platform_names = [''debian'', ''debian-like'', ''linux'', ''darwin'', ''windows'']"

lemma ADAPTERS_names: "map ma_platform (ADAPTERS json) = platform_names"
  by (simp add: ADAPTERS_def adapter_defs platform_names_def)

text \<open>The result, and what a second detection does.\<close>

lemma detect_outcome:
  assumes d: "detect_platform (ADAPTERS json) w = (r, w')"
  shows "length (sn_log w') \<le> length (sn_log w) + unknowns w"
    and "r = Inr (a, ps) \<Longrightarrow> a \<in> set (ADAPTERS json) \<and> ps \<noteq> [] \<and> hd ps = ma_platform a
      \<and> ps = filter (\<lambda>p. holds (platform_facts p) w') platform_names"
    and "r = Inl PlatformGuessFailed \<Longrightarrow> filter (\<lambda>p. holds (platform_facts p) w') platform_names = []"
    and "(\<exists>e. r = Inl (SshRaised e)) \<or> detect_platform (ADAPTERS json) w' = (r, w')"
    and "r = Inl x \<Longrightarrow> x = PlatformGuessFailed \<or> (\<exists>e. x = SshRaised e)"
proof -
  show "length (sn_log w') \<le> length (sn_log w) + unknowns w"
    using frugalD [OF detect_frugal d] by (simp add: runs_def)
  let ?as = "ADAPTERS json" and ?m = "mapM (\<lambda>a. all_checks (ma_checks a)) (ADAPTERS json)"
  let ?F = "\<lambda>a. platform_facts (ma_platform a)"
  obtain q v where q: "?m w = (q, v)" by (cases "?m w")
  note o = all_checks_mapM [OF adapter_checks q]
  have names: "map ma_platform (filter (\<lambda>a. holds (?F a) v) ?as) = filter (\<lambda>p. holds (platform_facts p) v) platform_names"
    by (simp add: filter_map comp_def flip: ADAPTERS_names [of json])
  have "r = (case q of Inl x \<Rightarrow> Inl x | Inr bs \<Rightarrow> (case map fst (filter snd (zip ?as bs)) of
      [] \<Rightarrow> Inl PlatformGuessFailed | a # l \<Rightarrow> Inr (a, map ma_platform (a # l)))) \<and> w' = v"
    using d unfolding detect_platform_def bindM_def q
    by (auto simp: Let_def raiseM_def returnM_def split: sum.splits list.splits)
  then have r: "r = (case q of Inl x \<Rightarrow> Inl x | Inr bs \<Rightarrow> (case map fst (filter snd (zip ?as bs)) of
      [] \<Rightarrow> Inl PlatformGuessFailed | a # l \<Rightarrow> Inr (a, map ma_platform (a # l))))" and w': "w' = v"
    by auto
  have match: "map fst (filter snd (zip ?as bs)) = filter (\<lambda>a. holds (?F a) v) ?as"
    if "q = Inr bs" for bs
  proof -
    have "bs = map (\<lambda>a. holds (?F a) v) ?as" using o that by simp
    then show ?thesis by (simp add: zip_map2 zip_same_conv_map filter_map comp_def)
  qed
  have inr: "\<exists>bs. q = Inr bs" if "\<And>e. r \<noteq> Inl (SshRaised e)"
    using that o r by (cases q) auto
  show "x = PlatformGuessFailed \<or> (\<exists>e. x = SshRaised e)" if "r = Inl x"
    using that o r by (cases q) (auto split: list.splits)
  show "(\<exists>e. r = Inl (SshRaised e)) \<or> detect_platform ?as w' = (r, w')"
  proof (cases "\<exists>e. r = Inl (SshRaised e)")
    case False
    then obtain bs where bs: "q = Inr bs" using inr by auto
    then have "?m v = (Inr bs, v)" using o by simp
    then show ?thesis
      unfolding detect_platform_def bindM_def w' r bs
      by (auto simp: Let_def raiseM_def returnM_def split: list.splits)
  qed simp
  let ?ms = "filter (\<lambda>a. holds (?F a) v) ?as"
  show "a \<in> set ?as \<and> ps \<noteq> [] \<and> hd ps = ma_platform a
      \<and> ps = filter (\<lambda>p. holds (platform_facts p) w') platform_names" if ok: "r = Inr (a, ps)"
  proof -
    obtain bs where bs: "q = Inr bs" using inr ok by auto
    have m: "?ms = a # tl ?ms" "ps = map ma_platform ?ms"
      using ok by (auto simp: r bs match [OF bs] split: list.splits)
    have "a \<in> set ?ms" by (subst m(1)) simp
    moreover have "hd ps = ma_platform a" "ps \<noteq> []" using m by (metis list.map_sel(1) list.sel(1) list.distinct(1) map_is_Nil_conv)+
    ultimately show ?thesis using m(2) names w' by simp
  qed
  show "filter (\<lambda>p. holds (platform_facts p) w') platform_names = []" if no: "r = Inl PlatformGuessFailed"
  proof -
    obtain bs where bs: "q = Inr bs" using inr no by auto
    have "?ms = []" using no by (auto simp: r bs match [OF bs] split: list.splits)
    then show ?thesis using names w' by simp
  qed
qed

end
