(* ===== verification/Cli_Views.thy ===== *)
theory Cli_Views
  imports Submit_Query Cloud_Manager Vendor_Api
begin

text \<open>
  The operator's read-only commands: \<open>yanodes\<close> (\<open>entrypoints/cli/show_nodes.py\<close>) and \<open>yastatus\<close>
  (\<open>entrypoints/cli/check_status.py\<close>).  The terminal, and the temporary file of a convergence snippet, are parts of
  the state; a command returns its exit status.  The dates come from the server in its time zone, whose offset is the
  parameter \<open>tz\<close>; \<open>fl\<close> writes a float.
\<close>

section \<open>The terminal\<close>

record screen = world +
  sc_out :: string
  sc_err :: string
  sc_tmp :: "string option"

type_synonym ('z, 'a) cprog = "('z screen_scheme, exn, 'a) M"

definition newline :: string where
  "newline = [CHR 0x0A]"

definition tab :: string where
  "tab = [CHR 0x09]"

definition print_out :: "string \<Rightarrow> ('z, unit) cprog" where
  "print_out s = modifyM (\<lambda>w. w\<lparr>sc_out := sc_out w @ s\<rparr>)"

definition print_err :: "string \<Rightarrow> ('z, unit) cprog" where
  "print_err s = modifyM (\<lambda>w. w\<lparr>sc_err := sc_err w @ s\<rparr>)"

text \<open>The last handler of a command: a message and exit status 1; a cancellation is no \<open>Exception\<close>.\<close>

definition exit_code :: "('z, unit) cprog \<Rightarrow> ('z, int) cprog" where
  "exit_code m = catchM (thenM m (returnM 0))
     (\<lambda>e. if is_Exception e then thenM (print_err (''Error: '' @ exn_str e @ newline)) (returnM 1) else raiseM e)"

section \<open>Dates and JSON\<close>

definition pad_to :: "nat \<Rightarrow> string \<Rightarrow> string" where
  "pad_to n s = replicate (n - length s) CHR ''0'' @ s"

definition isoformat :: "string \<Rightarrow> datetime \<Rightarrow> string" where
  "isoformat tz t = pad_to 4 (show_int (dt_year t)) @ ''-'' @ pad2 (dt_month t) @ ''-'' @ pad2 (dt_day t) @ ''T''
     @ pad2 (dt_hour t) @ '':'' @ pad2 (dt_minute t) @ '':'' @ pad2 (dt_second t)
     @ (if dt_micro t = 0 then [] else ''.'' @ pad_to 6 (show_int (dt_micro t))) @ tz"

definition opt_json :: "('a \<Rightarrow> pyval) \<Rightarrow> 'a option \<Rightarrow> pyval" where
  "opt_json f x = (case x of None \<Rightarrow> PNone | Some a \<Rightarrow> f a)"

definition status_name :: "task_status \<Rightarrow> string" where
  "status_name s = (case s of TO_DO \<Rightarrow> ''TO_DO'' | RUNNING \<Rightarrow> ''RUNNING'' | DONE \<Rightarrow> ''DONE'')"

definition node_status_name :: "node_status \<Rightarrow> string" where
  "node_status_name s = (case s of OTHER \<Rightarrow> ''OTHER'')"

text \<open>\<open>json.dumps(v, indent=2)\<close> at a given depth.\<close>

definition json_block :: "nat \<Rightarrow> string \<Rightarrow> string \<Rightarrow> string list \<Rightarrow> string" where
  "json_block d l r items = (if items = [] then l @ r
     else l @ newline @ replicate (2 * d + 2) CHR '' ''
       @ join ('','' @ newline @ replicate (2 * d + 2) CHR '' '') items @ newline @ replicate (2 * d) CHR '' '' @ r)"

fun json_indent :: "(rat \<Rightarrow> string) \<Rightarrow> nat \<Rightarrow> pyval \<Rightarrow> string" where
  "json_indent fl d (PList xs) = json_block d ''['' '']'' (map (json_indent fl (d + 1)) xs)"
| "json_indent fl d (PDict kv) = json_block d ''{'' ''}''
     (map (\<lambda>(k, v). json_string k @ '': '' @ json_indent fl (d + 1) v) kv)"
| "json_indent fl d v = json_dumps fl v"

section \<open>yanodes\<close>

record node_view =
  nv_node_id :: node_id
  nv_hostname :: string
  nv_port :: int
  nv_ncpus :: "int option"
  nv_enabled :: bool
  nv_cloud :: "string option"
  nv_jump_host :: "string option"
  nv_jump_port :: int
  nv_jump_username :: string
  nv_external_id :: "string option"
  nv_status :: node_status
  nv_created_at :: datetime
  nv_updated_at :: datetime
  nv_task_id :: "task_id option"
  nv_label :: "string option"

definition view_of :: "node \<Rightarrow> task option \<Rightarrow> node_view" where
  "view_of n t = \<lparr>nv_node_id = n_node_id n, nv_hostname = n_hostname n, nv_port = n_port n, nv_ncpus = n_ncpus n,
     nv_enabled = n_enabled n, nv_cloud = n_cloud n, nv_jump_host = n_jump_host n, nv_jump_port = n_jump_port n,
     nv_jump_username = n_jump_username n, nv_external_id = n_external_id n, nv_status = n_status n,
     nv_created_at = n_created_at n, nv_updated_at = n_updated_at n,
     nv_task_id = map_option t_task_id t, nv_label = map_option t_label t\<rparr>"

text \<open>The tasks of the list are running, so each has a node.\<close>

definition tasks_by_node :: "task list \<Rightarrow> (node_id \<times> task) list" where
  "tasks_by_node ts = foldl (\<lambda>d t. case t_state t of Running n _ \<Rightarrow> dput n t d | _ \<Rightarrow> d) [] ts"

definition join_views :: "task list \<Rightarrow> node list \<Rightarrow> node_view list" where
  "join_views ts ns = map (\<lambda>n. view_of n (dget (tasks_by_node ts) (n_node_id n))) ns"

definition fetch_nodes_view :: "('x, node_view list) prog" where
  "fetch_nodes_view = bindM (tasks_list_running None) (\<lambda>ts.
     bindM nodes_list_all (\<lambda>ns. returnM (join_views ts ns)))"

record nodes_args =
  na_json :: bool
  na_enabled :: bool
  na_disabled :: bool
  na_busy :: bool
  na_free :: bool
  na_cloud :: "string option"
  na_no_cloud :: bool

text \<open>The group of options that exclude each other.\<close>

definition nodes_args_ok :: "nodes_args \<Rightarrow> bool" where
  "nodes_args_ok a \<longleftrightarrow> \<not> (na_cloud a \<noteq> None \<and> na_no_cloud a)"

definition row_predicates :: "nodes_args \<Rightarrow> (node_view \<Rightarrow> bool) list" where
  "row_predicates a =
     (if na_enabled a \<and> \<not> na_disabled a then [\<lambda>r. nv_enabled r] else [])
   @ (if na_disabled a \<and> \<not> na_enabled a then [\<lambda>r. \<not> nv_enabled r] else [])
   @ (if na_busy a \<and> \<not> na_free a then [\<lambda>r. nv_task_id r \<noteq> None] else [])
   @ (if na_free a \<and> \<not> na_busy a then [\<lambda>r. nv_task_id r = None] else [])
   @ (case na_cloud a of Some c \<Rightarrow> [\<lambda>r. nv_cloud r = Some c] | None \<Rightarrow> [])
   @ (if na_no_cloud a \<and> na_cloud a = None then [\<lambda>r. nv_cloud r = None] else [])"

definition filter_rows :: "nodes_args \<Rightarrow> node_view list \<Rightarrow> node_view list" where
  "filter_rows a rows = filter (\<lambda>r. list_all (\<lambda>p. p r) (row_predicates a)) rows"

definition table_headers :: "string list" where
  "table_headers = [''NODE_ID'', ''HOSTNAME'', ''PORT'', ''NCPUS'', ''ENABLED'', ''CLOUD'', ''TASK_ID'', ''LABEL'']"

definition table_cells :: "node_view \<Rightarrow> string list" where
  "table_cells r = [node_id_str (nv_node_id r), nv_hostname r,
     if nv_port r = 22 then ''-'' else show_int (nv_port r),
     case nv_ncpus r of None \<Rightarrow> ''MAX'' | Some n \<Rightarrow> show_int n,
     if nv_enabled r then ''yes'' else ''no'',
     case nv_cloud r of None \<Rightarrow> ''-'' | Some c \<Rightarrow> c,
     case nv_task_id r of None \<Rightarrow> ''-'' | Some t \<Rightarrow> task_id_str t,
     case nv_label r of None \<Rightarrow> ''-'' | Some l \<Rightarrow> l]"

definition ljust :: "string \<Rightarrow> nat \<Rightarrow> string" where
  "ljust s n = s @ replicate (n - length s) CHR '' ''"

definition column_widths :: "string list list \<Rightarrow> nat list" where
  "column_widths rows = map (\<lambda>j. foldr max (map (\<lambda>r. length (r ! j)) rows) 0) [0..<length table_headers]"

definition table_line :: "nat list \<Rightarrow> string list \<Rightarrow> string" where
  "table_line widths cells = join ''  '' (map (\<lambda>(c, n). ljust c n) (zip cells widths))"

definition table_lines :: "node_view list \<Rightarrow> string list" where
  "table_lines rows = (let all = table_headers # map table_cells rows in map (table_line (column_widths all)) all)"

definition render_nodes_table :: "node_view list \<Rightarrow> string" where
  "render_nodes_table rows = join newline (table_lines rows)"

definition node_view_json :: "string \<Rightarrow> node_view \<Rightarrow> pyval" where
  "node_view_json tz r = PDict [
     (''node_id'', PInt (nid_value (nv_node_id r))), (''hostname'', PStr (nv_hostname r)),
     (''port'', PInt (nv_port r)), (''ncpus'', opt_json PInt (nv_ncpus r)), (''enabled'', PBool (nv_enabled r)),
     (''cloud'', opt_json PStr (nv_cloud r)), (''jump_host'', opt_json PStr (nv_jump_host r)),
     (''jump_port'', PInt (nv_jump_port r)), (''jump_username'', PStr (nv_jump_username r)),
     (''external_id'', opt_json PStr (nv_external_id r)), (''status'', PStr (node_status_name (nv_status r))),
     (''created_at'', PStr (isoformat tz (nv_created_at r))), (''updated_at'', PStr (isoformat tz (nv_updated_at r))),
     (''occupied_by'', opt_json (\<lambda>t. PDict [(''task_id'', PInt (tid_value t)), (''label'', opt_json PStr (nv_label r))])
        (nv_task_id r))]"

definition render_nodes_json :: "(rat \<Rightarrow> string) \<Rightarrow> string \<Rightarrow> node_view list \<Rightarrow> string" where
  "render_nodes_json fl tz rows = json_indent fl 0 (PList (map (node_view_json tz) rows))"

text \<open>The configuration is read first; \<open>config\<close> is its outcome.\<close>

definition show_nodes :: "(rat \<Rightarrow> string) \<Rightarrow> string \<Rightarrow> exn + 'c \<Rightarrow> nodes_args \<Rightarrow> ('z, int) cprog" where
  "show_nodes fl tz config a = exit_code (
     bindM (fromSum config) (\<lambda>_.
     bindM (with_uow fetch_nodes_view) (\<lambda>rows. let shown = filter_rows a rows in
       print_out ((if na_json a then render_nodes_json fl tz shown else render_nodes_table shown) @ newline))))"

section \<open>yastatus\<close>

record status_args =
  sa_jobs :: "int list option"
  sa_view :: bool
  sa_info :: bool
  sa_json :: bool
  sa_convergence :: bool

definition status_args_ok :: "status_args \<Rightarrow> bool" where
  "status_args_ok a \<longleftrightarrow> length (filter id [sa_view a, sa_info a, sa_json a]) \<le> 1 \<and> (sa_convergence a \<longrightarrow> sa_view a)"

definition status_tasks :: "status_args \<Rightarrow> ('x, task list) prog" where
  "status_tasks a = (if nonempty (sa_jobs a)
     then bindM (fromSum (map_sum_list mk_task_id (the (sa_jobs a)))) tasks_list_by_jobs
     else tasks_list_by_status [RUNNING, TO_DO] None)"

definition default_line :: "task \<Rightarrow> string" where
  "default_line t = task_id_str (t_task_id t) @ ''   '' @ status_name (t_status t) @ newline"

definition info_line :: "task \<Rightarrow> string" where
  "info_line t = ''task_id='' @ task_id_str (t_task_id t) @ tab @ ''status='' @ status_name (t_status t) @ tab
     @ ''label='' @ t_label t @ tab @ ''node_id=''
     @ (case allocated_node_id_of t of None \<Rightarrow> ''-'' | Some n \<Rightarrow> node_id_str n) @ newline"

definition node_json :: "string \<Rightarrow> node \<Rightarrow> pyval" where
  "node_json tz n = PDict [(''hostname'', PStr (n_hostname n)), (''port'', PInt (n_port n)),
     (''username'', PStr (n_username n)), (''cloud'', opt_json PStr (n_cloud n)),
     (''jump_host'', opt_json PStr (n_jump_host n)), (''jump_port'', PInt (n_jump_port n)),
     (''jump_username'', PStr (n_jump_username n)), (''external_id'', opt_json PStr (n_external_id n)),
     (''status'', PStr (node_status_name (n_status n))),
     (''created_at'', PStr (isoformat tz (n_created_at n))), (''updated_at'', PStr (isoformat tz (n_updated_at n)))]"

definition node_of_task :: "(node_id \<times> node) list \<Rightarrow> task \<Rightarrow> node option" where
  "node_of_task nodes t = (case allocated_node_id_of t of None \<Rightarrow> None | Some n \<Rightarrow> dget nodes n)"

definition task_json :: "string \<Rightarrow> (node_id \<times> node) list \<Rightarrow> task \<Rightarrow> pyval" where
  "task_json tz nodes t = PDict [(''task_id'', PInt (tid_value (t_task_id t))),
     (''status'', PStr (status_name (t_status t))), (''label'', PStr (t_label t)), (''engine'', PStr (t_engine t)),
     (''local_folder'', opt_json PStr (t_local_folder t)), (''remote_folder'', opt_json PStr (remote_folder_of t)),
     (''created_at'', PStr (isoformat tz (t_created_at t))), (''updated_at'', PStr (isoformat tz (t_updated_at t))),
     (''node'', opt_json (node_json tz) (node_of_task nodes t))]"

definition render_status_json :: "(rat \<Rightarrow> string) \<Rightarrow> string \<Rightarrow> (node_id \<times> node) list \<Rightarrow> task list \<Rightarrow> string" where
  "render_status_json fl tz nodes ts = json_dumps fl (PList (map (task_json tz nodes) ts))"

subsection \<open>The verbose view\<close>

text \<open>The file comes over SFTP into the snippet; what stands in it is the network's answer.\<close>

definition download_snippet :: "sid \<Rightarrow> string \<Rightarrow> string \<Rightarrow> ('z, bool) cprog" where
  "download_snippet sid remote_folder output_file =
     catchM (thenM (bindM (remote_call sid OpOpenSftp) (\<lambda>_. skipM))
        (bindM (finallyM (remote_call sid (OpGet (path_str (path_div (mk_path remote_folder) output_file)) ''snippet''))
                 (modifyM (\<lambda>w. w\<lparr>w_remote := w_remote w @ [(sid, OpCloseSftp)]\<rparr>)))
           (\<lambda>text. thenM (modifyM (\<lambda>w. w\<lparr>sc_tmp := Some text\<rparr>)) (returnM True))))
       (\<lambda>e. if is_OSError e then returnM False else raiseM e)"

text \<open>What the parser of CRYSTAL output (a library) finds in a file, or its error message; \<open>fmt\<close> formats a number
  with six decimals to a width, \<open>None\<close> is not a number.\<close>

record crystal =
  cr_convergence :: string
  cr_optgeom :: "rat option list list"
  cr_ncycles :: "int list"

definition or_nan :: "rat option \<Rightarrow> rat option" where
  "or_nan x = (case x of Some q \<Rightarrow> if q = 0 then None else Some q | None \<Rightarrow> None)"

definition optgeom_line :: "(nat \<Rightarrow> rat option \<Rightarrow> string) \<Rightarrow> int list \<Rightarrow> nat \<Rightarrow> rat option list \<Rightarrow> exn + string" where
  "optgeom_line fmt ncycles n row =
     (if length row < 5 then Inl (OtherError ''list index out of range'') else
      Inr (fmt 8 (or_nan (row ! 0)) @ ''  '' @ fmt 8 (or_nan (row ! 1)) @ ''  '' @ fmt 8 (or_nan (row ! 2)) @ ''  ''
        @ fmt 8 (or_nan (row ! 3)) @ ''  '' @ ''E='' @ fmt 12 (or_nan (row ! 4)) @ '' eV'' @ ''  ''
        @ ''('' @ (if n < length ncycles then show_int (ncycles ! n) else ''^'') @ '')'' @ newline))"

definition parse_convergence ::
  "(string \<Rightarrow> string + crystal) \<Rightarrow> (nat \<Rightarrow> rat option \<Rightarrow> string) \<Rightarrow> string \<Rightarrow> exn + string" where
  "parse_convergence crystout fmt text = (case crystout text of
      Inl msg \<Rightarrow> Inr msg
    | Inr c \<Rightarrow> (case map_sum_list (\<lambda>(n, row). optgeom_line fmt (cr_ncycles c) n row) (enumerate 0 (cr_optgeom c)) of
        Inl e \<Rightarrow> Inl e
      | Inr ls \<Rightarrow> Inr ((if cr_convergence c = [] then [] else cr_convergence c @ newline) @ concat ls)))"

text \<open>What \<open>session.run_full\<close> returns; a process without an exit code has none here.\<close>

definition full_answer :: "string \<Rightarrow> int option \<times> string" where
  "full_answer s = (case split_on (char_of (0::nat)) s of
      c # out # _ \<Rightarrow> (read_int c, out)
    | cs \<Rightarrow> (read_int (concat cs), []))"

definition tail_command :: "(string \<Rightarrow> string) \<Rightarrow> string \<Rightarrow> string \<Rightarrow> string" where
  "tail_command quote folder file = ''tail -n15 '' @ quote (path_str (path_div (mk_path folder) file))"

definition output_name :: "engine_repository \<Rightarrow> task \<Rightarrow> string" where
  "output_name engines t = (case engines_get engines (t_engine t) of
      Some e \<Rightarrow> (case e_output_files e of f # _ \<Rightarrow> f | [] \<Rightarrow> ''OUTPUT'')
    | None \<Rightarrow> ''OUTPUT'')"

text \<open>A repository of its own per task; the caller disconnects the session it gets.\<close>

definition display_remote_output ::
  "(string \<Rightarrow> string) \<Rightarrow> exn + unit \<Rightarrow> engine_repository \<Rightarrow> task \<Rightarrow> node option \<Rightarrow> ('z, (sid \<times> string \<times> string) option) cprog" where
  "display_remote_output quote keys engines t found = (case found of
      None \<Rightarrow> thenM (print_out (''NO ALLOCATED HOSTNAME'' @ newline)) (returnM None)
    | Some n \<Rightarrow>
        thenM (modifyM (\<lambda>w. w\<lparr>w_registry := []\<rparr>))
       (bindM (attemptM (thenM (fromSum keys) (repo_connect_at None None None n))) (\<lambda>r. case r of
          Inl e \<Rightarrow> if is_Exception e then thenM (print_out (''CAN'' @ [char_of (39::nat)] @ ''T CONNECT'' @ newline)) (returnM None)
                   else raiseM e
        | Inr sid \<Rightarrow> (case remote_folder_of t of
              None \<Rightarrow> thenM (print_out (''OUTDATED TASK, SKIPPING'' @ newline))
                        (thenM (repo_disconnect (n_node_id n)) (returnM None))
            | Some folder \<Rightarrow>
                if folder = [] then thenM (print_out (''OUTDATED TASK, SKIPPING'' @ newline))
                        (thenM (repo_disconnect (n_node_id n)) (returnM None))
                else bindM (getsM (\<lambda>w. ss_closed (sess w sid))) (\<lambda>closed.
                  if closed then thenM (print_out (''CAN'' @ [char_of (39::nat)] @ ''T CONNECT'' @ newline)) (returnM None)
                  else bindM (remote_call sid (OpRun (tail_command quote folder (output_name engines t)))) (\<lambda>ans.
                    thenM (case full_answer ans of (rc, out) \<Rightarrow>
                        print_out ((if rc \<noteq> None \<and> rc \<noteq> Some 0 then ''OUTDATED TASK, SKIPPING'' else out) @ newline))
                      (returnM (Some (sid, folder, output_name engines t)))))))))"

definition view_header :: "string \<Rightarrow> task \<Rightarrow> node option \<Rightarrow> string" where
  "view_header remote_user t found =
     replicate 50 CHR ''.'' @ ''ID'' @ task_id_str (t_task_id t) @ '' '' @ t_label t @ '' at ''
     @ (case found of Some n \<Rightarrow> n_username n | None \<Rightarrow> remote_user) @ ''@''
     @ (case found of Some n \<Rightarrow> n_hostname n | None \<Rightarrow> []) @ '':''
     @ (case found of Some n \<Rightarrow> (case n_cloud n of Some c \<Rightarrow> c | None \<Rightarrow> []) | None \<Rightarrow> []) @ '':''
     @ (case remote_folder_of t of Some f \<Rightarrow> f | None \<Rightarrow> []) @ newline"

record viewer =
  vw_quote :: "string \<Rightarrow> string"
  vw_keys :: "exn + unit"
  vw_engines :: engine_repository
  vw_user :: string
  vw_crystout :: "string \<Rightarrow> string + crystal"
  vw_fmt :: "nat \<Rightarrow> rat option \<Rightarrow> string"

definition show_snippet :: "viewer \<Rightarrow> ('z, unit) cprog" where
  "show_snippet v = bindM (getsM (\<lambda>w. case sc_tmp w of None \<Rightarrow> [] | Some s \<Rightarrow> s)) (\<lambda>text.
     bindM (fromSum (parse_convergence (vw_crystout v) (vw_fmt v) text)) (\<lambda>out.
       whenM (out \<noteq> []) (print_out (out @ newline))))"

definition view_task :: "viewer \<Rightarrow> bool \<Rightarrow> (node_id \<times> node) list \<Rightarrow> task \<Rightarrow> ('z, unit) cprog" where
  "view_task v fetch nodes t = (let found = node_of_task nodes t in
     thenM (print_out (view_header (vw_user v) t found))
    (bindM (display_remote_output (vw_quote v) (vw_keys v) (vw_engines v) t found) (\<lambda>c. case c of
        None \<Rightarrow> skipM
      | Some (sid, folder, file) \<Rightarrow>
          finallyM (whenM fetch (bindM (download_snippet sid folder file) (\<lambda>success. whenM success (show_snippet v))))
            (bindM (getsM (\<lambda>w. m_node_id (ss_machine (sess w sid)))) repo_disconnect))))"

text \<open>The snippet is created once; an \<open>Exception\<close> removes it, otherwise the caller does.\<close>

definition unlink_snippet :: "('z, unit) cprog" where
  "unlink_snippet = modifyM (\<lambda>w. w\<lparr>sc_tmp := None\<rparr>)"

definition render_view :: "viewer \<Rightarrow> bool \<Rightarrow> (node_id \<times> node) list \<Rightarrow> task list \<Rightarrow> ('z, bool) cprog" where
  "render_view v fetch nodes ts =
     thenM (whenM fetch (modifyM (\<lambda>w. w\<lparr>sc_tmp := Some []\<rparr>)))
    (catchM (thenM (forM (filter (\<lambda>t. t_status t = RUNNING) ts) (view_task v fetch nodes)) (returnM fetch))
       (\<lambda>e. if is_Exception e then thenM (whenM fetch unlink_snippet) (raiseM e) else raiseM e))"

definition status_nodes :: "status_args \<Rightarrow> task list \<Rightarrow> ('x, (node_id \<times> node) list) prog" where
  "status_nodes a ts = (let ids = concat (map (\<lambda>t. case allocated_node_id_of t of None \<Rightarrow> [] | Some n \<Rightarrow> [n]) ts) in
     if (sa_view a \<or> sa_json a) \<and> ids \<noteq> [] then nodes_get_by_ids ids else returnM [])"

definition status_query :: "status_args \<Rightarrow> ('x, task list \<times> (node_id \<times> node) list) prog" where
  "status_query a = bindM (status_tasks a) (\<lambda>ts. bindM (status_nodes a ts) (\<lambda>nodes. returnM (ts, nodes)))"

text \<open>The \<open>finally\<close> clause removes the snippet that \<open>_render_view\<close> returned.\<close>

definition check_status ::
  "(rat \<Rightarrow> string) \<Rightarrow> string \<Rightarrow> exn + 'c \<Rightarrow> viewer \<Rightarrow> status_args \<Rightarrow> ('z, int) cprog" where
  "check_status fl tz config v a = exit_code (
     bindM (fromSum config) (\<lambda>_.
     bindM (with_uow (status_query a)) (\<lambda>(ts, nodes).
       if sa_view a then bindM (render_view v (sa_convergence a) nodes ts) (\<lambda>made. whenM made unlink_snippet)
       else if sa_info a then print_out (concat (map info_line ts))
       else if sa_json a then print_out (render_status_json fl tz nodes ts @ newline)
       else print_out (concat (map default_line ts)))))"

end
