(* ===== verification/Aiida.thy ===== *)
theory Aiida
  imports Cli_Views Ini
begin

text \<open>
  The way a job comes in and is watched: \<open>yasubmit\<close> (\<open>entrypoints/cli/submit.py\<close>), the AiiDA scheduler plugin that
  runs \<open>yasubmit\<close> and \<open>yastatus\<close> and reads their output (\<open>entrypoints/aiida_plugin.py\<close>), and the Python client
  (\<open>entrypoints/client.py\<close>).  AiiDA's own functions, its database of nodes and the shell quoting it brings, are
  parameters; so is the decoding of UTF-8.
\<close>

section \<open>The submission script\<close>

text \<open>\<open>str.splitlines\<close>.\<close>

definition line_break :: "char \<Rightarrow> bool" where
  "line_break c \<longleftrightarrow> (let n = of_char c :: nat in (10 \<le> n \<and> n \<le> 13) \<or> (28 \<le> n \<and> n \<le> 30) \<or> n = 133)"

fun splitlines_from :: "string \<Rightarrow> string \<Rightarrow> string list" where
  "splitlines_from acc [] = (if acc = [] then [] else [rev acc])"
| "splitlines_from acc (c # cs) =
     (if line_break c then rev acc # splitlines_from [] (if c = CHR 0x0D \<and> take 1 cs = [CHR 0x0A] then drop 1 cs else cs)
      else splitlines_from (c # acc) cs)"

definition splitlines :: "string \<Rightarrow> string list" where
  "splitlines = splitlines_from []"

type_synonym script_params = "(string \<times> string) list"

text \<open>A line with no or more than one equals sign is skipped.\<close>

definition script_line :: "script_params \<Rightarrow> string \<Rightarrow> script_params" where
  "script_line d line = (case split_on CHR ''='' line of [k, v] \<Rightarrow> dput (strip k) (strip v) d | _ \<Rightarrow> d)"

definition parse_script_metadata :: "string \<Rightarrow> script_params" where
  "parse_script_metadata text = foldl script_line [] (splitlines text)"

text \<open>The files of the working directory: a path's bytes, or the error of opening it.  Text mode turns every line end
  into a newline.\<close>

record job_files =
  jf_bytes :: "string \<Rightarrow> exn + string"
  jf_utf8 :: "string \<Rightarrow> string option"

fun text_mode :: "string \<Rightarrow> string" where
  "text_mode [] = []"
| "text_mode (c # cs) = (if c = CHR 0x0D then CHR 0x0A # text_mode (if take 1 cs = [CHR 0x0A] then drop 1 cs else cs)
     else c # text_mode cs)"

definition read_input_file :: "job_files \<Rightarrow> string \<Rightarrow> exn + string" where
  "read_input_file fs path = (case jf_bytes fs path of
      Inl e \<Rightarrow> Inl e
    | Inr bytes \<Rightarrow> (case jf_utf8 fs bytes of Some text \<Rightarrow> Inr (text_mode text) | None \<Rightarrow> Inr (b64_encode bytes)))"

fun read_input_files :: "job_files \<Rightarrow> ppath \<Rightarrow> string list \<Rightarrow> exn + pydict" where
  "read_input_files fs folder [] = Inr []"
| "read_input_files fs folder (f # rest) = (case read_input_file fs (path_str (path_div folder f)) of
      Inl e \<Rightarrow> Inl e
    | Inr text \<Rightarrow> (case read_input_files fs folder rest of
          Inl e \<Rightarrow> Inl e
        | Inr d \<Rightarrow> Inr ((f, PStr text) # d)))"

definition dict_update :: "pydict \<Rightarrow> pydict \<Rightarrow> pydict" where
  "dict_update d kvs = foldl (\<lambda>d (k, v). dput k v d) d kvs"

definition build_metadata ::
  "job_files \<Rightarrow> engine_repository \<Rightarrow> string option \<Rightarrow> ppath \<Rightarrow> script_params \<Rightarrow> exn + pydict" where
  "build_metadata fs engines webhook_url folder params =
     (case (case engines_get engines (case dget params ''ENGINE'' of None \<Rightarrow> [] | Some n \<Rightarrow> n) of
              None \<Rightarrow> Inr []
            | Some e \<Rightarrow> read_input_files fs folder (e_input_files e)) of
        Inl x \<Rightarrow> Inl x
      | Inr inputs \<Rightarrow>
          (let d = dict_update [(''local_folder'', PStr (path_str folder))] inputs in
           Inr (case (dget params ''PARENT'', webhook_url) of
               (Some p, Some u) \<Rightarrow> if u = [] then d
                   else dput ''webhook_custom_params'' (PDict [(''parent'', PStr p)]) (dput ''webhook_url'' (PStr u) d)
             | _ \<Rightarrow> d)))"

section \<open>yasubmit\<close>

definition submit_engine :: "engine_repository \<Rightarrow> script_params \<Rightarrow> exn + engine" where
  "submit_engine engines params = (case dget params ''ENGINE'' of
      None \<Rightarrow> Inl (ValueError ''Script has not defined an engine'')
    | Some n \<Rightarrow> if n = [] then Inl (ValueError ''Script has not defined an engine'')
        else (case engines_get engines n of
            None \<Rightarrow> Inl (ValueError (''Engine '' @ n @ '' is not supported''))
          | Some e \<Rightarrow> Inr e))"

definition submit_label :: "script_params \<Rightarrow> string" where
  "submit_label params = (case dget params ''LABEL'' of None \<Rightarrow> ''AiiDA job'' | Some l \<Rightarrow> l)"

text \<open>\<open>config\<close> is the outcome of parsing the configuration, of which the engines and the webhook address are used;
  \<open>script\<close> is the text of the script, or the error of reading it.\<close>

definition submit ::
  "(pyval option \<Rightarrow> exn + string option) \<Rightarrow> (pyval \<Rightarrow> exn + pydict) \<Rightarrow> job_files
     \<Rightarrow> exn + engine_repository \<times> string option \<Rightarrow> ppath \<Rightarrow> exn + string \<Rightarrow> ('z, int) cprog" where
  "submit bind_text bind_json fs config cwd script = exit_code (
     bindM (fromSum config) (\<lambda>(engines, webhook_url).
     bindM (fromSum script) (\<lambda>text. let params = parse_script_metadata text in
     bindM (fromSum (submit_engine engines params)) (\<lambda>e.
     bindM (fromSum (build_metadata fs engines webhook_url cwd params)) (\<lambda>d.
     bindM (submit_task bind_text bind_json (submit_label params) d (e_name e) engines) (\<lambda>tid.
       print_out (task_id_str tid @ newline)))))))"

section \<open>The AiiDA plugin\<close>

datatype job_state = QUEUED | JOB_RUNNING | JOB_DONE

definition MAP_STATUS :: "(string \<times> job_state) list" where
  "MAP_STATUS = [(''TO_DO'', QUEUED), (''RUNNING'', JOB_RUNNING), (''DONE'', JOB_DONE)]"

datatype jobs_arg = NoJobs | OneJob string | JobList "string list" | OtherJobs

definition joblist_command :: "jobs_arg \<Rightarrow> string option \<Rightarrow> exn + string" where
  "joblist_command jobs user =
     (if nonempty user then Inl (OtherError ''Cannot query by user in Yascheduler'')
      else case jobs of
        NoJobs \<Rightarrow> Inr ''yastatus''
      | OneJob j \<Rightarrow> if j = [] then Inr ''yastatus'' else Inr (join '' '' [''yastatus'', ''--jobs '' @ join '' '' [j]])
      | JobList js \<Rightarrow> if js = [] then Inr ''yastatus'' else Inr (join '' '' [''yastatus'', ''--jobs '' @ join '' '' js])
      | OtherJobs \<Rightarrow> Inl (TypeError (''If provided, the '' @ [char_of (39::nat)] @ ''jobs'' @ [char_of (39::nat)]
                      @ '' variable must be a string or a list of strings'')))"

definition detailed_command :: "string \<Rightarrow> string" where
  "detailed_command jobid = ''yastatus --jobs '' @ jobid"

definition submit_command :: "(string \<Rightarrow> string) \<Rightarrow> string \<Rightarrow> string" where
  "submit_command escape filename = ''yasubmit '' @ escape filename"

text \<open>What the script header takes from AiiDA's node: the label of the code, and the caller's identifier if it has a
  caller.\<close>

definition job_pk :: "string \<Rightarrow> exn + int" where
  "job_pk name = (case split_on CHR ''-'' name of
      _ # p # _ \<Rightarrow> (case py_int p of Some n \<Rightarrow> Inr n | None \<Rightarrow> Inl (ValueError ''invalid literal for int() with base 10''))
    | _ \<Rightarrow> Inl (OtherError ''list index out of range''))"

definition submit_header :: "(int \<Rightarrow> exn + (string \<times> string option)) \<Rightarrow> string \<Rightarrow> exn + string" where
  "submit_header load_node job_name =
     (if job_name = [] then Inl (OtherError ''assertion failed'') else
      case job_pk job_name of
        Inl e \<Rightarrow> Inl e
      | Inr pk \<Rightarrow> (case load_node pk of
            Inl e \<Rightarrow> Inl e
          | Inr (code_label, caller) \<Rightarrow> Inr (join newline
              ([''ENGINE='' @ lower code_label] @ (case caller of None \<Rightarrow> [] | Some u \<Rightarrow> [''PARENT='' @ u])
               @ [''LABEL='' @ job_name]))))"

text \<open>The output is the id, whether it is a number or not: the failure is only logged.\<close>

definition parse_submit_output :: "string \<Rightarrow> string" where
  "parse_submit_output out = strip out"

definition job_of_line :: "string \<Rightarrow> exn + (string \<times> job_state)" where
  "job_of_line line = (case py_words line of
      [j, s] \<Rightarrow> (case dget MAP_STATUS s of None \<Rightarrow> Inl (KeyErr s) | Some st \<Rightarrow> Inr (j, st))
    | _ \<Rightarrow> Inl (ValueError ''cannot unpack the line''))"

definition parse_joblist_output :: "string \<Rightarrow> exn + (string \<times> job_state) list" where
  "parse_joblist_output out = map_sum_list job_of_line (filter (\<lambda>l. l \<noteq> []) (split_on CHR 0x0A out))"

text \<open>With \<open>as_dict\<close> the jobs are keyed by their ids.\<close>

definition jobs_dict :: "(string \<times> job_state) list \<Rightarrow> (string \<times> job_state) list" where
  "jobs_dict js = foldl (\<lambda>d (j, s). dput j s d) [] js"

definition kill_job :: "string \<Rightarrow> bool" where
  "kill_job jobid = False"

definition kill_command :: "string \<Rightarrow> exn + string" where
  "kill_command jobid = Inl (OtherError ''Job cancellation is not supported by Yascheduler'')"

section \<open>The Python client\<close>

record client_task =
  ct_task_id :: int
  ct_label :: string
  ct_status :: task_status
  ct_metadata :: pydict
  ct_node :: pyval

definition extra_unless_present :: "pydict \<Rightarrow> pydict \<Rightarrow> pydict" where
  "extra_unless_present extra d = foldl (\<lambda>d (k, v). if dhas d k then d else dput k v d) d extra"

definition put_some :: "string \<Rightarrow> pyval option \<Rightarrow> pydict \<Rightarrow> pydict" where
  "put_some k v d = (case v of None \<Rightarrow> d | Some x \<Rightarrow> dput k x d)"

definition client_metadata :: "task \<Rightarrow> pydict" where
  "client_metadata t = extra_unless_present (t_extra t)
     (put_some ''error'' (map_option PStr (error_of t))
     ((if t_webhook_custom_params t = [] then id else dput ''webhook_custom_params'' (PDict (t_webhook_custom_params t)))
     (put_some ''webhook_url'' (map_option PStr (t_webhook_url t))
     (put_some ''local_folder'' (map_option PStr (t_local_folder t))
     (put_some ''remote_folder'' (map_option PStr (remote_folder_of t))
       [(''engine'', PStr (t_engine t))])))))"

definition task_to_dict :: "string \<Rightarrow> (node_id \<times> node) list \<Rightarrow> task \<Rightarrow> client_task" where
  "task_to_dict tz nodes t = \<lparr>ct_task_id = tid_value (t_task_id t), ct_label = t_label t, ct_status = t_status t,
     ct_metadata = client_metadata t, ct_node = opt_json (node_json tz) (node_of_task nodes t)\<rparr>"

definition queue_submit_task ::
  "(pyval option \<Rightarrow> exn + string option) \<Rightarrow> (pyval \<Rightarrow> exn + pydict) \<Rightarrow> engine_repository \<Rightarrow> string \<Rightarrow> pydict \<Rightarrow> string
     \<Rightarrow> ('x, int) prog" where
  "queue_submit_task bind_text bind_json engines label metadata name =
     bindM (submit_task bind_text bind_json label metadata name engines) (\<lambda>tid. returnM (tid_value tid))"

definition optional_list :: "('a \<Rightarrow> exn + 'b) \<Rightarrow> 'a list option \<Rightarrow> exn + 'b list option" where
  "optional_list f x = (case x of None \<Rightarrow> Inr None
     | Some xs \<Rightarrow> if xs = [] then Inr None else map_sum id Some (map_sum_list f xs))"

definition queue_get_tasks :: "string \<Rightarrow> int list option \<Rightarrow> int list option \<Rightarrow> ('x, client_task list) prog" where
  "queue_get_tasks tz jobs status =
     bindM (fromSum (optional_list status_of_code status)) (\<lambda>sts.
     bindM (fromSum (optional_list mk_task_id jobs)) (\<lambda>ids.
     bindM (query_tasks ids sts) (\<lambda>(ts, nodes). returnM (map (task_to_dict tz nodes) ts))))"

definition queue_get_task :: "string \<Rightarrow> int \<Rightarrow> ('x, client_task option) prog" where
  "queue_get_task tz task_id = bindM (queue_get_tasks tz (Some [task_id]) None) (\<lambda>ts.
     returnM (case ts of t # _ \<Rightarrow> Some t | [] \<Rightarrow> None))"

text \<open>\<open>to_sync\<close>: with a running loop the call goes to a thread of its own, inside the \<open>try\<close> that is meant for the
  missing loop; a coroutine may run once.\<close>

definition is_RuntimeError :: "exn \<Rightarrow> bool" where
  "is_RuntimeError e = (case e of RuntimeErr _ \<Rightarrow> True | UnitOfWorkNotInitializedError _ \<Rightarrow> True
     | TaskRowNotFoundError _ \<Rightarrow> True | _ \<Rightarrow> False)"

definition to_sync :: "bool \<Rightarrow> ('s, exn, 'a) M \<Rightarrow> ('s, exn, 'a) M" where
  "to_sync loop_running m = (if \<not> loop_running then m
     else catchM m (\<lambda>e. if is_RuntimeError e
       then raiseM (RuntimeErr ''asyncio.run() cannot be called from a running event loop'') else raiseM e))"

end
