(* ===== verification/Webhook.thy ===== *)
theory Webhook
  imports Retry
begin

text \<open>
  \<open>infra/notifier/webhook.py\<close>: one POST per event to the task's address, retried on the HTTP library's errors.  The
  library is the list of answers in the state, each after a delay, with the posts made so far; \<open>is_client_error\<close> is its
  exception class and \<open>client_error\<close> its constructor.  The semaphore that bounds the posts in flight is left out.
\<close>

record hook_world = world +
  hk_answers :: "(real \<times> (exn + int \<times> (exn + string))) list"
  hk_posts :: "(string \<times> pydict) list"

type_synonym ('z, 'a) hook = "('z hook_world_scheme, exn, 'a) M"

record http_lib =
  hl_client_error :: "string \<Rightarrow> exn"
  hl_is_client_error :: "exn \<Rightarrow> bool"

record webhook_payload =
  wp_task_id :: int
  wp_status :: int
  wp_custom_params :: pydict

definition asdict :: "webhook_payload \<Rightarrow> pydict" where
  "asdict p = [(''task_id'', PInt (wp_task_id p)), (''status'', PInt (wp_status p)),
     (''custom_params'', PDict (wp_custom_params p))]"

text \<open>\<open>http.post\<close>: the request goes out, time passes, an answer or an exception comes.\<close>

definition http_post :: "string \<Rightarrow> pydict \<Rightarrow> ('z, int \<times> (exn + string)) hook" where
  "http_post url body w = (let w1 = w\<lparr>hk_posts := hk_posts w @ [(url, body)]\<rparr> in
     case hk_answers w of
       [] \<Rightarrow> (Inl (TimeoutErr ''no answer''), w1)
     | (d, a) # as \<Rightarrow> (a, w1\<lparr>hk_answers := as, w_clock := w_clock w + max 0 d\<rparr>))"

text \<open>One attempt of \<open>_send_webhook\<close>, inside the decorator.\<close>

definition send_once :: "http_lib \<Rightarrow> string \<Rightarrow> webhook_payload \<Rightarrow> ('z, unit) hook" where
  "send_once lib url p = bindM (http_post url (asdict p)) (\<lambda>(status, text).
     if status < 400 then skipM
     else bindM (fromSum text) (\<lambda>t. raiseM (hl_client_error lib (''HTTP '' @ show_int status @ '': '' @ t))))"

definition send_webhook :: "http_lib \<Rightarrow> string \<Rightarrow> webhook_payload \<Rightarrow> ('z, unit) hook" where
  "send_webhook lib url p = retry ((retry_defaults (hl_is_client_error lib))\<lparr>rp_max_time := 60\<rparr>) (send_once lib url p)"

definition event_status :: "event \<Rightarrow> task_status" where
  "event_status ev = (case ev of TaskCreated _ _ \<Rightarrow> TO_DO | TaskAllocated _ _ _ \<Rightarrow> RUNNING | _ \<Rightarrow> DONE)"

definition payload_of :: "event \<Rightarrow> webhook_payload" where
  "payload_of ev = \<lparr>wp_task_id = tid_value (ev_task_id (event_base ev)), wp_status = status_code (event_status ev),
     wp_custom_params = ev_webhook_custom_params (event_base ev)\<rparr>"

definition webhook_handler :: "http_lib \<Rightarrow> event \<Rightarrow> ('z, unit) hook" where
  "webhook_handler lib ev = (case ev_webhook_url (event_base ev) of
      None \<Rightarrow> skipM
    | Some url \<Rightarrow> catchM (send_webhook lib url (payload_of ev))
        (\<lambda>e. if hl_is_client_error lib e then skipM else raiseM e))"

section \<open>What the handler sends\<close>

definition posted :: "string \<times> pydict \<Rightarrow> nat \<Rightarrow> 'z hook_world_scheme \<Rightarrow> 'z hook_world_scheme \<Rightarrow> bool" where
  "posted x n w w' \<longleftrightarrow> hk_posts w' = hk_posts w @ replicate n x \<and> w_clock w \<le> w_clock w'"

lemma http_post_posted: "http_post url body w = (r, w') \<Longrightarrow> posted (url, body) 1 w w'"
  by (auto simp: http_post_def Let_def posted_def split: list.splits prod.splits)

lemma send_once_posted: "send_once lib url p w = (r, w') \<Longrightarrow> posted (url, asdict p) 1 w w'"
proof -
  assume s: "send_once lib url p w = (r, w')"
  obtain q v where q: "http_post url (asdict p) w = (q, v)" by (cases "http_post url (asdict p) w")
  have "w' = v" using s q
    by (auto simp: send_once_def bindM_def skipM_def returnM_def raiseM_def fromSum_def split: sum.splits if_splits)
  then show ?thesis using http_post_posted [OF q] by simp
qed

lemma sleep_posts: "hk_posts (snd (sleep d w)) = hk_posts w" "w_clock (snd (sleep d w)) = w_clock w + d"
  by (simp_all add: sleep_def modifyM_def)

text \<open>The pauses between the attempts, and what the first of them add up to.\<close>

fun backoff :: "retry_params \<Rightarrow> nat \<Rightarrow> real \<Rightarrow> real" where
  "backoff p 0 delay = 0"
| "backoff p (Suc k) delay = delay + backoff p k (min (delay * rp_factor p) (rp_max_delay p))"

lemma backoff_mono:
  assumes d: "0 \<le> rp_factor p" "0 \<le> rp_max_delay p" and k: "k \<le> l" and delay: "0 \<le> delay"
  shows "backoff p k delay \<le> backoff p l delay"
  using k delay
proof (induction k arbitrary: l delay)
  case 0
  have "0 \<le> x \<Longrightarrow> 0 \<le> backoff p l x" for x
    by (induction l arbitrary: x) (use d in \<open>auto intro!: add_nonneg_nonneg mult_nonneg_nonneg simp: min_def\<close>)
  then show ?case using 0 by simp
next
  case (Suc k)
  then obtain l' where l: "l = Suc l'" "k \<le> l'" by (cases l) auto
  then show ?case using Suc.IH [OF l(2), of "min (delay * rp_factor p) (rp_max_delay p)"] Suc.prems(2) d by simp
qed

text \<open>The loop posts the same thing each time; a last attempt but one that failed did so before the deadline.\<close>

lemma retry_loop_posts:
  assumes m: "\<And>w. posted x 1 w (snd (m w))"
    and d: "0 \<le> rp_factor p" "0 \<le> rp_max_delay p"
  shows "retry_loop fuel p deadline delay m w = (r, w') \<Longrightarrow> 0 \<le> delay \<Longrightarrow>
     \<exists>n. 1 \<le> n \<and> posted x n w w' \<and> (\<exists>u v. m u = (r, v)) \<and> (n = 1 \<or> w_clock w + backoff p (n - 2) delay < deadline)"
proof (induction fuel arbitrary: delay w)
  case 0
  obtain q v where q: "m w = (q, v)" by (cases "m w")
  then have "(r, w') = (q, v)" using 0 by (subst (asm) retry_loop.simps) (auto split: sum.splits if_splits)
  then show ?case using m [of w] q by (intro exI [of _ 1]) auto
next
  case (Suc fuel)
  obtain q v where q: "m w = (q, v)" by (cases "m w")
  have p1: "posted x 1 w v" using m [of w] q by simp
  show ?case
  proof (cases "(r, w') = (q, v)")
    case True
    then show ?thesis using p1 q by (intro exI [of _ 1]) auto
  next
    case False
    let ?u = "snd (sleep delay v)" and ?d = "min (delay * rp_factor p) (rp_max_delay p)"
    have "retry_loop fuel p deadline ?d m ?u = (r, w')" and early: "w_clock v < deadline"
      using False Suc.prems(1) q by (subst (asm) retry_loop.simps, auto split: sum.splits if_splits)+
    moreover have "0 \<le> ?d" using Suc.prems(2) d by simp
    ultimately obtain n where n: "1 \<le> n" "posted x n ?u w'" "\<exists>u v. m u = (r, v)"
        and b: "n = 1 \<or> w_clock ?u + backoff p (n - 2) ?d < deadline"
      using Suc.IH by blast
    have "posted x (Suc n) w w'"
      using p1 n(2) Suc.prems(2) by (simp add: posted_def sleep_posts)
    moreover have "w_clock w + backoff p (Suc n - 2) delay < deadline"
    proof (cases "n = 1")
      case True
      then show ?thesis using early p1 by (simp add: posted_def)
    next
      case False
      then obtain k where k: "n = Suc (Suc k)" using n(1) by (metis One_nat_def Suc_le_D not0_implies_Suc)
      then show ?thesis using b p1 by (simp add: posted_def sleep_posts)
    qed
    ultimately show ?thesis using n by (intro exI [of _ "Suc n"]) auto
  qed
qed

text \<open>Ten attempts at most: the nine pauses that would precede an eleventh last longer than a minute.\<close>

abbreviation hook_params :: "http_lib \<Rightarrow> retry_params" where
  "hook_params lib \<equiv> (retry_defaults (hl_is_client_error lib))\<lparr>rp_max_time := 60\<rparr>"

lemma nine_pauses: "60 < backoff (hook_params lib) 9 1"
  by (simp add: retry_defaults_def numeral_eq_Suc)

theorem webhook_outcome:
  assumes "webhook_handler lib ev w = (r, w')"
  shows "case ev_webhook_url (event_base ev) of
      None \<Rightarrow> r = Inr () \<and> w' = w
    | Some url \<Rightarrow> (\<exists>n. 1 \<le> n \<and> n \<le> 10 \<and> hk_posts w' = hk_posts w @ replicate n (url, asdict (payload_of ev)))
        \<and> (\<forall>e. r = Inl e \<longrightarrow> \<not> hl_is_client_error lib e)"
proof (cases "ev_webhook_url (event_base ev)")
  case None
  then show ?thesis using assms by (simp add: webhook_handler_def skipM_def returnM_def)
next
  case (Some url)
  let ?m = "send_once lib url (payload_of ev)" and ?p = "hook_params lib"
  obtain q v where q: "send_webhook lib url (payload_of ev) w = (q, v)" by (cases "send_webhook lib url (payload_of ev) w")
  have l: "retry_loop (retry_rounds ?p) ?p (w_clock w + 60) 1 ?m w = (q, v)"
    using q by (simp add: send_webhook_def retry_def) (simp add: retry_defaults_def)
  have m: "posted (url, asdict (payload_of ev)) 1 a (snd (?m a))" for a
    using send_once_posted prod.collapse [symmetric] .
  have d: "0 \<le> rp_factor ?p" "0 \<le> rp_max_delay ?p" by (simp_all add: retry_defaults_def)
  from retry_loop_posts [where m = ?m and x = "(url, asdict (payload_of ev))" and p = ?p, OF m d l]
  obtain n where n: "1 \<le> n" "posted (url, asdict (payload_of ev)) n w v" "n = 1 \<or> backoff ?p (n - 2) 1 < 60"
    by auto
  have "n \<le> 10"
  proof (rule ccontr)
    assume "\<not> n \<le> 10"
    then have "n \<noteq> 1" "9 \<le> n - 2" by simp_all
    then show False using n(3) backoff_mono [OF d, of 9 "n - 2" 1] nine_pauses [of lib] by simp
  qed
  moreover have "hk_posts v = hk_posts w @ replicate n (url, asdict (payload_of ev))" using n(2) by (simp add: posted_def)
  moreover have w': "w' = v" "r = (case q of Inl e \<Rightarrow> if hl_is_client_error lib e then Inr () else Inl e | Inr _ \<Rightarrow> Inr ())"
    using assms by (auto simp: webhook_handler_def Some catchM_def q skipM_def returnM_def raiseM_def split: sum.splits if_splits)
  moreover have "\<forall>e. r = Inl e \<longrightarrow> \<not> hl_is_client_error lib e" by (auto simp: w'(2) split: sum.splits if_splits)
  ultimately show ?thesis unfolding Some option.case using n(1) by blast
qed

end
