(* ===== verification/Composition.thy ===== *)
theory Composition
  imports Daemon Config_Parser Migrations Webhook Submit_Query
begin

text \<open>
  The composition of the program: \<open>entrypoints/di.py\<close>, which wires the daemon and the command line's dependencies, and
  \<open>entrypoints/cli/daemon_common.py\<close>, the daemon's life from the check of the schema to the shutdown.
\<close>

section \<open>The message buses\<close>

text \<open>The daemon registers the webhook for every event, \<open>hook\<close> being its call.  The command line's bus stays empty.\<close>

definition domain_bus :: "(event \<Rightarrow> exn option) \<Rightarrow> bus" where
  "domain_bus hook = foldl (\<lambda>b k. bus_register k (Handler ''webhook_handler'' hook) b) []
     [KCreated, KAllocated, KCompleted, KFailed, KAbandoned]"

definition cli_bus :: bus where
  "cli_bus = []"

text \<open>\<open>make_cli_deps\<close>: the unit of work publishes on the command line's bus.  \<open>CLIDeps.submit\<close> runs the use case.\<close>

definition cli_store :: "'x store_scheme \<Rightarrow> 'x store_scheme" where
  "cli_store s = s\<lparr>st_bus := cli_bus\<rparr>"

definition cli_submit ::
  "(pyval option \<Rightarrow> exn + string option) \<Rightarrow> (pyval \<Rightarrow> exn + pydict) \<Rightarrow> engine_repository \<Rightarrow> string \<Rightarrow> pydict \<Rightarrow> string
     \<Rightarrow> ('x, task_id) prog" where
  "cli_submit bind_text bind_json engines label metadata name =
     (\<lambda>s. submit_task bind_text bind_json label metadata name engines (cli_store s))"

section \<open>The clouds of the daemon\<close>

record cloud_wiring =
  cw_adapters :: "(string \<times> adapter) list"
  cw_configs :: "(string \<times> config_cloud) list"
  cw_active :: "config_cloud list"

definition wire_cloud :: "(string \<Rightarrow> bool) \<Rightarrow> cloud_wiring \<Rightarrow> config_cloud \<Rightarrow> cloud_wiring" where
  "wire_cloud installed cw cfg =
     (if cfg_max_nodes cfg \<le> 0 then cw
      else case resolve_adapter installed cfg of
        None \<Rightarrow> cw
      | Some a \<Rightarrow> cw\<lparr>cw_adapters := dput (ad_name a) a (cw_adapters cw),
                     cw_configs := dput (ad_name a) cfg (cw_configs cw),
                     cw_active := cw_active cw @ [cfg]\<rparr>)"

definition wire_clouds :: "(string \<Rightarrow> bool) \<Rightarrow> config_cloud list \<Rightarrow> cloud_wiring" where
  "wire_clouds installed cfgs = foldl (wire_cloud installed) \<lparr>cw_adapters = [], cw_configs = [], cw_active = []\<rparr> cfgs"

text \<open>The clouds a caller brings along: those of the configuration whose adapter was resolved.\<close>

definition active_of :: "(string \<times> config_cloud) list \<Rightarrow> config_cloud list \<Rightarrow> config_cloud list" where
  "active_of configs cfgs = filter (\<lambda>cfg. 0 < cfg_max_nodes cfg \<and> dhas configs (cfg_prefix cfg)) cfgs"

definition make_provisioner :: "(string \<Rightarrow> bool) \<Rightarrow> config \<Rightarrow> provisioner" where
  "make_provisioner installed cf = (let cw = wire_clouds installed (cf_clouds cf) in
     \<lparr>pv_adapters = cw_adapters cw, pv_configs = cw_configs cw, pv_remote = cf_remote cf, pv_engines = cf_engines cf\<rparr>)"

text \<open>\<open>make_daemon\<close>, without clouds and with clouds of the caller's, which keep their own remote settings and engines.\<close>

definition make_daemon ::
  "(string \<Rightarrow> bool) \<Rightarrow> provisioner option \<Rightarrow> config \<Rightarrow> keys_outcome
    \<Rightarrow> (session \<Rightarrow> exn + int) \<Rightarrow> (pyval \<Rightarrow> string) \<Rightarrow> (string \<Rightarrow> string) \<Rightarrow> 'z orch_env" where
  "make_daemon installed given cf keys discover repr quote = (case given of
      None \<Rightarrow> daemon_env (cf_local cf) (make_provisioner installed cf) (cf_clouds cf)
                (cw_active (wire_clouds installed (cf_clouds cf))) keys discover repr quote
    | Some pv \<Rightarrow> (daemon_env (cf_local cf) pv (cf_clouds cf) (active_of (pv_configs pv) (cf_clouds cf)) keys discover repr quote)
        \<lparr>oe_remote := cf_remote cf, oe_engines := cf_engines cf,
         oe_start := orch_start_task discover repr quote (rd_engines_dir (cf_remote cf))\<rparr>)"

lemma oe_settings_make [simp]: "oe_settings (make_daemon installed given cf keys discover repr quote) = cf_local cf"
  by (simp add: make_daemon_def daemon_env_def split: option.splits)

interpretation composed: daemon "make_daemon installed given cf keys discover repr quote"
  for installed given cf keys discover repr quote
  by unfold_locales
     (auto simp: env_ok_def make_daemon_def daemon_env_def manager.cloud_provider_axioms orch_starter.task_starter_axioms
       split: option.splits)

section \<open>The daemon's life\<close>

definition or_none :: "string option \<Rightarrow> string" where
  "or_none s = (case s of None \<Rightarrow> ''None'' | Some x \<Rightarrow> x)"

definition backquote :: string where
  "backquote = [CHR 0x60]"

definition migration_message :: "migration_status \<Rightarrow> string" where
  "migration_message st = (case ms_state st of
      MISSING \<Rightarrow> ''Database migration metadata is absent. Stop the service, run ''
         @ backquote @ ''yainit --schema'' @ backquote @ '', then restart yascheduler.''
    | EMPTY \<Rightarrow> ''Database migrations are unapplied. Stop the service, run ''
         @ backquote @ ''yainit --schema'' @ backquote @ '', then restart yascheduler.''
    | BEHIND \<Rightarrow> ''Database migrations are pending (applied: '' @ or_none (ms_applied st) @ ''; required: ''
         @ ms_required st @ ''). Stop the service, run ''
         @ backquote @ ''yainit --schema'' @ backquote @ '', then restart yascheduler.''
    | _ \<Rightarrow> ''Database migration metadata is newer than this yascheduler package (database: ''
         @ or_none (ms_applied st) @ ''; package: '' @ ms_required st
         @ ''). Install a compatible yascheduler version before restarting.'')"

definition assert_migration_compatibility :: "exn + migration_status \<Rightarrow> exn + unit" where
  "assert_migration_compatibility status = (case status of
      Inl e \<Rightarrow> Inl e
    | Inr st \<Rightarrow> if ms_state st = CURRENT then Inr () else Inl (RuntimeErr (migration_message st)))"

text \<open>\<open>run_daemon\<close>: \<open>status\<close> is the outcome of \<open>check_migration_status\<close>, \<open>build\<close> builds the orchestrator, which \<open>start\<close>
  and \<open>stop\<close> run.  The handlers of the two signals are left out.\<close>

definition run_to_the_end :: "('s, exn, unit) M \<Rightarrow> ('s, exn, unit) M \<Rightarrow> ('s, exn, unit) M" where
  "run_to_the_end start stop = finallyM start stop"

definition run_daemon ::
  "exn + migration_status \<Rightarrow> ('s, exn, 'o) M \<Rightarrow> ('o \<Rightarrow> ('s, exn, unit) M) \<Rightarrow> ('o \<Rightarrow> ('s, exn, unit) M) \<Rightarrow> ('s, exn, unit) M" where
  "run_daemon status build start stop =
     thenM (fromSum (assert_migration_compatibility status))
       (bindM build (\<lambda>orch. run_to_the_end (start orch) (stop orch)))"

section \<open>What is wired\<close>

lemma domain_bus_handlers: "handlers_of (domain_bus hook) ev = [Handler ''webhook_handler'' hook]"
  by (cases ev) (simp_all add: domain_bus_def handlers_of_register handlers_of_def [of "[]"])

lemma cli_bus_silent: "dispatch cli_bus evs tr = (Inr (), tr)"
  by (induction evs) (simp_all add: cli_bus_def handlers_of_def)

lemma adapter_name: "resolve_adapter installed cfg = Some a \<Longrightarrow> ad_name a = cfg_prefix cfg"
  by (auto simp: resolve_adapter_def adapter_getters_def adapter_default_def get_azure_adapter_def get_hetzner_adapter_def
      get_upcloud_adapter_def get_vastai_adapter_def get_vultr_adapter_def split: option.splits if_splits)

lemma resolve_prefix: "cfg_prefix c = cfg_prefix d \<Longrightarrow> resolve_adapter installed c = resolve_adapter installed d"
  using arg_cong [of "cfg_prefix c" "cfg_prefix d" "\<lambda>p. case dget adapter_getters p of None \<Rightarrow> None
    | Some getter \<Rightarrow> if installed p then Some (getter p) else None"]
  by (simp only: resolve_adapter_def)

definition usable :: "(string \<Rightarrow> bool) \<Rightarrow> config_cloud \<Rightarrow> bool" where
  "usable installed cfg \<longleftrightarrow> 0 < cfg_max_nodes cfg \<and> resolve_adapter installed cfg \<noteq> None"

lemma wire_clouds_from:
  "let cw = foldl (wire_cloud installed) cw0 cfgs in
     cw_active cw = cw_active cw0 @ filter (usable installed) cfgs
   \<and> (\<forall>p. dhas (cw_configs cw) p \<longleftrightarrow> dhas (cw_configs cw0) p \<or> (\<exists>c \<in> set cfgs. usable installed c \<and> cfg_prefix c = p))
   \<and> (\<forall>p. dhas (cw_adapters cw) p \<longleftrightarrow> dhas (cw_adapters cw0) p \<or> (\<exists>c \<in> set cfgs. usable installed c \<and> cfg_prefix c = p))"
proof (induction cfgs arbitrary: cw0)
  case Nil
  then show ?case by simp
next
  case (Cons c cs)
  show ?case
  proof (cases "usable installed c")
    case False
    then have "wire_cloud installed cw0 c = cw0" by (auto simp: usable_def wire_cloud_def)
    then show ?thesis using Cons [of cw0] False by (auto simp: Let_def)
  next
    case True
    then obtain a where a: "resolve_adapter installed c = Some a" "0 < cfg_max_nodes c" by (auto simp: usable_def)
    have "wire_cloud installed cw0 c = cw0\<lparr>cw_adapters := dput (cfg_prefix c) a (cw_adapters cw0),
        cw_configs := dput (cfg_prefix c) c (cw_configs cw0), cw_active := cw_active cw0 @ [c]\<rparr>"
      using a adapter_name [OF a(1)] by (simp add: wire_cloud_def)
    then show ?thesis using Cons [of "wire_cloud installed cw0 c"] True
      by (auto simp: Let_def dhas_def)
  qed
qed

lemma wire_clouds_outcome:
  "cw_active (wire_clouds installed cfgs) = filter (usable installed) cfgs"
  "dhas (cw_configs (wire_clouds installed cfgs)) p \<longleftrightarrow> (\<exists>c \<in> set cfgs. usable installed c \<and> cfg_prefix c = p)"
  "dhas (cw_adapters (wire_clouds installed cfgs)) p \<longleftrightarrow> (\<exists>c \<in> set cfgs. usable installed c \<and> cfg_prefix c = p)"
proof -
  note w = wire_clouds_from [of installed "\<lparr>cw_adapters = [], cw_configs = [], cw_active = []\<rparr>" cfgs,
      folded wire_clouds_def, unfolded Let_def cloud_wiring.select_convs append_Nil]
  show "cw_active (wire_clouds installed cfgs) = filter (usable installed) cfgs"
    using w by (rule conjunct1)
  show "dhas (cw_configs (wire_clouds installed cfgs)) p \<longleftrightarrow> (\<exists>c \<in> set cfgs. usable installed c \<and> cfg_prefix c = p)"
    using w [THEN conjunct2, THEN conjunct1, THEN spec, of p] by (simp add: dhas_def)
  show "dhas (cw_adapters (wire_clouds installed cfgs)) p \<longleftrightarrow> (\<exists>c \<in> set cfgs. usable installed c \<and> cfg_prefix c = p)"
    using w [THEN conjunct2, THEN conjunct2, THEN spec, of p] by (simp add: dhas_def)
qed

text \<open>The two branches of \<open>make_daemon\<close> agree on the active clouds.\<close>

lemma active_of_own: "active_of (cw_configs (wire_clouds installed cfgs)) cfgs = cw_active (wire_clouds installed cfgs)"
proof -
  have "0 < cfg_max_nodes c \<and> (\<exists>d \<in> set cfgs. usable installed d \<and> cfg_prefix d = cfg_prefix c) \<longleftrightarrow> usable installed c"
    if "c \<in> set cfgs" for c
  proof
    assume a: "0 < cfg_max_nodes c \<and> (\<exists>d \<in> set cfgs. usable installed d \<and> cfg_prefix d = cfg_prefix c)"
    then obtain d where d: "usable installed d" "cfg_prefix d = cfg_prefix c" by blast
    have "resolve_adapter installed c = resolve_adapter installed d" by (rule resolve_prefix [OF d(2) [symmetric]])
    then show "usable installed c" using a d(1) by (simp add: usable_def)
  next
    assume u: "usable installed c"
    then have "0 < cfg_max_nodes c" unfolding usable_def by (rule conjunct1)
    moreover have "\<exists>d \<in> set cfgs. usable installed d \<and> cfg_prefix d = cfg_prefix c"
      using that u by (intro bexI [of _ c] conjI refl)
    ultimately show "0 < cfg_max_nodes c \<and> (\<exists>d \<in> set cfgs. usable installed d \<and> cfg_prefix d = cfg_prefix c)"
      by (rule conjI)
  qed
  then show ?thesis unfolding active_of_def wire_clouds_outcome by (rule filter_cong [OF refl])
qed

lemma make_daemon_own:
  "make_daemon installed (Some (make_provisioner installed cf)) cf keys discover repr quote
    = make_daemon installed None cf keys discover repr quote"
  by (simp add: make_daemon_def make_provisioner_def Let_def active_of_own daemon_env_def)

end
