(* ===== verification/Cli_Facts.thy ===== *)
theory Cli_Facts
  imports Aiida Composition Orchestrator_Facts
begin

text \<open>
  The facts on the command line: what \<open>yanodes\<close> and \<open>yastatus\<close> show of the tables, that they leave no file behind, and
  that the AiiDA plugin reads back what the commands print.
\<close>

section \<open>The table of yanodes\<close>

definition table_width :: "nat list \<Rightarrow> nat" where
  "table_width ws = sum_list ws + 2 * (length ws - 1)"

definition column_start :: "nat list \<Rightarrow> nat \<Rightarrow> nat" where
  "column_start ws j = sum_list (take j ws) + 2 * j"

definition fits :: "nat list \<Rightarrow> string list \<Rightarrow> bool" where
  "fits ws cs \<longleftrightarrow> length cs = length ws \<and> (\<forall>j < length ws. length (cs ! j) \<le> ws ! j)"

lemma length_ljust: "length (ljust s n) = max (length s) n"
  by (simp add: ljust_def max_def)

lemma table_line_Cons:
  "table_line (w # ws) (c # cs) = ljust c w @ (if ws = [] \<or> cs = [] then [] else ''  '' @ table_line ws cs)"
  by (cases ws; cases cs) (simp_all add: table_line_def)

lemma fits_Cons: "fits (w # ws) (c # cs) \<longleftrightarrow> length c \<le> w \<and> fits ws cs"
  by (auto simp: fits_def nth_Cons split: nat.split)

lemma table_line_length: "fits ws cs \<Longrightarrow> ws \<noteq> [] \<Longrightarrow> length (table_line ws cs) = table_width ws"
proof (induction ws arbitrary: cs)
  case (Cons w ws)
  then obtain c cs' where cs: "cs = c # cs'" by (cases cs) (auto simp: fits_def)
  have f: "length c \<le> w" "fits ws cs'" using Cons.prems(1) by (auto simp: cs fits_Cons)
  show ?case
  proof (cases "ws = []")
    case True
    then show ?thesis using f by (simp add: cs table_line_Cons length_ljust table_width_def)
  next
    case False
    then have "cs' \<noteq> []" using f(2) by (auto simp: fits_def)
    then show ?thesis
      using f False Cons.IH [OF f(2) False] by (cases ws) (simp_all add: cs table_line_Cons length_ljust table_width_def)
  qed
qed simp

lemma table_line_column:
  "fits ws cs \<Longrightarrow> j < length ws \<Longrightarrow> take (length (cs ! j)) (drop (column_start ws j) (table_line ws cs)) = cs ! j"
proof (induction ws arbitrary: cs j)
  case (Cons w ws)
  then obtain c cs' where cs: "cs = c # cs'" by (cases cs) (auto simp: fits_def)
  have f: "length c \<le> w" "fits ws cs'" using Cons.prems(1) by (auto simp: cs fits_Cons)
  show ?case
  proof (cases j)
    case 0
    then show ?thesis by (simp add: cs column_start_def table_line_Cons ljust_def)
  next
    case (Suc i)
    then have i: "i < length ws" using Cons.prems(2) by simp
    then have ne: "ws \<noteq> []" "cs' \<noteq> []" using f(2) by (auto simp: fits_def)
    have "drop (column_start (w # ws) j) (table_line (w # ws) cs) = drop (column_start ws i) (table_line ws cs')"
      using f(1) ne by (simp add: Suc cs column_start_def table_line_Cons length_ljust)
    then show ?thesis using Cons.IH [OF f(2) i] by (simp add: cs Suc)
  qed
qed simp

lemma max_le_foldr: "x \<in> set xs \<Longrightarrow> (x :: nat) \<le> foldr max xs 0"
  by (induction xs) auto

lemma length_cells [simp]: "length (table_cells r) = length table_headers"
  by (simp add: table_cells_def table_headers_def)

lemma column_widths_fit:
  assumes "r \<in> set rows" "length r = length table_headers"
  shows "fits (column_widths rows) r"
  unfolding fits_def
proof (intro conjI allI impI)
  show "length r = length (column_widths rows)" using assms(2) by (simp add: column_widths_def)
  fix j assume "j < length (column_widths rows)"
  then have j: "j < length table_headers" by (simp add: column_widths_def)
  have "length (r ! j) \<in> set (map (\<lambda>r. length (r ! j)) rows)" using assms(1) by auto
  then show "length (r ! j) \<le> column_widths rows ! j"
    using max_le_foldr j by (simp add: column_widths_def)
qed

text \<open>All lines are equally long, and every cell stands at the start of its column.\<close>

lemma table_aligned:
  fixes rows :: "node_view list"
  defines "all \<equiv> table_headers # map table_cells rows"
  shows "list_all (\<lambda>l. length l = table_width (column_widths all)) (table_lines rows)"
    and "i < length all \<Longrightarrow> j < 8 \<Longrightarrow>
      take (length (all ! i ! j)) (drop (column_start (column_widths all) j) (table_lines rows ! i)) = all ! i ! j"
proof -
  have fit: "fits (column_widths all) r" if "r \<in> set all" for r
    using that by (intro column_widths_fit) (auto simp: all_def)
  have ne: "column_widths all \<noteq> []" "length (column_widths all) = 8" by (simp_all add: column_widths_def table_headers_def)
  show "list_all (\<lambda>l. length l = table_width (column_widths all)) (table_lines rows)"
    unfolding table_lines_def Let_def all_def [symmetric] list_all_iff
    using fit table_line_length ne by auto
  show "take (length (all ! i ! j)) (drop (column_start (column_widths all) j) (table_lines rows ! i)) = all ! i ! j"
    if "i < length all" "j < 8"
    unfolding table_lines_def Let_def all_def [symmetric] nth_map [OF that(1)]
    using table_line_column [OF fit [OF nth_mem [OF that(1)]]] that(2) ne by simp
qed

section \<open>The rows of yanodes\<close>

lemma tasks_by_node_Some:
  "dget (foldl (\<lambda>d t. case t_state t of Running n _ \<Rightarrow> dput n t d | _ \<Rightarrow> d) d ts) k = Some t \<Longrightarrow>
     dget d k = Some t \<or> (t \<in> set ts \<and> (\<exists>f. t_state t = Running k f))"
proof (induction ts arbitrary: d)
  case (Cons a ts)
  show ?case
    using Cons.prems Cons.IH [of "case t_state a of Running n _ \<Rightarrow> dput n a d | _ \<Rightarrow> d"]
    by (cases "t_state a") (auto split: if_splits)
qed simp

lemma tasks_by_node_dom:
  "dget (foldl (\<lambda>d t. case t_state t of Running n _ \<Rightarrow> dput n t d | _ \<Rightarrow> d) d ts) k \<noteq> None \<longleftrightarrow>
     dget d k \<noteq> None \<or> (\<exists>t \<in> set ts. \<exists>f. t_state t = Running k f)"
proof (induction ts arbitrary: d)
  case (Cons a ts)
  show ?case
    using Cons.IH [of d] Cons.IH [of "dput (running_node (t_state a)) a d"]
    by (cases "t_state a") auto
qed simp

text \<open>What a row of the view says of a row of the table of nodes, given the table of tasks.\<close>

definition shows_node :: "task_row list \<Rightarrow> node_row \<Rightarrow> node_view \<Rightarrow> bool" where
  "shows_node tasks q v \<longleftrightarrow>
     nv_node_id v = NodeId (q_node_id q) \<and> nv_hostname v = q_hostname q \<and> nv_port v = q_port q
   \<and> nv_enabled v = q_enabled q \<and> nv_cloud v = q_cloud q
   \<and> (nv_task_id v = None \<longleftrightarrow> \<not> (\<exists>r \<in> set tasks. r_status r = RUNNING \<and> r_node r = Some (q_node_id q)))
   \<and> (\<forall>i. nv_task_id v = Some i \<longrightarrow> (\<exists>r \<in> set tasks. i = TaskId (r_task_id r) \<and> r_status r = RUNNING
          \<and> r_node r = Some (q_node_id q) \<and> nv_label v = Some (r_title r)))"

lemma decoded_running:
  "row_to_task r = Inr t \<Longrightarrow> r_status r = RUNNING \<Longrightarrow>
     \<exists>n f. t_state t = Running (NodeId n) f \<and> r_node r = Some n \<and> t_task_id t = TaskId (r_task_id r) \<and> t_label t = r_title r"
  by (auto simp: row_to_task_def mk_task_id_def mk_node_id_def Let_def split: if_splits sum.splits option.splits)

lemma join_views_rows:
  assumes ts: "list_all2 (\<lambda>r t. row_to_task r = Inr t) rows ts" and run: "set rows = {r \<in> set tasks. r_status r = RUNNING}"
    and ns: "list_all2 (\<lambda>q n. row_to_node q = Inr n) qs ns"
  shows "list_all2 (shows_node tasks) qs (join_views ts ns)"
  unfolding join_views_def list_all2_map2
  using ns
proof (rule list_all2_mono)
  fix q n assume q: "row_to_node q = Inr n"
  then have n: "n_node_id n = NodeId (q_node_id q)" "n_hostname n = q_hostname q" "n_port n = q_port q"
      "n_enabled n = q_enabled q" "n_cloud n = q_cloud q"
    by (auto simp: row_to_node_def mk_node_id_def split: if_splits sum.splits)
  have origin: "\<exists>r \<in> set tasks. row_to_task r = Inr t \<and> r_status r = RUNNING" if "t \<in> set ts" for t
    using list_all2_mem2 [OF ts that] run by auto
  have into: "\<exists>t \<in> set ts. row_to_task r = Inr t" if "r \<in> set tasks" "r_status r = RUNNING" for r
    using list_all2_mem1 [OF ts] that run by auto
  let ?d = "dget (tasks_by_node ts) (n_node_id n)"
  have some: "\<exists>r \<in> set tasks. r_status r = RUNNING \<and> r_node r = Some (q_node_id q) \<and> t_task_id t = TaskId (r_task_id r)
      \<and> t_label t = r_title r" if "?d = Some t" for t
  proof -
    from tasks_by_node_Some [OF that [unfolded tasks_by_node_def]] n(1)
    obtain f where t: "t \<in> set ts" "t_state t = Running (NodeId (q_node_id q)) f" by auto
    obtain r where r: "r \<in> set tasks" "row_to_task r = Inr t" "r_status r = RUNNING" using origin [OF t(1)] by blast
    show ?thesis using decoded_running [OF r(2,3)] t(2) r by (intro bexI [of _ r]) auto
  qed
  have none: "?d \<noteq> None \<longleftrightarrow> (\<exists>r \<in> set tasks. r_status r = RUNNING \<and> r_node r = Some (q_node_id q))"
  proof
    assume "?d \<noteq> None"
    then obtain t where "?d = Some t" by blast
    from some [OF this] show "\<exists>r \<in> set tasks. r_status r = RUNNING \<and> r_node r = Some (q_node_id q)" by blast
  next
    assume "\<exists>r \<in> set tasks. r_status r = RUNNING \<and> r_node r = Some (q_node_id q)"
    then obtain r where r: "r \<in> set tasks" "r_status r = RUNNING" "r_node r = Some (q_node_id q)" by blast
    obtain t where t: "t \<in> set ts" "row_to_task r = Inr t" using into [OF r(1,2)] by blast
    have "\<exists>f. t_state t = Running (n_node_id n) f" using decoded_running [OF t(2) r(2)] r(3) n(1) by auto
    then show "?d \<noteq> None" unfolding tasks_by_node_def tasks_by_node_dom using t(1) by blast
  qed
  show "shows_node tasks q (view_of n ?d)"
    using n none some by (cases ?d) (auto simp: shows_node_def view_of_def)
qed

lemma fetch_nodes_outcome:
  assumes run: "with_uow fetch_nodes_view s = (r, s')"
  shows "visible s' = visible s
    \<and> (\<forall>vs. r = Inr vs \<longrightarrow> list_all2 (shows_node (d_tasks (st_db s))) (sort_key q_node_id (d_nodes (st_db s))) vs)"
proof -
  let ?F = "bindM (a_rows (sql_task_list_by_status [RUNNING] None) row_to_task) (\<lambda>ts.
     bindM (a_rows sql_node_list_all row_to_node) (\<lambda>ns. returnM (join_views ts ns)))"
  have den: "tx_den fetch_nodes_view ?F" unfolding fetch_nodes_view_def by (intro tx_intros)
  have "list_all2 (shows_node (d_tasks (st_db s))) (sort_key q_node_id (d_nodes (st_db s))) vs"
    if F: "?F (st_db s, []) = (Inr vs, x)" for vs x
  proof -
    have sel: "snd (sql_task_list_by_status [RUNNING] None d) = d" "snd (sql_node_list_all d) = d" for d
      by (simp_all add: sql_task_list_by_status_def sql_node_list_all_def getsM_def)
    obtain ts y where ts: "a_rows (sql_task_list_by_status [RUNNING] None) row_to_task (st_db s, []) = (Inr ts, y)"
        and rest: "bindM (a_rows sql_node_list_all row_to_node) (\<lambda>ns. returnM (join_views ts ns)) y = (Inr vs, x)"
      using F by (rule bindM_cases) (simp, rule that)
    obtain ns z where ns: "a_rows sql_node_list_all row_to_node y = (Inr ns, z)" and vs: "vs = join_views ts ns"
      using rest by (rule bindM_cases) (simp, auto simp: returnM_def intro: that)
    have y: "y = (st_db s, [])" using a_rows_Inr(1) [OF ts sel(1)] .
    obtain rows where rows: "fst (sql_task_list_by_status [RUNNING] None (st_db s)) = Inr rows"
        "list_all2 (\<lambda>r t. row_to_task r = Inr t) rows ts"
      using a_rows_Inr(2) [OF ts sel(1)] by blast
    obtain qs where qs: "fst (sql_node_list_all (st_db s)) = Inr qs" "list_all2 (\<lambda>q n. row_to_node q = Inr n) qs ns"
      using a_rows_Inr(2) [OF ns [unfolded y] sel(2)] by blast
    have q: "qs = sort_key q_node_id (d_nodes (st_db s))" using qs(1) by (simp add: sql_node_list_all_def getsM_def)
    have "set rows = {r \<in> set (d_tasks (st_db s)). r_status r = RUNNING}"
      using rows(1) by (auto simp: sql_task_list_by_status_def)
    from join_views_rows [OF rows(2) this qs(2)] show ?thesis by (simp add: q vs)
  qed
  then show ?thesis using with_uow_read [OF den run] by blast
qed

section \<open>What AiiDA reads\<close>

lemma words_from_word: "list_all (\<lambda>c. \<not> is_space c) s \<Longrightarrow> words_from w (s @ r) = words_from (rev s @ w) r"
  by (induction s arbitrary: w) auto

definition job_state_of :: "task_status \<Rightarrow> job_state" where
  "job_state_of s = (case s of TO_DO \<Rightarrow> QUEUED | RUNNING \<Rightarrow> JOB_RUNNING | DONE \<Rightarrow> JOB_DONE)"

lemma status_name_plain: "list_all (\<lambda>c. \<not> is_space c) (status_name s)" "status_name s \<noteq> []" "CHR 0x0A \<notin> set (status_name s)"
  by (cases s; simp add: status_name_def is_space_def)+

definition bare_line :: "task \<Rightarrow> string" where
  "bare_line t = task_id_str (t_task_id t) @ ''   '' @ status_name (t_status t)"

lemma job_of_bare_line:
  assumes "0 < tid_value (t_task_id t)"
  shows "job_of_line (bare_line t) = Inr (task_id_str (t_task_id t), job_state_of (t_status t))"
proof -
  let ?i = "task_id_str (t_task_id t)"
  have i: "list_all (\<lambda>c. \<not> is_space c) ?i" "?i \<noteq> []"
    using assms show_pos_chars [of "tid_value (t_task_id t)"] digit_not_space
    by (auto simp: task_id_str_def list_all_iff show_int_def)
  have "py_words (bare_line t) = [?i, status_name (t_status t)]"
    using i status_name_plain [of "t_status t"] words_from_word [OF status_name_plain(1) [of "t_status t"], of "[]" "[]"]
    by (simp add: py_words_def bare_line_def words_from_word is_space_def)
  then show ?thesis
    by (cases "t_status t") (simp_all add: job_of_line_def status_name_def MAP_STATUS_def job_state_of_def)
qed

lemma default_lines_split:
  "(\<forall>t \<in> set ts. 0 < tid_value (t_task_id t)) \<Longrightarrow>
     split_on CHR 0x0A (concat (map default_line ts)) = map bare_line ts @ [[]]"
proof (induction ts)
  case (Cons t ts)
  have "CHR 0x0A \<notin> set (task_id_str (t_task_id t))"
    using Cons.prems show_int_no [of "tid_value (t_task_id t)" "CHR 0x0A"] by (simp add: task_id_str_def is_digit_def)
  then have "CHR 0x0A \<notin> set (bare_line t)" by (simp add: bare_line_def status_name_plain)
  then have "split_on CHR 0x0A (bare_line t @ CHR 0x0A # r) = bare_line t # split_on CHR 0x0A r" for r
    by (rule split_on_append_sep)
  then show ?case using Cons by (simp add: default_line_def newline_def bare_line_def)
qed simp

lemma joblist_round_trip:
  assumes "\<forall>t \<in> set ts. 0 < tid_value (t_task_id t)"
  shows "parse_joblist_output (concat (map default_line ts))
    = Inr (map (\<lambda>t. (task_id_str (t_task_id t), job_state_of (t_status t))) ts)"
proof -
  have "filter (\<lambda>l. l \<noteq> []) (map bare_line ts @ [[]]) = map bare_line ts"
    by (induction ts) (simp_all add: bare_line_def)
  moreover have "map_sum_list job_of_line (map bare_line ts)
      = Inr (map (\<lambda>t. (task_id_str (t_task_id t), job_state_of (t_status t))) ts)"
    unfolding map_sum_list_Inr using assms job_of_bare_line
    by (simp add: list_all2_map1 list_all2_map2 list_all2_same)
  ultimately show ?thesis by (simp add: parse_joblist_output_def default_lines_split [OF assms])
qed

text \<open>The rows \<open>yastatus\<close> speaks of.\<close>

definition status_rows :: "status_args \<Rightarrow> db \<Rightarrow> task_row list" where
  "status_rows a d = sort_key r_task_id (filter (\<lambda>r. if nonempty (sa_jobs a) then r_task_id r \<in> set (the (sa_jobs a))
     else r_status r \<in> {RUNNING, TO_DO}) (d_tasks d))"

definition default_renderer :: "status_args \<Rightarrow> bool" where
  "default_renderer a \<longleftrightarrow> \<not> sa_view a \<and> \<not> sa_info a \<and> \<not> sa_json a"

lemma mk_ids: "map_sum_list mk_task_id js = Inr ids \<Longrightarrow> map tid_value ids = js"
  unfolding map_sum_list_Inr
  by (induction js ids rule: list_all2_induct) (auto simp: mk_task_id_def split: if_splits)

definition a_status_tasks :: "status_args \<Rightarrow> task list txn" where
  "a_status_tasks a = (if nonempty (sa_jobs a)
     then bindM (fromSum (map_sum_list mk_task_id (the (sa_jobs a))))
       (\<lambda>ids. a_rows (sql_task_list_by_jobs (map tid_value ids)) row_to_task)
     else a_rows (sql_task_list_by_status [RUNNING, TO_DO] None) row_to_task)"

lemma tx_status_tasks [tx_intros]: "tx_den (status_tasks a) (a_status_tasks a)"
  unfolding status_tasks_def a_status_tasks_def by (intro tx_intros)

lemma a_status_tasks_Inr:
  assumes "a_status_tasks a (d, []) = (Inr ts, x)"
  shows "list_all2 (\<lambda>r t. row_to_task r = Inr t) (status_rows a d) ts"
proof -
  have sel: "snd (sql_task_list_by_status [RUNNING, TO_DO] None d) = d" "snd (sql_task_list_by_jobs js d) = d" for d js
    by (simp_all add: sql_task_list_by_status_def sql_task_list_by_jobs_def getsM_def)
  show ?thesis
  proof (cases "nonempty (sa_jobs a)")
    case False
    then have "a_rows (sql_task_list_by_status [RUNNING, TO_DO] None) row_to_task (d, []) = (Inr ts, x)"
      using assms by (simp add: a_status_tasks_def)
    from a_rows_Inr(2) [OF this sel(1)] show ?thesis
      using False by (auto simp: sql_task_list_by_status_def status_rows_def)
  next
    case True
    then obtain ids where ids: "map_sum_list mk_task_id (the (sa_jobs a)) = Inr ids"
        and r: "a_rows (sql_task_list_by_jobs (map tid_value ids)) row_to_task (d, []) = (Inr ts, x)"
      using assms by (auto simp: a_status_tasks_def bindM_def fromSum_def split: sum.splits)
    from a_rows_Inr(2) [OF r sel(2)] mk_ids [OF ids] show ?thesis
      using True by (auto simp: sql_task_list_by_jobs_def status_rows_def getsM_def)
  qed
qed

lemma screen_more: "store.more w' = store.more w \<Longrightarrow> sc_out w' = sc_out w \<and> sc_tmp w' = sc_tmp w \<and> sc_err w' = sc_err w"
  by (cases w; cases w') simp

lemma frames_status_query [frames_intros]: "frames store.more (status_query a)"
  unfolding status_query_def status_tasks_def status_nodes_def Let_def by (intro frames_intros)

lemma exit_code_run:
  "exit_code m w = (case m w of
      (Inr _, v) \<Rightarrow> (Inr 0, v)
    | (Inl e, v) \<Rightarrow> if is_Exception e then (Inr 1, v\<lparr>sc_err := sc_err v @ ''Error: '' @ exn_str e @ newline\<rparr>) else (Inl e, v))"
  by (cases "m w"; cases "fst (m w)")
    (auto simp: exit_code_def catchM_def thenM_def bindM_def returnM_def raiseM_def print_err_def modifyM_def)

lemma exit_code_Inr: "exit_code m w = (Inr 0, w') \<Longrightarrow> m w = (Inr (), w')"
  by (auto simp: exit_code_run split: prod.splits sum.splits if_splits)

text \<open>A query of the command that succeeds: nothing changed, and the tasks are the rows asked for.\<close>

lemma status_query_outcome:
  fixes w :: "'z screen_scheme"
  assumes q: "with_uow (status_query a) w = (r, v)"
  shows "visible v = visible w" "sc_out v = sc_out w" "sc_tmp v = sc_tmp w"
    "r = Inr (ts, nodes) \<Longrightarrow> list_all2 (\<lambda>r t. row_to_task r = Inr t) (status_rows a (st_db w)) ts"
proof -
  define f where "f = (\<lambda>ts. if (sa_view a \<or> sa_json a) \<and> concat (map (\<lambda>t. case allocated_node_id_of t of None \<Rightarrow> [] | Some n \<Rightarrow> [n]) ts) \<noteq> []
    then a_by_ids (concat (map (\<lambda>t. case allocated_node_id_of t of None \<Rightarrow> [] | Some n \<Rightarrow> [n]) ts)) else returnM [])"
  have den: "tx_den (status_query a) (bindM (a_status_tasks a) (\<lambda>ts. bindM (f ts) (\<lambda>nodes. returnM (ts, nodes))))"
    unfolding status_query_def status_nodes_def Let_def f_def by (intro tx_intros)
  note u = with_uow_read [OF den q]
  show "visible v = visible w" using u by simp
  have "store.more v = store.more w" by (rule framesD' [OF frames_more_with_uow [OF frames_status_query] q])
  then show "sc_out v = sc_out w" "sc_tmp v = sc_tmp w" using screen_more by blast+
  assume "r = Inr (ts, nodes)"
  then obtain x where "bindM (a_status_tasks a) (\<lambda>ts. bindM (f ts) (\<lambda>nodes. returnM (ts, nodes))) (st_db w, []) = (Inr (ts, nodes), x)"
    using u by blast
  then obtain ts1 y where ts1: "a_status_tasks a (st_db w, []) = (Inr ts1, y)"
      and rest: "bindM (f ts1) (\<lambda>nodes. returnM (ts1, nodes)) y = (Inr (ts, nodes), x)"
    by (rule bindM_cases) (simp, rule that)
  have "ts1 = ts" using rest by (rule bindM_cases) (simp_all add: returnM_def)
  then show "list_all2 (\<lambda>r t. row_to_task r = Inr t) (status_rows a (st_db w)) ts"
    using a_status_tasks_Inr [OF ts1] by simp
qed

lemma decoded_task_id: "row_to_task r = Inr t \<Longrightarrow> t_task_id t = TaskId (r_task_id r) \<and> 0 < r_task_id r \<and> t_status t = r_status r"
  by (auto simp: row_to_task_def mk_task_id_def mk_node_id_def Let_def t_status_def
      split: if_splits sum.splits option.splits task_status.splits)

theorem aiida_sees_rows:
  fixes w :: "'z screen_scheme"
  assumes a: "default_renderer a" "sc_out w = []" and run: "check_status fl tz config v a w = (Inr 0, w')"
  shows "visible w' = visible w \<and> parse_joblist_output (sc_out w')
    = Inr (map (\<lambda>r. (show_int (r_task_id r), job_state_of (r_status r))) (status_rows a (st_db w)))"
proof -
  have "bindM (fromSum config) (\<lambda>_. bindM (with_uow (status_query a)) (\<lambda>(ts, nodes).
      print_out (concat (map default_line ts)))) w = (Inr (), w')"
    using exit_code_Inr [OF run [unfolded check_status_def]] a(1) unfolding default_renderer_def by simp
  then obtain ts nodes u where q: "with_uow (status_query a) w = (Inr (ts, nodes), u)"
      and p: "print_out (concat (map default_line ts)) u = (Inr (), w')"
    by (auto simp: bindM_def fromSum_def split: sum.splits prod.splits)
  have w': "w' = u\<lparr>sc_out := sc_out u @ concat (map default_line ts)\<rparr>" using p by (simp add: print_out_def modifyM_def)
  note o = status_query_outcome [OF q]
  have rows: "list_all2 (\<lambda>r t. row_to_task r = Inr t) (status_rows a (st_db w)) ts" using o(4) by simp
  have pos: "\<forall>t \<in> set ts. 0 < tid_value (t_task_id t)"
    using list_all2_mem2 [OF rows] decoded_task_id by fastforce
  have "map (\<lambda>t. (task_id_str (t_task_id t), job_state_of (t_status t))) ts
      = map (\<lambda>r. (show_int (r_task_id r), job_state_of (r_status r))) (status_rows a (st_db w))"
    using rows by (induction rule: list_all2_induct) (auto dest: decoded_task_id simp: task_id_str_def)
  then show ?thesis
    using joblist_round_trip [OF pos] o(1,2) a(2) by (simp add: w' visible_def committed_def)
qed

section \<open>yastatus leaves nothing behind\<close>

text \<open>A component that no part of the verbose view but the snippet writes.\<close>

definition off_view :: "('z screen_scheme \<Rightarrow> 'c) \<Rightarrow> bool" where
  "off_view f \<longleftrightarrow> (\<forall>w x. f (w\<lparr>w_registry := x\<rparr>) = f w) \<and> (\<forall>w x. f (w\<lparr>w_heap := x\<rparr>) = f w)
     \<and> (\<forall>w x. f (w\<lparr>w_conn := x\<rparr>) = f w) \<and> (\<forall>w x. f (w\<lparr>w_net := x\<rparr>) = f w) \<and> (\<forall>w x. f (w\<lparr>w_remote := x\<rparr>) = f w)
     \<and> (\<forall>w x. f (w\<lparr>st_faults := x\<rparr>) = f w) \<and> (\<forall>w x. f (w\<lparr>sc_out := x\<rparr>) = f w)"

lemma off_viewD:
  assumes "off_view f"
  shows "f (w\<lparr>w_registry := a\<rparr>) = f w" "f (w\<lparr>w_heap := b\<rparr>) = f w" "f (w\<lparr>w_conn := c\<rparr>) = f w"
    "f (w\<lparr>w_net := d\<rparr>) = f w" "f (w\<lparr>w_remote := e\<rparr>) = f w" "f (w\<lparr>st_faults := g\<rparr>) = f w"
    "f (w\<lparr>sc_out := h\<rparr>) = f w" "f (upd_sess sid u w) = f w" "f (env_close sid w) = f w"
  using assms by (simp_all add: off_view_def upd_sess_def env_close_def)

lemma off_view_prims:
  assumes f: "off_view (f :: 'z screen_scheme \<Rightarrow> 'c)"
  shows "frames f (print_out s)" "frames f (remote_call sid op)" "frames f (repo_connect_at d e t n)"
    "frames f (repo_disconnect nid)" "frames f (modifyM (\<lambda>w. w\<lparr>w_registry := x\<rparr>))"
    "frames f (modifyM (\<lambda>w. w\<lparr>w_remote := w_remote w @ ops\<rparr>))"
proof -
  note d = off_viewD [OF f]
  show "frames f (print_out s)" unfolding print_out_def by (rule frames_modify) (rule d)
  show "frames f (modifyM (\<lambda>w. w\<lparr>w_registry := x\<rparr>))" by (rule frames_modify) (rule d)
  show "frames f (modifyM (\<lambda>w. w\<lparr>w_remote := w_remote w @ ops\<rparr>))" by (rule frames_modify) (rule d)
  show "frames f (remote_call sid op)"
    by (rule framesI) (auto simp: remote_call_def Let_def d split: list.split)
  show "frames f (repo_connect_at d e t n)"
    by (rule framesI) (auto simp: repo_connect_at_def register_session_def Let_def d split: list.split sum.split prod.split)
  have "frames f (round_trip :: ('z screen_scheme, exn, unit) M)"
    by (rule framesI) (auto simp: round_trip_def d split: list.split option.split)
  then show "frames f (repo_disconnect nid)" by (rule frames_disconnect) (rule d)+
qed

lemma frames_display:
  assumes f: "off_view (f :: 'z screen_scheme \<Rightarrow> 'c)"
  shows "frames f (display_remote_output quote keys engines t found)"
  unfolding display_remote_output_def by (intro frames_intros off_view_prims [OF f])

lemma frames_view_plain:
  assumes f: "off_view (f :: 'z screen_scheme \<Rightarrow> 'c)"
  shows "frames f (view_task v False nodes t)"
  unfolding view_task_def Let_def
  by (intro frames_intros off_view_prims [OF f] frames_display [OF f]) simp_all

lemma frames_view:
  assumes f: "off_view (f :: 'z screen_scheme \<Rightarrow> 'c)" and tmp: "\<And>w x. f (w\<lparr>sc_tmp := x\<rparr>) = f w"
  shows "frames f (view_task v fetch nodes t)" "frames f (render_view v fetch nodes ts)" "frames f unlink_snippet"
proof -
  have m: "frames f (modifyM (\<lambda>w. w\<lparr>sc_tmp := x\<rparr>))" for x by (rule frames_modify) (rule tmp)
  then show u: "frames f unlink_snippet" unfolding unlink_snippet_def .
  have s: "frames f (download_snippet sid folder name)" for sid folder name
    unfolding download_snippet_def by (intro frames_intros off_view_prims [OF f] m)
  have p: "frames f (show_snippet v)"
    unfolding show_snippet_def by (intro frames_intros off_view_prims [OF f])
  show t: "frames f (view_task v fetch nodes t)" for t
    unfolding view_task_def Let_def
    by (intro frames_intros off_view_prims [OF f] frames_display [OF f] s p)
  show "frames f (render_view v fetch nodes ts)"
    unfolding render_view_def by (intro frames_intros t u m)
qed

lemma off_view_visible: "off_view (visible :: 'z screen_scheme \<Rightarrow> _)" "off_view (sc_tmp :: 'z screen_scheme \<Rightarrow> _)"
  by (simp_all add: off_view_def visible_def committed_def)

text \<open>The view with its clean-up: without an exception that is no \<open>Exception\<close>, the snippet is gone.\<close>

lemma render_view_tmp:
  fixes w :: "'z screen_scheme"
  assumes "sc_tmp w = None" "bindM (render_view v fetch nodes ts) (\<lambda>made. whenM made unlink_snippet) w = (r, w')"
  shows "sc_tmp w' = None \<or> (\<exists>e. r = Inl e \<and> \<not> is_Exception e)"
proof (cases fetch)
  case False
  let ?m = "bindM (render_view v False nodes ts) (\<lambda>made. whenM made unlink_snippet)"
  have fr: "frames sc_tmp (render_view v False nodes ts)"
    unfolding render_view_def
    by (intro frames_intros frames_view_plain [OF off_view_visible(2)]) simp_all
  have no: "fst (render_view v False nodes ts u) = Inr made \<Longrightarrow> \<not> made" for u :: "'z screen_scheme" and made
    by (auto simp: render_view_def thenM_def bindM_def catchM_def whenM_def skipM_def returnM_def raiseM_def
        split: prod.splits sum.splits if_splits)
  obtain q u where q: "render_view v False nodes ts w = (q, u)" by (cases "render_view v False nodes ts w")
  have u: "sc_tmp u = sc_tmp w" using framesD' [OF fr q] .
  have made: "q = Inr made \<Longrightarrow> \<not> made" for made using no [of w made] q by simp
  have "w' = u" using assms(2) made False q by (cases q) (auto simp: bindM_def whenM_def skipM_def returnM_def)
  then have "sc_tmp w' = sc_tmp w" using u by simp
  then show ?thesis using assms(1) by simp
next
  case True
  show ?thesis
    using assms(2) True
    by (auto simp: render_view_def bindM_def thenM_def catchM_def whenM_def unlink_snippet_def modifyM_def raiseM_def
        returnM_def split: prod.splits sum.splits if_splits)
qed

theorem status_leaves_nothing:
  fixes w :: "'z screen_scheme"
  assumes tmp: "sc_tmp w = None" and run: "check_status fl tz config v a w = (r, w')"
  shows "visible w' = visible w
    \<and> (((r = Inr 0 \<or> r = Inr 1) \<and> sc_tmp w' = None) \<or> (\<exists>e. r = Inl e \<and> \<not> is_Exception e))"
proof -
  let ?show = "\<lambda>(ts, nodes).
       if sa_view a then bindM (render_view v (sa_convergence a) nodes ts) (\<lambda>made. whenM made unlink_snippet)
       else if sa_info a then print_out (concat (map info_line ts))
       else if sa_json a then print_out (render_status_json fl tz nodes ts @ newline)
       else print_out (concat (map default_line ts)) :: ('z, unit) cprog"
  let ?m = "bindM (fromSum config) (\<lambda>_. bindM (with_uow (status_query a)) ?show)"
  obtain q u where m: "?m w = (q, u)" by (cases "?m w")
  have inner: "visible u = visible w \<and> (sc_tmp u = None \<or> (\<exists>e. q = Inl e \<and> \<not> is_Exception e))"
  proof (cases config)
    case (Inl e)
    then show ?thesis using m tmp by (simp add: bindM_def fromSum_def)
  next
    case (Inr c)
    obtain p x where p: "with_uow (status_query a) w = (p, x)" by (cases "with_uow (status_query a) w")
    note o = status_query_outcome [OF p]
    show ?thesis
    proof (cases p)
      case (Inl e)
      then show ?thesis using m p Inr o(1,3) tmp by (simp add: bindM_def fromSum_def)
    next
      case (Inr res)
      obtain ts nodes where res: "res = (ts, nodes)" by (cases res)
      have s: "?show (ts, nodes) x = (q, u)" using m p Inr \<open>config = Inr c\<close> by (simp add: bindM_def fromSum_def res)
      have "frames visible (?show (ts, nodes))"
        by (auto intro!: frames_intros off_view_prims [OF off_view_visible(1)] frames_view [OF off_view_visible(1)]
            simp: visible_def committed_def)
      then have vis: "visible u = visible x" using s by (rule framesD')
      have "sc_tmp u = None \<or> (\<exists>e. q = Inl e \<and> \<not> is_Exception e)"
      proof (cases "sa_view a")
        case True
        then have "bindM (render_view v (sa_convergence a) nodes ts) (\<lambda>made. whenM made unlink_snippet) x = (q, u)"
          using s by simp
        then show ?thesis using render_view_tmp [of x] o(3) tmp by simp
      next
        case False
        have pr: "print_out t x = (q, u) \<Longrightarrow> sc_tmp u = sc_tmp x" for t
          using framesD' [OF off_view_prims(1) [OF off_view_visible(2)]] .
        then show ?thesis using s False o(3) tmp by (auto split: if_splits)
      qed
      then show ?thesis using vis o(1) by simp
    qed
  qed
  have rw: "(r, w') = (case (q, u) of
      (Inr _, v) \<Rightarrow> (Inr 0, v)
    | (Inl e, v) \<Rightarrow> if is_Exception e then (Inr 1, v\<lparr>sc_err := sc_err v @ ''Error: '' @ exn_str e @ newline\<rparr>) else (Inl e, v))"
    using run unfolding check_status_def exit_code_run m by simp
  show ?thesis
  proof (cases q)
    case (Inl e)
    then show ?thesis using rw inner by (cases "is_Exception e") (auto simp: visible_def committed_def)
  next
    case (Inr z)
    then show ?thesis using rw inner by simp
  qed
qed

end
