(* ===== verification/Aiida_Facts.thy ===== *)
theory Aiida_Facts
  imports Cli_Facts
begin

text \<open>
  The facts on submission: the script that AiiDA's plugin writes is read back by \<open>yasubmit\<close>, whose output is the id of
  the row it added; no webhook hears of it; and what the client's synchronous wrapper makes of an error.
\<close>

section \<open>The script header\<close>

definition script_value :: "string \<Rightarrow> bool" where
  "script_value s \<longleftrightarrow> CHR ''='' \<notin> set s \<and> list_all (\<lambda>c. \<not> line_break c) s \<and> strip s = s"

lemma splitlines_line:
  "list_all (\<lambda>c. \<not> line_break c) s \<Longrightarrow> splitlines_from acc (s @ CHR 0x0A # r) = (rev acc @ s) # splitlines_from [] r"
  by (induction s arbitrary: acc) (auto simp: line_break_def)

lemma splitlines_end:
  "list_all (\<lambda>c. \<not> line_break c) s \<Longrightarrow> rev acc @ s \<noteq> [] \<Longrightarrow> splitlines_from acc s = [rev acc @ s]"
  by (induction s arbitrary: acc) auto

lemma script_line_read:
  assumes "script_value k" "script_value v"
  shows "script_line d (k @ ''='' @ v) = dput k v d"
proof -
  have "split_on CHR ''='' (k @ CHR ''='' # v) = [k, v]"
    using assms split_on_append_sep [of "CHR ''=''" k v] split_on_no_sep [of "CHR ''=''" v] by (simp add: script_value_def)
  then show ?thesis using assms by (simp add: script_line_def script_value_def)
qed

lemma assignment_line: "script_value k \<Longrightarrow> script_value v \<Longrightarrow> list_all (\<lambda>c. \<not> line_break c) (k @ ''='' @ v)"
  by (simp add: script_value_def line_break_def)

lemma script_names: "script_value ''ENGINE''" "script_value ''PARENT''" "script_value ''LABEL''"
  by (simp_all add: script_value_def line_break_def strip_def is_space_def)

lemma header_round_trip:
  assumes h: "submit_header load_node name = Inr text" and pk: "job_pk name = Inr pk" "load_node pk = Inr (code, caller)"
    and v: "script_value (lower code)" "script_value name" "\<And>u. caller = Some u \<Longrightarrow> script_value u"
  shows "parse_script_metadata text = [(''ENGINE'', lower code)]
     @ (case caller of None \<Rightarrow> [] | Some u \<Rightarrow> [(''PARENT'', u)]) @ [(''LABEL'', name)]"
proof -
  have hdr: "text = join newline ([''ENGINE='' @ lower code] @ (case caller of None \<Rightarrow> [] | Some u \<Rightarrow> [''PARENT='' @ u])
               @ [''LABEL='' @ name])"
    using h pk by (auto simp: submit_header_def split: if_splits)
  note l = assignment_line [OF script_names(1) v(1)] assignment_line [OF script_names(3) v(2)]
  note r = script_line_read [OF script_names(1) v(1)] script_line_read [OF script_names(3) v(2)]
  have last: "splitlines_from [] (''LABEL'' @ ''='' @ name) = [''LABEL'' @ ''='' @ name]"
    using splitlines_end [OF l(2), of "[]"] by simp
  show ?thesis
  proof (cases caller)
    case None
    have "splitlines text = [''ENGINE'' @ ''='' @ lower code, ''LABEL'' @ ''='' @ name]"
      using splitlines_line [OF l(1), of "[]" "''LABEL'' @ ''='' @ name"] last
      by (simp add: splitlines_def hdr None newline_def)
    then show ?thesis using r by (simp add: parse_script_metadata_def None)
  next
    case (Some u)
    note lu = assignment_line [OF script_names(2) v(3) [OF Some]] and ru = script_line_read [OF script_names(2) v(3) [OF Some]]
    have "splitlines text = [''ENGINE'' @ ''='' @ lower code, ''PARENT'' @ ''='' @ u, ''LABEL'' @ ''='' @ name]"
      using splitlines_line [OF l(1), of "[]" "(''PARENT'' @ ''='' @ u) @ CHR 0x0A # ''LABEL'' @ ''='' @ name"]
        splitlines_line [OF lu, of "[]" "''LABEL'' @ ''='' @ name"] last
      by (simp add: splitlines_def hdr Some newline_def)
    then show ?thesis using r ru by (simp add: parse_script_metadata_def Some)
  qed
qed

section \<open>The submission\<close>

lemma frames_submit_task [frames_intros]: "frames store.more (submit_task bt bj label metadata name engines)"
  unfolding submit_task_def by (intro frames_intros)

lemma submit_task_bound:
  assumes "submit_task bt bj label metadata name engines s = (Inr tid, s')"
  shows "\<exists>nt. submit_check engines name metadata = Inr () \<and> submit_new_task bt bj label metadata name = Inr nt"
proof -
  have c: "submit_check engines name metadata = Inr ()"
    using assms by (cases "submit_check engines name metadata") (simp_all add: submit_task_def bindM_def fromSum_def)
  have "\<exists>nt. submit_new_task bt bj label metadata name = Inr nt"
  proof (rule ccontr)
    assume "\<nexists>nt. submit_new_task bt bj label metadata name = Inr nt"
    then obtain e where e: "submit_new_task bt bj label metadata name = Inl e"
      by (cases "submit_new_task bt bj label metadata name") auto
    have "submit_task bt bj label metadata name engines s = with_uow (raiseM e) s"
      using c e by (simp add: submit_task_def bindM_fromSum)
    then have "with_uow (raiseM e) s = (Inr tid, s')" using assms by simp
    then show False
      by (auto simp: with_uow_def thenM_def bindM_def modifyM_def raiseM_def split: prod.splits sum.splits)
  qed
  then show ?thesis using c by simp
qed

lemma new_task_fields:
  "submit_new_task bt bj label metadata name = Inr nt \<Longrightarrow> nt_label nt = label \<and> nt_engine nt = name"
  by (auto simp: submit_new_task_def split: sum.splits)

lemma parse_id_line:
  assumes "0 \<le> i"
  shows "parse_submit_output (show_int i @ newline) = show_int i" "py_int (parse_submit_output (show_int i @ newline)) = Some i"
proof -
  have d: "list_all is_digit (show_int i)" and ne: "show_int i \<noteq> []" using assms show_nat_digits by (simp_all add: show_int_def)
  then have "dropWhile is_space (show_int i @ newline) = show_int i @ newline"
    using digit_not_space by (cases "show_int i") auto
  moreover have "dropWhile is_space (rev (show_int i @ newline)) = rev (show_int i)"
    using dropWhile_digits [of "rev (show_int i)"] d by (simp add: newline_def is_space_def)
  ultimately show s: "parse_submit_output (show_int i @ newline) = show_int i"
    by (simp add: parse_submit_output_def strip_def)
  show "py_int (parse_submit_output (show_int i @ newline)) = Some i" using py_int_show_pos [OF assms] by (simp add: s)
qed

theorem submit_outcome_cli:
  fixes w :: "'z screen_scheme"
  assumes wf: "db_wf (st_db w)" and out: "sc_out w = []" and named: "\<forall>(n, e) \<in> set engines. e_name e = n"
    and run: "submit bt bj fs (Inr (engines, url)) cwd script w = (Inr 0, w')"
  shows "parse_submit_output (sc_out w') = show_int (d_next_task (st_db w))
    \<and> (\<exists>text nt. script = Inr text \<and> nt_label nt = submit_label (parse_script_metadata text)
        \<and> dget (parse_script_metadata text) ''ENGINE'' = Some (nt_engine nt)
        \<and> d_tasks (st_db w') = d_tasks (st_db w) @ [new_row (st_db w) nt] \<and> d_nodes (st_db w') = d_nodes (st_db w))"
proof -
  from exit_code_Inr [OF run [unfolded submit_def]]
  obtain txt0 e d tid u where c: "script = Inr txt0"
      and e: "submit_engine engines (parse_script_metadata txt0) = Inr e"
      and s: "submit_task bt bj (submit_label (parse_script_metadata txt0)) d (e_name e) engines w = (Inr tid, u)"
      and p: "print_out (task_id_str tid @ newline) u = (Inr (), w')"
    by (auto simp: bindM_def fromSum_def Let_def split: sum.splits prod.splits)
  have more: "store.more u = store.more w" by (rule framesD' [OF frames_submit_task s])
  then have out: "sc_out u = []" using screen_more out by metis
  have w': "w' = u\<lparr>sc_out := task_id_str tid @ newline\<rparr>" using p out by (simp add: print_out_def modifyM_def)
  obtain nt where nt: "submit_check engines (e_name e) d = Inr ()"
      "submit_new_task bt bj (submit_label (parse_script_metadata txt0)) d (e_name e) = Inr nt"
    using submit_task_bound [OF s] by blast
  from submit_outcome [OF wf nt s] obtain t :: task where t: "tid = t_task_id t" "tid_value (t_task_id t) = d_next_task (st_db w)"
      "d_tasks (st_db u) = d_tasks (st_db w) @ [new_row (st_db w) nt]" "d_nodes (st_db u) = d_nodes (st_db w)"
    by auto
  have pos: "0 < d_next_task (st_db w)" using wf by (simp add: db_wf_def)
  have en: "dget (parse_script_metadata txt0) ''ENGINE'' = Some (e_name e)"
    using e named by (auto simp: submit_engine_def engines_get_def split: option.splits if_splits dest!: dget_Some_mem)
  show ?thesis
    using parse_id_line(1) [of "d_next_task (st_db w)"] pos t nt new_task_fields [OF nt(2)] en c
    by (auto simp: w' task_id_str_def)
qed

text \<open>From AiiDA's calculation to its job list: the script the plugin writes, run by \<open>yasubmit\<close>, adds a row whose id
  the plugin reads from the output; \<open>yastatus\<close>, asked for that id, lists the job as queued.\<close>

theorem plugin_round_trip:
  fixes w v :: "'z screen_scheme"
  assumes header: "submit_header load_node name = Inr script" "job_pk name = Inr pk" "load_node pk = Inr (code, caller)"
    and plain: "script_value (lower code)" "script_value name" "\<And>u. caller = Some u \<Longrightarrow> script_value u"
    and wf: "db_wf (st_db w)" "sc_out w = []" "\<forall>(n, e) \<in> set engines. e_name e = n"
    and run: "submit bt bj fs (Inr (engines, url)) cwd (Inr script) w = (Inr 0, w')"
    and asked: "st_db v = st_db w'" "sc_out v = []" "py_int (parse_submit_output (sc_out w')) = Some j"
      "default_renderer a" "sa_jobs a = Some [j]" "check_status fl tz config view a v = (Inr 0, v')"
  shows "parse_joblist_output (sc_out v') = Inr [(parse_submit_output (sc_out w'), QUEUED)]
    \<and> (\<exists>row. d_tasks (st_db w') = d_tasks (st_db w) @ [row] \<and> r_task_id row = j \<and> r_status row = TO_DO
        \<and> r_title row = name \<and> r_engine row = lower code)"
proof -
  let ?i = "d_next_task (st_db w)" and ?p = "parse_script_metadata script"
  have pos: "0 < ?i" using wf(1) by (simp add: db_wf_def)
  from submit_outcome_cli [OF wf run] obtain nt where out: "parse_submit_output (sc_out w') = show_int ?i"
      and nt: "nt_label nt = submit_label ?p" "dget ?p ''ENGINE'' = Some (nt_engine nt)"
      and db: "d_tasks (st_db w') = d_tasks (st_db w) @ [new_row (st_db w) nt]" by auto
  have p: "?p = [(''ENGINE'', lower code)] @ (case caller of None \<Rightarrow> [] | Some u \<Rightarrow> [(''PARENT'', u)]) @ [(''LABEL'', name)]"
    using header_round_trip [OF header plain] by simp
  have fields: "nt_label nt = name" "nt_engine nt = lower code"
    using nt by (auto simp: p submit_label_def split: option.splits)
  have j: "j = ?i" using asked(3) out py_int_show_pos [of ?i] pos by simp
  have "\<forall>r \<in> set (d_tasks (st_db w)). r_task_id r \<noteq> j" using wf(1) by (auto simp: j db_wf_def)
  then have rows: "status_rows a (st_db v) = [new_row (st_db w) nt]"
    by (simp add: status_rows_def asked(1,5) nonempty_def db filter_empty_conv j new_row_def)
  have "parse_joblist_output (sc_out v')
      = Inr (map (\<lambda>r. (show_int (r_task_id r), job_state_of (r_status r))) (status_rows a (st_db v)))"
    using aiida_sees_rows [OF asked(4,2,6)] by simp
  then have "parse_joblist_output (sc_out v') = Inr [(parse_submit_output (sc_out w'), QUEUED)]"
    by (simp add: rows out new_row_def job_state_of_def)
  then show ?thesis using db fields by (auto simp: new_row_def j)
qed

text \<open>The event of the new task is published on the command line's bus, where nobody listens.\<close>

theorem cli_submit_unheard:
  assumes wf: "db_wf (st_db s)" and run: "cli_submit bt bj engines label metadata name s = (Inr tid, s')"
  shows "st_trace s' = st_trace s"
proof -
  let ?s = "cli_store s"
  have r: "submit_task bt bj label metadata name engines ?s = (Inr tid, s')" using run by (simp add: cli_submit_def)
  obtain nt where nt: "submit_check engines name metadata = Inr ()" "submit_new_task bt bj label metadata name = Inr nt"
    using submit_task_bound [OF r] by blast
  have wf': "db_wf (st_db ?s)" using wf by (simp add: cli_store_def)
  have "calls (st_bus ?s) evs = []" for evs by (simp add: cli_store_def cli_bus_def calls_def calls_for_def handlers_of_def)
  then show ?thesis using submit_outcome [OF wf' nt r] by (auto simp: cli_store_def)
qed

section \<open>The synchronous client\<close>

lemma to_sync_hides:
  "m s = (Inl (TaskRowNotFoundError i), s') \<Longrightarrow>
     to_sync True m s = (Inl (RuntimeErr ''asyncio.run() cannot be called from a running event loop''), s')
   \<and> to_sync False m s = (Inl (TaskRowNotFoundError i), s')"
  by (simp add: to_sync_def catchM_def is_RuntimeError_def raiseM_def)

end
