(* ===== verification/Front_Samples.thy ===== *)
theory Front_Samples
  imports Samples Config_Samples Platform_Facts Detection_Facts Aiida_Facts
begin

text \<open>Terminals, connections and calculations at which the properties of the command line, of AiiDA's plugin, of the
  platform adapters and of the webhook are applied.\<close>

section \<open>Connections\<close>

definition sample_ssh :: "(exn + finished) list \<Rightarrow> ssh_conn" where
  "sample_ssh as = \<lparr>sn_answers = as, sn_log = [], sn_username = Some ''root'', sn_is_linux = None, sn_is_darwin = None,
     sn_is_windows = None, sn_os_release = None\<rparr>"

definition answered_ok :: "string \<Rightarrow> exn + finished" where
  "answered_ok out = Inr (Some 0, Some out)"

text \<open>A Debian machine answers \<open>uname\<close>, then the question for its release, then the two questions it cannot answer.\<close>

definition debian_conn :: ssh_conn where
  "debian_conn = sample_ssh [answered_ok (''Linux'' @ newline), answered_ok (''debian@@@'' @ newline),
     answered_ok (''Linux'' @ newline), Inr (Some 127, None)]"

text \<open>The same machine whose \<open>sh\<close> has no command \<open>source\<close>: the two variables stay empty.\<close>

definition dash_conn :: ssh_conn where
  "dash_conn = sample_ssh [answered_ok (''Linux'' @ newline), answered_ok (''@@@'' @ newline),
     answered_ok (''Linux'' @ newline), Inr (Some 127, None)]"

lemma debian_detected:
  "map_sum id snd (fst (detect_platform (ADAPTERS (\<lambda>_. None)) debian_conn)) = Inr [''debian'', ''debian-like'', ''linux'']"
  by code_simp

lemma dash_undetected: "map_sum id snd (fst (detect_platform (ADAPTERS (\<lambda>_. None)) dash_conn)) = Inr [''linux'']"
  by code_simp

section \<open>A terminal\<close>

definition sample_screen :: "unit screen_scheme" where
  "sample_screen = world.extend sample_world (screen.fields [] [] None)"

lemma sample_screen_simps [simp]:
  "st_db sample_screen = sample_db" "st_faults sample_screen = []" "st_bus sample_screen = []"
  "sc_out sample_screen = []" "sc_tmp sample_screen = None"
  by (simp_all add: sample_screen_def world.extend_def screen.fields_def)

text \<open>A calculation of AiiDA's, number 77, and the working directory with its one input file.\<close>

definition sample_calc :: "int \<Rightarrow> exn + (string \<times> string option)" where
  "sample_calc pk = (if pk = 77 then Inr (''Dummy'', Some ''c1'') else Inl (OtherError ''NotExistent''))"

definition sample_files :: job_files where
  "sample_files = \<lparr>jf_bytes = (\<lambda>p. if p = ''/w/in'' then Inr ''data'' else Inl (OSErr p)), jf_utf8 = Some\<rparr>"

definition sample_script :: string where
  "sample_script = ''ENGINE=dummy'' @ newline @ ''PARENT=c1'' @ newline @ ''LABEL=aiida-77''"

definition sample_submit :: "(unit, int) cprog" where
  "sample_submit = submit (\<lambda>_. Inr (Some ''/w'')) (\<lambda>_. Inr []) sample_files (Inr (sample_engines, None)) (mk_path ''/w'')
     (Inr sample_script)"

lemma sample_header: "submit_header sample_calc ''aiida-77'' = Inr sample_script" "job_pk ''aiida-77'' = Inr 77"
  by code_simp+

definition after_submit :: "unit screen_scheme" where
  "after_submit = snd (sample_submit sample_screen)"

lemma sample_submitted: "fst (sample_submit sample_screen) = Inr 0" "sc_out after_submit = ''4'' @ newline"
  by code_simp+

definition status_of_jobs :: "int list option \<Rightarrow> status_args" where
  "status_of_jobs js = \<lparr>sa_jobs = js, sa_view = False, sa_info = False, sa_json = False, sa_convergence = False\<rparr>"

definition sample_viewer :: viewer where
  "sample_viewer = \<lparr>vw_quote = shlex_quote, vw_keys = Inr (), vw_engines = sample_engines, vw_user = ''root'',
     vw_crystout = (\<lambda>_. Inl ''no output''), vw_fmt = (\<lambda>_ _. [])\<rparr>"

section \<open>A webhook\<close>

definition sample_http :: http_lib where
  "sample_http = \<lparr>hl_client_error = RuntimeErr, hl_is_client_error = (\<lambda>e. case e of RuntimeErr _ \<Rightarrow> True | _ \<Rightarrow> False)\<rparr>"

definition sample_event :: event where
  "sample_event = TaskCompleted (base_of ((mk_running 1)\<lparr>t_webhook_url := Some ''http://h''\<rparr>)) ''/l''"

text \<open>The server is busy once, then accepts.\<close>

definition sample_hook :: "unit hook_world_scheme" where
  "sample_hook = world.extend sample_world (hook_world.fields [(1, Inr (503, Inr ''busy'')), (1, Inr (200, Inr ''''))] [])"

end
