(* ===== verification/Spec2Isabelle.thy ===== *)
theory Spec2Isabelle
  imports Samples Migration_Facts Vendor_Samples Config_Samples Front_Samples
begin

text \<open>
  A verification development for yascheduler, a daemon that runs scientific calculations on a pool of
  SSH machines, some of them rented from cloud providers on demand.  Paths below are relative to
  \<open>src/yascheduler/\<close>.

  \<^bold>\<open>The program.\<close>  Tasks and nodes are rows of two PostgreSQL tables.  A client submits a task
  (TO_DO).  The orchestrator runs four producer/consumer loops, each around a deduplicating queue:
  \<^emph>\<open>connect\<close> keeps SSH sessions to the enabled nodes, \<^emph>\<open>allocate\<close> gives a TO_DO task to a free machine
  or rents a node for it, \<^emph>\<open>consume\<close> watches running tasks and downloads their outputs, \<^emph>\<open>deallocate\<close>
  drains idle cloud nodes.  Use cases read and change the tables in units of work; events of saved
  tasks go to the message bus after the commit.

  \<^bold>\<open>How it is modelled.\<close>  Every coroutine or method is a computation \<open>('s, exn, 'a) M\<close> of theory \<open>Prelude\<close>:
  a function from a state to an outcome (\<open>Inl\<close> an exception, \<open>Inr\<close> the value returned) and the state it
  leaves; raises, early returns, \<open>except\<close> and \<open>finally\<close> clauses are written out.  What lies outside the
  repository is an input: each database round trip takes one answer of a list of faults, each remote
  command, connection attempt, VM creation or deletion one answer of a list in the world, and the
  theorems quantify over those lists, so they hold whatever network, database and vendors answer.
  Python's integers are \<open>int\<close>; the widths of the columns are checked where rows are written.

  \<^bold>\<open>Theories, in the order of the layers.\<close>
  \<^item> \<open>Prelude\<close>: computations, Hoare triples, invariants (\<open>keeps\<close>), framing (\<open>frames\<close>), dictionaries, strings.
  \<^item> \<open>Domain_Model\<close> (\<open>domain/model.py\<close>, \<open>events.py\<close>, \<open>exceptions.py\<close>), \<open>Engines\<close> (\<open>domain/engine.py\<close>),
    \<open>Settings\<close> (\<open>domain/settings.py\<close>, \<open>shared/validators.py\<close>), \<open>Paths\<close> (the part of \<open>pathlib\<close> in use).
  \<^item> \<open>Persistence\<close> (tables, statements, row codecs of \<open>infra/persistence/postgres.py\<close>), \<open>Unit_Of_Work\<close>
    (repositories and \<open>postgres_uow.py\<close>), \<open>Message_Bus\<close> (\<open>application/message_bus.py\<close>); about them
    \<open>Uow_Rules\<close> (a unit of work refines a pure transaction: atomicity, events after the commit),
    \<open>Store_Invariant\<close> (\<open>db_wf\<close> is kept), \<open>Uow_Blocks\<close> and \<open>Calm\<close>.
  \<^item> \<open>Migrations\<close> (\<open>postgres_migrations.py\<close>, \<open>postgres_schema.py\<close>, \<open>migration_base.py\<close>): the forward-only schema
    runner and the schema step of \<open>yainit\<close>; \<open>Migration_Facts\<close>: a run refines the pure \<open>migrate_all\<close> on the server,
    also when it is interrupted and resumed.
  \<^item> \<open>Tracker\<close>, \<open>Unique_Queue\<close> (\<open>application/allocation_tracker.py\<close>, \<open>queue.py\<close>), \<open>Retry\<close> (\<open>shared/retry.py\<close>).
  \<^item> \<open>Machines\<close> (\<open>infra/ssh/session.py\<close>, \<open>repository.py\<close>, \<open>operations/occupancy.py\<close>), \<open>Deployment\<close>
    (\<open>operations/deployment.py\<close>, \<open>download.py\<close>), with their contracts in \<open>Machine_Facts\<close>, \<open>Deployment_Facts\<close>.
  \<^item> \<open>Platform\<close> (\<open>infra/ssh/platform/linux.py\<close>, \<open>common.py\<close>), \<open>Windows\<close> (\<open>windows.py\<close>), \<open>Detection\<close>
    (\<open>checks.py\<close>, \<open>detect.py\<close>, \<open>adapters.py\<close>, \<open>registry.py\<close>, \<open>run_fn.py\<close>): the commands sent to a machine, with a
    log of them, over a list of the SSH library's answers.  \<open>Platform_Facts\<close>: the retry of \<open>apt-get\<close>, quoting read back
    by a shell, the table of \<open>ps\<close> read back; \<open>Detection_Facts\<close>: what a check learned is remembered.
  \<^item> \<open>Cloud_Config\<close>, \<open>Cloud_Manager\<close>, \<open>Cloud_Facts\<close> (\<open>infra/cloud/cloud_configs.py\<close>, \<open>adapters.py\<close>,
    \<open>provider_selection.py\<close>, \<open>manager.py\<close>).
  \<^item> \<open>Vendor_Api\<close> (what the REST clients share, \<open>cloud_init.py\<close>, \<open>utils.py\<close>), \<open>Vendor_Facts\<close>, and of
    \<open>infra/cloud/providers/\<close>: \<open>Hetzner\<close>, \<open>Vultr\<close>, \<open>Vastai\<close> over a list of HTTP answers, \<open>Upcloud\<close>, \<open>Azure\<close> over the
    outcomes of the SDK's calls; each with the lemmas on creation and deletion.  \<open>Vendor_Samples\<close>: sample answers.
  \<^item> The use cases of \<open>application/\<close>: \<open>Start_Task\<close>, \<open>Allocate\<close> with \<open>Allocate_Facts\<close> and \<open>Provision_Facts\<close>,
    \<open>Consume\<close>, \<open>Submit_Query\<close>, \<open>Node_Teardown\<close>.
  \<^item> \<open>Progress\<close> and \<open>Lifecycle\<close>: no operation moves a task's row backwards; \<open>Orchestrator\<close>, \<open>Daemon\<close> and
    \<open>Orchestrator_Facts\<close> (\<open>application/orchestrator.py\<close>): the loops as a step relation \<open>daemon_step\<close>.
  \<^item> \<open>Ini\<close> (the part of \<open>configparser\<close> in use), \<open>Config_Parser\<close> (\<open>entrypoints/config_parser.py\<close>, \<open>config.py\<close>,
    \<open>infra/persistence/db_config.py\<close>), \<open>Config_Facts\<close>: what a successful parse promises; \<open>Config_Samples\<close>.
  \<^item> \<open>Host_Spec\<close>, \<open>Node_Manager\<close>, \<open>Node_Manager_Facts\<close> (\<open>entrypoints/cli/manage_node.py\<close>): the command \<open>yasetnode\<close>.
  \<^item> \<open>Cli_Views\<close> (\<open>entrypoints/cli/show_nodes.py\<close>, \<open>check_status.py\<close>): a terminal as state, the queries and
    renderers; \<open>Aiida\<close> (\<open>cli/submit.py\<close>, \<open>aiida_plugin.py\<close>, \<open>client.py\<close>); \<open>Cli_Facts\<close> and \<open>Aiida_Facts\<close>: what is printed
    is what the tables hold, and what AiiDA's plugin reads from it.
  \<^item> \<open>Webhook\<close> (\<open>infra/notifier/webhook.py\<close>), \<open>Composition\<close> (\<open>entrypoints/di.py\<close>, \<open>cli/daemon_common.py\<close>): how the
    buses, the clouds and the daemon are put together from a parsed configuration.
  \<^item> \<open>Samples\<close>, \<open>Front_Samples\<close>: a concrete deployment, terminal and connections, where the witnesses apply the properties.

  \<^bold>\<open>Interfaces.\<close>  The locales state what a client relies on, each interpreted on the model's definitions: a table of
  keys (\<open>keyed_table\<close>, dictionaries), the start of a task (\<open>task_starter\<close>) towards the allocator, the cloud provider
  (\<open>cloud_provider\<close>, the manager), the loop over a queue (\<open>pipeline\<close>) and the daemon made of four of them (\<open>daemon\<close>,
  interpreted on the orchestrator's environment and on what \<open>Composition\<close> builds), a vendor's deletion
  (\<open>vendor_deletion\<close>, with a confirming GET \<open>confirmed_deletion\<close>), a wait (\<open>polling\<close>) and a listing in pages
  (\<open>paging\<close>) with the three REST providers, and a check whose answer is remembered (\<open>remembered_check\<close>).

  \<^bold>\<open>Bounds and fuel.\<close>  Recursion is structural, or ends by a measure (\<open>apt_loop\<close>: the attempts left; \<open>split_str\<close>: the
  text left), but for three loops.  \<open>retry\<close> runs with \<open>retry_rounds\<close> rounds, the number that fit before the deadline as
  every delay is at least the base delay (\<open>retry_fuel_enough\<close>); \<open>poll_loop\<close> with \<open>poll_rounds\<close> rounds and \<open>search_loop\<close>
  with as many pages as the vendor has answers left (\<open>provider_loops_end\<close>): more change nothing.  The daemon's endless
  loops are steps of a relation, so no fuel is needed: invariants hold in every reachable state.

  \<^bold>\<open>The properties.\<close>  The sections below follow the program: the daemon as a whole and its loops, allocation,
  consumption, teardown, submission and queries, the users' commands, persistence, the domain, queues, machines and
  clouds, notification, platforms, migrations, the operator's command, the cloud providers, the configuration.

  \<^bold>\<open>Not modelled.\<close>  What only calls the operating system or a library: forking, signals, pid files and service units,
  argparse's grammars (a record of their result is the input), the loading of key files, the generation of SSH keys,
  the loggers, the HTTP sessions and SDK clients (their answers are inputs), the lock and the semaphores
  around single requests; the abstract ports, which have no behaviour; and the hook of the Windows path class for
  Python 3.11 and older.  The machines of \<open>Machines\<close> answer whole operations, those of \<open>Platform\<close> single commands; the
  two are not tied to each other by a refinement.  Interleaving inside a consumer is not
  modelled: a step of the daemon is a whole producer or consumer run, which is where the allocation
  lock, the guarded \<open>UPDATE\<close> and the pending sets of the queues make concurrent runs atomic for the
  rows they change; the claim of a task is proved safe for any interleaving with another process by
  its guard (\<open>guarded_save_atomic\<close>).
\<close>

section \<open>The daemon\<close>



text \<open>Whatever its loops, monitors, connections and other processes do, in any order, the daemon started
  on a healthy database keeps it healthy and moves tasks forward only: no row is lost, a status never
  goes back from DONE to RUNNING or from RUNNING to TO_DO, and a running task never changes its node.
  Each of the four queues stays duplicate-free and within its bound, and no more messages are in work
  than the loop has workers.\<close>

theorem daemon_progress:
  assumes "settings_ok (oe_settings env)" "db_wf (st_db w)"
    and "env = daemon_env settings pv clouds active keys discover repr quote"
    and "(daemon_step env pb)\<^sup>*\<^sup>* (daemon_pipes_new (oe_settings env), w) (c, w')"
  shows "db_wf (st_db w') \<and> tasks_le (d_tasks (st_db w)) (d_tasks (st_db w')) \<and> pipes_ok (oe_settings env) c"
  using program.run_keeps [OF assms(4) [unfolded assms(3)], of "d_tasks (st_db w)"] pipes_ok_new [OF assms(1)] assms(2)
  by (simp add: grown_def assms(3))

theorem daemon_progress_witness:
  "pipes_ok sample_settings (daemon_pipes_new sample_settings)
   \<and> tasks_le (d_tasks sample_db) (d_tasks (st_db (sample_orch\<lparr>w_clock := w_clock sample_orch + 1\<rparr>)))"
proof -
  have step: "(daemon_step sample_env sample_probe)\<^sup>*\<^sup>* (daemon_pipes_new (oe_settings sample_env), sample_orch)
      (daemon_pipes_new (oe_settings sample_env), sample_orch\<lparr>w_clock := w_clock sample_orch + 1\<rparr>)"
    by (rule r_into_rtranclp, rule daemon_step.Clock) simp
  have s: "settings_ok (oe_settings sample_env)" by (simp add: sample_settings_ok)
  have wf: "db_wf (st_db sample_orch)" by (simp add: sample_db_wf)
  from daemon_progress [OF s wf sample_env_def step] show ?thesis by simp
qed



text \<open>A worker survives its messages: whatever the consumer raises, the message is marked done, the world
  is what the consumer left, and the worker ends only when the consumer was cancelled.\<close>

theorem worker_resilience:
  assumes "uq_inv n q" "um_in m (uq_pending q)"
  shows "(let (r, (q', w')) = worker_turn consume m (q, w) in
     uq_item_done m q = Inr q' \<and> w' = snd (consume m w) \<and> uq_psize q' = uq_psize q - 1
     \<and> (r = Inr () \<or> (r = Inl CancelledError \<and> fst (consume m w) = Inl CancelledError)))"
  using worker_turn_outcome [OF assms, of consume w] by (auto simp: case_prod_unfold Let_def prod_eq_iff)

theorem worker_resilience_witness:
  "fst (worker_turn (\<lambda>_. raiseM (OSErr ''x'')) (UMessage 1 ''a'')
     ((uq_new 5)\<lparr>uq_pending := [UMessage (1::int) ''a''], uq_unfinished := 1\<rparr>, ())) = Inr ()"
proof -
  let ?q = "(uq_new 5)\<lparr>uq_pending := [UMessage (1::int) ''a''], uq_unfinished := 1\<rparr>"
  have "uq_inv 5 ?q" by (simp add: uq_inv_def uq_new_def uq_ids_def uq_qsize_def uq_psize_def)
  moreover have "um_in (UMessage 1 ''a'') (uq_pending ?q)" by (simp add: um_in_def um_eq_def)
  ultimately show ?thesis
    using worker_resilience [of 5 ?q "UMessage 1 ''a''" "\<lambda>_. raiseM (OSErr ''x'')" "()"]
    by (auto simp: case_prod_unfold Let_def raiseM_def)
qed

text \<open>C3: An operator's node is never given up, and a cloud node not before its grace has passed since the
  first failed connection: the tables, the events and the tracker stay untouched.\<close>

theorem connect_respects_grace:
  assumes "n_cloud n = None \<or> age_of (n_node_id n) w < real_of_int (connect_grace_for (oe_config_clouds env) (n_cloud n))"
  shows "wdata (snd (connect_machine_consumer env (UMessage i n) w)) = wdata w"
  by (rule within_grace [OF assms])

theorem connect_respects_grace_witness:
  "wdata (snd (connect_machine_consumer sample_env (UMessage (NodeId 2) cloud_node) sample_orch)) = wdata sample_orch"
  using connect_respects_grace [of cloud_node sample_orch sample_env "NodeId 2"]
  by (simp add: age_of_def cloud_node_def sample_env_def daemon_env_def sample_hetzner_def cfg_connect_grace_def cloud_base.defs)

text \<open>A node is offered for connection only if it is not registered and its row is enabled or still
  carries a running task, so a drained node is reconnected after a restart until its task is consumed.\<close>

theorem connect_targets:
  "(let (r, w') = connect_machine_producer w in visible w' = visible w \<and> (\<forall>ms. r = Inr ms \<longrightarrow> (\<forall>m \<in> set ms.
      um_id m = n_node_id (um_payload m) \<and> \<not> repo_contains (um_id m) w'
      \<and> (\<exists>q \<in> set (d_nodes (st_db w)). row_to_node q = Inr (um_payload m)
           \<and> (q_enabled q \<or> (\<exists>t \<in> set (d_tasks (st_db w)). r_status t = RUNNING \<and> r_node t = Some (q_node_id q)))))))"
  using connect_producer_outcome [OF prod.collapse [symmetric], of w] unfolding case_prod_unfold Let_def .

theorem connect_targets_witness:
  "\<exists>m. fst (connect_machine_producer sample_orch) = Inr [m] \<and> n_node_id (um_payload m) = NodeId 1
     \<and> \<not> repo_contains (NodeId 1) (snd (connect_machine_producer sample_orch))"
proof -
  have run: "map_sum id (map um_id) (fst (connect_machine_producer sample_orch)) = Inr [NodeId 1]"
    by code_simp
  then obtain m where m: "fst (connect_machine_producer sample_orch) = Inr [m]" "um_id m = NodeId 1"
    by (cases "fst (connect_machine_producer sample_orch)") auto
  then show ?thesis
    using connect_targets [of sample_orch] by (auto simp: case_prod_unfold Let_def)
qed

text \<open>C4: A running task whose machine is gone is only counted for twenty passes; on the next pass it becomes
  DONE with the abandonment event, published after the commit, and its tracker slot is released even when
  the row cannot be saved.\<close>

theorem lost_machine:
  assumes "abandon_task t default_abandon_error = Inr t'"
  shows "(let (r, w') = machine_gone tid t w in
    if times_not_found tid w < broken_tasks_passes
    then r = Inr () \<and> wdata w' = wdata w \<and> times_not_found tid w' = times_not_found tid w + 1
    else w_tracker w' = tracker_discard tid (w_tracker w)
      \<and> ((\<exists>e. r = Inl e \<and> visible w' = visible w)
         \<or> (saved_over t' (st_db w) (st_db w')
            \<and> (r = Inr () \<and> st_trace w' = st_trace w @ calls (st_bus w) (t_events t') \<or> r = Inl CancelledError))))"
  using machine_gone_outcome [OF assms prod.collapse [symmetric], of tid w] by (simp add: case_prod_unfold Let_def)

theorem lost_machine_witness:
  "times_not_found (TaskId 2) (snd (machine_gone (TaskId 2) (mk_running 2) sample_orch)) = 1"
proof -
  obtain t' where "abandon_task (mk_running 2) default_abandon_error = Inr t'"
    by (simp add: abandon_task_def mk_running_def)
  from lost_machine [OF this, of "TaskId 2" sample_orch] show ?thesis
    by (simp add: case_prod_unfold Let_def times_not_found_def broken_tasks_passes_def)
qed

text \<open>The in-flight guard is released on every path: after a guarded consumption the task's id is not in
  flight and the other ids are as before; the occupancy check of the machine starts anew exactly when the
  consumption finalised the task.\<close>

theorem in_flight_released:
  "(let (r, w') = consume_guarded env tid key sid w;
        done = fst (consume_task tid sid (oe_engines env) (oe_local_tasks_dir env)
                      (w\<lparr>o_consuming := insert tid (o_consuming w)\<rparr>))
    in o_consuming w' = o_consuming w - {tid}
     \<and> o_occupancy_started w' = (if r = Inr () \<and> done = Inr True then o_occupancy_started w - {key} else o_occupancy_started w))"
  using consume_guarded_own [OF prod.collapse [symmetric], of env tid key sid w] by (simp add: case_prod_unfold Let_def)

text \<open>C5: The deallocator disables a node only if it is enabled, carries no running task, belongs to a
  configured cloud, and its session is connected and has been free for the tolerance of that cloud; it
  hands on only disabled nodes that carried no running task.\<close>

theorem deallocator_only_idle:
  assumes "db_wf (st_db w)" "sessions_ok w"
  shows "(let (r, w') = deallocator_producer env w in
     drained_db (idle_session (oe_config_clouds env) w) (st_db w) (st_db w')
    \<and> (\<forall>ms. r = Inr ms \<longrightarrow> (\<forall>m \<in> set ms. um_id m = n_node_id (um_payload m)
         \<and> (\<exists>q \<in> set (d_nodes (st_db w')). \<not> q_enabled q \<and> row_to_node q = Inr (um_payload m))
         \<and> (\<forall>t \<in> set (d_tasks (st_db w)). r_status t = RUNNING \<longrightarrow> r_node t \<noteq> Some (nid_value (um_id m))))))"
  using deallocator_outcome [OF assms prod.collapse [symmetric], of env] unfolding case_prod_unfold Let_def .

theorem deallocator_only_idle_witness:
  "d_tasks (st_db (snd (deallocator_producer sample_env sample_orch))) = d_tasks sample_db"
  using deallocator_only_idle [of sample_orch sample_env]
  by (simp add: sample_db_wf sample_orch_sessions case_prod_unfold Let_def drained_db_def)

text \<open>The capacity reported to the allocator is what the configured maxima leave after the rows of the
  node table, disabled nodes and placeholders included, and never negative; reading it changes nothing.\<close>

theorem capacity_exact:
  "(let (r, w') = clouds_get_capacity env w in visible w' = visible w \<and> (\<forall>k. r = Inr k \<longrightarrow>
    k = max 0 ((\<Sum>c \<leftarrow> oe_active_clouds env. cfg_max_nodes c)
              - (\<Sum>c \<leftarrow> oe_active_clouds env. cloud_rows (st_db w) (cfg_prefix c)))))"
  using capacity_outcome [OF prod.collapse [symmetric], of env w] by (simp add: case_prod_unfold Let_def)

theorem capacity_exact_witness:
  "\<exists>k. fst (clouds_get_capacity sample_env sample_orch) = Inr k \<and> k = 1"
proof -
  have "case_sum (\<lambda>_. False) (\<lambda>_. True) (fst (clouds_get_capacity sample_env sample_orch))"
    by code_simp
  then obtain k where k: "fst (clouds_get_capacity sample_env sample_orch) = Inr k"
    by (cases "fst (clouds_get_capacity sample_env sample_orch)") auto
  with capacity_exact [of sample_env sample_orch] show ?thesis
    by (simp add: case_prod_unfold Let_def sample_env_def daemon_env_def sample_hetzner_def cfg_max_nodes_def
      cloud_base.defs cloud_rows_def sample_db_def sample_node_def)
qed

text \<open>Stopping is idempotent, and a stop whose connections close cleanly leaves no session registered and
  every session closed, however the background jobs ended.\<close>

theorem stop_complete:
  assumes "sessions_ok w" "st_faults w = []" "\<not> o_stopped w"
  shows "(let (r, w') = orch_stop jobs w in r = Inr () \<and> w_registry w' = [] \<and> \<not> o_http_open w'
    \<and> (\<forall>nid sid. repo_get_session nid w = Some sid \<longrightarrow> ss_closed (sess w' sid))
    \<and> orch_stop jobs' w' = (Inr (), w'))"
  using stop_closes [OF assms prod.collapse [symmetric], of jobs] stop_idempotent [of jobs' jobs w]
  by (simp add: case_prod_unfold Let_def)

theorem stop_complete_witness:
  "ss_closed (sess (snd (orch_stop [Some (OSErr ''x''), Some CancelledError] sample_orch)) 0)"
  using stop_complete [OF sample_orch_sessions, of "[Some (OSErr ''x''), Some CancelledError]" "[]"]
  by (simp add: case_prod_unfold Let_def repo_get_session_def)

section \<open>Allocation\<close>

text \<open>C6: Giving a waiting task to a free machine either changes nothing that anyone can see, or claims
  exactly one row: the session it picks is connected, free, of a platform the engine supports, its node
  is enabled and carries no running task; the row goes from TO_DO to RUNNING in one commit, the
  allocation event is published after it, and on success the session is BUSY, watched by a monitor (or
  closed), and the tracker slot of the task is released.\<close>

theorem free_allocation:
  assumes "sessions_ok w"
  shows "(let (r, w') = allocate_free_machine (orch_start_task discover repr quote engines_dir) tasks_dir t e w
     in ((visible w' = visible w \<and> r \<noteq> Inr True)
       \<or> (\<exists>sid n running. eligible e w sid n
            \<and> run_task t (n_node_id n) (remote_folder_for tasks_dir t) = Inr running
            \<and> claimed running (st_db w) (st_db w') \<and> st_bus w' = st_bus w
            \<and> ((r = Inr True \<and> st_trace w' = st_trace w @ calls (st_bus w) (t_events running)
                 \<and> m_state (ss_machine (sess w' sid)) = BUSY
                 \<and> (ss_closed (sess w' sid) \<or> (\<exists>k. ss_monitor (sess w' sid) = Some (k, e))))
               \<or> (r = Inl CancelledError \<and> partly_published [running] w w'))))
       \<and> w_tracker w' = (if r = Inr True then tracker_discard (t_task_id t) (w_tracker w) else w_tracker w))"
proof -
  obtain r w' where run:
    "allocate_free_machine (orch_start_task discover repr quote engines_dir) tasks_dir t e w = (r, w')"
    by fastforce
  show ?thesis
    using orch_starter.allocate_free_outcome [OF assms run] unfolding run
    by (auto simp: machine_result_def started_with_def published_def events_of_def)
qed

theorem free_allocation_witness:
  "sessions_ok sample_world \<and>
   (let (r, w') = allocate_free_machine (orch_start_task (\<lambda>_. Inr 4) (\<lambda>_. '''') id (mk_path ''/d/engines''))
        (mk_path ''/t'') (mk_task 1) sample_engine sample_world
    in w_tracker w' = [])"
  using free_allocation [OF sample_sessions_ok, of "\<lambda>_. Inr 4" "\<lambda>_. ''''" id "mk_path ''/d/engines''" "mk_path ''/t''"
      "mk_task 1" sample_engine]
  by (simp add: sample_sessions_ok case_prod_unfold Let_def tracker_discard_def)


text \<open>A claim on a task whose row is no longer TO_DO is refused before anything is spawned: the guarded
  save raises, the store, the sessions and the remote machines are untouched.  So of two workers that
  read the same waiting task, the second starts nothing.\<close>

theorem lost_claim_starts_nothing:
  assumes "\<not> (\<exists>r \<in> set (d_tasks (st_db w)). r_task_id r = tid_value (t_task_id t) \<and> r_status r = TO_DO)"
  shows "(let (r, w') = claim_and_start start sid e t (w :: 'y world_scheme)
     in (\<exists>err. r = Inl err) \<and> visible w' = visible w \<and> store.more w' = store.more w)"
  using claim_lost_no_start [OF assms prod.collapse [symmetric]] by (simp add: case_prod_unfold Let_def)

theorem lost_claim_starts_nothing_witness:
  "\<exists>err. fst (claim_and_start (orch_start_task (\<lambda>_. Inr 4) (\<lambda>_. '''') id (mk_path ''/d'')) 0 sample_engine
     (mk_task 2) sample_world) = Inl err"
proof -
  have "\<not> (\<exists>r \<in> set (d_tasks (st_db sample_world)). r_task_id r = tid_value (t_task_id (mk_task 2)) \<and> r_status r = TO_DO)"
    by (simp add: mk_task_def sample_db_def sample_row_def)
  from lost_claim_starts_nothing [OF this] show ?thesis by (simp add: Let_def case_prod_unfold)
qed

text \<open>Provisioning a cloud node for a task either releases the task's slot of the allocation tracker, or
  leaves the slot linked to a node that is enabled and saved in the table; it never reports the task as
  started.  No error path keeps a slot, which would block the task for ever.\<close>

theorem cloud_slot_accounted:
  "(let (r, w') = provision_node (cloud_port_of pv) e tid w
    in (w_tracker w' = tracker_discard tid (w_tracker w) \<and> r \<noteq> Inr True)
      \<or> (r = Inr False \<and> (\<exists>n. w_tracker w' = tracker_set_node tid (n_node_id n) (w_tracker w)
            \<and> n_enabled n \<and> node_saved n (st_db w'))))"
  using manager.provision_slot [OF prod.collapse [symmetric]] by (simp add: case_prod_unfold Let_def)

text \<open>C7: Provisioning leaks no placeholder row when the database answers and no handler cancels: whatever
  the cloud API and the new machine do, the tables end as they began unless an enabled node was saved.\<close>

theorem cloud_no_leaked_row:
  assumes "db_wf (st_db w)" "calm_store w"
  shows "(let (r, w') = provision_node (cloud_port_of pv) e tid (w :: 'y world_scheme)
    in rows_of (st_db w') = rows_of (st_db w) \<or> (r = Inr False \<and> (\<exists>n. n_enabled n \<and> node_saved n (st_db w'))))"
  using manager.provision_no_leak [OF assms prod.collapse [symmetric]] by (simp add: case_prod_unfold Let_def)

theorem cloud_no_leaked_row_witness:
  "(let (r, w') = provision_node (cloud_port_of sample_provisioner) sample_engine (TaskId 1) sample_world
    in rows_of (st_db w') = rows_of sample_db \<or> (r = Inr False \<and> (\<exists>n. n_enabled n \<and> node_saved n (st_db w'))))"
  using cloud_no_leaked_row [of sample_world sample_provisioner sample_engine "TaskId 1"]
  by (simp add: sample_db_wf sample_calm)

section \<open>Consumption\<close>

text \<open>C8: Consuming a task has three outcomes.  Nothing visible changes, and then the result is \<open>True\<close> only
  if the task was not running and only then its slot is released; or the row of the running task, with
  the same node, becomes DONE together with exactly one terminal event, published after the commit, and
  the slot is released; or that commit happened and a cancellation escaped.\<close>

theorem consumption_outcome:
  "consume_result tid w (fst (consume_task tid sid engines tasks_dir w))
     (snd (consume_task tid sid engines tasks_dir w))"
  by (rule consume_outcome [OF prod.collapse [symmetric]])

text \<open>The decision on a downloaded task: it is deferred exactly when all errors are transient; else it is
  finished once, as completed with the local folder if there was no error, as failed with all the errors
  in the message, permanent first, if there was one; node and remote folder are kept.\<close>

theorem finalisation_decision:
  assumes "is_running t"
  shows "(case decide_finalisation t lf rf tr pe sf of
      Inl e \<Rightarrow> False
    | Inr None \<Rightarrow> tr \<noteq> [] \<and> pe = []
    | Inr (Some t') \<Rightarrow> \<not> (tr \<noteq> [] \<and> pe = []) \<and> t_status t' = DONE
        \<and> t_task_id t' = t_task_id t \<and> allocated_node_id_of t' = allocated_node_id_of t
        \<and> (if pe = [] then error_of t' = None \<and> t_local_folder t' = Some (path_str sf)
           else error_of t' = Some (format_download_error (pe @ tr)) \<and> t_local_folder t' = Some lf)
        \<and> remote_folder_of t' = Some (str_or rf (the (remote_folder_of t)))
        \<and> t_events t' = t_events t @ [if pe = [] then TaskCompleted (base_of t) (path_str sf)
                                     else TaskFailed (base_of t) (format_download_error (pe @ tr))])"
proof (cases "tr \<noteq> [] \<and> pe = []")
  case True
  then have "decide_finalisation t lf rf tr pe sf = Inr None" by (simp add: decide_defer)
  then show ?thesis using True by simp
next
  case False
  then show ?thesis using decide_final [OF assms False, of lf rf sf] by force
qed

theorem finalisation_decision_witness:
  "is_running (mk_running 2) \<and>
   decide_finalisation (mk_running 2) ''/l'' ''/t/2'' [(None, SFTPRetryErr ''x'')] [] (mk_path ''/l'') = Inr None"
proof -
  have run: "is_running (mk_running 2)" by (simp add: mk_running_def is_running_def)
  from finalisation_decision [OF run, where tr = "[(None, SFTPRetryErr ''x'')]" and pe = "[]"
      and lf = "''/l''" and rf = "''/t/2''" and sf = "mk_path ''/l''"] run
  show ?thesis by (auto split: sum.splits option.splits)
qed

section \<open>Draining and tearing down nodes\<close>

text \<open>The deallocation sweep changes no task, and the only nodes it disables are enabled cloud nodes of a
  configured provider that carry no running task and have been idle for the provider's tolerance; the
  nodes it hands to the teardown are disabled, have a real host name and carried no running task.\<close>

theorem idle_drain:
  assumes "db_wf (st_db w)"
  shows "(let (r, w') = deallocate_nodes clouds idle (w :: 'y world_scheme)
    in drained_db (idle_row clouds idle (w_clock w) (st_db w)) (st_db w) (st_db w')
      \<and> (\<forall>ns. r = Inr ns \<longrightarrow> (\<forall>n \<in> set ns.
          (\<exists>q \<in> set (d_nodes (st_db w')). \<not> q_enabled q \<and> q_hostname q \<noteq> '''' \<and> row_to_node q = Inr n)
        \<and> (\<forall>t \<in> set (d_tasks (st_db w)). r_status t = RUNNING \<longrightarrow> r_node t \<noteq> Some (nid_value (n_node_id n))))))"
  using deallocate_nodes_outcome [OF assms prod.collapse [symmetric]] by (simp add: case_prod_unfold Let_def)

theorem idle_drain_witness:
  "d_tasks (st_db (snd (deallocate_nodes [] [(NodeId 2, 0)] sample_world))) = d_tasks sample_db"
  using idle_drain [of sample_world "[]" "[(NodeId 2, 0)]"]
  by (simp add: sample_db_wf case_prod_unfold Let_def drained_db_def)


text \<open>Abandoning an unreachable cloud node goes through the same stages, and whatever fails on the way
  the tracker slots linked to the node, and only those, are released.\<close>

theorem abandon_releases_slots:
  fixes w :: "'y world_scheme"
  assumes "n_cloud n \<noteq> None" "dict_ok (w_tracker w)"
  shows "(let (r, w') = abandon_node (cloud_port_of pv) n w; i = nid_value (n_node_id n)
    in tracker_contains tid (w_tracker w') = (tracker_contains tid (w_tracker w)
          \<and> dget (w_tracker w) tid \<noteq> Some (Some (n_node_id n)))
     \<and> (rows_of (st_db w') = rows_of (st_db w)
       \<or> (\<exists>d. disabled_db i (st_db w) d
         \<and> (rows_of (st_db w') = rows_of d
            \<or> (removed_db i d (st_db w')
               \<and> (\<exists>v v'. cloud_deallocate pv n v = (Inr (), v') \<and> st_db (v :: 'y world_scheme) = d))))))"
  using manager.abandon_tracker [OF prod.collapse [symmetric], of pv n w]
    manager.abandon_stages [OF assms(1) prod.collapse [symmetric], of pv w]
  by (simp add: case_prod_unfold Let_def cloud_port_of_def tracker_contains_def dhas_def
      tracker_discard_by_node_get [OF assms(2)])

theorem abandon_releases_slots_witness:
  "w_tracker (snd (abandon_node (cloud_port_of sample_provisioner) cloud_node
      (sample_world\<lparr>w_tracker := [(TaskId 1, Some (NodeId 2))]\<rparr>))) = []"
proof -
  let ?w = "sample_world\<lparr>w_tracker := [(TaskId 1, Some (NodeId 2))]\<rparr>"
  let ?tr = "w_tracker (snd (abandon_node (cloud_port_of sample_provisioner) cloud_node ?w))"
  have "\<not> tracker_contains tid ?tr" for tid
    using abandon_releases_slots [of cloud_node ?w sample_provisioner tid]
    by (auto simp: cloud_node_def dict_ok_def case_prod_unfold Let_def tracker_contains_def dhas_def split: if_splits)
  then show ?thesis by (cases ?tr) (auto simp: tracker_contains_def dhas_def dget_None_iff)
qed


section \<open>Submission and queries\<close>



text \<open>A query by job ids and by statuses at once is an error before the database is asked, a query by
  neither is empty.  Any other query changes nothing that can be seen; its tasks are the selected rows in
  the order of their ids, and its node dictionary holds exactly the existing nodes those tasks are
  allocated to, each under its id.\<close>

theorem query_answer:
  assumes "db_wf (st_db s)"
  shows "(let (r, s') = query_tasks jobs statuses s
    in if nonempty jobs \<and> nonempty statuses
       then r = Inl (ValueError ''jobs and statuses are mutually exclusive'') \<and> s' = s
       else if \<not> nonempty jobs \<and> \<not> nonempty statuses then r = Inr ([], []) \<and> s' = s
       else visible s' = visible s \<and> (\<forall>ts nd. r = Inr (ts, nd) \<longrightarrow>
            list_all2 (\<lambda>q t. row_to_task q = Inr t) (queried_rows jobs statuses (st_db s)) ts
          \<and> (\<forall>i n. dget nd i = Some n \<longleftrightarrow> (\<exists>t \<in> set ts. allocated_node_id_of t = Some i)
               \<and> n_node_id n = i \<and> (\<exists>q \<in> set (d_nodes (st_db s)). row_to_node q = Inr n))))"
proof (cases "nonempty jobs = nonempty statuses")
  case True
  then show ?thesis
    using query_exclusive [of jobs statuses s] query_empty [of jobs statuses s] by (simp add: case_prod_unfold Let_def)
next
  case False
  from query_outcome [OF assms False prod.collapse [symmetric]] False
  show ?thesis unfolding Let_def case_prod_unfold by (simp only: if_False if_True de_Morgan_conj simp_thms) blast
qed

theorem query_answer_witness:
  "visible (snd (query_tasks None (Some [RUNNING]) sample_world)) = visible sample_world"
  using query_answer [of sample_world None "Some [RUNNING]"]
  by (simp add: sample_db_wf nonempty_def case_prod_unfold Let_def)

section \<open>The users' commands\<close>

text \<open>C11: From a calculation of AiiDA's to its job list: the script that the plugin writes, run by \<open>yasubmit\<close>, adds one
  waiting task with the calculation's name and engine, whose id the plugin reads from the output; \<open>yastatus\<close>, asked for that
  id, prints what the plugin reads as this one job, queued.\<close>

theorem aiida_round_trip:
  fixes w v :: "'z screen_scheme"
  assumes "submit_header load_node name = Inr script" "job_pk name = Inr pk" "load_node pk = Inr (code, caller)"
    and "script_value (lower code)" "script_value name" "\<And>u. caller = Some u \<Longrightarrow> script_value u"
    and "db_wf (st_db w)" "sc_out w = []" "\<forall>(n, e) \<in> set engines. e_name e = n"
    and "submit bt bj fs (Inr (engines, url)) cwd (Inr script) w = (Inr 0, w')"
    and "st_db v = st_db w'" "sc_out v = []" "py_int (parse_submit_output (sc_out w')) = Some j"
    and "default_renderer a" "sa_jobs a = Some [j]" "check_status fl tz config view a v = (Inr 0, v')"
  shows "parse_joblist_output (sc_out v') = Inr [(parse_submit_output (sc_out w'), QUEUED)]
    \<and> (\<exists>row. d_tasks (st_db w') = d_tasks (st_db w) @ [row] \<and> r_task_id row = j \<and> r_status row = TO_DO
        \<and> r_title row = name \<and> r_engine row = lower code)"
  by (rule plugin_round_trip [OF assms(1-5) _ assms(7-)]) (rule assms(6))

theorem aiida_round_trip_witness:
  "parse_joblist_output (sc_out (snd (check_status (\<lambda>_. []) ''+00:00'' (Inr () :: exn + unit) sample_viewer (status_of_jobs (Some [4]))
     (after_submit\<lparr>sc_out := []\<rparr>)))) = Inr [(''4'', QUEUED)]"
proof -
  let ?v = "after_submit\<lparr>sc_out := []\<rparr>"
  let ?run = "check_status (\<lambda>_. []) ''+00:00'' (Inr () :: exn + unit) sample_viewer (status_of_jobs (Some [4])) ?v"
  have run: "sample_submit sample_screen = (Inr 0, after_submit)"
    using sample_submitted(1) by (simp add: after_submit_def prod_eq_iff)
  have "fst ?run = Inr 0" by code_simp
  then have later: "?run = (Inr 0, snd ?run)" by (simp add: prod_eq_iff)
  have plain: "script_value (lower ''Dummy'')" "script_value ''aiida-77''" "script_value ''c1''"
    "default_renderer (status_of_jobs (Some [4]))" "parse_submit_output (''4'' @ newline) = ''4''" "py_int ''4'' = Some 4"
    by code_simp+
  have id: "py_int (parse_submit_output (sc_out after_submit)) = Some 4" by (simp only: sample_submitted(2) plain(5,6))
  have "parse_joblist_output (sc_out (snd ?run)) = Inr [(parse_submit_output (sc_out after_submit), QUEUED)]"
    by (rule aiida_round_trip [OF sample_header(1,2) _ plain(1,2) _ _ _ _ run [unfolded sample_submit_def] _ _ id plain(4) _ later,
          where caller = "Some ''c1''", THEN conjunct1])
      (simp_all add: sample_calc_def plain(3) sample_db_wf sample_engines_def sample_engine_def status_of_jobs_def)
  then show ?thesis by (simp only: sample_submitted(2) plain(5))
qed

text \<open>C12: What AiiDA's plugin reads from the output of \<open>yastatus\<close> is the table: the tasks asked for, or without any those
  waiting and running, in the order of their ids, each with its state; and nothing was changed.\<close>

theorem aiida_queue:
  assumes "default_renderer a" "sc_out w = []" "check_status fl tz config view a w = (Inr 0, w')"
  shows "visible w' = visible w \<and> parse_joblist_output (sc_out w')
    = Inr (map (\<lambda>r. (show_int (r_task_id r), job_state_of (r_status r))) (status_rows a (st_db w)))"
  by (rule aiida_sees_rows [OF assms])

theorem aiida_queue_witness:
  "parse_joblist_output (sc_out (snd (check_status (\<lambda>_. []) ''+00:00'' (Inr () :: exn + unit) sample_viewer (status_of_jobs None) sample_screen)))
   = Inr [(''1'', QUEUED), (''2'', JOB_RUNNING)]"
proof -
  let ?run = "check_status (\<lambda>_. []) ''+00:00'' (Inr () :: exn + unit) sample_viewer (status_of_jobs None) sample_screen"
  have "fst ?run = Inr 0" by code_simp
  then have run: "?run = (Inr 0, snd ?run)" by (simp add: prod_eq_iff)
  have "default_renderer (status_of_jobs None)" by (simp add: default_renderer_def status_of_jobs_def)
  moreover have "map (\<lambda>r. (show_int (r_task_id r), job_state_of (r_status r))) (status_rows (status_of_jobs None) sample_db)
      = [(''1'', QUEUED), (''2'', JOB_RUNNING)]" by code_simp
  ultimately show ?thesis using aiida_queue [OF _ _ run] by simp
qed



text \<open>C14: \<open>yastatus\<close> changes nothing in the database, in any of its views.  It ends with exit status 0 or 1 and no
  temporary file left, or it was cancelled.\<close>

theorem status_read_only:
  fixes w :: "'z screen_scheme"
  assumes "sc_tmp w = None"
  shows "(let (r, w') = check_status fl tz config view a w in visible w' = visible w
    \<and> (((r = Inr 0 \<or> r = Inr 1) \<and> sc_tmp w' = None) \<or> (\<exists>e. r = Inl e \<and> \<not> is_Exception e)))"
  using status_leaves_nothing [OF assms prod.collapse [symmetric]] by (simp add: case_prod_unfold Let_def)

theorem status_read_only_witness:
  "rows_of (st_db (snd (check_status (\<lambda>_. []) ''+00:00'' (Inr () :: exn + unit) sample_viewer
     ((status_of_jobs None)\<lparr>sa_view := True, sa_convergence := True\<rparr>) sample_screen))) = rows_of sample_db"
  using status_read_only [of sample_screen "\<lambda>_. []" "''+00:00''" "Inr () :: exn + unit" sample_viewer
    "(status_of_jobs None)\<lparr>sa_view := True, sa_convergence := True\<rparr>"]
  by (auto simp: case_prod_unfold Let_def visible_def committed_def)

section \<open>Persistence\<close>

text \<open>C15: Task rows round-trip: a valid task written to a row is read back as itself without its pending
  events, and a task read from a row that satisfies the table's CHECK is written back to that row, with
  the row's status.\<close>

theorem task_rows_round_trip:
  assumes "task_valid t" "row_to_task r = Inr u" "task_check r"
  shows "row_to_task (task_to_row t) = Inr (t\<lparr>t_events := []\<rparr>)
    \<and> task_to_row u = r \<and> t_events u = [] \<and> t_status u = r_status r"
  using row_of_task [OF assms(1)] task_of_row [OF assms(2,3)] by simp

theorem task_rows_round_trip_witness:
  "row_to_task (task_to_row (mk_running 2)) = Inr (mk_running 2)"
proof -
  have v: "task_valid (mk_running 2)"
    by (simp add: task_valid_def mk_running_def mk_task_def allocated_node_id_of_def)
  have r: "row_to_task (task_to_row (mk_running 2)) = Inr ((mk_running 2)\<lparr>t_events := []\<rparr>)"
    by (rule row_of_task [OF v])
  have c: "task_check (task_to_row (mk_running 2))"
    by (simp add: task_check_def task_to_row_def mk_running_def mk_task_def t_status_def allocated_node_id_of_def error_of_def remote_folder_of_def)
  show ?thesis using task_rows_round_trip [OF v r c] by (simp add: mk_running_def mk_task_def)
qed

text \<open>In a well-formed database every row decodes, to a task or node that encodes to that row: no query
  of a healthy database fails on its data.\<close>

theorem rows_decode:
  assumes "db_wf d" "r \<in> set (d_tasks d)" "q \<in> set (d_nodes d)"
  shows "(\<exists>t. row_to_task r = Inr t \<and> task_to_row t = r \<and> t_status t = r_status r)
    \<and> (\<exists>n. row_to_node q = Inr n \<and> node_to_row n = q)"
  using row_to_task_wf [OF assms(1,2)] row_to_node_wf [OF assms(1,3)] by blast

theorem rows_decode_witness:
  "\<exists>t. row_to_task (sample_row 2 RUNNING (Some 1) (Some ''/t/2'')) = Inr t"
  using rows_decode [OF sample_db_wf, of "sample_row 2 RUNNING (Some 1) (Some ''/t/2'')" "sample_node 1 True None"]
  by (auto simp: sample_db_def)

text \<open>C16: A guarded save in a unit of work is atomic: either it fails, and neither the tables nor the
  handlers saw anything, or a row with the task's id and the expected status existed, exactly those rows
  were replaced, creation time and id kept, and the task's events were published after the commit; a
  cancellation while publishing keeps the commit.\<close>

theorem guarded_save_atomic:
  "(let (r, s') = with_uow (thenM (tasks_save t ex) uow_commit) (s :: 'x store_scheme); d = st_db s
    in (\<exists>e. r = Inl e \<and> visible s' = visible s)
     \<or> ((\<exists>q \<in> set (d_tasks d). update_matches (tid_value (t_task_id t)) ex q)
        \<and> d_tasks (st_db s') = map (\<lambda>q. if update_matches (tid_value (t_task_id t)) ex q
                                       then updated_row d (task_to_row t) q else q) (d_tasks d)
        \<and> d_nodes (st_db s') = d_nodes d
        \<and> ((r = Inr () \<and> published [t] s s') \<or> (r = Inl CancelledError \<and> partly_published [t] s s'))))"
  by (rule save_commit_outcome)

section \<open>The domain\<close>

text \<open>The life of a task: a transition succeeds exactly from its source status, into its target status,
  and else raises the error of that status; a successful one appends one event about this task and
  leaves identity, engine, label, inputs and webhook alone, and from RUNNING the node as well.\<close>

theorem transition_machine:
  "(case apply_transition tr t of
      Inl e \<Rightarrow> t_status t \<noteq> source_status tr \<and> e = status_error tr (t_task_id t)
    | Inr t' \<Rightarrow> t_status t = source_status tr \<and> t_status t' = target_status tr
        \<and> (\<exists>ev. t_events t' = t_events t @ [ev] \<and> event_base ev = base_of t)
        \<and> t_task_id t' = t_task_id t \<and> t_engine t' = t_engine t \<and> t_label t' = t_label t
        \<and> t_created_at t' = t_created_at t \<and> t_extra t' = t_extra t \<and> t_webhook_url t' = t_webhook_url t
        \<and> (t_status t = RUNNING \<longrightarrow> allocated_node_id_of t' = allocated_node_id_of t))"
proof (cases "apply_transition tr t")
  case (Inl e)
  then show ?thesis using transition_total [where tr = tr and t = t] by simp
next
  case (Inr t')
  show ?thesis
    using transition_Inr [OF Inr] transition_event [OF Inr] transition_identity [OF Inr] transition_keeps_node [OF Inr]
    by (simp add: Inr)
qed

theorem transition_machine_witness:
  "case apply_transition (TrAbandon ''gone'') (mk_running 2) of
     Inl e \<Rightarrow> False | Inr t' \<Rightarrow> allocated_node_id_of t' = Some (NodeId 1)"
  using transition_machine [where tr = "TrAbandon ''gone''" and t = "mk_running 2"]
  by (auto simp: mk_running_def mk_task_def t_status_def allocated_node_id_of_def split: sum.splits)

text \<open>Every event reaches every handler of its kind, in order, although handlers fail: an exception of a
  handler stops neither the remaining handlers nor the remaining events.\<close>

theorem dispatch_complete:
  assumes "uncancelled b"
  shows "dispatch b evs tr = (Inr (), tr @ concat (map (calls_for b) evs))"
  by (rule dispatch_isolated [OF assms])

theorem dispatch_complete_witness:
  "dispatch (bus_register KCreated (Handler ''b'' (\<lambda>_. None)) (bus_register KCreated (Handler ''a'' (\<lambda>_. Some (OSErr ''x''))) []))
     [TaskCreated (base_of (mk_task 1)) ''dummy''] [] = (Inr (), [(''a'', TaskCreated (base_of (mk_task 1)) ''dummy''), (''b'', TaskCreated (base_of (mk_task 1)) ''dummy'')])"
proof -
  let ?b = "bus_register KCreated (Handler ''b'' (\<lambda>_. None)) (bus_register KCreated (Handler ''a'' (\<lambda>_. Some (OSErr ''x''))) [])"
  have "uncancelled ?b" by (simp add: uncancelled_def bus_register_def)
  from dispatch_complete [OF this, of "[TaskCreated (base_of (mk_task 1)) ''dummy'']" "[]"] show ?thesis
    by (simp add: calls_for_def handlers_of_def bus_register_def)
qed

text \<open>Two tasks created in the same second get the same remote folder only if they are the same
  task; so the uploads of one task never land in the folder of another.\<close>

theorem folders_distinct:
  assumes "t_created_at t = t_created_at u"
  shows "remote_folder_for dir t = remote_folder_for dir u \<longleftrightarrow> t_task_id t = t_task_id u"
  using remote_folder_inject [OF assms] by (cases "t_task_id t"; cases "t_task_id u") simp

theorem folders_distinct_witness:
  "remote_folder_for (mk_path ''/t'') (mk_task 1) \<noteq> remote_folder_for (mk_path ''/t'') (mk_task 2)"
  using folders_distinct [of "mk_task 1" "mk_task 2" "mk_path ''/t''"] by (simp add: mk_task_def)

section \<open>Queues, machines and clouds\<close>

text \<open>In every reachable state of a bounded queue no id occurs twice among the waiting, the pending and
  the blocked message, the waiting messages are within the bound, and the count of unfinished messages,
  which \<open>join\<close> waits on, is that of the waiting and the pending ones.\<close>

theorem queue_invariant:
  assumes "uq_reach n q"
  shows "distinct (uq_ids q) \<and> uq_unfinished q = uq_qsize q + uq_psize q \<and> (0 < n \<longrightarrow> uq_qsize q \<le> n)"
  using uq_inv_reach [OF assms] by (simp add: uq_inv_def)

theorem queue_invariant_witness:
  "uq_unfinished (snd (uq_put (UMessage 1 ''a'') (uq_new 5) :: put_result \<times> (int, string) uqueue)) = 1"
proof -
  have "uq_reach 5 (snd (uq_put (UMessage 1 ''a'') (uq_new 5) :: put_result \<times> (int, string) uqueue))"
    by (rule uq_reach.step [OF uq_reach.start], rule uq_step.Put [OF _ prod.collapse [symmetric]]) (simp add: uq_new_def)
  from queue_invariant [OF this] show ?thesis
    by (simp add: uq_put_def um_in_def uq_full_def uq_new_def uq_enqueue_def uq_qsize_def uq_psize_def)
qed

text \<open>The provider selected for a task has capacity left, supports a platform of the engine, and no other
  such provider has a higher priority; none is selected only if none is suitable.\<close>

theorem provider_selection:
  "(case select_provider_pure adapters configs ps counts of
      None \<Rightarrow> suitable_adapters adapters configs ps counts = []
    | Some a \<Rightarrow> (\<exists>name. (name, a) \<in> set adapters \<and> has_capacity configs counts name
                  \<and> (\<exists>p \<in> set ps. \<exists>c \<in> set (ad_checks a). c p))
        \<and> (\<forall>b \<in> set (suitable_adapters adapters configs ps counts).
             adapter_priority configs b \<le> adapter_priority configs a))"
  using select_provider_pure_None [of adapters configs ps counts]
    select_provider_pure_Some [of adapters configs ps counts]
  by (auto simp: suitable_iff supports_iff split: option.splits)

theorem provider_selection_witness:
  "select_provider_pure [(''hetzner'', get_hetzner_adapter ''hetzner'')] [(''hetzner'', sample_hetzner)]
     [''windows''] [] = None"
  using provider_selection [of "[(''hetzner'', get_hetzner_adapter ''hetzner'')]" "[(''hetzner'', sample_hetzner)]"
      "[''windows'']" "[]"]
  by (auto simp: get_hetzner_adapter_def adapter_default_def can_debian_def has_capacity_def split: option.splits)



text \<open>The retry loop ends: as long as the wrapped call does not turn the clock back, the rounds the
  deadline admits are enough, and any more fuel gives the same run.\<close>

theorem retry_ends:
  assumes "retry_params_ok p" "clock_monotone m"
  shows "retry_loop (retry_rounds p + k) p (w_clock w + rp_max_time p) (rp_initial_delay p) m w = retry p m w"
  by (rule retry_fuel_enough [OF assms])

theorem retry_ends_witness:
  "retry_loop (retry_rounds (retry_defaults is_SSHRetry) + 7) (retry_defaults is_SSHRetry)
     (w_clock sample_world + 60) 1 (raiseM (SSHRetryErr ''x'')) sample_world =
   (retry (retry_defaults is_SSHRetry) (raiseM (SSHRetryErr ''x'') :: (unit, unit) wprog) sample_world)"
proof -
  have ok: "retry_params_ok (retry_defaults is_SSHRetry)" by (simp add: retry_params_ok_def retry_defaults_def)
  have mono: "clock_monotone (raiseM (SSHRetryErr ''x'') :: (unit, unit) wprog)"
    by (simp add: clock_monotone_def raiseM_def)
  have p: "rp_max_time (retry_defaults is_SSHRetry) = 60" "rp_initial_delay (retry_defaults is_SSHRetry) = 1"
    by (simp_all add: retry_defaults_def)
  show ?thesis using retry_ends [OF ok mono, of 7 sample_world] unfolding p .
qed

text \<open>Starting a task on a machine returns only \<open>True\<close>, from FREE to BUSY; a busy machine refuses with
  the error of its node and nothing changes; any other failure, the cancellation included, leaves the
  machine FREE again or its session closed.  Other sessions are not touched.\<close>

theorem start_marks_busy:
  assumes "sid < length (w_heap w)"
  shows "(let (r, w') = deployer_start repr quote sid e t ncpus engines_dir w
    in (case r of
          Inr b \<Rightarrow> b \<and> m_state (ss_machine (sess w sid)) = FREE \<and> m_state (ss_machine (sess w' sid)) = BUSY
        | Inl err \<Rightarrow> (m_state (ss_machine (sess w sid)) = BUSY \<and> w' = w
              \<and> err = MachineBusyError (m_node_id (ss_machine (sess w sid))))
            \<or> ss_closed (sess w' sid) \<or> m_state (ss_machine (sess w' sid)) = FREE)
      \<and> (\<forall>x. x \<noteq> sid \<longrightarrow> sess w' x = sess w x))"
  using deployer_start_machine [OF assms prod.collapse [symmetric], of repr quote e t ncpus engines_dir]
  by (auto simp: case_prod_unfold Let_def split: sum.splits)

theorem start_marks_busy_witness:
  "case fst (deployer_start (\<lambda>_. '''') id 0 sample_engine (mk_running 2) 4 (mk_path ''/d'') sample_world) of
     Inl e \<Rightarrow> True | Inr b \<Rightarrow> b"
  using start_marks_busy [of 0 sample_world "\<lambda>_. ''''" id sample_engine "mk_running 2" 4 "mk_path ''/d''"]
  by (auto simp: case_prod_unfold Let_def split: sum.splits)

text \<open>The remote folder of a task is deleted only after every output file was fetched without an error:
  what is removed is the task's own folder, and all the fetches precede it.\<close>

theorem outputs_before_removal:
  assumes "(sid, OpRmtree p) \<in> set (drop (length (w_remote w)) (w_remote (snd (download_outputs sid rd ld files w))))"
  shows "p = path_str (mk_path rd) \<and>
    (\<exists>w1. dl_loop sid ld files [] [] w = (Inr (None, [], []), w1)
       \<and> w_remote w1 = w_remote w @ fetch_ops sid ld files)"
  by (rule download_rmtree [OF prod.collapse [symmetric] assms])

theorem outputs_before_removal_witness:
  "''/t/2'' = path_str (mk_path ''/t/2'')"
proof -
  have "(0, OpRmtree ''/t/2'') \<in> set (drop (length (w_remote sample_world))
      (w_remote (snd (download_outputs 0 ''/t/2'' ''/l'' [''/t/2/out''] sample_world))))"
    by code_simp
  from outputs_before_removal [OF this] show ?thesis by simp
qed

text \<open>A machine is reported free only when the check of its engine really says so: the process is not
  found, or the command answers another exit code.  An unreachable machine counts as busy.\<close>

theorem free_only_when_checked:
  "occupancy_check pb x e = Inr False \<longleftrightarrow>
     (if truthy (e_check_pname e) then pb_pgrep pb x (the (e_check_pname e)) = Inr []
      else if truthy (e_check_cmd e)
      then \<exists>rc. pb_run pb x (the (e_check_cmd e)) = Inr rc \<and> rc \<noteq> Some (e_check_cmd_code e)
      else True)"
  using occupancy_free_iff [of pb x e] by auto

text \<open>The free machines offered to a task are exactly the registered sessions that are FREE and share a
  platform with the engine, each once, the longest free first.\<close>

theorem free_machines:
  assumes "sessions_ok w"
  shows "(sid \<in> set (repo_list_free (Some ps) w) \<longleftrightarrow>
       (\<exists>nid. repo_get_session nid w = Some sid) \<and> m_state (ss_machine (sess w sid)) = FREE
       \<and> set (m_platforms (ss_machine (sess w sid))) \<inter> set ps \<noteq> {})
   \<and> distinct (repo_list_free (Some ps) w)
   \<and> sorted (map (\<lambda>sid. case m_free_since (ss_machine (sess w sid)) of None \<Rightarrow> 0 | Some t \<Rightarrow> t)
        (repo_list_free (Some ps) w))"
  using repo_list_free_iff [OF assms, of sid "Some ps"] repo_list_free_distinct [OF assms]
    repo_list_free_sorted [of w "Some ps"] by simp

theorem free_machines_witness: "0 \<in> set (repo_list_free (Some [''linux'']) sample_world)"
  using free_machines [OF sample_sessions_ok, of 0 "[''linux'']"]
  by (auto simp: repo_get_session_def sample_session_def)

section \<open>Notification\<close>



section \<open>Platforms\<close>

text \<open>C19: Detecting a machine's platform asks it at most once for each thing that is not known of it yet, four commands
  at most.  The platforms reported are those all of whose checks hold, the most specific first, whose adapter is chosen;
  none is guessed only if no platform's checks hold.  Whatever was found or not found, a second detection says the same
  without a command; only an error of the connection is not remembered.\<close>

theorem platform_detection:
  "(let (r, w') = detect_platform (ADAPTERS json) w in
     length (sn_log w') \<le> length (sn_log w) + unknowns w
   \<and> (case r of
       Inr (a, ps) \<Rightarrow> a \<in> set (ADAPTERS json) \<and> ps \<noteq> [] \<and> hd ps = ma_platform a
         \<and> ps = filter (\<lambda>p. holds (platform_facts p) w') platform_names
         \<and> detect_platform (ADAPTERS json) w' = (r, w')
     | Inl PlatformGuessFailed \<Rightarrow> filter (\<lambda>p. holds (platform_facts p) w') platform_names = []
         \<and> detect_platform (ADAPTERS json) w' = (r, w')
     | Inl x \<Rightarrow> \<exists>e. x = SshRaised e))"
proof -
  obtain r w' where run: "detect_platform (ADAPTERS json) w = (r, w')" by fastforce
  note d = detect_outcome [OF run]
  show ?thesis
  proof (cases r)
    case (Inl x)
    show ?thesis using d(1) d(3) d(4) d(5) [OF Inl] unfolding run Inl by (cases x) (auto simp: Inl)
  next
    case (Inr p)
    obtain a ps where p: "p = (a, ps)" by (cases p)
    have "detect_platform (ADAPTERS json) w' = (Inr (a, ps), w')" using d(4) by (simp add: Inr p)
    then show ?thesis
      using d(1) d(2) [OF Inr [unfolded p]] unfolding run Inr p Let_def prod.case sum.case by blast
  qed
qed

theorem platform_detection_witness:
  "\<exists>a. map_sum id (\<lambda>(a, ps). (ma_platform a, ps)) (fst (detect_platform (ADAPTERS (\<lambda>_. None)) debian_conn))
      = Inr (''debian'', [''debian'', ''debian-like'', ''linux''])
    \<and> length (sn_log (snd (detect_platform (ADAPTERS (\<lambda>_. None)) debian_conn))) \<le> 4"
proof -
  obtain a where a: "fst (detect_platform (ADAPTERS (\<lambda>_. None)) debian_conn) = Inr (a, [''debian'', ''debian-like'', ''linux''])"
    using debian_detected by (cases "fst (detect_platform (ADAPTERS (\<lambda>_. None)) debian_conn)") auto
  have "unknowns debian_conn = 4" "sn_log debian_conn = []"
    by (simp_all add: debian_conn_def sample_ssh_def unknowns_def unknown_def)
  then show ?thesis
    using platform_detection [of "\<lambda>_. None" debian_conn] a by (simp add: case_prod_unfold Let_def)
qed





text \<open>C22: \<open>apt-get\<close> is run at most three times, with at most fifteen seconds of waiting in all: again only after exit
  status 100, and no more after a success, another status or an error of the connection.  The outcome is that of
  the last run.\<close>

theorem apt_retry:
  "\<exists>n w'. 1 \<le> n \<and> n \<le> 3
    \<and> run_apt_with_retry quote cmd w = (checked (answer_at (sn_answers w) (n - 1)), w')
    \<and> sn_log w' = sn_log w @ apt_trace cmd 1 n \<and> waited (apt_trace cmd 1 n) \<le> 15 \<and> sn_answers w' = drop n (sn_answers w)
    \<and> (\<forall>i < n - 1. transient_failure (answer_at (sn_answers w) i))
    \<and> (n < 3 \<longrightarrow> \<not> transient_failure (answer_at (sn_answers w) (n - 1)))"
proof -
  obtain n w' where n: "1 \<le> n" "n \<le> 3" and o: "run_apt_with_retry quote cmd w = (checked (answer_at (sn_answers w) (n - 1)), w')"
      "sn_log w' = sn_log w @ apt_trace cmd 1 n" "sn_answers w' = drop n (sn_answers w)"
      "\<forall>i < n - 1. transient_failure (answer_at (sn_answers w) i)"
      "n < 3 \<longrightarrow> \<not> transient_failure (answer_at (sn_answers w) (n - 1))"
    using apt_loop_outcome [of 1 3 quote cmd None w] by (auto simp: run_apt_with_retry_def)
  have "n = 1 \<or> n = 2 \<or> n = 3" using n by linarith
  then have "waited (apt_trace cmd 1 n) \<le> 15" by (elim disjE) (simp_all add: numeral_2_eq_2 numeral_3_eq_3)
  then show ?thesis using n o by blast
qed

theorem apt_retry_witness:
  "fst (run_apt_with_retry shlex_quote ''apt-get update'' (sample_ssh [Inr (Some 100, None), answered_ok '''']))
     \<in> {Inr (), Inl (ProcessFailed 100)}"
proof -
  let ?as = "[Inr (Some 100, None), answered_ok '''']" and ?w = "sample_ssh [Inr (Some 100, None), answered_ok '''']"
  obtain n w' where n: "n \<le> 3" "1 \<le> n" "n < 3 \<longrightarrow> \<not> transient_failure (answer_at ?as (n - 1))"
      "\<forall>i < n - 1. transient_failure (answer_at ?as i)"
      and run: "run_apt_with_retry shlex_quote ''apt-get update'' ?w = (checked (answer_at ?as (n - 1)), w')"
    using apt_retry [of shlex_quote "''apt-get update''" ?w] by (auto simp: sample_ssh_def)
  have t: "transient_failure (answer_at ?as 0)" "\<not> transient_failure (answer_at ?as 1)" "checked (answer_at ?as 1) = Inr ()"
    by (simp_all add: transient_failure_def answer_at_def checked_def answered_ok_def apt_transient_def)
  have "n \<noteq> 1" using n(3) t(1) by auto
  moreover have "n \<noteq> 3" using n(4) t(2) by auto
  ultimately have "n = 2" using n(1,2) by linarith
  then show ?thesis using run t(3) by simp
qed

section \<open>Schema migrations\<close>

text \<open>C23: However a run of the migration runner over SQL files fails, the database is left exactly as after
  some initial part of the pending files, each with its tracker row, and after all of them when the run
  returns; the connection is closed either way.\<close>

theorem migrations_atomic:
  assumes "\<forall>f \<in> set (migration_plan env w). path_suffix f = ''.sql''"
  shows "(let (r, w') = apply_migrations env w; p = migration_plan env w in mg_conn w' = NoConn
    \<and> (\<exists>k \<le> length p. migrate_all env (take k p) (mg_server w) = Some (mg_server w') \<and> (r = Inr () \<longrightarrow> k = length p)))"
  using apply_migrations_outcome [OF assms prod.collapse [symmetric]] unfolding case_prod_unfold Let_def .

theorem migrations_atomic_witness:
  "mg_conn (snd (apply_migrations sample_mig_env (sample_mig (Some [''012'']) []))) = NoConn"
proof -
  have "\<forall>f \<in> set (migration_plan sample_mig_env (sample_mig (Some [''012'']) [])). path_suffix f = ''.sql''"
    using packaged_sql by (auto simp: migration_plan_def pending_def split: sum.splits option.splits)
  from migrations_atomic [OF this] show ?thesis by (simp add: case_prod_unfold Let_def)
qed



text \<open>C25: Whatever state the database was in (fresh, from before the tracker, or at any packaged version), a
  \<open>yainit\<close> that succeeds leaves it at the newest packaged version, where the daemon's check finds it CURRENT.\<close>

theorem init_reaches_current:
  assumes "prefixes_ordered (scan_migrations env)" "scan_migrations env \<noteq> []"
    and "\<forall>f \<in> set (scan_migrations env). path_suffix f = ''.sql''"
    and "prefix_id (last (scan_migrations env)) = schema_last_migration"
    and "g_tracker (mg_server w) = None \<or> g_tracker (mg_server w) = Some ids \<and> at_most schema_last_migration ids"
    and "init_schema sc env w = (Inr (Inr ()), w')"
  shows "fst (check_migration_status env (w'\<lparr>mg_faults := []\<rparr>))
    = Inr \<lparr>ms_state = CURRENT, ms_applied = Some schema_last_migration, ms_required = schema_last_migration\<rparr>"
  using init_current [OF assms] check_status_calm [of "w'\<lparr>mg_faults := []\<rparr>" env] assms(2,4) by simp

theorem init_reaches_current_witness:
  "fst (check_migration_status sample_mig_env ((sample_mig (Some [''013'']) [])\<lparr>mg_faults := []\<rparr>))
    = Inr \<lparr>ms_state = CURRENT, ms_applied = Some ''013'', ms_required = ''013''\<rparr>"
proof -
  have run: "init_schema sample_schema sample_mig_env (sample_mig None []) = (Inr (Inr ()), sample_mig (Some [''013'']) [])"
    by code_simp
  from init_reaches_current [OF _ _ _ _ _ run] packaged_ordered packaged_sql sample_last show ?thesis
    by (simp add: sample_mig_def schema_last_migration_def)
qed

text \<open>C26: The retry of the tracker record of a Python migration.  When the INSERT fails inside the migration's
  transaction, the retry is refused too, for its BEGIN meets an aborted transaction.  When the server refuses
  the COMMIT, the migration's changes are lost and the retry records the migration as applied.\<close>

theorem py_tracker_retry:
  assumes "mg_conn s = InTxn v False" "g_tracker v = Some js" "g_tracker (mg_server s) = Some ids" "p \<notin> set js" "p \<notin> set ids"
  shows "record_py_tracker p (s\<lparr>mg_faults := [Some (DatabaseError e)]\<rparr>)
      = (Inl tx_aborted, s\<lparr>mg_faults := [], mg_conn := InTxn v True\<rparr>)
    \<and> record_py_tracker p (s\<lparr>mg_faults := [None, Some (DatabaseError e)]\<rparr>)
      = (Inr (), s\<lparr>mg_faults := [], mg_conn := NoTx, mg_server := (mg_server s)\<lparr>g_tracker := Some (ids @ [p])\<rparr>\<rparr>)"
  using py_retry_in_transaction [of "s\<lparr>mg_faults := [Some (DatabaseError e)]\<rparr>"]
    py_commit_refused [of "s\<lparr>mg_faults := [None, Some (DatabaseError e)]\<rparr>" v e js ids p] assms by simp_all

theorem py_tracker_retry_witness:
  "g_data (mg_server (snd (record_py_tracker ''014'' ((sample_mig (Some [''013'']) [])\<lparr>
      mg_conn := InTxn \<lparr>g_tracker = Some [''013''], g_data = [''changed'']\<rparr> False,
      mg_faults := [None, Some (DatabaseError ''deferred constraint'')]\<rparr>)))) = []"
  using py_tracker_retry [of "(sample_mig (Some [''013'']) [])\<lparr>mg_conn := InTxn \<lparr>g_tracker = Some [''013''], g_data = [''changed'']\<rparr> False\<rparr>"
      "\<lparr>g_tracker = Some [''013''], g_data = [''changed'']\<rparr>" "[''013'']" "[''013'']" "''014''" "''deferred constraint''"]
  by (simp add: sample_mig_def)

text \<open>A database error while the tracker is read counts as "nothing applied": every packaged script is run
  again, whatever the tracker holds.\<close>

theorem migration_read_error:
  assumes "mg_faults w = [None, Some (DatabaseError m)]"
    and "\<forall>f \<in> set (scan_migrations env). path_suffix f = ''.sql''"
    and "migrate_all env (scan_migrations env) (mg_server w) = Some v"
  shows "apply_migrations env w = (Inr (), w\<lparr>mg_server := v, mg_conn := NoConn, mg_faults := []\<rparr>)"
  by (rule read_error_restarts [OF assms])

text \<open>A database seeded with the newest of two versions, as if it were fresh: the older script is run on it.\<close>

theorem migration_read_error_witness:
  "apply_migrations (sample_mig_env\<lparr>me_dir := [''012_a.sql'']\<rparr>)
     ((sample_mig (Some [''013'']) [])\<lparr>mg_faults := [None, Some (DatabaseError ''timeout'')]\<rparr>)
   = (Inr (), sample_mig (Some [''013'', ''012'']) [''012_a.sql''])"
proof -
  let ?e = "sample_mig_env\<lparr>me_dir := [''012_a.sql'']\<rparr>"
  have "scan_migrations ?e = [''012_a.sql'']" "path_suffix ''012_a.sql'' = ''.sql''"
    "migrate_all ?e [''012_a.sql''] (mg_server (sample_mig (Some [''013'']) []))
      = Some \<lparr>g_tracker = Some [''013'', ''012''], g_data = [''012_a.sql'']\<rparr>"
    by code_simp+
  then show ?thesis
    using migration_read_error [of "(sample_mig (Some [''013'']) [])\<lparr>mg_faults := [None, Some (DatabaseError ''timeout'')]\<rparr>"
        "''timeout''" ?e] by (simp add: sample_mig_def)
qed

section \<open>The operator's command\<close>

text \<open>C27: Removing a node by force is one transaction.  Either nothing changed and the command failed, or the
  node's row is gone, no task refers to it, the tasks that were RUNNING on it (which the command lists) are
  DONE, and every other task is as before, less its reference to the node.\<close>

theorem forced_removal:
  assumes "db_wf (st_db s)"
  shows "(let (r, s') = remove_node_hard n s; i = nid_value (n_node_id n) in
     (\<exists>e. r = Inl e \<and> visible s' = visible s)
     \<or> (retired_db i (st_db s) (st_db s')
        \<and> ((\<exists>ids. r = Inr ids \<and> tid_value ` set ids = r_task_id ` {t \<in> set (d_tasks (st_db s)). runs_on i t})
           \<or> r = Inl CancelledError)))"
  using remove_hard_outcome [OF assms prod.collapse [symmetric], of n] by (simp add: case_prod_unfold Let_def)

theorem forced_removal_witness:
  "retired_db 1 sample_db (st_db (snd (remove_node_hard (cloud_node\<lparr>n_node_id := NodeId 1\<rparr>) sample_world)))"
proof -
  have "fst (remove_node_hard (cloud_node\<lparr>n_node_id := NodeId 1\<rparr>) sample_world) = Inr [TaskId 2]"
    by code_simp
  then show ?thesis
    using forced_removal [of sample_world "cloud_node\<lparr>n_node_id := NodeId 1\<rparr>"] sample_db_wf
    by (simp add: case_prod_unfold Let_def)
qed

text \<open>Removing a node softly keeps its running work: a node with a RUNNING task is only disabled, its
  row and all tasks stay; an idle node's row goes.  On an error nothing changed.\<close>

theorem soft_removal:
  "(let (r, s') = remove_node_soft n s; i = nid_value (n_node_id n) in
     (\<exists>e. r = Inl e \<and> visible s' = visible s)
     \<or> (st_trace s' = st_trace s
        \<and> (if \<exists>t \<in> set (d_tasks (st_db s)). runs_on i t
           then (r = Inr Disabled \<or> r = Inl CancelledError) \<and> disabled_db i (st_db s) (st_db s')
           else (r = Inr Removed \<or> r = Inl CancelledError) \<and> removed_db i (st_db s) (st_db s'))))"
  using remove_soft_outcome [OF prod.collapse [symmetric], of n s] by (simp add: case_prod_unfold Let_def)



text \<open>C29: The host argument round-trips: what the printer writes for a valid specification (brackets around an
  address with colons, user, port and CPU count) is read back as the same specification.\<close>

theorem host_argument_round_trip:
  assumes "host_spec_ok hs" "host_spec_plain hs"
  shows "parse_host_spec (show_host_spec hs) = Inr hs"
  by (rule host_spec_round_trip [OF assms])

theorem host_argument_round_trip_witness:
  "parse_host_spec ''bob@[::1]:2200~8''
   = Inr \<lparr>hs_host = ''::1'', hs_username = Some ''bob'', hs_port = 2200, hs_ncpus = Some 8\<rparr>"
proof -
  let ?hs = "\<lparr>hs_host = ''::1'', hs_username = Some ''bob'', hs_port = 2200, hs_ncpus = Some 8\<rparr>"
  have "host_spec_ok ?hs" "host_spec_plain ?hs" "show_host_spec ?hs = ''bob@[::1]:2200~8''"
    by code_simp+
  with host_argument_round_trip [of ?hs] show ?thesis by simp
qed

section \<open>Cloud providers\<close>

text \<open>C30: Deleting a Hetzner server returns only when the vendor has answered 404 for it: the last request
  asked for this very server.  Otherwise the call raises Hetzner's error, or the cancellation; and it never
  sends more than 27 requests.\<close>

theorem hetzner_deletion:
  "(let (r, w') = hetzner_delete_node cfg ext w in
     (case r of Inr _ \<Rightarrow> \<exists>i. py_int ext = Some i \<and> gone_at (''servers/'' @ show_int i) w'
      | Inl x \<Rightarrow> (\<exists>m. x = ApiError m None) \<or> \<not> api_Exception x)
     \<and> (\<exists>l. vn_log w' = vn_log w @ l \<and> length l \<le> 27))"
  using hetzner_delete_outcome [OF prod.collapse [symmetric], where cfg = cfg and ext = ext and w = w] hetzner_delete_requests [of cfg ext]
  by (simp add: case_prod_unfold Let_def grows_def)

text \<open>A lost DELETE is repeated, an accepted one is confirmed by polling.\<close>

theorem hetzner_deletion_witness:
  "gone_at ''servers/42'' (snd (hetzner_delete_node sample_hz ''42''
     (vendor_sample [Transport ''reset'', Answer 204 [] NoBody, ok_json [(''server'', sample_server)], Answer 404 ''gone'' NoBody])))"
proof -
  let ?w = "vendor_sample [Transport ''reset'', Answer 204 [] NoBody, ok_json [(''server'', sample_server)], Answer 404 ''gone'' NoBody]"
  have "fst (hetzner_delete_node sample_hz ''42'' ?w) = Inr ()" "py_int ''42'' = Some 42" "show_int 42 = ''42''"
    by code_simp+
  with hetzner_deletion [of sample_hz "''42''" ?w] show ?thesis by (auto simp: case_prod_unfold Let_def)
qed





text \<open>C33: The VastAI provider never rents above the configured price: every renting request it sends is for
  an offer that the vendor listed in this run at a price within the ceiling.\<close>

theorem vastai_price_limit:
  assumes "(q, a) \<in> set (drop (length (vn_log w)) (vn_log (snd (vastai_create_node fl cfg key cc w))))" "hq_method q = ''PUT''"
  shows "\<exists>offer. hq_path q = ''asks/'' @ num_text fl (pget offer ''id'')
    \<and> listed_offer (vn_log (snd (vastai_create_node fl cfg key cc w))) (va_max_price_per_hr cfg) offer"
  by (rule vastai_price_ceiling [OF prod.collapse [symmetric] _ assms]) (rule vastai_log_grows)

theorem vastai_price_limit_witness:
  "\<exists>offer. listed_offer (vn_log (snd (vastai_create_node (\<lambda>_. []) sample_vastai sample_key None vast_market))) (3 / 2) offer"
proof -
  let ?l = "vn_log (snd (vastai_create_node (\<lambda>_. []) sample_vastai sample_key None vast_market))"
  have "hq_method (fst (?l ! 2)) = ''PUT''" "2 < length ?l" "length (vn_log vast_market) = 0" by code_simp+
  moreover from this have "(fst (?l ! 2), snd (?l ! 2)) \<in> set (drop (length (vn_log vast_market)) ?l)" by simp
  ultimately obtain offer where "listed_offer ?l (va_max_price_per_hr sample_vastai) offer"
    using vastai_price_limit [of "fst (?l ! 2)" "snd (?l ! 2)" vast_market "\<lambda>_. []" sample_vastai sample_key None] by blast
  then show ?thesis by (auto simp: sample_vastai_def)
qed

text \<open>C34: A VastAI instance is handed over only when the vendor's last answer showed it running with an
  address and a port.  A failure of the wait is followed by a DELETE of the instance, and the error raised is
  that of the wait, or the cancellation of the clean-up.\<close>

theorem vastai_creation:
  "(let (r, w') = va_launch fl cfg cc offer label w in case r of
      Inr dto \<Rightarrow> \<exists>i inst. dto = va_dto cfg i inst \<and> va_running_at i inst w'
    | Inl x \<Rightarrow> (\<exists>y w1 z. va_create_instance fl (pget offer ''id'') (va_params cfg label cc) w = (Inl y, w1)
          \<and> va_reconcile 10 label w1 = (z, w') \<and> (z = Inr () \<and> x = y \<or> z = Inl x))
        \<or> (\<exists>i w1 w2 y. va_create_instance fl (pget offer ''id'') (va_params cfg label cc) w = (Inr i, w1)
             \<and> wait_until_ready i (cb_connect_grace cfg) w1 = (Inl y, w2) \<and> (x = y \<or> \<not> api_Exception x)
             \<and> deletes (va_instance_path i) w2 < deletes (va_instance_path i) w'))"
  using va_launch_outcome [OF prod.collapse [symmetric], where fl = fl and cfg = cfg and cc = cc and offer = offer and label = label and w = w] by (simp add: case_prod_unfold Let_def)

theorem vastai_creation_witness:
  "\<exists>i inst. va_running_at i inst (snd (va_launch (\<lambda>_. []) sample_vastai None (sample_offer 5 1) ''ya'' 
     (vendor_sample (drop 2 (map snd (vn_answers vast_market))))))"
proof -
  let ?w = "vendor_sample (drop 2 (map snd (vn_answers vast_market)))"
  have "map_sum id dto_port (fst (va_launch (\<lambda>_. []) sample_vastai None (sample_offer 5 1) ''ya'' ?w)) = Inr 40022"
    by code_simp
  with vastai_creation [of "\<lambda>_. []" sample_vastai None "sample_offer 5 1" "''ya''" ?w] show ?thesis
    by (cases "fst (va_launch (\<lambda>_. []) sample_vastai None (sample_offer 5 1) ''ya'' ?w)") (auto simp: case_prod_unfold Let_def)
qed

text \<open>C35: Deleting an Azure machine touches nothing but the machine and the network interface whose tag is the
  address.  When it returns, the machine was stopped and deleted first, if the listing has one, and then the
  interface; an address nothing carries is no error.\<close>

theorem azure_deletion:
  assumes "az_delete_node ext w = (r, w')" "zn_vm_pages w = (vms, e) # ps" "zn_nic_pages w = (nics, e') # qs"
  defines "vm \<equiv> find (\<lambda>v. tag_ip (av_tags v) = Some ext) vms" and "nic \<equiv> find (\<lambda>n. tag_ip (an_tags n) = Some ext) nics"
  shows "\<exists>l. zn_log w' = zn_log w @ l
     \<and> (\<forall>c b. (c, b) \<in> set l \<longrightarrow> c \<in> {ListVms, ListNics}
          \<or> (\<exists>v. vm = Some v \<and> c \<in> set (vm_calls (av_name v))) \<or> (\<exists>n. nic = Some n \<and> c \<in> set (nic_calls (an_name n))))
     \<and> (r = Inr () \<longrightarrow> map fst l = ListVms # (case vm of None \<Rightarrow> [] | Some v \<Rightarrow> vm_calls (av_name v))
                          @ ListNics # (case nic of None \<Rightarrow> [] | Some n \<Rightarrow> nic_calls (an_name n)))"
  unfolding vm_def nic_def by (rule az_deletion [OF assms(1-3)])

theorem azure_deletion_witness:
  "map fst (zn_log (snd (az_delete_node ''10.0.0.5'' (sample_az [])))) = ListVms # vm_calls ''b'' @ ListNics # nic_calls ''b-nic''"
proof -
  obtain w' where run: "az_delete_node ''10.0.0.5'' (sample_az []) = (Inr (), w')"
    by (simp add: sample_az_def az_delete_node_def az_delete_vm_def az_delete_nic_def az_vms_def az_nics_def az_note_def az_act_def
      monad_simps tag_ip_def id_tag_name_def numeral_eq_Suc)
  let ?w = "sample_az []"
  have pages: "zn_vm_pages ?w = (fst (hd (zn_vm_pages ?w)), None) # []" "zn_nic_pages ?w = (fst (hd (zn_nic_pages ?w)), None) # []"
    "zn_log ?w = []" by (simp_all add: sample_az_def)
  have found: "map_option av_name (find (\<lambda>v. tag_ip (av_tags v) = Some ''10.0.0.5'') (fst (hd (zn_vm_pages ?w)))) = Some ''b''"
    "map_option an_name (find (\<lambda>n. tag_ip (an_tags n) = Some ''10.0.0.5'') (fst (hd (zn_nic_pages ?w)))) = Some ''b-nic''"
    by (simp_all add: sample_az_def tag_ip_def id_tag_name_def)
  from azure_deletion [OF run pages(1,2)] run pages(3) found show ?thesis by auto
qed



text \<open>An error of an earlier attempt outlives the success: when the first attempt to destroy an UpCloud server
  fails and the second finds that the server is gone, the old error is raised, and the storages stay.\<close>

theorem upcloud_stale_error:
  assumes "un_acts w = None # Some (UpError c) # Some (UpError not_found) # rest" "c \<noteq> not_found"
  shows "fst (up_destroy s w) = Inl (UpError c)
     \<and> un_log (snd (up_destroy s w)) = un_log w @ [(StopServer (us_uuid s), True), (Pause 20, True),
         (DestroyServer (us_uuid s), False), (Pause 5, True), (DestroyServer (us_uuid s), False)]"
  using assms by (simp add: up_destroy_def numeral_3_eq_3 monad_simps up_act_def up_note_def up_sleep_def)

theorem upcloud_stale_error_witness:
  "fst (up_destroy \<lparr>us_uuid = ''u'', us_storages = [''d1'']\<rparr> (sample_up [None, Some (UpError ''SERVER_STATE_ILLEGAL''), Some (UpError ''SERVER_NOT_FOUND'')]))
   = Inl (UpError ''SERVER_STATE_ILLEGAL'')"
  using upcloud_stale_error [of "sample_up [None, Some (UpError ''SERVER_STATE_ILLEGAL''), Some (UpError ''SERVER_NOT_FOUND'')]"
    "''SERVER_STATE_ILLEGAL''" "[]" "\<lparr>us_uuid = ''u'', us_storages = [''d1'']\<rparr>"]
  by (simp add: sample_up_def not_found_def)


section \<open>Configuration\<close>





text \<open>C40: The options that spell out a Hetzner, UpCloud or Vultr configuration are read back as that configuration,
  up to the checks of its constructor.\<close>

theorem provider_options_round_trip:
  assumes "dget (cloud_specs fy) (cfg_prefix c) = Some sp" "sp_coerce sp = []" "plain_values (sp_fields sp) (cloud_values c)"
  shows "cloud_of_section fy rf shown (cloud_options shown c sp) (cfg_prefix c) sp = mk_config shown c"
  by (rule Config_Facts.cloud_options_round_trip [OF assms])

theorem provider_options_round_trip_witness:
  "\<exists>sp. cloud_of_section sample_fs (\<lambda>_. None) (\<lambda>_. []) (cloud_options (\<lambda>_. []) sample_hetzner sp) ''hetzner'' sp = Inr sample_hetzner"
proof -
  obtain sp where sp: "dget (cloud_specs sample_fs) (cfg_prefix sample_hetzner) = Some sp" "sp_coerce sp = []"
    "plain_values (sp_fields sp) (cloud_values sample_hetzner)"
    by (simp add: sample_hetzner_def cloud_specs_def plain_values_def field_lists base_values_def)
  have "mk_config (\<lambda>_. []) sample_hetzner = Inr sample_hetzner"
    by (simp add: sample_hetzner_def mk_config_def base_checks_def cloud_base.defs validate_int_def validate_interval_def MAX_PORT_def)
  with provider_options_round_trip [OF sp, of "\<lambda>_. None" "\<lambda>_. []"] show ?thesis by (auto simp: sample_hetzner_def)
qed

end
